(* ===== verification/MxlPrelude.thy ===== *)
theory MxlPrelude
  imports Complex_Main "HOL-Library.Word" "HOL-Library.Signed_Division"
begin

text \<open>
  What every component of the MXL library shares: the widths of the machine integers, the status
  codes of the C interface (\<^verbatim>\<open>mxlStatus\<close>), the outcome of a C++ call (it returns, it throws, or
  its behaviour is undefined), the checked signed arithmetic of \<^verbatim>\<open>int64_t\<close> and \<^verbatim>\<open>__int128_t\<close>, and the
  lemmas on machine words that carry the proofs about indices and ring offsets.
\<close>

section \<open>Machine integers\<close>

type_synonym u8 = "8 word"
type_synonym u16 = "16 word"
type_synonym u32 = "32 word"
type_synonym u64 = "64 word"

text \<open>\<^verbatim>\<open>MXL_UNDEFINED_INDEX\<close> is \<^verbatim>\<open>UINT64_MAX\<close>.\<close>

definition MXL_UNDEFINED_INDEX :: u64 where
  "MXL_UNDEFINED_INDEX = 0xFFFFFFFFFFFFFFFF"

section \<open>Status codes of the public interface\<close>

datatype mxlStatus =
    MXL_STATUS_OK
  | MXL_ERR_UNKNOWN
  | MXL_ERR_FLOW_NOT_FOUND
  | MXL_ERR_OUT_OF_RANGE_TOO_LATE
  | MXL_ERR_OUT_OF_RANGE_TOO_EARLY
  | MXL_ERR_INVALID_FLOW_READER
  | MXL_ERR_INVALID_FLOW_WRITER
  | MXL_ERR_TIMEOUT
  | MXL_ERR_INVALID_ARG
  | MXL_ERR_CONFLICT
  | MXL_ERR_PERMISSION_DENIED
  | MXL_ERR_FLOW_INVALID
  | MXL_ERR_STRLEN
  | MXL_ERR_INTERRUPTED
  | MXL_ERR_NO_FABRIC
  | MXL_ERR_INVALID_STATE
  | MXL_ERR_INTERNAL
  | MXL_ERR_NOT_READY
  | MXL_ERR_NOT_FOUND
  | MXL_ERR_EXISTS
  | MXL_ERR_UNSUPPORTED_OPERATION

section \<open>Outcomes of a call\<close>

text \<open>
  A C++ call returns a value, throws one of the exceptions the library uses, or runs into undefined
  behaviour: a division by zero, a signed overflow, a null dereference, a conversion of a floating
  point value that does not fit. The last one is a value of the model too, so that a theorem can say
  where the code is free of it and where it is not.
\<close>

datatype errc =
    ENOENT | EACCES | EPERM | EROFS | EEXIST | ENOTEMPTY | ENOTDIR | EIO | ENOMEM | EWOULDBLOCK
  | EBADF | EOTHER

datatype exn =
    InvalidArgument
  | DomainError
  | RuntimeError
  | TypeMismatch
  | SystemError errc
  | FilesystemError errc
  | OutOfRange
  | OfiException mxlStatus
  | FabricException mxlStatus int
  | UnknownException

datatype 'a res = Ret 'a | Throw exn | Undef

fun bind_res :: "'a res \<Rightarrow> ('a \<Rightarrow> 'b res) \<Rightarrow> 'b res" where
  "bind_res (Ret x) f = f x"
| "bind_res (Throw e) f = Throw e"
| "bind_res Undef f = Undef"

fun map_ret :: "('a \<Rightarrow> 'b) \<Rightarrow> 'a res \<Rightarrow> 'b res" where
  "map_ret f (Ret x) = Ret (f x)"
| "map_ret f (Throw e) = Throw e"
| "map_ret f Undef = Undef"

definition assert_or :: "bool \<Rightarrow> exn \<Rightarrow> unit res" where
  "assert_or b e = (if b then Ret () else Throw e)"

named_theorems res_simps \<open>equations that run the outcome monad\<close>

lemma bind_res_Ret_iff [res_simps]:
  "bind_res m f = Ret y \<longleftrightarrow> (\<exists>x. m = Ret x \<and> f x = Ret y)"
  by (cases m) auto

lemma bind_res_assoc [res_simps]:
  "bind_res (bind_res m f) g = bind_res m (\<lambda>x. bind_res (f x) g)"
  by (cases m) auto

lemma assert_or_Ret_iff [res_simps]: "assert_or b e = Ret u \<longleftrightarrow> b"
  by (auto simp: assert_or_def)

lemma bind_assert_or [res_simps]:
  "bind_res (assert_or b e) f = (if b then f () else Throw e)"
  by (simp add: assert_or_def)

lemma map_ret_Ret_iff [res_simps]: "map_ret f m = Ret y \<longleftrightarrow> (\<exists>x. m = Ret x \<and> y = f x)"
  by (cases m) auto

section \<open>Signed arithmetic\<close>

text \<open>
  Signed overflow is undefined in C++, so a signed operation is checked: \<^verbatim>\<open>chk64\<close> and \<^verbatim>\<open>chk128\<close> give
  \<open>Undef\<close> for a mathematical result outside the type. A conversion to an integer type is modular
  (C++20), which \<open>cast_i64\<close> and \<open>word_of_int\<close> compute.
\<close>

definition in_i64 :: "int \<Rightarrow> bool" where
  "in_i64 x \<longleftrightarrow> - (2 ^ 63) \<le> x \<and> x < 2 ^ 63"

definition in_i128 :: "int \<Rightarrow> bool" where
  "in_i128 x \<longleftrightarrow> - (2 ^ 127) \<le> x \<and> x < 2 ^ 127"

definition chk64 :: "int \<Rightarrow> int res" where
  "chk64 x = (if in_i64 x then Ret x else Undef)"

definition chk128 :: "int \<Rightarrow> int res" where
  "chk128 x = (if in_i128 x then Ret x else Undef)"

definition cast_i64 :: "int \<Rightarrow> int" where
  "cast_i64 x = (x + 2 ^ 63) mod 2 ^ 64 - 2 ^ 63"

definition cast_u64 :: "int \<Rightarrow> u64" where
  "cast_u64 x = word_of_int x"

text \<open>The division of C++ truncates towards zero; a zero divisor is undefined.\<close>

definition div_chk :: "int \<Rightarrow> int \<Rightarrow> int res" where
  "div_chk a b = (if b = 0 then Undef else Ret (a sdiv b))"

lemma chk64_Ret_iff [res_simps]: "chk64 x = Ret y \<longleftrightarrow> in_i64 x \<and> y = x"
  by (auto simp: chk64_def)

lemma chk128_Ret_iff [res_simps]: "chk128 x = Ret y \<longleftrightarrow> in_i128 x \<and> y = x"
  by (auto simp: chk128_def)

lemma bind_chk64 [res_simps]: "bind_res (chk64 x) f = (if in_i64 x then f x else Undef)"
  by (simp add: chk64_def)

lemma bind_chk128 [res_simps]: "bind_res (chk128 x) f = (if in_i128 x then f x else Undef)"
  by (simp add: chk128_def)

lemma cast_i64_id [simp]: "in_i64 x \<Longrightarrow> cast_i64 x = x"
  by (simp add: cast_i64_def in_i64_def)

lemma cast_i64_range: "in_i64 (cast_i64 x)"
proof -
  have "0 \<le> (x + 2 ^ 63) mod 2 ^ 64" "(x + 2 ^ 63) mod 2 ^ 64 < (2 ^ 64 :: int)"
    by simp_all
  then show ?thesis
    by (simp add: in_i64_def cast_i64_def)
qed

lemma cast_u64_uint [simp]: "0 \<le> x \<Longrightarrow> x < 2 ^ 64 \<Longrightarrow> uint (cast_u64 x) = x"
  by (simp add: cast_u64_def uint_word_of_int)

lemma cast_u64_of_uint [simp]: "cast_u64 (uint w) = w"
  by (simp add: cast_u64_def)

lemma sdiv_nonneg: "0 \<le> a \<Longrightarrow> 0 < b \<Longrightarrow> a sdiv b = a div b" for a b :: int
  by (cases "a = 0") (auto simp: signed_divide_int_def)

section \<open>Machine words\<close>

named_theorems unat_rules \<open>moves a machine-word equation or bound to the naturals\<close>

lemma unat_minus_le [unat_rules]: "b \<le> a \<Longrightarrow> unat (a - b) = unat a - unat b"
  by (rule unat_sub)

lemma unat_plus_fits [unat_rules]:
  "unat a + unat b < 2 ^ LENGTH('a) \<Longrightarrow> unat (a + b) = unat a + unat b"
  for a b :: "'a::len word"
  by (simp add: unat_add_lem [symmetric])

lemmas [unat_rules] = unat_div unat_mod

lemma unat_u64_less: "unat (w :: u64) < 2 ^ 64"
  using unsigned_less [of w] by simp

lemma unat_u32_less: "unat (w :: u32) < 2 ^ 32"
  using unsigned_less [of w] by simp

lemma unat_ucast_32_64 [simp]: "unat (ucast (w :: u32) :: u64) = unat w"
  using unat_u32_less [of w] by (simp add: unsigned_ucast_eq take_bit_nat_eq_self)

lemma word_eq_unat: "a = b \<longleftrightarrow> unat a = unat b" for a b :: "'a::len word"
  by (rule word_unat_eq_iff)

lemma unat_MXL_UNDEFINED_INDEX: "unat MXL_UNDEFINED_INDEX = 2 ^ 64 - 1"
  by (simp add: MXL_UNDEFINED_INDEX_def)

lemma u64_le_UNDEFINED: "w \<le> MXL_UNDEFINED_INDEX"
  using unat_u64_less [of w] by (simp add: word_le_nat_alt unat_MXL_UNDEFINED_INDEX)

lemma u64_less_UNDEFINED: "w \<noteq> MXL_UNDEFINED_INDEX \<Longrightarrow> w < MXL_UNDEFINED_INDEX"
  using u64_le_UNDEFINED [of w] by simp

section \<open>Ring positions\<close>

text \<open>Two different indices less than a ring length apart never share a slot.\<close>

lemma mod_neq_of_close:
  fixes a b n :: nat
  assumes "a < b" and "b < a + n"
  shows "a mod n \<noteq> b mod n"
proof
  assume "a mod n = b mod n"
  then have "n dvd b - a"
    using \<open>a < b\<close> by (metis less_imp_le_nat mod_eq_dvd_iff_nat)
  moreover have "0 < b - a" "b - a < n"
    using assms by auto
  ultimately show False
    using nat_dvd_not_less by blast
qed

lemma mod_inj_window:
  fixes a b lo n :: nat
  assumes "lo \<le> a" "a < lo + n" "lo \<le> b" "b < lo + n" "a mod n = b mod n"
  shows "a = b"
proof (rule ccontr)
  assume "a \<noteq> b"
  then consider "a < b" | "b < a" by linarith
  then show False
  proof cases
    case 1
    with assms show False using mod_neq_of_close [of a b n] by simp
  next
    case 2
    with assms show False using mod_neq_of_close [of b a n] by simp
  qed
qed

end
