(* ===== verification/Bytes.thy ===== *)
theory Bytes
  imports MxlPrelude
begin

text \<open>
  The byte view of memory that the event ring needs: a word is its bytes in little-endian order, and
  \<^verbatim>\<open>EventRingBuffer::storeBytes\<close> and \<^verbatim>\<open>loadBytes\<close> copy a byte range as a sequence of 64-bit words, the
  last one padded with zeros.
\<close>

unbundle bit_operations_syntax

fun bytes_word :: "u8 list \<Rightarrow> 'a::len word" where
  "bytes_word [] = 0"
| "bytes_word (b # bs) = ucast b OR push_bit 8 (bytes_word bs)"

definition word_bytes :: "nat \<Rightarrow> 'a::len word \<Rightarrow> u8 list" where
  "word_bytes n w = map (\<lambda>i. ucast (drop_bit (8 * i) w)) [0..<n]"

lemma length_word_bytes [simp]: "length (word_bytes n w) = n"
  by (simp add: word_bytes_def)

lemma bit_bytes_word:
  "bit (bytes_word bs :: 'a::len word) n \<longleftrightarrow>
     n < LENGTH('a) \<and> n div 8 < length bs \<and> bit (bs ! (n div 8)) (n mod 8)"
proof (induction bs arbitrary: n)
  case Nil
  then show ?case by simp
next
  case (Cons b bs)
  show ?case
  proof (cases "n < 8")
    case True
    then show ?thesis
      by (auto simp: bit_or_iff bit_push_bit_iff bit_ucast_iff)
  next
    case False
    then obtain m where m: "n = m + 8"
      by (metis add.commute le_Suc_ex linorder_not_less)
    have "\<not> bit b n"
      using False bit_imp_le_length by fastforce
    then show ?thesis
      using Cons.IH [of m] m
      by (auto simp: bit_or_iff bit_push_bit_iff bit_ucast_iff dest: bit_imp_le_length)
  qed
qed

lemma nth_word_bytes: "i < n \<Longrightarrow> word_bytes n w ! i = ucast (drop_bit (8 * i) w)"
  by (simp add: word_bytes_def)

lemma bytes_word_word_bytes [simp]:
  assumes "LENGTH('a) = 8 * n"
  shows "bytes_word (word_bytes n (w :: 'a::len word)) = w"
proof (rule bit_word_eqI)
  fix i
  assume i: "i < LENGTH('a)"
  then have "i div 8 < n"
    using assms by auto
  then show "bit (bytes_word (word_bytes n w) :: 'a word) i \<longleftrightarrow> bit w i"
    using i by (simp add: bit_bytes_word nth_word_bytes bit_ucast_iff bit_drop_bit_eq)
qed

lemma word_bytes_bytes_word:
  assumes "LENGTH('a) = 8 * n" and "length bs = n"
  shows "word_bytes n (bytes_word bs :: 'a::len word) = bs"
proof (rule nth_equalityI)
  show "length (word_bytes n (bytes_word bs :: 'a word)) = length bs"
    using assms by simp
next
  fix i
  assume "i < length (word_bytes n (bytes_word bs :: 'a word))"
  then have i: "i < n" by simp
  show "word_bytes n (bytes_word bs :: 'a word) ! i = bs ! i"
  proof (rule bit_word_eqI)
    fix j :: nat
    assume j: "j < LENGTH(8)"
    have "8 * i + j < LENGTH('a)"
      using i j assms by simp
    moreover have "(8 * i + j) div 8 = i" "(8 * i + j) mod 8 = j"
      using j by simp_all
    ultimately show "bit (word_bytes n (bytes_word bs :: 'a word) ! i) j \<longleftrightarrow> bit (bs ! i) j"
      using i j assms by (simp add: nth_word_bytes bit_ucast_iff bit_drop_bit_eq bit_bytes_word)
  qed
qed

text \<open>The words that \<^verbatim>\<open>storeBytes\<close> writes, and the bytes \<^verbatim>\<open>loadBytes\<close> reads back from words.\<close>

function to_words :: "u8 list \<Rightarrow> u64 list" where
  "to_words bs = (if bs = [] then [] else bytes_word (take 8 bs) # to_words (drop 8 bs))"
  by pat_completeness auto
termination
  by (relation "measure length") auto

declare to_words.simps [simp del]

lemma to_words_Nil [simp]: "to_words [] = []"
  by (simp add: to_words.simps)

definition from_words :: "nat \<Rightarrow> u64 list \<Rightarrow> u8 list" where
  "from_words n ws = take n (concat (map (word_bytes 8) ws))"

definition words_for :: "nat \<Rightarrow> nat" where
  "words_for n = (n + 7) div 8"

lemma length_to_words: "length (to_words bs) = words_for (length bs)"
proof (induction bs rule: to_words.induct)
  case (1 bs)
  show ?case
  proof (cases "bs = []")
    case True
    then show ?thesis by (simp add: words_for_def)
  next
    case False
    then have "length (to_words bs) = Suc (words_for (length bs - 8))"
      using 1 by (subst to_words.simps) simp
    also have "\<dots> = words_for (length bs)"
      using False by (cases "8 \<le> length bs") (auto simp: words_for_def le_div_geq Suc_leI)
    finally show ?thesis .
  qed
qed

lemma word_bytes_pad:
  assumes "length bs \<le> 8"
  shows "take (length bs) (word_bytes 8 (bytes_word bs :: u64)) = bs"
proof (rule nth_equalityI)
  show "length (take (length bs) (word_bytes 8 (bytes_word bs :: u64))) = length bs"
    using assms by simp
next
  fix i
  assume "i < length (take (length bs) (word_bytes 8 (bytes_word bs :: u64)))"
  then have i: "i < length bs" "i < 8"
    using assms by auto
  show "take (length bs) (word_bytes 8 (bytes_word bs :: u64)) ! i = bs ! i"
  proof (rule bit_word_eqI)
    fix j :: nat
    assume j: "j < LENGTH(8)"
    have "(8 * i + j) div 8 = i" "(8 * i + j) mod 8 = j" "8 * i + j < 64"
      using j i by simp_all
    then show "bit (take (length bs) (word_bytes 8 (bytes_word bs :: u64)) ! i) j \<longleftrightarrow> bit (bs ! i) j"
      using i j by (simp add: nth_word_bytes bit_ucast_iff bit_drop_bit_eq bit_bytes_word)
  qed
qed

lemma from_words_to_words [simp]: "from_words (length bs) (to_words bs) = bs"
proof (induction bs rule: to_words.induct)
  case (1 bs)
  show ?case
  proof (cases "bs = []")
    case True
    then show ?thesis by (simp add: from_words_def)
  next
    case False
    note IH = "1.IH" [OF False]
    show ?thesis
    proof (cases "length bs \<le> 8")
      case True
      then have "from_words (length bs) (to_words bs) = take (length bs) (word_bytes 8 (bytes_word bs :: u64))"
        using False by (subst to_words.simps) (simp add: from_words_def)
      with True show ?thesis by (simp add: word_bytes_pad)
    next
      case long: False
      have "from_words (length bs) (to_words bs)
          = word_bytes 8 (bytes_word (take 8 bs) :: u64) @ from_words (length (drop 8 bs)) (to_words (drop 8 bs))"
        using False long by (subst to_words.simps) (simp add: from_words_def)
      also have "word_bytes 8 (bytes_word (take 8 bs) :: u64) = take 8 bs"
        using long by (simp add: word_bytes_bytes_word)
      finally show ?thesis
        using IH by simp
    qed
  qed
qed

lemma from_words_prefix:
  assumes "n \<le> 8 * length ws"
  shows "from_words n (ws @ vs) = from_words n ws"
proof -
  have "length (concat (map (word_bytes 8) ws)) = 8 * length ws"
    by (induction ws) auto
  then show ?thesis
    using assms by (simp add: from_words_def)
qed

lemma words_for_cover: "n \<le> 8 * words_for n"
  by (simp add: words_for_def)

end
