(* ===== verification/Timing.thy ===== *)
theory Timing
  imports MxlPrelude
begin

text \<open>
  Points in time, durations and the conversion between timestamps and grain or sample indices:
  \<^verbatim>\<open>Timing.hpp\<close>, \<^verbatim>\<open>Time.cpp\<close>, \<^verbatim>\<open>detail/ClockHelpers.hpp\<close>, \<^verbatim>\<open>Timing.cpp\<close>, \<^verbatim>\<open>IndexConversion.hpp\<close>,
  \<^verbatim>\<open>Rational.hpp\<close> and the C functions of \<^verbatim>\<open>lib/src/time.cpp\<close>. A \<^verbatim>\<open>Timepoint\<close> and a \<^verbatim>\<open>Duration\<close> hold an
  \<^verbatim>\<open>int64_t\<close> of nanoseconds; their arithmetic is checked (\<open>Undef\<close> on signed overflow). The operating
  system's \<^verbatim>\<open>clock_gettime\<close> is a parameter.
\<close>

section \<open>Timepoint and Duration\<close>

datatype timepoint = Timepoint (tp_value: int)
datatype duration = Duration (du_value: int)

record timespec =
  tv_sec :: int
  tv_nsec :: int

definition tp_leq :: "timepoint \<Rightarrow> timepoint \<Rightarrow> bool" where
  "tp_leq lhs rhs \<longleftrightarrow> tp_value lhs \<le> tp_value rhs"

definition tp_less :: "timepoint \<Rightarrow> timepoint \<Rightarrow> bool" where
  "tp_less lhs rhs \<longleftrightarrow> tp_value lhs < tp_value rhs"

instantiation timepoint :: linorder
begin

definition less_eq_timepoint :: "timepoint \<Rightarrow> timepoint \<Rightarrow> bool" where
  "less_eq_timepoint = tp_leq"

definition less_timepoint :: "timepoint \<Rightarrow> timepoint \<Rightarrow> bool" where
  "less_timepoint = tp_less"

instance
  by standard (auto simp: less_eq_timepoint_def less_timepoint_def tp_leq_def tp_less_def timepoint.expand)

end

definition du_leq :: "duration \<Rightarrow> duration \<Rightarrow> bool" where
  "du_leq lhs rhs \<longleftrightarrow> du_value lhs \<le> du_value rhs"

definition du_less :: "duration \<Rightarrow> duration \<Rightarrow> bool" where
  "du_less lhs rhs \<longleftrightarrow> du_value lhs < du_value rhs"

instantiation duration :: linorder
begin

definition less_eq_duration :: "duration \<Rightarrow> duration \<Rightarrow> bool" where
  "less_eq_duration = du_leq"

definition less_duration :: "duration \<Rightarrow> duration \<Rightarrow> bool" where
  "less_duration = du_less"

instance
  by standard (auto simp: less_eq_duration_def less_duration_def du_leq_def du_less_def duration.expand)

end

lemmas time_order = less_eq_timepoint_def less_timepoint_def less_eq_duration_def less_duration_def tp_leq_def tp_less_def du_leq_def du_less_def

definition Timepoint0 :: timepoint where
  "Timepoint0 = Timepoint 0"

definition tp_bool :: "timepoint \<Rightarrow> bool" where
  "tp_bool t = (tp_value t \<noteq> 0)"

definition tp_swap :: "timepoint \<Rightarrow> timepoint \<Rightarrow> timepoint \<times> timepoint" where
  "tp_swap lhs rhs = (let temp = tp_value lhs; lhs = Timepoint (tp_value rhs); rhs = Timepoint temp in (lhs, rhs))"

definition du_swap :: "duration \<Rightarrow> duration \<Rightarrow> duration \<times> duration" where
  "du_swap lhs rhs = (let temp = du_value lhs; lhs = Duration (du_value rhs); rhs = Duration temp in (lhs, rhs))"

definition asTimepoint :: "timespec \<Rightarrow> timepoint res" where
  "asTimepoint ts =
     bind_res (chk64 (tv_sec ts * 1000000000)) (\<lambda>s.
     bind_res (chk64 (s + tv_nsec ts)) (\<lambda>v. Ret (Timepoint v)))"

definition asTimeSpec :: "timepoint \<Rightarrow> timespec" where
  "asTimeSpec t = \<lparr>tv_sec = tp_value t sdiv 1000000000, tv_nsec = tp_value t smod 1000000000\<rparr>"

definition asDuration :: "timespec \<Rightarrow> duration res" where
  "asDuration ts =
     bind_res (chk64 (tv_sec ts * 1000000000)) (\<lambda>s.
     bind_res (chk64 (s + tv_nsec ts)) (\<lambda>v. Ret (Duration v)))"

definition asTimeSpec_du :: "duration \<Rightarrow> timespec" where
  "asTimeSpec_du d = \<lparr>tv_sec = du_value d sdiv 1000000000, tv_nsec = du_value d smod 1000000000\<rparr>"

definition du_plus :: "duration \<Rightarrow> duration \<Rightarrow> duration res" where
  "du_plus lhs rhs = map_ret Duration (chk64 (du_value lhs + du_value rhs))"

definition du_minus :: "duration \<Rightarrow> duration \<Rightarrow> duration res" where
  "du_minus lhs rhs = map_ret Duration (chk64 (du_value lhs - du_value rhs))"

definition du_times_left :: "int \<Rightarrow> duration \<Rightarrow> duration res" where
  "du_times_left lhs rhs = map_ret Duration (chk64 (lhs * du_value rhs))"

definition du_times_right :: "duration \<Rightarrow> int \<Rightarrow> duration res" where
  "du_times_right lhs rhs = map_ret Duration (chk64 (du_value lhs * rhs))"

definition du_divide :: "duration \<Rightarrow> int \<Rightarrow> duration res" where
  "du_divide lhs rhs = bind_res (div_chk (du_value lhs) rhs) (\<lambda>q. map_ret Duration (chk64 q))"

definition tp_diff :: "timepoint \<Rightarrow> timepoint \<Rightarrow> duration res" where
  "tp_diff lhs rhs = map_ret Duration (chk64 (tp_value lhs - tp_value rhs))"

definition tp_minus :: "timepoint \<Rightarrow> duration \<Rightarrow> timepoint res" where
  "tp_minus lhs rhs =
     bind_res (chk64 (tp_value lhs - du_value rhs)) (\<lambda>diff. Ret (Timepoint (if diff \<ge> 0 then diff else 0)))"

definition tp_plus :: "timepoint \<Rightarrow> duration \<Rightarrow> timepoint res" where
  "tp_plus lhs rhs =
     bind_res (chk64 (tp_value lhs + du_value rhs)) (\<lambda>sum. Ret (Timepoint (if sum \<ge> 0 then sum else 0)))"

section \<open>Comparison of timespec values\<close>

definition ts_eq :: "timespec \<Rightarrow> timespec \<Rightarrow> bool" where
  "ts_eq lhs rhs \<longleftrightarrow> tv_sec lhs = tv_sec rhs \<and> tv_nsec lhs = tv_nsec rhs"

definition ts_neq :: "timespec \<Rightarrow> timespec \<Rightarrow> bool" where
  "ts_neq lhs rhs \<longleftrightarrow> \<not> ts_eq lhs rhs"

definition ts_less :: "timespec \<Rightarrow> timespec \<Rightarrow> bool" where
  "ts_less lhs rhs =
     (if tv_sec lhs < tv_sec rhs then True
      else if tv_sec lhs > tv_sec rhs then False
      else tv_nsec lhs < tv_nsec rhs)"

definition ts_leq :: "timespec \<Rightarrow> timespec \<Rightarrow> bool" where
  "ts_leq lhs rhs \<longleftrightarrow> ts_less lhs rhs \<or> ts_eq lhs rhs"

definition ts_greater :: "timespec \<Rightarrow> timespec \<Rightarrow> bool" where
  "ts_greater lhs rhs \<longleftrightarrow> \<not> ts_leq lhs rhs"

definition ts_geq :: "timespec \<Rightarrow> timespec \<Rightarrow> bool" where
  "ts_geq lhs rhs \<longleftrightarrow> \<not> ts_less lhs rhs"

lemmas ts_cmp = ts_eq_def ts_neq_def ts_less_def ts_leq_def ts_greater_def ts_geq_def

section \<open>Clocks\<close>

datatype clock = Monotonic | Realtime | TAI | ProcessCPUTime | ThreadCPUTime

datatype clockid =
  CLOCK_MONOTONIC_RAW | CLOCK_TAI | CLOCK_PROCESS_CPUTIME_ID | CLOCK_THREAD_CPUTIME_ID | CLOCK_REALTIME

text \<open>The Linux configuration, where \<^verbatim>\<open>CLOCK_TAI\<close> and \<^verbatim>\<open>CLOCK_MONOTONIC_RAW\<close> are defined.\<close>

fun clockToId :: "clock \<Rightarrow> clockid" where
  "clockToId Monotonic = CLOCK_MONOTONIC_RAW"
| "clockToId TAI = CLOCK_TAI"
| "clockToId ProcessCPUTime = CLOCK_PROCESS_CPUTIME_ID"
| "clockToId ThreadCPUTime = CLOCK_THREAD_CPUTIME_ID"
| "clockToId Realtime = CLOCK_REALTIME"

definition getClockOffset :: "clock \<Rightarrow> duration" where
  "getClockOffset c = Duration 0"

text \<open>\<open>gettime\<close> is \<^verbatim>\<open>clock_gettime\<close>: the time of a clock, or nothing when the call fails.\<close>

definition currentTime :: "(clockid \<Rightarrow> timespec option) \<Rightarrow> clock \<Rightarrow> timepoint res" where
  "currentTime gettime c =
     (case gettime (clockToId c) of
        None \<Rightarrow> Ret Timepoint0
      | Some ts \<Rightarrow> bind_res (asTimepoint ts) (\<lambda>t. tp_plus t (getClockOffset c)))"

section \<open>Rationals\<close>

record mxlRational =
  numerator :: int
  denominator :: int

definition rational_isValid :: "mxlRational \<Rightarrow> bool" where
  "rational_isValid r \<longleftrightarrow> denominator r \<noteq> 0"

definition rational_eq :: "mxlRational \<Rightarrow> mxlRational \<Rightarrow> bool res" where
  "rational_eq lhs rhs =
     bind_res (chk64 (numerator lhs * denominator rhs)) (\<lambda>a.
     bind_res (chk64 (denominator lhs * numerator rhs)) (\<lambda>b. Ret (a = b)))"

definition rational_neq :: "mxlRational \<Rightarrow> mxlRational \<Rightarrow> bool res" where
  "rational_neq lhs rhs = map_ret Not (rational_eq lhs rhs)"

definition rational_in_range :: "mxlRational \<Rightarrow> bool" where
  "rational_in_range r \<longleftrightarrow> in_i64 (numerator r) \<and> in_i64 (denominator r)"

section \<open>Index conversion\<close>

definition timestampToIndex :: "mxlRational \<Rightarrow> timepoint \<Rightarrow> u64 res" where
  "timestampToIndex editRate timestamp =
     (if denominator editRate \<noteq> 0 \<and> numerator editRate \<noteq> 0 then
        bind_res (chk128 (tp_value timestamp * numerator editRate)) (\<lambda>scaled.
        bind_res (chk128 (500000000 * denominator editRate)) (\<lambda>half.
        bind_res (chk128 (scaled + half)) (\<lambda>n.
        bind_res (chk128 (1000000000 * denominator editRate)) (\<lambda>d.
        bind_res (div_chk n d) (\<lambda>q.
        bind_res (chk128 q) (\<lambda>q. Ret (cast_u64 q)))))))
      else Ret MXL_UNDEFINED_INDEX)"

definition indexToTimestamp :: "mxlRational \<Rightarrow> u64 \<Rightarrow> timepoint res" where
  "indexToTimestamp editRate index =
     (if denominator editRate \<noteq> 0 \<and> numerator editRate \<noteq> 0 then
        bind_res (chk128 (uint index * denominator editRate)) (\<lambda>a.
        bind_res (chk128 (a * 1000000000)) (\<lambda>b.
        bind_res (chk128 (b + numerator editRate sdiv 2)) (\<lambda>n.
        bind_res (div_chk n (numerator editRate)) (\<lambda>q.
        bind_res (chk128 q) (\<lambda>q. Ret (Timepoint (cast_i64 q)))))))
      else Ret Timepoint0)"

section \<open>The C interface of time.cpp\<close>

text \<open>A null \<^verbatim>\<open>editRate\<close> pointer is \<open>None\<close>; \<open>tai\<close> is \<^verbatim>\<open>clock_gettime\<close>.\<close>

definition mxlGetTime :: "(clockid \<Rightarrow> timespec option) \<Rightarrow> u64 res" where
  "mxlGetTime gettime = map_ret (\<lambda>t. cast_u64 (tp_value t)) (currentTime gettime TAI)"

definition mxlTimestampToIndex :: "mxlRational option \<Rightarrow> u64 \<Rightarrow> u64 res" where
  "mxlTimestampToIndex editRate timestamp =
     (case editRate of
        Some r \<Rightarrow> timestampToIndex r (Timepoint (cast_i64 (uint timestamp)))
      | None \<Rightarrow> Ret MXL_UNDEFINED_INDEX)"

definition mxlGetCurrentIndex :: "(clockid \<Rightarrow> timespec option) \<Rightarrow> mxlRational option \<Rightarrow> u64 res" where
  "mxlGetCurrentIndex gettime editRate =
     (case editRate of
        None \<Rightarrow> Ret MXL_UNDEFINED_INDEX
      | Some r \<Rightarrow>
          if denominator r = 0 \<or> numerator r = 0 then Ret MXL_UNDEFINED_INDEX
          else bind_res (mxlGetTime gettime) (\<lambda>now.
                 if now \<noteq> 0 then mxlTimestampToIndex editRate now else Ret MXL_UNDEFINED_INDEX))"

definition mxlIndexToTimestamp :: "mxlRational option \<Rightarrow> u64 \<Rightarrow> u64 res" where
  "mxlIndexToTimestamp editRate index =
     (case editRate of
        Some r \<Rightarrow>
          bind_res (indexToTimestamp r index) (\<lambda>res.
            Ret (if tp_bool res \<or> index = 0 then cast_u64 (tp_value res) else MXL_UNDEFINED_INDEX))
      | None \<Rightarrow> Ret MXL_UNDEFINED_INDEX)"

definition mxlGetNsUntilIndex :: "(clockid \<Rightarrow> timespec option) \<Rightarrow> u64 \<Rightarrow> mxlRational option \<Rightarrow> u64 res" where
  "mxlGetNsUntilIndex gettime index editRate =
     (case editRate of
        None \<Rightarrow> Ret MXL_UNDEFINED_INDEX
      | Some r \<Rightarrow>
          if denominator r = 0 \<or> numerator r = 0 then Ret MXL_UNDEFINED_INDEX
          else bind_res (mxlIndexToTimestamp editRate index) (\<lambda>targetNs.
               bind_res (mxlGetTime gettime) (\<lambda>nowNs.
               Ret (if nowNs \<noteq> 0 \<and> targetNs \<ge> nowNs then targetNs - nowNs else 0))))"

section \<open>Properties\<close>

lemma mult_bound_i64:
  assumes "in_i64 a" and "in_i64 b"
  shows "\<bar>a * b\<bar> \<le> 2 ^ 126"
proof -
  have "\<bar>a\<bar> \<le> 2 ^ 63" "\<bar>b\<bar> \<le> 2 ^ 63"
    using assms by (auto simp: in_i64_def)
  then have "\<bar>a\<bar> * \<bar>b\<bar> \<le> 2 ^ 63 * 2 ^ 63"
    by (intro mult_mono) auto
  then show ?thesis by (simp add: abs_mult)
qed

lemma timestampToIndex_defined:
  assumes "rational_in_range r" and "in_i64 (tp_value t)"
  shows "\<exists>k. timestampToIndex r t = Ret k"
proof (cases "denominator r \<noteq> 0 \<and> numerator r \<noteq> 0")
  case False
  then have "timestampToIndex r t = Ret MXL_UNDEFINED_INDEX"
    unfolding timestampToIndex_def by (rule if_not_P)
  then show ?thesis by blast
next
  case True
  let ?n = "tp_value t * numerator r + 500000000 * denominator r"
  let ?d = "1000000000 * denominator r"
  have b: "\<bar>tp_value t * numerator r\<bar> \<le> 2 ^ 126"
    using assms by (intro mult_bound_i64) (auto simp: rational_in_range_def)
  have den: "- (2 ^ 63) \<le> denominator r" "denominator r < 2 ^ 63"
    using assms by (auto simp: rational_in_range_def in_i64_def)
  have chk: "in_i128 (tp_value t * numerator r)" "in_i128 (500000000 * denominator r)"
    "in_i128 ?n" "in_i128 ?d"
    using b den by (auto simp: in_i128_def abs_le_iff)
  have "\<bar>?n sdiv ?d\<bar> \<le> \<bar>?n\<bar>"
    using sdiv_int_range [of ?n ?d] by auto
  moreover have "\<bar>?n\<bar> < 2 ^ 127"
    using b den by (auto simp: abs_le_iff abs_less_iff)
  ultimately have "in_i128 (?n sdiv ?d)"
    by (auto simp: in_i128_def)
  then show ?thesis
    using True chk by (simp add: timestampToIndex_def res_simps div_chk_def)
qed

lemma timestampToIndex_pos:
  assumes "rational_in_range r" and "0 < numerator r" and "0 < denominator r"
    and "0 \<le> tp_value t" and "in_i64 (tp_value t)"
  shows "timestampToIndex r t =
    Ret (cast_u64 ((tp_value t * numerator r + 500000000 * denominator r) div (1000000000 * denominator r)))"
proof -
  obtain k where k: "timestampToIndex r t = Ret k"
    using timestampToIndex_defined assms by blast
  have "0 \<le> tp_value t * numerator r + 500000000 * denominator r"
    using assms by simp
  then show ?thesis
    using k assms by (auto simp: timestampToIndex_def res_simps div_chk_def sdiv_nonneg split: if_splits)
qed

lemma div_int_pos_less: "0 < b \<Longrightarrow> a < c * b \<Longrightarrow> a div b < c" for a b c :: int
proof (rule ccontr)
  assume "0 < b" "a < c * b" "\<not> a div b < c"
  then have "c * b \<le> a div b * b"
    by (simp add: mult_right_mono)
  also have "a div b * b \<le> a"
    using \<open>0 < b\<close> by (simp add: minus_mod_eq_div_mult [symmetric])
  finally show False
    using \<open>a < c * b\<close> by simp
qed

lemma in_i128_nonneg: "0 \<le> x \<Longrightarrow> x < 2 ^ 127 \<Longrightarrow> in_i128 x"
  by (simp add: in_i128_def)

lemma nearest_index:
  fixes num den i :: int
  assumes "0 < num" "0 < den" "num < 1000000000 * den"
  shows "((i * den * 1000000000 + num div 2) div num * num + 500000000 * den) div (1000000000 * den) = i"
proof (rule int_div_pos_eq [where r = "((i * den * 1000000000 + num div 2) div num * num + 500000000 * den) - 1000000000 * den * i"])
  let ?x = "i * den * 1000000000 + num div 2"
  have *: "?x div num * num = ?x - ?x mod num" by (simp add: minus_mod_eq_div_mult)
  have m: "0 \<le> ?x mod num" "?x mod num < num" using assms by auto
  show "(?x div num * num + 500000000 * den) = 1000000000 * den * i + ((?x div num * num + 500000000 * den) - 1000000000 * den * i)"
    by simp
  have e: "(?x div num * num + 500000000 * den) - 1000000000 * den * i = num div 2 - ?x mod num + 500000000 * den"
    unfolding * by (simp add: algebra_simps)
  show "0 \<le> (?x div num * num + 500000000 * den) - 1000000000 * den * i"
    unfolding e using m assms by linarith
  show "(?x div num * num + 500000000 * den) - 1000000000 * den * i < 1000000000 * den"
    unfolding e using m assms by linarith
qed
lemma scaled_in_i128:
  fixes a n t :: int
  assumes "0 \<le> a" "a * 1000000000 + n < 2 ^ 126" "0 < n" "0 \<le> t" "t < 2 ^ 63"
  shows "in_i128 a \<and> in_i128 (a * 1000000000) \<and> in_i128 (a * 1000000000 + n div 2) \<and> in_i128 t"
  using assms by (auto simp: in_i128_def)

lemma sec_nsec_eq:
  fixes a b x y :: int
  assumes "0 \<le> x" "x < 1000000000" "0 \<le> y" "y < 1000000000"
  shows "a * 1000000000 + x = b * 1000000000 + y \<longleftrightarrow> a = b \<and> x = y"
    and "a * 1000000000 + x < b * 1000000000 + y \<longleftrightarrow> a < b \<or> a = b \<and> x < y"
  using assms by (cases a b rule: linorder_cases; auto)+

lemma mult_div_le_int: "0 < g \<Longrightarrow> g * (v div g) \<le> v" for g v :: int
  using minus_mod_eq_mult_div [of v g] pos_mod_sign [of g v] by linarith

lemma sdiv_mult_between:
  fixes v g :: int
  assumes "0 < g"
  shows "min v 0 \<le> v sdiv g * g" and "v sdiv g * g \<le> max v 0"
proof -
  have *: "0 \<le> \<bar>v\<bar> div g * g" "\<bar>v\<bar> div g * g \<le> \<bar>v\<bar>"
    using assms zdiv_mono1 [of 0 "\<bar>v\<bar>" g] mult_div_le_int [of g "\<bar>v\<bar>"] by (auto simp: mult.commute)
  then show "min v 0 \<le> v sdiv g * g" "v sdiv g * g \<le> max v 0"
    using assms by (auto simp: signed_divide_int_def sgn_if)
qed

text \<open>
  C25: For a positive edit rate below one gigahertz, the index that \<^verbatim>\<open>timestampToIndex\<close> computes for
  the timestamp that \<^verbatim>\<open>indexToTimestamp\<close> gives an index is that index again, whenever the timestamp
  fits the 64-bit nanosecond count. Neither conversion is undefined on the way.
\<close>

theorem index_timestamp_roundtrip:
  assumes "rational_in_range r" and "0 < numerator r" and "0 < denominator r"
    and "numerator r < 1000000000 * denominator r"
    and "uint i * denominator r * 1000000000 + numerator r < 2 ^ 63 * numerator r"
  shows "bind_res (indexToTimestamp r i) (timestampToIndex r) = Ret i"
proof -
  let ?x = "uint i * denominator r * 1000000000 + numerator r div 2"
  let ?t = "?x div numerator r"
  have nn: "0 \<le> uint i * denominator r" "0 \<le> ?x"
    using assms by auto
  have num: "numerator r < 2 ^ 63"
    using assms by (simp add: rational_in_range_def in_i64_def)
  have "2 ^ 63 * numerator r < 2 ^ 63 * 2 ^ 63"
    using num by simp
  then have big: "uint i * denominator r * 1000000000 + numerator r < 2 ^ 126"
    using assms(5) by simp
  have "?x < 2 ^ 63 * numerator r"
    using assms by linarith
  then have t: "0 \<le> ?t" "?t < 2 ^ 63"
    using nn assms(2) by (auto simp: pos_imp_zdiv_nonneg_iff intro: div_int_pos_less)
  have chk: "in_i128 (uint i * denominator r) \<and> in_i128 (uint i * denominator r * 1000000000)
    \<and> in_i128 ?x \<and> in_i128 ?t"
    using scaled_in_i128 [of "uint i * denominator r" "numerator r" ?t] nn big assms(2) t by blast
  have ts: "indexToTimestamp r i = Ret (Timepoint ?t)"
    using assms nn chk t
    by (simp add: indexToTimestamp_def res_simps div_chk_def sdiv_nonneg in_i64_def)
  have "timestampToIndex r (Timepoint ?t) = Ret (cast_u64 (uint i))"
    using timestampToIndex_pos [of r "Timepoint ?t"] nearest_index [of "numerator r" "denominator r" "uint i"]
      assms t by (simp add: in_i64_def)
  then show ?thesis
    by (simp add: ts)
qed

theorem index_timestamp_roundtrip_witness:
  "bind_res (indexToTimestamp \<lparr>numerator = 60000, denominator = 1001\<rparr> 107892107892)
     (timestampToIndex \<lparr>numerator = 60000, denominator = 1001\<rparr>) = Ret 107892107892"
  by (rule index_timestamp_roundtrip) (simp_all add: rational_in_range_def in_i64_def)

text \<open>
  Splitting any 64-bit time point into seconds and nanoseconds and putting it together again gives
  the time point back, without overflow, negative values included.
\<close>

theorem timespec_roundtrip:
  assumes "in_i64 (tp_value t)"
  shows "asTimepoint (asTimeSpec t) = Ret t"
proof -
  let ?v = "tp_value t" and ?g = "1000000000 :: int"
  have eq: "?v sdiv ?g * ?g + ?v smod ?g = ?v"
    by (rule sdiv_mult_smod_eq)
  have "min ?v 0 \<le> ?v sdiv ?g * ?g" "?v sdiv ?g * ?g \<le> max ?v 0"
    by (rule sdiv_mult_between; simp)+
  then have "in_i64 (?v sdiv ?g * ?g)"
    using assms unfolding in_i64_def by linarith
  then show ?thesis
    using assms eq by (simp add: asTimepoint_def asTimeSpec_def res_simps)
qed

theorem timespec_roundtrip_witness:
  "asTimepoint (asTimeSpec (Timepoint (-1500000000))) = Ret (Timepoint (-1500000000))"
  by (rule timespec_roundtrip) (simp add: in_i64_def)

text \<open>
  On timespec values with a normalised nanosecond field, the comparison operators of
  \<^verbatim>\<open>Time.cpp\<close> order the values as their nanosecond counts are ordered.
\<close>

theorem timespec_order:
  assumes "0 \<le> tv_nsec a" "tv_nsec a < 1000000000" "0 \<le> tv_nsec b" "tv_nsec b < 1000000000"
    and "asTimepoint a = Ret s" and "asTimepoint b = Ret t"
  shows "(ts_less a b \<longleftrightarrow> s < t) \<and> (ts_leq a b \<longleftrightarrow> s \<le> t) \<and> (ts_eq a b \<longleftrightarrow> s = t)
    \<and> (ts_greater a b \<longleftrightarrow> t < s) \<and> (ts_geq a b \<longleftrightarrow> t \<le> s)"
proof -
  have s: "tp_value s = tv_sec a * 1000000000 + tv_nsec a" and t: "tp_value t = tv_sec b * 1000000000 + tv_nsec b"
    using assms by (auto simp: asTimepoint_def res_simps split: if_splits)
  have less: "ts_less a b \<longleftrightarrow> s < t"
    using sec_nsec_eq(2) [OF assms(1-4)] unfolding ts_less_def less_timepoint_def tp_less_def s t by auto
  have "s = t \<longleftrightarrow> tp_value s = tp_value t"
    using timepoint.expand by blast
  then have eq: "ts_eq a b \<longleftrightarrow> s = t"
    using sec_nsec_eq(1) [OF assms(1-4)] unfolding ts_eq_def s t by simp
  show ?thesis
    unfolding ts_leq_def ts_greater_def ts_geq_def less eq by auto
qed

theorem timespec_order_witness:
  "ts_less \<lparr>tv_sec = 1, tv_nsec = 999999999\<rparr> \<lparr>tv_sec = 2, tv_nsec = 0\<rparr>
     \<longleftrightarrow> Timepoint 1999999999 < Timepoint 2000000000"
  using timespec_order [of "\<lparr>tv_sec = 1, tv_nsec = 999999999\<rparr>" "\<lparr>tv_sec = 2, tv_nsec = 0\<rparr>"
      "Timepoint 1999999999" "Timepoint 2000000000"]
  by (simp add: asTimepoint_def chk64_def in_i64_def)

end
