(* ===== verification/FlowTypes.thy ===== *)
theory FlowTypes
  imports Bytes Timing
begin

text \<open>
  The data the library shares between processes: data formats (\<^verbatim>\<open>dataformat.h\<close>), line lengths of the
  video formats (\<^verbatim>\<open>MediaUtils.cpp\<close>), the flow configuration and runtime structures (\<^verbatim>\<open>flowinfo.h\<close>), the
  grain and event metadata (\<^verbatim>\<open>flow.h\<close>) and the flow state (\<^verbatim>\<open>FlowState.hpp\<close>). Padding bytes are left
  out, except in the event metadata, which the event ring copies byte for byte.
\<close>

section \<open>Data formats\<close>

datatype mxlDataFormat =
    MXL_DATA_FORMAT_UNSPECIFIED
  | MXL_DATA_FORMAT_VIDEO
  | MXL_DATA_FORMAT_AUDIO
  | MXL_DATA_FORMAT_DATA
  | MXL_DATA_FORMAT_EVENT

fun format_code :: "mxlDataFormat \<Rightarrow> int" where
  "format_code MXL_DATA_FORMAT_UNSPECIFIED = 0"
| "format_code MXL_DATA_FORMAT_VIDEO = 1"
| "format_code MXL_DATA_FORMAT_AUDIO = 2"
| "format_code MXL_DATA_FORMAT_DATA = 3"
| "format_code MXL_DATA_FORMAT_EVENT = 4"

definition mxlIsValidDataFormat :: "int \<Rightarrow> bool" where
  "mxlIsValidDataFormat f \<longleftrightarrow>
     f = format_code MXL_DATA_FORMAT_VIDEO \<or> f = format_code MXL_DATA_FORMAT_AUDIO \<or>
     f = format_code MXL_DATA_FORMAT_DATA \<or> f = format_code MXL_DATA_FORMAT_EVENT"

definition mxlIsSupportedDataFormat :: "int \<Rightarrow> bool" where
  "mxlIsSupportedDataFormat f \<longleftrightarrow>
     f = format_code MXL_DATA_FORMAT_VIDEO \<or> f = format_code MXL_DATA_FORMAT_AUDIO \<or>
     f = format_code MXL_DATA_FORMAT_DATA \<or> f = format_code MXL_DATA_FORMAT_EVENT"

definition mxlIsDiscreteDataFormat :: "int \<Rightarrow> bool" where
  "mxlIsDiscreteDataFormat f \<longleftrightarrow>
     f = format_code MXL_DATA_FORMAT_VIDEO \<or> f = format_code MXL_DATA_FORMAT_DATA"

definition mxlIsEventDataFormat :: "int \<Rightarrow> bool" where
  "mxlIsEventDataFormat f \<longleftrightarrow> f = format_code MXL_DATA_FORMAT_EVENT"

definition mxlIsContinuousDataFormat :: "int \<Rightarrow> bool" where
  "mxlIsContinuousDataFormat f \<longleftrightarrow> f = format_code MXL_DATA_FORMAT_AUDIO"

definition MXL_DATA_FORMAT_GRAIN_SIZE :: nat where
  "MXL_DATA_FORMAT_GRAIN_SIZE = 4096"

lemmas format_tests = mxlIsValidDataFormat_def mxlIsSupportedDataFormat_def mxlIsDiscreteDataFormat_def
  mxlIsEventDataFormat_def mxlIsContinuousDataFormat_def

text \<open>The three ways of moving data partition the supported formats.\<close>

lemma format_partition:
  "mxlIsSupportedDataFormat f \<longleftrightarrow>
     mxlIsDiscreteDataFormat f \<or> mxlIsEventDataFormat f \<or> mxlIsContinuousDataFormat f"
  by (auto simp: format_tests)

lemma format_exclusive:
  "\<not> (mxlIsDiscreteDataFormat f \<and> mxlIsEventDataFormat f)"
  "\<not> (mxlIsDiscreteDataFormat f \<and> mxlIsContinuousDataFormat f)"
  "\<not> (mxlIsEventDataFormat f \<and> mxlIsContinuousDataFormat f)"
  by (auto simp: format_tests)

section \<open>Line lengths\<close>

definition getV210LineLength :: "u64 \<Rightarrow> u32" where
  "getV210LineLength width = ucast ((width + 47) div 48 * 128)"

definition get10BitAlphaLineLength :: "u64 \<Rightarrow> u32" where
  "get10BitAlphaLineLength width = ucast ((width + 2) div 3 * 4)"

lemma unat_small_mult:
  fixes a b :: u64
  assumes "unat a * unat b < 2 ^ 64"
  shows "unat (a * b) = unat a * unat b"
  using assms by (simp add: unat_word_ariths)

lemma unat_getV210LineLength:
  assumes "unat width \<le> 1000000000"
  shows "unat (getV210LineLength width) = (unat width + 47) div 48 * 128"
proof -
  have a: "unat (width + 47) = unat width + 47"
    using assms by (subst unat_plus_fits) auto
  have d: "unat ((width + 47) div 48) = (unat width + 47) div 48"
    by (simp add: unat_div a)
  have b: "(unat width + 47) div 48 * 128 < 2 ^ 32"
    using assms by (simp add: less_mult_imp_div_less)
  have "unat ((width + 47) div 48 * 128) = (unat width + 47) div 48 * 128"
    using b by (subst unat_small_mult) (auto simp: d)
  then show ?thesis
    using b by (simp add: getV210LineLength_def unsigned_ucast_eq take_bit_nat_eq_self)
qed

lemma unat_get10BitAlphaLineLength:
  assumes "unat width \<le> 1000000000"
  shows "unat (get10BitAlphaLineLength width) = (unat width + 2) div 3 * 4"
proof -
  have a: "unat (width + 2) = unat width + 2"
    using assms by (subst unat_plus_fits) auto
  have d: "unat ((width + 2) div 3) = (unat width + 2) div 3"
    by (simp add: unat_div a)
  have b: "(unat width + 2) div 3 * 4 < 2 ^ 32"
    using assms by (simp add: less_mult_imp_div_less)
  have "unat ((width + 2) div 3 * 4) = (unat width + 2) div 3 * 4"
    using b by (subst unat_small_mult) (auto simp: d)
  then show ?thesis
    using b by (simp add: get10BitAlphaLineLength_def unsigned_ucast_eq take_bit_nat_eq_self)
qed

section \<open>Structures of the shared memory\<close>

definition MXL_GRAIN_FLAG_INVALID :: u32 where
  "MXL_GRAIN_FLAG_INVALID = 1"

definition MXL_GRAIN_VALID_SLICES_ANY :: u16 where
  "MXL_GRAIN_VALID_SLICES_ANY = 0"

definition MXL_GRAIN_VALID_SLICES_ALL :: u16 where
  "MXL_GRAIN_VALID_SLICES_ALL = 0xFFFF"

datatype mxlPayloadLocation = MXL_PAYLOAD_LOCATION_HOST_MEMORY | MXL_PAYLOAD_LOCATION_DEVICE_MEMORY

record mxlCommonFlowConfigInfo =
  cc_id :: "u8 list"
  cc_format :: int
  cc_flags :: u32
  cc_grainRate :: mxlRational
  cc_maxCommitBatchSizeHint :: u32
  cc_maxSyncBatchSizeHint :: u32
  cc_payloadLocation :: mxlPayloadLocation
  cc_deviceIndex :: int

record mxlDiscreteFlowConfigInfo =
  dc_sliceSizes :: "u32 list"
  dc_grainCount :: u32

record mxlContinuousFlowConfigInfo =
  cf_channelCount :: u32
  cf_bufferLength :: u32

record mxlEventFlowConfigInfo =
  ec_eventCount :: u32
  ec_eventPayloadSize :: u32

text \<open>The union of \<^verbatim>\<open>mxlFlowConfigInfo\<close>: the member that the format selects.\<close>

datatype flowConfigUnion =
    ConfigDiscrete mxlDiscreteFlowConfigInfo
  | ConfigContinuous mxlContinuousFlowConfigInfo
  | ConfigEvent mxlEventFlowConfigInfo

record mxlFlowConfigInfo =
  fc_common :: mxlCommonFlowConfigInfo
  fc_specific :: flowConfigUnion

record mxlFlowRuntimeInfo =
  headIndex :: u64
  lastWriteTime :: u64
  lastReadTime :: u64

record mxlFlowInfo =
  fi_version :: u32
  fi_size :: u32
  fi_config :: mxlFlowConfigInfo
  fi_runtime :: mxlFlowRuntimeInfo

record FlowState =
  fs_inode :: u64
  fs_syncCounter :: u32

definition FLOW_DATA_VERSION :: u32 where
  "FLOW_DATA_VERSION = 1"

definition GRAIN_HEADER_VERSION :: u32 where
  "GRAIN_HEADER_VERSION = 1"

definition EVENT_HEADER_VERSION :: u32 where
  "EVENT_HEADER_VERSION = 1"

record mxlGrainInfo =
  gi_version :: u32
  gi_size :: u32
  gi_index :: u64
  gi_flags :: u32
  gi_grainSize :: u32
  gi_totalSlices :: u16
  gi_validSlices :: u16

section \<open>Event metadata and its bytes\<close>

record mxlEventInfo =
  ei_version :: u32
  ei_size :: u32
  ei_timestamp :: u64
  ei_flags :: u32
  ei_registryType :: u32
  ei_dataItemType :: "u8 list"
  ei_eventSize :: u32
  ei_offset :: u32
  ei_complete :: u8
  ei_reserved :: "u8 list"
  ei_index :: u64

definition event_info_wf :: "mxlEventInfo \<Rightarrow> bool" where
  "event_info_wf i \<longleftrightarrow> length (ei_dataItemType i) = 256 \<and> length (ei_reserved i) = 215"

definition SIZEOF_EVENT_INFO :: nat where
  "SIZEOF_EVENT_INFO = 512"

text \<open>
  The object representation of \<^verbatim>\<open>mxlEventInfo\<close>: the code asserts that it has no padding and is 512
  bytes long, and copies it with \<^verbatim>\<open>memcpy\<close>; integers are little-endian.
\<close>

definition event_info_bytes :: "mxlEventInfo \<Rightarrow> u8 list" where
  "event_info_bytes i =
     word_bytes 4 (ei_version i) @ word_bytes 4 (ei_size i) @ word_bytes 8 (ei_timestamp i) @
     word_bytes 4 (ei_flags i) @ word_bytes 4 (ei_registryType i) @ ei_dataItemType i @
     word_bytes 4 (ei_eventSize i) @ word_bytes 4 (ei_offset i) @ [ei_complete i] @ ei_reserved i @
     word_bytes 8 (ei_index i)"

definition event_info_of_bytes :: "u8 list \<Rightarrow> mxlEventInfo" where
  "event_info_of_bytes bs =
     \<lparr>ei_version = bytes_word (take 4 bs),
      ei_size = bytes_word (take 4 (drop 4 bs)),
      ei_timestamp = bytes_word (take 8 (drop 8 bs)),
      ei_flags = bytes_word (take 4 (drop 16 bs)),
      ei_registryType = bytes_word (take 4 (drop 20 bs)),
      ei_dataItemType = take 256 (drop 24 bs),
      ei_eventSize = bytes_word (take 4 (drop 280 bs)),
      ei_offset = bytes_word (take 4 (drop 284 bs)),
      ei_complete = bytes_word (take 1 (drop 288 bs)),
      ei_reserved = take 215 (drop 289 bs),
      ei_index = bytes_word (take 8 (drop 504 bs))\<rparr>"

lemma length_event_info_bytes: "event_info_wf i \<Longrightarrow> length (event_info_bytes i) = SIZEOF_EVENT_INFO"
  by (simp add: event_info_bytes_def event_info_wf_def SIZEOF_EVENT_INFO_def)

lemma event_info_of_bytes_inverse:
  assumes "event_info_wf i"
  shows "event_info_of_bytes (event_info_bytes i) = i"
proof -
  have one: "bytes_word [ei_complete i] = ei_complete i"
    by simp
  show ?thesis
    using assms
    by (intro mxlEventInfo.equality)
      (simp_all add: event_info_of_bytes_def event_info_bytes_def event_info_wf_def one)
qed

lemma event_info_of_bytes_wf:
  "length bs = SIZEOF_EVENT_INFO \<Longrightarrow> event_info_wf (event_info_of_bytes bs)"
  by (simp add: event_info_of_bytes_def event_info_wf_def SIZEOF_EVENT_INFO_def)

end
