(* ===== verification/EventRing.thy ===== *)
theory EventRing
  imports FlowTypes
begin

text \<open>
  The event ring of \<^verbatim>\<open>EventRingBuffer.hpp\<close> and \<^verbatim>\<open>EventRingBuffer.cpp\<close>: the geometry of the mapping,
  initialisation, attachment of a view, and the publish and read operations run without interference.
  A slot is its immutable header, its sequence tag, the metadata words and the payload words; the
  mapping is the ring header and the list of its slots.
\<close>

section \<open>Constants and geometry\<close>

definition STORAGE_VERSION :: u32 where "STORAGE_VERSION = 1"
definition EMPTY :: u64 where "EMPTY = 0xFFFFFFFFFFFFFFFF"
definition MAX_INDEX :: u64 where "MAX_INDEX = drop_bit 1 EMPTY - 1"

definition SIZEOF_EVENT :: nat where "SIZEOF_EVENT = 768"
definition SIZEOF_EVENT_HEADER :: u32 where "SIZEOF_EVENT_HEADER = 768"
definition SIZEOF_RING_HEADER :: u32 where "SIZEOF_RING_HEADER = 4096"

definition slotStride :: "u32 \<Rightarrow> u64" where
  "slotStride payloadSize =
     (let alignment = 128
      in (of_nat SIZEOF_EVENT + ucast payloadSize + alignment - 1) AND NOT (alignment - 1))"

definition validateGeometry :: "u32 \<Rightarrow> u32 \<Rightarrow> unit res" where
  "validateGeometry count payloadSize =
     (if count < 2 \<or> count > 65536 \<or> payloadSize = 0 \<or> payloadSize > 1048576 \<or>
         slotStride payloadSize > (0xFFFFFFFFFFFFFFFF - ucast SIZEOF_RING_HEADER) div ucast count
      then Throw InvalidArgument else Ret ())"

definition bufferSize :: "u32 \<Rightarrow> u32 \<Rightarrow> u64 res" where
  "bufferSize count payloadSize =
     bind_res (validateGeometry count payloadSize) (\<lambda>_.
       Ret (ucast SIZEOF_RING_HEADER + slotStride payloadSize * ucast count))"

text \<open>The byte offset of the slot of an index in the mapping.\<close>

definition slotOffset :: "u32 \<Rightarrow> u64 \<Rightarrow> u64 \<Rightarrow> u64" where
  "slotOffset count stride index = ucast SIZEOF_RING_HEADER + (index mod ucast count) * stride"

section \<open>The mapping\<close>

record event_slot =
  es_version :: u32
  es_size :: u32
  es_sequence :: u64
  es_infoWords :: "u64 list"
  es_payloadWords :: "u64 list"

record event_ring =
  rg_version :: u32
  rg_size :: u32
  rg_eventCount :: u32
  rg_payloadSize :: u32
  rg_slots :: "event_slot list"

record ring_view =
  rv_count :: u32
  rv_payloadSize :: u32
  rv_stride :: u64

definition initialize :: "u32 \<Rightarrow> u32 \<Rightarrow> event_ring res" where
  "initialize count payloadSize =
     bind_res (validateGeometry count payloadSize) (\<lambda>_.
       Ret \<lparr>rg_version = STORAGE_VERSION, rg_size = SIZEOF_RING_HEADER,
            rg_eventCount = count, rg_payloadSize = payloadSize,
            rg_slots = replicate (unat count)
              \<lparr>es_version = STORAGE_VERSION, es_size = SIZEOF_EVENT_HEADER, es_sequence = EMPTY,
               es_infoWords = replicate (SIZEOF_EVENT_INFO div 8) 0,
               es_payloadWords = replicate ((unat payloadSize + 8 - 1) div 8) 0\<rparr>\<rparr>)"

definition slot_header_ok :: "event_slot \<Rightarrow> bool" where
  "slot_header_ok s \<longleftrightarrow> es_version s = STORAGE_VERSION \<and> es_size s = SIZEOF_EVENT_HEADER"

definition attach :: "event_ring \<Rightarrow> u32 \<Rightarrow> u32 \<Rightarrow> ring_view res" where
  "attach r count payloadSize =
     bind_res (validateGeometry count payloadSize) (\<lambda>_.
     bind_res (assert_or (rg_version r = STORAGE_VERSION \<and> rg_size r = SIZEOF_RING_HEADER \<and>
                          rg_eventCount r = count \<and> rg_payloadSize r = payloadSize) InvalidArgument) (\<lambda>_.
     bind_res (assert_or (list_all slot_header_ok (take (unat count) (rg_slots r))) InvalidArgument) (\<lambda>_.
     Ret \<lparr>rv_count = count, rv_payloadSize = payloadSize, rv_stride = slotStride payloadSize\<rparr>)))"

section \<open>Publishing\<close>

definition slotIndex :: "ring_view \<Rightarrow> u64 \<Rightarrow> nat" where
  "slotIndex v index = unat (index mod ucast (rv_count v))"

definition slot_of :: "ring_view \<Rightarrow> event_ring \<Rightarrow> u64 \<Rightarrow> event_slot" where
  "slot_of v r index = rg_slots r ! slotIndex v index"

definition set_slot :: "ring_view \<Rightarrow> u64 \<Rightarrow> event_slot \<Rightarrow> event_ring \<Rightarrow> event_ring" where
  "set_slot v index s r = r\<lparr>rg_slots := (rg_slots r)[slotIndex v index := s]\<rparr>"

definition writing_tag :: "u64 \<Rightarrow> u64" where
  "writing_tag index = push_bit 1 index"

definition complete_tag :: "u64 \<Rightarrow> u64" where
  "complete_tag index = push_bit 1 index OR 1"

text \<open>The guard of \<^verbatim>\<open>publish\<close>: may the slot with this sequence tag take this index?\<close>

definition publish_guard :: "u64 \<Rightarrow> u64 \<Rightarrow> mxlStatus" where
  "publish_guard previous index =
     (if index > MAX_INDEX then MXL_ERR_OUT_OF_RANGE_TOO_LATE
      else if previous \<noteq> EMPTY \<and> previous \<noteq> writing_tag index \<and> drop_bit 1 previous \<ge> index
      then MXL_ERR_FLOW_INVALID
      else MXL_STATUS_OK)"

text \<open>\<^verbatim>\<open>storeBytes\<close> overwrites the first words of its destination.\<close>

definition storeBytes :: "u64 list \<Rightarrow> u8 list \<Rightarrow> u64 list" where
  "storeBytes destination source = to_words source @ drop (length (to_words source)) destination"

definition publish ::
  "ring_view \<Rightarrow> u64 \<Rightarrow> mxlEventInfo \<Rightarrow> u8 list \<Rightarrow> event_ring \<Rightarrow> mxlStatus \<times> event_ring" where
  "publish v index info payload r =
     (let event = slot_of v r index;
          status = publish_guard (es_sequence event) index
      in if status \<noteq> MXL_STATUS_OK then (status, r)
         else let event = event\<lparr>es_sequence := writing_tag index\<rparr>;
                  event = event\<lparr>es_infoWords := storeBytes (es_infoWords event) (event_info_bytes info)\<rparr>;
                  event = event\<lparr>es_payloadWords :=
                            storeBytes (es_payloadWords event) (take (unat (ei_eventSize info)) payload)\<rparr>;
                  event = event\<lparr>es_sequence := complete_tag index\<rparr>
              in (MXL_STATUS_OK, set_slot v index event r))"

section \<open>Reading\<close>

datatype readResult = Ready mxlEventInfo "u8 list" | Pending | Overwritten | Invalid

text \<open>
  What \<^verbatim>\<open>read\<close> makes of the values it loads: the tag before the copy, the metadata and payload words,
  and the tag after the copy. Other processes write between the loads, so the four are independent.
\<close>

definition loadBytes :: "u64 list \<Rightarrow> nat \<Rightarrow> u8 list" where
  "loadBytes source n = from_words n source"

definition loaded_info :: "u64 list \<Rightarrow> mxlEventInfo" where
  "loaded_info infoWords = event_info_of_bytes (loadBytes infoWords SIZEOF_EVENT_INFO)"

definition read_snapshot :: "u32 \<Rightarrow> u64 \<Rightarrow> u64 \<Rightarrow> u64 list \<Rightarrow> u64 list \<Rightarrow> u64 \<Rightarrow> readResult" where
  "read_snapshot payloadSize index before infoWords payloadWords after =
     (let expected = complete_tag index
      in if before \<noteq> expected
         then (if before \<noteq> EMPTY \<and> drop_bit 1 before > index then Overwritten else Pending)
         else let info = loaded_info infoWords;
                  payload = (if ei_eventSize info \<le> payloadSize
                             then loadBytes payloadWords (unat (ei_eventSize info)) else [])
              in if after \<noteq> before then Overwritten
                 else if ei_version info \<noteq> EVENT_HEADER_VERSION \<or> unat (ei_size info) \<noteq> SIZEOF_EVENT_INFO
                        \<or> ei_flags info \<noteq> 0 \<or> ei_eventSize info > payloadSize
                 then Invalid
                 else Ready (info\<lparr>ei_index := index\<rparr>) payload)"

definition ring_read :: "ring_view \<Rightarrow> event_ring \<Rightarrow> u64 \<Rightarrow> readResult" where
  "ring_read v r index =
     (if index > MAX_INDEX then Pending
      else let event = slot_of v r index
           in read_snapshot (rv_payloadSize v) index (es_sequence event) (es_infoWords event)
                (es_payloadWords event) (es_sequence event))"

section \<open>Tags, stride and geometry\<close>

lemma EMPTY_nat: "unat EMPTY = 2 ^ 64 - 1"
  by (simp add: EMPTY_def)

lemma MAX_INDEX_nat: "unat MAX_INDEX = 2 ^ 63 - 2"
  by (simp add: MAX_INDEX_def EMPTY_def)

lemma index_le_MAX: "index \<le> MAX_INDEX \<longleftrightarrow> unat index \<le> 2 ^ 63 - 2"
  by (simp add: word_le_nat_alt MAX_INDEX_nat)

lemma unat_writing_tag: "index \<le> MAX_INDEX \<Longrightarrow> unat (writing_tag index) = 2 * unat index"
  unfolding index_le_MAX writing_tag_def push_bit_eq_mult
  by (simp add: unat_word_ariths)

lemma unat_complete_tag:
  assumes "index \<le> MAX_INDEX"
  shows "unat (complete_tag index) = 2 * unat index + 1"
proof -
  have "complete_tag index = push_bit 1 index + 1"
    unfolding complete_tag_def
    by (rule disjunctive_add [symmetric]) (simp only: bit_push_bit_iff bit_1_iff, simp)
  moreover have "unat (push_bit 1 index :: u64) = 2 * unat index"
    using unat_writing_tag [OF assms] by (simp add: writing_tag_def)
  ultimately show ?thesis
    using assms by (simp add: index_le_MAX unat_word_ariths)
qed

lemma unat_drop_bit_1: "unat (drop_bit 1 (w :: u64)) = unat w div 2"
  "unat (drop_bit (Suc 0) (w :: u64)) = unat w div 2"
  by (simp_all add: drop_bit_eq_div unat_div)

lemma tag_facts:
  assumes "index \<le> MAX_INDEX"
  shows "drop_bit 1 (writing_tag index) = index" "drop_bit 1 (complete_tag index) = index"
    "writing_tag index \<noteq> EMPTY" "complete_tag index \<noteq> EMPTY"
  using assms
  by (auto simp: word_eq_unat unat_drop_bit_1 unat_writing_tag unat_complete_tag EMPTY_nat index_le_MAX)

lemmas tag_facts' = tag_facts tag_facts [unfolded One_nat_def]

lemma writing_neq_complete: "writing_tag i \<noteq> complete_tag j"
proof
  assume "writing_tag i = complete_tag j"
  then have "bit (writing_tag i) 0 = bit (complete_tag j) 0" by simp
  then show False
    by (simp only: writing_tag_def complete_tag_def bit_or_iff bit_push_bit_iff bit_1_iff) simp
qed

lemma and_not_127: "(w :: u64) AND NOT (128 - 1) = push_bit 7 (drop_bit 7 w)"
proof -
  have m: "(128 - 1 :: u64) = mask 7"
    by (simp add: mask_eq_exp_minus_1)
  show ?thesis
    unfolding m
    by (rule bit_word_eqI) (auto simp: bit_and_iff bit_not_iff bit_push_bit_iff bit_drop_bit_eq bit_mask_iff)
qed

lemma slotStride_nat: "unat (slotStride p) = (unat p + 895) div 128 * 128"
proof -
  have p: "unat p < 2 ^ 32" by (rule unat_u32_less)
  let ?w = "of_nat SIZEOF_EVENT + ucast p + 128 - 1 :: u64"
  have "?w = ucast p + 895"
    by (simp add: SIZEOF_EVENT_def)
  then have w: "unat ?w = unat p + 895"
    using p by (simp add: unat_plus_fits)
  have d: "unat (drop_bit 7 ?w) = (unat p + 895) div 128"
    using w by (simp only: drop_bit_eq_div unat_div) simp
  have "unat (push_bit 7 (drop_bit 7 ?w)) = (unat p + 895) div 128 * 128"
    unfolding push_bit_eq_mult
    by (subst unat_small_mult) (use d p in \<open>auto simp: less_mult_imp_div_less\<close>)
  then show ?thesis
    unfolding slotStride_def Let_def and_not_127 .
qed

lemma validateGeometry_Ret:
  "validateGeometry count payloadSize = Ret u \<longleftrightarrow>
     2 \<le> unat count \<and> unat count \<le> 65536 \<and> 1 \<le> unat payloadSize \<and> unat payloadSize \<le> 1048576"
proof -
  have fits: "unat (slotStride payloadSize) \<le> (2 ^ 64 - 1 - 4096) div unat count"
    if "2 \<le> unat count" "unat count \<le> 65536" "unat payloadSize \<le> 1048576"
  proof -
    have "unat (slotStride payloadSize) \<le> 1048576 + 895"
      using that unfolding slotStride_nat by simp
    also have "\<dots> \<le> (2 ^ 64 - 1 - 4096) div 65536" by simp
    also have "\<dots> \<le> (2 ^ 64 - 1 - 4096) div unat count"
      using that by (intro div_le_mono2) auto
    finally show ?thesis .
  qed
  have "unat ((0xFFFFFFFFFFFFFFFF - ucast SIZEOF_RING_HEADER) div ucast count :: u64) = (2 ^ 64 - 1 - 4096) div unat count"
    by (simp add: unat_div SIZEOF_RING_HEADER_def)
  then show ?thesis
    using fits
    by (auto simp: validateGeometry_def word_less_nat_alt word_eq_unat not_less not_le split: if_splits)
qed

section \<open>Well-formed rings\<close>

definition slot_wf :: "ring_view \<Rightarrow> nat \<Rightarrow> event_slot \<Rightarrow> bool" where
  "slot_wf v j s \<longleftrightarrow>
     slot_header_ok s \<and> length (es_infoWords s) = SIZEOF_EVENT_INFO div 8 \<and>
     length (es_payloadWords s) = words_for (unat (rv_payloadSize v)) \<and>
     (es_sequence s = EMPTY \<or>
      drop_bit 1 (es_sequence s) \<le> MAX_INDEX \<and> slotIndex v (drop_bit 1 (es_sequence s)) = j)"

definition ring_wf :: "ring_view \<Rightarrow> event_ring \<Rightarrow> bool" where
  "ring_wf v r \<longleftrightarrow>
     validateGeometry (rv_count v) (rv_payloadSize v) = Ret () \<and>
     rv_stride v = slotStride (rv_payloadSize v) \<and>
     rg_version r = STORAGE_VERSION \<and> rg_size r = SIZEOF_RING_HEADER \<and>
     rg_eventCount r = rv_count v \<and> rg_payloadSize r = rv_payloadSize v \<and>
     length (rg_slots r) = unat (rv_count v) \<and>
     (\<forall>j < unat (rv_count v). slot_wf v j (rg_slots r ! j))"

definition entry_ok :: "ring_view \<Rightarrow> mxlEventInfo \<Rightarrow> u8 list \<Rightarrow> bool" where
  "entry_ok v info payload \<longleftrightarrow>
     event_info_wf info \<and> ei_version info = EVENT_HEADER_VERSION \<and>
     unat (ei_size info) = SIZEOF_EVENT_INFO \<and> ei_flags info = 0 \<and>
     ei_eventSize info \<le> rv_payloadSize v \<and> unat (ei_eventSize info) \<le> length payload"

lemma ring_wf_count: "ring_wf v r \<Longrightarrow> 2 \<le> unat (rv_count v) \<and> unat (rv_count v) \<le> 65536"
  by (simp add: ring_wf_def validateGeometry_Ret)

lemma slotIndex_nat: "slotIndex v i = unat i mod unat (rv_count v)"
  by (simp add: slotIndex_def unat_mod)

lemma slotIndex_less: "ring_wf v r \<Longrightarrow> slotIndex v i < unat (rv_count v)"
  using ring_wf_count [of v r] by (simp add: slotIndex_nat)

lemma slot_of_wf: "ring_wf v r \<Longrightarrow> slot_wf v (slotIndex v i) (slot_of v r i)"
  using slotIndex_less [of v r i] by (simp add: ring_wf_def slot_of_def)

lemma slot_of_set_slot:
  assumes "ring_wf v r"
  shows "slot_of v (set_slot v i s r) j = (if slotIndex v i = slotIndex v j then s else slot_of v r j)"
  using slotIndex_less [OF assms] assms
  by (simp add: slot_of_def set_slot_def nth_list_update ring_wf_def)

lemma ring_wf_set_slot:
  assumes "ring_wf v r" "slot_wf v (slotIndex v i) s"
  shows "ring_wf v (set_slot v i s r)"
proof -
  have "slot_wf v j ((rg_slots r)[slotIndex v i := s] ! j)" if "j < unat (rv_count v)" for j
    using that assms by (cases "j = slotIndex v i") (auto simp: ring_wf_def)
  then show ?thesis
    using assms by (simp add: ring_wf_def set_slot_def)
qed

lemma initialize_attach:
  assumes "initialize count payloadSize = Ret r"
  shows "attach r count payloadSize =
      Ret \<lparr>rv_count = count, rv_payloadSize = payloadSize, rv_stride = slotStride payloadSize\<rparr>"
    and "ring_wf \<lparr>rv_count = count, rv_payloadSize = payloadSize, rv_stride = slotStride payloadSize\<rparr> r"
proof -
  obtain u where g: "validateGeometry count payloadSize = Ret ()"
    using assms by (auto simp: initialize_def res_simps)
  have r: "r = \<lparr>rg_version = STORAGE_VERSION, rg_size = SIZEOF_RING_HEADER,
            rg_eventCount = count, rg_payloadSize = payloadSize,
            rg_slots = replicate (unat count)
              \<lparr>es_version = STORAGE_VERSION, es_size = SIZEOF_EVENT_HEADER, es_sequence = EMPTY,
               es_infoWords = replicate (SIZEOF_EVENT_INFO div 8) 0,
               es_payloadWords = replicate ((unat payloadSize + 8 - 1) div 8) 0\<rparr>\<rparr>"
    using assms g by (simp add: initialize_def)
  show "attach r count payloadSize =
      Ret \<lparr>rv_count = count, rv_payloadSize = payloadSize, rv_stride = slotStride payloadSize\<rparr>"
    by (simp add: r attach_def g res_simps slot_header_ok_def list_all_iff)
  show "ring_wf \<lparr>rv_count = count, rv_payloadSize = payloadSize, rv_stride = slotStride payloadSize\<rparr> r"
    using g by (simp add: r ring_wf_def slot_wf_def slot_header_ok_def words_for_def add.commute)
qed

lemma length_storeBytes [simp]:
  "words_for (length bs) \<le> length ws \<Longrightarrow> length (storeBytes ws bs) = length ws"
  by (simp add: storeBytes_def length_to_words)

lemma loadBytes_storeBytes [simp]: "loadBytes (storeBytes ws bs) (length bs) = bs"
  by (simp add: loadBytes_def storeBytes_def from_words_prefix length_to_words words_for_cover)

lemma words_for_mono: "m \<le> n \<Longrightarrow> words_for m \<le> words_for n"
  by (simp add: words_for_def div_le_mono)

lemma loaded_info_stored:
  "event_info_wf info \<Longrightarrow> loaded_info (storeBytes ws (event_info_bytes info)) = info"
  using loadBytes_storeBytes [of ws "event_info_bytes info"]
  by (simp add: loaded_info_def length_event_info_bytes event_info_of_bytes_inverse)

section \<open>Publication\<close>

definition stored_slot :: "event_slot \<Rightarrow> u64 \<Rightarrow> mxlEventInfo \<Rightarrow> u8 list \<Rightarrow> event_slot" where
  "stored_slot s index info payload =
     s\<lparr>es_infoWords := storeBytes (es_infoWords s) (event_info_bytes info),
       es_payloadWords := storeBytes (es_payloadWords s) (take (unat (ei_eventSize info)) payload),
       es_sequence := complete_tag index\<rparr>"

lemma publish_OK:
  "publish v index info payload r = (MXL_STATUS_OK, r') \<longleftrightarrow>
     publish_guard (es_sequence (slot_of v r index)) index = MXL_STATUS_OK \<and>
     r' = set_slot v index (stored_slot (slot_of v r index) index info payload) r"
  by (auto simp: publish_def Let_def stored_slot_def)

lemma publish_guard_OK:
  "publish_guard previous index = MXL_STATUS_OK \<longleftrightarrow>
     index \<le> MAX_INDEX \<and> (previous = EMPTY \<or> previous = writing_tag index \<or> drop_bit 1 previous < index)"
  by (auto simp: publish_guard_def)

lemma stored_slot_wf:
  assumes "slot_wf v (slotIndex v index) s" "index \<le> MAX_INDEX" "entry_ok v info payload"
  shows "slot_wf v (slotIndex v index) (stored_slot s index info payload)"
proof -
  have "length (to_words (event_info_bytes info)) = 64"
    using assms by (simp add: length_to_words length_event_info_bytes entry_ok_def words_for_def SIZEOF_EVENT_INFO_def)
  moreover have "words_for (min (length payload) (unat (ei_eventSize info))) \<le> words_for (unat (rv_payloadSize v))"
    using assms by (intro words_for_mono) (simp add: entry_ok_def word_le_nat_alt)
  ultimately show ?thesis
    using assms
    by (simp add: slot_wf_def stored_slot_def slot_header_ok_def tag_facts' storeBytes_def length_to_words
        SIZEOF_EVENT_INFO_def)
qed

lemma publish_wf:
  assumes "ring_wf v r" "entry_ok v info payload" "publish v index info payload r = (st, r')"
  shows "ring_wf v r'"
proof (cases "st = MXL_STATUS_OK")
  case True
  then show ?thesis
    using assms by (auto simp: publish_OK publish_guard_OK intro!: ring_wf_set_slot stored_slot_wf slot_of_wf)
next
  case False
  then show ?thesis
    using assms by (auto simp: publish_def Let_def split: if_splits)
qed

lemma read_stored:
  assumes "entry_ok v info payload" "index \<le> MAX_INDEX"
  shows "read_snapshot (rv_payloadSize v) index (complete_tag index)
           (storeBytes ws (event_info_bytes info)) (storeBytes ps (take (unat (ei_eventSize info)) payload))
           (complete_tag index)
         = Ready (info\<lparr>ei_index := index\<rparr>) (take (unat (ei_eventSize info)) payload)"
proof -
  have len: "length (take (unat (ei_eventSize info)) payload) = unat (ei_eventSize info)"
    using assms by (simp add: entry_ok_def)
  then have "loadBytes (storeBytes ps (take (unat (ei_eventSize info)) payload)) (unat (ei_eventSize info))
      = take (unat (ei_eventSize info)) payload"
    using loadBytes_storeBytes [of ps "take (unat (ei_eventSize info)) payload"] by simp
  then show ?thesis
    using assms by (simp add: read_snapshot_def entry_ok_def loaded_info_stored Let_def not_less)
qed

text \<open>
  After a successful publication the ring reads as follows, at every index: the published index
  gives exactly the published metadata and payload; an older index of the same slot is reported as
  overwritten and a newer one as pending; an index of another slot reads as before.
\<close>

theorem publish_then_read:
  assumes "ring_wf v r" "entry_ok v info payload"
    and "publish v index info payload r = (MXL_STATUS_OK, r')"
  shows "ring_read v r' i =
    (if slotIndex v i \<noteq> slotIndex v index then ring_read v r i
     else if i = index then Ready (info\<lparr>ei_index := index\<rparr>) (take (unat (ei_eventSize info)) payload)
     else if i < index then Overwritten
     else Pending)"
proof -
  have g: "index \<le> MAX_INDEX" and r': "r' = set_slot v index (stored_slot (slot_of v r index) index info payload) r"
    using assms by (auto simp: publish_OK publish_guard_OK)
  let ?s = "stored_slot (slot_of v r index) index info payload"
  consider "slotIndex v i \<noteq> slotIndex v index" | "i = index"
    | "slotIndex v i = slotIndex v index" "i \<noteq> index"
    by blast
  then show ?thesis
  proof cases
    case 1
    then show ?thesis
      using assms(1) by (simp add: ring_read_def r' slot_of_set_slot)
  next
    case 2
    then show ?thesis
      using assms g read_stored [OF assms(2) g]
      by (simp add: ring_read_def r' slot_of_set_slot stored_slot_def Let_def)
  next
    case 3
    then have "complete_tag index \<noteq> complete_tag i \<or> i > MAX_INDEX"
      using g tag_facts(2) by (metis not_less)
    then show ?thesis
      using 3 assms(1) g
      by (auto simp: ring_read_def r' slot_of_set_slot stored_slot_def read_snapshot_def tag_facts' not_less)
  qed
qed

section \<open>Layout of the mapping\<close>

lemma bufferSize_nat:
  assumes "bufferSize count payloadSize = Ret len"
  shows "unat len = 4096 + unat (slotStride payloadSize) * unat count"
    and "2 \<le> unat count" "unat count \<le> 65536" "1 \<le> unat payloadSize" "unat payloadSize \<le> 1048576"
proof -
  show g: "2 \<le> unat count" "unat count \<le> 65536" "1 \<le> unat payloadSize" "unat payloadSize \<le> 1048576"
    using assms by (auto simp: bufferSize_def res_simps validateGeometry_Ret)
  have "unat (slotStride payloadSize) \<le> 1049471"
    using g unfolding slotStride_nat by simp
  then have m: "unat (slotStride payloadSize) * unat count \<le> 1049471 * 65536"
    using g by (intro mult_mono) auto
  have "len = ucast SIZEOF_RING_HEADER + slotStride payloadSize * ucast count"
    using assms by (auto simp: bufferSize_def res_simps)
  moreover have "unat (slotStride payloadSize * ucast count) = unat (slotStride payloadSize) * unat count"
    using m by (subst unat_small_mult) auto
  ultimately show "unat len = 4096 + unat (slotStride payloadSize) * unat count"
    using m by (simp add: SIZEOF_RING_HEADER_def unat_plus_fits)
qed

lemma slotOffset_nat:
  assumes "bufferSize count payloadSize = Ret len"
  shows "unat (slotOffset count (slotStride payloadSize) i)
    = 4096 + (unat i mod unat count) * unat (slotStride payloadSize)"
proof -
  note b = bufferSize_nat [OF assms]
  have "unat (slotStride payloadSize) \<le> 1049471"
    using b unfolding slotStride_nat by simp
  moreover have "unat i mod unat count \<le> 65536"
    using b mod_less_divisor [of "unat count" "unat i"] by linarith
  ultimately have m: "(unat i mod unat count) * unat (slotStride payloadSize) \<le> 65536 * 1049471"
    using b by (intro mult_mono) auto
  have "unat ((i mod ucast count) * slotStride payloadSize) = (unat i mod unat count) * unat (slotStride payloadSize)"
    using m by (subst unat_small_mult) (auto simp: unat_mod)
  then show ?thesis
    using m by (simp add: slotOffset_def SIZEOF_RING_HEADER_def unat_plus_fits)
qed

lemma stride_cover: "768 + p \<le> (p + 895) div 128 * 128" for p :: nat
  using div_mult_mod_eq [of "p + 895" 128] mod_less_divisor [of 128 "p + 895"] by linarith

text \<open>
  In a mapping of the size that \<^verbatim>\<open>bufferSize\<close> computes, every slot begins on a 128-byte boundary
  behind the ring header and ends, with its header and full payload, inside the mapping; the slots of
  two indices either coincide, exactly when the indices agree modulo the slot count, or are disjoint.
\<close>

theorem slot_layout:
  assumes "bufferSize count payloadSize = Ret len"
    and "o1 = unat (slotOffset count (slotStride payloadSize) i)"
    and "o2 = unat (slotOffset count (slotStride payloadSize) j)"
  shows "4096 \<le> o1 \<and> o1 mod 128 = 0 \<and> o1 + SIZEOF_EVENT + unat payloadSize \<le> unat len \<and>
    (o1 = o2 \<longleftrightarrow> unat i mod unat count = unat j mod unat count) \<and>
    (o1 \<noteq> o2 \<longrightarrow> o1 + SIZEOF_EVENT + unat payloadSize \<le> o2 \<or> o2 + SIZEOF_EVENT + unat payloadSize \<le> o1)"
proof -
  let ?S = "unat (slotStride payloadSize)" and ?a = "unat i mod unat count" and ?b = "unat j mod unat count"
  note b = bufferSize_nat [OF assms(1)]
  have o: "o1 = 4096 + ?a * ?S" "o2 = 4096 + ?b * ?S"
    using assms slotOffset_nat by auto
  have S: "SIZEOF_EVENT + unat payloadSize \<le> ?S" "?S mod 128 = 0" "0 < ?S"
    using stride_cover [of "unat payloadSize"] by (simp_all add: slotStride_nat SIZEOF_EVENT_def)
  have ab: "?a < unat count" "?b < unat count"
    using b by simp_all
  have step: "x * ?S + ?S \<le> y * ?S" if "x < y" for x y
    using that mult_le_mono1 [of "Suc x" y ?S] by simp
  have "o1 mod 128 = 0"
    using S(2) by (simp add: o mod_eq_0_iff_dvd)
  moreover have "o1 + SIZEOF_EVENT + unat payloadSize \<le> unat len"
    using step [OF ab(1)] S(1) unfolding o(1) b(1) by (simp add: mult.commute)
  moreover have "(o1 = o2) = (?a = ?b)"
    using S(3) by (simp add: o)
  moreover have "o1 + SIZEOF_EVENT + unat payloadSize \<le> o2 \<or> o2 + SIZEOF_EVENT + unat payloadSize \<le> o1"
    if "?a \<noteq> ?b"
    using that
  proof (cases ?a ?b rule: linorder_cases)
    case less
    then show ?thesis using step [OF less] S(1) o by linarith
  next
    case greater
    then show ?thesis using step [OF greater] S(1) o by linarith
  qed simp
  moreover have "4096 \<le> o1"
    by (simp add: o)
  ultimately show ?thesis
    by blast
qed

theorem slot_layout_witness:
  "unat (slotOffset 4 (slotStride 100) 6) + SIZEOF_EVENT + 100 \<le> unat (7680 :: u64)"
proof -
  have g: "validateGeometry 4 100 = Ret ()"
    by (simp add: validateGeometry_Ret)
  have s: "slotStride 100 = 896"
    by (rule word_eq_unat [THEN iffD2]) (simp add: slotStride_nat)
  have "bufferSize 4 100 = Ret 7680"
    by (simp add: bufferSize_def g s SIZEOF_RING_HEADER_def)
  from slot_layout [OF this refl refl, of 6 6] show ?thesis
    by simp
qed

section \<open>The ring as the window of a log\<close>

text \<open>
  \<open>ring_log v r es\<close>: the ring holds the newest entries of the log \<open>es\<close> of everything published at the
  indices 0, 1, 2, and so on; what a read reports at each index is determined by the log.
\<close>

definition ring_log :: "ring_view \<Rightarrow> event_ring \<Rightarrow> (mxlEventInfo \<times> u8 list) list \<Rightarrow> bool" where
  "ring_log v r es \<longleftrightarrow>
     ring_wf v r \<and> length es \<le> unat MAX_INDEX + 1 \<and>
     (\<forall>i. es_sequence (slot_of v r i) = EMPTY \<or> unat (drop_bit 1 (es_sequence (slot_of v r i))) < length es) \<and>
     (\<forall>i. ring_read v r i =
        (if length es \<le> unat i then Pending
         else if unat i + unat (rv_count v) < length es then Overwritten
         else Ready ((fst (es ! unat i))\<lparr>ei_index := i\<rparr>)
                (take (unat (ei_eventSize (fst (es ! unat i)))) (snd (es ! unat i)))))"

lemma ring_log_initial:
  assumes "initialize count payloadSize = Ret r"
  shows "ring_log \<lparr>rv_count = count, rv_payloadSize = payloadSize, rv_stride = slotStride payloadSize\<rparr> r []"
proof -
  let ?v = "\<lparr>rv_count = count, rv_payloadSize = payloadSize, rv_stride = slotStride payloadSize\<rparr>"
  have wf: "ring_wf ?v r"
    using initialize_attach [OF assms] by simp
  have seq: "es_sequence (slot_of ?v r i) = EMPTY" for i
    using slotIndex_less [OF wf, of i] assms by (auto simp: slot_of_def initialize_def res_simps)
  have "EMPTY \<noteq> complete_tag i" if "i \<le> MAX_INDEX" for i
    using tag_facts(4) [OF that] by simp
  then have "ring_read ?v r i = Pending" for i
    by (cases "i \<le> MAX_INDEX") (auto simp: ring_read_def seq read_snapshot_def Let_def)
  then show ?thesis
    using wf seq by (simp add: ring_log_def)
qed

text \<open>
  The slot of the next index may hold anything that the guard admits, a half-written entry included:
  publishing there still extends the log.
\<close>

lemma publish_extends_log:
  assumes log: "ring_log v r es" and ok: "entry_ok v info payload" and fits: "length es \<le> unat MAX_INDEX"
    and wf: "ring_wf v r1"
    and same: "\<And>i. slotIndex v i \<noteq> slotIndex v (of_nat (length es)) \<Longrightarrow> slot_of v r1 i = slot_of v r i"
    and guard: "publish_guard (es_sequence (slot_of v r1 (of_nat (length es)))) (of_nat (length es)) = MXL_STATUS_OK"
  shows "\<exists>r'. publish v (of_nat (length es)) info payload r1 = (MXL_STATUS_OK, r') \<and>
    ring_log v r' (es @ [(info, payload)])"
proof -
  let ?n = "of_nat (length es) :: u64"
  have n: "unat ?n = length es"
    using fits by (simp add: MAX_INDEX_nat unat_of_nat)
  have max: "?n \<le> MAX_INDEX"
    using fits n by (simp add: word_le_nat_alt)
  obtain r' where p: "publish v ?n info payload r1 = (MXL_STATUS_OK, r')"
    using guard by (simp add: publish_OK)
  have r': "r' = set_slot v ?n (stored_slot (slot_of v r1 ?n) ?n info payload) r1"
    using p by (simp add: publish_OK)
  have seq: "es_sequence (slot_of v r' i) = EMPTY \<or>
      unat (drop_bit 1 (es_sequence (slot_of v r' i))) < length (es @ [(info, payload)])" for i
  proof (cases "slotIndex v i = slotIndex v ?n")
    case True
    then show ?thesis
      using max n by (simp add: r' slot_of_set_slot [OF wf] stored_slot_def tag_facts')
  next
    case False
    then show ?thesis
      using log same [of i] by (auto simp: r' slot_of_set_slot [OF wf] ring_log_def intro: less_SucI)
  qed
  have read: "ring_read v r' i =
        (if length (es @ [(info, payload)]) \<le> unat i then Pending
         else if unat i + unat (rv_count v) < length (es @ [(info, payload)]) then Overwritten
         else Ready ((fst ((es @ [(info, payload)]) ! unat i))\<lparr>ei_index := i\<rparr>)
                (take (unat (ei_eventSize (fst ((es @ [(info, payload)]) ! unat i)))) (snd ((es @ [(info, payload)]) ! unat i))))" for i
  proof -
    have slots: "slotIndex v i = slotIndex v ?n \<longleftrightarrow> unat i mod unat (rv_count v) = length es mod unat (rv_count v)"
      by (simp add: slotIndex_nat n)
    have read1: "ring_read v r1 i = ring_read v r i" if "slotIndex v i \<noteq> slotIndex v ?n"
      using same [OF that] by (simp add: ring_read_def)
    consider "i = ?n" | "unat i < length es" | "length es < unat i"
      using n word_eq_unat by (metis linorder_neqE_nat)
    then show ?thesis
    proof cases
      case 1
      then show ?thesis
        using publish_then_read [OF wf ok p, of i] ring_wf_count [OF wf] n by (simp add: nth_append)
    next
      case 2
      then have lt: "i < ?n" by (simp add: word_less_nat_alt n)
      show ?thesis
      proof (cases "unat i mod unat (rv_count v) = length es mod unat (rv_count v)")
        case True
        then have "unat i + unat (rv_count v) < Suc (length es)"
          using mod_neq_of_close [of "unat i" "length es" "unat (rv_count v)"] 2 by linarith
        then show ?thesis
          using publish_then_read [OF wf ok p, of i] True slots lt 2 by auto
      next
        case False
        then have "unat i + unat (rv_count v) \<noteq> length es"
          by (metis mod_add_self2)
        then show ?thesis
          using publish_then_read [OF wf ok p, of i] False slots 2 log read1
          by (auto simp: ring_log_def nth_append)
      qed
    next
      case 3
      then have "\<not> i < ?n" "i \<noteq> ?n" by (auto simp: word_less_nat_alt n)
      then show ?thesis
        using publish_then_read [OF wf ok p, of i] 3 log read1 by (auto simp: ring_log_def)
    qed
  qed
  have len: "length (es @ [(info, payload)]) \<le> unat MAX_INDEX + 1"
    using fits by simp
  have "ring_log v r' (es @ [(info, payload)])"
    unfolding ring_log_def using publish_wf [OF wf ok p] seq read len by blast
  then show ?thesis
    using p by blast
qed

lemma next_guard:
  assumes "ring_log v r es" "length es \<le> unat MAX_INDEX"
  shows "publish_guard (es_sequence (slot_of v r (of_nat (length es)))) (of_nat (length es)) = MXL_STATUS_OK"
proof -
  have "unat (of_nat (length es) :: u64) = length es"
    using assms(2) by (simp add: MAX_INDEX_nat unat_of_nat)
  then show ?thesis
    using assms by (auto simp: publish_guard_OK ring_log_def word_less_nat_alt word_le_nat_alt)
qed

lemma push_ring_log:
  assumes "ring_log v r es" "entry_ok v info payload" "length es \<le> unat MAX_INDEX"
  shows "\<exists>r'. publish v (of_nat (length es)) info payload r = (MXL_STATUS_OK, r') \<and>
    ring_log v r' (es @ [(info, payload)])"
  using publish_extends_log [OF assms _ _ next_guard [OF assms(1,3)]] assms(1) by (simp add: ring_log_def)

text \<open>
  Publishing at the next index refines appending to the log: if the ring holds the window of a log,
  publishing a valid entry at the index that is the length of the log succeeds, and the ring then holds
  the window of the extended log, with the oldest retained entry reported as overwritten.
\<close>

theorem ring_refines_log:
  assumes log: "ring_log v r es" and ok: "entry_ok v info payload" and fits: "length es \<le> unat MAX_INDEX"
  shows "\<exists>r'. publish v (of_nat (length es)) info payload r = (MXL_STATUS_OK, r') \<and>
    ring_log v r' (es @ [(info, payload)])"
  by (rule push_ring_log [OF log ok fits])

section \<open>The interface of the ring\<close>

text \<open>
  What the flow above the ring relies on: what a read reports at every index is determined by the log
  of published entries and the capacity, and publishing at the next index extends the log.
\<close>

definition log_entry :: "(mxlEventInfo \<times> u8 list) list \<Rightarrow> u64 \<Rightarrow> mxlEventInfo \<times> u8 list" where
  "log_entry es i =
     ((fst (es ! unat i))\<lparr>ei_index := i\<rparr>,
      take (unat (ei_eventSize (fst (es ! unat i)))) (snd (es ! unat i)))"

locale log_window =
  fixes peek :: "'s \<Rightarrow> u64 \<Rightarrow> readResult"
    and rep :: "'s \<Rightarrow> (mxlEventInfo \<times> u8 list) list \<Rightarrow> bool"
    and cap :: nat
  assumes peek_log: "rep s es \<Longrightarrow> peek s i =
      (if length es \<le> unat i then Pending
       else if unat i + cap < length es then Overwritten
       else Ready (fst (log_entry es i)) (snd (log_entry es i)))"
    and log_bound: "rep s es \<Longrightarrow> length es < 2 ^ 63"
    and cap_two: "rep s es \<Longrightarrow> 2 \<le> cap"
begin

lemma peek_ready_iff:
  "rep s es \<Longrightarrow> peek s i = Ready info payload \<longleftrightarrow>
     unat i < length es \<and> length es \<le> unat i + cap \<and> (info, payload) = log_entry es i"
  by (auto simp: peek_log prod_eq_iff)

lemma peek_pending_iff: "rep s es \<Longrightarrow> peek s i = Pending \<longleftrightarrow> length es \<le> unat i"
  by (auto simp: peek_log)

lemma peek_overwritten_iff: "rep s es \<Longrightarrow> peek s i = Overwritten \<longleftrightarrow> unat i + cap < length es"
  by (auto simp: peek_log)

lemma peek_never_invalid: "rep s es \<Longrightarrow> peek s i \<noteq> Invalid"
  by (auto simp: peek_log)

lemma peek_last:
  "rep s es \<Longrightarrow> Suc (unat i) = length es \<Longrightarrow> peek s i = Ready (fst (log_entry es i)) (snd (log_entry es i))"
  using cap_two [of s es] by (simp add: peek_log)

end

locale log_writer = log_window peek rep cap
  for peek :: "'s \<Rightarrow> u64 \<Rightarrow> readResult"
    and rep :: "'s \<Rightarrow> (mxlEventInfo \<times> u8 list) list \<Rightarrow> bool"
    and cap :: nat +
  fixes push :: "u64 \<Rightarrow> mxlEventInfo \<Rightarrow> u8 list \<Rightarrow> 's \<Rightarrow> mxlStatus \<times> 's"
    and ok :: "mxlEventInfo \<Rightarrow> u8 list \<Rightarrow> bool"
  assumes push_log: "rep s es \<Longrightarrow> ok info payload \<Longrightarrow> length es \<le> unat MAX_INDEX \<Longrightarrow>
      \<exists>s'. push (of_nat (length es)) info payload s = (MXL_STATUS_OK, s') \<and> rep s' (es @ [(info, payload)])"
begin

lemma push_then_peek:
  assumes "rep s es" "ok info payload" "length es \<le> unat MAX_INDEX"
    and "push (of_nat (length es)) info payload s = (st, s')"
  shows "st = MXL_STATUS_OK" "rep s' (es @ [(info, payload)])"
  using push_log [OF assms(1-3)] assms(4) by auto

end

interpretation ring: log_writer "ring_read v" "ring_log v" "unat (rv_count v)" "publish v" "entry_ok v" for v
proof
  show "ring_log v r es \<Longrightarrow> ring_read v r i =
      (if length es \<le> unat i then Pending
       else if unat i + unat (rv_count v) < length es then Overwritten
       else Ready (fst (log_entry es i)) (snd (log_entry es i)))" for r es i
    by (simp add: ring_log_def log_entry_def)
  show "ring_log v r es \<Longrightarrow> length es < 2 ^ 63" for r es
    by (simp add: ring_log_def MAX_INDEX_nat)
  show "ring_log v r es \<Longrightarrow> 2 \<le> unat (rv_count v)" for r es
    using ring_wf_count by (auto simp: ring_log_def)
  show "ring_log v r es \<Longrightarrow> entry_ok v info payload \<Longrightarrow> length es \<le> unat MAX_INDEX \<Longrightarrow>
      \<exists>r'. publish v (of_nat (length es)) info payload r = (MXL_STATUS_OK, r') \<and>
        ring_log v r' (es @ [(info, payload)])" for r es info payload
    by (rule push_ring_log)
qed

section \<open>Examples\<close>

definition sample_info :: mxlEventInfo where
  "sample_info =
     \<lparr>ei_version = 1, ei_size = 512, ei_timestamp = 5, ei_flags = 0, ei_registryType = 0,
      ei_dataItemType = replicate 256 0, ei_eventSize = 3, ei_offset = 0, ei_complete = 1,
      ei_reserved = replicate 215 0, ei_index = MXL_UNDEFINED_INDEX\<rparr>"

definition sample_view :: ring_view where
  "sample_view = \<lparr>rv_count = 2, rv_payloadSize = 8, rv_stride = slotStride 8\<rparr>"

lemma sample_entry_ok: "entry_ok sample_view sample_info [1, 2, 3]"
  by (simp add: entry_ok_def event_info_wf_def sample_info_def sample_view_def EVENT_HEADER_VERSION_def
      SIZEOF_EVENT_INFO_def)

lemma sample_ring: "\<exists>r. initialize 2 8 = Ret r"
  using validateGeometry_Ret [of 2 8] by (simp add: initialize_def)

lemma sample_log: "\<exists>r. initialize 2 8 = Ret r \<and> ring_log sample_view r []"
  using sample_ring ring_log_initial [of 2 8] by (auto simp: sample_view_def)

theorem ring_refines_log_witness:
  "\<exists>r r'. ring_log sample_view r [] \<and>
     publish sample_view 0 sample_info [1, 2, 3] r = (MXL_STATUS_OK, r') \<and>
     ring_log sample_view r' [(sample_info, [1, 2, 3])]"
proof -
  obtain r where r: "ring_log sample_view r []"
    using sample_log by blast
  from ring_refines_log [OF r sample_entry_ok] show ?thesis
    using r by auto
qed

theorem publish_then_read_witness:
  "\<exists>r r'. publish sample_view 0 sample_info [1, 2, 3] r = (MXL_STATUS_OK, r') \<and>
     ring_read sample_view r' 0 = Ready (sample_info\<lparr>ei_index := 0\<rparr>) [1, 2, 3] \<and>
     ring_read sample_view r' 2 = Pending"
proof -
  obtain r where r: "initialize 2 8 = Ret r"
    using sample_ring by blast
  have wf: "ring_wf sample_view r"
    using initialize_attach(2) [OF r] by (simp add: sample_view_def)
  have seq: "es_sequence (slot_of sample_view r 0) = EMPTY"
    using slotIndex_less [OF wf, of 0] r by (auto simp: slot_of_def initialize_def res_simps sample_view_def)
  then have "publish_guard (es_sequence (slot_of sample_view r 0)) 0 = MXL_STATUS_OK"
    by (simp add: publish_guard_OK)
  then obtain r' where p: "publish sample_view 0 sample_info [1, 2, 3] r = (MXL_STATUS_OK, r')"
    by (simp add: publish_OK)
  have "ring_read sample_view r' 0 = Ready (sample_info\<lparr>ei_index := 0\<rparr>) [1, 2, 3]"
    using publish_then_read [OF wf sample_entry_ok p, of 0] by (simp add: sample_info_def)
  moreover have "ring_read sample_view r' 2 = Pending"
    using publish_then_read [OF wf sample_entry_ok p, of 2]
    by (simp add: slotIndex_nat sample_view_def)
  ultimately show ?thesis
    using p by blast
qed

end
