(* ===== verification/EventRingRace.thy ===== *)
theory EventRingRace
  imports EventRing
begin

text \<open>
  The event ring under concurrency: \<^verbatim>\<open>EventRingBuffer::publish\<close> and \<^verbatim>\<open>EventRingBuffer::read\<close> as the
  sequences of atomic loads and stores the code performs on the shared words, one step of the system
  per access, interleaved arbitrarily between one writer, which may crash and start again at any point,
  and any number of readers. The accesses are sequentially consistent in the model; the release and
  acquire orderings of the code are what gives that view on the tag and the words it guards.
\<close>

section \<open>Program counters and the shared state\<close>

text \<open>Between the two tag stores the writer copies the metadata words and then the payload words.\<close>

datatype writer_pc =
    WIdle
  | WInfo u64 mxlEventInfo "u8 list" nat
  | WPayload u64 mxlEventInfo "u8 list" nat

text \<open>A reader has loaded a prefix of the metadata words, or all of them and a prefix of the payload.\<close>

datatype reader_pc =
    RIdle
  | RInfo u64 "u64 list"
  | RPayload u64 "u64 list" "u64 list"
  | RDone u64 readResult

text \<open>\<open>published\<close> is a history variable: what was stored when the completed tag of an index was set.\<close>

record race_state =
  ra_ring :: event_ring
  ra_writer :: writer_pc
  ra_readers :: "nat \<Rightarrow> reader_pc"
  ra_published :: "u64 \<Rightarrow> (mxlEventInfo \<times> u8 list) option"

definition info_source :: "mxlEventInfo \<Rightarrow> u64 list" where
  "info_source info = to_words (event_info_bytes info)"

definition payload_source :: "mxlEventInfo \<Rightarrow> u8 list \<Rightarrow> u64 list" where
  "payload_source info payload = to_words (take (unat (ei_eventSize info)) payload)"

definition entry_fits :: "ring_view \<Rightarrow> mxlEventInfo \<Rightarrow> u8 list \<Rightarrow> bool" where
  "entry_fits v info payload \<longleftrightarrow>
     event_info_wf info \<and> ei_eventSize info \<le> rv_payloadSize v \<and> unat (ei_eventSize info) \<le> length payload"

text \<open>The number of payload words \<^verbatim>\<open>read\<close> loads, once it has the metadata words.\<close>

definition payload_loads :: "ring_view \<Rightarrow> u64 list \<Rightarrow> nat" where
  "payload_loads v infoWords =
     (if ei_eventSize (loaded_info infoWords) \<le> rv_payloadSize v
      then words_for (unat (ei_eventSize (loaded_info infoWords))) else 0)"

section \<open>Steps\<close>

inductive race_step :: "ring_view \<Rightarrow> race_state \<Rightarrow> race_state \<Rightarrow> bool" for v where
  w_start: "ra_writer s = WIdle \<Longrightarrow> entry_fits v info payload \<Longrightarrow>
     publish_guard (es_sequence (slot_of v (ra_ring s) index)) index = MXL_STATUS_OK \<Longrightarrow>
     race_step v s (s\<lparr>ra_ring := set_slot v index
         ((slot_of v (ra_ring s) index)\<lparr>es_sequence := writing_tag index\<rparr>) (ra_ring s),
       ra_writer := WInfo index info payload 0\<rparr>)"
| w_info: "ra_writer s = WInfo index info payload k \<Longrightarrow> k < length (info_source info) \<Longrightarrow>
     event = slot_of v (ra_ring s) index \<Longrightarrow>
     race_step v s (s\<lparr>ra_ring := set_slot v index
         (event\<lparr>es_infoWords := (es_infoWords event)[k := info_source info ! k]\<rparr>) (ra_ring s),
       ra_writer := WInfo index info payload (Suc k)\<rparr>)"
| w_info_done: "ra_writer s = WInfo index info payload k \<Longrightarrow> k = length (info_source info) \<Longrightarrow>
     race_step v s (s\<lparr>ra_writer := WPayload index info payload 0\<rparr>)"
| w_payload: "ra_writer s = WPayload index info payload k \<Longrightarrow> k < length (payload_source info payload) \<Longrightarrow>
     event = slot_of v (ra_ring s) index \<Longrightarrow>
     race_step v s (s\<lparr>ra_ring := set_slot v index
         (event\<lparr>es_payloadWords := (es_payloadWords event)[k := payload_source info payload ! k]\<rparr>) (ra_ring s),
       ra_writer := WPayload index info payload (Suc k)\<rparr>)"
| w_finish: "ra_writer s = WPayload index info payload k \<Longrightarrow> k = length (payload_source info payload) \<Longrightarrow>
     race_step v s (s\<lparr>ra_ring := set_slot v index
         ((slot_of v (ra_ring s) index)\<lparr>es_sequence := complete_tag index\<rparr>) (ra_ring s),
       ra_writer := WIdle,
       ra_published := (ra_published s)(index \<mapsto> (info, payload))\<rparr>)"
| w_crash: "race_step v s (s\<lparr>ra_writer := WIdle\<rparr>)"
| r_unrepresentable: "index > MAX_INDEX \<Longrightarrow>
     race_step v s (s\<lparr>ra_readers := (ra_readers s)(reader := RDone index Pending)\<rparr>)"
| r_miss: "index \<le> MAX_INDEX \<Longrightarrow> before = es_sequence (slot_of v (ra_ring s) index) \<Longrightarrow>
     before \<noteq> complete_tag index \<Longrightarrow>
     race_step v s (s\<lparr>ra_readers := (ra_readers s)(reader :=
       RDone index (read_snapshot (rv_payloadSize v) index before [] [] before))\<rparr>)"
| r_start: "index \<le> MAX_INDEX \<Longrightarrow> es_sequence (slot_of v (ra_ring s) index) = complete_tag index \<Longrightarrow>
     race_step v s (s\<lparr>ra_readers := (ra_readers s)(reader := RInfo index [])\<rparr>)"
| r_info: "ra_readers s reader = RInfo index ws \<Longrightarrow> length ws < SIZEOF_EVENT_INFO div 8 \<Longrightarrow>
     race_step v s (s\<lparr>ra_readers := (ra_readers s)(reader :=
       RInfo index (ws @ [es_infoWords (slot_of v (ra_ring s) index) ! length ws]))\<rparr>)"
| r_info_done: "ra_readers s reader = RInfo index ws \<Longrightarrow> length ws = SIZEOF_EVENT_INFO div 8 \<Longrightarrow>
     race_step v s (s\<lparr>ra_readers := (ra_readers s)(reader := RPayload index ws [])\<rparr>)"
| r_payload: "ra_readers s reader = RPayload index ws ps \<Longrightarrow> length ps < payload_loads v ws \<Longrightarrow>
     race_step v s (s\<lparr>ra_readers := (ra_readers s)(reader :=
       RPayload index ws (ps @ [es_payloadWords (slot_of v (ra_ring s) index) ! length ps]))\<rparr>)"
| r_check: "ra_readers s reader = RPayload index ws ps \<Longrightarrow> length ps = payload_loads v ws \<Longrightarrow>
     after = es_sequence (slot_of v (ra_ring s) index) \<Longrightarrow>
     race_step v s (s\<lparr>ra_readers := (ra_readers s)(reader :=
       RDone index (read_snapshot (rv_payloadSize v) index (complete_tag index) ws ps after))\<rparr>)"

text \<open>Reachable from a freshly initialised ring with nobody active.\<close>

inductive race_reachable :: "u32 \<Rightarrow> u32 \<Rightarrow> ring_view \<Rightarrow> race_state \<Rightarrow> bool" for count payloadSize v where
  start: "initialize count payloadSize = Ret r \<Longrightarrow> attach r count payloadSize = Ret v \<Longrightarrow>
     race_reachable count payloadSize v
       \<lparr>ra_ring = r, ra_writer = WIdle, ra_readers = (\<lambda>_. RIdle), ra_published = (\<lambda>_. None)\<rparr>"
| step: "race_reachable count payloadSize v s \<Longrightarrow> race_step v s t \<Longrightarrow> race_reachable count payloadSize v t"

section \<open>The invariant\<close>

text \<open>A tag from which the index is already settled: its slot holds that index or a newer one.\<close>


definition fresh_tag :: "u64 \<Rightarrow> u64 \<Rightarrow> bool" where
  "fresh_tag tag index \<longleftrightarrow> tag \<noteq> EMPTY \<and> unat (complete_tag index) \<le> unat tag"

text \<open>The slot holds the entry: exactly the words that the writer stored.\<close>

definition holds_entry :: "event_slot \<Rightarrow> mxlEventInfo \<Rightarrow> u8 list \<Rightarrow> bool" where
  "holds_entry s info payload \<longleftrightarrow>
     es_infoWords s = info_source info \<and>
     take (length (payload_source info payload)) (es_payloadWords s) = payload_source info payload"

definition published_inv :: "ring_view \<Rightarrow> race_state \<Rightarrow> bool" where
  "published_inv v s \<longleftrightarrow>
     (\<forall>i e. ra_published s i = Some e \<longrightarrow>
        i \<le> MAX_INDEX \<and> entry_fits v (fst e) (snd e) \<and>
        fresh_tag (es_sequence (slot_of v (ra_ring s) i)) i) \<and>
     (\<forall>i. i \<le> MAX_INDEX \<longrightarrow> es_sequence (slot_of v (ra_ring s) i) = complete_tag i \<longrightarrow>
        (\<exists>info payload. ra_published s i = Some (info, payload) \<and>
           holds_entry (slot_of v (ra_ring s) i) info payload))"

fun writer_inv :: "ring_view \<Rightarrow> event_ring \<Rightarrow> writer_pc \<Rightarrow> bool" where
  "writer_inv v r WIdle = True"
| "writer_inv v r (WInfo index info payload k) =
     (index \<le> MAX_INDEX \<and> entry_fits v info payload \<and>
      es_sequence (slot_of v r index) = writing_tag index \<and>
      k \<le> length (info_source info) \<and>
      take k (es_infoWords (slot_of v r index)) = take k (info_source info))"
| "writer_inv v r (WPayload index info payload k) =
     (index \<le> MAX_INDEX \<and> entry_fits v info payload \<and>
      es_sequence (slot_of v r index) = writing_tag index \<and>
      k \<le> length (payload_source info payload) \<and>
      es_infoWords (slot_of v r index) = info_source info \<and>
      take k (es_payloadWords (slot_of v r index)) = take k (payload_source info payload))"

text \<open>
  What a reader has copied is a prefix of the published entry, or the tag has moved on: as long as the
  tag is still the completed tag of its index, nothing it loaded can come from another publication.
\<close>

fun reader_inv :: "ring_view \<Rightarrow> race_state \<Rightarrow> reader_pc \<Rightarrow> bool" where
  "reader_inv v s RIdle = True"
| "reader_inv v s (RInfo index ws) =
     (index \<le> MAX_INDEX \<and> length ws \<le> SIZEOF_EVENT_INFO div 8 \<and>
      (\<exists>info payload. ra_published s index = Some (info, payload) \<and>
        (es_sequence (slot_of v (ra_ring s) index) = complete_tag index \<longrightarrow>
           ws = take (length ws) (info_source info))))"
| "reader_inv v s (RPayload index ws ps) =
     (index \<le> MAX_INDEX \<and> length ps \<le> payload_loads v ws \<and>
      (\<exists>info payload. ra_published s index = Some (info, payload) \<and>
        (es_sequence (slot_of v (ra_ring s) index) = complete_tag index \<longrightarrow>
           ws = info_source info \<and> ps = take (length ps) (payload_source info payload))))"
| "reader_inv v s (RDone index result) =
     (\<forall>info' payload'. result = Ready info' payload' \<longrightarrow>
        (\<exists>info payload. ra_published s index = Some (info, payload) \<and>
           info' = info\<lparr>ei_index := index\<rparr> \<and> payload' = take (unat (ei_eventSize info)) payload))"

definition race_inv :: "ring_view \<Rightarrow> race_state \<Rightarrow> bool" where
  "race_inv v s \<longleftrightarrow>
     ring_wf v (ra_ring s) \<and> published_inv v s \<and> writer_inv v (ra_ring s) (ra_writer s) \<and>
     (\<forall>k. reader_inv v s (ra_readers s k))"

lemma length_info_source: "entry_fits v info payload \<Longrightarrow> length (info_source info) = SIZEOF_EVENT_INFO div 8"
  by (simp add: info_source_def length_to_words entry_fits_def length_event_info_bytes words_for_def
      SIZEOF_EVENT_INFO_def)

lemma length_payload_source:
  "entry_fits v info payload \<Longrightarrow> length (payload_source info payload) = words_for (unat (ei_eventSize info))"
  by (simp add: payload_source_def length_to_words entry_fits_def)

lemma length_payload_source_le:
  "entry_fits v info payload \<Longrightarrow> length (payload_source info payload) \<le> words_for (unat (rv_payloadSize v))"
  using length_payload_source [of v info payload] words_for_mono [of "unat (ei_eventSize info)"]
  by (simp add: entry_fits_def word_le_nat_alt)

lemma loaded_info_source: "entry_fits v info payload \<Longrightarrow> loaded_info (info_source info) = info"
  using from_words_to_words [of "event_info_bytes info"]
  by (simp add: loaded_info_def loadBytes_def info_source_def entry_fits_def length_event_info_bytes
      event_info_of_bytes_inverse)

lemma loaded_payload_source:
  "entry_fits v info payload \<Longrightarrow>
   loadBytes (payload_source info payload) (unat (ei_eventSize info)) = take (unat (ei_eventSize info)) payload"
  using from_words_to_words [of "take (unat (ei_eventSize info)) payload"]
  by (simp add: loadBytes_def payload_source_def entry_fits_def min_absorb2)

lemma payload_loads_source:
  "entry_fits v info payload \<Longrightarrow> payload_loads v (info_source info) = length (payload_source info payload)"
  by (simp add: payload_loads_def loaded_info_source length_payload_source) (simp add: entry_fits_def)

lemma read_published:
  assumes "entry_fits v info payload"
    and "read_snapshot (rv_payloadSize v) index (complete_tag index) (info_source info)
           (payload_source info payload) (complete_tag index) = Ready info' payload'"
  shows "info' = info\<lparr>ei_index := index\<rparr> \<and> payload' = take (unat (ei_eventSize info)) payload"
  using assms loaded_info_source [OF assms(1)] loaded_payload_source [OF assms(1)]
  by (auto simp: read_snapshot_def Let_def entry_fits_def split: if_splits)

text \<open>A slot update changes only the slot of its index; stores that keep the tag keep the other facts.\<close>

lemma take_Suc_update: "k < length xs \<Longrightarrow> take (Suc k) (xs[k := x]) = take k xs @ [x]"
  by (simp add: take_Suc_conv_app_nth)

lemma guard_tag_less:
  assumes "publish_guard previous index = MXL_STATUS_OK" and "fresh_tag previous i" and "i \<le> MAX_INDEX"
  shows "fresh_tag (writing_tag index) i \<and> i \<noteq> index"
proof -
  have index: "index \<le> MAX_INDEX"
    and prev: "previous = EMPTY \<or> previous = writing_tag index \<or> drop_bit 1 previous < index"
    using assms(1) by (auto simp: publish_guard_OK)
  have p: "previous \<noteq> EMPTY" "2 * unat i + 1 \<le> unat previous"
    using assms by (auto simp: fresh_tag_def unat_complete_tag)
  then have "2 * unat i + 1 \<le> 2 * unat index"
    using prev
  proof (elim disjE)
    assume "drop_bit 1 previous < index"
    then have "unat previous div 2 < unat index"
      by (simp add: word_less_nat_alt unat_drop_bit_1)
    then show ?thesis using p by linarith
  qed (use index p in \<open>auto simp: unat_writing_tag\<close>)
  then show ?thesis
    using assms(3) index by (auto simp: fresh_tag_def tag_facts unat_complete_tag unat_writing_tag)
qed

lemma fresh_writing_neq: "fresh_tag (writing_tag index) index \<Longrightarrow> index \<le> MAX_INDEX \<Longrightarrow> False"
  by (simp add: fresh_tag_def unat_complete_tag unat_writing_tag)

lemma fresh_complete:
  "fresh_tag (writing_tag index) i \<Longrightarrow> index \<le> MAX_INDEX \<Longrightarrow> fresh_tag (complete_tag index) i"
  by (simp add: fresh_tag_def unat_complete_tag unat_writing_tag tag_facts)

lemma complete_tag_inj: "complete_tag i = complete_tag j \<Longrightarrow> i \<le> MAX_INDEX \<Longrightarrow> j \<le> MAX_INDEX \<Longrightarrow> i = j"
  using tag_facts(2) [of i] tag_facts(2) [of j] by simp

text \<open>A reader step touches nothing that the other parts of the invariant speak about.\<close>

lemma race_inv_reader:
  assumes "race_inv v s" "reader_inv v s pc"
  shows "race_inv v (s\<lparr>ra_readers := (ra_readers s)(reader := pc)\<rparr>)"
proof -
  have same: "reader_inv v (s\<lparr>ra_readers := f\<rparr>) p = reader_inv v s p" for f p
    by (cases p) simp_all
  have "published_inv v (s\<lparr>ra_readers := f\<rparr>) = published_inv v s" for f
    by (simp add: published_inv_def)
  then show ?thesis
    using assms by (simp add: race_inv_def same)
qed

text \<open>A store of the writer between its two tag stores.\<close>

lemma reader_inv_other:
  assumes "reader_inv v s p" "ring_wf v (ra_ring s)"
    and "\<And>i. slotIndex v index = slotIndex v i \<Longrightarrow> i \<le> MAX_INDEX \<Longrightarrow> ra_published s i \<noteq> None \<Longrightarrow>
           es_sequence n \<noteq> complete_tag i"
    and "\<And>i. ra_published s i \<noteq> None \<Longrightarrow> pub i = ra_published s i"
  shows "reader_inv v (s\<lparr>ra_ring := set_slot v index n (ra_ring s), ra_writer := w, ra_published := pub\<rparr>) p"
proof (cases p)
  case (RInfo i ws)
  then show ?thesis
    using assms by (auto simp: slot_of_set_slot)
next
  case (RPayload i ws ps)
  then show ?thesis
    using assms by (auto simp: slot_of_set_slot)
next
  case (RDone i result)
  have "pub i = Some (a, b)" if "ra_published s i = Some (a, b)" for a b
    using assms(4) [of i] that by simp
  then show ?thesis
    using assms(1) RDone by auto
qed simp

lemma race_inv_write:
  assumes inv: "race_inv v s" and wf: "slot_wf v (slotIndex v index) n" and max: "index \<le> MAX_INDEX"
    and tag: "es_sequence n = writing_tag index"
    and fresh: "\<And>i e. slotIndex v index = slotIndex v i \<Longrightarrow> ra_published s i = Some e \<Longrightarrow>
           fresh_tag (writing_tag index) i"
    and w: "writer_inv v (set_slot v index n (ra_ring s)) w"
  shows "race_inv v (s\<lparr>ra_ring := set_slot v index n (ra_ring s), ra_writer := w\<rparr>)"
proof -
  let ?t = "s\<lparr>ra_ring := set_slot v index n (ra_ring s), ra_writer := w\<rparr>"
  have r: "ring_wf v (ra_ring s)"
    using inv by (simp add: race_inv_def)
  have pub: "published_inv v s"
    using inv by (simp add: race_inv_def)
  have "published_inv v ?t"
    unfolding published_inv_def
  proof (intro conjI allI impI)
    fix i e
    assume "ra_published ?t i = Some e"
    then have e: "ra_published s i = Some e" by simp
    then show "i \<le> MAX_INDEX" "entry_fits v (fst e) (snd e)"
      using pub unfolding published_inv_def by blast+
    show "fresh_tag (es_sequence (slot_of v (ra_ring ?t) i)) i"
      using e pub fresh [of i e] unfolding published_inv_def
      by (simp add: slot_of_set_slot [OF r] tag del: split_paired_All)
  next
    fix i
    assume "i \<le> MAX_INDEX" "es_sequence (slot_of v (ra_ring ?t) i) = complete_tag i"
    then show "\<exists>info payload. ra_published ?t i = Some (info, payload) \<and>
        holds_entry (slot_of v (ra_ring ?t) i) info payload"
      using pub writing_neq_complete
      by (simp add: slot_of_set_slot [OF r] published_inv_def tag split: if_splits)
  qed
  moreover have "reader_inv v ?t (ra_readers ?t k)" for k
    using inv reader_inv_other [OF _ r, of "ra_readers s k" index n "ra_published s" w] writing_neq_complete
    by (simp add: race_inv_def tag)
  ultimately show ?thesis
    using w ring_wf_set_slot [OF r wf] by (simp add: race_inv_def)
qed

lemma published_invD:
  assumes "published_inv v s" "ra_published s i = Some e"
  shows "i \<le> MAX_INDEX" "entry_fits v (fst e) (snd e)" "fresh_tag (es_sequence (slot_of v (ra_ring s) i)) i"
  using assms unfolding published_inv_def by blast+

lemma race_inv_finish:
  assumes inv: "race_inv v s" and w: "ra_writer s = WPayload index info payload k"
    and k: "k = length (payload_source info payload)"
  shows "race_inv v (s\<lparr>ra_ring := set_slot v index
         ((slot_of v (ra_ring s) index)\<lparr>es_sequence := complete_tag index\<rparr>) (ra_ring s),
       ra_writer := WIdle,
       ra_published := (ra_published s)(index \<mapsto> (info, payload))\<rparr>)"
    and "ra_published s index = None"
proof -
  let ?n = "(slot_of v (ra_ring s) index)\<lparr>es_sequence := complete_tag index\<rparr>"
  let ?pub = "(ra_published s)(index \<mapsto> (info, payload))"
  let ?t = "s\<lparr>ra_ring := set_slot v index ?n (ra_ring s), ra_writer := WIdle, ra_published := ?pub\<rparr>"
  have r: "ring_wf v (ra_ring s)" and wr: "writer_inv v (ra_ring s) (ra_writer s)"
    and pub: "published_inv v s"
    using inv by (simp_all add: race_inv_def)
  have max: "index \<le> MAX_INDEX" and fits: "entry_fits v info payload"
    and tag: "es_sequence (slot_of v (ra_ring s) index) = writing_tag index"
    using wr by (simp_all add: w)
  have holds: "holds_entry (slot_of v (ra_ring s) index) info payload"
    using wr by (simp add: w k holds_entry_def)
  have fresh: "fresh_tag (writing_tag index) i" "i \<le> MAX_INDEX"
    if same: "slotIndex v index = slotIndex v i" and some: "ra_published s i \<noteq> None" for i
  proof -
    obtain e where e: "ra_published s i = Some e"
      using some by auto
    have "slot_of v (ra_ring s) i = slot_of v (ra_ring s) index"
      using same by (simp add: slot_of_def)
    then show "fresh_tag (writing_tag index) i" "i \<le> MAX_INDEX"
      using pub e tag unfolding published_inv_def by metis+
  qed
  show none: "ra_published s index = None"
    using fresh [of index] fresh_writing_neq [OF _ max] by blast
  have wf: "slot_wf v (slotIndex v index) ?n"
    using slot_of_wf [OF r, of index] max tag_facts' [OF max] by (simp add: slot_wf_def slot_header_ok_def)
  have "published_inv v ?t"
    unfolding published_inv_def
  proof (intro conjI allI impI)
    fix i e
    assume "ra_published ?t i = Some e"
    then have "e = (info, payload) \<and> i = index \<or> ra_published s i = Some e"
      by (auto split: if_splits)
    then have "i \<le> MAX_INDEX \<and> entry_fits v (fst e) (snd e)"
      using published_invD [OF pub, of i e] max fits by auto
    then show "i \<le> MAX_INDEX" "entry_fits v (fst e) (snd e)"
      by simp_all
    show "fresh_tag (es_sequence (slot_of v (ra_ring ?t) i)) i"
    proof (cases "i = index")
      case True
      then show ?thesis
        using max by (simp add: slot_of_set_slot [OF r] fresh_tag_def tag_facts)
    next
      case False
      then have e: "ra_published s i = Some e"
        using \<open>ra_published ?t i = Some e\<close> by simp
      then show ?thesis
        using published_invD(3) [OF pub e] fresh [of i] fresh_complete [OF _ max]
        by (simp add: slot_of_set_slot [OF r])
    qed
  next
    fix i
    assume "i \<le> MAX_INDEX" "es_sequence (slot_of v (ra_ring ?t) i) = complete_tag i"
    then show "\<exists>info payload. ra_published ?t i = Some (info, payload) \<and>
        holds_entry (slot_of v (ra_ring ?t) i) info payload"
      using pub complete_tag_inj [OF _ max, of i] holds
      by (auto simp: slot_of_set_slot [OF r] published_inv_def holds_entry_def split: if_splits)
  qed
  moreover have "reader_inv v ?t (ra_readers ?t k)" for k
  proof -
    have "reader_inv v ?t (ra_readers s k)"
      using inv none complete_tag_inj [OF _ max]
      by (intro reader_inv_other [OF _ r]) (auto simp: race_inv_def)
    then show ?thesis by simp
  qed
  ultimately show "race_inv v ?t"
    using ring_wf_set_slot [OF r wf] by (simp add: race_inv_def)
qed

lemma race_inv_start:
  assumes "initialize count payloadSize = Ret r" "attach r count payloadSize = Ret v"
  shows "race_inv v \<lparr>ra_ring = r, ra_writer = WIdle, ra_readers = (\<lambda>_. RIdle), ra_published = (\<lambda>_. None)\<rparr>"
proof -
  have wf: "ring_wf v r"
    using assms initialize_attach [OF assms(1)] by simp
  have "es_sequence (slot_of v r i) = EMPTY" for i
    using slotIndex_less [OF wf, of i] assms(1) initialize_attach(1) [OF assms(1)] assms(2)
    by (auto simp: slot_of_def initialize_def res_simps)
  then show ?thesis
    using wf tag_facts(4) by (auto simp: race_inv_def published_inv_def dest: sym)
qed

lemma writer_slot_facts:
  assumes "race_inv v s" "ra_writer s = WInfo index info payload k \<or> ra_writer s = WPayload index info payload k"
  shows "ring_wf v (ra_ring s)" "index \<le> MAX_INDEX" "entry_fits v info payload"
    "es_sequence (slot_of v (ra_ring s) index) = writing_tag index"
    "slot_wf v (slotIndex v index) (slot_of v (ra_ring s) index)"
    "\<And>i e. slotIndex v index = slotIndex v i \<Longrightarrow> ra_published s i = Some e \<Longrightarrow> fresh_tag (writing_tag index) i"
proof -
  show r: "ring_wf v (ra_ring s)" and max: "index \<le> MAX_INDEX" and "entry_fits v info payload"
    and tag: "es_sequence (slot_of v (ra_ring s) index) = writing_tag index"
    using assms by (auto simp: race_inv_def)
  show "slot_wf v (slotIndex v index) (slot_of v (ra_ring s) index)"
    by (rule slot_of_wf [OF r])
  fix i e
  assume "slotIndex v index = slotIndex v i" "ra_published s i = Some e"
  moreover from this have "slot_of v (ra_ring s) i = slot_of v (ra_ring s) index"
    by (simp add: slot_of_def)
  ultimately show "fresh_tag (writing_tag index) i"
    using assms(1) tag unfolding race_inv_def published_inv_def by metis
qed

lemma race_inv_writer:
  assumes "race_inv v s" "writer_inv v (ra_ring s) w"
  shows "race_inv v (s\<lparr>ra_writer := w\<rparr>)"
proof -
  have "reader_inv v (s\<lparr>ra_writer := f\<rparr>) p = reader_inv v s p" for f p
    by (cases p) simp_all
  moreover have "published_inv v (s\<lparr>ra_writer := f\<rparr>) = published_inv v s" for f
    by (simp add: published_inv_def)
  ultimately show ?thesis
    using assms by (simp add: race_inv_def)
qed

text \<open>While the tag is the completed tag of an index, the slot holds what was published there.\<close>

lemma tag_complete_holds:
  assumes "race_inv v s" "index \<le> MAX_INDEX" "es_sequence (slot_of v (ra_ring s) index) = complete_tag index"
    and "ra_published s index = Some (info, payload)"
  shows "entry_fits v info payload \<and> holds_entry (slot_of v (ra_ring s) index) info payload"
  using assms unfolding race_inv_def published_inv_def by fastforce

lemma take_nth_append: "take n xs = ys \<Longrightarrow> length ys = n \<Longrightarrow> k < n \<Longrightarrow> take k ys @ [xs ! k] = take (Suc k) ys"
  by (auto simp: take_Suc_conv_app_nth)

lemma race_inv_w_start:
  assumes inv: "race_inv v s" and fits: "entry_fits v info payload"
    and guard: "publish_guard (es_sequence (slot_of v (ra_ring s) index)) index = MXL_STATUS_OK"
  shows "race_inv v (s\<lparr>ra_ring := set_slot v index
         ((slot_of v (ra_ring s) index)\<lparr>es_sequence := writing_tag index\<rparr>) (ra_ring s),
       ra_writer := WInfo index info payload 0\<rparr>)"
proof -
  have r: "ring_wf v (ra_ring s)" and pub: "published_inv v s"
    using inv by (simp_all add: race_inv_def)
  have max: "index \<le> MAX_INDEX"
    using guard by (simp add: publish_guard_OK)
  have fresh: "fresh_tag (writing_tag index) i"
    if same: "slotIndex v index = slotIndex v i" and some: "ra_published s i = Some e" for i e
  proof -
    have "slot_of v (ra_ring s) i = slot_of v (ra_ring s) index"
      using same by (simp add: slot_of_def)
    then have "fresh_tag (es_sequence (slot_of v (ra_ring s) index)) i" "i \<le> MAX_INDEX"
      using pub some unfolding published_inv_def by metis+
    then show ?thesis
      using guard_tag_less [OF guard] by blast
  qed
  show ?thesis
    by (rule race_inv_write [OF inv _ max _ fresh])
      (use slot_of_wf [OF r, of index] fits max tag_facts' [OF max] in
        \<open>auto simp: slot_wf_def slot_header_ok_def slot_of_set_slot [OF r]\<close>)
qed

lemma race_inv_w_info:
  assumes inv: "race_inv v s" and w: "ra_writer s = WInfo index info payload k"
    and k: "k < length (info_source info)"
  shows "race_inv v (s\<lparr>ra_ring := set_slot v index
         ((slot_of v (ra_ring s) index)\<lparr>es_infoWords := (es_infoWords (slot_of v (ra_ring s) index))[k := info_source info ! k]\<rparr>)
         (ra_ring s),
       ra_writer := WInfo index info payload (Suc k)\<rparr>)"
proof -
  note f = writer_slot_facts [OF inv disjI1 [OF w]]
  have len: "length (es_infoWords (slot_of v (ra_ring s) index)) = length (info_source info)"
    using f(3,5) by (simp add: slot_wf_def length_info_source)
  have pre: "take k (es_infoWords (slot_of v (ra_ring s) index)) = take k (info_source info)"
    using inv w by (simp add: race_inv_def)
  show ?thesis
    by (rule race_inv_write [OF inv _ f(2) _ f(6)])
      (use f(2-5) k len pre in \<open>simp_all add: slot_wf_def slot_header_ok_def slot_of_set_slot [OF f(1)]
         take_Suc_conv_app_nth\<close>)
qed

lemma race_inv_w_payload:
  assumes inv: "race_inv v s" and w: "ra_writer s = WPayload index info payload k"
    and k: "k < length (payload_source info payload)"
  shows "race_inv v (s\<lparr>ra_ring := set_slot v index
         ((slot_of v (ra_ring s) index)\<lparr>es_payloadWords :=
            (es_payloadWords (slot_of v (ra_ring s) index))[k := payload_source info payload ! k]\<rparr>)
         (ra_ring s),
       ra_writer := WPayload index info payload (Suc k)\<rparr>)"
proof -
  note f = writer_slot_facts [OF inv disjI2 [OF w]]
  have len: "k < length (es_payloadWords (slot_of v (ra_ring s) index))"
    using f(5) k length_payload_source_le [OF f(3)] by (simp add: slot_wf_def)
  have pre: "take k (es_payloadWords (slot_of v (ra_ring s) index)) = take k (payload_source info payload)"
    "es_infoWords (slot_of v (ra_ring s) index) = info_source info"
    using inv w by (simp_all add: race_inv_def)
  show ?thesis
    by (rule race_inv_write [OF inv _ f(2) _ f(6)])
      (use f(2-5) k len pre in \<open>simp_all add: slot_wf_def slot_header_ok_def slot_of_set_slot [OF f(1)]
         take_Suc_conv_app_nth\<close>)
qed

lemma reader_inv_info:
  assumes inv: "race_inv v s" and rd: "ra_readers s reader = RInfo index ws"
    and len: "length ws < SIZEOF_EVENT_INFO div 8"
  shows "reader_inv v s (RInfo index (ws @ [es_infoWords (slot_of v (ra_ring s) index) ! length ws]))"
proof -
  have ri: "reader_inv v s (RInfo index ws)"
    using inv rd by (metis race_inv_def)
  then obtain info payload where p: "ra_published s index = Some (info, payload)" "index \<le> MAX_INDEX"
    by auto
  have "ws @ [es_infoWords (slot_of v (ra_ring s) index) ! length ws] = take (Suc (length ws)) (info_source info)"
    if "es_sequence (slot_of v (ra_ring s) index) = complete_tag index"
  proof -
    have h: "entry_fits v info payload" "es_infoWords (slot_of v (ra_ring s) index) = info_source info"
      using tag_complete_holds [OF inv p(2) that p(1)] by (simp_all add: holds_entry_def)
    have "ws = take (length ws) (info_source info)"
      using ri p that by simp
    then show ?thesis
      using h len by (simp add: take_Suc_conv_app_nth length_info_source)
  qed
  then show ?thesis
    using p len by (simp add: min_def)
qed

lemma reader_inv_info_done:
  assumes inv: "race_inv v s" and rd: "ra_readers s reader = RInfo index ws"
    and len: "length ws = SIZEOF_EVENT_INFO div 8"
  shows "reader_inv v s (RPayload index ws [])"
proof -
  have ri: "reader_inv v s (RInfo index ws)"
    using inv rd by (metis race_inv_def)
  then obtain info payload where p: "ra_published s index = Some (info, payload)" "index \<le> MAX_INDEX"
    by auto
  have "ws = info_source info" if "es_sequence (slot_of v (ra_ring s) index) = complete_tag index"
  proof -
    have "entry_fits v info payload"
      using tag_complete_holds [OF inv p(2) that p(1)] by simp
    moreover have "ws = take (length ws) (info_source info)"
      using ri p that by simp
    ultimately show ?thesis
      using len by (simp add: length_info_source)
  qed
  then show ?thesis
    using p by simp
qed

lemma reader_inv_payload:
  assumes inv: "race_inv v s" and rd: "ra_readers s reader = RPayload index ws ps"
    and len: "length ps < payload_loads v ws"
  shows "reader_inv v s (RPayload index ws (ps @ [es_payloadWords (slot_of v (ra_ring s) index) ! length ps]))"
proof -
  have ri: "reader_inv v s (RPayload index ws ps)"
    using inv rd by (metis race_inv_def)
  then obtain info payload where p: "ra_published s index = Some (info, payload)" "index \<le> MAX_INDEX"
    by auto
  have "ws = info_source info \<and>
      ps @ [es_payloadWords (slot_of v (ra_ring s) index) ! length ps] = take (Suc (length ps)) (payload_source info payload)"
    if tag: "es_sequence (slot_of v (ra_ring s) index) = complete_tag index"
  proof -
    have h: "entry_fits v info payload" "holds_entry (slot_of v (ra_ring s) index) info payload"
      using tag_complete_holds [OF inv p(2) tag p(1)] by simp_all
    have w: "ws = info_source info" "ps = take (length ps) (payload_source info payload)"
      using ri p tag by simp_all
    then have "length ps < length (payload_source info payload)"
      using len payload_loads_source [OF h(1)] by simp
    then show ?thesis
      using take_nth_append [of "length (payload_source info payload)"
          "es_payloadWords (slot_of v (ra_ring s) index)" "payload_source info payload" "length ps"] h(2) w
      by (simp add: holds_entry_def)
  qed
  then show ?thesis
    using p len by (simp add: min_def)
qed

lemma reader_inv_check:
  assumes inv: "race_inv v s" and rd: "ra_readers s reader = RPayload index ws ps"
    and len: "length ps = payload_loads v ws"
  shows "reader_inv v s (RDone index (read_snapshot (rv_payloadSize v) index (complete_tag index) ws ps
           (es_sequence (slot_of v (ra_ring s) index))))"
proof -
  have ri: "reader_inv v s (RPayload index ws ps)"
    using inv rd by (metis race_inv_def)
  then obtain info payload where p: "ra_published s index = Some (info, payload)" "index \<le> MAX_INDEX"
    by auto
  have "info' = info\<lparr>ei_index := index\<rparr> \<and> payload' = take (unat (ei_eventSize info)) payload"
    if ready: "read_snapshot (rv_payloadSize v) index (complete_tag index) ws ps
           (es_sequence (slot_of v (ra_ring s) index)) = Ready info' payload'" for info' payload'
  proof -
    have tag: "es_sequence (slot_of v (ra_ring s) index) = complete_tag index"
      using ready by (auto simp: read_snapshot_def Let_def split: if_splits)
    have fits: "entry_fits v info payload"
      using tag_complete_holds [OF inv p(2) tag p(1)] by simp
    have "ws = info_source info" "ps = payload_source info payload"
      using ri p tag len payload_loads_source [OF fits] by auto
    then show ?thesis
      using read_published [OF fits] ready tag by simp
  qed
  then show ?thesis
    using p by simp
qed

lemma race_inv_step:
  assumes "race_step v s t" and inv: "race_inv v s"
  shows "race_inv v t"
  using assms(1)
proof (cases rule: race_step.cases)
  case (w_info_done index info payload k)
  have "writer_inv v (ra_ring s) (WPayload index info payload 0)"
    using inv w_info_done writer_slot_facts(3,5) [OF inv disjI1 [OF w_info_done(2)]]
    by (simp add: race_inv_def slot_wf_def length_info_source)
  then show ?thesis
    unfolding w_info_done(1) by (rule race_inv_writer [OF inv])
next
  case (r_unrepresentable index reader)
  then show ?thesis using inv by (auto intro!: race_inv_reader)
next
  case (r_miss index before reader)
  then show ?thesis using inv by (auto simp: read_snapshot_def intro!: race_inv_reader)
next
  case (r_start index reader)
  then have "\<exists>info payload. ra_published s index = Some (info, payload)"
    using inv unfolding race_inv_def published_inv_def by blast
  then have "reader_inv v s (RInfo index [])"
    using r_start by simp
  then show ?thesis
    unfolding r_start(1) by (rule race_inv_reader [OF inv])
qed (use inv in \<open>simp_all add: race_inv_w_start race_inv_w_info race_inv_w_payload race_inv_finish(1)
       race_inv_writer race_inv_reader reader_inv_info reader_inv_info_done reader_inv_payload reader_inv_check
       del: reader_inv.simps(2-)\<close>)

lemma race_inv_reachable: "race_reachable count payloadSize v s \<Longrightarrow> race_inv v s"
  by (induction rule: race_reachable.induct) (auto intro: race_inv_start race_inv_step)

section \<open>No torn reads\<close>

text \<open>
  C1: Whatever the interleaving, and whatever the crashes of the writer, an event that a reader returns
  for an index is exactly the one event that was completed at that index: its metadata and its payload
  are those that one publication stored, never a mixture with a later or an unfinished one.
\<close>

theorem no_torn_read:
  assumes "race_reachable count payloadSize v s"
    and "ra_readers s k = RDone index (Ready info' payload')"
  shows "\<exists>info payload. ra_published s index = Some (info, payload) \<and>
           info' = info\<lparr>ei_index := index\<rparr> \<and> payload' = take (unat (ei_eventSize info)) payload"
proof -
  have "reader_inv v s (ra_readers s k)"
    using race_inv_reachable [OF assms(1)] by (simp add: race_inv_def)
  then show ?thesis
    using assms(2) by simp
qed

text \<open>
  C9: An index is published at most once: no step of the system, not even one after a crash and a
  restart of the writer, changes the event of an index that was completed before.
\<close>

theorem published_once:
  assumes "race_reachable count payloadSize v s" and "race_step v s t"
    and "ra_published s index = Some e"
  shows "ra_published t index = Some e"
  using assms(2)
proof (cases rule: race_step.cases)
  case (w_finish index' info payload k)
  then have "ra_published s index' = None"
    using race_inv_finish(2) [OF race_inv_reachable [OF assms(1)]] by blast
  then show ?thesis
    using assms(3) w_finish by (cases "index = index'") auto
qed (use assms(3) in simp_all)

section \<open>Undisturbed runs\<close>

lemma set_slot_twice [simp]: "set_slot v i b (set_slot v i a r) = set_slot v i b r"
  by (simp add: set_slot_def)

lemma copy_word:
  "k < length src \<Longrightarrow> length src \<le> length old \<Longrightarrow>
   (take k src @ drop k old)[k := src ! k] = take (Suc k) src @ drop (Suc k) old"
  by (simp add: list_update_append take_Suc_conv_app_nth Cons_nth_drop_Suc [symmetric])

text \<open>The state after stores into one slot, and the state with one reader moved.\<close>

definition slot_stored :: "ring_view \<Rightarrow> u64 \<Rightarrow> event_slot \<Rightarrow> writer_pc \<Rightarrow> race_state \<Rightarrow> race_state" where
  "slot_stored v index e w s = s\<lparr>ra_ring := set_slot v index e (ra_ring s), ra_writer := w\<rparr>"

definition reader_at :: "nat \<Rightarrow> reader_pc \<Rightarrow> race_state \<Rightarrow> race_state" where
  "reader_at k pc s = s\<lparr>ra_readers := (ra_readers s)(k := pc)\<rparr>"

lemma slot_stored_simps [simp]:
  "ra_writer (slot_stored v index e w s) = w"
  "ra_published (slot_stored v index e w s) = ra_published s"
  "ring_wf v (ra_ring s) \<Longrightarrow> slot_of v (ra_ring (slot_stored v index e w s)) index = e"
  "(slot_stored v index e w s)\<lparr>ra_ring := set_slot v index e' (ra_ring (slot_stored v index e w s)), ra_writer := w'\<rparr>
     = slot_stored v index e' w' s"
  "(slot_stored v index e w s)\<lparr>ra_writer := w'\<rparr> = slot_stored v index e w' s"
  by (simp_all add: slot_stored_def slot_of_set_slot)

lemma reader_at_simps [simp]:
  "ra_ring (reader_at k pc s) = ra_ring s"
  "ra_readers (reader_at k pc s) k = pc"
  "(reader_at k pc s)\<lparr>ra_readers := (ra_readers (reader_at k pc s))(k := pc')\<rparr> = reader_at k pc' s"
  by (simp_all add: reader_at_def)

lemma copy_info_steps:
  assumes wf: "ring_wf v (ra_ring s)" and len: "length (info_source info) \<le> length (es_infoWords e)"
    and "k \<le> length (info_source info)"
  shows "(race_step v)\<^sup>*\<^sup>* (slot_stored v index e (WInfo index info payload 0) s)
    (slot_stored v index (e\<lparr>es_infoWords := take k (info_source info) @ drop k (es_infoWords e)\<rparr>)
       (WInfo index info payload k) s)"
  using assms(3)
proof (induction k)
  case (Suc k)
  have "race_step v (slot_stored v index (e\<lparr>es_infoWords := take k (info_source info) @ drop k (es_infoWords e)\<rparr>)
       (WInfo index info payload k) s)
     (slot_stored v index (e\<lparr>es_infoWords := take (Suc k) (info_source info) @ drop (Suc k) (es_infoWords e)\<rparr>)
       (WInfo index info payload (Suc k)) s)"
    using race_step.w_info [where s = "slot_stored v index (e\<lparr>es_infoWords := take k (info_source info) @
          drop k (es_infoWords e)\<rparr>) (WInfo index info payload k) s" and v = v and index = index, OF _ _ refl] Suc.prems
    by (simp add: wf copy_word len)
  with Suc show ?case
    by (auto intro: rtranclp.rtrancl_into_rtrancl)
qed simp

lemma copy_payload_steps:
  assumes wf: "ring_wf v (ra_ring s)" and len: "length (payload_source info payload) \<le> length (es_payloadWords e)"
    and "k \<le> length (payload_source info payload)"
  shows "(race_step v)\<^sup>*\<^sup>* (slot_stored v index e (WPayload index info payload 0) s)
    (slot_stored v index (e\<lparr>es_payloadWords := take k (payload_source info payload) @ drop k (es_payloadWords e)\<rparr>)
       (WPayload index info payload k) s)"
  using assms(3)
proof (induction k)
  case (Suc k)
  have "race_step v (slot_stored v index (e\<lparr>es_payloadWords := take k (payload_source info payload) @
          drop k (es_payloadWords e)\<rparr>) (WPayload index info payload k) s)
     (slot_stored v index (e\<lparr>es_payloadWords := take (Suc k) (payload_source info payload) @
          drop (Suc k) (es_payloadWords e)\<rparr>) (WPayload index info payload (Suc k)) s)"
    using race_step.w_payload [where s = "slot_stored v index (e\<lparr>es_payloadWords := take k (payload_source info payload) @
          drop k (es_payloadWords e)\<rparr>) (WPayload index info payload k) s" and v = v and index = index, OF _ _ refl] Suc.prems
    by (simp add: wf copy_word len)
  with Suc show ?case
    by (auto intro: rtranclp.rtrancl_into_rtrancl)
qed simp

text \<open>
  The interleaved model and the operation agree on undisturbed runs of the writer: a publication
  that \<^verbatim>\<open>publish\<close> accepts is a sequence of steps of the system, and its effect on the ring is that of
  \<^verbatim>\<open>publish\<close> run without interruption.
\<close>

theorem undisturbed_publish_steps:
  assumes wf: "ring_wf v (ra_ring s)" and idle: "ra_writer s = WIdle" and fits: "entry_fits v info payload"
    and p: "publish v index info payload (ra_ring s) = (MXL_STATUS_OK, r')"
  shows "(race_step v)\<^sup>*\<^sup>* s
    (s\<lparr>ra_ring := r', ra_writer := WIdle, ra_published := (ra_published s)(index \<mapsto> (info, payload))\<rparr>)"
proof -
  let ?e = "slot_of v (ra_ring s) index"
  define e1 where "e1 = ?e\<lparr>es_sequence := writing_tag index\<rparr>"
  define e2 where "e2 = e1\<lparr>es_infoWords := info_source info\<rparr>"
  define e3 where "e3 = e2\<lparr>es_payloadWords := storeBytes (es_payloadWords ?e) (take (unat (ei_eventSize info)) payload)\<rparr>"
  have len: "length (info_source info) = length (es_infoWords e1)"
    "length (payload_source info payload) \<le> length (es_payloadWords e2)"
    using slot_of_wf [OF wf, of index] fits length_payload_source_le [OF fits]
    by (simp_all add: slot_wf_def length_info_source e1_def e2_def)
  have 1: "race_step v s (slot_stored v index e1 (WInfo index info payload 0) s)"
    unfolding slot_stored_def e1_def
    by (rule race_step.w_start) (use assms in \<open>auto simp: publish_OK\<close>)
  have 2: "(race_step v)\<^sup>*\<^sup>* (slot_stored v index e1 (WInfo index info payload 0) s)
     (slot_stored v index e2 (WInfo index info payload (length (info_source info))) s)"
    using copy_info_steps [where s = s and index = index and payload = payload, OF wf eq_refl [OF len(1)] order_refl]
    by (simp add: len(1) e2_def)
  have 3: "race_step v (slot_stored v index e2 (WInfo index info payload (length (info_source info))) s)
     (slot_stored v index e2 (WPayload index info payload 0) s)"
    using race_step.w_info_done [of "slot_stored v index e2 (WInfo index info payload (length (info_source info))) s"]
    by simp
  have 4: "(race_step v)\<^sup>*\<^sup>* (slot_stored v index e2 (WPayload index info payload 0) s)
     (slot_stored v index e3 (WPayload index info payload (length (payload_source info payload))) s)"
    using copy_payload_steps [where s = s and index = index, OF wf len(2) order_refl]
    by (simp add: e3_def e2_def e1_def storeBytes_def payload_source_def)
  have r': "r' = set_slot v index (e3\<lparr>es_sequence := complete_tag index\<rparr>) (ra_ring s)"
    using p len(1)
    by (simp add: publish_OK stored_slot_def storeBytes_def info_source_def e3_def e2_def e1_def)
  have 5: "race_step v (slot_stored v index e3 (WPayload index info payload (length (payload_source info payload))) s)
     (s\<lparr>ra_ring := r', ra_writer := WIdle, ra_published := (ra_published s)(index \<mapsto> (info, payload))\<rparr>)"
    using race_step.w_finish [of "slot_stored v index e3 (WPayload index info payload (length (payload_source info payload))) s"
        index info payload _ v] idle
    by (simp add: wf r') (simp add: slot_stored_def)
  show ?thesis
    using 1 2 3 4 5 by (meson rtranclp.rtrancl_into_rtrancl rtranclp_trans r_into_rtranclp)
qed

lemma load_info_steps:
  assumes "n \<le> SIZEOF_EVENT_INFO div 8"
    and "length (es_infoWords (slot_of v (ra_ring s) index)) = SIZEOF_EVENT_INFO div 8"
  shows "(race_step v)\<^sup>*\<^sup>* (reader_at k (RInfo index []) s)
    (reader_at k (RInfo index (take n (es_infoWords (slot_of v (ra_ring s) index)))) s)"
  using assms(1)
proof (induction n)
  case (Suc n)
  have "race_step v (reader_at k (RInfo index (take n (es_infoWords (slot_of v (ra_ring s) index)))) s)
    (reader_at k (RInfo index (take (Suc n) (es_infoWords (slot_of v (ra_ring s) index)))) s)"
    using race_step.r_info [of "reader_at k (RInfo index (take n (es_infoWords (slot_of v (ra_ring s) index)))) s" k index _ v]
      Suc.prems assms(2)
    by (simp add: take_Suc_conv_app_nth)
  with Suc show ?case
    by (auto intro: rtranclp.rtrancl_into_rtrancl)
qed simp

lemma load_payload_steps:
  assumes "n \<le> payload_loads v ws"
    and "payload_loads v ws \<le> length (es_payloadWords (slot_of v (ra_ring s) index))"
  shows "(race_step v)\<^sup>*\<^sup>* (reader_at k (RPayload index ws []) s)
    (reader_at k (RPayload index ws (take n (es_payloadWords (slot_of v (ra_ring s) index)))) s)"
  using assms(1)
proof (induction n)
  case (Suc n)
  have "race_step v (reader_at k (RPayload index ws (take n (es_payloadWords (slot_of v (ra_ring s) index)))) s)
    (reader_at k (RPayload index ws (take (Suc n) (es_payloadWords (slot_of v (ra_ring s) index)))) s)"
    using race_step.r_payload [of "reader_at k (RPayload index ws (take n (es_payloadWords (slot_of v (ra_ring s) index)))) s"
        k index ws _ v] Suc.prems assms(2)
    by (simp add: take_Suc_conv_app_nth)
  with Suc show ?case
    by (auto intro: rtranclp.rtrancl_into_rtrancl)
qed simp

lemma from_words_take: "words_for n \<le> m \<Longrightarrow> from_words n (take m ws) = from_words n ws"
proof (cases "m \<le> length ws")
  case True
  assume "words_for n \<le> m"
  with True show ?thesis
    using from_words_prefix [of n "take m ws" "drop m ws"] words_for_cover [of n] by simp
qed simp

lemma undisturbed_read_steps:
  assumes wf: "ring_wf v (ra_ring s)"
  shows "(race_step v)\<^sup>*\<^sup>* s (reader_at k (RDone index (ring_read v (ra_ring s) index)) s)"
proof -
  let ?e = "slot_of v (ra_ring s) index"
  have len: "length (es_infoWords ?e) = SIZEOF_EVENT_INFO div 8"
    "length (es_payloadWords ?e) = words_for (unat (rv_payloadSize v))"
    using slot_of_wf [OF wf, of index] by (simp_all add: slot_wf_def)
  consider "index > MAX_INDEX" | "index \<le> MAX_INDEX" "es_sequence ?e \<noteq> complete_tag index"
    | "index \<le> MAX_INDEX" "es_sequence ?e = complete_tag index"
    by (meson not_less)
  then show ?thesis
  proof cases
    case 1
    then have "race_step v s (reader_at k (RDone index (ring_read v (ra_ring s) index)) s)"
      using race_step.r_unrepresentable [of index v s k] by (simp add: ring_read_def reader_at_def)
    then show ?thesis ..
  next
    case 2
    then have "ring_read v (ra_ring s) index = read_snapshot (rv_payloadSize v) index (es_sequence ?e) [] [] (es_sequence ?e)"
      by (simp add: ring_read_def read_snapshot_def Let_def not_less [symmetric])
    then have "race_step v s (reader_at k (RDone index (ring_read v (ra_ring s) index)) s)"
      using race_step.r_miss [OF 2(1) refl 2(2), of k] by (simp add: reader_at_def)
    then show ?thesis ..
  next
    case 3
    let ?ws = "es_infoWords ?e" and ?n = "payload_loads v (es_infoWords ?e)"
    have n: "?n \<le> length (es_payloadWords ?e)"
      by (auto simp: payload_loads_def len word_le_nat_alt intro: words_for_mono)
    have 1: "race_step v s (reader_at k (RInfo index []) s)"
      unfolding reader_at_def by (rule race_step.r_start) (use 3 in auto)
    have 2: "(race_step v)\<^sup>*\<^sup>* (reader_at k (RInfo index []) s) (reader_at k (RInfo index ?ws) s)"
      using load_info_steps [of "SIZEOF_EVENT_INFO div 8" v s index k] len by simp
    have 30: "race_step v (reader_at k (RInfo index ?ws) s) (reader_at k (RPayload index ?ws []) s)"
      using race_step.r_info_done [of "reader_at k (RInfo index ?ws) s" k index ?ws v] len by simp
    have 4: "(race_step v)\<^sup>*\<^sup>* (reader_at k (RPayload index ?ws []) s)
        (reader_at k (RPayload index ?ws (take ?n (es_payloadWords ?e))) s)"
      using load_payload_steps [of ?n v ?ws s index k] n by simp
    have eq: "read_snapshot (rv_payloadSize v) index (complete_tag index) ?ws (take ?n (es_payloadWords ?e)) (es_sequence ?e)
        = ring_read v (ra_ring s) index"
      using 3 by (simp add: ring_read_def read_snapshot_def Let_def loadBytes_def payload_loads_def from_words_take
          not_less [symmetric])
    have 5: "race_step v (reader_at k (RPayload index ?ws (take ?n (es_payloadWords ?e))) s)
       (reader_at k (RDone index (ring_read v (ra_ring s) index)) s)"
      using race_step.r_check [of "reader_at k (RPayload index ?ws (take ?n (es_payloadWords ?e))) s" k index ?ws
          "take ?n (es_payloadWords ?e)" v, OF _ _ refl] n by (simp add: eq)
    show ?thesis
      using 1 2 30 4 5 by (meson rtranclp.rtrancl_into_rtrancl rtranclp_trans r_into_rtranclp)
  qed
qed

lemma race_reachable_steps:
  "(race_step v)\<^sup>*\<^sup>* s t \<Longrightarrow> race_reachable count payloadSize v s \<Longrightarrow> race_reachable count payloadSize v t"
  by (induction rule: rtranclp_induct) (auto intro: race_reachable.step)

section \<open>Examples\<close>

text \<open>The sample event is published at index 0 and then read by reader 0.\<close>

lemma sample_race:
  "\<exists>s t u. race_reachable 2 8 sample_view s \<and> ra_writer s = WIdle \<and> ra_published s = (\<lambda>_. None) \<and>
     ring_wf sample_view (ra_ring s) \<and>
     (\<exists>r'. publish sample_view 0 sample_info [1, 2, 3] (ra_ring s) = (MXL_STATUS_OK, r') \<and>
       t = s\<lparr>ra_ring := r', ra_writer := WIdle, ra_published := (ra_published s)(0 \<mapsto> (sample_info, [1, 2, 3]))\<rparr>) \<and>
     race_reachable 2 8 sample_view t \<and> ra_published t 0 = Some (sample_info, [1, 2, 3]) \<and>
     race_reachable 2 8 sample_view u \<and> ra_published u = ra_published t \<and>
     ra_readers u 0 = RDone 0 (Ready (sample_info\<lparr>ei_index := 0\<rparr>) [1, 2, 3])"
proof -
  obtain r where r: "initialize 2 8 = Ret r" "ring_log sample_view r []"
    using sample_log by blast
  have att: "attach r 2 8 = Ret sample_view"
    using initialize_attach(1) [OF r(1)] by (simp add: sample_view_def)
  define s where "s = \<lparr>ra_ring = r, ra_writer = WIdle, ra_readers = (\<lambda>_. RIdle), ra_published = (\<lambda>_. None)\<rparr>"
  have s: "race_reachable 2 8 sample_view s"
    unfolding s_def by (rule race_reachable.start [OF r(1) att])
  have wf: "ring_wf sample_view (ra_ring s)"
    using r(2) by (simp add: s_def ring_log_def)
  have fits: "entry_fits sample_view sample_info [1, 2, 3]"
    using sample_entry_ok by (simp add: entry_ok_def entry_fits_def)
  obtain r' where p: "publish sample_view 0 sample_info [1, 2, 3] (ra_ring s) = (MXL_STATUS_OK, r')"
    and log: "ring_log sample_view r' [(sample_info, [1, 2, 3])]"
    using ring_refines_log [OF r(2) sample_entry_ok] by (auto simp: s_def)
  define t where "t = s\<lparr>ra_ring := r', ra_writer := WIdle, ra_published := (ra_published s)(0 \<mapsto> (sample_info, [1, 2, 3]))\<rparr>"
  have t: "race_reachable 2 8 sample_view t"
    using undisturbed_publish_steps [OF wf _ fits p] race_reachable_steps [OF _ s] by (simp add: t_def s_def)
  have "ring_wf sample_view (ra_ring t)"
    using log by (simp add: t_def ring_log_def)
  from undisturbed_read_steps [OF this, of 0 0]
  have u: "race_reachable 2 8 sample_view (reader_at 0 (RDone 0 (ring_read sample_view (ra_ring t) 0)) t)"
    using race_reachable_steps [OF _ t] by blast
  moreover have "ring_read sample_view (ra_ring t) 0 = Ready (sample_info\<lparr>ei_index := 0\<rparr>) [1, 2, 3]"
  proof -
    have "ei_eventSize sample_info = 3"
      by (simp add: sample_info_def)
    moreover have "ring_read sample_view r' 0 = Ready ((fst ([(sample_info, [1, 2, 3])] ! unat (0 :: u64)))\<lparr>ei_index := 0\<rparr>)
        (take (unat (ei_eventSize (fst ([(sample_info, [1, 2, 3])] ! unat (0 :: u64))))) (snd ([(sample_info, [1, 2, 3])] ! unat (0 :: u64))))"
      using log by (simp add: ring_log_def sample_view_def)
    ultimately show ?thesis
      by (simp add: t_def)
  qed
  ultimately show ?thesis
    using s t wf p by (intro exI [of _ s] exI [of _ t] exI [of _ "reader_at 0 (RDone 0 (ring_read sample_view (ra_ring t) 0)) t"])
      (simp add: t_def s_def reader_at_def)
qed

theorem no_torn_read_witness:
  "\<exists>s info. race_reachable 2 8 sample_view s \<and>
     ra_readers s 0 = RDone 0 (Ready (sample_info\<lparr>ei_index := 0\<rparr>) [1, 2, 3]) \<and>
     (\<exists>payload. ra_published s 0 = Some (info, payload) \<and>
       sample_info\<lparr>ei_index := 0\<rparr> = info\<lparr>ei_index := 0\<rparr> \<and> [1, 2, 3] = take (unat (ei_eventSize info)) payload)"
proof -
  obtain u where u: "race_reachable 2 8 sample_view u"
    "ra_readers u 0 = RDone 0 (Ready (sample_info\<lparr>ei_index := 0\<rparr>) [1, 2, 3])"
    using sample_race by blast
  show ?thesis
    using no_torn_read [OF u] u by blast
qed

theorem published_once_witness:
  "\<exists>s t. race_reachable 2 8 sample_view s \<and> race_step sample_view s t \<and>
     ra_published s 0 = Some (sample_info, [1, 2, 3]) \<and> ra_published t 0 = Some (sample_info, [1, 2, 3])"
proof -
  obtain s where s: "race_reachable 2 8 sample_view s" "ra_published s 0 = Some (sample_info, [1, 2, 3])"
    using sample_race by blast
  have "race_step sample_view s (s\<lparr>ra_writer := WIdle\<rparr>)"
    by (rule race_step.w_crash)
  from published_once [OF s(1) this s(2)] this show ?thesis
    using s by blast
qed

theorem undisturbed_publish_steps_witness:
  "\<exists>s r'. publish sample_view 0 sample_info [1, 2, 3] (ra_ring s) = (MXL_STATUS_OK, r') \<and>
     (race_step sample_view)\<^sup>*\<^sup>* s (s\<lparr>ra_ring := r', ra_writer := WIdle,
        ra_published := (ra_published s)(0 \<mapsto> (sample_info, [1, 2, 3]))\<rparr>)"
proof -
  obtain s :: race_state and r' where s: "ring_wf sample_view (ra_ring s)" "ra_writer s = WIdle"
    "publish sample_view 0 sample_info [1, 2, 3] (ra_ring s) = (MXL_STATUS_OK, r')"
    using sample_race by blast
  have "entry_fits sample_view sample_info [1, 2, 3]"
    using sample_entry_ok by (simp add: entry_ok_def entry_fits_def)
  from undisturbed_publish_steps [OF s(1,2) this s(3)] show ?thesis
    using s by blast
qed

end
