(* ===== verification/Sync.thy ===== *)
theory Sync
  imports FlowTypes
begin

text \<open>
  Waiting for a change of the synchronisation counter: \<^verbatim>\<open>waitUntilChanged\<close> of \<^verbatim>\<open>Sync.cpp\<close>. One round of
  its loop sees the counter, the clock and the outcome of the futex call; a run is given the list of
  what its rounds see, and has no result (\<open>None\<close>) while the list ends before the loop does.
\<close>

text \<open>What \<^verbatim>\<open>do_wait\<close> did: it was woken, or it failed with one of the \<^verbatim>\<open>errno\<close> values the code tells apart.\<close>

datatype wait_outcome = Woken | Wait_EAGAIN | Wait_EINTR | Wait_ETIMEDOUT | Wait_error

record wait_obs =
  wo_load :: u32
  wo_now :: timepoint
  wo_wait :: wait_outcome

fun do_wait_retries :: "wait_outcome \<Rightarrow> bool" where
  "do_wait_retries Woken = True"
| "do_wait_retries Wait_EAGAIN = True"
| "do_wait_retries Wait_EINTR = True"
| "do_wait_retries Wait_ETIMEDOUT = False"
| "do_wait_retries Wait_error = False"

fun waitUntilChanged :: "u32 \<Rightarrow> timepoint \<Rightarrow> wait_obs list \<Rightarrow> bool res option" where
  "waitUntilChanged in_expected in_deadline [] = None"
| "waitUntilChanged in_expected in_deadline (ob # obs) =
     (if wo_load ob \<noteq> in_expected then Some (Ret True)
      else if wo_now ob \<ge> in_deadline then Some (Ret False)
      else case tp_diff in_deadline (wo_now ob) of
          Ret timeout \<Rightarrow>
            (if do_wait_retries (wo_wait ob) then waitUntilChanged in_expected in_deadline obs
             else Some (Ret False))
        | Throw e \<Rightarrow> Some (Throw e)
        | Undef \<Rightarrow> Some Undef)"

text \<open>The overload that takes a timeout instead of a deadline.\<close>

definition waitUntilChanged_timeout ::
  "(clockid \<Rightarrow> timespec option) \<Rightarrow> u32 \<Rightarrow> duration \<Rightarrow> wait_obs list \<Rightarrow> bool res option" where
  "waitUntilChanged_timeout gettime in_expected in_timeout obs =
     (case bind_res (currentTime gettime Realtime) (\<lambda>now. tp_plus now in_timeout) of
        Ret deadline \<Rightarrow> waitUntilChanged in_expected deadline obs
      | Throw e \<Rightarrow> Some (Throw e)
      | Undef \<Rightarrow> Some Undef)"

text \<open>A round after which the loop goes on.\<close>

definition wait_again :: "u32 \<Rightarrow> timepoint \<Rightarrow> wait_obs \<Rightarrow> bool" where
  "wait_again in_expected in_deadline ob \<longleftrightarrow>
     wo_load ob = in_expected \<and> wo_now ob < in_deadline \<and> do_wait_retries (wo_wait ob)"

text \<open>Points in time the library produces: a clock value or a deadline is never negative.\<close>

definition tp_ok :: "timepoint \<Rightarrow> bool" where
  "tp_ok t \<longleftrightarrow> 0 \<le> tp_value t \<and> tp_value t < 2 ^ 63"

lemma tp_diff_ok: "tp_ok a \<Longrightarrow> tp_ok b \<Longrightarrow> tp_diff a b = Ret (Duration (tp_value a - tp_value b))"
  by (simp add: tp_ok_def tp_diff_def chk64_def in_i64_def)

text \<open>
  With non-negative times, a wait returns \<^verbatim>\<open>true\<close> exactly when the first round that does not
  repeat saw a changed counter, returns \<^verbatim>\<open>false\<close> exactly when that round saw the counter unchanged
  with the deadline reached or the futex call failed, and is never undefined.
\<close>

theorem waitUntilChanged_result:
  assumes "tp_ok in_deadline" and "\<forall>ob \<in> set obs. tp_ok (wo_now ob)"
  shows "waitUntilChanged in_expected in_deadline obs =
    (case dropWhile (wait_again in_expected in_deadline) obs of
       [] \<Rightarrow> None
     | ob # _ \<Rightarrow> Some (Ret (wo_load ob \<noteq> in_expected)))"
  using assms
  by (induction obs) (auto simp: wait_again_def tp_diff_ok not_less)

theorem waitUntilChanged_result_witness:
  "waitUntilChanged 7 (Timepoint 10)
     [\<lparr>wo_load = 7, wo_now = Timepoint 3, wo_wait = Wait_EINTR\<rparr>,
      \<lparr>wo_load = 8, wo_now = Timepoint 5, wo_wait = Woken\<rparr>] = Some (Ret True)"
  by (subst waitUntilChanged_result) (simp_all add: tp_ok_def wait_again_def time_order)

end
