(* ===== verification/EventFlow.thy ===== *)
theory EventFlow
  imports EventRingRace Sync
begin

text \<open>
  Event flows: the common data of an event flow (\<^verbatim>\<open>EventFlowData.hpp\<close>), the writer with its crash
  recovery (\<^verbatim>\<open>PosixEventFlowWriter.cpp\<close>) and the reader with its queue position
  (\<^verbatim>\<open>PosixEventFlowReader.cpp\<close>), both on top of the event ring.
\<close>

section \<open>The data of a flow\<close>

text \<open>The parts of the flow's mapping that events use, the mapping of the ring, and the view on it.\<close>

record EventFlowData =
  ed_config :: mxlEventFlowConfigInfo
  ed_runtime :: mxlFlowRuntimeInfo
  ed_state :: FlowState
  ed_ring :: event_ring
  ed_view :: ring_view

definition eventCount :: "EventFlowData \<Rightarrow> u64" where
  "eventCount d = ucast (ec_eventCount (ed_config d))"

text \<open>\<open>existing\<close> is the content of an existing events file, \<open>None\<close> when the mapping was created.\<close>

definition openEventBuffer :: "mxlEventFlowConfigInfo \<Rightarrow> event_ring option \<Rightarrow> (event_ring \<times> ring_view) res" where
  "openEventBuffer config existing =
     bind_res (bufferSize (ec_eventCount config) (ec_eventPayloadSize config)) (\<lambda>n.
     bind_res (case existing of
         None \<Rightarrow> initialize (ec_eventCount config) (ec_eventPayloadSize config)
       | Some r \<Rightarrow> Ret r) (\<lambda>r.
     bind_res (attach r (ec_eventCount config) (ec_eventPayloadSize config)) (\<lambda>v. Ret (r, v))))"

definition oldestIndex :: "EventFlowData \<Rightarrow> u64" where
  "oldestIndex d =
     (let head = headIndex (ed_runtime d)
      in if head \<noteq> MXL_UNDEFINED_INDEX \<and> head \<ge> eventCount d then head - (eventCount d - 1) else 0)"

section \<open>The writer\<close>

record PosixEventFlowWriter =
  ew_open :: bool
  ew_lastTimestamp :: u64

definition next_index :: "u64 \<Rightarrow> u64" where
  "next_index head = (if head = MXL_UNDEFINED_INDEX then 0 else head + 1)"

definition notify :: "EventFlowData \<Rightarrow> EventFlowData" where
  "notify d = d\<lparr>ed_state := (ed_state d)\<lparr>fs_syncCounter := fs_syncCounter (ed_state d) + 1\<rparr>\<rparr>"

text \<open>\<open>now\<close> is the value of \<^verbatim>\<open>currentTime(Clock::TAI)\<close> at the call.\<close>

definition advance_head :: "u64 \<Rightarrow> u64 \<Rightarrow> EventFlowData \<Rightarrow> EventFlowData" where
  "advance_head now index d =
     d\<lparr>ed_runtime := (ed_runtime d)\<lparr>lastWriteTime := now, headIndex := index\<rparr>\<rparr>"

definition PosixEventFlowWriter_ctor ::
  "u64 \<Rightarrow> EventFlowData \<Rightarrow> (PosixEventFlowWriter \<times> EventFlowData) res" where
  "PosixEventFlowWriter_ctor now d =
     (let head = headIndex (ed_runtime d)
      in bind_res
        (if head = MXL_UNDEFINED_INDEX then Ret 0
         else case ring_read (ed_view d) (ed_ring d) head of
             Ready info payload \<Rightarrow> Ret (ei_timestamp info)
           | _ \<Rightarrow> Throw RuntimeError)
        (\<lambda>lastTimestamp.
           let next = next_index head
           in bind_res
             (case ring_read (ed_view d) (ed_ring d) next of
                Ready info payload \<Rightarrow>
                  (if ei_timestamp info < lastTimestamp then Throw RuntimeError
                   else Ret (next, ei_timestamp info, advance_head now next d))
              | Pending \<Rightarrow> Ret (head, lastTimestamp, d)
              | _ \<Rightarrow> Throw RuntimeError)
             (\<lambda>(head, lastTimestamp, d).
                Ret (\<lparr>ew_open = False, ew_lastTimestamp = lastTimestamp\<rparr>,
                     if head \<noteq> MXL_UNDEFINED_INDEX then notify d else d))))"

text \<open>The metadata \<^verbatim>\<open>openEvent\<close> hands to the client, to be filled in before the commit.\<close>

definition fresh_event_info :: mxlEventInfo where
  "fresh_event_info =
     \<lparr>ei_version = EVENT_HEADER_VERSION, ei_size = of_nat SIZEOF_EVENT_INFO, ei_timestamp = 0, ei_flags = 0,
      ei_registryType = 0, ei_dataItemType = replicate 256 0, ei_eventSize = 0, ei_offset = 0,
      ei_complete = 1, ei_reserved = replicate 215 0, ei_index = MXL_UNDEFINED_INDEX\<rparr>"

definition openEvent :: "PosixEventFlowWriter \<Rightarrow> mxlStatus \<times> mxlEventInfo option \<times> PosixEventFlowWriter" where
  "openEvent w =
     (if ew_open w then (MXL_ERR_INVALID_ARG, None, w)
      else (MXL_STATUS_OK, Some fresh_event_info, w\<lparr>ew_open := True\<rparr>))"

definition cancel_event :: "PosixEventFlowWriter \<Rightarrow> mxlStatus \<times> PosixEventFlowWriter" where
  "cancel_event w =
     (if \<not> ew_open w then (MXL_ERR_INVALID_ARG, w) else (MXL_STATUS_OK, w\<lparr>ew_open := False\<rparr>))"

text \<open>\<open>payload\<close> is the content of the staging buffer when the client commits.\<close>

definition commit_event ::
  "u64 \<Rightarrow> mxlEventInfo \<Rightarrow> u8 list \<Rightarrow> PosixEventFlowWriter \<Rightarrow> EventFlowData
    \<Rightarrow> mxlStatus \<times> PosixEventFlowWriter \<times> EventFlowData" where
  "commit_event now info payload w d =
     (if \<not> ew_open w \<or> ei_version info \<noteq> EVENT_HEADER_VERSION \<or> unat (ei_size info) \<noteq> SIZEOF_EVENT_INFO \<or>
         ei_flags info \<noteq> 0 \<or> ei_timestamp info < ew_lastTimestamp w \<or>
         ei_eventSize info > ec_eventPayloadSize (ed_config d)
      then (MXL_ERR_INVALID_ARG, w, d)
      else let index = next_index (headIndex (ed_runtime d));
               (status, ring) = publish (ed_view d) index info payload (ed_ring d)
           in if status \<noteq> MXL_STATUS_OK then (status, w, d)
              else (MXL_STATUS_OK,
                    w\<lparr>ew_open := False, ew_lastTimestamp := ei_timestamp info\<rparr>,
                    notify (advance_head now index (d\<lparr>ed_ring := ring\<rparr>))))"

section \<open>The reader\<close>

text \<open>The reader's only mutable state is the index it reads next.\<close>

definition PosixEventFlowReader_ctor :: "EventFlowData \<Rightarrow> u64" where
  "PosixEventFlowReader_ctor d = oldestIndex d"

text \<open>The flow is valid while its data file is still the one that was opened; \<open>st\<close> is the inode \<^verbatim>\<open>stat\<close> reports.\<close>

definition isFlowValidImpl :: "u64 option \<Rightarrow> FlowState \<Rightarrow> bool" where
  "isFlowValidImpl st state = (case st of None \<Rightarrow> False | Some st_ino \<Rightarrow> st_ino = fs_inode state)"

text \<open>
  What one round of \<^verbatim>\<open>getEvent\<close> sees: the flow when the oldest index is computed, when the ring is read,
  when the oldest index is computed again after an overwritten read, then the file status, the clock and
  the result of \<^verbatim>\<open>waitUntilChanged\<close>.
\<close>

record event_obs =
  eo_first :: EventFlowData
  eo_read :: EventFlowData
  eo_again :: EventFlowData
  eo_stat :: "u64 option"
  eo_now :: timepoint
  eo_wait :: bool

fun getEvent ::
  "timepoint \<Rightarrow> event_obs list \<Rightarrow> u64 \<Rightarrow> (mxlStatus \<times> (mxlEventInfo \<times> u8 list) option \<times> u64) option" where
  "getEvent deadline [] nextIndex = None"
| "getEvent deadline (ob # obs) nextIndex =
     (let oldest = oldestIndex (eo_first ob)
      in if nextIndex < oldest then Some (MXL_ERR_OUT_OF_RANGE_TOO_LATE, None, oldest)
         else case ring_read (ed_view (eo_read ob)) (ed_ring (eo_read ob)) nextIndex of
             Ready received snapshot \<Rightarrow> Some (MXL_STATUS_OK, Some (received, snapshot), nextIndex + 1)
           | Overwritten \<Rightarrow>
               Some (MXL_ERR_OUT_OF_RANGE_TOO_LATE, None, max (nextIndex + 1) (oldestIndex (eo_again ob)))
           | Invalid \<Rightarrow> Some (MXL_ERR_FLOW_INVALID, None, nextIndex)
           | Pending \<Rightarrow>
               (if \<not> isFlowValidImpl (eo_stat ob) (ed_state (eo_read ob))
                then Some (MXL_ERR_FLOW_INVALID, None, nextIndex)
                else if eo_now ob \<ge> deadline \<or> \<not> eo_wait ob
                then Some (MXL_ERR_OUT_OF_RANGE_TOO_EARLY, None, nextIndex)
                else getEvent deadline obs nextIndex))"

section \<open>The log of a flow\<close>

text \<open>The head index of a flow with \<open>n\<close> committed events, and the timestamp of the last one.\<close>

definition head_of :: "nat \<Rightarrow> u64" where
  "head_of n = (if n = 0 then MXL_UNDEFINED_INDEX else of_nat (n - 1))"

definition last_timestamp :: "(mxlEventInfo \<times> u8 list) list \<Rightarrow> u64" where
  "last_timestamp es = (if es = [] then 0 else ei_timestamp (fst (last es)))"

definition flow_geometry :: "EventFlowData \<Rightarrow> bool" where
  "flow_geometry d \<longleftrightarrow>
     ec_eventCount (ed_config d) = rv_count (ed_view d) \<and>
     ec_eventPayloadSize (ed_config d) = rv_payloadSize (ed_view d)"

definition entries_ok :: "ring_view \<Rightarrow> (mxlEventInfo \<times> u8 list) list \<Rightarrow> bool" where
  "entries_ok v es \<longleftrightarrow>
     (\<forall>(info, payload) \<in> set es. entry_ok v info payload) \<and> sorted (map (\<lambda>e. ei_timestamp (fst e)) es)"

definition flow_log :: "EventFlowData \<Rightarrow> (mxlEventInfo \<times> u8 list) list \<Rightarrow> bool" where
  "flow_log d es \<longleftrightarrow>
     ring_log (ed_view d) (ed_ring d) es \<and> flow_geometry d \<and> entries_ok (ed_view d) es \<and>
     headIndex (ed_runtime d) = head_of (length es)"

text \<open>
  Where the writer may have been stopped: the ring is that of the log except in the slot of the next
  index, which is still unpublished and which the guard lets a writer take.
\<close>

definition flow_log_upto :: "EventFlowData \<Rightarrow> (mxlEventInfo \<times> u8 list) list \<Rightarrow> bool" where
  "flow_log_upto d es \<longleftrightarrow>
     (\<exists>r. flow_log (d\<lparr>ed_ring := r\<rparr>) es \<and> ring_wf (ed_view d) (ed_ring d) \<and> length es \<le> unat MAX_INDEX \<and>
        (\<forall>i. slotIndex (ed_view d) i \<noteq> slotIndex (ed_view d) (of_nat (length es)) \<longrightarrow>
           slot_of (ed_view d) (ed_ring d) i = slot_of (ed_view d) r i) \<and>
        publish_guard (es_sequence (slot_of (ed_view d) (ed_ring d) (of_nat (length es)))) (of_nat (length es))
          = MXL_STATUS_OK \<and>
        ring_read (ed_view d) (ed_ring d) (of_nat (length es)) = Pending)"

definition writer_ready :: "PosixEventFlowWriter \<Rightarrow> EventFlowData \<Rightarrow> (mxlEventInfo \<times> u8 list) list \<Rightarrow> bool" where
  "writer_ready w d es \<longleftrightarrow> flow_log_upto d es \<and> ew_lastTimestamp w = last_timestamp es"

lemma unat_index: "n \<le> unat MAX_INDEX + 1 \<Longrightarrow> unat (of_nat n :: u64) = n"
  by (simp add: MAX_INDEX_nat unat_of_nat)

lemma next_index_head_of: "n \<le> unat MAX_INDEX + 1 \<Longrightarrow> next_index (head_of n) = of_nat n"
proof (cases n)
  case (Suc m)
  assume "n \<le> unat MAX_INDEX + 1"
  then have "unat (of_nat m :: u64) = m" "m < 2 ^ 63"
    using Suc by (simp_all add: unat_index MAX_INDEX_nat)
  then have "(of_nat m :: u64) \<noteq> MXL_UNDEFINED_INDEX"
    by (auto simp: word_eq_unat unat_MXL_UNDEFINED_INDEX)
  then show ?thesis
    using Suc by (simp add: next_index_def head_of_def add.commute)
qed (simp add: next_index_def head_of_def)

lemma unat_head_of: "0 < n \<Longrightarrow> n \<le> unat MAX_INDEX + 1 \<Longrightarrow> unat (head_of n) = n - 1"
  using unat_index [of "n - 1"] by (simp add: head_of_def del: of_nat_diff)

lemma head_of_UNDEFINED: "n \<le> unat MAX_INDEX + 1 \<Longrightarrow> head_of n = MXL_UNDEFINED_INDEX \<longleftrightarrow> n = 0"
  using unat_head_of [of n] by (auto simp: word_eq_unat unat_MXL_UNDEFINED_INDEX MAX_INDEX_nat head_of_def)

lemma flow_log_length: "flow_log d es \<Longrightarrow> length es \<le> unat MAX_INDEX + 1"
  by (simp add: flow_log_def ring_log_def)

lemma log_entry_timestamp: "ei_timestamp (fst (log_entry es i)) = ei_timestamp (fst (es ! unat i))"
  by (simp add: log_entry_def)

lemma flow_log_upto_clean:
  assumes "flow_log d es" "length es \<le> unat MAX_INDEX"
  shows "flow_log_upto d es"
proof -
  have log: "ring_log (ed_view d) (ed_ring d) es"
    using assms by (simp add: flow_log_def)
  have "ring_read (ed_view d) (ed_ring d) (of_nat (length es)) = Pending"
    using ring.peek_pending_iff [OF log] assms(2) by (simp add: unat_index)
  then show ?thesis
    using assms log next_guard [OF log assms(2)]
    by (auto simp: flow_log_upto_def ring_log_def intro!: exI [of _ "ed_ring d"])
qed

text \<open>A writer that stopped between its two tag stores leaves such a state, whatever it had copied.\<close>

lemma flow_log_upto_torn:
  assumes log: "flow_log d es" and max: "length es \<le> unat MAX_INDEX"
    and s: "slot_wf (ed_view d) (slotIndex (ed_view d) (of_nat (length es))) s"
      "es_sequence s = writing_tag (of_nat (length es))"
  shows "flow_log_upto (d\<lparr>ed_ring := set_slot (ed_view d) (of_nat (length es)) s (ed_ring d)\<rparr>) es"
proof -
  let ?n = "of_nat (length es) :: u64"
  have wf: "ring_wf (ed_view d) (ed_ring d)"
    using log by (simp add: flow_log_def ring_log_def)
  have n: "?n \<le> MAX_INDEX"
    using max by (simp add: word_le_nat_alt unat_index)
  then have "ring_read (ed_view d) (set_slot (ed_view d) ?n s (ed_ring d)) ?n = Pending"
    using tag_facts' [OF n] writing_neq_complete [of ?n ?n]
    by (simp add: ring_read_def slot_of_set_slot [OF wf] read_snapshot_def s)
  moreover have "publish_guard (es_sequence s) ?n = MXL_STATUS_OK"
    using n s by (simp add: publish_guard_OK)
  ultimately show ?thesis
    unfolding flow_log_upto_def
    using log max ring_wf_set_slot [OF wf s(1)]
    by (intro exI [of _ "ed_ring d"]) (simp add: slot_of_set_slot [OF wf])
qed

text \<open>The last committed event is still readable, its slot being another one than the next.\<close>

lemma upto_read_head:
  assumes "flow_log_upto d es" "es \<noteq> []"
  shows "ring_read (ed_view d) (ed_ring d) (head_of (length es)) =
    Ready (fst (log_entry es (head_of (length es)))) (snd (log_entry es (head_of (length es))))"
proof -
  obtain r where log: "ring_log (ed_view d) r es" and max: "length es \<le> unat MAX_INDEX"
    and wf: "ring_wf (ed_view d) r"
    and same: "\<And>i. slotIndex (ed_view d) i \<noteq> slotIndex (ed_view d) (of_nat (length es)) \<Longrightarrow>
       slot_of (ed_view d) (ed_ring d) i = slot_of (ed_view d) r i"
    using assms(1) by (auto simp: flow_log_upto_def flow_log_def ring_log_def)
  have h: "Suc (unat (head_of (length es))) = length es"
    using assms(2) max by (simp add: unat_head_of)
  then have "slotIndex (ed_view d) (head_of (length es)) \<noteq> slotIndex (ed_view d) (of_nat (length es))"
    using mod_neq_of_close [of "unat (head_of (length es))" "length es" "unat (rv_count (ed_view d))"]
      ring_wf_count [OF wf] max
    by (simp add: slotIndex_nat unat_index)
  then have "ring_read (ed_view d) (ed_ring d) (head_of (length es)) = ring_read (ed_view d) r (head_of (length es))"
    by (simp add: ring_read_def same)
  then show ?thesis
    using ring.peek_last [OF log h] by simp
qed


section \<open>Committing\<close>

definition commit_valid :: "PosixEventFlowWriter \<Rightarrow> EventFlowData \<Rightarrow> mxlEventInfo \<Rightarrow> bool" where
  "commit_valid w d info \<longleftrightarrow>
     ew_open w \<and> ei_version info = EVENT_HEADER_VERSION \<and> unat (ei_size info) = SIZEOF_EVENT_INFO \<and>
     ei_flags info = 0 \<and> ew_lastTimestamp w \<le> ei_timestamp info \<and>
     ei_eventSize info \<le> ec_eventPayloadSize (ed_config d)"

lemma entries_ok_snoc:
  assumes "entries_ok v es" "entry_ok v info payload" "last_timestamp es \<le> ei_timestamp info"
  shows "entries_ok v (es @ [(info, payload)])"
proof -
  have "ei_timestamp (fst e) \<le> ei_timestamp info" if "e \<in> set es" for e
  proof -
    have "es \<noteq> []" using that by auto
    then obtain es' x where es: "es = es' @ [x]"
      by (metis append_butlast_last_id)
    then show ?thesis
      using assms that by (auto simp: entries_ok_def last_timestamp_def sorted_append)
  qed
  then show ?thesis
    using assms by (auto simp: entries_ok_def sorted_append)
qed

lemma publish_upto:
  assumes "flow_log_upto d es" "entry_ok (ed_view d) info payload"
  shows "\<exists>ring. publish (ed_view d) (of_nat (length es)) info payload (ed_ring d) = (MXL_STATUS_OK, ring) \<and>
    ring_log (ed_view d) ring (es @ [(info, payload)])"
  using assms unfolding flow_log_upto_def flow_log_def
  by (auto intro!: publish_extends_log simp: flow_log_def)

text \<open>
  C3: A commit refines appending to the log of the flow, even when an earlier writer was stopped in the
  middle of a publication: for valid metadata it succeeds, the flow then holds the extended log with the
  head at the new event, timestamps still never decrease, the staging buffer is closed and the
  synchronisation counter has moved by one.
\<close>

theorem commit_extends_log:
  assumes ready: "writer_ready w d es" and valid: "commit_valid w d info"
    and wf: "event_info_wf info" and len: "unat (ei_eventSize info) \<le> length payload"
  shows "\<exists>w' d'. commit_event now info payload w d = (MXL_STATUS_OK, w', d') \<and>
    flow_log d' (es @ [(info, payload)]) \<and> ew_lastTimestamp w' = last_timestamp (es @ [(info, payload)]) \<and>
    \<not> ew_open w' \<and> fs_syncCounter (ed_state d') = fs_syncCounter (ed_state d) + 1"
proof -
  have upto: "flow_log_upto d es" and ts: "ew_lastTimestamp w = last_timestamp es"
    using ready by (simp_all add: writer_ready_def)
  have geo: "flow_geometry d" and es: "entries_ok (ed_view d) es" and head: "headIndex (ed_runtime d) = head_of (length es)"
    and max: "length es \<le> unat MAX_INDEX"
    using upto by (auto simp: flow_log_upto_def flow_log_def flow_geometry_def)
  have ok: "entry_ok (ed_view d) info payload"
    using valid wf len geo by (simp add: entry_ok_def commit_valid_def flow_geometry_def)
  obtain ring where p: "publish (ed_view d) (of_nat (length es)) info payload (ed_ring d) = (MXL_STATUS_OK, ring)"
    and log: "ring_log (ed_view d) ring (es @ [(info, payload)])"
    using publish_upto [OF upto ok] by blast
  have nxt: "next_index (headIndex (ed_runtime d)) = of_nat (length es)"
    using max by (simp add: head next_index_head_of)
  have "entries_ok (ed_view d) (es @ [(info, payload)])"
    using entries_ok_snoc [OF es ok] valid ts by (simp add: commit_valid_def)
  then show ?thesis
    using valid log geo p
    by (auto simp: commit_event_def nxt commit_valid_def notify_def advance_head_def flow_log_def
        flow_geometry_def head_of_def last_timestamp_def)
qed


section \<open>Recovery of a crashed writer\<close>

lemma upto_head_timestamp:
  assumes "flow_log_upto d es" "es \<noteq> []"
  shows "ei_timestamp (fst (log_entry es (head_of (length es)))) = last_timestamp es"
proof -
  have "unat (head_of (length es)) = length es - 1"
    using assms unat_head_of [of "length es"] by (auto simp: flow_log_upto_def)
  then show ?thesis
    using assms(2) by (simp add: log_entry_timestamp last_timestamp_def last_conv_nth)
qed

lemma notify_upto [simp]: "flow_log_upto (notify d) es = flow_log_upto d es"
  by (simp add: flow_log_upto_def notify_def flow_log_def flow_geometry_def)

lemma notify_flow_log [simp]: "flow_log (notify d) es = flow_log d es"
  by (simp add: notify_def flow_log_def flow_geometry_def)

text \<open>
  Opening a writer on a flow whose last writer stopped between two commits or in the middle of a
  publication succeeds: it keeps the head, takes the timestamp of the last committed event and is ready
  to commit the next one.
\<close>

theorem recovery_unfinished:
  assumes "flow_log_upto d es"
  shows "\<exists>w d'. PosixEventFlowWriter_ctor now d = Ret (w, d') \<and> writer_ready w d' es \<and> \<not> ew_open w \<and>
    ed_runtime d' = ed_runtime d"
proof -
  have max: "length es \<le> unat MAX_INDEX + 1" and head: "headIndex (ed_runtime d) = head_of (length es)"
    and pend: "ring_read (ed_view d) (ed_ring d) (of_nat (length es)) = Pending"
    using assms by (auto simp: flow_log_upto_def flow_log_def)
  note facts = head next_index_head_of [OF max] head_of_UNDEFINED [OF max] pend
  show ?thesis
  proof (cases "es = []")
    case True
    then show ?thesis
      using assms facts
      by (simp add: PosixEventFlowWriter_ctor_def writer_ready_def last_timestamp_def head_of_def next_index_def)
  next
    case False
    then show ?thesis
      using assms facts upto_read_head [OF assms False] upto_head_timestamp [OF assms False]
      by (simp add: PosixEventFlowWriter_ctor_def Let_def writer_ready_def) (simp add: notify_def)
  qed
qed

text \<open>
  C11: Opening a writer on a flow whose last writer stopped after it completed the next slot and before it
  moved the head adopts that event: the head moves to it, its timestamp becomes the last one and the
  readers are notified, so that no published event is lost or published twice.
\<close>

theorem recovery_published:
  assumes log: "flow_log d0 (es @ [e])"
    and d: "d = d0\<lparr>ed_runtime := (ed_runtime d0)\<lparr>headIndex := head_of (length es)\<rparr>\<rparr>"
  shows "\<exists>w d'. PosixEventFlowWriter_ctor now d = Ret (w, d') \<and> flow_log d' (es @ [e]) \<and>
    ew_lastTimestamp w = last_timestamp (es @ [e]) \<and>
    fs_syncCounter (ed_state d') = fs_syncCounter (ed_state d) + 1"
proof -
  have rlog: "ring_log (ed_view d) (ed_ring d) (es @ [e])" and ok: "entries_ok (ed_view d) (es @ [e])"
    using log by (simp_all add: d flow_log_def)
  have max: "length es \<le> unat MAX_INDEX"
    using rlog by (simp add: ring_log_def)
  then have n: "unat (of_nat (length es) :: u64) = length es" "length es \<le> unat MAX_INDEX + 1"
    by (simp_all add: unat_index)
  have next_read: "ring_read (ed_view d) (ed_ring d) (of_nat (length es)) =
      Ready (fst (log_entry (es @ [e]) (of_nat (length es)))) (snd (log_entry (es @ [e]) (of_nat (length es))))"
    by (rule ring.peek_last [OF rlog]) (simp add: n)
  have ts: "ei_timestamp (fst (log_entry (es @ [e]) (of_nat (length es)))) = ei_timestamp (fst e)"
    by (simp add: log_entry_timestamp n)
  have head_ts: "ring_read (ed_view d) (ed_ring d) (head_of (length es)) =
      Ready (fst (log_entry (es @ [e]) (head_of (length es)))) (snd (log_entry (es @ [e]) (head_of (length es)))) \<and>
      ei_timestamp (fst (log_entry (es @ [e]) (head_of (length es)))) \<le> ei_timestamp (fst e)" if "es \<noteq> []"
  proof -
    have h: "unat (head_of (length es)) = length es - 1"
      using that unat_head_of [of "length es"] n(2) by simp
    have "ring_read (ed_view d) (ed_ring d) (head_of (length es)) =
      Ready (fst (log_entry (es @ [e]) (head_of (length es)))) (snd (log_entry (es @ [e]) (head_of (length es))))"
      using ring.peek_ready_iff [OF rlog] ring.cap_two [OF rlog] that
      by (subst ring.peek_log [OF rlog]) (auto simp: h)
    moreover have "(es @ [e]) ! (length es - 1) \<in> set es"
      using that by (simp add: nth_append)
    ultimately show ?thesis
      using ok by (auto simp: log_entry_timestamp h entries_ok_def sorted_append)
  qed
  have "flow_log (advance_head now (of_nat (length es)) d) (es @ [e])"
    using log by (simp add: d advance_head_def flow_log_def flow_geometry_def head_of_def)
  moreover have "(of_nat (length es) :: u64) \<noteq> MXL_UNDEFINED_INDEX"
    using head_of_UNDEFINED [of "Suc (length es)"] max by (simp add: head_of_def)
  moreover have "headIndex (ed_runtime d) = head_of (length es)"
    by (simp add: d)
  ultimately show ?thesis
    using next_read ts head_ts head_of_UNDEFINED [OF n(2)] next_index_head_of [OF n(2)]
    by (cases "es = []")
      (auto simp: PosixEventFlowWriter_ctor_def Let_def last_timestamp_def not_less,
       auto simp: notify_def advance_head_def)
qed

section \<open>Reading\<close>

text \<open>
  What a reader may find in the flow while a writer is at work on the log: an event it can read is the
  event of the log, an event it misses has not been published, an event that is gone has been replaced,
  and the head never runs ahead of the log.
\<close>

fun read_agrees :: "(mxlEventInfo \<times> u8 list) list \<Rightarrow> nat \<Rightarrow> u64 \<Rightarrow> readResult \<Rightarrow> bool" where
  "read_agrees es count i (Ready info payload) = (unat i < length es \<and> (info, payload) = log_entry es i)"
| "read_agrees es count i Pending = (length es \<le> unat i)"
| "read_agrees es count i Overwritten = (unat i + count \<le> length es)"
| "read_agrees es count i Invalid = False"

definition flow_seen :: "EventFlowData \<Rightarrow> (mxlEventInfo \<times> u8 list) list \<Rightarrow> bool" where
  "flow_seen d es \<longleftrightarrow>
     2 \<le> unat (ec_eventCount (ed_config d)) \<and> length es \<le> unat MAX_INDEX + 1 \<and>
     (headIndex (ed_runtime d) \<noteq> MXL_UNDEFINED_INDEX \<longrightarrow> unat (headIndex (ed_runtime d)) < length es) \<and>
     (\<forall>i. read_agrees es (unat (ec_eventCount (ed_config d))) i (ring_read (ed_view d) (ed_ring d) i))"

text \<open>Both a flow between commits and one with a half-written slot are such flows.\<close>

lemma flow_log_seen:
  assumes "flow_log d es"
  shows "flow_seen d es"
proof -
  have log: "ring_log (ed_view d) (ed_ring d) es" and geo: "flow_geometry d"
    and head: "headIndex (ed_runtime d) = head_of (length es)" and max: "length es \<le> unat MAX_INDEX + 1"
    using assms by (simp_all add: flow_log_def ring_log_def)
  have "unat (head_of (length es)) < length es" if "head_of (length es) \<noteq> MXL_UNDEFINED_INDEX"
    using that unat_head_of [of "length es"] max head_of_UNDEFINED [OF max] by (cases "length es") simp_all
  then show ?thesis
    using ring.cap_two [OF log] geo max head
    by (auto simp: flow_seen_def flow_geometry_def ring.peek_log [OF log])
qed

lemma flow_torn_seen:
  assumes log: "flow_log d es" and max: "length es \<le> unat MAX_INDEX"
    and s: "slot_wf (ed_view d) (slotIndex (ed_view d) (of_nat (length es))) s"
      "es_sequence s = writing_tag (of_nat (length es))"
  shows "flow_seen (d\<lparr>ed_ring := set_slot (ed_view d) (of_nat (length es)) s (ed_ring d)\<rparr>) es"
proof -
  let ?n = "of_nat (length es) :: u64" and ?v = "ed_view d" and ?r = "ed_ring d"
  have seen: "flow_seen d es"
    by (rule flow_log_seen [OF log])
  have wf: "ring_wf ?v ?r" and cnt: "ec_eventCount (ed_config d) = rv_count ?v"
    using log by (simp_all add: flow_log_def ring_log_def flow_geometry_def)
  have n: "unat ?n = length es" "?n \<le> MAX_INDEX"
    using max by (simp_all add: word_le_nat_alt unat_index)
  have "read_agrees es (unat (ec_eventCount (ed_config d))) i (ring_read ?v (set_slot ?v ?n s ?r) i)" for i
  proof (cases "slotIndex ?v ?n = slotIndex ?v i")
    case False
    then have "ring_read ?v (set_slot ?v ?n s ?r) i = ring_read ?v ?r i"
      by (simp add: ring_read_def slot_of_set_slot [OF wf])
    then show ?thesis
      using seen by (simp add: flow_seen_def)
  next
    case True
    then have "ring_read ?v (set_slot ?v ?n s ?r) i = (if i < ?n then Overwritten else Pending)"
      using s(2) n(2) writing_neq_complete [of ?n i] tag_facts' [OF n(2)]
      by (auto simp: ring_read_def slot_of_set_slot [OF wf] read_snapshot_def not_less)
    moreover have "unat i + unat (rv_count ?v) \<le> length es" if "i < ?n"
    proof (rule ccontr)
      assume "\<not> unat i + unat (rv_count ?v) \<le> length es"
      then show False
        using mod_neq_of_close [of "unat i" "length es" "unat (rv_count ?v)"] that True
        by (simp add: slotIndex_nat n word_less_nat_alt)
    qed
    ultimately show ?thesis
      by (auto simp: cnt word_less_nat_alt n not_less)
  qed
  then show ?thesis
    using seen by (simp add: flow_seen_def)
qed

lemma flow_published_seen:
  assumes "flow_log d (es @ [e])"
  shows "flow_seen (d\<lparr>ed_runtime := (ed_runtime d)\<lparr>headIndex := head_of (length es)\<rparr>\<rparr>) (es @ [e])"
proof -
  have seen: "flow_seen d (es @ [e])"
    by (rule flow_log_seen [OF assms])
  then have "length es \<le> unat MAX_INDEX + 1"
    by (simp add: flow_seen_def)
  then show ?thesis
    using seen unat_head_of [of "length es"] by (cases "es = []") (auto simp: flow_seen_def head_of_def)
qed

lemma oldest_le_log:
  assumes "flow_seen d es"
  shows "oldestIndex d = 0 \<or> unat (oldestIndex d) + unat (ec_eventCount (ed_config d)) \<le> length es"
proof (cases "headIndex (ed_runtime d) \<noteq> MXL_UNDEFINED_INDEX \<and> headIndex (ed_runtime d) \<ge> eventCount d")
  case True
  then have "unat (headIndex (ed_runtime d)) < length es" "unat (eventCount d) \<le> unat (headIndex (ed_runtime d))"
    "unat (eventCount d) = unat (ec_eventCount (ed_config d))" "2 \<le> unat (ec_eventCount (ed_config d))"
    using assms by (simp_all add: flow_seen_def word_le_nat_alt eventCount_def)
  moreover from this have c: "unat (eventCount d - 1) = unat (eventCount d) - 1"
    by (subst unat_minus_le) (simp_all add: word_le_nat_alt)
  moreover from calculation have "unat (headIndex (ed_runtime d) - (eventCount d - 1))
      = unat (headIndex (ed_runtime d)) - (unat (eventCount d) - 1)"
    by (subst unat_minus_le) (simp_all add: word_le_nat_alt)
  ultimately show ?thesis
    using True by (simp add: oldestIndex_def Let_def)
qed (auto simp: oldestIndex_def Let_def)

definition extends :: "'a list \<Rightarrow> 'a list \<Rightarrow> bool" where
  "extends es es1 \<longleftrightarrow> (\<exists>rest. es = es1 @ rest)"

lemma extends_facts:
  assumes "extends es es1"
  shows "length es1 \<le> length es" "unat i < length es1 \<Longrightarrow> log_entry es1 i = log_entry es i"
  using assms by (auto simp: extends_def log_entry_def nth_append)

definition obs_of_log :: "(mxlEventInfo \<times> u8 list) list \<Rightarrow> u32 \<Rightarrow> event_obs \<Rightarrow> bool" where
  "obs_of_log es count ob \<longleftrightarrow>
     (\<forall>d \<in> {eo_first ob, eo_read ob, eo_again ob}.
        ec_eventCount (ed_config d) = count \<and> (\<exists>es1. extends es es1 \<and> flow_seen d es1))"

text \<open>
  C6: While the log of a flow grows, a call of \<^verbatim>\<open>getEvent\<close> follows it: an event it returns is the event
  of the log at the reader's position, which then moves on by one; when it reports that it came too late,
  the event at its position has really been replaced and the position moves forward, never beyond the
  log; and in every other case the position stays.
\<close>

theorem getEvent_follows_log:
  assumes "getEvent deadline obs n = Some (st, ev, n')"
    and "\<forall>ob \<in> set obs. obs_of_log es count ob"
  shows "(if st = MXL_STATUS_OK then ev = Some (log_entry es n) \<and> unat n < length es \<and> unat n' = unat n + 1
     else ev = None \<and>
       (if st = MXL_ERR_OUT_OF_RANGE_TOO_LATE
        then unat n < unat n' \<and> unat n' \<le> length es \<and> unat n + unat count \<le> length es
        else n' = n))"
  using assms
proof (induction deadline obs n rule: getEvent.induct)
  case (2 deadline ob obs n)
  obtain es1 where es1: "extends es es1" "flow_seen (eo_first ob) es1"
    using "2.prems"(2) by (auto simp: obs_of_log_def)
  obtain es2 where es2: "extends es es2" "flow_seen (eo_read ob) es2"
    using "2.prems"(2) by (auto simp: obs_of_log_def)
  obtain es3 where es3: "extends es es3" "flow_seen (eo_again ob) es3"
    using "2.prems"(2) by (auto simp: obs_of_log_def)
  have cnt: "ec_eventCount (ed_config d) = count" if "d \<in> {eo_first ob, eo_read ob, eo_again ob}" for d
    using that "2.prems"(2) by (auto simp: obs_of_log_def)
  have seen2: "2 \<le> unat (ec_eventCount (ed_config (eo_read ob)))" "length es2 \<le> unat MAX_INDEX + 1"
    using es2(2) unfolding flow_seen_def by blast+
  have cread: "ec_eventCount (ed_config (eo_read ob)) = count"
    by (rule cnt) simp
  then have two: "2 \<le> unat count"
    using seen2(1) by simp
  have small: "length es2 < 2 ^ 63"
    using seen2(2) unfolding MAX_INDEX_nat by simp
  have old: "oldestIndex d = 0 \<or> unat (oldestIndex d) + unat count \<le> length es"
    if d: "d \<in> {eo_first ob, eo_again ob}" for d
  proof -
    obtain es' where e: "extends es es'" "flow_seen d es'"
      using d es1 es3 by blast
    have "ec_eventCount (ed_config d) = count"
      using cnt d by blast
    then show ?thesis
      using oldest_le_log [OF e(2)] extends_facts(1) [OF e(1)] le_trans by metis
  qed
  show ?case
  proof (cases "n < oldestIndex (eo_first ob)")
    case True
    then show ?thesis
      using "2.prems"(1) old [of "eo_first ob"] two by (auto simp: word_less_nat_alt)
  next
    case first: False
    have read: "read_agrees es2 (unat count) n (ring_read (ed_view (eo_read ob)) (ed_ring (eo_read ob)) n)"
      using es2(2) unfolding flow_seen_def cread by blast
    show ?thesis
    proof (cases "ring_read (ed_view (eo_read ob)) (ed_ring (eo_read ob)) n")
      case (Ready info payload)
      then have "unat (n + 1) = unat n + 1"
        using read small by (subst unat_plus_fits) auto
      then show ?thesis
        using "2.prems"(1) first Ready read extends_facts [OF es2(1)] by auto
    next
      case Pending
      then show ?thesis
        using "2.prems" first "2.IH" [OF refl first Pending] by (auto split: if_splits)
    next
      case Overwritten
      then have le: "unat n + unat count \<le> length es2"
        using read by simp
      then have "unat (n + 1) = unat n + 1"
        using small two by (subst unat_plus_fits) auto
      moreover have "unat n + unat count \<le> length es"
        using le extends_facts(1) [OF es2(1)] by linarith
      ultimately show ?thesis
        using "2.prems"(1) first Overwritten old [of "eo_again ob"] two by (auto simp: max_def word_less_nat_alt word_le_nat_alt)
    next
      case Invalid
      then show ?thesis
        using read by simp
    qed
  qed
qed simp

text \<open>
  C26: A call of \<^verbatim>\<open>getEvent\<close> returns: it has a result as soon as one of its rounds finds the deadline
  reached or its wait over, whatever else the rounds see.
\<close>

theorem getEvent_returns:
  "\<exists>ob \<in> set obs. eo_now ob \<ge> deadline \<or> \<not> eo_wait ob \<Longrightarrow> \<exists>result. getEvent deadline obs n = Some result"
  by (induction deadline obs n rule: getEvent.induct) (auto simp: Let_def split: readResult.splits)

section \<open>A reader over many calls\<close>

fun read_calls :: "(timepoint \<times> event_obs list) list \<Rightarrow> u64 \<Rightarrow> (mxlEventInfo \<times> u8 list) list \<times> u64" where
  "read_calls [] n = ([], n)"
| "read_calls ((deadline, obs) # calls) n =
     (case getEvent deadline obs n of
        None \<Rightarrow> ([], n)
      | Some (st, ev, n') \<Rightarrow>
          (case read_calls calls n' of (evs, m) \<Rightarrow> (case ev of None \<Rightarrow> evs | Some e \<Rightarrow> e # evs, m)))"

text \<open>
  C5: Over any number of calls, while the log grows, a reader receives events of the log in the order of
  their indices and each at most once.
\<close>

theorem reader_receives_in_order:
  assumes "\<forall>(deadline, obs) \<in> set calls. \<forall>ob \<in> set obs. obs_of_log es count ob"
  shows "\<exists>is. fst (read_calls calls n) = map (log_entry es) is \<and> sorted_wrt (<) is \<and>
    (\<forall>i \<in> set is. n \<le> i \<and> unat i < length es)"
  using assms
proof (induction calls n rule: read_calls.induct)
  case (2 deadline obs calls n)
  show ?case
  proof (cases "getEvent deadline obs n")
    case None
    then show ?thesis by simp
  next
    case (Some result)
    obtain st ev n' where r: "getEvent deadline obs n = Some (st, ev, n')"
      using Some by (cases result) auto
    have f: "if st = MXL_STATUS_OK then ev = Some (log_entry es n) \<and> unat n < length es \<and> unat n' = unat n + 1
       else ev = None \<and> n \<le> n'"
      using getEvent_follows_log [OF r, of es count] "2.prems" by (auto simp: word_le_nat_alt split: if_splits)
    obtain is' where is': "fst (read_calls calls n') = map (log_entry es) is'" "sorted_wrt (<) is'"
      "\<forall>i \<in> set is'. n' \<le> i \<and> unat i < length es"
      using "2.IH" [OF r refl refl] "2.prems" by auto
    show ?thesis
    proof (cases "st = MXL_STATUS_OK")
      case True
      then have "n < n'" using f by (simp add: word_less_nat_alt)
      then show ?thesis
        using r f True is' by (intro exI [of _ "n # is'"]) (auto split: prod.splits)
    next
      case False
      then show ?thesis
        using r f is' by (intro exI [of _ is']) (auto split: prod.splits)
    qed
  qed
qed simp

section \<open>Examples\<close>

definition sample_flow :: "event_ring \<Rightarrow> u64 \<Rightarrow> EventFlowData" where
  "sample_flow r head =
     \<lparr>ed_config = \<lparr>ec_eventCount = 2, ec_eventPayloadSize = 8\<rparr>,
      ed_runtime = \<lparr>headIndex = head, lastWriteTime = 0, lastReadTime = 0\<rparr>,
      ed_state = \<lparr>fs_inode = 9, fs_syncCounter = 0\<rparr>, ed_ring = r, ed_view = sample_view\<rparr>"

definition sample_round :: "event_ring \<Rightarrow> int \<Rightarrow> bool \<Rightarrow> event_obs" where
  "sample_round r now wait =
     \<lparr>eo_first = sample_flow r 0, eo_read = sample_flow r 0, eo_again = sample_flow r 0, eo_stat = Some 9,
      eo_now = Timepoint now, eo_wait = wait\<rparr>"

lemma sample_flow_log:
  "ring_log sample_view r [] \<Longrightarrow> flow_log (sample_flow r MXL_UNDEFINED_INDEX) []"
  "ring_log sample_view r [(sample_info, [1, 2, 3])] \<Longrightarrow> flow_log (sample_flow r 0) [(sample_info, [1, 2, 3])]"
  using sample_entry_ok
  by (simp_all add: flow_log_def sample_flow_def flow_geometry_def entries_ok_def head_of_def sample_view_def)

lemma sample_flows:
  "\<exists>r r'. ring_log sample_view r [] \<and> ring_log sample_view r' [(sample_info, [1, 2, 3])]"
proof -
  obtain r where r: "ring_log sample_view r []"
    using sample_log by blast
  show ?thesis
    using ring.push_log [OF r sample_entry_ok] r by auto
qed

lemma sample_obs:
  assumes "ring_log sample_view r [(sample_info, [1, 2, 3])]"
  shows "obs_of_log [(sample_info, [1, 2, 3])] 2 (sample_round r 0 False)"
proof -
  have "flow_seen (sample_flow r 0) [(sample_info, [1, 2, 3])]"
    by (rule flow_log_seen [OF sample_flow_log(2) [OF assms]])
  moreover have "extends es es" for es :: "'a list"
    by (simp add: extends_def)
  moreover have "ec_eventCount (ed_config (sample_flow r 0)) = 2"
    by (simp add: sample_flow_def)
  ultimately show ?thesis
    unfolding obs_of_log_def sample_round_def by auto
qed

lemma sample_getEvent:
  assumes "ring_log sample_view r [(sample_info, [1, 2, 3])]"
  shows "getEvent (Timepoint 5)
      [sample_round r 0 False] 0
    = Some (MXL_STATUS_OK, Some (log_entry [(sample_info, [1, 2, 3])] 0), 1)"
  using ring.peek_log [OF assms, of 0] ring.cap_two [OF assms]
  by (simp add: oldestIndex_def sample_round_def sample_flow_def eventCount_def Let_def)

theorem commit_extends_log_witness:
  "\<exists>r w' d'. commit_event 77 sample_info [1, 2, 3] \<lparr>ew_open = True, ew_lastTimestamp = 0\<rparr>
      (sample_flow r MXL_UNDEFINED_INDEX) = (MXL_STATUS_OK, w', d') \<and> flow_log d' [(sample_info, [1, 2, 3])]"
proof -
  obtain r where "ring_log sample_view r []"
    using sample_flows by blast
  then have "writer_ready \<lparr>ew_open = True, ew_lastTimestamp = 0\<rparr> (sample_flow r MXL_UNDEFINED_INDEX) []"
    using flow_log_upto_clean [OF sample_flow_log(1)] by (simp add: writer_ready_def last_timestamp_def)
  moreover have "commit_valid \<lparr>ew_open = True, ew_lastTimestamp = 0\<rparr> (sample_flow r MXL_UNDEFINED_INDEX) sample_info"
    by (simp add: commit_valid_def sample_flow_def sample_info_def EVENT_HEADER_VERSION_def SIZEOF_EVENT_INFO_def)
  moreover have "event_info_wf sample_info" "unat (ei_eventSize sample_info) \<le> length [1 :: u8, 2, 3]"
    by (simp_all add: event_info_wf_def sample_info_def)
  ultimately show ?thesis
    using commit_extends_log [of _ _ "[]"] by fastforce
qed


theorem recovery_unfinished_witness:
  "\<exists>r w d'. PosixEventFlowWriter_ctor 77 (sample_flow r MXL_UNDEFINED_INDEX) = Ret (w, d') \<and> writer_ready w d' []"
proof -
  obtain r where "ring_log sample_view r []"
    using sample_flows by blast
  then have "flow_log_upto (sample_flow r MXL_UNDEFINED_INDEX) []"
    using flow_log_upto_clean [OF sample_flow_log(1)] by simp
  from recovery_unfinished [OF this] show ?thesis
    by blast
qed

theorem recovery_published_witness:
  "\<exists>r w d'. PosixEventFlowWriter_ctor 77 (sample_flow r MXL_UNDEFINED_INDEX) = Ret (w, d') \<and>
     flow_log d' [(sample_info, [1, 2, 3])]"
proof -
  obtain r where "ring_log sample_view r [(sample_info, [1, 2, 3])]"
    using sample_flows by blast
  then have log: "flow_log (sample_flow r 0) ([] @ [(sample_info, [1, 2, 3])])"
    using sample_flow_log(2) by simp
  have "sample_flow r MXL_UNDEFINED_INDEX =
      (sample_flow r 0)\<lparr>ed_runtime := (ed_runtime (sample_flow r 0))\<lparr>headIndex := head_of (length [])\<rparr>\<rparr>"
    by (simp add: sample_flow_def head_of_def)
  from recovery_published [OF log this] show ?thesis
    by (metis append_Nil)
qed

theorem getEvent_follows_log_witness:
  "\<exists>r. getEvent (Timepoint 5)
      [sample_round r 0 False] 0
    = Some (MXL_STATUS_OK, Some (log_entry [(sample_info, [1, 2, 3])] 0), 1) \<and> unat (1 :: u64) = unat (0 :: u64) + 1"
proof -
  obtain r where r: "ring_log sample_view r [(sample_info, [1, 2, 3])]"
    using sample_flows by blast
  have "\<forall>ob \<in> set [sample_round r 0 False]. obs_of_log [(sample_info, [1, 2, 3])] 2 ob"
    using sample_obs [OF r] by simp
  from getEvent_follows_log [OF sample_getEvent [OF r] this] have "unat (1 :: u64) = unat (0 :: u64) + 1"
    by simp
  then show ?thesis
    using sample_getEvent [OF r] by blast
qed

theorem getEvent_returns_witness:
  "\<forall>r. \<exists>result. getEvent (Timepoint 5) [sample_round r 7 True] 0 = Some result"
  by (intro allI getEvent_returns) (simp add: time_order sample_round_def)

theorem reader_receives_in_order_witness:
  "\<exists>r is. fst (read_calls [(Timepoint 5,
      [sample_round r 0 False])] 0) = map (log_entry [(sample_info, [1, 2, 3])]) is \<and> is = [0]"
proof -
  obtain r where r: "ring_log sample_view r [(sample_info, [1, 2, 3])]"
    using sample_flows by blast
  let ?calls = "[(Timepoint 5, [sample_round r 0 False])]" and ?es = "[(sample_info, [1 :: u8, 2, 3])]"
  have "\<forall>(deadline, obs) \<in> set ?calls. \<forall>ob \<in> set obs. obs_of_log ?es 2 ob"
    using sample_obs [OF r] by simp
  from reader_receives_in_order [OF this, of 0] obtain ids
    where i: "fst (read_calls ?calls 0) = map (log_entry ?es) ids"
    "\<forall>i \<in> set ids. 0 \<le> i \<and> unat i < length ?es"
    by blast
  have "fst (read_calls ?calls 0) = [log_entry ?es 0]"
    by (simp only: read_calls.simps sample_getEvent [OF r]) simp
  then obtain x where x: "ids = [x]"
    using i(1) by auto
  then have "unat x = 0"
    using i(2) by simp
  then have "ids = [0]"
    using x word_eq_unat [of x 0] by simp
  then show ?thesis
    using i(1) by blast
qed

end
