(* ===== verification/ContinuousFlow.thy ===== *)
theory ContinuousFlow
  imports EventFlow
begin

text \<open>
  Continuous flows (audio samples): the channel buffers (\<^verbatim>\<open>ContinuousFlowData.hpp\<close>), the writer that opens
  a range of samples, zeroes the samples it skips and signals completed batches
  (\<^verbatim>\<open>PosixContinuousFlowWriter.cpp\<close>), and the reader (\<^verbatim>\<open>PosixContinuousFlowReader.cpp\<close>). The channel
  buffers are one list of bytes; a pointer into them is a byte offset.
\<close>

section \<open>Channel buffers\<close>

record ContinuousFlowData =
  cd_common :: mxlCommonFlowConfigInfo
  cd_config :: mxlContinuousFlowConfigInfo
  cd_runtime :: mxlFlowRuntimeInfo
  cd_state :: FlowState
  cd_sampleWordSize :: u64
  cd_channels :: "u8 list"

definition channelCount :: "ContinuousFlowData \<Rightarrow> u64" where
  "channelCount d = ucast (cf_channelCount (cd_config d))"

definition channelBufferLength :: "ContinuousFlowData \<Rightarrow> u64" where
  "channelBufferLength d = ucast (cf_bufferLength (cd_config d))"

text \<open>
  \<open>mapping n\<close> is the content of the channel file mapped for \<open>n\<close> bytes: of that size when created, of
  whatever size it has when it exists. The number of samples is computed in 32 bits.
\<close>

definition openChannelBuffers ::
  "bool \<Rightarrow> (u64 \<Rightarrow> u8 list res) \<Rightarrow> u64 \<Rightarrow> ContinuousFlowData \<Rightarrow> ContinuousFlowData res" where
  "openChannelBuffers created mapping sampleWordSize d =
     (if sampleWordSize \<noteq> 0 \<or> \<not> created then
        let buffersLength = cf_channelCount (cd_config d) * cf_bufferLength (cd_config d)
        in if buffersLength > 0 then
             bind_res (mapping (ucast buffersLength * sampleWordSize)) (\<lambda>buffers.
             let mappedSize = of_nat (length buffers) :: u64
             in Ret (d\<lparr>cd_channels := buffers,
                       cd_sampleWordSize :=
                         (if sampleWordSize \<noteq> 0 then sampleWordSize
                          else if mappedSize \<ge> ucast buffersLength then mappedSize div ucast buffersLength else 1)\<rparr>))
           else Throw RuntimeError
      else Throw RuntimeError)"

section \<open>Wrapped slices\<close>

text \<open>A fragment is a byte offset into the channel buffers and a size in bytes.\<close>

record mxlBufferSlice =
  bs_pointer :: u64
  bs_size :: u64

record mxlWrappedMultiBufferSlice =
  ws_first :: mxlBufferSlice
  ws_second :: mxlBufferSlice
  ws_stride :: u64
  ws_count :: u64

definition wrapped_slices :: "u64 \<Rightarrow> u64 \<Rightarrow> u64 \<Rightarrow> u64 \<Rightarrow> u64 \<Rightarrow> mxlWrappedMultiBufferSlice res" where
  "wrapped_slices sampleWordSize channels bufferLength index count =
     (if bufferLength = 0 then Undef
      else let startOffset = (index + bufferLength - count) mod bufferLength;
               endOffset = index mod bufferLength;
               firstLength = (if startOffset < endOffset then count else bufferLength - startOffset);
               secondLength = count - firstLength
           in Ret \<lparr>ws_first = \<lparr>bs_pointer = sampleWordSize * startOffset, bs_size = sampleWordSize * firstLength\<rparr>,
                   ws_second = \<lparr>bs_pointer = 0, bs_size = sampleWordSize * secondLength\<rparr>,
                   ws_stride = sampleWordSize * bufferLength,
                   ws_count = channels\<rparr>)"

section \<open>The reader\<close>

record PosixContinuousFlowReader =
  cr_channelCount :: u64
  cr_bufferLength :: u64

text \<open>\<open>permitted\<close> is the outcome of \<^verbatim>\<open>checkPermissions\<close>.\<close>

definition PosixContinuousFlowReader_ctor :: "bool \<Rightarrow> ContinuousFlowData \<Rightarrow> PosixContinuousFlowReader res" where
  "PosixContinuousFlowReader_ctor permitted d =
     (if \<not> permitted then Throw (FilesystemError EACCES)
      else Ret \<lparr>cr_channelCount = channelCount d, cr_bufferLength = channelBufferLength d\<rparr>)"

definition getMaxReadLength :: "PosixContinuousFlowReader \<Rightarrow> u64" where
  "getMaxReadLength r = cr_bufferLength r div 2"

definition getSamplesImpl ::
  "u64 \<Rightarrow> u64 \<Rightarrow> bool \<Rightarrow> PosixContinuousFlowReader \<Rightarrow> ContinuousFlowData
    \<Rightarrow> (mxlStatus \<times> mxlWrappedMultiBufferSlice option) res" where
  "getSamplesImpl index count want r d =
     (let head = headIndex (cd_runtime d)
      in if index \<le> head then
           let minIndex = (if head \<ge> cr_bufferLength r div 2 then head - cr_bufferLength r div 2 else 0)
           in if index \<ge> minIndex \<and> index - minIndex \<ge> count then
                (if want then
                   bind_res (wrapped_slices (cd_sampleWordSize d) (cr_channelCount r) (cr_bufferLength r) index count)
                     (\<lambda>slices. Ret (MXL_STATUS_OK, Some slices))
                 else Ret (MXL_STATUS_OK, None))
              else Ret (MXL_ERR_OUT_OF_RANGE_TOO_LATE, None)
         else Ret (MXL_ERR_OUT_OF_RANGE_TOO_EARLY, None))"

fun getSamplesImpl_until ::
  "u64 \<Rightarrow> u64 \<Rightarrow> bool \<Rightarrow> PosixContinuousFlowReader \<Rightarrow> (ContinuousFlowData \<times> bool) list
    \<Rightarrow> (mxlStatus \<times> mxlWrappedMultiBufferSlice option) res option" where
  "getSamplesImpl_until index count want r [] = None"
| "getSamplesImpl_until index count want r ((d, changed) # obs) =
     (case getSamplesImpl index count want r d of
        Ret (result, out) \<Rightarrow>
          (if result \<noteq> MXL_ERR_OUT_OF_RANGE_TOO_EARLY \<or> \<not> changed then Some (Ret (result, out))
           else getSamplesImpl_until index count want r obs)
      | Throw e \<Rightarrow> Some (Throw e)
      | Undef \<Rightarrow> Some Undef)"

definition stale_or :: "u64 option \<Rightarrow> FlowState \<Rightarrow> mxlStatus \<times> 'a \<Rightarrow> mxlStatus \<times> 'a" where
  "stale_or st state r =
     ((if fst r \<noteq> MXL_ERR_OUT_OF_RANGE_TOO_EARLY \<or> isFlowValidImpl st state then fst r else MXL_ERR_FLOW_INVALID), snd r)"

definition waitForSamples ::
  "u64 \<Rightarrow> PosixContinuousFlowReader \<Rightarrow> (ContinuousFlowData \<times> bool) list \<Rightarrow> u64 option \<Rightarrow> FlowState
    \<Rightarrow> mxlStatus res option" where
  "waitForSamples index r obs st state =
     map_option (map_ret (\<lambda>x. fst (stale_or st state x))) (getSamplesImpl_until index 0 False r obs)"

definition getSamples_until ::
  "u64 \<Rightarrow> u64 \<Rightarrow> PosixContinuousFlowReader \<Rightarrow> (ContinuousFlowData \<times> bool) list \<Rightarrow> u64 option \<Rightarrow> FlowState
    \<Rightarrow> (mxlStatus \<times> mxlWrappedMultiBufferSlice option) res option" where
  "getSamples_until index count r obs st state =
     map_option (map_ret (stale_or st state)) (getSamplesImpl_until index count True r obs)"

definition getSamples ::
  "u64 \<Rightarrow> u64 \<Rightarrow> PosixContinuousFlowReader \<Rightarrow> ContinuousFlowData \<Rightarrow> u64 option
    \<Rightarrow> (mxlStatus \<times> mxlWrappedMultiBufferSlice option) res" where
  "getSamples index count r d st = map_ret (stale_or st (cd_state d)) (getSamplesImpl index count True r d)"

section \<open>The writer\<close>

record PosixContinuousFlowWriter =
  cw_channelCount :: u64
  cw_bufferLength :: u64
  cw_currentIndex :: u64
  cw_currentCount :: u64
  cw_lastCommittedIndex :: u64
  cw_syncBatchSize :: u32
  cw_earlySyncThreshold :: u32
  cw_lastSyncSampleBatch :: u64

definition PosixContinuousFlowWriter_ctor :: "bool \<Rightarrow> ContinuousFlowData \<Rightarrow> PosixContinuousFlowWriter res" where
  "PosixContinuousFlowWriter_ctor permitted d =
     (if \<not> permitted then Throw (FilesystemError EACCES)
      else let commitBatchSize = max (cc_maxCommitBatchSizeHint (cd_common d)) 1;
               syncBatchSize = max (cc_maxSyncBatchSizeHint (cd_common d)) 1
           in Ret \<lparr>cw_channelCount = channelCount d, cw_bufferLength = channelBufferLength d,
                   cw_currentIndex = MXL_UNDEFINED_INDEX, cw_currentCount = 0,
                   cw_lastCommittedIndex = MXL_UNDEFINED_INDEX,
                   cw_syncBatchSize = syncBatchSize,
                   cw_earlySyncThreshold = (if syncBatchSize \<ge> commitBatchSize then syncBatchSize - commitBatchSize else 0),
                   cw_lastSyncSampleBatch = 0\<rparr>)"

definition getMaxWriteLength :: "PosixContinuousFlowWriter \<Rightarrow> u64" where
  "getMaxWriteLength w = cw_bufferLength w div 2"

definition openSamples ::
  "u64 \<Rightarrow> u64 \<Rightarrow> PosixContinuousFlowWriter \<Rightarrow> ContinuousFlowData
    \<Rightarrow> (mxlStatus \<times> mxlWrappedMultiBufferSlice option \<times> PosixContinuousFlowWriter) res" where
  "openSamples index count w d =
     (if count \<le> cw_bufferLength w div 2 then
        if index < count then Ret (MXL_ERR_INVALID_ARG, None, w)
        else let writeStartIndex = index - count
             in if cw_lastCommittedIndex w \<noteq> MXL_UNDEFINED_INDEX \<and>
                   (index \<le> cw_lastCommittedIndex w \<or> writeStartIndex < cw_lastCommittedIndex w)
                then Ret (MXL_ERR_INVALID_ARG, None, w)
                else bind_res (wrapped_slices (cd_sampleWordSize d) (cw_channelCount w) (cw_bufferLength w) index count)
                       (\<lambda>slices. Ret (MXL_STATUS_OK, Some slices, w\<lparr>cw_currentIndex := index, cw_currentCount := count\<rparr>))
      else Ret (MXL_ERR_INVALID_ARG, None, w))"

text \<open>\<^verbatim>\<open>memset\<close> with zero; writing outside the mapping is undefined.\<close>

definition memset_zero :: "nat \<Rightarrow> nat \<Rightarrow> u8 list \<Rightarrow> u8 list res" where
  "memset_zero position n mem =
     (if position + n \<le> length mem then Ret (take position mem @ replicate n 0 @ drop (position + n) mem) else Undef)"

primrec clear_channels :: "nat \<Rightarrow> u64 \<Rightarrow> u64 \<Rightarrow> u64 \<Rightarrow> u64 \<Rightarrow> u8 list \<Rightarrow> u8 list res" where
  "clear_channels 0 channelStride firstOffset firstBytes secondBytes mem = Ret mem"
| "clear_channels (Suc channel) channelStride firstOffset firstBytes secondBytes mem =
     bind_res (clear_channels channel channelStride firstOffset firstBytes secondBytes mem) (\<lambda>mem.
     let channelBase = of_nat channel * channelStride
     in bind_res (memset_zero (unat (channelBase + firstOffset)) (unat firstBytes) mem) (\<lambda>mem.
        memset_zero (unat channelBase) (unat secondBytes) mem))"

definition clear_skipped :: "PosixContinuousFlowWriter \<Rightarrow> ContinuousFlowData \<Rightarrow> ContinuousFlowData res" where
  "clear_skipped w d =
     (let writeStartIndex = cw_currentIndex w - cw_currentCount w;
          bufferLength = cw_bufferLength w
      in if cw_lastCommittedIndex w \<noteq> MXL_UNDEFINED_INDEX \<and> writeStartIndex > cw_lastCommittedIndex w then
           if bufferLength = 0 then Undef
           else
           let skippedCount = writeStartIndex - cw_lastCommittedIndex w;
               clearableLength = bufferLength - cw_currentCount w;
               clearedCount = min skippedCount clearableLength;
               gapEndIndex = writeStartIndex;
               clearStartOffset = (gapEndIndex + bufferLength - clearedCount) mod bufferLength;
               clearEndOffset = gapEndIndex mod bufferLength;
               firstClearLength = (if clearStartOffset < clearEndOffset then clearedCount else bufferLength - clearStartOffset);
               secondClearLength = clearedCount - firstClearLength;
               sampleWordSize = cd_sampleWordSize d
           in bind_res (clear_channels (unat (cw_channelCount w)) (sampleWordSize * bufferLength)
                  (sampleWordSize * clearStartOffset) (sampleWordSize * firstClearLength)
                  (sampleWordSize * secondClearLength) (cd_channels d))
                (\<lambda>mem. Ret (d\<lparr>cd_channels := mem\<rparr>))
         else Ret d)"

definition signalCompletedBatch :: "u64 \<Rightarrow> PosixContinuousFlowWriter \<Rightarrow> (bool \<times> PosixContinuousFlowWriter) res" where
  "signalCompletedBatch head w =
     (if cw_syncBatchSize w = 0 then Undef
      else let currentSyncSampleBatch = head div ucast (cw_syncBatchSize w)
           in if currentSyncSampleBatch < cw_lastSyncSampleBatch w then Ret (False, w)
              else if currentSyncSampleBatch = cw_lastSyncSampleBatch w then
                (if head mod ucast (cw_syncBatchSize w) > ucast (cw_earlySyncThreshold w)
                 then Ret (True, w\<lparr>cw_lastSyncSampleBatch := currentSyncSampleBatch + 1\<rparr>)
                 else Ret (False, w))
              else Ret (True, w\<lparr>cw_lastSyncSampleBatch := currentSyncSampleBatch\<rparr>))"

definition commit_samples ::
  "PosixContinuousFlowWriter \<Rightarrow> ContinuousFlowData
    \<Rightarrow> (mxlStatus \<times> PosixContinuousFlowWriter \<times> ContinuousFlowData) res" where
  "commit_samples w d =
     (if cw_currentIndex w = MXL_UNDEFINED_INDEX then Ret (MXL_ERR_INVALID_ARG, w, d)
      else bind_res (clear_skipped w d) (\<lambda>d.
           let d = d\<lparr>cd_runtime := (cd_runtime d)\<lparr>headIndex := cw_currentIndex w\<rparr>\<rparr>;
               w = w\<lparr>cw_lastCommittedIndex := cw_currentIndex w, cw_currentIndex := MXL_UNDEFINED_INDEX, cw_currentCount := 0\<rparr>
           in bind_res (signalCompletedBatch (headIndex (cd_runtime d)) w) (\<lambda>(signal, w).
              Ret (MXL_STATUS_OK, w,
                if signal then d\<lparr>cd_state := (cd_state d)\<lparr>fs_syncCounter := fs_syncCounter (cd_state d) + 1\<rparr>\<rparr> else d))))"

definition cancel_samples :: "PosixContinuousFlowWriter \<Rightarrow> mxlStatus \<times> PosixContinuousFlowWriter" where
  "cancel_samples w = (MXL_STATUS_OK, w\<lparr>cw_currentIndex := MXL_UNDEFINED_INDEX, cw_currentCount := 0\<rparr>)"

section \<open>Geometry of a range\<close>

text \<open>The length of the first fragment of a range, in samples, and where its samples lie in the ring.\<close>

definition first_length :: "nat \<Rightarrow> nat \<Rightarrow> nat \<Rightarrow> nat" where
  "first_length L start count = (if start mod L < (start + count) mod L then count else L - start mod L)"

lemma first_length_cover:
  assumes "0 < count" "count \<le> L"
  shows "first_length L start count \<le> count"
    and "k < first_length L start count \<Longrightarrow> (start + k) mod L = start mod L + k"
    and "first_length L start count \<le> k \<Longrightarrow> k < count \<Longrightarrow> (start + k) mod L = k - first_length L start count"
    and "start mod L + first_length L start count \<le> L"
proof -
  let ?s = "start mod L"
  have s: "?s < L" using assms by simp
  have wrap: "(start + k) mod L = (if ?s + k < L then ?s + k else ?s + k - L)" if "k \<le> L" for k
  proof -
    have "(start + k) mod L = (?s + k) mod L"
      by (simp add: mod_add_left_eq)
    also have "\<dots> = (if ?s + k < L then ?s + k else ?s + k - L)"
      using s that by (simp add: mod_if [of "?s + k"])
    finally show ?thesis .
  qed
  have f: "first_length L start count = (if ?s + count < L then count else L - ?s)"
    using s assms wrap [of count] by (auto simp: first_length_def)
  show "first_length L start count \<le> count" "?s + first_length L start count \<le> L"
    using f s by auto
  show "(start + k) mod L = ?s + k" if "k < first_length L start count"
    using that f wrap [of k] assms s by (auto split: if_splits)
  show "(start + k) mod L = k - first_length L start count" if "first_length L start count \<le> k" "k < count"
    using that f wrap [of k] assms s by (auto split: if_splits)
qed

text \<open>A position of the ring lies in one of the two fragments exactly when it is a position of the range.\<close>

definition in_fragments :: "nat \<Rightarrow> nat \<Rightarrow> nat \<Rightarrow> nat \<Rightarrow> bool" where
  "in_fragments L start count x \<longleftrightarrow>
     start mod L \<le> x \<and> x < start mod L + first_length L start count \<or> x < count - first_length L start count"

lemma in_fragments_iff:
  assumes "0 < count" "count \<le> L"
  shows "in_fragments L start count x \<longleftrightarrow> (\<exists>k < count. x = (start + k) mod L)"
proof
  note f = first_length_cover [OF assms, where start = start]
  let ?f = "first_length L start count"
  show "\<exists>k < count. x = (start + k) mod L" if x: "in_fragments L start count x"
  proof (cases "start mod L \<le> x \<and> x < start mod L + ?f")
    case True
    then show ?thesis
      using f(1) f(2) [of "x - start mod L"] by (intro exI [of _ "x - start mod L"]) auto
  next
    case False
    then show ?thesis
      using x f(1) f(3) [of "x + ?f"] by (intro exI [of _ "x + ?f"]) (auto simp: in_fragments_def)
  qed
  show "in_fragments L start count x" if ex: "\<exists>k < count. x = (start + k) mod L"
  proof -
    obtain k where k: "k < count" "x = (start + k) mod L"
      using ex by blast
    then show ?thesis
      using f(2) [of k] f(3) [of k] by (cases "k < ?f") (auto simp: in_fragments_def)
  qed
qed

definition range_ok :: "u64 \<Rightarrow> u64 \<Rightarrow> u64 \<Rightarrow> u64 \<Rightarrow> bool" where
  "range_ok S L index count \<longleftrightarrow>
     0 < unat L \<and> unat S * unat L < 2 ^ 64 \<and> unat index + unat L < 2 ^ 64 \<and>
     0 < unat count \<and> unat count \<le> unat L \<and> count \<le> index"

lemma ring_offset_nat:
  assumes "0 < unat (L :: u64)" "unat index + unat L < 2 ^ 64" "unat count \<le> unat index"
  shows "unat ((index + L - count) mod L) = (unat index - unat count) mod unat L"
proof -
  have "unat (index + L) = unat index + unat L"
    using assms by (simp add: unat_plus_fits)
  then have "unat (index + L - count) = unat index - unat count + unat L"
    using assms by (subst unat_minus_le) (simp_all add: word_le_nat_alt)
  then show ?thesis
    by (simp add: unat_mod)
qed

lemma fragment_length_nat:
  assumes L: "0 < unat (L :: u64)" and c: "0 < unat count" "unat count \<le> unat L"
    and s: "unat s = start mod unat L" "unat e = (start + unat count) mod unat L"
  shows "unat (if s < e then count else L - s) = first_length (unat L) start (unat count)"
    and "unat (count - (if s < e then count else L - s)) = unat count - first_length (unat L) start (unat count)"
proof -
  have "unat s < unat L"
    using L s by simp
  then have "unat (L - s) = unat L - start mod unat L"
    using s by (subst unat_minus_le) (simp_all add: word_le_nat_alt)
  then show f: "unat (if s < e then count else L - s) = first_length (unat L) start (unat count)"
    using s by (simp add: first_length_def word_less_nat_alt)
  show "unat (count - (if s < e then count else L - s)) = unat count - first_length (unat L) start (unat count)"
    using first_length_cover(1) [OF c, of start] f by (subst unat_minus_le) (simp_all add: word_le_nat_alt)
qed

lemma wrapped_slices_ok:
  assumes "range_ok S L index count"
  shows "\<exists>sl. wrapped_slices S channels L index count = Ret sl \<and>
    unat (bs_pointer (ws_first sl)) = unat S * ((unat index - unat count) mod unat L) \<and>
    unat (bs_size (ws_first sl)) = unat S * first_length (unat L) (unat index - unat count) (unat count) \<and>
    bs_pointer (ws_second sl) = 0 \<and>
    unat (bs_size (ws_second sl)) = unat S * (unat count - first_length (unat L) (unat index - unat count) (unat count)) \<and>
    unat (ws_stride sl) = unat S * unat L \<and> ws_count sl = channels"
proof -
  let ?start = "unat index - unat count" and ?s = "(index + L - count) mod L" and ?e = "index mod L"
  let ?first = "if ?s < ?e then count else L - ?s"
  have a: "0 < unat L" "unat S * unat L < 2 ^ 64" "unat index + unat L < 2 ^ 64" "0 < unat count"
    "unat count \<le> unat L" "unat count \<le> unat index"
    using assms by (simp_all add: range_ok_def word_le_nat_alt)
  have s: "unat ?s = ?start mod unat L"
    by (rule ring_offset_nat [OF a(1,3,6)])
  have e: "unat ?e = (?start + unat count) mod unat L"
    using a(6) by (simp add: unat_mod)
  note f = fragment_length_nat [OF a(1,4,5) s e]
  have bound: "unat S * x < 2 ^ 64" if "x \<le> unat L" for x
    using mult_le_mono2 [OF that, of "unat S"] a(2) by linarith
  have fl: "first_length (unat L) ?start (unat count) \<le> unat L" "?start mod unat L \<le> unat L"
    using first_length_cover(1) [OF a(4,5), of ?start] a by (auto intro: less_imp_le)
  have m: "unat (S * ?s) = unat S * (?start mod unat L)"
    "unat (S * ?first) = unat S * first_length (unat L) ?start (unat count)"
    "unat (S * (count - ?first)) = unat S * (unat count - first_length (unat L) ?start (unat count))"
    "unat (S * L) = unat S * unat L"
    using bound [OF fl(2)] bound [OF fl(1)] bound [of "unat count - first_length (unat L) ?start (unat count)"] a
    by (simp_all only: unat_small_mult s f)
  have "L \<noteq> 0"
    using a(1) by auto
  then show ?thesis
    using m by (simp add: wrapped_slices_def Let_def)
qed

text \<open>Where byte \<open>j\<close> of a channel's part of a range is, according to its slices and according to the ring.\<close>

definition slice_address :: "mxlWrappedMultiBufferSlice \<Rightarrow> nat \<Rightarrow> nat \<Rightarrow> nat" where
  "slice_address sl channel j =
     channel * unat (ws_stride sl) +
     (if j < unat (bs_size (ws_first sl)) then unat (bs_pointer (ws_first sl)) + j
      else unat (bs_pointer (ws_second sl)) + (j - unat (bs_size (ws_first sl))))"

definition sample_address :: "nat \<Rightarrow> nat \<Rightarrow> nat \<Rightarrow> nat \<Rightarrow> nat \<Rightarrow> nat" where
  "sample_address S L channel position b = channel * (S * L) + ((position mod L) * S + b)"

text \<open>
  The slices of a range of samples cover it exactly: together the two fragments have the bytes of
  \<^verbatim>\<open>count\<close> samples, and byte \<open>b\<close> of the \<open>k\<close>-th sample of a channel lies in the ring position of sample
  \<open>index - count + k\<close>, inside the buffer of that channel.
\<close>

theorem slices_cover_range:
  assumes "range_ok S L index count"
  shows "\<exists>sl. wrapped_slices S channels L index count = Ret sl \<and>
    unat (bs_size (ws_first sl)) + unat (bs_size (ws_second sl)) = unat S * unat count \<and>
    (\<forall>channel k b. k < unat count \<longrightarrow> b < unat S \<longrightarrow>
       slice_address sl channel (k * unat S + b) =
         sample_address (unat S) (unat L) channel (unat index - unat count + k) b \<and>
       slice_address sl channel (k * unat S + b) < Suc channel * unat (ws_stride sl))"
proof -
  let ?start = "unat index - unat count"
  let ?f = "first_length (unat L) ?start (unat count)"
  obtain sl where sl: "wrapped_slices S channels L index count = Ret sl"
    "unat (bs_pointer (ws_first sl)) = unat S * (?start mod unat L)"
    "unat (bs_size (ws_first sl)) = unat S * ?f" "bs_pointer (ws_second sl) = 0"
    "unat (bs_size (ws_second sl)) = unat S * (unat count - ?f)" "unat (ws_stride sl) = unat S * unat L"
    using wrapped_slices_ok [OF assms] by blast
  have a: "0 < unat count" "unat count \<le> unat L" "0 < unat L"
    using assms by (simp_all add: range_ok_def)
  note f = first_length_cover [OF a(1,2), where start = ?start]
  have addr: "slice_address sl channel (k * unat S + b) = sample_address (unat S) (unat L) channel (?start + k) b"
    if "k < unat count" "b < unat S" for channel k b
  proof (cases "k < ?f")
    case True
    then have "Suc k * unat S \<le> ?f * unat S"
      by (intro mult_le_mono1) simp
    then have "k * unat S + b < unat S * ?f"
      using that by (simp add: mult.commute)
    then show ?thesis
      using f(2) [OF True] by (simp add: slice_address_def sample_address_def sl algebra_simps)
  next
    case False
    then have "?f * unat S \<le> k * unat S"
      by (intro mult_le_mono1) simp
    then have "\<not> k * unat S + b < unat S * ?f" "k * unat S + b - unat S * ?f = (k * unat S - ?f * unat S) + b"
      using mult.commute [of "unat S" ?f] by linarith+
    then have "\<not> k * unat S + b < unat S * ?f" and e: "k * unat S + b - unat S * ?f = (k - ?f) * unat S + b"
      by (simp_all add: diff_mult_distrib)
    then show ?thesis
      using f(3) [of k] False that by (simp add: slice_address_def sample_address_def sl e)
  qed
  have bound: "sample_address (unat S) (unat L) channel p b < Suc channel * (unat S * unat L)" if "b < unat S" for channel p b
  proof -
    have "Suc (p mod unat L) * unat S \<le> unat L * unat S"
      using a(3) by (intro mult_le_mono1) (simp add: Suc_leI)
    then show ?thesis
      using that by (simp add: sample_address_def mult.commute [of "unat L"])
  qed
  have "unat (bs_size (ws_first sl)) + unat (bs_size (ws_second sl)) = unat S * unat count"
    using f(1) by (simp add: sl add_mult_distrib2 [symmetric])
  then show ?thesis
    using sl(1,6) addr bound by auto
qed

section \<open>Clearing\<close>

lemma memset_zero_nth:
  assumes "position + n \<le> length mem"
  shows "\<exists>mem'. memset_zero position n mem = Ret mem' \<and> length mem' = length mem \<and>
    (\<forall>a < length mem. mem' ! a = (if position \<le> a \<and> a < position + n then 0 else mem ! a))"
  using assms by (auto simp: memset_zero_def nth_append)

text \<open>Offset \<open>o\<close> of a channel buffer lies in one of the two byte ranges that are cleared.\<close>

definition in_cleared :: "nat \<Rightarrow> nat \<Rightarrow> nat \<Rightarrow> nat \<Rightarrow> bool" where
  "in_cleared p n m x \<longleftrightarrow> p \<le> x \<and> x < p + n \<or> x < m"

lemma clear_channels_effect:
  assumes "0 < unat stride" "unat p + unat n \<le> unat stride" "unat m \<le> unat stride"
    and "channels * unat stride \<le> length mem" "length mem < 2 ^ 64"
  shows "\<exists>mem'. clear_channels channels stride p n m mem = Ret mem' \<and> length mem' = length mem \<and>
    (\<forall>a < length mem. mem' ! a =
       (if a div unat stride < channels \<and> in_cleared (unat p) (unat n) (unat m) (a mod unat stride) then 0 else mem ! a))"
  using assms(4)
proof (induction channels)
  case (Suc c)
  let ?T = "unat stride"
  obtain mem1 where mem1: "clear_channels c stride p n m mem = Ret mem1" "length mem1 = length mem"
    and nth1: "\<And>a. a < length mem \<Longrightarrow> mem1 ! a =
       (if a div ?T < c \<and> in_cleared (unat p) (unat n) (unat m) (a mod ?T) then 0 else mem ! a)"
    using Suc by auto
  have fit: "c * ?T + ?T \<le> length mem"
    using Suc.prems by simp
  have "c < 2 ^ 64"
  proof -
    have "c * 1 \<le> c * ?T"
      using assms(1) by (intro mult_le_mono2) simp
    then show ?thesis using fit assms(5) by linarith
  qed
  then have "unat (of_nat c :: u64) = c"
    by (simp add: unat_of_nat)
  then have base: "unat (of_nat c * stride) = c * ?T"
    using fit assms(5) by (subst unat_small_mult) auto
  have first: "unat (of_nat c * stride + p) = c * ?T + unat p"
    using base fit assms(2,5) by (subst unat_plus_fits) auto
  obtain mem2 where mem2: "memset_zero (c * ?T + unat p) (unat n) mem1 = Ret mem2" "length mem2 = length mem"
    and nth2: "\<And>a. a < length mem \<Longrightarrow>
       mem2 ! a = (if c * ?T + unat p \<le> a \<and> a < c * ?T + unat p + unat n then 0 else mem1 ! a)"
    using memset_zero_nth [of "c * ?T + unat p" "unat n" mem1] fit assms(2) mem1 by auto
  obtain mem3 where mem3: "memset_zero (c * ?T) (unat m) mem2 = Ret mem3" "length mem3 = length mem"
    and nth3: "\<And>a. a < length mem \<Longrightarrow> mem3 ! a = (if c * ?T \<le> a \<and> a < c * ?T + unat m then 0 else mem2 ! a)"
    using memset_zero_nth [of "c * ?T" "unat m" mem2] fit assms(3) mem2 by auto
  have "mem3 ! a = (if a div ?T < Suc c \<and> in_cleared (unat p) (unat n) (unat m) (a mod ?T) then 0 else mem ! a)"
    if a: "a < length mem" for a
  proof -
    let ?q = "a div ?T" and ?o = "a mod ?T"
    have a_eq: "a = ?q * ?T + ?o" and o: "?o < ?T"
      using assms(1) by simp_all
    consider "?q < c" | "?q = c" | "c < ?q" by linarith
    then show ?thesis
    proof cases
      case 1
      then have "Suc ?q * ?T \<le> c * ?T"
        by (intro mult_le_mono1) simp
      then have "a < c * ?T"
        using a_eq o unfolding mult_Suc by linarith
      then show ?thesis
        using a 1 by (simp add: nth3 nth2 nth1)
    next
      case 2
      have "a = c * ?T + ?o"
        using a_eq 2 by simp
      then have e: "c * ?T + x \<le> a \<longleftrightarrow> x \<le> ?o" "a < c * ?T + x \<longleftrightarrow> ?o < x" for x
        by linarith+
      have "c * ?T \<le> a" "a < c * ?T + unat p + unat n \<longleftrightarrow> ?o < unat p + unat n"
        using e(1) [of 0] e(2) [of "unat p + unat n"] by (simp_all add: add.assoc)
      then show ?thesis
        using 2 nth3 [OF a] nth2 [OF a] nth1 [OF a] e(1) [of "unat p"] e(2) [of "unat m"] by (simp add: in_cleared_def)
    next
      case 3
      then have "Suc c * ?T \<le> ?q * ?T"
        by (intro mult_le_mono1) simp
      then have "c * ?T + ?T \<le> a"
        using a_eq unfolding mult_Suc by linarith
      then show ?thesis
        using a 3 assms(2,3) by (simp add: nth3 nth2 nth1)
    qed
  qed
  then show ?case
    using mem1 mem2 mem3 base first by (auto simp: Let_def)
qed simp

text \<open>The samples of a channel as numbers \<open>S\<close> bytes apart in their buffer.\<close>

lemma sample_address_div_mod:
  assumes "0 < L" "b < S"
  shows "sample_address S L channel position b div (S * L) = channel"
    and "sample_address S L channel position b mod (S * L) = (position mod L) * S + b"
proof -
  have "Suc (position mod L) * S \<le> L * S"
    using assms by (intro mult_le_mono1) (simp add: Suc_leI)
  then have "(position mod L) * S + b < S * L"
    using assms by (simp add: mult.commute [of L])
  then show "sample_address S L channel position b div (S * L) = channel"
    "sample_address S L channel position b mod (S * L) = (position mod L) * S + b"
    using div_mult_self3 [of "S * L" channel "(position mod L) * S + b"] assms
    by (simp_all add: sample_address_def)
qed

lemma scaled_bounds:
  fixes x S b :: nat
  assumes "b < S"
  shows "x * S + b < S * y \<longleftrightarrow> x < y" and "S * y \<le> x * S + b \<longleftrightarrow> y \<le> x"
proof -
  show less: "x * S + b < S * y \<longleftrightarrow> x < y"
  proof
    assume "x < y"
    then have "Suc x * S \<le> y * S"
      by (intro mult_le_mono1) simp
    then show "x * S + b < S * y"
      using assms by (simp add: mult.commute [of S])
  next
    assume l: "x * S + b < S * y"
    show "x < y"
    proof (rule ccontr)
      assume "\<not> x < y"
      then have "y * S \<le> x * S"
        by (intro mult_le_mono1) simp
      then show False
        using l mult.commute [of S y] by linarith
    qed
  qed
  show "S * y \<le> x * S + b \<longleftrightarrow> y \<le> x"
    using less by (metis not_less)
qed

lemma in_cleared_sample:
  assumes "b < S"
  shows "in_cleared (S * (start mod L)) (S * first_length L start count) (S * (count - first_length L start count)) (x * S + b)
    \<longleftrightarrow> in_fragments L start count x"
  unfolding in_cleared_def in_fragments_def add_mult_distrib2 [symmetric] scaled_bounds [OF assms] ..

section \<open>The log of a writer session\<close>

definition word_size :: "ContinuousFlowData \<Rightarrow> nat" where
  "word_size d = unat (cd_sampleWordSize d)"

definition ring_length :: "ContinuousFlowData \<Rightarrow> nat" where
  "ring_length d = unat (cf_bufferLength (cd_config d))"

definition channel_number :: "ContinuousFlowData \<Rightarrow> nat" where
  "channel_number d = unat (cf_channelCount (cd_config d))"

definition cont_geometry :: "ContinuousFlowData \<Rightarrow> bool" where
  "cont_geometry d \<longleftrightarrow>
     0 < ring_length d \<and> 0 < word_size d \<and> 0 < channel_number d \<and>
     length (cd_channels d) = channel_number d * (word_size d * ring_length d) \<and> length (cd_channels d) < 2 ^ 64"

lemmas cont_sizes = word_size_def ring_length_def channel_number_def

text \<open>Byte \<open>b\<close> of the sample at a position of a channel.\<close>

definition sample_byte :: "ContinuousFlowData \<Rightarrow> nat \<Rightarrow> nat \<Rightarrow> nat \<Rightarrow> u8" where
  "sample_byte d channel position b =
     cd_channels d ! sample_address (word_size d) (ring_length d) channel position b"

lemma cont_channels_update [simp]:
  "word_size (d\<lparr>cd_channels := mem\<rparr>) = word_size d"
  "ring_length (d\<lparr>cd_channels := mem\<rparr>) = ring_length d"
  "channel_number (d\<lparr>cd_channels := mem\<rparr>) = channel_number d"
  "sample_byte (d\<lparr>cd_channels := mem\<rparr>) channel p b =
     mem ! sample_address (word_size d) (ring_length d) channel p b"
  by (simp_all add: cont_sizes sample_byte_def)

definition writer_of :: "PosixContinuousFlowWriter \<Rightarrow> ContinuousFlowData \<Rightarrow> bool" where
  "writer_of w d \<longleftrightarrow>
     cw_channelCount w = channelCount d \<and> cw_bufferLength w = channelBufferLength d \<and> cw_syncBatchSize w \<noteq> 0"

lemma unat_channelCount [simp]: "unat (channelCount d) = channel_number d"
  by (simp add: channelCount_def channel_number_def)

lemma unat_channelBufferLength [simp]: "unat (channelBufferLength d) = ring_length d"
  by (simp add: channelBufferLength_def ring_length_def)

lemma stride_fits:
  assumes "cont_geometry d"
  shows "word_size d * ring_length d < 2 ^ 64"
proof -
  have "1 * (word_size d * ring_length d) \<le> channel_number d * (word_size d * ring_length d)"
    using assms by (intro mult_le_mono1) (simp add: cont_geometry_def)
  then show ?thesis
    using assms unfolding cont_geometry_def by linarith
qed

lemma sample_address_less:
  assumes "cont_geometry d" "channel < channel_number d" "b < word_size d"
  shows "sample_address (word_size d) (ring_length d) channel p b < length (cd_channels d)"
proof -
  let ?T = "word_size d * ring_length d"
  have p: "0 < ring_length d"
    using assms by (simp add: cont_geometry_def)
  have "sample_address (word_size d) (ring_length d) channel p b div ?T < channel_number d"
    using sample_address_div_mod(1) [OF p assms(3)] assms(2) by simp
  then show ?thesis
    using assms(1) p div_less_iff_less_mult [of ?T] by (simp add: cont_geometry_def)
qed

text \<open>The first of the skipped samples that a commit clears.\<close>

definition gap_first :: "nat \<Rightarrow> nat \<Rightarrow> nat \<Rightarrow> nat \<Rightarrow> nat" where
  "gap_first committed start L count = start - min (start - committed) (L - count)"

lemma gap_in_window:
  assumes "gap_first committed start L count \<le> q" "q < start" "committed \<le> start" "count < L"
  shows "start + count \<le> q + L" "committed \<le> q"
  using assms by (auto simp: gap_first_def)

lemma clear_skipped_effect:
  assumes geo: "cont_geometry d" and w: "writer_of w d"
    and L: "cw_lastCommittedIndex w \<noteq> MXL_UNDEFINED_INDEX"
    and cnt: "unat (cw_currentCount w) < ring_length d" "cw_currentCount w \<le> cw_currentIndex w"
    and fits: "unat (cw_currentIndex w) + ring_length d < 2 ^ 64"
    and start: "start = unat (cw_currentIndex w) - unat (cw_currentCount w)"
    and le: "unat (cw_lastCommittedIndex w) \<le> start"
  shows "\<exists>mem. clear_skipped w d = Ret (d\<lparr>cd_channels := mem\<rparr>) \<and> length mem = length (cd_channels d) \<and>
    (\<forall>channel p b. channel < channel_number d \<longrightarrow> b < word_size d \<longrightarrow>
       mem ! sample_address (word_size d) (ring_length d) channel p b =
       (if \<exists>q. gap_first (unat (cw_lastCommittedIndex w)) start (ring_length d) (unat (cw_currentCount w)) \<le> q \<and>
               q < start \<and> q mod ring_length d = p mod ring_length d
        then 0 else sample_byte d channel p b))"
proof -
  let ?last = "unat (cw_lastCommittedIndex w)" and ?L = "ring_length d" and ?S = "word_size d"
    and ?count = "unat (cw_currentCount w)" and ?i = "cw_currentIndex w"
  let ?start = "?i - cw_currentCount w"
  have st: "unat ?start = start"
    using cnt(2) start by (simp add: unat_minus_le)
  have BL: "cw_bufferLength w = channelBufferLength d" "cw_channelCount w = channelCount d"
    using w by (simp_all add: writer_of_def)
  show ?thesis
  proof (cases "?start > cw_lastCommittedIndex w")
    case False
    then have "start = ?last"
      using le st by (simp add: word_less_nat_alt)
    then have "gap_first ?last start ?L ?count = start"
      by (simp add: gap_first_def)
    then show ?thesis
      using False by (intro exI [of _ "cd_channels d"]) (auto simp: clear_skipped_def Let_def sample_byte_def)
  next
    case True
    then have lt: "?last < start"
      using st by (simp add: word_less_nat_alt)
    define cleared where "cleared = min (?start - cw_lastCommittedIndex w) (channelBufferLength d - cw_currentCount w)"
    have "unat (?start - cw_lastCommittedIndex w) = start - ?last"
      using lt st by (subst unat_minus_le) (simp_all add: word_le_nat_alt)
    moreover have "unat (channelBufferLength d - cw_currentCount w) = ?L - ?count"
      using cnt(1) by (subst unat_minus_le) (simp_all add: word_le_nat_alt)
    ultimately have c: "unat cleared = min (start - ?last) (?L - ?count)"
      by (simp add: cleared_def min_def word_le_nat_alt)
    let ?g = "start - unat cleared"
    have cb: "0 < unat cleared" "unat cleared \<le> ?L" "unat cleared \<le> start"
      using c lt cnt(1) by auto
    let ?s = "(?start + channelBufferLength d - cleared) mod channelBufferLength d" and ?e = "?start mod channelBufferLength d"
    let ?first = "if ?s < ?e then cleared else channelBufferLength d - ?s"
    have Lpos: "0 < unat (channelBufferLength d)"
      using geo by (simp add: cont_geometry_def)
    have s: "unat ?s = ?g mod unat (channelBufferLength d)"
      using ring_offset_nat [OF Lpos, of ?start cleared] st cb fits start by simp
    have e: "unat ?e = (?g + unat cleared) mod unat (channelBufferLength d)"
      using st cb by (simp add: unat_mod)
    note f = fragment_length_nat [OF Lpos cb(1) _ s e]
    have f1: "unat ?first = first_length ?L ?g (unat cleared)"
      "unat (cleared - ?first) = unat cleared - first_length ?L ?g (unat cleared)"
      using f cb by simp_all
    note fl = first_length_cover [OF cb(1,2), where start = ?g]
    have bound: "unat (cd_sampleWordSize d) * x < 2 ^ 64" if "x \<le> ?L" for x
      by (rule le_less_trans [OF mult_le_mono2 [OF that]]) (use stride_fits [OF geo] in \<open>simp add: word_size_def\<close>)
    have m: "unat (cd_sampleWordSize d * ?s) = ?S * (?g mod ?L)"
      "unat (cd_sampleWordSize d * ?first) = ?S * first_length ?L ?g (unat cleared)"
      "unat (cd_sampleWordSize d * (cleared - ?first)) = ?S * (unat cleared - first_length ?L ?g (unat cleared))"
      "unat (cd_sampleWordSize d * channelBufferLength d) = ?S * ?L"
      using bound [of "?g mod ?L"] bound [of "first_length ?L ?g (unat cleared)"] fl(1)
        bound [of "unat cleared - first_length ?L ?g (unat cleared)"] bound [of ?L] cb Lpos s
      by (simp_all only: unat_small_mult f1) (simp_all add: word_size_def less_imp_le unat_small_mult)
    have T: "0 < ?S * ?L" "?S * (?g mod ?L) + ?S * first_length ?L ?g (unat cleared) \<le> ?S * ?L"
      "?S * (unat cleared - first_length ?L ?g (unat cleared)) \<le> ?S * ?L"
      using fl(4) cb geo by (simp_all add: add_mult_distrib2 [symmetric] cont_geometry_def)
    obtain mem where mem: "clear_channels (channel_number d) (cd_sampleWordSize d * channelBufferLength d)
          (cd_sampleWordSize d * ?s) (cd_sampleWordSize d * ?first) (cd_sampleWordSize d * (cleared - ?first)) (cd_channels d) = Ret mem"
        "length mem = length (cd_channels d)"
      and nth: "\<And>a. a < length (cd_channels d) \<Longrightarrow> mem ! a =
        (if a div (?S * ?L) < channel_number d \<and>
            in_cleared (?S * (?g mod ?L)) (?S * first_length ?L ?g (unat cleared))
              (?S * (unat cleared - first_length ?L ?g (unat cleared))) (a mod (?S * ?L))
         then 0 else cd_channels d ! a)"
      using clear_channels_effect [of "cd_sampleWordSize d * channelBufferLength d" "cd_sampleWordSize d * ?s"
          "cd_sampleWordSize d * ?first" "cd_sampleWordSize d * (cleared - ?first)" "channel_number d" "cd_channels d"]
        geo T unfolding m cont_geometry_def by auto
    have "channelBufferLength d \<noteq> 0"
      using Lpos by (metis less_irrefl unat_0)
    then have "clear_skipped w d = Ret (d\<lparr>cd_channels := mem\<rparr>)"
      using L True mem(1) unfolding clear_skipped_def Let_def BL cleared_def [symmetric]
      by (simp split del: if_split)
    moreover have "mem ! sample_address ?S ?L channel p b =
       (if \<exists>q. gap_first ?last start ?L ?count \<le> q \<and> q < start \<and> q mod ?L = p mod ?L
        then 0 else sample_byte d channel p b)"
      if ch: "channel < channel_number d" and b: "b < ?S" for channel p b
    proof -
      have L: "0 < ?L" using Lpos by simp
      have gf: "?g = gap_first ?last start ?L ?count"
        using c by (simp add: gap_first_def)
      have "in_fragments ?L ?g (unat cleared) (p mod ?L) \<longleftrightarrow> (\<exists>q. ?g \<le> q \<and> q < start \<and> q mod ?L = p mod ?L)"
        unfolding in_fragments_iff [OF cb(1,2)]
      proof
        assume "\<exists>k < unat cleared. p mod ?L = (?g + k) mod ?L"
        then obtain k where "k < unat cleared" "p mod ?L = (?g + k) mod ?L" by blast
        then show "\<exists>q. ?g \<le> q \<and> q < start \<and> q mod ?L = p mod ?L"
          using cb by (intro exI [of _ "?g + k"]) auto
      next
        assume "\<exists>q. ?g \<le> q \<and> q < start \<and> q mod ?L = p mod ?L"
        then obtain q where "?g \<le> q" "q < start" "q mod ?L = p mod ?L" by blast
        then show "\<exists>k < unat cleared. p mod ?L = (?g + k) mod ?L"
          by (intro exI [of _ "q - ?g"]) auto
      qed
      then show ?thesis
        using nth [OF sample_address_less [OF geo ch b]] ch
        unfolding sample_address_div_mod [OF L b] in_cleared_sample [OF b] gf sample_byte_def by simp
    qed
    ultimately show ?thesis
      using mem(2) by blast
  qed
qed

text \<open>
  What the samples of a session hold: \<open>f channel position b\<close> is byte \<open>b\<close> of a sample. The last ring
  length of positions before the last committed index is in the buffers.
\<close>

definition cont_log ::
  "nat \<Rightarrow> (nat \<Rightarrow> nat \<Rightarrow> nat \<Rightarrow> u8) \<Rightarrow> PosixContinuousFlowWriter \<Rightarrow> ContinuousFlowData \<Rightarrow> bool" where
  "cont_log first f w d \<longleftrightarrow>
     cont_geometry d \<and> writer_of w d \<and> cw_lastCommittedIndex w \<noteq> MXL_UNDEFINED_INDEX \<and>
     headIndex (cd_runtime d) = cw_lastCommittedIndex w \<and>
     (\<forall>channel p b. channel < channel_number d \<longrightarrow> b < word_size d \<longrightarrow>
        first \<le> p \<longrightarrow> p < unat (cw_lastCommittedIndex w) \<longrightarrow> unat (cw_lastCommittedIndex w) \<le> p + ring_length d \<longrightarrow>
        sample_byte d channel p b = f channel p b)"

text \<open>
  The client has filled an opened range: through the slices every byte \<open>j\<close> of its part of a channel is
  \<open>data channel j\<close>, and nothing else has changed.
\<close>

definition client_filled ::
  "mxlWrappedMultiBufferSlice \<Rightarrow> (nat \<Rightarrow> nat \<Rightarrow> u8) \<Rightarrow> u8 list \<Rightarrow> u8 list \<Rightarrow> bool" where
  "client_filled sl data old mem \<longleftrightarrow>
     (let n = unat (bs_size (ws_first sl)) + unat (bs_size (ws_second sl))
      in length mem = length old \<and>
         (\<forall>channel < unat (ws_count sl). \<forall>j < n. mem ! slice_address sl channel j = data channel j) \<and>
         (\<forall>a < length old. (\<forall>channel < unat (ws_count sl). \<forall>j < n. a \<noteq> slice_address sl channel j) \<longrightarrow>
            mem ! a = old ! a))"

definition filled_log :: "nat \<Rightarrow> nat \<Rightarrow> nat \<Rightarrow> nat \<Rightarrow> (nat \<Rightarrow> nat \<Rightarrow> u8) \<Rightarrow> (nat \<Rightarrow> nat \<Rightarrow> nat \<Rightarrow> u8)
    \<Rightarrow> nat \<Rightarrow> nat \<Rightarrow> nat \<Rightarrow> u8" where
  "filled_log committed start count S data f channel p b =
     (if start \<le> p \<and> p < start + count then data channel ((p - start) * S + b)
      else if committed \<le> p then 0 else f channel p b)"

lemma sample_address_inj:
  assumes "0 < L" "b < S" "b' < S"
  shows "sample_address S L channel p b = sample_address S L channel' p' b' \<longleftrightarrow>
    channel = channel' \<and> p mod L = p' mod L \<and> b = b'"
proof
  assume eq: "sample_address S L channel p b = sample_address S L channel' p' b'"
  then have "channel = channel'" and o: "(p mod L) * S + b = (p' mod L) * S + b'"
    using sample_address_div_mod [OF assms(1,2), of channel p] sample_address_div_mod [OF assms(1,3), of channel' p']
    by auto
  moreover have "p mod L = p' mod L" "b = b'"
    using arg_cong [OF o, of "\<lambda>x. x div S"] arg_cong [OF o, of "\<lambda>x. x mod S"] assms by auto
  ultimately show "channel = channel' \<and> p mod L = p' mod L \<and> b = b'" by simp
qed (auto simp: sample_address_def)

text \<open>After the client has filled the slices, the opened positions hold its data and the others are kept.\<close>

lemma filled_samples:
  assumes geo: "cont_geometry d"
    and ok: "range_ok (cd_sampleWordSize d) (channelBufferLength d) index count"
    and sl: "wrapped_slices (cd_sampleWordSize d) (channelCount d) (channelBufferLength d) index count = Ret sl"
    and fill: "client_filled sl data (cd_channels d) mem"
    and start: "start = unat index - unat count"
    and ch: "channel < channel_number d" and b: "b < word_size d"
  shows "k < unat count \<Longrightarrow>
      mem ! sample_address (word_size d) (ring_length d) channel (start + k) b = data channel (k * word_size d + b)"
    and "(\<And>k. k < unat count \<Longrightarrow> p mod ring_length d \<noteq> (start + k) mod ring_length d) \<Longrightarrow>
       mem ! sample_address (word_size d) (ring_length d) channel p b = sample_byte d channel p b"
proof -
  let ?S = "word_size d" and ?L = "ring_length d"
  obtain sl' where sl': "wrapped_slices (cd_sampleWordSize d) (channelCount d) (channelBufferLength d) index count = Ret sl'"
      "unat (bs_size (ws_first sl')) + unat (bs_size (ws_second sl')) = ?S * unat count"
      "\<And>channel k b. k < unat count \<Longrightarrow> b < ?S \<Longrightarrow>
         slice_address sl' channel (k * ?S + b) = sample_address ?S ?L channel (start + k) b"
    using slices_cover_range [OF ok, of "channelCount d"] by (auto simp: start word_size_def)
  moreover have "ws_count sl = channelCount d"
    using wrapped_slices_ok [OF ok, of "channelCount d"] sl by auto
  ultimately have n: "unat (bs_size (ws_first sl)) + unat (bs_size (ws_second sl)) = ?S * unat count"
      "unat (ws_count sl) = channel_number d"
      and addr: "\<And>channel k b. k < unat count \<Longrightarrow> b < ?S \<Longrightarrow>
         slice_address sl channel (k * ?S + b) = sample_address ?S ?L channel (start + k) b"
    using sl by auto
  show "mem ! sample_address ?S ?L channel (start + k) b = data channel (k * ?S + b)" if k: "k < unat count"
  proof -
    have "k * ?S + b < ?S * unat count"
      using k scaled_bounds(1) [OF b] by simp
    then have "mem ! slice_address sl channel (k * ?S + b) = data channel (k * ?S + b)"
      using fill ch n by (simp add: client_filled_def Let_def)
    then show ?thesis
      using addr [OF k b] by simp
  qed
  show "mem ! sample_address ?S ?L channel p b = sample_byte d channel p b"
    if other: "\<And>k. k < unat count \<Longrightarrow> p mod ?L \<noteq> (start + k) mod ?L"
  proof -
    have "sample_address ?S ?L channel p b \<noteq> slice_address sl c j" if "j < ?S * unat count" for c j
    proof
      assume eq: "sample_address ?S ?L channel p b = slice_address sl c j"
      have m: "j mod ?S < ?S" "j = j div ?S * ?S + j mod ?S"
        using b by simp_all
      have k: "j div ?S < unat count"
        using that m(2) scaled_bounds(1) [OF m(1), of "j div ?S" "unat count"] by simp
      have "slice_address sl c j = sample_address ?S ?L c (start + j div ?S) (j mod ?S)"
        using addr [OF k m(1), of c] m(2) by simp
      then have "p mod ?L = (start + j div ?S) mod ?L"
        using eq sample_address_inj [OF _ b m(1)] geo by (auto simp: cont_geometry_def)
      then show False
        using other [OF k] by simp
    qed
    then have "mem ! sample_address ?S ?L channel p b = cd_channels d ! sample_address ?S ?L channel p b"
      using fill sample_address_less [OF geo ch b] n by (simp add: client_filled_def Let_def)
    then show ?thesis
      by (simp add: sample_byte_def)
  qed
qed

lemma openSamples_ok:
  assumes w: "writer_of w d" and ok: "range_ok (cd_sampleWordSize d) (channelBufferLength d) index count"
    and half: "count \<le> channelBufferLength d div 2"
    and last: "cw_lastCommittedIndex w \<le> index - count"
  shows "\<exists>sl. wrapped_slices (cd_sampleWordSize d) (channelCount d) (channelBufferLength d) index count = Ret sl \<and>
    openSamples index count w d = Ret (MXL_STATUS_OK, Some sl, w\<lparr>cw_currentIndex := index, cw_currentCount := count\<rparr>)"
proof -
  obtain sl where sl: "wrapped_slices (cd_sampleWordSize d) (channelCount d) (channelBufferLength d) index count = Ret sl"
    using wrapped_slices_ok [OF ok] by blast
  have le: "count \<le> index" "0 < unat count"
    using ok by (simp_all add: range_ok_def)
  then have "unat (index - count) < unat index"
    by (subst unat_minus_le) (auto simp: word_le_nat_alt)
  then have "\<not> index \<le> cw_lastCommittedIndex w" "\<not> index < count"
    using last le by (auto simp: word_le_nat_alt word_less_nat_alt)
  then show ?thesis
    using sl w half last by (auto simp: openSamples_def writer_of_def Let_def)
qed

lemma signal_total:
  "cw_syncBatchSize w \<noteq> 0 \<Longrightarrow> \<exists>b w'. signalCompletedBatch head w = Ret (b, w') \<and>
     w' = w\<lparr>cw_lastSyncSampleBatch := cw_lastSyncSampleBatch w'\<rparr>"
  by (auto simp: signalCompletedBatch_def Let_def)

text \<open>
  C7: Writing a range of samples refines extending the log of the session: opening the range succeeds,
  and however the client fills it, the commit succeeds, moves the head to the end of the range, keeps
  the samples that stay in the ring, gives the range the client's samples and fills the skipped samples
  before it with zeros.
\<close>

theorem write_samples_extends_log:
  assumes log: "cont_log first f w d"
    and ok: "range_ok (cd_sampleWordSize d) (channelBufferLength d) index count"
    and half: "count \<le> channelBufferLength d div 2"
    and last: "cw_lastCommittedIndex w \<le> index - count" and index: "index \<noteq> MXL_UNDEFINED_INDEX"
  shows "\<exists>sl w1. openSamples index count w d = Ret (MXL_STATUS_OK, Some sl, w1) \<and>
    (\<forall>data mem. client_filled sl data (cd_channels d) mem \<longrightarrow>
      (\<exists>w' d'. commit_samples w1 (d\<lparr>cd_channels := mem\<rparr>) = Ret (MXL_STATUS_OK, w', d') \<and>
        cw_lastCommittedIndex w' = index \<and>
        cont_log first (filled_log (unat (cw_lastCommittedIndex w)) (unat index - unat count) (unat count) (word_size d) data f)
          w' d'))"
proof -
  let ?S = "word_size d" and ?L = "ring_length d" and ?last = "unat (cw_lastCommittedIndex w)"
  let ?start = "unat index - unat count"
  have geo: "cont_geometry d" and w: "writer_of w d" and L: "cw_lastCommittedIndex w \<noteq> MXL_UNDEFINED_INDEX"
    and samples: "\<And>channel p b. channel < channel_number d \<Longrightarrow> b < ?S \<Longrightarrow> first \<le> p \<Longrightarrow> p < ?last \<Longrightarrow>
        ?last \<le> p + ?L \<Longrightarrow> sample_byte d channel p b = f channel p b"
    using log by (simp_all add: cont_log_def)
  obtain sl where sl: "wrapped_slices (cd_sampleWordSize d) (channelCount d) (channelBufferLength d) index count = Ret sl"
    and op: "openSamples index count w d = Ret (MXL_STATUS_OK, Some sl, w\<lparr>cw_currentIndex := index, cw_currentCount := count\<rparr>)"
    using openSamples_ok [OF w ok half last] by blast
  let ?w1 = "w\<lparr>cw_currentIndex := index, cw_currentCount := count\<rparr>"
  have le: "count \<le> index" "0 < unat count" "unat index + ?L < 2 ^ 64" "unat count \<le> unat index"
    using ok by (simp_all add: range_ok_def word_le_nat_alt)
  have "unat count \<le> ?L div 2" "0 < ?L"
    using half geo by (simp_all add: word_le_nat_alt unat_div cont_geometry_def)
  then have cnt: "unat count < ?L"
    by linarith
  have last_le: "?last \<le> ?start"
    using last le by (simp add: word_le_nat_alt unat_minus_le)
  have "\<exists>w' d'. commit_samples ?w1 (d\<lparr>cd_channels := mem\<rparr>) = Ret (MXL_STATUS_OK, w', d') \<and>
        cw_lastCommittedIndex w' = index \<and>
        cont_log first (filled_log ?last ?start (unat count) ?S data f) w' d'"
    if fill: "client_filled sl data (cd_channels d) mem" for data mem
  proof -
    let ?d1 = "d\<lparr>cd_channels := mem\<rparr>"
    have len: "length mem = length (cd_channels d)"
      using fill by (simp add: client_filled_def Let_def)
    have geo1: "cont_geometry ?d1" and w1: "writer_of ?w1 ?d1"
      using geo w len by (simp_all add: cont_geometry_def cont_sizes writer_of_def channelCount_def channelBufferLength_def)
    obtain mem2 where skip: "clear_skipped ?w1 ?d1 = Ret (?d1\<lparr>cd_channels := mem2\<rparr>)" "length mem2 = length mem"
      and mem2: "\<And>channel p b. channel < channel_number d \<Longrightarrow> b < ?S \<Longrightarrow>
         mem2 ! sample_address ?S ?L channel p b =
         (if \<exists>q. gap_first ?last ?start ?L (unat count) \<le> q \<and> q < ?start \<and> q mod ?L = p mod ?L
          then 0 else mem ! sample_address ?S ?L channel p b)"
      using clear_skipped_effect [OF geo1 w1, of ?start, unfolded cont_channels_update] L cnt le last_le by auto
    define w2 where "w2 = w\<lparr>cw_lastCommittedIndex := index, cw_currentIndex := MXL_UNDEFINED_INDEX, cw_currentCount := 0\<rparr>"
    have "cw_syncBatchSize w2 \<noteq> 0"
      using w by (simp add: w2_def writer_of_def)
    then obtain signal w' where sig: "signalCompletedBatch index w2 = Ret (signal, w')"
      and w': "w' = w2\<lparr>cw_lastSyncSampleBatch := cw_lastSyncSampleBatch w'\<rparr>"
      using signal_total by blast
    define d2 where "d2 = d\<lparr>cd_channels := mem2, cd_runtime := (cd_runtime d)\<lparr>headIndex := index\<rparr>\<rparr>"
    define d' where "d' = (if signal then d2\<lparr>cd_state := (cd_state d2)\<lparr>fs_syncCounter := fs_syncCounter (cd_state d2) + 1\<rparr>\<rparr> else d2)"
    have "commit_samples ?w1 ?d1 = Ret (MXL_STATUS_OK, w', d')"
      using index skip(1) sig by (simp add: commit_samples_def Let_def w2_def d2_def d'_def)
    moreover have fields: "cd_channels d' = mem2" "cd_config d' = cd_config d" "cd_sampleWordSize d' = cd_sampleWordSize d"
      "headIndex (cd_runtime d') = index" "cw_lastCommittedIndex w' = index" "cw_syncBatchSize w' = cw_syncBatchSize w"
      "cw_channelCount w' = cw_channelCount w" "cw_bufferLength w' = cw_bufferLength w"
      using arg_cong [OF w', of cw_lastCommittedIndex] arg_cong [OF w', of cw_syncBatchSize]
        arg_cong [OF w', of cw_channelCount] arg_cong [OF w', of cw_bufferLength]
      by (simp_all add: d'_def d2_def w2_def)
    moreover have "sample_byte d' channel p b = filled_log ?last ?start (unat count) ?S data f channel p b"
      if ch: "channel < channel_number d" and b: "b < ?S" and p: "first \<le> p" "p < unat index" "unat index \<le> p + ?L" for channel p b
    proof -
      have s': "sample_byte d' channel p b = mem2 ! sample_address ?S ?L channel p b"
        by (simp add: sample_byte_def fields cont_sizes)
      have window: "q = p" if "q mod ?L = p mod ?L" "unat index \<le> q + ?L" "q < unat index" for q
        using mod_inj_window [of "unat index - ?L" q ?L p] that p by auto
      consider "?start \<le> p" | "?last \<le> p" "p < ?start" | "p < ?last" by linarith
      then show ?thesis
      proof cases
        case 1
        then have no: "\<not> (\<exists>q. gap_first ?last ?start ?L (unat count) \<le> q \<and> q < ?start \<and> q mod ?L = p mod ?L)"
          using window gap_in_window [OF _ _ last_le cnt] le 1 by fastforce
        have "mem ! sample_address ?S ?L channel (?start + (p - ?start)) b = data channel ((p - ?start) * ?S + b)"
          using p le 1 by (intro filled_samples(1) [OF geo ok sl fill refl ch b]) auto
        then show ?thesis
          using 1 p le s' unfolding mem2 [OF ch b] if_not_P [OF no] by (simp add: filled_log_def)
      next
        case 2
        then have "gap_first ?last ?start ?L (unat count) \<le> p"
          using p le cnt by (auto simp: gap_first_def)
        then show ?thesis
          using 2 mem2 [OF ch b, of p] s' by (auto simp: filled_log_def)
      next
        case 3
        then have no: "\<not> (\<exists>q. gap_first ?last ?start ?L (unat count) \<le> q \<and> q < ?start \<and> q mod ?L = p mod ?L)"
          using window gap_in_window [OF _ _ last_le cnt] le 3 by fastforce
        have "mem ! sample_address ?S ?L channel p b = sample_byte d channel p b"
        proof (rule filled_samples(2) [OF geo ok sl fill refl ch b])
          fix k
          assume "k < unat count"
          then show "p mod ?L \<noteq> (?start + k) mod ?L"
            using 3 p last_le le by (intro mod_neq_of_close) auto
        qed
        then show ?thesis
          using 3 p last_le s' samples [OF ch b p(1) 3] le unfolding mem2 [OF ch b] if_not_P [OF no]
          by (simp add: filled_log_def)
      qed
    qed
    moreover have "cont_geometry d'" "writer_of w' d'"
      using geo w len skip(2) by (simp_all add: cont_geometry_def cont_sizes fields writer_of_def channelCount_def channelBufferLength_def)
    moreover have "channel_number d' = channel_number d" "word_size d' = ?S" "ring_length d' = ?L"
      by (simp_all add: cont_sizes fields)
    ultimately show ?thesis
      using index by (auto simp: cont_log_def)
  qed
  then show ?thesis
    using op by blast
qed

section \<open>Reading\<close>

definition reader_of :: "PosixContinuousFlowReader \<Rightarrow> ContinuousFlowData \<Rightarrow> bool" where
  "reader_of r d \<longleftrightarrow> cr_channelCount r = channelCount d \<and> cr_bufferLength r = channelBufferLength d"

text \<open>The positions a reader is given: half a ring length up to the head.\<close>

lemma getSamplesImpl_OK:
  assumes "reader_of r d" "getSamplesImpl index count want r d = Ret (MXL_STATUS_OK, out)"
  shows "index \<le> headIndex (cd_runtime d)" "count \<le> index"
    and "unat (headIndex (cd_runtime d)) \<le> unat index - unat count + ring_length d div 2"
    and "want \<Longrightarrow> map_ret Some (wrapped_slices (cd_sampleWordSize d) (channelCount d) (channelBufferLength d) index count) = Ret out"
proof -
  let ?h = "headIndex (cd_runtime d)" and ?half = "channelBufferLength d div 2"
  define m where "m = (if ?h \<ge> ?half then ?h - ?half else 0)"
  have b: "cr_bufferLength r = channelBufferLength d" "cr_channelCount r = channelCount d"
    using assms(1) by (simp_all add: reader_of_def)
  have ok: "index \<le> ?h" "m \<le> index" "count \<le> index - m"
    using assms(2) by (auto simp: getSamplesImpl_def Let_def b m_def split: if_splits)
  have m: "unat ?h \<le> unat m + ring_length d div 2"
    by (auto simp: m_def unat_minus_le unat_div word_le_nat_alt)
  have "unat (index - m) = unat index - unat m"
    using ok(2) by (rule unat_minus_le)
  then show "index \<le> ?h" "count \<le> index" "unat ?h \<le> unat index - unat count + ring_length d div 2"
    using ok m by (auto simp: word_le_nat_alt)
  show "map_ret Some (wrapped_slices (cd_sampleWordSize d) (channelCount d) (channelBufferLength d) index count) = Ret out"
    if want
    using assms(2) that ok unfolding getSamplesImpl_def Let_def b m_def [symmetric]
    by (cases "wrapped_slices (cd_sampleWordSize d) (channelCount d) (channelBufferLength d) index count") auto
qed

text \<open>
  C8: A successful read of a range of at least one sample gives slices through which the reader finds
  exactly the samples of the log: byte \<open>b\<close> of the \<open>k\<close>-th sample of a channel is that of the sample at
  \<open>index - count + k\<close>.
\<close>

theorem reader_sees_samples:
  assumes log: "cont_log first f w d" and r: "reader_of r d"
    and read: "getSamplesImpl index count True r d = Ret (MXL_STATUS_OK, Some sl)"
    and count: "0 < unat count" and fits: "unat index + ring_length d < 2 ^ 64"
    and first: "first \<le> unat index - unat count"
    and ch: "channel < channel_number d" and k: "k < unat count" and b: "b < word_size d"
  shows "cd_channels d ! slice_address sl channel (k * word_size d + b) = f channel (unat index - unat count + k) b"
proof -
  note ok = getSamplesImpl_OK [OF r read]
  have geo: "cont_geometry d" and head: "headIndex (cd_runtime d) = cw_lastCommittedIndex w"
    and samples: "\<And>channel p b. channel < channel_number d \<Longrightarrow> b < word_size d \<Longrightarrow> first \<le> p \<Longrightarrow>
        p < unat (cw_lastCommittedIndex w) \<Longrightarrow> unat (cw_lastCommittedIndex w) \<le> p + ring_length d \<Longrightarrow>
        sample_byte d channel p b = f channel p b"
    using log by (simp_all add: cont_log_def)
  have le: "unat index \<le> unat (cw_lastCommittedIndex w)" "unat count \<le> unat index"
    "unat (cw_lastCommittedIndex w) \<le> unat index - unat count + ring_length d div 2"
    using ok(1-3) by (simp_all add: head word_le_nat_alt)
  then have "unat count \<le> ring_length d"
    by linarith
  then have range: "range_ok (cd_sampleWordSize d) (channelBufferLength d) index count"
    using geo stride_fits [OF geo] fits count ok(2) by (simp add: range_ok_def cont_geometry_def word_size_def)
  have "wrapped_slices (cd_sampleWordSize d) (channelCount d) (channelBufferLength d) index count = Ret sl"
    using ok(4) by (simp add: res_simps)
  then have "slice_address sl channel (k * word_size d + b) =
      sample_address (word_size d) (ring_length d) channel (unat index - unat count + k) b"
    using slices_cover_range [OF range, of "channelCount d"] k b by (auto simp: word_size_def)
  moreover have "sample_byte d channel (unat index - unat count + k) b = f channel (unat index - unat count + k) b"
    using le k first by (intro samples [OF ch b]) auto
  ultimately show ?thesis
    by (simp add: sample_byte_def)
qed


section \<open>Batches\<close>

text \<open>
  Readers are not kept waiting beyond a batch: after a commit that does not signal in the current
  batch, one more commit of at most the commit batch size still ends within that batch.
\<close>

theorem unsignalled_leaves_room:
  assumes w: "PosixContinuousFlowWriter_ctor True d = Ret w0"
    and same: "cw_syncBatchSize w = cw_syncBatchSize w0" "cw_earlySyncThreshold w = cw_earlySyncThreshold w0"
    and sig: "signalCompletedBatch head w = Ret (False, w')"
    and batch: "cw_lastSyncSampleBatch w \<le> head div ucast (cw_syncBatchSize w)"
    and hint: "max (cc_maxCommitBatchSizeHint (cd_common d)) 1 \<le> max (cc_maxSyncBatchSizeHint (cd_common d)) 1"
    and commit: "n \<le> unat (max (cc_maxCommitBatchSizeHint (cd_common d)) 1)"
  shows "unat head + n \<le> (unat head div unat (cw_syncBatchSize w) + 1) * unat (cw_syncBatchSize w)"
proof -
  let ?s = "cw_syncBatchSize w" and ?c = "max (cc_maxCommitBatchSizeHint (cd_common d)) 1"
  have s: "?s = max (cc_maxSyncBatchSizeHint (cd_common d)) 1" and e: "cw_earlySyncThreshold w = ?s - ?c"
    using w same hint by (auto simp: PosixContinuousFlowWriter_ctor_def Let_def)
  have "\<not> head mod ucast ?s > ucast (cw_earlySyncThreshold w)"
    using sig batch by (auto simp: signalCompletedBatch_def Let_def split: if_splits)
  then have "unat head mod unat ?s \<le> unat (?s - ?c)"
    by (simp add: word_less_nat_alt unat_mod e not_less)
  also have "\<dots> = unat ?s - unat ?c"
    using hint unfolding s by (rule unat_minus_le)
  finally have "unat head mod unat ?s + n \<le> unat ?s"
    using hint commit unfolding s by (simp add: word_le_nat_alt)
  then show ?thesis
    using div_mult_mod_eq [of "unat head" "unat ?s"] unfolding add_mult_distrib mult_1 by linarith
qed

text \<open>
  A commit of samples leaves the time of the last write as it was, whatever the clock says, while the
  commits of grains and events set it.
\<close>

theorem commit_samples_keeps_write_time:
  assumes "commit_samples w d = Ret (st, w', d')"
  shows "lastWriteTime (cd_runtime d') = lastWriteTime (cd_runtime d)"
proof -
  have "cd_runtime x = cd_runtime d" if "clear_skipped w d = Ret x" for x
    using that by (auto simp: clear_skipped_def Let_def res_simps split: if_splits)
  then show ?thesis
    using assms by (auto simp: commit_samples_def Let_def res_simps split: if_splits)
qed

text \<open>
  Opening an empty range is accepted, and its slices are not empty: the first fragment reaches from
  the range to the end of the ring, and the size of the second is the wrapped-around negative of it.
\<close>

theorem empty_range_slices:
  assumes "0 < unat L" and "unat index + unat L < 2 ^ 64"
  shows "\<exists>sl. wrapped_slices 1 channels L index 0 = Ret sl \<and>
    unat (bs_size (ws_first sl)) = unat L - unat index mod unat L \<and>
    bs_size (ws_second sl) = - bs_size (ws_first sl)"
proof -
  have s: "unat ((index + L - 0) mod L) = unat index mod unat L"
    using ring_offset_nat [OF assms, of 0] by simp
  then have eq: "(index + L) mod L = index mod L"
    by (simp add: word_eq_unat unat_mod)
  have "unat (L - index mod L) = unat L - unat index mod unat L"
    using assms by (subst unat_minus_le) (auto simp: word_le_nat_alt unat_mod intro: less_imp_le)
  then show ?thesis
    using assms(1) eq by (auto simp: wrapped_slices_def Let_def)
qed

section \<open>Opening the channel buffers\<close>

text \<open>
  When the number of samples of all channels fits in 32 bits and the file is mapped with the size
  that was asked for, the opened buffers have a consistent geometry.
\<close>

theorem openChannelBuffers_geometry:
  assumes op: "openChannelBuffers created mapping S d = Ret d'" and S: "S \<noteq> 0"
    and map: "\<And>n bs. mapping n = Ret bs \<Longrightarrow> length bs = unat n"
    and fits: "channel_number d * ring_length d < 2 ^ 32" "channel_number d * (unat S * ring_length d) < 2 ^ 64"
  shows "cont_geometry d' \<and> cd_sampleWordSize d' = S \<and> cd_config d' = cd_config d"
proof -
  let ?n = "cf_channelCount (cd_config d) * cf_bufferLength (cd_config d)"
  have n: "unat ?n = channel_number d * ring_length d"
    using fits(1) by (simp add: unat_word_ariths cont_sizes)
  have m: "unat (ucast ?n * S) = channel_number d * ring_length d * unat S"
    using fits(2) n by (subst unat_small_mult) (simp_all add: ac_simps)
  obtain bs where bs: "mapping (ucast ?n * S) = Ret bs" and pos: "?n > 0"
    and d': "d' = d\<lparr>cd_channels := bs, cd_sampleWordSize := S\<rparr>"
    using op S by (auto simp: openChannelBuffers_def Let_def res_simps split: if_splits)
  have "0 < channel_number d * ring_length d" "0 < unat S"
    using pos n S by (auto simp: word_less_nat_alt unat_gt_0)
  moreover have "length bs = channel_number d * (unat S * ring_length d)"
    using map [OF bs] m by simp
  ultimately show ?thesis
    using fits(2) by (simp add: d' cont_geometry_def cont_sizes)
qed

text \<open>
  When that product does not fit in 32 bits it wraps around, and the flow is opened with buffers that
  are too small: 65537 channels of 65536 samples are given the memory of a single channel.
\<close>

theorem openChannelBuffers_wraps:
  assumes "cf_channelCount (cd_config d) = 65537" and "cf_bufferLength (cd_config d) = 65536"
  shows "\<exists>d'. openChannelBuffers True (\<lambda>n. Ret (replicate (unat n) 0)) 4 d = Ret d' \<and>
    length (cd_channels d') = 4 * 65536 \<and> cd_config d' = cd_config d \<and>
    \<not> cont_geometry d'"
  using assms by (auto simp: openChannelBuffers_def Let_def cont_geometry_def cont_sizes)

section \<open>Examples\<close>

definition sample_cont :: "u64 \<Rightarrow> u8 list \<Rightarrow> ContinuousFlowData" where
  "sample_cont head mem =
     \<lparr>cd_common = \<lparr>cc_id = replicate 16 0, cc_format = 2, cc_flags = 0,
        cc_grainRate = \<lparr>numerator = 48000, denominator = 1\<rparr>, cc_maxCommitBatchSizeHint = 2,
        cc_maxSyncBatchSizeHint = 4, cc_payloadLocation = MXL_PAYLOAD_LOCATION_HOST_MEMORY, cc_deviceIndex = - 1\<rparr>,
      cd_config = \<lparr>cf_channelCount = 1, cf_bufferLength = 4\<rparr>,
      cd_runtime = \<lparr>headIndex = head, lastWriteTime = 0, lastReadTime = 0\<rparr>,
      cd_state = \<lparr>fs_inode = 9, fs_syncCounter = 0\<rparr>, cd_sampleWordSize = 2, cd_channels = mem\<rparr>"

definition sample_cont_writer :: "u64 \<Rightarrow> PosixContinuousFlowWriter" where
  "sample_cont_writer committed =
     \<lparr>cw_channelCount = 1, cw_bufferLength = 4, cw_currentIndex = MXL_UNDEFINED_INDEX, cw_currentCount = 0,
      cw_lastCommittedIndex = committed, cw_syncBatchSize = 4, cw_earlySyncThreshold = 2, cw_lastSyncSampleBatch = 1\<rparr>"

definition sample_cont_reader :: PosixContinuousFlowReader where
  "sample_cont_reader = \<lparr>cr_channelCount = 1, cr_bufferLength = 4\<rparr>"

lemma sample_cont_sizes [simp]:
  "word_size (sample_cont h m) = 2" "ring_length (sample_cont h m) = 4" "channel_number (sample_cont h m) = 1"
  "cd_sampleWordSize (sample_cont h m) = 2" "channelBufferLength (sample_cont h m) = 4"
  "channelCount (sample_cont h m) = 1" "cd_channels (sample_cont h m) = m"
  "headIndex (cd_runtime (sample_cont h m)) = h" "(sample_cont h m)\<lparr>cd_channels := m'\<rparr> = sample_cont h m'"
  by (simp_all add: cont_sizes sample_cont_def channelBufferLength_def channelCount_def)

lemma sample_reader_of: "reader_of sample_cont_reader (sample_cont h m)"
  by (simp add: reader_of_def sample_cont_reader_def)

lemma sample_cont_log:
  "cont_log 0 (sample_byte (sample_cont 4 [0, 1, 2, 3, 4, 5, 6, 7])) (sample_cont_writer 4)
     (sample_cont 4 [0, 1, 2, 3, 4, 5, 6, 7])"
  by (simp add: cont_log_def cont_geometry_def writer_of_def sample_cont_writer_def MXL_UNDEFINED_INDEX_def)

lemma sample_range_ok: "range_ok 2 4 6 2" "range_ok 2 4 4 2"
  by (simp_all add: range_ok_def)

lemma all_less_4: "(\<forall>j < 4. P j) \<longleftrightarrow> P 0 \<and> P 1 \<and> P 2 \<and> P (3 :: nat)"
  by (simp add: numeral_eq_Suc All_less_Suc conj_ac)

lemma all_less_8: "(\<forall>j < 8. P j) \<longleftrightarrow> P 0 \<and> P 1 \<and> P 2 \<and> P 3 \<and> P 4 \<and> P 5 \<and> P 6 \<and> P (7 :: nat)"
  by (simp add: numeral_eq_Suc All_less_Suc conj_ac)

theorem slices_cover_range_witness:
  "\<exists>sl. wrapped_slices 2 1 4 6 2 = Ret sl \<and> slice_address sl 0 (1 * 2 + 1) = sample_address 2 4 0 5 1"
proof -
  obtain sl where sl: "wrapped_slices 2 1 4 6 2 = Ret sl"
    and addr: "\<And>channel k b. k < unat (2 :: u64) \<Longrightarrow> b < unat (2 :: u64) \<Longrightarrow> slice_address sl channel (k * unat (2 :: u64) + b) =
         sample_address (unat (2 :: u64)) (unat (4 :: u64)) channel (unat (6 :: u64) - unat (2 :: u64) + k) b"
    using slices_cover_range [OF sample_range_ok(1), of 1] by blast
  then show ?thesis
    using addr [of 1 1 0] by simp
qed

theorem write_samples_extends_log_witness:
  "\<exists>sl w1 w' d'. openSamples 6 2 (sample_cont_writer 4) (sample_cont 4 [0, 1, 2, 3, 4, 5, 6, 7]) = Ret (MXL_STATUS_OK, Some sl, w1) \<and>
     client_filled sl (\<lambda>channel j. of_nat (j + 10)) [0, 1, 2, 3, 4, 5, 6, 7] [10, 11, 12, 13, 4, 5, 6, 7] \<and>
     commit_samples w1 (sample_cont 4 [10, 11, 12, 13, 4, 5, 6, 7]) = Ret (MXL_STATUS_OK, w', d') \<and>
     cw_lastCommittedIndex w' = 6"
proof -
  let ?d = "sample_cont 4 [0, 1, 2, 3, 4, 5, 6, 7]"
  let ?sl = "\<lparr>ws_first = \<lparr>bs_pointer = 0, bs_size = 4\<rparr>, ws_second = \<lparr>bs_pointer = 0, bs_size = 0\<rparr>, ws_stride = 8, ws_count = 1\<rparr>"
  have half: "2 \<le> channelBufferLength ?d div 2" "cw_lastCommittedIndex (sample_cont_writer 4) \<le> 6 - 2"
    "(6 :: u64) \<noteq> MXL_UNDEFINED_INDEX"
    by (simp_all add: sample_cont_writer_def MXL_UNDEFINED_INDEX_def)
  have range: "range_ok (cd_sampleWordSize ?d) (channelBufferLength ?d) 6 2"
    using sample_range_ok by simp
  obtain sl w1 where op: "openSamples 6 2 (sample_cont_writer 4) ?d = Ret (MXL_STATUS_OK, Some sl, w1)"
    and all: "\<And>data mem. client_filled sl data (cd_channels ?d) mem \<Longrightarrow>
      \<exists>w' d'. commit_samples w1 (?d\<lparr>cd_channels := mem\<rparr>) = Ret (MXL_STATUS_OK, w', d') \<and> cw_lastCommittedIndex w' = 6"
    using write_samples_extends_log [OF sample_cont_log range half] by blast
  have "openSamples 6 2 (sample_cont_writer 4) ?d = Ret (MXL_STATUS_OK, Some ?sl,
      (sample_cont_writer 4)\<lparr>cw_currentIndex := 6, cw_currentCount := 2\<rparr>)"
    by (simp add: openSamples_def sample_cont_writer_def wrapped_slices_def MXL_UNDEFINED_INDEX_def)
  then have sl: "sl = ?sl"
    using op by simp
  have filled: "client_filled ?sl (\<lambda>channel j. of_nat (j + 10)) (cd_channels ?d) [10, 11, 12, 13, 4, 5, 6, 7]"
    by (simp add: client_filled_def slice_address_def Let_def all_less_4 all_less_8)
  show ?thesis
    using all [OF filled [folded sl]] op filled sl by auto
qed

theorem reader_sees_samples_witness:
  "\<exists>sl. getSamplesImpl 4 2 True sample_cont_reader (sample_cont 4 [0, 1, 2, 3, 4, 5, 6, 7]) = Ret (MXL_STATUS_OK, Some sl) \<and>
     [0, 1, 2, 3, 4, 5, 6, 7] ! slice_address sl 0 3 = sample_byte (sample_cont 4 [0, 1, 2, 3, 4, 5, 6, 7]) 0 3 1"
proof -
  let ?d = "sample_cont 4 [0, 1, 2, 3, 4, 5, 6, 7]"
  obtain sl where sl: "getSamplesImpl 4 2 True sample_cont_reader ?d = Ret (MXL_STATUS_OK, Some sl)"
    by (simp add: getSamplesImpl_def sample_cont_reader_def wrapped_slices_def)
  have "cd_channels ?d ! slice_address sl 0 (1 * word_size ?d + 1) = sample_byte ?d 0 (unat (4 :: u64) - unat (2 :: u64) + 1) 1"
    by (rule reader_sees_samples [OF sample_cont_log sample_reader_of sl]) simp_all
  then show ?thesis
    using sl by (simp add: numeral_3_eq_3)
qed


theorem unsignalled_leaves_room_witness:
  "unat (6 :: u64) + 2 \<le> (unat (6 :: u64) div 4 + 1) * 4"
proof -
  let ?d = "sample_cont 4 [0, 1, 2, 3, 4, 5, 6, 7]"
  obtain w0 where w0: "PosixContinuousFlowWriter_ctor True ?d = Ret w0"
    by (simp add: PosixContinuousFlowWriter_ctor_def Let_def)
  then have same: "cw_syncBatchSize w0 = 4" "cw_earlySyncThreshold w0 = 2"
    by (auto simp: PosixContinuousFlowWriter_ctor_def Let_def sample_cont_def)
  let ?w = "sample_cont_writer 4"
  have sig: "signalCompletedBatch 6 ?w = Ret (False, ?w)"
    by (simp add: signalCompletedBatch_def sample_cont_writer_def Let_def)
  have "unat (6 :: u64) + 2 \<le> (unat (6 :: u64) div unat (cw_syncBatchSize ?w) + 1) * unat (cw_syncBatchSize ?w)"
    by (rule unsignalled_leaves_room [OF w0 _ _ sig])
      (simp_all add: same sample_cont_writer_def sample_cont_def)
  then show ?thesis
    by (simp add: sample_cont_writer_def)
qed

theorem commit_samples_keeps_write_time_witness:
  "\<exists>w' d'. commit_samples (sample_cont_writer 4) (sample_cont 4 []) = Ret (MXL_ERR_INVALID_ARG, w', d') \<and>
     lastWriteTime (cd_runtime d') = 0"
proof -
  have "commit_samples (sample_cont_writer 4) (sample_cont 4 []) = Ret (MXL_ERR_INVALID_ARG, sample_cont_writer 4, sample_cont 4 [])"
    by (simp add: commit_samples_def sample_cont_writer_def)
  from commit_samples_keeps_write_time [OF this] this show ?thesis
    by (simp add: sample_cont_def)
qed

theorem empty_range_slices_witness:
  "\<exists>sl. wrapped_slices 1 1 4 6 0 = Ret sl \<and> unat (bs_size (ws_first sl)) = 2"
  using empty_range_slices [of 4 6 1] by auto

theorem openChannelBuffers_geometry_witness:
  "\<exists>d'. openChannelBuffers True (\<lambda>n. Ret (replicate (unat n) 0)) 2 (sample_cont 4 []) = Ret d' \<and> cont_geometry d'"
proof -
  obtain d' where d': "openChannelBuffers True (\<lambda>n. Ret (replicate (unat n) 0)) 2 (sample_cont 4 []) = Ret d'"
    by (simp add: openChannelBuffers_def Let_def sample_cont_def)
  have "cont_geometry d' \<and> cd_sampleWordSize d' = 2 \<and> cd_config d' = cd_config (sample_cont 4 [])"
    by (rule openChannelBuffers_geometry [OF d']) auto
  then show ?thesis
    using d' by blast
qed

theorem openChannelBuffers_wraps_witness:
  "\<exists>d'. openChannelBuffers True (\<lambda>n. Ret (replicate (unat n) 0)) 4
      ((sample_cont 4 [])\<lparr>cd_config := \<lparr>cf_channelCount = 65537, cf_bufferLength = 65536\<rparr>\<rparr>) = Ret d' \<and> \<not> cont_geometry d'"
  using openChannelBuffers_wraps [of "(sample_cont 4 [])\<lparr>cd_config := \<lparr>cf_channelCount = 65537, cf_bufferLength = 65536\<rparr>\<rparr>"]
  by auto

end
