(* ===== verification/DiscreteFlow.thy ===== *)
theory DiscreteFlow
  imports EventFlow
begin

text \<open>
  Discrete flows (video and data grains): the ring of grains (\<^verbatim>\<open>DiscreteFlowData.hpp\<close>), the writer that
  opens, cancels and commits grains and invalidates the grains it skips (\<^verbatim>\<open>PosixDiscreteFlowWriter.cpp\<close>),
  and the reader with its window and its blocking loop (\<^verbatim>\<open>PosixDiscreteFlowReader.cpp\<close>).
\<close>

section \<open>The grains\<close>

record Grain =
  gr_info :: mxlGrainInfo
  gr_payload :: "u8 list"

record DiscreteFlowData =
  dd_config :: mxlDiscreteFlowConfigInfo
  dd_runtime :: mxlFlowRuntimeInfo
  dd_state :: FlowState
  dd_grains :: "Grain list"

definition grainAt :: "DiscreteFlowData \<Rightarrow> u64 \<Rightarrow> Grain option" where
  "grainAt d i = (if unat i < length (dd_grains d) then Some (dd_grains d ! unat i) else None)"

text \<open>A store through the pointer that \<^verbatim>\<open>grainAt\<close> returns; a null pointer is undefined behaviour.\<close>

definition update_grain :: "u64 \<Rightarrow> (Grain \<Rightarrow> Grain) \<Rightarrow> DiscreteFlowData \<Rightarrow> DiscreteFlowData res" where
  "update_grain i f d =
     (case grainAt d i of
        None \<Rightarrow> Undef
      | Some g \<Rightarrow> Ret (d\<lparr>dd_grains := (dd_grains d)[unat i := f g]\<rparr>))"

definition grain_count :: "DiscreteFlowData \<Rightarrow> u64" where
  "grain_count d = ucast (dc_grainCount (dd_config d))"

text \<open>\<^verbatim>\<open>index % grainCount\<close>; a zero divisor is undefined behaviour.\<close>

definition grain_offset :: "DiscreteFlowData \<Rightarrow> u64 \<Rightarrow> u64 res" where
  "grain_offset d index = (if grain_count d = 0 then Undef else Ret (index mod grain_count d))"

text \<open>
  \<open>mapped\<close> is the grain's mapping; an existing one has to carry the supported header version.
\<close>

definition emplaceGrain :: "bool \<Rightarrow> Grain \<Rightarrow> DiscreteFlowData \<Rightarrow> DiscreteFlowData res" where
  "emplaceGrain created mapped d =
     (if \<not> created \<and> gi_version (gr_info mapped) \<noteq> GRAIN_HEADER_VERSION then Throw InvalidArgument
      else Ret (d\<lparr>dd_grains := dd_grains d @ [mapped]\<rparr>))"

section \<open>The reader\<close>

text \<open>A read gives a status and, on success, the grain's metadata and its payload.\<close>

definition getGrainImpl :: "u64 \<Rightarrow> u16 \<Rightarrow> DiscreteFlowData \<Rightarrow> (mxlStatus \<times> Grain option) res" where
  "getGrainImpl in_index in_minValidSlices d =
     (let head = headIndex (dd_runtime d)
      in if in_index \<le> head then
           let grainCount = grain_count d;
               minIndex = (if head \<ge> grainCount then head - grainCount + 2 else 0)
           in if in_index \<ge> minIndex then
                bind_res (grain_offset d in_index) (\<lambda>offset.
                  case grainAt d offset of
                    None \<Rightarrow> Undef
                  | Some grain \<Rightarrow>
                      if gi_validSlices (gr_info grain) \<ge> min in_minValidSlices (gi_totalSlices (gr_info grain)) \<or>
                         gi_flags (gr_info grain) AND MXL_GRAIN_FLAG_INVALID \<noteq> 0
                      then Ret (MXL_STATUS_OK, Some grain)
                      else Ret (MXL_ERR_OUT_OF_RANGE_TOO_EARLY, None))
              else Ret (MXL_ERR_OUT_OF_RANGE_TOO_LATE, None)
         else Ret (MXL_ERR_OUT_OF_RANGE_TOO_EARLY, None))"

text \<open>
  The blocking read: each round looks at the flow and, when it is too early, waits; the list gives the
  flow of each round and the result of \<^verbatim>\<open>waitUntilChanged\<close>.
\<close>

fun getGrainImpl_until ::
  "u64 \<Rightarrow> u16 \<Rightarrow> (DiscreteFlowData \<times> bool) list \<Rightarrow> (mxlStatus \<times> Grain option) res option" where
  "getGrainImpl_until in_index in_minValidSlices [] = None"
| "getGrainImpl_until in_index in_minValidSlices ((d, changed) # obs) =
     (case getGrainImpl in_index in_minValidSlices d of
        Ret (result, out) \<Rightarrow>
          (if result \<noteq> MXL_ERR_OUT_OF_RANGE_TOO_EARLY \<or> \<not> changed then Some (Ret (result, out))
           else getGrainImpl_until in_index in_minValidSlices obs)
      | Throw e \<Rightarrow> Some (Throw e)
      | Undef \<Rightarrow> Some Undef)"

text \<open>A result that is too early is turned into an invalid flow when the data file has been replaced.\<close>

definition check_stale :: "u64 option \<Rightarrow> FlowState \<Rightarrow> mxlStatus \<times> 'a option \<Rightarrow> mxlStatus \<times> 'a option" where
  "check_stale st state r =
     (if fst r = MXL_ERR_OUT_OF_RANGE_TOO_EARLY \<and> \<not> isFlowValidImpl st state
      then (MXL_ERR_FLOW_INVALID, snd r) else r)"

definition waitForGrain ::
  "u64 \<Rightarrow> u16 \<Rightarrow> (DiscreteFlowData \<times> bool) list \<Rightarrow> u64 option \<Rightarrow> FlowState \<Rightarrow> mxlStatus res option" where
  "waitForGrain in_index in_minValidSlices obs st state =
     map_option (map_ret (\<lambda>r. fst (check_stale st state r))) (getGrainImpl_until in_index in_minValidSlices obs)"

definition getGrain_until ::
  "u64 \<Rightarrow> u16 \<Rightarrow> (DiscreteFlowData \<times> bool) list \<Rightarrow> u64 option \<Rightarrow> FlowState \<Rightarrow> (mxlStatus \<times> Grain option) res option" where
  "getGrain_until in_index in_minValidSlices obs st state =
     map_option (map_ret (check_stale st state)) (getGrainImpl_until in_index in_minValidSlices obs)"

definition getGrain :: "u64 \<Rightarrow> u16 \<Rightarrow> DiscreteFlowData \<Rightarrow> u64 option \<Rightarrow> (mxlStatus \<times> Grain option) res" where
  "getGrain in_index in_minValidSlices d st =
     map_ret (check_stale st (dd_state d)) (getGrainImpl in_index in_minValidSlices d)"

section \<open>The writer\<close>

record PosixDiscreteFlowWriter =
  dw_currentIndex :: u64
  dw_lastCommittedIndex :: u64

definition PosixDiscreteFlowWriter_ctor :: PosixDiscreteFlowWriter where
  "PosixDiscreteFlowWriter_ctor =
     \<lparr>dw_currentIndex = MXL_UNDEFINED_INDEX, dw_lastCommittedIndex = MXL_UNDEFINED_INDEX\<rparr>"

definition getGrainInfo :: "u64 \<Rightarrow> DiscreteFlowData \<Rightarrow> mxlGrainInfo res" where
  "getGrainInfo in_index d =
     bind_res (grain_offset d in_index) (\<lambda>offset.
       case grainAt d offset of None \<Rightarrow> Undef | Some grain \<Rightarrow> Ret (gr_info grain))"

definition invalid_info :: "u64 \<Rightarrow> mxlGrainInfo \<Rightarrow> mxlGrainInfo" where
  "invalid_info index info =
     info\<lparr>gi_index := index, gi_validSlices := 0, gi_flags := gi_flags info OR MXL_GRAIN_FLAG_INVALID\<rparr>"

definition invalidate_grain :: "u64 \<Rightarrow> DiscreteFlowData \<Rightarrow> DiscreteFlowData res" where
  "invalidate_grain missingIndex d =
     bind_res (grain_offset d missingIndex) (\<lambda>missingOffset.
       update_grain missingOffset (\<lambda>g. g\<lparr>gr_info := invalid_info missingIndex (gr_info g)\<rparr>) d)"

function invalidate_loop :: "u64 \<Rightarrow> u64 \<Rightarrow> DiscreteFlowData \<Rightarrow> DiscreteFlowData res" where
  "invalidate_loop missingIndex in_index d =
     (if missingIndex < in_index then
        bind_res (invalidate_grain missingIndex d) (\<lambda>d. invalidate_loop (missingIndex + 1) in_index d)
      else Ret d)"
  by pat_completeness auto
termination
proof (relation "measure (\<lambda>(missing, upto, d). unat upto - unat missing)")
  fix missing upto :: u64 and d x
  assume "missing < upto"
  then have "unat (missing + 1) = unat missing + 1"
    using unat_u64_less [of upto] by (subst unat_plus_fits) (auto simp: word_less_nat_alt)
  then show "((missing + 1, upto, x), (missing, upto, d)) \<in> measure (\<lambda>(missing, upto, d). unat upto - unat missing)"
    using \<open>missing < upto\<close> by (simp add: word_less_nat_alt)
qed simp

declare invalidate_loop.simps [simp del]

definition reset_info :: "u64 \<Rightarrow> mxlGrainInfo \<Rightarrow> mxlGrainInfo" where
  "reset_info index info =
     (if gi_index info \<noteq> index
      then info\<lparr>gi_index := index, gi_flags := gi_flags info AND NOT MXL_GRAIN_FLAG_INVALID, gi_validSlices := 0\<rparr>
      else info)"

definition skipped_first :: "u64 \<Rightarrow> u64 \<Rightarrow> u64 \<Rightarrow> u64" where
  "skipped_first in_index lastCommitted grainCount =
     (let skippedCount = in_index - lastCommitted - 1;
          invalidatedCount = min skippedCount grainCount
      in in_index - invalidatedCount)"

definition openGrain ::
  "u64 \<Rightarrow> PosixDiscreteFlowWriter \<Rightarrow> DiscreteFlowData
    \<Rightarrow> (mxlStatus \<times> Grain option \<times> PosixDiscreteFlowWriter \<times> DiscreteFlowData) res" where
  "openGrain in_index w d =
     (let lastCommitted = dw_lastCommittedIndex w
      in if lastCommitted \<noteq> MXL_UNDEFINED_INDEX \<and> in_index \<le> lastCommitted
         then Ret (MXL_ERR_INVALID_ARG, None, w, d)
         else bind_res
           (if lastCommitted \<noteq> MXL_UNDEFINED_INDEX \<and> in_index > lastCommitted + 1
            then invalidate_loop (skipped_first in_index lastCommitted (grain_count d)) in_index d
            else Ret d) (\<lambda>d.
         bind_res (grain_offset d in_index) (\<lambda>offset.
         bind_res (update_grain offset (\<lambda>g. g\<lparr>gr_info := reset_info in_index (gr_info g)\<rparr>) d) (\<lambda>d.
         Ret (MXL_STATUS_OK, grainAt d offset, w\<lparr>dw_currentIndex := in_index\<rparr>, d)))))"

definition cancel_grain :: "PosixDiscreteFlowWriter \<Rightarrow> mxlStatus \<times> PosixDiscreteFlowWriter" where
  "cancel_grain w = (MXL_STATUS_OK, w\<lparr>dw_currentIndex := MXL_UNDEFINED_INDEX\<rparr>)"

text \<open>\<open>now\<close> is the value of \<^verbatim>\<open>currentTime(Clock::TAI)\<close> at the call.\<close>

definition commit_grain ::
  "u64 \<Rightarrow> mxlGrainInfo \<Rightarrow> PosixDiscreteFlowWriter \<Rightarrow> DiscreteFlowData
    \<Rightarrow> (mxlStatus \<times> PosixDiscreteFlowWriter \<times> DiscreteFlowData) res" where
  "commit_grain now info w d =
     (if gi_index info \<noteq> dw_currentIndex w then Ret (MXL_ERR_INVALID_ARG, w, d)
      else let d = d\<lparr>dd_runtime := (dd_runtime d)\<lparr>headIndex := dw_currentIndex w\<rparr>\<rparr>
           in bind_res (grain_offset d (dw_currentIndex w)) (\<lambda>offset.
              bind_res (update_grain offset (\<lambda>g. g\<lparr>gr_info := info\<rparr>) d) (\<lambda>d.
              let d = d\<lparr>dd_runtime := (dd_runtime d)\<lparr>lastWriteTime := now\<rparr>,
                        dd_state := (dd_state d)\<lparr>fs_syncCounter := fs_syncCounter (dd_state d) + 1\<rparr>\<rparr>;
                  w = (if gi_validSlices info = gi_totalSlices info
                       then w\<lparr>dw_currentIndex := MXL_UNDEFINED_INDEX, dw_lastCommittedIndex := gi_index info\<rparr>
                       else w)
              in Ret (MXL_STATUS_OK, w, d))))"

section \<open>The ring of grains\<close>

definition disc_geometry :: "DiscreteFlowData \<Rightarrow> bool" where
  "disc_geometry d \<longleftrightarrow> 0 < unat (dc_grainCount (dd_config d)) \<and>
     length (dd_grains d) = unat (dc_grainCount (dd_config d))"

text \<open>The grain in whose slot an index falls.\<close>

definition grain_of :: "DiscreteFlowData \<Rightarrow> nat \<Rightarrow> Grain" where
  "grain_of d k = dd_grains d ! (k mod length (dd_grains d))"

definition set_grain :: "nat \<Rightarrow> Grain \<Rightarrow> DiscreteFlowData \<Rightarrow> DiscreteFlowData" where
  "set_grain k g d = d\<lparr>dd_grains := (dd_grains d)[k mod length (dd_grains d) := g]\<rparr>"

lemma unat_grain_count [simp]: "unat (grain_count d) = unat (dc_grainCount (dd_config d))"
  by (simp add: grain_count_def)

lemma disc_count_pos: "disc_geometry d \<Longrightarrow> 0 < length (dd_grains d)"
  by (auto simp: disc_geometry_def)

lemma grain_offset_ok:
  "disc_geometry d \<Longrightarrow> grain_offset d i = Ret (i mod grain_count d)"
  by (auto simp: grain_offset_def disc_geometry_def word_eq_unat)

lemma grainAt_ok:
  "disc_geometry d \<Longrightarrow> grainAt d (i mod grain_count d) = Some (grain_of d (unat i))"
  by (simp add: grainAt_def grain_of_def unat_mod disc_geometry_def)

lemma update_grain_ok:
  "disc_geometry d \<Longrightarrow>
     update_grain (i mod grain_count d) f d = Ret (set_grain (unat i) (f (grain_of d (unat i))) d)"
  using grainAt_ok [of d i]
  by (simp add: update_grain_def set_grain_def unat_mod disc_geometry_def)

lemma set_grain_facts [simp]:
  "dd_config (set_grain k g d) = dd_config d"
  "dd_runtime (set_grain k g d) = dd_runtime d"
  "dd_state (set_grain k g d) = dd_state d"
  "length (dd_grains (set_grain k g d)) = length (dd_grains d)"
  "disc_geometry (set_grain k g d) = disc_geometry d"
  "grain_count (set_grain k g d) = grain_count d"
  by (simp_all add: set_grain_def disc_geometry_def grain_count_def)

lemma grain_of_set_grain:
  "disc_geometry d \<Longrightarrow> grain_of (set_grain k g d) j =
     (if k mod length (dd_grains d) = j mod length (dd_grains d) then g else grain_of d j)"
  using disc_count_pos [of d] by (auto simp: grain_of_def set_grain_def nth_list_update)

lemmas disc_ops = grain_offset_ok grainAt_ok update_grain_ok

section \<open>Invalidating skipped grains\<close>

definition grain_invalid :: "nat \<Rightarrow> Grain \<Rightarrow> bool" where
  "grain_invalid k g \<longleftrightarrow> unat (gi_index (gr_info g)) = k \<and> gi_validSlices (gr_info g) = 0 \<and>
     gi_flags (gr_info g) AND MXL_GRAIN_FLAG_INVALID \<noteq> 0"

lemma invalid_flag: "MXL_GRAIN_FLAG_INVALID \<noteq> 0" "(x OR MXL_GRAIN_FLAG_INVALID) AND MXL_GRAIN_FLAG_INVALID \<noteq> 0"
proof -
  show *: "MXL_GRAIN_FLAG_INVALID \<noteq> 0"
    by (simp add: MXL_GRAIN_FLAG_INVALID_def)
  have "(x OR MXL_GRAIN_FLAG_INVALID) AND MXL_GRAIN_FLAG_INVALID = MXL_GRAIN_FLAG_INVALID"
    by (rule bit_word_eqI) (auto simp: bit_and_iff bit_or_iff)
  then show "(x OR MXL_GRAIN_FLAG_INVALID) AND MXL_GRAIN_FLAG_INVALID \<noteq> 0"
    using * by metis
qed

lemma invalid_info_invalid: "grain_invalid (unat i) (g\<lparr>gr_info := invalid_info i (gr_info g)\<rparr>)"
  by (simp add: grain_invalid_def invalid_info_def invalid_flag)

text \<open>The loop touches the slots of the skipped indices, all different, and no others.\<close>

lemma invalidate_loop_effect:
  assumes "disc_geometry d" "first \<le> stop" "unat stop - unat first \<le> length (dd_grains d)"
  shows "\<exists>d'. invalidate_loop first stop d = Ret d' \<and> disc_geometry d' \<and>
    dd_config d' = dd_config d \<and> dd_runtime d' = dd_runtime d \<and> dd_state d' = dd_state d \<and>
    length (dd_grains d') = length (dd_grains d) \<and>
    (\<forall>k. unat first \<le> k \<longrightarrow> k < unat stop \<longrightarrow> grain_invalid k (grain_of d' k)) \<and>
    (\<forall>j. (\<forall>k. unat first \<le> k \<longrightarrow> k < unat stop \<longrightarrow> j mod length (dd_grains d) \<noteq> k mod length (dd_grains d)) \<longrightarrow>
       grain_of d' j = grain_of d j)"
  using assms
proof (induction first stop d rule: invalidate_loop.induct)
  case (1 first stop d)
  show ?case
  proof (cases "first < stop")
    case False
    then show ?thesis
      using "1.prems" by (subst invalidate_loop.simps) (auto simp: word_less_nat_alt)
  next
    case True
    let ?g = "(grain_of d (unat first))\<lparr>gr_info := invalid_info first (gr_info (grain_of d (unat first)))\<rparr>"
    let ?d1 = "set_grain (unat first) ?g d"
    have suc: "unat (first + 1) = unat first + 1"
      using True unat_u64_less [of stop] by (subst unat_plus_fits) (auto simp: word_less_nat_alt)
    have one: "invalidate_grain first d = Ret ?d1"
      using "1.prems"(1) by (simp add: invalidate_grain_def disc_ops)
    have "\<exists>d'. invalidate_loop (first + 1) stop ?d1 = Ret d' \<and> disc_geometry d' \<and>
        dd_config d' = dd_config ?d1 \<and> dd_runtime d' = dd_runtime ?d1 \<and> dd_state d' = dd_state ?d1 \<and>
        length (dd_grains d') = length (dd_grains ?d1) \<and>
        (\<forall>k. unat (first + 1) \<le> k \<longrightarrow> k < unat stop \<longrightarrow> grain_invalid k (grain_of d' k)) \<and>
        (\<forall>j. (\<forall>k. unat (first + 1) \<le> k \<longrightarrow> k < unat stop \<longrightarrow>
             j mod length (dd_grains ?d1) \<noteq> k mod length (dd_grains ?d1)) \<longrightarrow>
           grain_of d' j = grain_of ?d1 j)"
      using "1.prems" True suc by (intro "1.IH") (auto simp: word_less_nat_alt word_le_nat_alt)
    then obtain d' where d': "invalidate_loop (first + 1) stop ?d1 = Ret d'" "disc_geometry d'"
        "dd_config d' = dd_config d" "dd_runtime d' = dd_runtime d" "dd_state d' = dd_state d"
        "length (dd_grains d') = length (dd_grains d)"
      and inv: "\<And>k. unat first + 1 \<le> k \<Longrightarrow> k < unat stop \<Longrightarrow> grain_invalid k (grain_of d' k)"
      and other: "\<And>j. (\<And>k. unat first + 1 \<le> k \<Longrightarrow> k < unat stop \<Longrightarrow>
             j mod length (dd_grains d) \<noteq> k mod length (dd_grains d)) \<Longrightarrow> grain_of d' j = grain_of ?d1 j"
      unfolding suc by auto
    have "grain_of d' (unat first) = ?g"
    proof -
      have "unat first mod length (dd_grains d) \<noteq> k mod length (dd_grains d)"
        if "unat first + 1 \<le> k" "k < unat stop" for k
        using that "1.prems"(3) by (intro mod_neq_of_close) auto
      then show ?thesis
        using other [of "unat first"] grain_of_set_grain [OF "1.prems"(1)] by simp
    qed
    then have "grain_invalid k (grain_of d' k)" if "unat first \<le> k" "k < unat stop" for k
      using that inv [of k] invalid_info_invalid [of first] by (cases "k = unat first") auto
    moreover have "grain_of d' j = grain_of d j"
      if "\<And>k. unat first \<le> k \<Longrightarrow> k < unat stop \<Longrightarrow> j mod length (dd_grains d) \<noteq> k mod length (dd_grains d)" for j
    proof -
      have "j mod length (dd_grains d) \<noteq> unat first mod length (dd_grains d)"
        using that [of "unat first"] True by (simp add: word_less_nat_alt)
      then show ?thesis
        using other [of j] that by (simp add: grain_of_set_grain [OF "1.prems"(1)])
    qed
    ultimately show ?thesis
      using d' True one by (subst invalidate_loop.simps) auto
  qed
qed

section \<open>The window of the reader\<close>

text \<open>The smallest index a reader is given when the head is at \<open>h\<close> and the ring has \<open>n\<close> grains.\<close>

definition window_start :: "nat \<Rightarrow> nat \<Rightarrow> nat" where
  "window_start h n = (if n \<le> h then h - n + 2 else 0)"

lemma minIndex_nat:
  assumes "disc_geometry d" "headIndex (dd_runtime d) \<noteq> MXL_UNDEFINED_INDEX"
  shows "unat (if headIndex (dd_runtime d) \<ge> grain_count d then headIndex (dd_runtime d) - grain_count d + 2 else 0)
    = window_start (unat (headIndex (dd_runtime d))) (length (dd_grains d))"
proof (cases "headIndex (dd_runtime d) \<ge> grain_count d")
  case True
  have n: "unat (grain_count d) = length (dd_grains d)"
    using assms(1) by (simp add: disc_geometry_def)
  have h: "unat (headIndex (dd_runtime d)) < 2 ^ 64 - 1"
    using u64_less_UNDEFINED [OF assms(2)] by (simp add: word_less_nat_alt unat_MXL_UNDEFINED_INDEX)
  have le: "length (dd_grains d) \<le> unat (headIndex (dd_runtime d))" "0 < length (dd_grains d)"
    using True n disc_count_pos [OF assms(1)] by (simp_all add: word_le_nat_alt)
  have "unat (headIndex (dd_runtime d) - grain_count d) = unat (headIndex (dd_runtime d)) - length (dd_grains d)"
    using True n by (simp add: unat_minus_le)
  moreover from this have "unat (headIndex (dd_runtime d) - grain_count d) + unat (2 :: u64) < 2 ^ LENGTH(64)"
  proof -
    have "unat (headIndex (dd_runtime d)) - length (dd_grains d) + 2 \<le> unat (headIndex (dd_runtime d)) + 1"
      using le by linarith
    then show ?thesis
      using h \<open>unat (headIndex (dd_runtime d) - grain_count d) = _\<close> by simp
  qed
  ultimately have "unat (headIndex (dd_runtime d) - grain_count d + 2) = unat (headIndex (dd_runtime d)) - length (dd_grains d) + 2"
    by (simp add: unat_plus_fits)
  then show ?thesis
    using True le by (simp add: window_start_def)
next
  case False
  then show ?thesis
    using assms(1) by (simp add: window_start_def word_le_nat_alt disc_geometry_def)
qed

lemma getGrainImpl_cases:
  assumes "disc_geometry d" "headIndex (dd_runtime d) \<noteq> MXL_UNDEFINED_INDEX"
  shows "getGrainImpl i m d =
    (let h = unat (headIndex (dd_runtime d)); g = grain_of d (unat i)
     in if h < unat i then Ret (MXL_ERR_OUT_OF_RANGE_TOO_EARLY, None)
        else if unat i < window_start h (length (dd_grains d)) then Ret (MXL_ERR_OUT_OF_RANGE_TOO_LATE, None)
        else if gi_validSlices (gr_info g) \<ge> min m (gi_totalSlices (gr_info g)) \<or>
                gi_flags (gr_info g) AND MXL_GRAIN_FLAG_INVALID \<noteq> 0
        then Ret (MXL_STATUS_OK, Some g)
        else Ret (MXL_ERR_OUT_OF_RANGE_TOO_EARLY, None))"
proof -
  let ?min = "if headIndex (dd_runtime d) \<ge> grain_count d then headIndex (dd_runtime d) - grain_count d + 2 else 0"
  have "?min \<le> i \<longleftrightarrow> \<not> unat i < window_start (unat (headIndex (dd_runtime d))) (length (dd_grains d))"
    using minIndex_nat [OF assms] word_le_nat_alt [of ?min i] by (metis not_less)
  moreover have "i \<le> headIndex (dd_runtime d) \<longleftrightarrow> \<not> unat (headIndex (dd_runtime d)) < unat i"
    by (simp add: word_le_nat_alt not_less)
  ultimately show ?thesis
    using assms(1) by (simp add: getGrainImpl_def Let_def disc_ops del: not_less not_le)
qed


text \<open>
  When the ring has just filled up, with the head at the last slot, the reserved position is missing:
  the reader's window still begins at index 0, whose slot is the slot of the next index.
\<close>

theorem window_alias_when_full:
  assumes "disc_geometry d" and "unat (headIndex (dd_runtime d)) + 1 = length (dd_grains d)"
  shows "(0 :: nat) mod length (dd_grains d) = (unat (headIndex (dd_runtime d)) + 1) mod length (dd_grains d) \<and>
    getGrainImpl 0 m d =
      (let g = grain_of d 0
       in if gi_validSlices (gr_info g) \<ge> min m (gi_totalSlices (gr_info g)) \<or>
             gi_flags (gr_info g) AND MXL_GRAIN_FLAG_INVALID \<noteq> 0
          then Ret (MXL_STATUS_OK, Some g) else Ret (MXL_ERR_OUT_OF_RANGE_TOO_EARLY, None))"
proof -
  have "unat (headIndex (dd_runtime d)) < 2 ^ 32"
    using assms unat_u32_less [of "dc_grainCount (dd_config d)"] by (simp add: disc_geometry_def)
  then have "headIndex (dd_runtime d) \<noteq> MXL_UNDEFINED_INDEX"
    by (auto simp: unat_MXL_UNDEFINED_INDEX)
  then show ?thesis
    using assms by (simp add: getGrainImpl_cases [OF assms(1)] Let_def window_start_def)
qed

section \<open>The log of a writer session\<close>

text \<open>
  What the grains of a session hold: \<open>f k\<close> is the complete grain committed at index \<open>k\<close>, or \<open>None\<close> for
  an index the writer skipped.
\<close>

definition grain_holds :: "Grain \<Rightarrow> nat \<Rightarrow> Grain option \<Rightarrow> bool" where
  "grain_holds g k e = (case e of Some g' \<Rightarrow> g = g' | None \<Rightarrow> grain_invalid k g)"

lemma grain_holds_simps [simp]:
  "grain_holds g k (Some g') \<longleftrightarrow> g = g'"
  "grain_holds g k None \<longleftrightarrow> grain_invalid k g"
  by (simp_all add: grain_holds_def)

definition complete_grain :: "u64 \<Rightarrow> Grain \<Rightarrow> bool" where
  "complete_grain i g \<longleftrightarrow> gi_index (gr_info g) = i \<and> gi_validSlices (gr_info g) = gi_totalSlices (gr_info g)"

definition disc_log :: "nat \<Rightarrow> (nat \<Rightarrow> Grain option) \<Rightarrow> PosixDiscreteFlowWriter \<Rightarrow> DiscreteFlowData \<Rightarrow> bool" where
  "disc_log first f w d \<longleftrightarrow>
     disc_geometry d \<and> dw_lastCommittedIndex w \<noteq> MXL_UNDEFINED_INDEX \<and>
     headIndex (dd_runtime d) = dw_lastCommittedIndex w \<and>
     (\<forall>k g. f k = Some g \<longrightarrow> gi_validSlices (gr_info g) = gi_totalSlices (gr_info g)) \<and>
     (\<forall>k. first \<le> k \<longrightarrow> k \<le> unat (dw_lastCommittedIndex w) \<longrightarrow>
        unat (dw_lastCommittedIndex w) < k + length (dd_grains d) \<longrightarrow> grain_holds (grain_of d k) k (f k))"

text \<open>The client's use of the writer: open a grain, fill its payload, commit its metadata.\<close>

definition write_grain ::
  "u64 \<Rightarrow> u64 \<Rightarrow> Grain \<Rightarrow> PosixDiscreteFlowWriter \<Rightarrow> DiscreteFlowData
    \<Rightarrow> (mxlStatus \<times> PosixDiscreteFlowWriter \<times> DiscreteFlowData) res" where
  "write_grain now i g w d =
     bind_res (openGrain i w d) (\<lambda>(status, out, w, d).
       if status \<noteq> MXL_STATUS_OK then Ret (status, w, d)
       else bind_res (grain_offset d i) (\<lambda>offset.
            bind_res (update_grain offset (\<lambda>g'. g'\<lparr>gr_payload := gr_payload g\<rparr>) d) (\<lambda>d.
            commit_grain now (gr_info g) w d)))"

lemma skipped_first_nat:
  assumes "unat L + 1 < unat i"
  shows "unat (skipped_first i L n) = unat i - min (unat i - unat L - 1) (unat n)"
proof -
  have "unat (i - L) = unat i - unat L"
    using assms by (intro unat_minus_le) (simp add: word_le_nat_alt)
  then have s: "unat (i - L - 1) = unat i - unat L - 1"
    using assms by (subst unat_minus_le) (simp_all add: word_le_nat_alt)
  have "unat (min (i - L - 1) n) = min (unat i - unat L - 1) (unat n)"
    using s by (simp add: min_def word_le_nat_alt)
  then show ?thesis
    using s unfolding skipped_first_def Let_def by (subst unat_minus_le) (auto simp: word_le_nat_alt)
qed

lemma skip_effect:
  assumes geo: "disc_geometry d" and L: "dw_lastCommittedIndex w \<noteq> MXL_UNDEFINED_INDEX"
    and lt: "unat (dw_lastCommittedIndex w) < unat i"
  shows "\<exists>d0. (if dw_lastCommittedIndex w \<noteq> MXL_UNDEFINED_INDEX \<and> i > dw_lastCommittedIndex w + 1
        then invalidate_loop (skipped_first i (dw_lastCommittedIndex w) (grain_count d)) i d else Ret d) = Ret d0 \<and>
    disc_geometry d0 \<and> dd_config d0 = dd_config d \<and> dd_runtime d0 = dd_runtime d \<and> dd_state d0 = dd_state d \<and>
    length (dd_grains d0) = length (dd_grains d) \<and>
    (\<forall>k. unat (dw_lastCommittedIndex w) < k \<longrightarrow> k < unat i \<longrightarrow> unat i < k + length (dd_grains d) \<longrightarrow>
       grain_invalid k (grain_of d0 k)) \<and>
    (\<forall>k. k \<le> unat (dw_lastCommittedIndex w) \<longrightarrow> unat i < k + length (dd_grains d) \<longrightarrow> grain_of d0 k = grain_of d k)"
proof -
  let ?L = "dw_lastCommittedIndex w" and ?n = "length (dd_grains d)"
  have suc: "unat (?L + 1) = unat ?L + 1"
    using lt unat_u64_less [of i] by (subst unat_plus_fits) auto
  show ?thesis
  proof (cases "i > ?L + 1")
    case False
    then have "unat i = unat ?L + 1"
      using suc lt by (simp add: word_less_nat_alt)
    then show ?thesis
      using False geo by auto
  next
    case True
    then have gap: "unat ?L + 1 < unat i"
      using suc by (simp add: word_less_nat_alt)
    let ?first = "skipped_first i ?L (grain_count d)"
    have f: "unat ?first = unat i - min (unat i - unat ?L - 1) ?n"
      using skipped_first_nat [OF gap] geo by (simp add: disc_geometry_def)
    obtain d0 where d0: "invalidate_loop ?first i d = Ret d0" "disc_geometry d0"
        "dd_config d0 = dd_config d" "dd_runtime d0 = dd_runtime d" "dd_state d0 = dd_state d"
        "length (dd_grains d0) = ?n"
      and inv: "\<And>k. unat ?first \<le> k \<Longrightarrow> k < unat i \<Longrightarrow> grain_invalid k (grain_of d0 k)"
      and other: "\<And>j. (\<And>k. unat ?first \<le> k \<Longrightarrow> k < unat i \<Longrightarrow> j mod ?n \<noteq> k mod ?n) \<Longrightarrow>
             grain_of d0 j = grain_of d j"
      using invalidate_loop_effect [of d ?first i] geo f by (auto simp: word_le_nat_alt)
    have "grain_of d0 k = grain_of d k" if k: "k \<le> unat ?L" "unat i < k + ?n" for k
    proof (rule other)
      fix m
      assume "unat ?first \<le> m" "m < unat i"
      then have "k < m" "m < k + ?n"
        using k f gap by auto
      then show "k mod ?n \<noteq> m mod ?n"
        by (rule mod_neq_of_close)
    qed
    moreover have "grain_invalid k (grain_of d0 k)" if "unat ?L < k" "k < unat i" "unat i < k + ?n" for k
      using that f by (intro inv) auto
    ultimately show ?thesis
      using d0 L True by auto
  qed
qed

lemma openGrain_effect:
  assumes geo: "disc_geometry d" and L: "dw_lastCommittedIndex w \<noteq> MXL_UNDEFINED_INDEX"
    and lt: "unat (dw_lastCommittedIndex w) < unat i"
  shows "\<exists>d1. openGrain i w d = Ret (MXL_STATUS_OK, Some (grain_of d1 (unat i)), w\<lparr>dw_currentIndex := i\<rparr>, d1) \<and>
    disc_geometry d1 \<and> dd_config d1 = dd_config d \<and> dd_runtime d1 = dd_runtime d \<and> dd_state d1 = dd_state d \<and>
    length (dd_grains d1) = length (dd_grains d) \<and> gi_index (gr_info (grain_of d1 (unat i))) = i \<and>
    (\<forall>k. unat (dw_lastCommittedIndex w) < k \<longrightarrow> k < unat i \<longrightarrow> unat i < k + length (dd_grains d) \<longrightarrow>
       grain_invalid k (grain_of d1 k)) \<and>
    (\<forall>k. k \<le> unat (dw_lastCommittedIndex w) \<longrightarrow> unat i < k + length (dd_grains d) \<longrightarrow> grain_of d1 k = grain_of d k)"
proof -
  obtain d0 where skip: "(if dw_lastCommittedIndex w \<noteq> MXL_UNDEFINED_INDEX \<and> i > dw_lastCommittedIndex w + 1
        then invalidate_loop (skipped_first i (dw_lastCommittedIndex w) (grain_count d)) i d else Ret d) = Ret d0"
    and d0: "disc_geometry d0" "dd_config d0 = dd_config d" "dd_runtime d0 = dd_runtime d" "dd_state d0 = dd_state d"
      "length (dd_grains d0) = length (dd_grains d)"
    and k: "\<And>k. unat (dw_lastCommittedIndex w) < k \<Longrightarrow> k < unat i \<Longrightarrow> unat i < k + length (dd_grains d) \<Longrightarrow>
       grain_invalid k (grain_of d0 k)"
      "\<And>k. k \<le> unat (dw_lastCommittedIndex w) \<Longrightarrow> unat i < k + length (dd_grains d) \<Longrightarrow> grain_of d0 k = grain_of d k"
    using skip_effect [OF assms] by blast
  define d1 where "d1 = set_grain (unat i)
      ((grain_of d0 (unat i))\<lparr>gr_info := reset_info i (gr_info (grain_of d0 (unat i)))\<rparr>) d0"
  have not_le: "\<not> i \<le> dw_lastCommittedIndex w"
    using lt by (simp add: word_le_nat_alt)
  have geo1: "disc_geometry d1" and count: "grain_count d0 = grain_count d1"
    using d0(1) by (simp_all add: d1_def)
  have "openGrain i w d = Ret (MXL_STATUS_OK, Some (grain_of d1 (unat i)), w\<lparr>dw_currentIndex := i\<rparr>, d1)"
  proof -
    have off: "grain_offset d0 i = Ret (i mod grain_count d0)"
      by (rule grain_offset_ok [OF d0(1)])
    have upd: "update_grain (i mod grain_count d0) (\<lambda>g. g\<lparr>gr_info := reset_info i (gr_info g)\<rparr>) d0 = Ret d1"
      unfolding d1_def by (rule update_grain_ok [OF d0(1)])
    have at: "grainAt d1 (i mod grain_count d0) = Some (grain_of d1 (unat i))"
      using grainAt_ok [OF geo1] by (simp add: count)
    show ?thesis
      unfolding openGrain_def Let_def skip using not_le by (simp add: off upd at)
  qed
  moreover have "gi_index (gr_info (grain_of d1 (unat i))) = i"
    using d0(1) by (simp add: d1_def grain_of_set_grain reset_info_def)
  moreover have "grain_of d1 j = grain_of d0 j" if "j < unat i" "unat i < j + length (dd_grains d)" for j
    using mod_neq_of_close [OF that] d0 by (simp add: d1_def grain_of_set_grain)
  ultimately show ?thesis
    using d0 k geo1 lt by (intro exI [of _ d1]) (auto simp: d1_def [symmetric], simp_all add: d1_def)
qed

text \<open>What follows the opening of a grain: the payload is stored and the metadata committed.\<close>

lemma commit_effect:
  assumes geo: "disc_geometry d" and i: "i \<noteq> MXL_UNDEFINED_INDEX" and g: "complete_grain i g"
    and cur: "dw_currentIndex w = i"
  shows "\<exists>d'. bind_res (grain_offset d i) (\<lambda>offset.
            bind_res (update_grain offset (\<lambda>g'. g'\<lparr>gr_payload := gr_payload g\<rparr>) d) (\<lambda>d.
            commit_grain now (gr_info g) w d))
      = Ret (MXL_STATUS_OK, w\<lparr>dw_currentIndex := MXL_UNDEFINED_INDEX, dw_lastCommittedIndex := i\<rparr>, d') \<and>
    disc_geometry d' \<and> headIndex (dd_runtime d') = i \<and> length (dd_grains d') = length (dd_grains d) \<and>
    fs_syncCounter (dd_state d') = fs_syncCounter (dd_state d) + 1 \<and>
    (\<forall>k. grain_of d' k = (if unat i mod length (dd_grains d) = k mod length (dd_grains d) then g else grain_of d k))"
proof -
  define d1 where "d1 = set_grain (unat i) ((grain_of d (unat i))\<lparr>gr_payload := gr_payload g\<rparr>) d"
  define d2 where "d2 = d1\<lparr>dd_runtime := (dd_runtime d1)\<lparr>headIndex := i\<rparr>\<rparr>"
  define d3 where "d3 = set_grain (unat i) g d2"
  define d4 where "d4 = d3\<lparr>dd_runtime := (dd_runtime d3)\<lparr>lastWriteTime := now\<rparr>,
      dd_state := (dd_state d3)\<lparr>fs_syncCounter := fs_syncCounter (dd_state d3) + 1\<rparr>\<rparr>"
  have geo2: "disc_geometry d2" and count: "grain_count d2 = grain_count d"
    using geo by (simp_all add: disc_geometry_def grain_count_def d2_def d1_def)
  have "(grain_of d2 (unat i))\<lparr>gr_info := gr_info g\<rparr> = g"
    using geo disc_count_pos [OF geo] by (simp add: grain_of_def set_grain_def d2_def d1_def)
  then have upd: "update_grain (i mod grain_count d) (\<lambda>g'. g'\<lparr>gr_info := gr_info g\<rparr>) d2 = Ret d3"
    using update_grain_ok [OF geo2, of i "\<lambda>g'. g'\<lparr>gr_info := gr_info g\<rparr>"] by (simp add: count d3_def)
  have off: "grain_offset d2 i = Ret (i mod grain_count d)"
    using grain_offset_ok [OF geo2] by (simp add: count)
  have upd1: "update_grain (i mod grain_count d) (\<lambda>g'. g'\<lparr>gr_payload := gr_payload g\<rparr>) d = Ret d1"
    unfolding d1_def by (rule update_grain_ok [OF geo])
  have "commit_grain now (gr_info g) w d1
      = Ret (MXL_STATUS_OK, w\<lparr>dw_currentIndex := MXL_UNDEFINED_INDEX, dw_lastCommittedIndex := i\<rparr>, d4)"
    using cur g off upd by (simp add: commit_grain_def complete_grain_def Let_def d2_def [symmetric] d4_def)
  then have "bind_res (grain_offset d i) (\<lambda>offset.
            bind_res (update_grain offset (\<lambda>g'. g'\<lparr>gr_payload := gr_payload g\<rparr>) d) (\<lambda>d.
            commit_grain now (gr_info g) w d))
      = Ret (MXL_STATUS_OK, w\<lparr>dw_currentIndex := MXL_UNDEFINED_INDEX, dw_lastCommittedIndex := i\<rparr>, d4)"
    by (simp add: grain_offset_ok [OF geo] upd1)
  moreover have "grain_of d4 k = (if unat i mod length (dd_grains d) = k mod length (dd_grains d) then g else grain_of d k)" for k
    using geo disc_count_pos [OF geo] by (auto simp: grain_of_def set_grain_def nth_list_update d4_def d3_def d2_def d1_def)
  moreover have "disc_geometry d4" "headIndex (dd_runtime d4) = i" "length (dd_grains d4) = length (dd_grains d)"
    "fs_syncCounter (dd_state d4) = fs_syncCounter (dd_state d) + 1"
    using geo by (simp_all add: disc_geometry_def d4_def d3_def d2_def d1_def)
  ultimately show ?thesis
    by blast
qed

lemma write_grain_log:
  assumes log: "disc_log first f w d" and lt: "unat (dw_lastCommittedIndex w) < unat i"
    and i: "i \<noteq> MXL_UNDEFINED_INDEX" and g: "complete_grain i g"
  shows "\<exists>w' d'. write_grain now i g w d = Ret (MXL_STATUS_OK, w', d') \<and>
    disc_log first (\<lambda>k. if k = unat i then Some g else if unat (dw_lastCommittedIndex w) < k then None else f k) w' d' \<and>
    dw_lastCommittedIndex w' = i \<and> fs_syncCounter (dd_state d') = fs_syncCounter (dd_state d) + 1"
proof -
  let ?L = "unat (dw_lastCommittedIndex w)" and ?n = "length (dd_grains d)"
  have geo: "disc_geometry d" and L: "dw_lastCommittedIndex w \<noteq> MXL_UNDEFINED_INDEX"
    and complete: "\<And>k g. f k = Some g \<Longrightarrow> gi_validSlices (gr_info g) = gi_totalSlices (gr_info g)"
    and holds: "\<And>k. first \<le> k \<Longrightarrow> k \<le> ?L \<Longrightarrow> ?L < k + ?n \<Longrightarrow> grain_holds (grain_of d k) k (f k)"
    using log by (simp_all add: disc_log_def)
  obtain d1 where op: "openGrain i w d = Ret (MXL_STATUS_OK, Some (grain_of d1 (unat i)), w\<lparr>dw_currentIndex := i\<rparr>, d1)"
    and d1: "disc_geometry d1" "dd_state d1 = dd_state d" "length (dd_grains d1) = ?n"
    and inv: "\<And>k. ?L < k \<Longrightarrow> k < unat i \<Longrightarrow> unat i < k + ?n \<Longrightarrow> grain_invalid k (grain_of d1 k)"
    and keep: "\<And>k. k \<le> ?L \<Longrightarrow> unat i < k + ?n \<Longrightarrow> grain_of d1 k = grain_of d k"
    using openGrain_effect [OF geo L lt] by blast
  obtain d' where com: "bind_res (grain_offset d1 i) (\<lambda>offset.
            bind_res (update_grain offset (\<lambda>g'. g'\<lparr>gr_payload := gr_payload g\<rparr>) d1) (\<lambda>d.
            commit_grain now (gr_info g) (w\<lparr>dw_currentIndex := i\<rparr>) d))
      = Ret (MXL_STATUS_OK, w\<lparr>dw_currentIndex := MXL_UNDEFINED_INDEX, dw_lastCommittedIndex := i\<rparr>, d')"
    and d': "disc_geometry d'" "headIndex (dd_runtime d') = i" "length (dd_grains d') = ?n"
      "fs_syncCounter (dd_state d') = fs_syncCounter (dd_state d) + 1"
    and grains: "\<And>k. grain_of d' k = (if unat i mod ?n = k mod ?n then g else grain_of d1 k)"
    using commit_effect [OF d1(1) i g, of "w\<lparr>dw_currentIndex := i\<rparr>" now] d1 by auto
  have "write_grain now i g w d = Ret (MXL_STATUS_OK, w\<lparr>dw_currentIndex := MXL_UNDEFINED_INDEX, dw_lastCommittedIndex := i\<rparr>, d')"
    using com by (simp add: write_grain_def op)
  moreover have "grain_holds (grain_of d' k) k (if k = unat i then Some g else if ?L < k then None else f k)"
    if k: "first \<le> k" "k \<le> unat i" "unat i < k + ?n" for k
  proof (cases "k = unat i")
    case True
    then show ?thesis by (simp add: grains grain_holds_def)
  next
    case False
    then have "k mod ?n \<noteq> unat i mod ?n"
      using k by (intro mod_neq_of_close) auto
    then have "grain_of d' k = grain_of d1 k"
      using grains [of k] by presburger
    then show ?thesis
      using False k inv [of k] keep [of k] holds [of k] lt by (cases "?L < k") simp_all
  qed
  moreover have "gi_validSlices (gr_info g) = gi_totalSlices (gr_info g)"
    using g by (simp add: complete_grain_def)
  ultimately show ?thesis
    using d' i complete by (auto simp: disc_log_def)
qed

text \<open>
  C4: Writing a complete grain at a later index refines extending the log of the session: opening,
  filling and committing succeed, the head and the last committed index move to the new index, every
  skipped index that still has a slot is marked as an invalid grain of that index, the grains that
  remain in the ring are kept, and the readers are notified once.
\<close>

theorem write_grain_extends_log:
  assumes log: "disc_log first f w d" and lt: "unat (dw_lastCommittedIndex w) < unat i"
    and i: "i \<noteq> MXL_UNDEFINED_INDEX" and g: "complete_grain i g"
  shows "\<exists>w' d'. write_grain now i g w d = Ret (MXL_STATUS_OK, w', d') \<and>
    disc_log first (\<lambda>k. if k = unat i then Some g else if unat (dw_lastCommittedIndex w) < k then None else f k) w' d' \<and>
    dw_lastCommittedIndex w' = i \<and> fs_syncCounter (dd_state d') = fs_syncCounter (dd_state d) + 1"
  by (rule write_grain_log [OF assms])

lemma reader_log:
  assumes log: "disc_log first f w d" and i: "first \<le> unat i"
  shows "getGrainImpl i m d =
    (if dw_lastCommittedIndex w < i then Ret (MXL_ERR_OUT_OF_RANGE_TOO_EARLY, None)
     else if unat i < window_start (unat (dw_lastCommittedIndex w)) (length (dd_grains d))
     then Ret (MXL_ERR_OUT_OF_RANGE_TOO_LATE, None)
     else Ret (MXL_STATUS_OK, Some (grain_of d (unat i)))) \<and>
    (\<not> dw_lastCommittedIndex w < i \<longrightarrow>
     window_start (unat (dw_lastCommittedIndex w)) (length (dd_grains d)) \<le> unat i \<longrightarrow>
     grain_holds (grain_of d (unat i)) (unat i) (f (unat i)))"
proof -
  let ?L = "unat (dw_lastCommittedIndex w)" and ?n = "length (dd_grains d)" and ?g = "grain_of d (unat i)"
  have geo: "disc_geometry d" and head: "headIndex (dd_runtime d) = dw_lastCommittedIndex w"
    "dw_lastCommittedIndex w \<noteq> MXL_UNDEFINED_INDEX"
    and complete: "\<And>k g. f k = Some g \<Longrightarrow> gi_validSlices (gr_info g) = gi_totalSlices (gr_info g)"
    and holds: "\<And>k. first \<le> k \<Longrightarrow> k \<le> ?L \<Longrightarrow> ?L < k + ?n \<Longrightarrow> grain_holds (grain_of d k) k (f k)"
    using log by (simp_all add: disc_log_def)
  have in_window: "grain_holds ?g (unat i) (f (unat i))" if "\<not> ?L < unat i" "\<not> unat i < window_start ?L ?n"
    using that i disc_count_pos [OF geo] by (intro holds) (auto simp: window_start_def split: if_splits)
  moreover have "gi_validSlices (gr_info ?g) \<ge> min m (gi_totalSlices (gr_info ?g)) \<or>
      gi_flags (gr_info ?g) AND MXL_GRAIN_FLAG_INVALID \<noteq> 0" if "grain_holds ?g (unat i) (f (unat i))"
    using that complete by (auto simp: grain_holds_def grain_invalid_def split: option.splits)
  ultimately show ?thesis
    using getGrainImpl_cases [OF geo, of i m] head by (auto simp: Let_def word_less_nat_alt not_less)
qed

text \<open>
  C2: A reader of a session sees the log: within its window an index that was committed gives exactly the
  committed grain, however many slices were asked for, and a skipped one gives a grain of that very
  index flagged invalid; an index beyond the head is too early and one before the window too late.
\<close>

theorem reader_sees_log:
  assumes log: "disc_log first f w d" and i: "first \<le> unat i"
  shows "getGrainImpl i m d =
    (if dw_lastCommittedIndex w < i then Ret (MXL_ERR_OUT_OF_RANGE_TOO_EARLY, None)
     else if unat i < window_start (unat (dw_lastCommittedIndex w)) (length (dd_grains d))
     then Ret (MXL_ERR_OUT_OF_RANGE_TOO_LATE, None)
     else Ret (MXL_STATUS_OK, Some (grain_of d (unat i)))) \<and>
    (\<not> dw_lastCommittedIndex w < i \<longrightarrow>
     window_start (unat (dw_lastCommittedIndex w)) (length (dd_grains d)) \<le> unat i \<longrightarrow>
     grain_holds (grain_of d (unat i)) (unat i) (f (unat i)))"
  by (rule reader_log [OF assms])

text \<open>
  The first grain that a new writer commits starts a session: nothing is invalidated, and the log
  of the session begins at that grain.
\<close>

theorem first_grain_starts_log:
  assumes geo: "disc_geometry d" and i: "i \<noteq> MXL_UNDEFINED_INDEX" and g: "complete_grain i g"
  shows "\<exists>w' d'. write_grain now i g PosixDiscreteFlowWriter_ctor d = Ret (MXL_STATUS_OK, w', d') \<and>
    disc_log (unat i) (\<lambda>k. if k = unat i then Some g else None) w' d' \<and> dw_lastCommittedIndex w' = i"
proof -
  let ?w = PosixDiscreteFlowWriter_ctor
  define d1 where "d1 = set_grain (unat i) ((grain_of d (unat i))\<lparr>gr_info := reset_info i (gr_info (grain_of d (unat i)))\<rparr>) d"
  have geo1: "disc_geometry d1" "length (dd_grains d1) = length (dd_grains d)" "grain_count d1 = grain_count d"
    using geo by (simp_all add: d1_def)
  have upd: "update_grain (i mod grain_count d) (\<lambda>g. g\<lparr>gr_info := reset_info i (gr_info g)\<rparr>) d = Ret d1"
    unfolding d1_def by (rule update_grain_ok [OF geo])
  have op: "openGrain i ?w d = Ret (MXL_STATUS_OK, Some (grain_of d1 (unat i)), ?w\<lparr>dw_currentIndex := i\<rparr>, d1)"
    using grainAt_ok [OF geo1(1), of i]
    by (simp add: openGrain_def PosixDiscreteFlowWriter_ctor_def Let_def grain_offset_ok [OF geo] upd geo1)
  obtain d' where com: "bind_res (grain_offset d1 i) (\<lambda>offset.
            bind_res (update_grain offset (\<lambda>g'. g'\<lparr>gr_payload := gr_payload g\<rparr>) d1) (\<lambda>d.
            commit_grain now (gr_info g) (?w\<lparr>dw_currentIndex := i\<rparr>) d))
      = Ret (MXL_STATUS_OK, ?w\<lparr>dw_currentIndex := MXL_UNDEFINED_INDEX, dw_lastCommittedIndex := i\<rparr>, d')"
    and d': "disc_geometry d'" "headIndex (dd_runtime d') = i" "length (dd_grains d') = length (dd_grains d1)"
    and grains: "\<And>k. grain_of d' k = (if unat i mod length (dd_grains d1) = k mod length (dd_grains d1) then g else grain_of d1 k)"
    using commit_effect [OF geo1(1) i g, of "?w\<lparr>dw_currentIndex := i\<rparr>" now] by auto
  have "write_grain now i g ?w d = Ret (MXL_STATUS_OK, ?w\<lparr>dw_currentIndex := MXL_UNDEFINED_INDEX, dw_lastCommittedIndex := i\<rparr>, d')"
    using com by (simp add: write_grain_def op)
  moreover have "disc_log (unat i) (\<lambda>k. if k = unat i then Some g else None)
      (?w\<lparr>dw_currentIndex := MXL_UNDEFINED_INDEX, dw_lastCommittedIndex := i\<rparr>) d'"
    using d' i g grains [of "unat i"] by (auto simp: disc_log_def complete_grain_def)
  ultimately show ?thesis
    by auto
qed

section \<open>Refused operations\<close>

text \<open>
  A writer never goes back: opening an index at or before its last complete grain is refused, and a
  commit is refused unless it names the grain that is open; both leave the writer and the flow alone.
\<close>

theorem writer_refuses:
  "(dw_lastCommittedIndex w \<noteq> MXL_UNDEFINED_INDEX \<and> i \<le> dw_lastCommittedIndex w \<longrightarrow>
      openGrain i w d = Ret (MXL_ERR_INVALID_ARG, None, w, d)) \<and>
   (gi_index info \<noteq> dw_currentIndex w \<longrightarrow> commit_grain now info w d = Ret (MXL_ERR_INVALID_ARG, w, d))"
  by (simp add: openGrain_def commit_grain_def Let_def)

text \<open>
  A commit without an open grain is not refused when the metadata carries the undefined index: the
  head is moved to the undefined index, and a reader asking for any index far enough below it is told
  that it came too late.
\<close>

theorem commit_without_open:
  assumes geo: "disc_geometry d" and cur: "dw_currentIndex w = MXL_UNDEFINED_INDEX"
    and info: "gi_index info = MXL_UNDEFINED_INDEX"
    and two: "2 \<le> unat (dc_grainCount (dd_config d))" and i: "unat i < 2 ^ 63"
  shows "\<exists>w' d'. commit_grain now info w d = Ret (MXL_STATUS_OK, w', d') \<and>
    headIndex (dd_runtime d') = MXL_UNDEFINED_INDEX \<and>
    getGrainImpl i m d' = Ret (MXL_ERR_OUT_OF_RANGE_TOO_LATE, None)"
proof -
  define d2 where "d2 = d\<lparr>dd_runtime := (dd_runtime d)\<lparr>headIndex := MXL_UNDEFINED_INDEX\<rparr>\<rparr>"
  define d3 where "d3 = set_grain (unat MXL_UNDEFINED_INDEX) ((grain_of d2 (unat MXL_UNDEFINED_INDEX))\<lparr>gr_info := info\<rparr>) d2"
  define d4 where "d4 = d3\<lparr>dd_runtime := (dd_runtime d3)\<lparr>lastWriteTime := now\<rparr>,
      dd_state := (dd_state d3)\<lparr>fs_syncCounter := fs_syncCounter (dd_state d3) + 1\<rparr>\<rparr>"
  have geo2: "disc_geometry d2"
    using geo by (simp add: disc_geometry_def d2_def)
  have "\<exists>w'. commit_grain now info w d = Ret (MXL_STATUS_OK, w', d4)"
    using cur info grain_offset_ok [OF geo2, of MXL_UNDEFINED_INDEX]
      update_grain_ok [OF geo2, of MXL_UNDEFINED_INDEX "\<lambda>g. g\<lparr>gr_info := info\<rparr>"]
    by (auto simp: commit_grain_def Let_def d2_def [symmetric] d3_def [symmetric] d4_def)
  moreover have head: "headIndex (dd_runtime d4) = MXL_UNDEFINED_INDEX" and count: "grain_count d4 = grain_count d"
    by (simp_all add: d4_def d3_def d2_def grain_count_def)
  moreover have "\<not> MXL_UNDEFINED_INDEX - grain_count d + 2 \<le> i"
  proof -
    have c: "unat (grain_count d) < 2 ^ 32" "2 \<le> unat (grain_count d)"
      using unat_u32_less [of "dc_grainCount (dd_config d)"] two by simp_all
    have "unat (MXL_UNDEFINED_INDEX - grain_count d) = 2 ^ 64 - 1 - unat (grain_count d)"
      by (simp add: unat_minus_le u64_le_UNDEFINED unat_MXL_UNDEFINED_INDEX)
    moreover from this have "unat (MXL_UNDEFINED_INDEX - grain_count d + 2) = 2 ^ 64 - 1 - unat (grain_count d) + 2"
      using c by (subst unat_plus_fits) auto
    ultimately show ?thesis
      using c i by (simp add: word_le_nat_alt)
  qed
  ultimately have "getGrainImpl i m d4 = Ret (MXL_ERR_OUT_OF_RANGE_TOO_LATE, None)"
    using u64_le_UNDEFINED [of i] u64_le_UNDEFINED [of "grain_count d"]
    by (simp add: getGrainImpl_def Let_def)
  then show ?thesis
    using \<open>\<exists>w'. commit_grain now info w d = Ret (MXL_STATUS_OK, w', d4)\<close> head by blast
qed

section \<open>Blocking reads\<close>

text \<open>A round of the blocking read after which it waits and looks again.\<close>

definition look_again :: "u64 \<Rightarrow> u16 \<Rightarrow> DiscreteFlowData \<times> bool \<Rightarrow> bool" where
  "look_again i m ob \<longleftrightarrow> (\<exists>out. getGrainImpl i m (fst ob) = Ret (MXL_ERR_OUT_OF_RANGE_TOO_EARLY, out)) \<and> snd ob"

text \<open>
  A blocking read gives what the flow shows in the first round that is not too early, or in the first
  round whose wait ended without a change; and when that last look was too early on a flow whose data
  file is gone or was replaced, it reports an invalid flow.
\<close>

theorem blocking_read:
  "getGrain_until i m obs st state =
     (case dropWhile (look_again i m) obs of
        [] \<Rightarrow> None
      | ob # _ \<Rightarrow> Some (map_ret (check_stale st state) (getGrainImpl i m (fst ob))))"
proof -
  have "getGrainImpl_until i m obs =
     (case dropWhile (look_again i m) obs of [] \<Rightarrow> None | ob # _ \<Rightarrow> Some (getGrainImpl i m (fst ob)))"
  proof (induction i m obs rule: getGrainImpl_until.induct)
    case (2 i m d changed obs)
    then show ?case
      by (cases "getGrainImpl i m d") (auto simp: look_again_def split: prod.splits)
  qed simp
  then show ?thesis
    unfolding getGrain_until_def by (cases "dropWhile (look_again i m) obs") (simp_all only: list.case option.map)
qed

section \<open>Examples\<close>

definition sample_grain :: "u64 \<Rightarrow> u16 \<Rightarrow> Grain" where
  "sample_grain i valid =
     \<lparr>gr_info = \<lparr>gi_version = 1, gi_size = 4096, gi_index = i, gi_flags = 0, gi_grainSize = 4,
        gi_totalSlices = 2, gi_validSlices = valid\<rparr>,
      gr_payload = [1, 2, 3, 4]\<rparr>"

definition sample_disc :: "u64 \<Rightarrow> Grain list \<Rightarrow> DiscreteFlowData" where
  "sample_disc head grains =
     \<lparr>dd_config = \<lparr>dc_sliceSizes = [2, 0, 0, 0], dc_grainCount = 4\<rparr>,
      dd_runtime = \<lparr>headIndex = head, lastWriteTime = 0, lastReadTime = 0\<rparr>,
      dd_state = \<lparr>fs_inode = 9, fs_syncCounter = 0\<rparr>, dd_grains = grains\<rparr>"

lemma sample_disc_geometry: "length grains = 4 \<Longrightarrow> disc_geometry (sample_disc head grains)"
  by (simp add: disc_geometry_def sample_disc_def)

lemma sample_disc_log:
  "disc_log 5 (\<lambda>k. if k = 5 then Some (sample_grain 5 2) else None)
     \<lparr>dw_currentIndex = MXL_UNDEFINED_INDEX, dw_lastCommittedIndex = 5\<rparr>
     (sample_disc 5 (replicate 4 (sample_grain 5 2)))"
  by (auto simp: disc_log_def disc_geometry_def sample_disc_def MXL_UNDEFINED_INDEX_def grain_of_def sample_grain_def)


theorem window_alias_when_full_witness:
  "getGrainImpl 0 0 (sample_disc 3 (replicate 4 (sample_grain 0 2))) = Ret (MXL_STATUS_OK, Some (sample_grain 0 2))"
proof -
  let ?d = "sample_disc 3 (replicate 4 (sample_grain 0 2))"
  have "disc_geometry ?d" "unat (headIndex (dd_runtime ?d)) + 1 = length (dd_grains ?d)"
    by (simp_all add: sample_disc_geometry) (simp add: sample_disc_def)
  from window_alias_when_full [OF this] show ?thesis
    by (simp add: Let_def grain_of_def sample_disc_def sample_grain_def)
qed

theorem first_grain_starts_log_witness:
  "\<exists>w' d'. write_grain 77 5 (sample_grain 5 2) PosixDiscreteFlowWriter_ctor (sample_disc 0 (replicate 4 (sample_grain 0 0)))
     = Ret (MXL_STATUS_OK, w', d') \<and> dw_lastCommittedIndex w' = 5"
proof -
  have "complete_grain 5 (sample_grain 5 2)" "(5 :: u64) \<noteq> MXL_UNDEFINED_INDEX"
    by (simp_all add: complete_grain_def sample_grain_def MXL_UNDEFINED_INDEX_def)
  then show ?thesis
    using first_grain_starts_log [OF sample_disc_geometry [of "replicate 4 (sample_grain 0 0)"], of 5] by fastforce
qed

theorem write_grain_extends_log_witness:
  "\<exists>w' d'. write_grain 78 7 (sample_grain 7 2) \<lparr>dw_currentIndex = MXL_UNDEFINED_INDEX, dw_lastCommittedIndex = 5\<rparr>
     (sample_disc 5 (replicate 4 (sample_grain 5 2))) = Ret (MXL_STATUS_OK, w', d') \<and> dw_lastCommittedIndex w' = 7"
proof -
  have "complete_grain 7 (sample_grain 7 2)" "(7 :: u64) \<noteq> MXL_UNDEFINED_INDEX"
    by (simp_all add: complete_grain_def sample_grain_def MXL_UNDEFINED_INDEX_def)
  then show ?thesis
    using write_grain_extends_log [OF sample_disc_log, of 7 "sample_grain 7 2" 78] by auto
qed

theorem reader_sees_log_witness:
  "getGrainImpl 5 2 (sample_disc 5 (replicate 4 (sample_grain 5 2))) = Ret (MXL_STATUS_OK, Some (sample_grain 5 2))"
proof -
  have "window_start 5 4 = 3"
    by (simp add: window_start_def)
  moreover have "grain_of (sample_disc 5 (replicate 4 (sample_grain 5 2))) 5 = sample_grain 5 2"
    "length (dd_grains (sample_disc 5 (replicate 4 (sample_grain 5 2)))) = 4"
    by (simp_all add: grain_of_def sample_disc_def)
  ultimately show ?thesis
    using reader_sees_log [OF sample_disc_log, of 5 2] by simp
qed

theorem commit_without_open_witness:
  "\<exists>w' d'. commit_grain 77 (gr_info (sample_grain MXL_UNDEFINED_INDEX 2)) PosixDiscreteFlowWriter_ctor
       (sample_disc 0 (replicate 4 (sample_grain 0 0))) = Ret (MXL_STATUS_OK, w', d') \<and>
     getGrainImpl 0 0 d' = Ret (MXL_ERR_OUT_OF_RANGE_TOO_LATE, None)"
proof -
  let ?d = "sample_disc 0 (replicate 4 (sample_grain 0 0))"
  have "dw_currentIndex PosixDiscreteFlowWriter_ctor = MXL_UNDEFINED_INDEX"
    "gi_index (gr_info (sample_grain MXL_UNDEFINED_INDEX 2)) = MXL_UNDEFINED_INDEX"
    "2 \<le> unat (dc_grainCount (dd_config ?d))" "unat (0 :: u64) < 2 ^ 63"
    by (simp_all add: PosixDiscreteFlowWriter_ctor_def sample_grain_def sample_disc_def)
  from commit_without_open [OF sample_disc_geometry this] show ?thesis
    by (metis length_replicate)
qed

end
