(* ===== verification/SharedMemory.thy ===== *)
theory SharedMemory
  imports ContinuousFlow DiscreteFlow "HOL-Library.Sublist"
begin

text \<open>
  Files, advisory locks and shared mappings. The first sections are what the library uses of the
  operating system: a directory tree, files with a content and a table of \<^verbatim>\<open>flock\<close> locks, and the system
  calls on them. A parameter \<open>flt\<close> says which calls fail and how, so every error branch of the code can
  be taken. The last sections are \<^verbatim>\<open>SharedMemory.cpp\<close> and \<^verbatim>\<open>SharedMemory.hpp\<close>: the constructor that creates
  or opens, locks and maps a file, its destructor, and the upgrade of a lock.
\<close>

section \<open>Outcomes that change the state\<close>

type_synonym ('s, 'a) act = "'s \<Rightarrow> 'a res \<times> 's"

definition return_act :: "'a \<Rightarrow> ('s, 'a) act" where
  "return_act x s = (Ret x, s)"

definition throw_act :: "exn \<Rightarrow> ('s, 'a) act" where
  "throw_act e s = (Throw e, s)"

definition lift_act :: "'a res \<Rightarrow> ('s, 'a) act" where
  "lift_act r s = (r, s)"

definition bind_act :: "('s, 'a) act \<Rightarrow> ('a \<Rightarrow> ('s, 'b) act) \<Rightarrow> ('s, 'b) act" where
  "bind_act m f s =
     (case m s of (Ret x, s') \<Rightarrow> f x s' | (Throw e, s') \<Rightarrow> (Throw e, s') | (Undef, s') \<Rightarrow> (Undef, s'))"

text \<open>Destructors that run when an exception leaves the scope of the object.\<close>

definition unwind :: "('s \<Rightarrow> 's) \<Rightarrow> ('s, 'a) act \<Rightarrow> ('s, 'a) act" where
  "unwind cleanup m s = (case m s of (Throw e, s') \<Rightarrow> (Throw e, cleanup s') | (r, s') \<Rightarrow> (r, s'))"

lemma bind_act_cases:
  assumes "bind_act m f s = (r, s')"
  obtains (ret) x t where "m s = (Ret x, t)" "f x t = (r, s')"
    | (exn) e where "m s = (Throw e, s')" "r = Throw e"
    | (undef) "m s = (Undef, s')" "r = Undef"
  using assms by (auto simp: bind_act_def split: prod.splits res.splits)

lemma unwind_cases:
  assumes "unwind cl m s = (r, s')"
  obtains (exn) e t where "m s = (Throw e, t)" "r = Throw e" "s' = cl t"
    | (normal) "m s = (r, s')" "\<And>e. r \<noteq> Throw e"
  using assms by (auto simp: unwind_def split: prod.splits res.splits)

section \<open>Files\<close>

type_synonym path = "string list"

datatype lock = LOCK_SH | LOCK_EX

text \<open>What a file holds; \<open>Zeros\<close> is a file that has been allocated and not been written to.\<close>

datatype content =
    Zeros
  | Text string
  | FlowSegment mxlFlowInfo FlowState
  | GrainSegment Grain
  | EventSegment event_ring
  | ChannelSegment "u8 list"

record inode =
  in_content :: content
  in_size :: nat
  in_locks :: "(nat \<times> lock) list"

datatype node = Directory | Regular nat

record posix =
  px_nodes :: "(path \<times> node) list"
  px_inodes :: "nat \<Rightarrow> inode"
  px_nextIno :: nat
  px_nextFd :: nat

datatype call =
    Call_open | Call_fallocate | Call_flock | Call_fstat | Call_mmap | Call_stat | Call_mkdtemp | Call_mkdir
  | Call_chmod | Call_rename | Call_remove | Call_ofstream | Call_ifstream | Call_access | Call_inotify

type_synonym faults = "call \<Rightarrow> path \<Rightarrow> errc option"

definition lookup :: "posix \<Rightarrow> path \<Rightarrow> node option" where
  "lookup s p = map_of (px_nodes s) p"

definition path_exists :: "posix \<Rightarrow> path \<Rightarrow> bool" where
  "path_exists s p \<longleftrightarrow> lookup s p \<noteq> None"

definition is_directory :: "posix \<Rightarrow> path \<Rightarrow> bool" where
  "is_directory s p \<longleftrightarrow> lookup s p = Some Directory"

definition locks_of :: "posix \<Rightarrow> nat \<Rightarrow> (nat \<times> lock) list" where
  "locks_of s ino = in_locks (px_inodes s ino)"

definition set_inode :: "nat \<Rightarrow> inode \<Rightarrow> posix \<Rightarrow> posix" where
  "set_inode ino i s = s\<lparr>px_inodes := (px_inodes s)(ino := i)\<rparr>"

definition set_locks :: "nat \<Rightarrow> (nat \<times> lock) list \<Rightarrow> posix \<Rightarrow> posix" where
  "set_locks ino ls s = set_inode ino ((px_inodes s ino)\<lparr>in_locks := ls\<rparr>) s"

definition set_content :: "nat \<Rightarrow> content \<Rightarrow> posix \<Rightarrow> posix" where
  "set_content ino c s = set_inode ino ((px_inodes s ino)\<lparr>in_content := c\<rparr>) s"

definition set_size :: "nat \<Rightarrow> nat \<Rightarrow> posix \<Rightarrow> posix" where
  "set_size ino n s = set_inode ino ((px_inodes s ino)\<lparr>in_size := n\<rparr>) s"

definition content_of :: "posix \<Rightarrow> nat \<Rightarrow> content" where
  "content_of s ino = in_content (px_inodes s ino)"

section \<open>System calls\<close>

definition fresh_file :: "path \<Rightarrow> posix \<Rightarrow> nat \<times> posix" where
  "fresh_file p s =
     (px_nextIno s,
      set_inode (px_nextIno s) \<lparr>in_content = Zeros, in_size = 0, in_locks = []\<rparr>
        (s\<lparr>px_nodes := (p, Regular (px_nextIno s)) # px_nodes s, px_nextIno := px_nextIno s + 1\<rparr>))"

definition fresh_fd :: "posix \<Rightarrow> nat \<times> posix" where
  "fresh_fd s = (px_nextFd s, s\<lparr>px_nextFd := px_nextFd s + 1\<rparr>)"

text \<open>\<^verbatim>\<open>open\<close> with \<^verbatim>\<open>O_CREAT | O_EXCL\<close>.\<close>

definition open_create :: "faults \<Rightarrow> path \<Rightarrow> posix \<Rightarrow> (errc + nat \<times> nat) \<times> posix" where
  "open_create flt p s =
     (case flt Call_open p of
        Some e \<Rightarrow> (Inl e, s)
      | None \<Rightarrow>
          (if path_exists s p then (Inl EEXIST, s)
           else if \<not> is_directory s (butlast p) then (Inl ENOENT, s)
           else let (ino, s) = fresh_file p s; (fd, s) = fresh_fd s in (Inr (fd, ino), s)))"

definition open_existing :: "faults \<Rightarrow> path \<Rightarrow> posix \<Rightarrow> (errc + nat \<times> nat) \<times> posix" where
  "open_existing flt p s =
     (case flt Call_open p of
        Some e \<Rightarrow> (Inl e, s)
      | None \<Rightarrow>
          (case lookup s p of
             None \<Rightarrow> (Inl ENOENT, s)
           | Some Directory \<Rightarrow> (Inl EOTHER, s)
           | Some (Regular ino) \<Rightarrow> let (fd, s) = fresh_fd s in (Inr (fd, ino), s)))"

definition conflicts :: "nat \<Rightarrow> lock \<Rightarrow> (nat \<times> lock) list \<Rightarrow> bool" where
  "conflicts fd l ls \<longleftrightarrow> list_ex (\<lambda>(fd', l'). fd' \<noteq> fd \<and> (l = LOCK_EX \<or> l' = LOCK_EX)) ls"

text \<open>
  \<^verbatim>\<open>flock\<close> with \<^verbatim>\<open>LOCK_NB\<close>. A conversion first removes the lock that the descriptor holds and then asks
  for the new one, as the manual of the call says: when that is refused, the old lock is gone.
\<close>

definition flock_nb :: "faults \<Rightarrow> path \<Rightarrow> nat \<Rightarrow> nat \<Rightarrow> lock \<Rightarrow> posix \<Rightarrow> errc option \<times> posix" where
  "flock_nb flt p fd ino l s =
     (case flt Call_flock p of
        Some e \<Rightarrow> (Some e, s)
      | None \<Rightarrow>
          (if (fd, l) \<in> set (locks_of s ino) then (None, s)
           else let others = filter (\<lambda>e. fst e \<noteq> fd) (locks_of s ino)
                in if conflicts fd l others then (Some EWOULDBLOCK, set_locks ino others s)
                   else (None, set_locks ino ((fd, l) # others) s)))"

text \<open>Closing a descriptor releases its lock.\<close>

definition close_fd :: "nat \<Rightarrow> nat \<Rightarrow> posix \<Rightarrow> posix" where
  "close_fd fd ino s = set_locks ino (filter (\<lambda>e. fst e \<noteq> fd) (locks_of s ino)) s"

definition below :: "path \<Rightarrow> path \<Rightarrow> bool" where
  "below p q \<longleftrightarrow> prefix p q"

text \<open>\<^verbatim>\<open>remove_all\<close>: the number of entries removed.\<close>

definition remove_all :: "faults \<Rightarrow> path \<Rightarrow> posix \<Rightarrow> (errc + nat) \<times> posix" where
  "remove_all flt p s =
     (case flt Call_remove p of
        Some e \<Rightarrow> (Inl e, s)
      | None \<Rightarrow>
          (Inr (length (filter (\<lambda>(q, _). below p q) (px_nodes s))),
           s\<lparr>px_nodes := filter (\<lambda>(q, _). \<not> below p q) (px_nodes s)\<rparr>))"

definition make_directory :: "faults \<Rightarrow> call \<Rightarrow> path \<Rightarrow> posix \<Rightarrow> errc option \<times> posix" where
  "make_directory flt c p s =
     (case flt c p of
        Some e \<Rightarrow> (Some e, s)
      | None \<Rightarrow>
          (if path_exists s p then (Some EEXIST, s)
           else if \<not> is_directory s (butlast p) then (Some ENOENT, s)
           else (None, s\<lparr>px_nodes := (p, Directory) # px_nodes s\<rparr>)))"

definition moved :: "path \<Rightarrow> path \<Rightarrow> path \<Rightarrow> path" where
  "moved src dst p = (if below src p then dst @ drop (length src) p else p)"

text \<open>\<^verbatim>\<open>renameat2\<close> with \<^verbatim>\<open>RENAME_NOREPLACE\<close>.\<close>

definition rename_noreplace :: "faults \<Rightarrow> path \<Rightarrow> path \<Rightarrow> posix \<Rightarrow> errc option \<times> posix" where
  "rename_noreplace flt src dst s =
     (case flt Call_rename src of
        Some e \<Rightarrow> (Some e, s)
      | None \<Rightarrow>
          (if path_exists s dst then (Some EEXIST, s)
           else (None, s\<lparr>px_nodes := map (\<lambda>(q, n). (moved src dst q, n)) (px_nodes s)\<rparr>)))"

section \<open>Shared memory\<close>

datatype LockMode = Exclusive | Shared | NoLock
datatype AccessMode = READ_ONLY | READ_WRITE | CREATE_READ_WRITE
datatype LockType = LockType_None | LockType_Exclusive | LockType_Shared

text \<open>
  A mapping; the pointer to the mapped region is the number of the file, and the path is kept for the
  calls that may fail.
\<close>

record SharedMemoryBase =
  sm_path :: path
  sm_fd :: nat
  sm_ino :: nat
  sm_mode :: AccessMode
  sm_mappedSize :: nat
  sm_lockType :: LockType

definition accessMode :: "SharedMemoryBase \<Rightarrow> AccessMode" where
  "accessMode h = (if sm_mode h = READ_ONLY then READ_ONLY else READ_WRITE)"

definition created :: "SharedMemoryBase \<Rightarrow> bool" where
  "created h \<longleftrightarrow> sm_mode h = CREATE_READ_WRITE"

definition isExclusive :: "SharedMemoryBase \<Rightarrow> bool" where
  "isExclusive h \<longleftrightarrow> sm_lockType h = LockType_Exclusive"

definition SharedMemory_dtor :: "SharedMemoryBase \<Rightarrow> posix \<Rightarrow> posix" where
  "SharedMemory_dtor h s = close_fd (sm_fd h) (sm_ino h) s"

text \<open>The lock that the constructor asks for, and the type it records.\<close>

definition wanted_lock :: "AccessMode \<Rightarrow> LockMode \<Rightarrow> lock option" where
  "wanted_lock mode lockMode =
     (if lockMode \<noteq> NoLock \<and> mode \<noteq> READ_ONLY
      then Some (if lockMode = Exclusive then LOCK_EX else LOCK_SH) else None)"

fun lock_type :: "lock option \<Rightarrow> LockType" where
  "lock_type None = LockType_None"
| "lock_type (Some LOCK_EX) = LockType_Exclusive"
| "lock_type (Some LOCK_SH) = LockType_Shared"

definition map_file :: "faults \<Rightarrow> path \<Rightarrow> nat \<Rightarrow> SharedMemoryBase \<Rightarrow> (posix, SharedMemoryBase) act" where
  "map_file flt p payloadSize h s =
     (case flt Call_fstat p of
        Some e \<Rightarrow> (Throw (SystemError e), s)
      | None \<Rightarrow>
          (let st_size = in_size (px_inodes s (sm_ino h))
           in if st_size \<ge> payloadSize then
                (case flt Call_mmap p of
                   Some e \<Rightarrow> (Throw (SystemError e), s)
                 | None \<Rightarrow> (Ret (h\<lparr>sm_mappedSize := st_size\<rparr>), s))
              else (Throw (SystemError ENOMEM), s)))"

definition lock_and_map ::
  "faults \<Rightarrow> AccessMode \<Rightarrow> LockMode \<Rightarrow> nat \<Rightarrow> SharedMemoryBase \<Rightarrow> (posix, SharedMemoryBase) act" where
  "lock_and_map flt mode lockMode payloadSize h s =
     (case wanted_lock mode lockMode of
        None \<Rightarrow> map_file flt (sm_path h) payloadSize h s
      | Some l \<Rightarrow>
          (case flock_nb flt (sm_path h) (sm_fd h) (sm_ino h) l s of
             (Some e, s) \<Rightarrow> (Throw (SystemError e), s)
           | (None, s) \<Rightarrow> map_file flt (sm_path h) payloadSize (h\<lparr>sm_lockType := lock_type (Some l)\<rparr>) s))"

definition new_mapping :: "path \<Rightarrow> nat \<Rightarrow> nat \<Rightarrow> AccessMode \<Rightarrow> SharedMemoryBase" where
  "new_mapping p fd ino mode =
     \<lparr>sm_path = p, sm_fd = fd, sm_ino = ino, sm_mode = mode, sm_mappedSize = 0, sm_lockType = LockType_None\<rparr>"

text \<open>
  The constructor: a file that is asked to be created and exists is opened instead. The destructor runs
  when the constructor throws, since it delegates to another one. Allocating no bytes is an error.
\<close>

definition SharedMemory_ctor ::
  "faults \<Rightarrow> path \<Rightarrow> AccessMode \<Rightarrow> nat \<Rightarrow> LockMode \<Rightarrow> (posix, SharedMemoryBase) act" where
  "SharedMemory_ctor flt p mode payloadSize lockMode s =
     (case (if mode = CREATE_READ_WRITE then open_create flt p s else (Inl EEXIST, s)) of
        (Inr (fd, ino), s) \<Rightarrow>
          (let h = new_mapping p fd ino CREATE_READ_WRITE
           in case (if payloadSize = 0 then Some EOTHER else flt Call_fallocate p) of
                Some e \<Rightarrow> (Throw (SystemError e), SharedMemory_dtor h s)
              | None \<Rightarrow>
                  unwind (SharedMemory_dtor h) (lock_and_map flt mode lockMode payloadSize h)
                    (set_size ino payloadSize s))
      | (Inl _, s) \<Rightarrow>
          (case open_existing flt p s of
             (Inl e, s) \<Rightarrow> (Throw (SystemError e), s)
           | (Inr (fd, ino), s) \<Rightarrow>
               (let h = new_mapping p fd ino (if mode = READ_ONLY then READ_ONLY else READ_WRITE)
                in unwind (SharedMemory_dtor h) (lock_and_map flt mode lockMode payloadSize h) s)))"

text \<open>\<^verbatim>\<open>SharedMemoryInstance<T>\<close>: the mapping has room for a \<open>T\<close>, which is initialized in a new file.\<close>

definition SharedMemoryInstance_ctor ::
  "nat \<Rightarrow> content \<Rightarrow> faults \<Rightarrow> path \<Rightarrow> AccessMode \<Rightarrow> nat \<Rightarrow> LockMode \<Rightarrow> (posix, SharedMemoryBase) act" where
  "SharedMemoryInstance_ctor sizeof_T initial flt p mode payloadSize lockMode =
     bind_act (SharedMemory_ctor flt p mode (payloadSize + sizeof_T) lockMode) (\<lambda>h s.
       if created h then
         if sm_mappedSize h < payloadSize + sizeof_T then (Throw RuntimeError, SharedMemory_dtor h s)
         else (Ret h, set_content (sm_ino h) initial s)
       else (Ret h, s))"

definition makeExclusive :: "faults \<Rightarrow> SharedMemoryBase \<Rightarrow> (posix, bool \<times> SharedMemoryBase) act" where
  "makeExclusive flt h s =
     (if sm_lockType h = LockType_Exclusive then (Ret (True, h), s)
      else case flock_nb flt (sm_path h) (sm_fd h) (sm_ino h) LOCK_EX s of
          (Some EWOULDBLOCK, s) \<Rightarrow> (Ret (False, h), s)
        | (Some EBADF, s) \<Rightarrow> (Throw RuntimeError, s)
        | (Some e, s) \<Rightarrow> (Throw (SystemError e), s)
        | (None, s) \<Rightarrow> (Ret (True, h\<lparr>sm_lockType := LockType_Exclusive\<rparr>), s))"

definition sm_swap :: "SharedMemoryBase \<Rightarrow> SharedMemoryBase \<Rightarrow> SharedMemoryBase \<times> SharedMemoryBase" where
  "sm_swap a b = (b, a)"

section \<open>The lock table\<close>

named_theorems posix_simps \<open>how the system calls change the parts of the state\<close>

lemma locks_of_set [posix_simps]:
  "locks_of (set_locks ino ls s) = (locks_of s)(ino := ls)"
  "locks_of (set_content ino c s) = locks_of s"
  "locks_of (set_size ino n s) = locks_of s"
  "locks_of (s\<lparr>px_nodes := ns\<rparr>) = locks_of s"
  "locks_of (s\<lparr>px_nextFd := k\<rparr>) = locks_of s"
  "locks_of (s\<lparr>px_nextIno := k\<rparr>) = locks_of s"
  by (auto simp: locks_of_def set_locks_def set_content_def set_size_def set_inode_def)

lemma frame_set [posix_simps]:
  "px_nodes (set_locks ino ls s) = px_nodes s" "px_nextFd (set_locks ino ls s) = px_nextFd s"
  "px_nextIno (set_locks ino ls s) = px_nextIno s"
  "px_nodes (set_content ino c s) = px_nodes s" "px_nextFd (set_content ino c s) = px_nextFd s"
  "px_nextIno (set_content ino c s) = px_nextIno s"
  "px_nodes (set_size ino n s) = px_nodes s" "px_nextFd (set_size ino n s) = px_nextFd s"
  "px_nextIno (set_size ino n s) = px_nextIno s"
  by (auto simp: set_locks_def set_content_def set_size_def set_inode_def)

lemma content_of_set [posix_simps]:
  "content_of (set_locks ino ls s) = content_of s"
  "content_of (set_content ino c s) = (content_of s)(ino := c)"
  "content_of (set_size ino n s) = content_of s"
  "content_of (s\<lparr>px_nodes := ns\<rparr>) = content_of s"
  "content_of (s\<lparr>px_nextFd := k\<rparr>) = content_of s"
  by (auto simp: content_of_def set_locks_def set_content_def set_size_def set_inode_def)

definition size_of :: "posix \<Rightarrow> nat \<Rightarrow> nat" where
  "size_of s ino = in_size (px_inodes s ino)"

lemma size_of_set [posix_simps]:
  "size_of (set_locks ino ls s) = size_of s"
  "size_of (set_content ino c s) = size_of s"
  "size_of (set_size ino n s) = (size_of s)(ino := n)"
  "size_of (s\<lparr>px_nodes := ns\<rparr>) = size_of s"
  "size_of (s\<lparr>px_nextFd := k\<rparr>) = size_of s"
  by (auto simp: size_of_def set_locks_def set_content_def set_size_def set_inode_def)

lemma fresh_file_simps [posix_simps]:
  "fst (fresh_file p s) = px_nextIno s"
  "locks_of (snd (fresh_file p s)) = (locks_of s)(px_nextIno s := [])"
  "px_nodes (snd (fresh_file p s)) = (p, Regular (px_nextIno s)) # px_nodes s"
  "px_nextIno (snd (fresh_file p s)) = px_nextIno s + 1"
  "px_nextFd (snd (fresh_file p s)) = px_nextFd s"
  by (auto simp: fresh_file_def locks_of_def set_inode_def)

text \<open>An exclusive lock is alone, no descriptor has two locks, and locks belong to descriptors that were opened.\<close>

definition lock_list_ok :: "nat \<Rightarrow> (nat \<times> lock) list \<Rightarrow> bool" where
  "lock_list_ok n ls \<longleftrightarrow>
     distinct (map fst ls) \<and> (\<forall>(fd, l) \<in> set ls. fd < n) \<and> (\<forall>fd. (fd, LOCK_EX) \<in> set ls \<longrightarrow> set ls = {(fd, LOCK_EX)})"

lemma lock_list_ok_filter: "lock_list_ok n ls \<Longrightarrow> lock_list_ok n (filter P ls)"
  by (auto simp: lock_list_ok_def distinct_map_filter)

lemma lock_list_ok_mono: "lock_list_ok n ls \<Longrightarrow> n \<le> m \<Longrightarrow> lock_list_ok m ls"
  by (auto simp: lock_list_ok_def)

lemma lock_list_ok_Nil [simp]: "lock_list_ok n []"
  by (simp add: lock_list_ok_def)

lemma lock_list_ok_add:
  assumes "lock_list_ok n ls" "fd < n" "others = filter (\<lambda>e. fst e \<noteq> fd) ls" "\<not> conflicts fd l others"
  shows "lock_list_ok n ((fd, l) # others)"
proof -
  have o': "lock_list_ok n others"
    using assms lock_list_ok_filter by simp
  have no: "\<And>l'. (fd, l') \<notin> set others"
    using assms(3) by simp
  show ?thesis
  proof (cases l)
    case LOCK_EX
    then have "others = []"
      using assms(4) no by (cases others) (auto simp: conflicts_def list_ex_iff)
    then show ?thesis
      using LOCK_EX assms(2) by (simp add: lock_list_ok_def)
  next
    case LOCK_SH
    then have "\<And>fd'. (fd', LOCK_EX) \<notin> set others"
      using assms(4) no by (auto simp: conflicts_def list_ex_iff)
    then show ?thesis
      using LOCK_SH o' no assms(2) unfolding lock_list_ok_def by (auto simp: image_iff)
  qed
qed

lemma lone_exclusive:
  assumes "(fd, LOCK_EX) \<in> set ls" "lock_list_ok n ls"
  shows "ls = [(fd, LOCK_EX)]"
proof -
  have "set ls = {(fd, LOCK_EX)}" "distinct ls"
    using assms by (auto simp: lock_list_ok_def distinct_map)
  then show ?thesis
    by (cases ls; cases "tl ls") auto
qed

lemma flock_nb_cases:
  assumes "flock_nb flt p fd ino l s = (r, s')"
  obtains (held) "r = None" "s' = s" "(fd, l) \<in> set (locks_of s ino)"
    | (granted) others where "r = None" "others = filter (\<lambda>e. fst e \<noteq> fd) (locks_of s ino)"
        "\<not> conflicts fd l others" "s' = set_locks ino ((fd, l) # others) s"
    | (refused) others where "r = Some EWOULDBLOCK" "others = filter (\<lambda>e. fst e \<noteq> fd) (locks_of s ino)"
        "conflicts fd l others" "s' = set_locks ino others s"
    | (failed) e where "r = Some e" "s' = s" "flt Call_flock p = Some e"
proof (cases "flt Call_flock p")
  case (Some e)
  then show ?thesis
    using assms failed [of e] by (auto simp: flock_nb_def)
next
  case None
  define others where "others = filter (\<lambda>e. fst e \<noteq> fd) (locks_of s ino)"
  show ?thesis
  proof (cases "(fd, l) \<in> set (locks_of s ino)")
    case True
    then show ?thesis
      using assms None held by (simp add: flock_nb_def)
  next
    case False
    then show ?thesis
      using assms None granted [OF _ others_def] refused [OF _ others_def]
      by (cases "conflicts fd l others") (auto simp: flock_nb_def Let_def others_def [symmetric])
  qed
qed


text \<open>The tables of the operating system: files have numbers below the next free one, and only they have locks.\<close>

definition posix_ok :: "posix \<Rightarrow> bool" where
  "posix_ok s \<longleftrightarrow>
     (\<forall>ino. lock_list_ok (px_nextFd s) (locks_of s ino)) \<and>
     (\<forall>ino \<ge> px_nextIno s. locks_of s ino = []) \<and>
     (\<forall>p ino. (p, Regular ino) \<in> set (px_nodes s) \<longrightarrow> ino < px_nextIno s)"

lemma posix_ok_fresh_fd: "posix_ok s \<Longrightarrow> posix_ok (s\<lparr>px_nextFd := px_nextFd s + 1\<rparr>)"
  by (auto simp: posix_ok_def posix_simps intro: lock_list_ok_mono)

lemma posix_ok_fresh_file: "posix_ok s \<Longrightarrow> posix_ok (snd (fresh_file p s))"
  by (auto simp: posix_ok_def posix_simps intro: less_SucI)

lemma posix_ok_nextFd: "posix_ok s \<Longrightarrow> (px_nextFd s, l) \<notin> set (locks_of s ino)"
  by (fastforce simp: posix_ok_def lock_list_ok_def)

lemma posix_ok_locks:
  assumes "posix_ok s" "lock_list_ok (px_nextFd s) ls" "ino < px_nextIno s"
  shows "posix_ok (set_locks ino ls s)"
  using assms by (auto simp: posix_ok_def posix_simps)

lemma posix_ok_frame:
  assumes "posix_ok s" "locks_of t = locks_of s" "px_nextFd t = px_nextFd s" "px_nextIno t = px_nextIno s"
    "px_nodes t = px_nodes s"
  shows "posix_ok t"
  using assms by (simp add: posix_ok_def)

lemma posix_ok_close: "posix_ok s \<Longrightarrow> posix_ok (close_fd fd ino s)"
  by (auto simp: posix_ok_def close_fd_def posix_simps lock_list_ok_filter)

lemma open_create_cases:
  assumes "open_create flt p s = (r, s')" and "posix_ok s"
  obtains (opened) "r = Inr (px_nextFd s, px_nextIno s)" "posix_ok s'" "locks_of s' = locks_of s"
      "px_nextFd s' = px_nextFd s + 1" "px_nextIno s' = px_nextIno s + 1"
      "px_nodes s' = (p, Regular (px_nextIno s)) # px_nodes s" "\<not> path_exists s p"
    | (failed) e where "r = Inl e" "s' = s"
proof (cases "flt Call_open p = None \<and> \<not> path_exists s p \<and> is_directory s (butlast p)")
  case True
  define t where "t = snd (fresh_file p s)"
  have t: "fresh_file p s = (px_nextIno s, t)" "px_nextFd t = px_nextFd s" "px_nextIno t = px_nextIno s + 1"
    "px_nodes t = (p, Regular (px_nextIno s)) # px_nodes s" "posix_ok t"
    using assms(2) by (simp_all add: t_def prod_eq_iff posix_simps posix_ok_fresh_file)
  have "locks_of t = locks_of s"
    using assms(2) by (auto simp: t_def posix_simps posix_ok_def)
  moreover have "r = Inr (px_nextFd s, px_nextIno s)" "s' = t\<lparr>px_nextFd := px_nextFd t + 1\<rparr>"
    using True assms(1) t by (auto simp: open_create_def fresh_fd_def)
  ultimately show ?thesis
    using True t opened posix_ok_fresh_fd [OF t(5)] by (auto simp: posix_simps)
next
  case False
  then show ?thesis
    using assms(1) failed by (auto simp: open_create_def split: option.splits if_splits)
qed

lemma open_existing_cases:
  assumes "open_existing flt p s = (r, s')" and "posix_ok s"
  obtains (opened) ino where "r = Inr (px_nextFd s, ino)" "posix_ok s'" "locks_of s' = locks_of s"
      "px_nextFd s' = px_nextFd s + 1" "px_nextIno s' = px_nextIno s" "ino < px_nextIno s"
      "px_nodes s' = px_nodes s" "px_inodes s' = px_inodes s" "lookup s p = Some (Regular ino)"
    | (failed) e where "r = Inl e" "s' = s"
proof (cases "\<exists>ino. flt Call_open p = None \<and> lookup s p = Some (Regular ino)")
  case True
  then obtain ino where i: "flt Call_open p = None" "lookup s p = Some (Regular ino)" by blast
  then have "ino < px_nextIno s"
    using assms(2) by (auto simp: lookup_def posix_ok_def dest: map_of_SomeD)
  moreover have "r = Inr (px_nextFd s, ino)" "s' = s\<lparr>px_nextFd := px_nextFd s + 1\<rparr>"
    using i assms(1) by (auto simp: open_existing_def fresh_fd_def)
  ultimately show ?thesis
    using opened posix_ok_fresh_fd [OF assms(2)] i by (auto simp: posix_simps)
next
  case False
  then show ?thesis
    using assms(1) failed by (auto simp: open_existing_def split: option.splits node.splits)
qed


text \<open>The lock table with one more entry for a file, or none.\<close>

fun add_lock :: "nat \<Rightarrow> nat \<Rightarrow> lock option \<Rightarrow> (nat \<Rightarrow> (nat \<times> lock) list) \<Rightarrow> nat \<Rightarrow> (nat \<times> lock) list" where
  "add_lock fd ino None L = L"
| "add_lock fd ino (Some l) L = L(ino := (fd, l) # L ino)"

lemma map_file_cases:
  assumes "map_file flt p n h s = (r, s')"
  shows "s' = s \<and> ((\<exists>e. r = Throw e) \<or> (n \<le> in_size (px_inodes s (sm_ino h)) \<and>
    r = Ret (h\<lparr>sm_mappedSize := in_size (px_inodes s (sm_ino h))\<rparr>)))"
  using assms by (auto simp: map_file_def Let_def split: option.splits if_splits)

definition unlocked_fd :: "nat \<Rightarrow> posix \<Rightarrow> bool" where
  "unlocked_fd fd s \<longleftrightarrow> (\<forall>ino l. (fd, l) \<notin> set (locks_of s ino))"

lemma filter_unlocked:
  assumes "unlocked_fd fd s"
  shows "filter (\<lambda>e. fst e \<noteq> fd) (locks_of s ino) = locks_of s ino"
  using assms by (auto simp: unlocked_fd_def filter_id_conv)

lemma lock_and_map_cases:
  assumes "lock_and_map flt mode lm n h s = (r, s')"
    and ok: "posix_ok s" "unlocked_fd (sm_fd h) s" "sm_fd h < px_nextFd s" "sm_ino h < px_nextIno s"
    and new: "sm_lockType h = LockType_None"
  obtains (mapped) "r = Ret (h\<lparr>sm_lockType := lock_type (wanted_lock mode lm),
          sm_mappedSize := in_size (px_inodes s (sm_ino h))\<rparr>)"
      "n \<le> in_size (px_inodes s (sm_ino h))"
      "\<And>l. wanted_lock mode lm = Some l \<Longrightarrow> \<not> conflicts (sm_fd h) l (locks_of s (sm_ino h))"
      "s' = (case wanted_lock mode lm of None \<Rightarrow> s
             | Some l \<Rightarrow> set_locks (sm_ino h) ((sm_fd h, l) # locks_of s (sm_ino h)) s)"
    | (failed) e where "r = Throw e"
      "locks_of (SharedMemory_dtor h s') = locks_of s" "px_nextFd s' = px_nextFd s" "px_nextIno s' = px_nextIno s"
      "px_nodes s' = px_nodes s" "\<And>i. content_of s' i = content_of s i"
proof (cases "wanted_lock mode lm")
  case None
  have same: "locks_of (SharedMemory_dtor h s) = locks_of s"
    using filter_unlocked [OF ok(2)] by (auto simp: SharedMemory_dtor_def close_fd_def posix_simps)
  from None have h': "h\<lparr>sm_lockType := lock_type (wanted_lock mode lm)\<rparr> = h"
    using new by (cases h) simp
  show ?thesis
    using assms(1) None map_file_cases [of flt "sm_path h" n h s r s'] mapped failed same new
    by (auto simp: lock_and_map_def)
next
  case (Some l)
  let ?others = "filter (\<lambda>e. fst e \<noteq> sm_fd h) (locks_of s (sm_ino h))"
  note id = filter_unlocked [OF ok(2), of "sm_ino h"]
  obtain e t where f: "flock_nb flt (sm_path h) (sm_fd h) (sm_ino h) l s = (e, t)"
    by fastforce
  have "locks_of (SharedMemory_dtor h t) = locks_of s \<and> px_nextFd t = px_nextFd s \<and> px_nextIno t = px_nextIno s \<and>
      px_nodes t = px_nodes s \<and> (\<forall>i. content_of t i = content_of s i)"
    using f
    by (cases rule: flock_nb_cases)
      (auto simp: id SharedMemory_dtor_def close_fd_def posix_simps)
  then have restored: "locks_of (SharedMemory_dtor h t) = locks_of s" "px_nextFd t = px_nextFd s" "px_nextIno t = px_nextIno s"
      "px_nodes t = px_nodes s" "\<And>i. content_of t i = content_of s i"
    by auto
  show ?thesis
  proof (cases e)
    case None
    then have t: "t = set_locks (sm_ino h) ((sm_fd h, l) # locks_of s (sm_ino h)) s"
      "\<not> conflicts (sm_fd h) l (locks_of s (sm_ino h))"
      using f ok(2) id by (auto elim!: flock_nb_cases simp: unlocked_fd_def)
    then have size: "in_size (px_inodes t (sm_ino h)) = in_size (px_inodes s (sm_ino h))"
      by (simp add: set_locks_def set_inode_def)
    have "map_file flt (sm_path h) n (h\<lparr>sm_lockType := lock_type (Some l)\<rparr>) t = (r, s')"
      using assms(1) Some None f by (simp add: lock_and_map_def)
    from map_file_cases [OF this] show ?thesis
      using mapped failed restored t Some size by auto
  next
    case (Some e')
    then show ?thesis
      using assms(1) \<open>wanted_lock mode lm = Some l\<close> f failed restored by (auto simp: lock_and_map_def)
  qed
qed


lemma unlocked_next: "posix_ok s \<Longrightarrow> locks_of t = locks_of s \<Longrightarrow> unlocked_fd (px_nextFd s) t"
  by (simp add: unlocked_fd_def posix_ok_nextFd)

lemma posix_ok_added_lock:
  assumes "posix_ok t" "unlocked_fd fd t" "fd < px_nextFd t" "ino < px_nextIno t" "\<not> conflicts fd l (locks_of t ino)"
  shows "posix_ok (set_locks ino ((fd, l) # locks_of t ino) t)"
proof (rule posix_ok_locks)
  have "lock_list_ok (px_nextFd t) (locks_of t ino)"
    using assms(1) by (simp add: posix_ok_def)
  then show "lock_list_ok (px_nextFd t) ((fd, l) # locks_of t ino)"
    using assms filter_unlocked [OF assms(2), of ino] lock_list_ok_add [of "px_nextFd t" "locks_of t ino" fd "locks_of t ino" l]
    by simp
qed (use assms in auto)

lemma posix_ok_restored:
  assumes "posix_ok t" "locks_of (SharedMemory_dtor h u) = locks_of t" "px_nextFd u = px_nextFd t"
    "px_nextIno u = px_nextIno t" "px_nodes u = px_nodes t"
  shows "posix_ok (SharedMemory_dtor h u)"
  using assms by (intro posix_ok_frame [OF assms(1)]) (auto simp: SharedMemory_dtor_def close_fd_def posix_simps)

text \<open>What follows a successful \<^verbatim>\<open>open\<close>: the mapping with its lock, or the state without the descriptor.\<close>

lemma open_then_map:
  assumes "unwind (SharedMemory_dtor h) (lock_and_map flt mode lm n h) t = (r, s')"
    and "posix_ok t" "unlocked_fd (sm_fd h) t" "sm_fd h < px_nextFd t" "sm_ino h < px_nextIno t"
    and "sm_lockType h = LockType_None"
  obtains (mapped) "r = Ret (h\<lparr>sm_lockType := lock_type (wanted_lock mode lm), sm_mappedSize := size_of t (sm_ino h)\<rparr>)"
      "n \<le> size_of t (sm_ino h)"
      "\<And>l. wanted_lock mode lm = Some l \<Longrightarrow> \<not> conflicts (sm_fd h) l (locks_of t (sm_ino h))"
      "locks_of s' = add_lock (sm_fd h) (sm_ino h) (wanted_lock mode lm) (locks_of t)" "posix_ok s'"
      "px_nodes s' = px_nodes t" "px_nextFd s' = px_nextFd t" "px_nextIno s' = px_nextIno t"
      "content_of s' = content_of t" "size_of s' = size_of t"
    | (failed) e where "r = Throw e" "locks_of s' = locks_of t" "posix_ok s'" "px_nodes s' = px_nodes t"
      "px_nextFd s' = px_nextFd t" "px_nextIno s' = px_nextIno t" "content_of s' = content_of t"
proof -
  obtain r' u where m: "lock_and_map flt mode lm n h t = (r', u)"
    by fastforce
  show ?thesis
    using m assms(2-6)
  proof (cases rule: lock_and_map_cases)
    case mapped': mapped
    have "r = r'" "s' = u"
      using assms(1) m mapped'(1) by (auto simp: unwind_def)
    moreover have "posix_ok u"
      using mapped' posix_ok_added_lock assms(2-5) by (auto split: option.splits)
    ultimately show ?thesis
      using mapped' by (intro mapped) (auto simp: size_of_def [symmetric] posix_simps split: option.splits)
  next
    case failed': (failed e)
    have "r = Throw e" "s' = SharedMemory_dtor h u"
      using assms(1) m failed'(1) by (auto simp: unwind_def)
    moreover have "content_of (SharedMemory_dtor h u) = content_of t"
      using failed' by (auto simp: SharedMemory_dtor_def close_fd_def posix_simps)
    ultimately show ?thesis
      using failed' posix_ok_restored [OF assms(2) failed'(2-5)] failed
      by (auto simp: SharedMemory_dtor_def close_fd_def posix_simps)
  qed
qed


section \<open>What the constructor guarantees\<close>

text \<open>
  A mapping of at least the size that was asked for, of a new file or of the one the path names, whose
  descriptor is new and has the lock that was asked for; nothing else changes.
\<close>

definition new_file_at :: "path \<Rightarrow> nat \<Rightarrow> posix \<Rightarrow> posix \<Rightarrow> bool" where
  "new_file_at p n s s' \<longleftrightarrow>
     \<not> path_exists s p \<and> px_nodes s' = (p, Regular (px_nextIno s)) # px_nodes s \<and> px_nextIno s' = px_nextIno s + 1 \<and>
     content_of s' = (content_of s)(px_nextIno s := Zeros) \<and> size_of s' = (size_of s)(px_nextIno s := n)"

definition same_files :: "posix \<Rightarrow> posix \<Rightarrow> bool" where
  "same_files s s' \<longleftrightarrow>
     px_nodes s' = px_nodes s \<and> px_nextIno s' = px_nextIno s \<and> content_of s' = content_of s \<and> size_of s' = size_of s"

definition mapped_file :: "path \<Rightarrow> AccessMode \<Rightarrow> LockMode \<Rightarrow> nat \<Rightarrow> posix \<Rightarrow> SharedMemoryBase \<Rightarrow> posix \<Rightarrow> bool" where
  "mapped_file p mode lm n s h s' \<longleftrightarrow>
     sm_path h = p \<and> sm_fd h = px_nextFd s \<and> px_nextFd s' = px_nextFd s + 1 \<and>
     sm_lockType h = lock_type (wanted_lock mode lm) \<and> n \<le> sm_mappedSize h \<and> sm_mappedSize h = size_of s' (sm_ino h) \<and>
     locks_of s' = add_lock (sm_fd h) (sm_ino h) (wanted_lock mode lm) (locks_of s) \<and>
     (\<forall>l. wanted_lock mode lm = Some l \<longrightarrow> \<not> conflicts (sm_fd h) l (locks_of s (sm_ino h))) \<and>
     (if created h then mode = CREATE_READ_WRITE \<and> sm_ino h = px_nextIno s \<and> sm_mappedSize h = n \<and> new_file_at p n s s'
      else lookup s p = Some (Regular (sm_ino h)) \<and> same_files s s' \<and>
           sm_mode h = (if mode = READ_ONLY then READ_ONLY else READ_WRITE))"

text \<open>A failed constructor keeps no descriptor and no lock; a file it created stays behind.\<close>

definition ctor_failed :: "path \<Rightarrow> AccessMode \<Rightarrow> posix \<Rightarrow> posix \<Rightarrow> bool" where
  "ctor_failed p mode s s' \<longleftrightarrow>
     locks_of s' = locks_of s \<and> px_nextFd s \<le> px_nextFd s' \<and>
     (px_nodes s' = px_nodes s \<and> px_nextIno s' = px_nextIno s \<and> content_of s' = content_of s \<or>
      mode = CREATE_READ_WRITE \<and> \<not> path_exists s p \<and> px_nodes s' = (p, Regular (px_nextIno s)) # px_nodes s \<and>
      px_nextIno s' = px_nextIno s + 1 \<and> content_of s' = (content_of s)(px_nextIno s := Zeros))"

lemma open_create_content:
  "open_create flt p s = (Inr (fd, ino), s') \<Longrightarrow>
     content_of s' = (content_of s)(px_nextIno s := Zeros) \<and> (\<forall>i. i \<noteq> px_nextIno s \<longrightarrow> size_of s' i = size_of s i)"
  by (auto simp: open_create_def fresh_file_def fresh_fd_def content_of_def size_of_def set_inode_def Let_def
      split: option.splits if_splits)

lemma SharedMemory_ctor_created:
  assumes ctor: "SharedMemory_ctor flt p CREATE_READ_WRITE n lm s = (r, s')" and ok: "posix_ok s"
    and opened: "open_create flt p s = (Inr (fd, ino), t)"
  shows "posix_ok s' \<and> ((\<exists>h. r = Ret h \<and> created h \<and> mapped_file p CREATE_READ_WRITE lm n s h s') \<or>
    ((\<exists>e. r = Throw e) \<and> ctor_failed p CREATE_READ_WRITE s s'))"
proof -
  let ?h = "new_mapping p fd ino CREATE_READ_WRITE"
  note c = open_create_content [OF opened]
  have o1: "fd = px_nextFd s" "ino = px_nextIno s" "posix_ok t" "locks_of t = locks_of s" "px_nextFd t = px_nextFd s + 1"
      "px_nextIno t = px_nextIno s + 1" "px_nodes t = (p, Regular (px_nextIno s)) # px_nodes s" "\<not> path_exists s p"
    using opened ok by (auto elim!: open_create_cases)
  have un: "unlocked_fd fd t"
    using o1 ok unlocked_next by simp
  show ?thesis
  proof (cases "if n = 0 then Some EOTHER else flt Call_fallocate p")
    case (Some e)
    then have "r = Throw (SystemError e)" "s' = close_fd fd ino t"
      using ctor opened by (auto simp: SharedMemory_ctor_def SharedMemory_dtor_def new_mapping_def)
    moreover have "locks_of (close_fd fd ino t) = locks_of s" "px_nodes (close_fd fd ino t) = px_nodes t"
        "px_nextFd (close_fd fd ino t) = px_nextFd t" "px_nextIno (close_fd fd ino t) = px_nextIno t"
        "content_of (close_fd fd ino t) = content_of t"
      using o1 filter_unlocked [OF un] by (auto simp: close_fd_def posix_simps)
    ultimately show ?thesis
      using o1 c posix_ok_close [OF o1(3)] by (auto simp: ctor_failed_def)
  next
    case None
    define u where "u = set_size ino n t"
    have u: "posix_ok u" "locks_of u = locks_of t" "px_nextFd u = px_nextFd t" "px_nextIno u = px_nextIno t"
        "px_nodes u = px_nodes t" "content_of u = content_of t" "size_of u = (size_of t)(ino := n)"
      using o1(3) by (auto simp: u_def posix_simps intro: posix_ok_frame)
    have run: "unwind (SharedMemory_dtor ?h) (lock_and_map flt CREATE_READ_WRITE lm n ?h) u = (r, s')"
      using ctor opened None by (auto simp: SharedMemory_ctor_def u_def Let_def split: if_splits)
    have h: "unlocked_fd (sm_fd ?h) u" "sm_fd ?h < px_nextFd u" "sm_ino ?h < px_nextIno u" "sm_lockType ?h = LockType_None"
      using u un o1 by (auto simp: new_mapping_def unlocked_fd_def)
    show ?thesis
      using run u(1) h
    proof (cases rule: open_then_map)
      case mapped
      have "size_of s' i = ((size_of s)(px_nextIno s := n)) i" for i
        using mapped u o1 c by auto
      then have "size_of s' = (size_of s)(px_nextIno s := n)"
        by (rule ext)
      then show ?thesis
        using mapped u o1 c
        by (auto simp: mapped_file_def new_mapping_def created_def new_file_at_def split: if_splits)
    next
      case (failed e)
      then show ?thesis
        using u o1 c by (auto simp: ctor_failed_def)
    qed
  qed
qed

lemma SharedMemory_ctor_existing:
  assumes ctor: "SharedMemory_ctor flt p mode n lm s = (r, s')" and ok: "posix_ok s"
    and not_opened: "mode = CREATE_READ_WRITE \<Longrightarrow> \<exists>e. open_create flt p s = (Inl e, s)"
  shows "posix_ok s' \<and> ((\<exists>h. r = Ret h \<and> \<not> created h \<and> mapped_file p mode lm n s h s') \<or>
    ((\<exists>e. r = Throw e) \<and> ctor_failed p mode s s'))"
proof -
  obtain x t where op: "open_existing flt p s = (x, t)"
    by fastforce
  have run: "(case (x, t) of
             (Inl e, s) \<Rightarrow> (Throw (SystemError e), s)
           | (Inr (fd, ino), s) \<Rightarrow>
               (let h = new_mapping p fd ino (if mode = READ_ONLY then READ_ONLY else READ_WRITE)
                in unwind (SharedMemory_dtor h) (lock_and_map flt mode lm n h) s)) = (r, s')"
    using ctor not_opened op by (cases "mode = CREATE_READ_WRITE") (auto simp: SharedMemory_ctor_def Let_def split: sum.splits)
  show ?thesis
    using op ok
  proof (cases rule: open_existing_cases)
    case (opened ino)
    let ?h = "new_mapping p (px_nextFd s) ino (if mode = READ_ONLY then READ_ONLY else READ_WRITE)"
    have un: "unlocked_fd (px_nextFd s) t"
      using opened ok unlocked_next by simp
    have same: "content_of t = content_of s" "size_of t = size_of s"
      using opened by (auto simp: content_of_def size_of_def)
    have run': "unwind (SharedMemory_dtor ?h) (lock_and_map flt mode lm n ?h) t = (r, s')"
      using run opened by (simp add: Let_def)
    have h: "unlocked_fd (sm_fd ?h) t" "sm_fd ?h < px_nextFd t" "sm_ino ?h < px_nextIno t" "sm_lockType ?h = LockType_None"
      using opened un by (auto simp: new_mapping_def unlocked_fd_def)
    show ?thesis
      using run' opened(2) h
    proof (cases rule: open_then_map)
      case mapped
      then show ?thesis
        using opened same
        by (auto simp: mapped_file_def new_mapping_def created_def same_files_def split: if_splits)
    next
      case (failed e)
      then show ?thesis
        using opened same by (auto simp: ctor_failed_def)
    qed
  next
    case (failed e)
    then show ?thesis
      using run ok by (auto simp: ctor_failed_def)
  qed
qed

lemma SharedMemory_ctor_spec:
  assumes "SharedMemory_ctor flt p mode n lm s = (r, s')" and "posix_ok s"
  shows "posix_ok s' \<and> ((\<exists>h. r = Ret h \<and> mapped_file p mode lm n s h s') \<or>
    ((\<exists>e. r = Throw e) \<and> ctor_failed p mode s s'))"
proof (cases "mode = CREATE_READ_WRITE \<and> (\<exists>fd ino t. open_create flt p s = (Inr (fd, ino), t))")
  case True
  then show ?thesis
    using SharedMemory_ctor_created assms by blast
next
  case False
  obtain x t where x: "open_create flt p s = (x, t)"
    by fastforce
  have "mode = CREATE_READ_WRITE \<Longrightarrow> \<exists>e. open_create flt p s = (Inl e, s)"
    using x assms(2) False by (cases rule: open_create_cases) (auto simp: x)
  then show ?thesis
    using SharedMemory_ctor_existing [OF assms] by blast
qed


section \<open>Processes that share files\<close>

text \<open>
  The mappings of all processes on one machine, in any order of opening, upgrading and closing, while
  directories are removed and renamed.
\<close>

inductive sm_step :: "posix \<times> SharedMemoryBase list \<Rightarrow> posix \<times> SharedMemoryBase list \<Rightarrow> bool" where
  sm_open: "SharedMemory_ctor flt p mode n lm s = (Ret h, s') \<Longrightarrow> sm_step (s, hs) (s', h # hs)"
| sm_open_failed: "SharedMemory_ctor flt p mode n lm s = (Throw e, s') \<Longrightarrow> sm_step (s, hs) (s', hs)"
| sm_upgrade: "makeExclusive flt h s = (Ret (b, h'), s') \<Longrightarrow> sm_step (s, as @ h # bs) (s', as @ h' # bs)"
| sm_upgrade_failed: "makeExclusive flt h s = (Throw e, s') \<Longrightarrow> sm_step (s, as @ h # bs) (s', as @ h # bs)"
| sm_close: "sm_step (s, as @ h # bs) (SharedMemory_dtor h s, as @ bs)"
| sm_remove: "remove_all flt p s = (r, s') \<Longrightarrow> sm_step (s, hs) (s', hs)"
| sm_rename: "rename_noreplace flt p q s = (r', s') \<Longrightarrow> sm_step (s, hs) (s', hs)"

inductive sm_reachable :: "posix \<times> SharedMemoryBase list \<Rightarrow> bool" where
  sm_initial: "posix_ok s \<Longrightarrow> \<forall>ino. locks_of s ino = [] \<Longrightarrow> sm_reachable (s, [])"
| sm_then: "sm_reachable st \<Longrightarrow> sm_step st st' \<Longrightarrow> sm_reachable st'"

inductive_cases sm_step_elim: "sm_step (s, hs) st'"

definition handle_ok :: "posix \<Rightarrow> SharedMemoryBase \<Rightarrow> bool" where
  "handle_ok s h \<longleftrightarrow>
     sm_fd h < px_nextFd s \<and> sm_ino h < px_nextIno s \<and>
     (isExclusive h \<longrightarrow> (sm_fd h, LOCK_EX) \<in> set (locks_of s (sm_ino h)))"

definition holds :: "SharedMemoryBase \<Rightarrow> nat \<Rightarrow> nat \<times> lock \<Rightarrow> bool" where
  "holds h ino e \<longleftrightarrow> sm_fd h = fst e \<and> sm_ino h = ino \<and> sm_lockType h = lock_type (Some (snd e))"

definition sm_inv :: "posix \<Rightarrow> SharedMemoryBase list \<Rightarrow> bool" where
  "sm_inv s hs \<longleftrightarrow>
     posix_ok s \<and> distinct (map sm_fd hs) \<and> (\<forall>h \<in> set hs. handle_ok s h) \<and>
     (\<forall>ino. \<forall>e \<in> set (locks_of s ino). \<exists>h \<in> set hs. holds h ino e)"

lemma lock_type_Exclusive [simp]: "lock_type l = LockType_Exclusive \<longleftrightarrow> l = Some LOCK_EX"
  by (cases l rule: lock_type.cases) auto

lemma posix_ok_subset:
  assumes "posix_ok s" "\<And>p i. (p, Regular i) \<in> set ns \<Longrightarrow> \<exists>q. (q, Regular i) \<in> set (px_nodes s)"
  shows "posix_ok (s\<lparr>px_nodes := ns\<rparr>)"
  using assms by (auto simp: posix_ok_def posix_simps) blast

lemma sm_inv_nodes:
  assumes "sm_inv s hs" "posix_ok (s\<lparr>px_nodes := ns\<rparr>)"
  shows "sm_inv (s\<lparr>px_nodes := ns\<rparr>) hs"
  using assms by (auto simp: sm_inv_def handle_ok_def posix_simps)

lemma sm_inv_remove: "sm_inv s hs \<Longrightarrow> remove_all flt p s = (r, s') \<Longrightarrow> sm_inv s' hs"
  by (auto simp: remove_all_def sm_inv_def posix_simps handle_ok_def intro!: posix_ok_subset split: option.splits)

lemma sm_inv_rename: "sm_inv s hs \<Longrightarrow> rename_noreplace flt p q s = (r, s') \<Longrightarrow> sm_inv s' hs"
  by (auto simp: rename_noreplace_def sm_inv_def posix_simps handle_ok_def intro!: posix_ok_subset
      split: option.splits if_splits)

lemma dtor_locks:
  "e \<in> set (locks_of (SharedMemory_dtor h s) ino) \<longleftrightarrow>
     e \<in> set (locks_of s ino) \<and> (ino = sm_ino h \<longrightarrow> fst e \<noteq> sm_fd h)"
  by (auto simp: SharedMemory_dtor_def close_fd_def posix_simps)

lemma dtor_frame:
  "px_nodes (SharedMemory_dtor h s) = px_nodes s" "px_nextFd (SharedMemory_dtor h s) = px_nextFd s"
  "px_nextIno (SharedMemory_dtor h s) = px_nextIno s" "content_of (SharedMemory_dtor h s) = content_of s"
  "size_of (SharedMemory_dtor h s) = size_of s"
  by (auto simp: SharedMemory_dtor_def close_fd_def posix_simps)

lemma sm_inv_close:
  assumes inv: "sm_inv s (as @ h # bs)"
  shows "sm_inv (SharedMemory_dtor h s) (as @ bs)"
  unfolding sm_inv_def
proof (intro conjI allI ballI)
  show "posix_ok (SharedMemory_dtor h s)"
    using inv posix_ok_close by (simp add: sm_inv_def SharedMemory_dtor_def)
  show "distinct (map sm_fd (as @ bs))"
    using inv by (simp add: sm_inv_def)
next
  fix h' assume "h' \<in> set (as @ bs)"
  moreover from this inv have "sm_fd h' \<noteq> sm_fd h" "handle_ok s h'"
    by (auto simp: sm_inv_def image_iff)
  ultimately show "handle_ok (SharedMemory_dtor h s) h'"
    by (simp add: handle_ok_def dtor_locks dtor_frame)
next
  fix ino e assume "e \<in> set (locks_of (SharedMemory_dtor h s) ino)"
  then have e: "e \<in> set (locks_of s ino)" "ino = sm_ino h \<longrightarrow> fst e \<noteq> sm_fd h"
    by (simp_all add: dtor_locks)
  then obtain h' where "h' \<in> set (as @ h # bs)" "holds h' ino e"
    using inv unfolding sm_inv_def by blast
  with e show "\<exists>h' \<in> set (as @ bs). holds h' ino e"
    by (auto simp: holds_def)
qed


lemma add_lock_iff:
  "e \<in> set (add_lock fd ino w L i) \<longleftrightarrow> e \<in> set (L i) \<or> i = ino \<and> (\<exists>l. w = Some l \<and> e = (fd, l))"
  by (cases w) auto

lemma sm_inv_open:
  assumes inv: "sm_inv s hs" and m: "mapped_file p mode lm n s h s'" and ok: "posix_ok s'"
  shows "sm_inv s' (h # hs)"
  unfolding sm_inv_def
proof (intro conjI allI ballI)
  note m = m [unfolded mapped_file_def]
  show "posix_ok s'" by (rule ok)
  show "distinct (map sm_fd (h # hs))"
    using inv m by (auto simp: sm_inv_def handle_ok_def)
  show "handle_ok s' h'" if "h' \<in> set (h # hs)" for h'
  proof (cases "h' = h")
    case True
    have "sm_ino h < px_nextIno s'"
      using m inv
      by (auto simp: sm_inv_def posix_ok_def lookup_def new_file_at_def same_files_def dest!: map_of_SomeD split: if_splits)
    with True show ?thesis
      using m by (simp add: handle_ok_def isExclusive_def add_lock_iff)
  next
    case False
    then have "handle_ok s h'"
      using that inv by (simp add: sm_inv_def)
    moreover have "px_nextIno s \<le> px_nextIno s'"
      using m by (auto simp: new_file_at_def same_files_def split: if_splits)
    ultimately show ?thesis
      using m by (simp add: handle_ok_def add_lock_iff)
  qed
  show "\<exists>h' \<in> set (h # hs). holds h' ino e" if "e \<in> set (locks_of s' ino)" for ino e
  proof (cases "e \<in> set (locks_of s ino)")
    case True
    then show ?thesis
      using inv unfolding sm_inv_def by auto
  next
    case False
    then show ?thesis
      using that m by (auto simp: add_lock_iff holds_def)
  qed
qed

lemma makeExclusive_cases:
  assumes "makeExclusive flt h s = (r, s')"
  obtains (already) "isExclusive h" "r = Ret (True, h)" "s' = s"
    | (granted) others where "\<not> isExclusive h" "r = Ret (True, h\<lparr>sm_lockType := LockType_Exclusive\<rparr>)"
        "others = filter (\<lambda>e. fst e \<noteq> sm_fd h) (locks_of s (sm_ino h))"
        "s' = s \<or> s' = set_locks (sm_ino h) ((sm_fd h, LOCK_EX) # others) s"
        "(sm_fd h, LOCK_EX) \<in> set (locks_of s' (sm_ino h))" "s' = s \<or> \<not> conflicts (sm_fd h) LOCK_EX others"
    | (refused) others where "\<not> isExclusive h" "r = Ret (False, h)"
        "others = filter (\<lambda>e. fst e \<noteq> sm_fd h) (locks_of s (sm_ino h))"
        "s' = s \<or> s' = set_locks (sm_ino h) others s" 
        "flt Call_flock (sm_path h) \<noteq> None \<or> conflicts (sm_fd h) LOCK_EX others"
    | (failed) e where "\<not> isExclusive h" "r = Throw e" "s' = s"
proof (cases "isExclusive h")
  case True
  then show ?thesis
    using assms already by (simp add: makeExclusive_def isExclusive_def)
next
  case False
  obtain e t where f: "flock_nb flt (sm_path h) (sm_fd h) (sm_ino h) LOCK_EX s = (e, t)"
    by fastforce
  have run: "(case (e, t) of
          (Some EWOULDBLOCK, s) \<Rightarrow> (Ret (False, h), s)
        | (Some EBADF, s) \<Rightarrow> (Throw RuntimeError, s)
        | (Some e, s) \<Rightarrow> (Throw (SystemError e), s)
        | (None, s) \<Rightarrow> (Ret (True, h\<lparr>sm_lockType := LockType_Exclusive\<rparr>), s)) = (r, s')"
    using assms False f by (simp add: makeExclusive_def isExclusive_def)
  show ?thesis
    using f
  proof (cases rule: flock_nb_cases)
    case held
    then show ?thesis
      using run False by (intro granted) auto
  next
    case g: (granted others)
    then show ?thesis
      using run False by (intro granted) (auto simp: posix_simps)
  next
    case r: (refused others)
    then show ?thesis
      using run False by (intro refused) auto
  next
    case fa: (failed e')
    then show ?thesis
      using run False by (cases e') (auto intro: failed refused)
  qed
qed

lemma locks_of_set_iff:
  "e \<in> set (locks_of (set_locks i ls s) ino) \<longleftrightarrow> (if ino = i then e \<in> set ls else e \<in> set (locks_of s ino))"
  by (simp add: posix_simps)

lemma handle_ok_frame:
  "handle_ok (set_locks i ls s) h \<longleftrightarrow>
     sm_fd h < px_nextFd s \<and> sm_ino h < px_nextIno s \<and>
     (isExclusive h \<longrightarrow> (sm_fd h, LOCK_EX) \<in> (if sm_ino h = i then set ls else set (locks_of s (sm_ino h))))"
  by (simp add: handle_ok_def posix_simps)

lemma sm_inv_other_fd:
  "sm_inv s (as @ h # bs) \<Longrightarrow> k \<in> set (as @ bs) \<Longrightarrow> sm_fd k \<noteq> sm_fd h"
  by (auto simp: sm_inv_def image_iff)

text \<open>A descriptor that loses its lock.\<close>

lemma sm_inv_lost:
  assumes inv: "sm_inv s (as @ h # bs)" and "\<not> isExclusive h"
  shows "sm_inv (set_locks (sm_ino h) (filter (\<lambda>e. fst e \<noteq> sm_fd h) (locks_of s (sm_ino h))) s) (as @ h # bs)"
    (is "sm_inv ?t _")
  unfolding sm_inv_def
proof (intro conjI allI ballI)
  have ok: "posix_ok s" "handle_ok s h"
    using inv by (simp_all add: sm_inv_def)
  then show "posix_ok ?t"
    using lock_list_ok_filter by (intro posix_ok_locks) (auto simp: posix_ok_def handle_ok_def)
  show "distinct (map sm_fd (as @ h # bs))"
    using inv by (simp add: sm_inv_def)
  show "handle_ok ?t k" if "k \<in> set (as @ h # bs)" for k
  proof -
    have k: "handle_ok s k" "isExclusive k \<Longrightarrow> sm_fd k \<noteq> sm_fd h"
      using that inv assms(2) sm_inv_other_fd [OF inv, of k] by (auto simp: sm_inv_def)
    then show ?thesis
      unfolding handle_ok_frame by (auto simp: handle_ok_def)
  qed
  show "\<exists>k \<in> set (as @ h # bs). holds k ino e" if "e \<in> set (locks_of ?t ino)" for ino e
  proof -
    have "e \<in> set (locks_of s ino)"
      using that by (simp add: locks_of_set_iff split: if_splits)
    then show ?thesis
      using inv unfolding sm_inv_def by blast
  qed
qed

text \<open>A descriptor that gets an exclusive lock.\<close>

lemma sm_inv_gained:
  assumes inv: "sm_inv s (as @ h # bs)"
    and others: "others = filter (\<lambda>e. fst e \<noteq> sm_fd h) (locks_of s (sm_ino h))" "\<not> conflicts (sm_fd h) LOCK_EX others"
  shows "sm_inv (set_locks (sm_ino h) ((sm_fd h, LOCK_EX) # others) s) (as @ h\<lparr>sm_lockType := LockType_Exclusive\<rparr> # bs)"
    (is "sm_inv ?t (as @ ?h # bs)")
  unfolding sm_inv_def
proof (intro conjI allI ballI)
  have ok: "posix_ok s" "handle_ok s h"
    using inv by (simp_all add: sm_inv_def)
  have "\<forall>e \<in> set others. fst e \<noteq> sm_fd h"
    using others(1) by simp
  then have none: "others = []"
    using others(2) by (cases others) (auto simp: conflicts_def)
  show "posix_ok ?t"
    using ok by (intro posix_ok_locks) (auto simp: none posix_ok_def handle_ok_def lock_list_ok_def)
  show "distinct (map sm_fd (as @ ?h # bs))"
    using inv by (simp add: sm_inv_def)
  have lone: "k \<in> set (as @ bs) \<Longrightarrow> (sm_fd k, l) \<notin> set (locks_of s (sm_ino h))" for k l
    using none others(1) sm_inv_other_fd [OF inv, of k] by (auto simp: filter_empty_conv)
  show "handle_ok ?t k" if "k \<in> set (as @ ?h # bs)" for k
  proof (cases "k = ?h")
    case True
    then show ?thesis
      using ok unfolding handle_ok_frame by (simp add: handle_ok_def)
  next
    case False
    then have k: "k \<in> set (as @ bs)"
      using that by auto
    then have "handle_ok s k"
      using inv by (auto simp: sm_inv_def)
    then show ?thesis
      using lone [OF k, of LOCK_EX] unfolding handle_ok_frame by (auto simp: handle_ok_def)
  qed
  show "\<exists>k \<in> set (as @ ?h # bs). holds k ino e" if e: "e \<in> set (locks_of ?t ino)" for ino e
  proof (cases "ino = sm_ino h")
    case True
    then show ?thesis
      using e none by (auto simp: locks_of_set_iff holds_def)
  next
    case False
    then have "e \<in> set (locks_of s ino)"
      using e by (simp add: locks_of_set_iff)
    then obtain k where "k \<in> set (as @ h # bs)" "holds k ino e"
      using inv unfolding sm_inv_def by blast
    then show ?thesis
      using False by (auto simp: holds_def)
  qed
qed

lemma sm_inv_holder:
  assumes inv: "sm_inv s (as @ h # bs)" and "(sm_fd h, l) \<in> set (locks_of s (sm_ino h))"
  shows "sm_lockType h = lock_type (Some l)"
proof -
  obtain k where "k \<in> set (as @ h # bs)" "holds k (sm_ino h) (sm_fd h, l)"
    using assms unfolding sm_inv_def by blast
  then show ?thesis
    using sm_inv_other_fd [OF inv, of k] by (auto simp: holds_def)
qed

lemma sm_inv_upgrade:
  assumes inv: "sm_inv s (as @ h # bs)" and up: "makeExclusive flt h s = (Ret (b, h'), s')"
  shows "sm_inv s' (as @ h' # bs)"
  using up
proof (cases rule: makeExclusive_cases)
  case already
  then show ?thesis using inv by simp
next
  case (granted others)
  have "s' \<noteq> s"
    using granted(1,5) sm_inv_holder [OF inv, of LOCK_EX] by (auto simp: isExclusive_def)
  then show ?thesis
    using granted sm_inv_gained [OF inv granted(3)] by auto
next
  case (refused others)
  then show ?thesis
    using inv sm_inv_lost [OF inv] by auto
qed auto

lemma sm_inv_step: "sm_step (s, hs) (s', hs') \<Longrightarrow> sm_inv s hs \<Longrightarrow> sm_inv s' hs'"
proof (induction "(s, hs)" "(s', hs')" rule: sm_step.induct)
  case (sm_open flt p mode n lm h)
  then have "posix_ok s' \<and> mapped_file p mode lm n s h s'"
    using SharedMemory_ctor_spec [OF sm_open(1)] by (simp add: sm_inv_def)
  then show ?case
    using sm_open sm_inv_open by blast
next
  case (sm_open_failed flt p mode n lm e)
  then have "posix_ok s' \<and> ctor_failed p mode s s'"
    using SharedMemory_ctor_spec [OF sm_open_failed(1)] by (simp add: sm_inv_def)
  then show ?case
    using sm_open_failed by (auto simp: sm_inv_def handle_ok_def ctor_failed_def)
next
  case (sm_upgrade_failed flt h e as bs)
  then show ?case
    by (cases rule: makeExclusive_cases [OF sm_upgrade_failed(1)]) auto
qed (auto intro: sm_inv_upgrade sm_inv_close sm_inv_remove sm_inv_rename)

lemma sm_reachable_inv: "sm_reachable st \<Longrightarrow> sm_inv (fst st) (snd st)"
proof (induction rule: sm_reachable.induct)
  case (sm_initial s)
  then show ?case by (simp add: sm_inv_def)
next
  case (sm_then st st')
  then show ?case using sm_inv_step by (metis prod.collapse)
qed

text \<open>
  C10: whatever processes open, upgrade and close mappings in whatever order, and whatever calls fail, a
  mapping that \<^verbatim>\<open>isExclusive\<close> holds the only lock on its file: no other mapping of the file is
  exclusive, and no other one has a shared lock.
\<close>

theorem exclusive_is_alone:
  assumes "sm_reachable (s, hs)" and "h \<in> set hs" "k \<in> set hs" "h \<noteq> k" "sm_ino k = sm_ino h" "isExclusive h"
  shows "\<not> isExclusive k \<and> locks_of s (sm_ino h) = [(sm_fd h, LOCK_EX)] \<and> (\<forall>l. (sm_fd k, l) \<notin> set (locks_of s (sm_ino k)))"
proof -
  have inv: "sm_inv s hs"
    using sm_reachable_inv [OF assms(1)] by simp
  have fds: "sm_fd h \<noteq> sm_fd k"
    using inv assms(2-4) by (auto simp: sm_inv_def distinct_map dest: inj_onD)
  have "(sm_fd h, LOCK_EX) \<in> set (locks_of s (sm_ino h))" "lock_list_ok (px_nextFd s) (locks_of s (sm_ino h))"
    using inv assms(2,6) by (auto simp: sm_inv_def handle_ok_def posix_ok_def)
  then have all: "locks_of s (sm_ino h) = [(sm_fd h, LOCK_EX)]"
    by (rule lone_exclusive)
  moreover have "\<not> isExclusive k"
    using inv assms(3,5) all fds by (auto simp: sm_inv_def handle_ok_def)
  ultimately show ?thesis
    using fds assms(5) by auto
qed


text \<open>
  The constructor gives a mapping of at least the requested size, of the file that the path names or,
  when asked to create one and none is there, of a new one, and its descriptor has the lock that was
  requested, which no other lock conflicts with; when it throws, whatever call failed, it leaves no
  descriptor with a lock behind and all other files as they were.
\<close>

theorem mapping_as_requested:
  assumes "SharedMemory_ctor flt p mode n lm s = (r, s')" and "posix_ok s"
  shows "(\<exists>h. r = Ret h \<and> mapped_file p mode lm n s h s') \<or> ((\<exists>e. r = Throw e) \<and> ctor_failed p mode s s')"
  using SharedMemory_ctor_spec [OF assms] by blast

text \<open>An upgrade that is refused leaves the mapping without the shared lock it still records.\<close>

lemma failed_upgrade_drops_lock:
  assumes "makeExclusive flt h s = (Ret (False, h'), s')" and "flt Call_flock (sm_path h) = None"
  shows "h' = h \<and> (\<forall>l. (sm_fd h, l) \<notin> set (locks_of s' (sm_ino h)))"
  using assms(1)
proof (cases rule: makeExclusive_cases)
  case (refused others)
  have "\<forall>e \<in> set others. fst e \<noteq> sm_fd h"
    using refused(3) by simp
  obtain t where "flock_nb flt (sm_path h) (sm_fd h) (sm_ino h) LOCK_EX s = (Some EWOULDBLOCK, t)" "s' = t"
    using assms refused(1)
    by (auto simp: makeExclusive_def isExclusive_def flock_nb_def Let_def split: if_splits)
  then have "s' = set_locks (sm_ino h) others s"
    using assms(2) refused(3) by (auto elim!: flock_nb_cases)
  then show ?thesis
    using refused(2) \<open>\<forall>e \<in> set others. fst e \<noteq> sm_fd h\<close> by (auto simp: posix_simps)
qed auto

section \<open>Witnesses\<close>

definition no_faults :: faults where
  "no_faults c p = None"

definition two_files :: posix where
  "two_files =
     \<lparr>px_nodes = [([''d''], Directory), ([''d'', ''data''], Regular 0)],
      px_inodes = (\<lambda>_. \<lparr>in_content = Zeros, in_size = 10, in_locks = []\<rparr>), px_nextIno = 1, px_nextFd = 3\<rparr>"

definition opened_reader :: SharedMemoryBase where
  "opened_reader =
     \<lparr>sm_path = [''d'', ''data''], sm_fd = 3, sm_ino = 0, sm_mode = READ_ONLY, sm_mappedSize = 10,
      sm_lockType = LockType_None\<rparr>"

definition opened_writer :: SharedMemoryBase where
  "opened_writer =
     \<lparr>sm_path = [''d'', ''data''], sm_fd = 4, sm_ino = 0, sm_mode = READ_WRITE, sm_mappedSize = 10,
      sm_lockType = LockType_Exclusive\<rparr>"

lemma two_files_ok: "posix_ok two_files"
  by (simp add: posix_ok_def two_files_def locks_of_def)

lemmas open_defs = SharedMemory_ctor_def open_existing_def open_create_def no_faults_def two_files_def opened_reader_def
  opened_writer_def lookup_def fresh_fd_def new_mapping_def lock_and_map_def wanted_lock_def map_file_def unwind_def
  flock_nb_def locks_of_def set_locks_def set_inode_def conflicts_def

lemma open_reader:
  "SharedMemory_ctor no_faults [''d'', ''data''] READ_ONLY 10 Shared two_files = (Ret opened_reader, two_files\<lparr>px_nextFd := 4\<rparr>)"
  by (simp add: open_defs)

lemma open_writer:
  "SharedMemory_ctor no_faults [''d'', ''data''] READ_WRITE 0 Exclusive (two_files\<lparr>px_nextFd := 4\<rparr>) =
     (Ret opened_writer, set_locks 0 [(4, LOCK_EX)] (two_files\<lparr>px_nextFd := 5\<rparr>))"
  by (simp add: open_defs)

theorem exclusive_is_alone_witness:
  "\<not> isExclusive opened_reader \<and>
     locks_of (set_locks 0 [(4, LOCK_EX)] (two_files\<lparr>px_nextFd := 5\<rparr>)) (sm_ino opened_writer) = [(sm_fd opened_writer, LOCK_EX)] \<and>
     (\<forall>l. (sm_fd opened_reader, l) \<notin> set (locks_of (set_locks 0 [(4, LOCK_EX)] (two_files\<lparr>px_nextFd := 5\<rparr>)) (sm_ino opened_reader)))"
proof (rule exclusive_is_alone)
  have "sm_reachable (two_files, [])"
    by (rule sm_initial) (simp_all add: two_files_ok, simp add: two_files_def locks_of_def)
  from sm_then [OF sm_then [OF this sm_open [OF open_reader]] sm_open [OF open_writer]]
  show "sm_reachable (set_locks 0 [(4, LOCK_EX)] (two_files\<lparr>px_nextFd := 5\<rparr>), [opened_writer, opened_reader])" .
qed (simp_all add: opened_reader_def opened_writer_def isExclusive_def)

theorem mapping_as_requested_witness:
  "(\<exists>h. Ret opened_reader = Ret h \<and>
      mapped_file [''d'', ''data''] READ_ONLY Shared 10 two_files h (two_files\<lparr>px_nextFd := 4\<rparr>)) \<or>
   ((\<exists>e. Ret opened_reader = Throw e) \<and> ctor_failed [''d'', ''data''] READ_ONLY two_files (two_files\<lparr>px_nextFd := 4\<rparr>))"
  using mapping_as_requested [OF open_reader two_files_ok] .

end
