(* ===== verification/FlowParsing.thy ===== *)
theory FlowParsing
  imports FlowTypes
begin

text \<open>
  Flow definitions and options: \<^verbatim>\<open>FlowParser.cpp\<close> and \<^verbatim>\<open>FlowOptionsParser.cpp\<close>. The JSON reader and the
  UUID reader are third-party code and parameters of the model: \<open>parse\<close> gives the parsed value, or
  nothing on a syntax error, \<open>from_string\<close> the 16 bytes of a UUID, or nothing. A number is rational; its
  conversion to an integer type truncates and is undefined when the result does not fit.
\<close>

section \<open>JSON values\<close>

datatype json =
    JNull
  | JBool bool
  | JNumber rat
  | JString string
  | JArray "json list"
  | JObject "(string \<times> json) list"

type_synonym object = "(string \<times> json) list"

text \<open>\<^verbatim>\<open>get<T>()\<close> throws when the value is of another type.\<close>

fun get_string :: "json \<Rightarrow> string res" where
  "get_string (JString s) = Ret s"
| "get_string _ = Throw TypeMismatch"

fun get_double :: "json \<Rightarrow> rat res" where
  "get_double (JNumber x) = Ret x"
| "get_double _ = Throw TypeMismatch"

fun get_object :: "json \<Rightarrow> object res" where
  "get_object (JObject o') = Ret o'"
| "get_object _ = Throw TypeMismatch"

fun get_array :: "json \<Rightarrow> json list res" where
  "get_array (JArray xs) = Ret xs"
| "get_array _ = Throw TypeMismatch"

definition testField :: "object \<Rightarrow> string \<Rightarrow> json res" where
  "testField in_obj in_field =
     (case map_of in_obj in_field of None \<Rightarrow> Throw InvalidArgument | Some v \<Rightarrow> Ret v)"

definition fetchAs :: "(json \<Rightarrow> 'a res) \<Rightarrow> object \<Rightarrow> string \<Rightarrow> 'a res" where
  "fetchAs get in_object in_field = bind_res (testField in_object in_field) get"

section \<open>Conversions of numbers\<close>

definition trunc_rat :: "rat \<Rightarrow> int" where
  "trunc_rat x = (if x \<ge> 0 then \<lfloor>x\<rfloor> else \<lceil>x\<rceil>)"

definition i64_of_double :: "rat \<Rightarrow> int res" where
  "i64_of_double x = (if in_i64 (trunc_rat x) then Ret (trunc_rat x) else Undef)"

definition size_of_double :: "rat \<Rightarrow> u64 res" where
  "size_of_double x =
     (if 0 \<le> trunc_rat x \<and> trunc_rat x < 2 ^ 64 then Ret (word_of_int (trunc_rat x)) else Undef)"

definition u32_of_double :: "rat \<Rightarrow> u32 res" where
  "u32_of_double x =
     (if 0 \<le> trunc_rat x \<and> trunc_rat x < 2 ^ 32 then Ret (word_of_int (trunc_rat x)) else Undef)"

text \<open>\<^verbatim>\<open>std::gcd\<close> needs the absolute values of its arguments to be representable.\<close>

definition gcd_chk :: "int \<Rightarrow> int \<Rightarrow> int res" where
  "gcd_chk a b = (if a = - (2 ^ 63) \<or> b = - (2 ^ 63) then Undef else Ret (gcd a b))"

section \<open>The flow definition\<close>

definition translateFlowFormat :: "string \<Rightarrow> mxlDataFormat" where
  "translateFlowFormat format =
     (let FORMAT_PREFIX = ''urn:x-nmos:format:''
      in if take (length FORMAT_PREFIX) format = FORMAT_PREFIX then
           let tail = drop (length FORMAT_PREFIX) format
           in if tail = ''video'' then MXL_DATA_FORMAT_VIDEO
              else if tail = ''audio'' then MXL_DATA_FORMAT_AUDIO
              else if tail = ''event'' \<or> tail = ''data.event'' then MXL_DATA_FORMAT_EVENT
              else if tail = ''data'' then MXL_DATA_FORMAT_DATA
              else MXL_DATA_FORMAT_UNSPECIFIED
         else MXL_DATA_FORMAT_UNSPECIFIED)"

definition extractRational :: "object \<Rightarrow> mxlRational res" where
  "extractRational in_object =
     bind_res (bind_res (fetchAs get_double in_object ''numerator'') i64_of_double) (\<lambda>n.
     bind_res (case map_of in_object ''denominator'' of
         None \<Rightarrow> Ret 1
       | Some v \<Rightarrow> bind_res (get_double v) i64_of_double) (\<lambda>d.
     bind_res (gcd_chk n d) (\<lambda>g.
     if g \<noteq> 0 then Ret \<lparr>numerator = n sdiv g, denominator = d sdiv g\<rparr>
     else Ret \<lparr>numerator = n, denominator = d\<rparr>)))"

text \<open>\<^verbatim>\<open>std::views::split\<close>: the empty string has no parts.\<close>

fun split_parts :: "char \<Rightarrow> string \<Rightarrow> string \<Rightarrow> string list" where
  "split_parts c part [] = [part]"
| "split_parts c part (x # xs) = (if x = c then part # split_parts c [] xs else split_parts c (part @ [x]) xs)"

definition split_on :: "char \<Rightarrow> string \<Rightarrow> string list" where
  "split_on c s = (if s = [] then [] else split_parts c [] s)"

definition validateGroupHintValue :: "json \<Rightarrow> bool" where
  "validateGroupHintValue value =
     (case value of
        JString hint \<Rightarrow>
          (let parts = split_on (CHR '':'') hint
           in if length parts < 2 \<or> length parts > 3 then False
              else if parts ! 0 = [] \<or> parts ! 1 = [] then False
              else if length parts = 3 \<and> parts ! 2 \<noteq> ''device'' \<and> parts ! 2 \<noteq> ''node'' then False
              else True)
      | _ \<Rightarrow> False)"

definition validateGroupHint :: "object \<Rightarrow> bool" where
  "validateGroupHint in_object =
     (case bind_res (fetchAs get_object in_object ''tags'') (\<lambda>tags.
           fetchAs get_array tags ''urn:x-nmos:tag:grouphint/v1.0'') of
        Ret groupHints \<Rightarrow> groupHints \<noteq> [] \<and> list_all validateGroupHintValue groupHints
      | _ \<Rightarrow> False)"

record FlowParser =
  fp_id :: "u8 list"
  fp_format :: mxlDataFormat
  fp_interlaced :: bool
  fp_grainRate :: mxlRational
  fp_root :: object

definition MAX_WIDTH :: u64 where "MAX_WIDTH = 7680"
definition MAX_HEIGHT :: u64 where "MAX_HEIGHT = 4320"

text \<open>The grain rate: of the field that the format selects.\<close>

definition parse_rate :: "mxlDataFormat \<Rightarrow> object \<Rightarrow> mxlRational res" where
  "parse_rate format obj =
     bind_res
       (if mxlIsDiscreteDataFormat (format_code format) \<or> mxlIsEventDataFormat (format_code format)
        then bind_res (fetchAs get_object obj ''grain_rate'') extractRational
        else if format = MXL_DATA_FORMAT_AUDIO
        then bind_res (fetchAs get_object obj ''sample_rate'') extractRational
        else Throw DomainError) (\<lambda>rate.
     if mxlIsEventDataFormat (format_code format) \<and> (numerator rate \<le> 0 \<or> denominator rate \<le> 0)
     then Throw InvalidArgument else Ret rate)"

text \<open>The interlace mode, which doubles the rate of an interlaced flow to a field rate.\<close>

definition parse_interlace :: "string \<Rightarrow> mxlRational \<Rightarrow> (bool \<times> mxlRational) res" where
  "parse_interlace interlaceMode rate =
     (if interlaceMode \<notin> {''progressive'', ''interlaced_tff'', ''interlaced_bff''} then Throw InvalidArgument
      else if interlaceMode = ''interlaced_tff'' \<or> interlaceMode = ''interlaced_bff'' then
        bind_res (rational_neq rate \<lparr>numerator = 30000, denominator = 1001\<rparr>) (\<lambda>ntsc.
        bind_res (if ntsc then rational_neq rate \<lparr>numerator = 25, denominator = 1\<rparr> else Ret False) (\<lambda>neither.
        if neither then Throw InvalidArgument
        else bind_res (chk64 (numerator rate * 2)) (\<lambda>n. Ret (True, rate\<lparr>numerator := n\<rparr>))))
      else Ret (False, rate))"

text \<open>The further checks of a video flow: its dimensions, its interlace mode and, if interlaced, its rate.\<close>

definition parse_video :: "object \<Rightarrow> mxlRational \<Rightarrow> (bool \<times> mxlRational) res" where
  "parse_video obj rate =
     bind_res (bind_res (fetchAs get_double obj ''frame_width'') size_of_double) (\<lambda>width.
     bind_res (bind_res (fetchAs get_double obj ''frame_height'') size_of_double) (\<lambda>height.
     if width < 2 \<or> width > MAX_WIDTH \<or> height < 1 \<or> height > MAX_HEIGHT then Throw InvalidArgument
     else bind_res (case map_of obj ''interlace_mode'' of
              Some v \<Rightarrow> get_string v
            | None \<Rightarrow> Ret ''progressive'') (\<lambda>interlaceMode. parse_interlace interlaceMode rate)))"

definition FlowParser_ctor ::
  "(string \<Rightarrow> json option) \<Rightarrow> (string \<Rightarrow> u8 list option) \<Rightarrow> string \<Rightarrow> FlowParser res" where
  "FlowParser_ctor parse from_string in_flowDef =
     (case parse in_flowDef of
        None \<Rightarrow> Throw InvalidArgument
      | Some (JObject obj) \<Rightarrow>
          bind_res (fetchAs get_string obj ''id'') (\<lambda>id_string.
          case from_string id_string of
            None \<Rightarrow> Throw InvalidArgument
          | Some uuid \<Rightarrow>
              bind_res (map_ret translateFlowFormat (fetchAs get_string obj ''format'')) (\<lambda>format.
              bind_res (parse_rate format obj) (\<lambda>rate.
              bind_res (fetchAs get_string obj ''label'') (\<lambda>label.
              if label = [] then Throw DomainError
              else if \<not> validateGroupHint obj then Throw DomainError
              else bind_res (if format = MXL_DATA_FORMAT_VIDEO then parse_video obj rate else Ret (False, rate))
                     (\<lambda>(interlaced, rate).
                        Ret \<lparr>fp_id = uuid, fp_format = format, fp_interlaced = interlaced, fp_grainRate = rate,
                             fp_root = obj\<rparr>)))))
      | Some _ \<Rightarrow> Throw InvalidArgument)"

section \<open>Sizes of the payload\<close>

definition frame_width :: "FlowParser \<Rightarrow> u64 res" where
  "frame_width p = bind_res (fetchAs get_double (fp_root p) ''frame_width'') size_of_double"

definition frame_height :: "FlowParser \<Rightarrow> u64 res" where
  "frame_height p = bind_res (fetchAs get_double (fp_root p) ''frame_height'') size_of_double"

definition media_type :: "FlowParser \<Rightarrow> string res" where
  "media_type p = fetchAs get_string (fp_root p) ''media_type''"

definition getPayloadSize :: "FlowParser \<Rightarrow> u64 res" where
  "getPayloadSize p =
     (case fp_format p of
        MXL_DATA_FORMAT_VIDEO \<Rightarrow>
          bind_res (frame_width p) (\<lambda>width.
          bind_res (frame_height p) (\<lambda>height.
          bind_res (media_type p) (\<lambda>mediaType.
          if mediaType = ''video/v210'' then
            (if \<not> fp_interlaced p \<or> height mod 2 = 0
             then let h = (if fp_interlaced p then height div 2 else height)
                  in Ret (ucast (getV210LineLength width) * h)
             else Throw InvalidArgument)
          else if mediaType = ''video/v210a'' then
            (if \<not> fp_interlaced p \<or> height mod 2 = 0
             then let h = (if fp_interlaced p then height div 2 else height);
                      fillPayloadSize = ucast (getV210LineLength width) * h;
                      keyPayloadSize = ucast (get10BitAlphaLineLength width) * h
                  in Ret (fillPayloadSize + keyPayloadSize)
             else Throw InvalidArgument)
          else Throw InvalidArgument)))
      | MXL_DATA_FORMAT_DATA \<Rightarrow>
          bind_res (media_type p) (\<lambda>mediaType.
          if mediaType = ''video/smpte291'' then Ret (of_nat MXL_DATA_FORMAT_GRAIN_SIZE) else Throw InvalidArgument)
      | MXL_DATA_FORMAT_EVENT \<Rightarrow> Ret (of_nat MXL_DATA_FORMAT_GRAIN_SIZE)
      | MXL_DATA_FORMAT_AUDIO \<Rightarrow>
          bind_res (fetchAs get_double (fp_root p) ''bit_depth'') (\<lambda>bitDepth.
          if bitDepth \<noteq> 32 \<and> bitDepth \<noteq> 64 then Throw InvalidArgument
          else bind_res (size_of_double bitDepth) (\<lambda>n. Ret (n div 8)))
      | MXL_DATA_FORMAT_UNSPECIFIED \<Rightarrow> Throw InvalidArgument)"

definition getPayloadSliceLengths :: "FlowParser \<Rightarrow> u32 list res" where
  "getPayloadSliceLengths p =
     (case fp_format p of
        MXL_DATA_FORMAT_DATA \<Rightarrow> Ret [1, 0, 0, 0]
      | MXL_DATA_FORMAT_VIDEO \<Rightarrow>
          bind_res (frame_width p) (\<lambda>width.
          bind_res (media_type p) (\<lambda>mediaType.
          let v210fillSize = getV210LineLength width
          in if mediaType = ''video/v210'' then Ret [v210fillSize, 0, 0, 0]
             else if mediaType = ''video/v210a'' then Ret [v210fillSize, get10BitAlphaLineLength width, 0, 0]
             else Throw InvalidArgument))
      | _ \<Rightarrow> Throw InvalidArgument)"

definition getTotalPayloadSlices :: "FlowParser \<Rightarrow> u64 res" where
  "getTotalPayloadSlices p =
     (case fp_format p of
        MXL_DATA_FORMAT_DATA \<Rightarrow> Ret (of_nat MXL_DATA_FORMAT_GRAIN_SIZE)
      | MXL_DATA_FORMAT_VIDEO \<Rightarrow>
          bind_res (media_type p) (\<lambda>mediaType.
          if mediaType \<noteq> ''video/v210'' \<and> mediaType \<noteq> ''video/v210a'' then Throw InvalidArgument
          else bind_res (frame_height p) (\<lambda>h. if fp_interlaced p then Ret (h div 2) else Ret h))
      | _ \<Rightarrow> Throw InvalidArgument)"

definition getChannelCount :: "FlowParser \<Rightarrow> u64 res" where
  "getChannelCount p =
     (case map_of (fp_root p) ''channel_count'' of
        None \<Rightarrow> Ret 1
      | Some (JNumber value) \<Rightarrow>
          (if value = of_int (trunc_rat value) \<and> value > 0 then size_of_double value else Throw InvalidArgument)
      | Some _ \<Rightarrow> Throw InvalidArgument)"

section \<open>Options\<close>

record FlowOptionsParser =
  fo_maxCommitBatchSizeHint :: "u32 option"
  fo_maxSyncBatchSizeHint :: "u32 option"

text \<open>One of the two hints: a number of at least one, when the field is there.\<close>

definition parse_hint :: "object \<Rightarrow> string \<Rightarrow> u32 option res" where
  "parse_hint obj field =
     (case map_of obj field of
        None \<Rightarrow> Ret None
      | Some (JNumber v) \<Rightarrow> (if v < 1 then Throw InvalidArgument else map_ret Some (u32_of_double v))
      | Some _ \<Rightarrow> Throw InvalidArgument)"

text \<open>A synchronization batch must be a multiple of the commit batch (of 1 without a hint).\<close>

definition check_hints :: "u32 option \<Rightarrow> u32 option \<Rightarrow> FlowOptionsParser res" where
  "check_hints commit sync =
     (case sync of
        None \<Rightarrow> Ret \<lparr>fo_maxCommitBatchSizeHint = commit, fo_maxSyncBatchSizeHint = None\<rparr>
      | Some s \<Rightarrow>
          (let c = (case commit of None \<Rightarrow> 1 | Some c \<Rightarrow> c)
           in if c = 0 then Undef
              else if s mod c \<noteq> 0 then Throw InvalidArgument
              else Ret \<lparr>fo_maxCommitBatchSizeHint = commit, fo_maxSyncBatchSizeHint = Some s\<rparr>))"

definition FlowOptionsParser_ctor :: "(string \<Rightarrow> json option) \<Rightarrow> string \<Rightarrow> FlowOptionsParser res" where
  "FlowOptionsParser_ctor parse in_options =
     (if in_options = [] then Ret \<lparr>fo_maxCommitBatchSizeHint = None, fo_maxSyncBatchSizeHint = None\<rparr>
      else case parse in_options of
        None \<Rightarrow> Throw InvalidArgument
      | Some (JObject obj) \<Rightarrow>
          bind_res (parse_hint obj ''maxCommitBatchSizeHint'') (\<lambda>commit.
          bind_res (parse_hint obj ''maxSyncBatchSizeHint'') (\<lambda>sync. check_hints commit sync))
      | Some _ \<Rightarrow> Throw InvalidArgument)"

section \<open>What a parsed definition satisfies\<close>

lemmas fetch_defs = fetchAs_def testField_def

lemma get_Ret_iff [res_simps]:
  "get_string j = Ret s \<longleftrightarrow> j = JString s"
  "get_double j = Ret x \<longleftrightarrow> j = JNumber x"
  "get_object j = Ret ob \<longleftrightarrow> j = JObject ob"
  "get_array j = Ret xs \<longleftrightarrow> j = JArray xs"
  by (cases j; auto)+

lemma testField_Ret_iff [res_simps]: "testField ob f = Ret v \<longleftrightarrow> map_of ob f = Some v"
  by (auto simp: testField_def split: option.splits)

lemma fetchAs_Ret_iff [res_simps]:
  "fetchAs get ob f = Ret x \<longleftrightarrow> (\<exists>v. map_of ob f = Some v \<and> get v = Ret x)"
  by (simp add: fetchAs_def res_simps)

lemma i64_of_double_Ret_iff [res_simps]: "i64_of_double x = Ret n \<longleftrightarrow> in_i64 n \<and> n = trunc_rat x"
  by (auto simp: i64_of_double_def)

lemma sdiv_gcd_in_range:
  fixes n g :: int
  assumes "in_i64 n" "g > 0"
  shows "in_i64 (n sdiv g)"
proof -
  have "\<bar>n sdiv g\<bar> = \<bar>n\<bar> div g"
    using assms(2) by (cases "n = 0") (auto simp: signed_divide_int_def abs_mult sgn_mult pos_imp_zdiv_nonneg_iff)
  also have "\<dots> \<le> \<bar>n\<bar>"
    using assms(2) by (metis abs_ge_zero div_by_1 zdiv_mono2 zero_less_one int_one_le_iff_zero_less)
  finally have "\<bar>n sdiv g\<bar> \<le> \<bar>n\<bar>" .
  moreover have "n sdiv g \<le> 0" if "n < 0"
    using that assms(2) by (simp add: signed_divide_int_def sgn_mult pos_imp_zdiv_nonneg_iff)
  ultimately show ?thesis
    using assms(1) unfolding in_i64_def by (cases "n < 0") (auto simp: abs_le_iff)
qed

lemma sdiv_dvd: "g > 0 \<Longrightarrow> g dvd n \<Longrightarrow> n sdiv g = n div g" for n g :: int
  by (auto elim!: dvdE simp: signed_divide_int_def abs_mult sgn_mult sgn_mult_abs)

definition lowest_terms :: "mxlRational \<Rightarrow> bool" where
  "lowest_terms r \<longleftrightarrow> coprime (numerator r) (denominator r) \<or> numerator r = 0 \<and> denominator r = 0"

definition normalized :: "int \<Rightarrow> int \<Rightarrow> mxlRational" where
  "normalized n d =
     (if gcd n d \<noteq> 0 then \<lparr>numerator = n sdiv gcd n d, denominator = d sdiv gcd n d\<rparr>
      else \<lparr>numerator = n, denominator = d\<rparr>)"

lemma normalized_in_range: "in_i64 n \<Longrightarrow> in_i64 d \<Longrightarrow> rational_in_range (normalized n d)"
  by (auto simp: rational_in_range_def normalized_def intro!: sdiv_gcd_in_range)

lemma normalized_lowest: "lowest_terms (normalized n d)"
  by (auto simp: lowest_terms_def normalized_def sdiv_dvd intro: div_gcd_coprime)

lemma extractRational_normalized:
  assumes "extractRational ob = Ret r"
  shows "\<exists>n d. in_i64 n \<and> in_i64 d \<and> r = normalized n d"
proof -
  have one: "in_i64 1"
    by (simp add: in_i64_def)
  obtain n where n: "in_i64 n"
    and "bind_res (case map_of ob ''denominator'' of
         None \<Rightarrow> Ret 1
       | Some v \<Rightarrow> bind_res (get_double v) i64_of_double) (\<lambda>d.
       bind_res (gcd_chk n d) (\<lambda>g.
       if g \<noteq> 0 then Ret \<lparr>numerator = n sdiv g, denominator = d sdiv g\<rparr>
       else Ret \<lparr>numerator = n, denominator = d\<rparr>)) = Ret r"
    using assms unfolding extractRational_def by (auto simp: res_simps)
  then obtain d where "in_i64 d"
    and "bind_res (gcd_chk n d) (\<lambda>g.
       if g \<noteq> 0 then Ret \<lparr>numerator = n sdiv g, denominator = d sdiv g\<rparr>
       else Ret \<lparr>numerator = n, denominator = d\<rparr>) = Ret r"
    using one by (auto simp: res_simps split: option.splits)
  then have "r = normalized n d"
    by (auto simp: gcd_chk_def normalized_def split: if_splits)
  with n \<open>in_i64 d\<close> show ?thesis
    by blast
qed

lemma extractRational_Ret:
  assumes "extractRational ob = Ret r"
  shows "rational_in_range r" "lowest_terms r"
  using extractRational_normalized [OF assms] normalized_in_range normalized_lowest by auto

lemma parse_rate_Ret:
  assumes "parse_rate format ob = Ret rate"
  shows "rational_in_range rate" "lowest_terms rate" "format \<noteq> MXL_DATA_FORMAT_UNSPECIFIED"
    "format = MXL_DATA_FORMAT_EVENT \<longrightarrow> numerator rate > 0 \<and> denominator rate > 0"
  using assms
  by (cases format; auto simp: parse_rate_def res_simps format_tests dest: extractRational_Ret split: if_splits)+

definition video_dimensions_ok :: "object \<Rightarrow> bool" where
  "video_dimensions_ok ob \<longleftrightarrow>
     (\<exists>w h. bind_res (fetchAs get_double ob ''frame_width'') size_of_double = Ret w \<and>
            bind_res (fetchAs get_double ob ''frame_height'') size_of_double = Ret h \<and>
            2 \<le> unat w \<and> unat w \<le> 7680 \<and> 1 \<le> unat h \<and> unat h \<le> 4320)"

definition field_rate :: "mxlRational \<Rightarrow> bool" where
  "field_rate r \<longleftrightarrow>
     numerator r * 1001 = 60000 * denominator r \<or> numerator r = 50 * denominator r"

lemma chk64_in_range: "rational_in_range r \<Longrightarrow> chk64 (numerator r * 2) = Ret n \<Longrightarrow> rational_in_range (r\<lparr>numerator := n\<rparr>)"
  by (simp add: rational_in_range_def res_simps)

lemma rational_neq_False:
  "rational_neq a b = Ret False \<Longrightarrow> numerator a * denominator b = denominator a * numerator b"
  by (auto simp: rational_neq_def rational_eq_def bind_res_Ret_iff chk64_Ret_iff map_ret_Ret_iff)

lemma parse_interlace_Ret:
  assumes "parse_interlace m rate = Ret (interlaced, rate')"
    and "rational_in_range rate"
  shows "rational_in_range rate' \<and> (if interlaced then field_rate rate' else rate' = rate)"
proof (cases "m = ''interlaced_tff'' \<or> m = ''interlaced_bff''")
  case True
  then obtain ntsc n where n: "chk64 (numerator rate * 2) = Ret n" "interlaced" "rate' = rate\<lparr>numerator := n\<rparr>"
    and 1: "rational_neq rate \<lparr>numerator = 30000, denominator = 1001\<rparr> = Ret ntsc"
    and 2: "(if ntsc then rational_neq rate \<lparr>numerator = 25, denominator = 1\<rparr> else Ret False) = Ret False"
    using assms(1) by (auto simp: parse_interlace_def bind_res_Ret_iff split: if_splits)
  have "numerator rate * 1001 = denominator rate * 30000 \<or> numerator rate = denominator rate * 25"
    using 1 2 by (cases ntsc) (auto dest: rational_neq_False)
  then show ?thesis
    using n assms(2) chk64_in_range [OF assms(2) n(1)] by (auto simp: field_rate_def chk64_Ret_iff)
next
  case False
  then show ?thesis
    using assms by (auto simp: parse_interlace_def split: if_splits)
qed

lemma parse_video_Ret:
  assumes "parse_video ob rate = Ret (interlaced, rate')" and "rational_in_range rate"
  shows "video_dimensions_ok ob" "rational_in_range rate'"
    "if interlaced then field_rate rate' else rate' = rate"
proof -
  obtain w h m where w: "bind_res (fetchAs get_double ob ''frame_width'') size_of_double = Ret w"
    and h: "bind_res (fetchAs get_double ob ''frame_height'') size_of_double = Ret h"
    and dims: "\<not> (w < 2 \<or> w > MAX_WIDTH \<or> h < 1 \<or> h > MAX_HEIGHT)"
    and mode: "parse_interlace m rate = Ret (interlaced, rate')"
    using assms(1) unfolding parse_video_def by (auto simp: bind_res_Ret_iff split: if_splits)
  show "video_dimensions_ok ob"
    using w h dims by (auto simp: video_dimensions_ok_def MAX_WIDTH_def MAX_HEIGHT_def word_less_nat_alt word_le_nat_alt not_less)
  show "rational_in_range rate'" "if interlaced then field_rate rate' else rate' = rate"
    using parse_interlace_Ret [OF mode assms(2)] by (auto split: if_splits)
qed

definition parser_wf :: "FlowParser \<Rightarrow> bool" where
  "parser_wf p \<longleftrightarrow>
     fp_format p \<noteq> MXL_DATA_FORMAT_UNSPECIFIED \<and>
     rational_in_range (fp_grainRate p) \<and>
     (fp_format p = MXL_DATA_FORMAT_EVENT \<longrightarrow>
        numerator (fp_grainRate p) > 0 \<and> denominator (fp_grainRate p) > 0) \<and>
     (if fp_interlaced p then fp_format p = MXL_DATA_FORMAT_VIDEO \<and> field_rate (fp_grainRate p)
      else lowest_terms (fp_grainRate p)) \<and>
     (fp_format p = MXL_DATA_FORMAT_VIDEO \<longrightarrow> video_dimensions_ok (fp_root p)) \<and>
     validateGroupHint (fp_root p) \<and>
     (\<exists>label. map_of (fp_root p) ''label'' = Some (JString label) \<and> label \<noteq> [])"

lemma FlowParser_ctor_parts:
  assumes "FlowParser_ctor parse from_string in_flowDef = Ret p"
  obtains rate label where
    "parse_rate (fp_format p) (fp_root p) = Ret rate"
    "map_of (fp_root p) ''label'' = Some (JString label)" "label \<noteq> []"
    "validateGroupHint (fp_root p)"
    "(if fp_format p = MXL_DATA_FORMAT_VIDEO then parse_video (fp_root p) rate else Ret (False, rate)) =
     Ret (fp_interlaced p, fp_grainRate p)"
    "parse in_flowDef = Some (JObject (fp_root p))"
    "\<exists>s. map_of (fp_root p) ''id'' = Some (JString s) \<and> from_string s = Some (fp_id p)"
  using assms
  by (auto simp: FlowParser_ctor_def bind_res_Ret_iff map_ret_Ret_iff fetchAs_Ret_iff get_Ret_iff
      split: option.splits json.splits if_splits)

lemma parser_ctor_wf:
  assumes "FlowParser_ctor parse from_string in_flowDef = Ret p"
  shows "parser_wf p"
proof -
  obtain rate label where rate: "parse_rate (fp_format p) (fp_root p) = Ret rate"
    and rest: "map_of (fp_root p) ''label'' = Some (JString label)" "label \<noteq> []" "validateGroupHint (fp_root p)"
    and video: "(if fp_format p = MXL_DATA_FORMAT_VIDEO then parse_video (fp_root p) rate else Ret (False, rate)) =
      Ret (fp_interlaced p, fp_grainRate p)"
    by (rule FlowParser_ctor_parts [OF assms])
  note r = parse_rate_Ret [OF rate]
  show ?thesis
  proof (cases "fp_format p = MXL_DATA_FORMAT_VIDEO")
    case True
    then have v: "parse_video (fp_root p) rate = Ret (fp_interlaced p, fp_grainRate p)"
      using video by simp
    show ?thesis
      using True r rest parse_video_Ret [OF v r(1)] by (auto simp: parser_wf_def split: if_splits)
  next
    case False
    then have "\<not> fp_interlaced p" "fp_grainRate p = rate"
      using video by auto
    then show ?thesis
      using False r rest by (auto simp: parser_wf_def)
  qed
qed


section \<open>Sizes agree\<close>

lemma unat_line_times_height:
  assumes "unat (l :: u32) \<le> 40000" "unat (h :: u64) \<le> 4320"
  shows "unat (ucast l * h :: u64) = unat h * unat l"
proof -
  have "unat (ucast l :: u64) * unat h \<le> 40000 * 4320"
    using assms by (intro mult_mono) auto
  then show ?thesis
    by (subst unat_small_mult) auto
qed

lemma line_length_bounds:
  assumes "unat (w :: u64) \<le> 7680"
  shows "unat (getV210LineLength w) \<le> 20480" "unat (get10BitAlphaLineLength w) \<le> 10240"
  using assms by (auto simp: unat_getV210LineLength unat_get10BitAlphaLineLength)

lemma v210a_size:
  assumes "unat (w :: u64) \<le> 7680" "unat (h :: u64) \<le> 4320"
  shows "unat (ucast (getV210LineLength w) * h + ucast (get10BitAlphaLineLength w) * h :: u64) =
    unat h * (unat (getV210LineLength w) + unat (get10BitAlphaLineLength w))"
proof -
  note l = line_length_bounds [OF assms(1)]
  have a: "unat (ucast (getV210LineLength w) * h :: u64) = unat h * unat (getV210LineLength w)"
    and b: "unat (ucast (get10BitAlphaLineLength w) * h :: u64) = unat h * unat (get10BitAlphaLineLength w)"
    using l assms by (auto intro!: unat_line_times_height)
  have "unat h * unat (getV210LineLength w) \<le> 4320 * 20480" "unat h * unat (get10BitAlphaLineLength w) \<le> 4320 * 10240"
    using l assms by (intro mult_mono; simp)+
  then show ?thesis
    unfolding distrib_left a [symmetric] b [symmetric] by (intro unat_plus_fits) (simp add: a b)
qed

lemma frame_dims:
  assumes "video_dimensions_ok (fp_root p)"
  obtains w h where "frame_width p = Ret w" "frame_height p = Ret h"
    "2 \<le> unat w" "unat w \<le> 7680" "1 \<le> unat h" "unat h \<le> 4320"
  using assms by (auto simp: video_dimensions_ok_def frame_width_def frame_height_def)

definition slice_total :: "u32 list \<Rightarrow> nat" where
  "slice_total ls = (\<Sum>l\<leftarrow>ls. unat l)"

definition field_height :: "FlowParser \<Rightarrow> u64 \<Rightarrow> u64" where
  "field_height p h = (if fp_interlaced p then h div 2 else h)"

lemma unat_field_height: "unat (field_height p h) \<le> unat h"
  by (simp add: field_height_def unat_div)

lemma video_payload:
  assumes fmt: "fp_format p = MXL_DATA_FORMAT_VIDEO"
    and dims: "frame_width p = Ret w" "frame_height p = Ret h" "unat w \<le> 7680" "unat h \<le> 4320"
    and sz: "getPayloadSize p = Ret sz"
  shows "\<exists>ls. getPayloadSliceLengths p = Ret ls \<and> getTotalPayloadSlices p = Ret (field_height p h) \<and>
    length ls = 4 \<and> unat sz = unat (field_height p h) * slice_total ls \<and> slice_total ls \<le> 30720"
proof -
  have fh: "unat (field_height p h) \<le> 4320"
    using unat_field_height [of p h] dims by simp
  note l = line_length_bounds [OF dims(3)]
  from sz fmt dims obtain m where m: "media_type p = Ret m"
    by (auto simp: getPayloadSize_def bind_res_Ret_iff)
  consider "m = ''video/v210''" "sz = ucast (getV210LineLength w) * field_height p h"
    | "m = ''video/v210a''"
      "sz = ucast (getV210LineLength w) * field_height p h + ucast (get10BitAlphaLineLength w) * field_height p h"
    using sz fmt dims m
    by (cases "m = ''video/v210''"; cases "m = ''video/v210a''")
      (auto simp: getPayloadSize_def Let_def field_height_def split: if_splits)
  then show ?thesis
  proof cases
    case 1
    have "unat sz = unat (field_height p h) * unat (getV210LineLength w)"
      unfolding 1(2) using l fh by (intro unat_line_times_height) auto
    then show ?thesis
      using 1 m fmt dims l
      by (auto simp: getPayloadSliceLengths_def getTotalPayloadSlices_def field_height_def slice_total_def)
  next
    case 2
    then show ?thesis
      using m fmt dims l v210a_size [OF dims(3) fh]
      by (auto simp: getPayloadSliceLengths_def getTotalPayloadSlices_def field_height_def slice_total_def)
  qed
qed

text \<open>
  for every accepted video or data flow whose payload size is defined, the slice lengths and the
  number of slices are defined too, and the payload is exactly the number of slices times the bytes
  that a slice has over all planes, computed without wrap-around and below 128 MiB.
\<close>

theorem payload_is_slices:
  assumes "FlowParser_ctor parse from_string in_flowDef = Ret p"
    and "mxlIsDiscreteDataFormat (format_code (fp_format p))"
    and "getPayloadSize p = Ret sz"
  shows "\<exists>ls n. getPayloadSliceLengths p = Ret ls \<and> getTotalPayloadSlices p = Ret n \<and> length ls = 4 \<and>
    unat sz = unat n * slice_total ls \<and> unat sz < 2 ^ 27"
proof -
  have wf: "parser_wf p"
    using assms(1) by (rule parser_ctor_wf)
  consider "fp_format p = MXL_DATA_FORMAT_VIDEO" | "fp_format p = MXL_DATA_FORMAT_DATA"
    using assms(2) by (cases "fp_format p") (auto simp: format_tests)
  then show ?thesis
  proof cases
    case 1
    with wf obtain w h where dims: "frame_width p = Ret w" "frame_height p = Ret h" "unat w \<le> 7680" "unat h \<le> 4320"
      unfolding parser_wf_def by (metis frame_dims)
    from video_payload [OF 1 dims assms(3)] obtain ls
      where ls: "getPayloadSliceLengths p = Ret ls" "getTotalPayloadSlices p = Ret (field_height p h)"
        "length ls = 4" "unat sz = unat (field_height p h) * slice_total ls" "slice_total ls \<le> 30720"
      by blast
    have "unat (field_height p h) * slice_total ls \<le> 4320 * 30720"
      using unat_field_height [of p h] dims(4) ls(5) by (intro mult_mono) auto
    then have "unat sz < 2 ^ 27"
      using ls(4) by simp
    with ls show ?thesis
      by blast
  next
    case 2
    then show ?thesis
      using assms(3)
      by (auto simp: getPayloadSize_def getPayloadSliceLengths_def getTotalPayloadSlices_def bind_res_Ret_iff
          slice_total_def MXL_DATA_FORMAT_GRAIN_SIZE_def split: if_splits)
  qed
qed

section \<open>Options are consistent\<close>

lemma unat_of_int_pos: "1 \<le> n \<Longrightarrow> n < 2 ^ 32 \<Longrightarrow> 1 \<le> unat (word_of_int n :: u32)"
  by (simp add: unat_eq_nat_uint uint_word_of_int)

lemma parse_hint_pos:
  assumes "parse_hint ob field = Ret (Some v)"
  shows "1 \<le> unat v"
proof -
  obtain x where x: "x \<ge> 1" "u32_of_double x = Ret v"
    using assms that
    by (auto simp: parse_hint_def map_ret_Ret_iff not_less split: option.splits json.splits if_splits)
  then have "trunc_rat x \<ge> 1"
    by (simp add: trunc_rat_def)
  then show ?thesis
    using x(2) unat_of_int_pos [of "trunc_rat x"] by (auto simp: u32_of_double_def split: if_splits)
qed

lemma check_hints_Ret:
  assumes "check_hints commit sync = Ret opts"
  shows "fo_maxCommitBatchSizeHint opts = commit" "fo_maxSyncBatchSizeHint opts = sync"
    "\<And>s. sync = Some s \<Longrightarrow> unat (case commit of None \<Rightarrow> 1 | Some c \<Rightarrow> c) dvd unat s"
  using assms by (auto simp: check_hints_def Let_def word_eq_unat unat_mod split: option.splits if_splits)

text \<open>
  the hints that the options parser accepts are at least one, and the synchronization batch is
  a whole number of commit batches (of one sample or slice when no commit hint is given).
\<close>

theorem options_consistent:
  assumes "FlowOptionsParser_ctor parse in_options = Ret opts"
  shows "(\<forall>c. fo_maxCommitBatchSizeHint opts = Some c \<longrightarrow> 1 \<le> unat c) \<and>
    (\<forall>s. fo_maxSyncBatchSizeHint opts = Some s \<longrightarrow>
       1 \<le> unat s \<and> unat (case fo_maxCommitBatchSizeHint opts of None \<Rightarrow> 1 | Some c \<Rightarrow> c) dvd unat s)"
proof (cases "in_options = []")
  case True
  then show ?thesis
    using assms by (auto simp: FlowOptionsParser_ctor_def)
next
  case False
  then obtain ob commit sync where hints: "parse_hint ob ''maxCommitBatchSizeHint'' = Ret commit"
    "parse_hint ob ''maxSyncBatchSizeHint'' = Ret sync" and chk: "check_hints commit sync = Ret opts"
    using assms
    by (auto simp: FlowOptionsParser_ctor_def bind_res_Ret_iff split: option.splits(2) json.splits)
  note check_hints_Ret [OF chk]
  with hints show ?thesis
    using parse_hint_pos by auto
qed

section \<open>Witnesses\<close>

text \<open>An interlaced video flow, an event flow and a pair of hints, as the JSON reader gives them.\<close>

definition sample_tags :: json where
  "sample_tags = JObject [(''urn:x-nmos:tag:grouphint/v1.0'', JArray [JString ''cam:video''])]"

definition sample_video :: object where
  "sample_video =
     [(''id'', JString ''u''), (''format'', JString ''urn:x-nmos:format:video''), (''label'', JString ''A''),
      (''tags'', sample_tags), (''media_type'', JString ''video/v210a''), (''interlace_mode'', JString ''interlaced_tff''),
      (''frame_width'', JNumber 1920), (''frame_height'', JNumber 1080),
      (''grain_rate'', JObject [(''numerator'', JNumber 60000), (''denominator'', JNumber 2002)])]"

definition sample_parser :: FlowParser where
  "sample_parser =
     \<lparr>fp_id = replicate 16 7, fp_format = MXL_DATA_FORMAT_VIDEO, fp_interlaced = True,
      fp_grainRate = \<lparr>numerator = 60000, denominator = 1001\<rparr>, fp_root = sample_video\<rparr>"

definition parse_sample :: "object \<Rightarrow> string \<Rightarrow> json option" where
  "parse_sample ob s = Some (JObject ob)"

definition uuid_sample :: "string \<Rightarrow> u8 list option" where
  "uuid_sample s = (if s = ''u'' then Some (replicate 16 7) else None)"

lemma sample_gcd: "gcd 60000 2002 = (2 :: int)" "60000 sdiv 2 = (30000 :: int)" "2002 sdiv 2 = (1001 :: int)"
  by code_simp+

lemma sample_ctor: "FlowParser_ctor (parse_sample sample_video) uuid_sample ''{}'' = Ret sample_parser"
  by (simp add: FlowParser_ctor_def parse_sample_def sample_video_def sample_parser_def uuid_sample_def fetch_defs
      translateFlowFormat_def parse_rate_def extractRational_def parse_video_def parse_interlace_def sample_tags_def
      validateGroupHint_def validateGroupHintValue_def split_on_def
      i64_of_double_def size_of_double_def trunc_rat_def in_i64_def gcd_chk_def format_tests
      rational_neq_def rational_eq_def chk64_def MAX_WIDTH_def MAX_HEIGHT_def sample_gcd)


theorem payload_is_slices_witness:
  "\<exists>ls n. getPayloadSliceLengths sample_parser = Ret ls \<and> getTotalPayloadSlices sample_parser = Ret n \<and>
    length ls = 4 \<and> unat (4147200 :: u64) = unat n * slice_total ls \<and> unat (4147200 :: u64) < 2 ^ 27"
proof (rule payload_is_slices [OF sample_ctor])
  show "mxlIsDiscreteDataFormat (format_code (fp_format sample_parser))"
    by (simp add: sample_parser_def format_tests)
  show "getPayloadSize sample_parser = Ret 4147200"
    by (simp add: getPayloadSize_def sample_parser_def sample_video_def frame_width_def frame_height_def media_type_def
        fetch_defs size_of_double_def trunc_rat_def getV210LineLength_def get10BitAlphaLineLength_def Let_def)
qed

definition sample_options :: object where
  "sample_options = [(''maxCommitBatchSizeHint'', JNumber 48), (''maxSyncBatchSizeHint'', JNumber 192)]"

theorem options_consistent_witness:
  "FlowOptionsParser_ctor (parse_sample sample_options) ''{}'' =
     Ret \<lparr>fo_maxCommitBatchSizeHint = Some 48, fo_maxSyncBatchSizeHint = Some 192\<rparr> \<and> unat (48 :: u32) dvd unat (192 :: u32)"
proof -
  have r: "FlowOptionsParser_ctor (parse_sample sample_options) ''{}'' =
     Ret \<lparr>fo_maxCommitBatchSizeHint = Some 48, fo_maxSyncBatchSizeHint = Some 192\<rparr>"
    by (simp add: FlowOptionsParser_ctor_def parse_sample_def sample_options_def parse_hint_def u32_of_double_def
        trunc_rat_def check_hints_def)
  show ?thesis
    using r options_consistent [OF r] by simp
qed

end
