(* ===== verification/FlowManager.thy ===== *)
theory FlowManager
  imports SharedMemory FlowParsing
begin

text \<open>
  Flows on disk: the names of a flow's files (\<^verbatim>\<open>PathUtils.cpp\<close>), the mappings that a flow consists of
  (\<^verbatim>\<open>FlowData\<close> and its three kinds), and the manager that creates a flow in a temporary directory and
  publishes it by renaming that directory, opens, deletes and lists flows (\<^verbatim>\<open>FlowManager.cpp\<close>).
\<close>

section \<open>Names\<close>

definition FLOW_DIRECTORY_NAME_SUFFIX :: string where "FLOW_DIRECTORY_NAME_SUFFIX = ''.mxl-flow''"
definition FLOW_DESCRIPTOR_FILE_NAME :: string where "FLOW_DESCRIPTOR_FILE_NAME = ''flow_def.json''"
definition FLOW_DATA_FILE_NAME :: string where "FLOW_DATA_FILE_NAME = ''data''"
definition FLOW_ACCESS_FILE_NAME :: string where "FLOW_ACCESS_FILE_NAME = ''access''"
definition GRAIN_DIRECTORY_NAME :: string where "GRAIN_DIRECTORY_NAME = ''grains''"
definition GRAIN_DATA_FILE_NAME_STEM :: string where "GRAIN_DATA_FILE_NAME_STEM = ''data''"
definition CHANNEL_DATA_FILE_NAME :: string where "CHANNEL_DATA_FILE_NAME = ''channels''"
definition EVENT_DATA_FILE_NAME :: string where "EVENT_DATA_FILE_NAME = ''events''"
definition DOMAIN_OPTIONS_FILE_NAME :: string where "DOMAIN_OPTIONS_FILE_NAME = ''options.json''"

lemmas file_names = FLOW_DIRECTORY_NAME_SUFFIX_def FLOW_DESCRIPTOR_FILE_NAME_def FLOW_DATA_FILE_NAME_def
  FLOW_ACCESS_FILE_NAME_def GRAIN_DIRECTORY_NAME_def GRAIN_DATA_FILE_NAME_STEM_def CHANNEL_DATA_FILE_NAME_def
  EVENT_DATA_FILE_NAME_def DOMAIN_OPTIONS_FILE_NAME_def

text \<open>The decimal digits of a number.\<close>

definition digit :: "nat \<Rightarrow> char" where
  "digit n = char_of (48 + n)"

fun decimal :: "nat \<Rightarrow> string" where
  "decimal n = (if n < 10 then [digit n] else decimal (n div 10) @ [digit (n mod 10)])"

declare decimal.simps [simp del]

definition makeFlowDirectoryName :: "path \<Rightarrow> string \<Rightarrow> path" where
  "makeFlowDirectoryName domain uuid = domain @ [uuid @ FLOW_DIRECTORY_NAME_SUFFIX]"

definition makeFlowDataFilePath :: "path \<Rightarrow> path" where
  "makeFlowDataFilePath flowDirectory = flowDirectory @ [FLOW_DATA_FILE_NAME]"

definition makeFlowDescriptorFilePath :: "path \<Rightarrow> path" where
  "makeFlowDescriptorFilePath flowDirectory = flowDirectory @ [FLOW_DESCRIPTOR_FILE_NAME]"

definition makeFlowAccessFilePath :: "path \<Rightarrow> path" where
  "makeFlowAccessFilePath flowDirectory = flowDirectory @ [FLOW_ACCESS_FILE_NAME]"

definition makeGrainDirectoryName :: "path \<Rightarrow> path" where
  "makeGrainDirectoryName flowDirectory = flowDirectory @ [GRAIN_DIRECTORY_NAME]"

definition makeGrainDataFilePath :: "path \<Rightarrow> u32 \<Rightarrow> path" where
  "makeGrainDataFilePath grainDirectory index =
     grainDirectory @ [GRAIN_DATA_FILE_NAME_STEM @ ''.'' @ decimal (unat index)]"

definition makeChannelDataFilePath :: "path \<Rightarrow> path" where
  "makeChannelDataFilePath flowDirectory = flowDirectory @ [CHANNEL_DATA_FILE_NAME]"

definition makeEventDataFilePath :: "path \<Rightarrow> path" where
  "makeEventDataFilePath flowDirectory = flowDirectory @ [EVENT_DATA_FILE_NAME]"

definition makeDomainOptionsFilePath :: "path \<Rightarrow> path" where
  "makeDomainOptionsFilePath domain = domain @ [DOMAIN_OPTIONS_FILE_NAME]"

lemmas path_names = makeFlowDataFilePath_def makeFlowDescriptorFilePath_def makeFlowAccessFilePath_def
  makeGrainDirectoryName_def makeGrainDataFilePath_def makeChannelDataFilePath_def makeEventDataFilePath_def

section \<open>The mappings of a flow\<close>

definition SIZEOF_FLOW :: nat where "SIZEOF_FLOW = 2064"
definition SIZEOF_GRAIN :: nat where "SIZEOF_GRAIN = 8192"

text \<open>Value-initialized structures.\<close>

definition zero_common :: mxlCommonFlowConfigInfo where
  "zero_common =
     \<lparr>cc_id = replicate 16 0, cc_format = 0, cc_flags = 0, cc_grainRate = \<lparr>numerator = 0, denominator = 0\<rparr>,
      cc_maxCommitBatchSizeHint = 0, cc_maxSyncBatchSizeHint = 0,
      cc_payloadLocation = MXL_PAYLOAD_LOCATION_HOST_MEMORY, cc_deviceIndex = 0\<rparr>"

definition zero_info :: mxlFlowInfo where
  "zero_info =
     \<lparr>fi_version = 0, fi_size = 0,
      fi_config = \<lparr>fc_common = zero_common, fc_specific = ConfigDiscrete \<lparr>dc_sliceSizes = replicate 4 0, dc_grainCount = 0\<rparr>\<rparr>,
      fi_runtime = \<lparr>headIndex = 0, lastWriteTime = 0, lastReadTime = 0\<rparr>\<rparr>"

definition zero_state :: FlowState where
  "zero_state = \<lparr>fs_inode = 0, fs_syncCounter = 0\<rparr>"

definition zero_grain :: "nat \<Rightarrow> Grain" where
  "zero_grain payloadSize =
     \<lparr>gr_info = \<lparr>gi_version = 0, gi_size = 0, gi_index = 0, gi_flags = 0, gi_grainSize = 0, gi_totalSlices = 0,
                 gi_validSlices = 0\<rparr>,
      gr_payload = replicate payloadSize 0\<rparr>"

text \<open>The three subclasses: the mappings of the grains, of the channels with the size of a sample, of the ring.\<close>

datatype flow_maps =
    DiscreteMaps "SharedMemoryBase list"
  | ContinuousMaps "SharedMemoryBase option" u64
  | EventMaps "(SharedMemoryBase \<times> ring_view) option"

record FlowData =
  fl_flow :: SharedMemoryBase
  fl_maps :: flow_maps

fun map_handles :: "flow_maps \<Rightarrow> SharedMemoryBase list" where
  "map_handles (DiscreteMaps gs) = gs"
| "map_handles (ContinuousMaps None w) = []"
| "map_handles (ContinuousMaps (Some h) w) = [h]"
| "map_handles (EventMaps None) = []"
| "map_handles (EventMaps (Some (h, v))) = [h]"

definition flow_handles :: "FlowData \<Rightarrow> SharedMemoryBase list" where
  "flow_handles d = map_handles (fl_maps d) @ [fl_flow d]"

text \<open>Destruction closes the mappings of the subclass, then the flow's own.\<close>

definition FlowData_dtor :: "FlowData \<Rightarrow> posix \<Rightarrow> posix" where
  "FlowData_dtor d s = fold SharedMemory_dtor (flow_handles d) s"

definition FlowData_ctor :: "faults \<Rightarrow> path \<Rightarrow> AccessMode \<Rightarrow> LockMode \<Rightarrow> (posix, SharedMemoryBase) act" where
  "FlowData_ctor flt p mode lockMode =
     SharedMemoryInstance_ctor SIZEOF_FLOW (FlowSegment zero_info zero_state) flt p mode 0 lockMode"

text \<open>What the mapping of the flow holds; a file of another content is not a flow.\<close>

definition flow_segment :: "SharedMemoryBase \<Rightarrow> posix \<Rightarrow> (mxlFlowInfo \<times> FlowState) option" where
  "flow_segment h s = (case content_of s (sm_ino h) of FlowSegment i st \<Rightarrow> Some (i, st) | _ \<Rightarrow> None)"

definition FlowData_isExclusive :: "FlowData \<Rightarrow> bool" where
  "FlowData_isExclusive d = isExclusive (fl_flow d)"

definition FlowData_makeExclusive :: "faults \<Rightarrow> FlowData \<Rightarrow> (posix, bool \<times> FlowData) act" where
  "FlowData_makeExclusive flt d =
     bind_act (makeExclusive flt (fl_flow d)) (\<lambda>(ok, h). return_act (ok, d\<lparr>fl_flow := h\<rparr>))"

text \<open>The mode in which the files beside the flow's data file are opened.\<close>

definition sibling_mode :: "SharedMemoryBase \<Rightarrow> AccessMode" where
  "sibling_mode h = (if created h then CREATE_READ_WRITE else accessMode h)"

section \<open>Opening the files of a flow\<close>

text \<open>\<^verbatim>\<open>emplaceGrain\<close> on files: the new mapping is closed again when its version is not supported.\<close>

definition emplace_grain_file ::
  "faults \<Rightarrow> path \<Rightarrow> nat \<Rightarrow> SharedMemoryBase \<Rightarrow> (posix, SharedMemoryBase) act" where
  "emplace_grain_file flt p payloadSize flow =
     bind_act (SharedMemoryInstance_ctor SIZEOF_GRAIN (GrainSegment (zero_grain payloadSize)) flt p
         (sibling_mode flow) payloadSize Shared) (\<lambda>g s.
       if created flow then (Ret g, s)
       else case content_of s (sm_ino g) of
           GrainSegment x \<Rightarrow>
             (if gi_version (gr_info x) \<noteq> GRAIN_HEADER_VERSION then (Throw InvalidArgument, SharedMemory_dtor g s)
              else (Ret g, s))
         | _ \<Rightarrow> (Undef, s))"

definition open_event_file ::
  "faults \<Rightarrow> path \<Rightarrow> mxlEventFlowConfigInfo \<Rightarrow> SharedMemoryBase \<Rightarrow> (posix, SharedMemoryBase \<times> ring_view) act" where
  "open_event_file flt p config flow =
     bind_act (lift_act (bufferSize (ec_eventCount config) (ec_eventPayloadSize config))) (\<lambda>size.
     bind_act (SharedMemory_ctor flt p (sibling_mode flow) (unat size) NoLock) (\<lambda>h s.
       if created h then
         (case openEventBuffer config None of
            Ret (r, v) \<Rightarrow> (Ret (h, v), set_content (sm_ino h) (EventSegment r) s)
          | Throw e \<Rightarrow> (Throw e, SharedMemory_dtor h s)
          | Undef \<Rightarrow> (Undef, s))
       else case content_of s (sm_ino h) of
           EventSegment r \<Rightarrow>
             (case openEventBuffer config (Some r) of
                Ret (r, v) \<Rightarrow> (Ret (h, v), s)
              | Throw e \<Rightarrow> (Throw e, SharedMemory_dtor h s)
              | Undef \<Rightarrow> (Undef, s))
         | _ \<Rightarrow> (Undef, s)))"

definition open_channel_file ::
  "faults \<Rightarrow> path \<Rightarrow> u64 \<Rightarrow> mxlContinuousFlowConfigInfo \<Rightarrow> SharedMemoryBase \<Rightarrow> (posix, SharedMemoryBase \<times> u64) act" where
  "open_channel_file flt p sampleWordSize config flow =
     (if sampleWordSize \<noteq> 0 \<or> \<not> created flow then
        let buffersLength = cf_channelCount config * cf_bufferLength config
        in if buffersLength > 0 then
             bind_act (SharedMemory_ctor flt p (sibling_mode flow) (unat (ucast buffersLength * sampleWordSize)) Shared)
               (\<lambda>h. let mappedSize = of_nat (sm_mappedSize h) :: u64
                    in return_act (h, if sampleWordSize \<noteq> 0 then sampleWordSize
                                      else if mappedSize \<ge> ucast buffersLength then mappedSize div ucast buffersLength
                                      else 1))
           else throw_act RuntimeError
      else throw_act RuntimeError)"

section \<open>Steps of creating a flow\<close>

text \<open>
  What the manager takes from its environment: the failing calls, the clock, the text form of a UUID and
  back (a third-party library), and what \<^verbatim>\<open>mkdtemp\<close> puts in place of the last six \<open>X\<close> of its template.
\<close>

record flow_env =
  fe_faults :: faults
  fe_now :: u64
  fe_to_string :: "u8 list \<Rightarrow> string"
  fe_from_string :: "string \<Rightarrow> u8 list option"
  fe_suffix :: string

record FlowManager =
  fm_mxlDomain :: path

text \<open>A domain that does not exist has no canonical path; one that is a file is rejected by the next check.\<close>

definition FlowManager_ctor :: "path \<Rightarrow> (posix, FlowManager) act" where
  "FlowManager_ctor in_mxlDomain s =
     (if \<not> path_exists s in_mxlDomain then (Throw (FilesystemError ENOENT), s)
      else if \<not> is_directory s in_mxlDomain then (Throw (FilesystemError ENOENT), s)
      else (Ret \<lparr>fm_mxlDomain = in_mxlDomain\<rparr>, s))"

definition temporary_path :: "flow_env \<Rightarrow> path \<Rightarrow> path" where
  "temporary_path env base = base @ [''.mxl-tmp-XXXXXXXXXX'' @ fe_suffix env]"

definition createTemporaryFlowDirectory :: "flow_env \<Rightarrow> path \<Rightarrow> (posix, path) act" where
  "createTemporaryFlowDirectory env base s =
     (case make_directory (fe_faults env) Call_mkdtemp (temporary_path env base) s of
        (Some e, s) \<Rightarrow> (Throw (FilesystemError e), s)
      | (None, s) \<Rightarrow> (Ret (temporary_path env base), s))"

definition publishFlowDirectory :: "faults \<Rightarrow> path \<Rightarrow> path \<Rightarrow> (posix, bool) act" where
  "publishFlowDirectory flt source dest s =
     (case flt Call_chmod source of
        Some e \<Rightarrow> (Throw (FilesystemError e), s)
      | None \<Rightarrow>
          (case rename_noreplace flt source dest s of
             (None, s) \<Rightarrow> (Ret True, s)
           | (Some e, s) \<Rightarrow>
               (if e = EEXIST \<or> e = ENOTEMPTY then (Ret False, s) else (Throw (SystemError e), s))))"

definition sanitizeFlowFormat :: "int \<Rightarrow> int" where
  "sanitizeFlowFormat format =
     (if mxlIsSupportedDataFormat format then format else format_code MXL_DATA_FORMAT_UNSPECIFIED)"

text \<open>An output stream: the file is created or truncated, then written.\<close>

definition write_file :: "faults \<Rightarrow> path \<Rightarrow> string \<Rightarrow> errc \<Rightarrow> (posix, unit) act" where
  "write_file flt p txt e s =
     (if flt Call_ofstream p \<noteq> None then (Throw (FilesystemError e), s)
      else case lookup s p of
          Some (Regular ino) \<Rightarrow> (Ret (), set_size ino (length txt) (set_content ino (Text txt) s))
        | Some Directory \<Rightarrow> (Throw (FilesystemError e), s)
        | None \<Rightarrow>
            (if is_directory s (butlast p) then
               let (ino, s) = fresh_file p s in (Ret (), set_size ino (length txt) (set_content ino (Text txt) s))
             else (Throw (FilesystemError e), s)))"

definition writeFlowDescriptor :: "faults \<Rightarrow> path \<Rightarrow> string \<Rightarrow> (posix, unit) act" where
  "writeFlowDescriptor flt flowDir flowDef = write_file flt (makeFlowDescriptorFilePath flowDir) flowDef EIO"

definition createAccessFile :: "faults \<Rightarrow> path \<Rightarrow> (posix, unit) act" where
  "createAccessFile flt flowDir = write_file flt (makeFlowAccessFilePath flowDir) [] EEXIST"

definition initCommonFlowConfigInfo ::
  "u8 list \<Rightarrow> int \<Rightarrow> mxlRational \<Rightarrow> u32 \<Rightarrow> u32 \<Rightarrow> mxlCommonFlowConfigInfo" where
  "initCommonFlowConfigInfo flowId format grainRate maxSyncBatchSizeHintOpt maxCommitBatchSizeHintOpt =
     \<lparr>cc_id = flowId, cc_format = format, cc_flags = 0, cc_grainRate = grainRate,
      cc_maxCommitBatchSizeHint = maxCommitBatchSizeHintOpt, cc_maxSyncBatchSizeHint = maxSyncBatchSizeHintOpt,
      cc_payloadLocation = MXL_PAYLOAD_LOCATION_HOST_MEMORY, cc_deviceIndex = - 1\<rparr>"

definition initFlowRuntimeInfo :: "u64 \<Rightarrow> mxlFlowRuntimeInfo" where
  "initFlowRuntimeInfo now = \<lparr>headIndex = 0, lastWriteTime = now, lastReadTime = now\<rparr>"

definition initFlowState :: "faults \<Rightarrow> path \<Rightarrow> (posix, FlowState) act" where
  "initFlowState flt flowDataPath s =
     (case flt Call_stat flowDataPath of
        Some e \<Rightarrow> (Throw (FilesystemError e), s)
      | None \<Rightarrow>
          (case lookup s flowDataPath of
             Some (Regular ino) \<Rightarrow> (Ret \<lparr>fs_inode = of_nat ino, fs_syncCounter = 0\<rparr>, s)
           | _ \<Rightarrow> (Throw (FilesystemError ENOENT), s)))"

definition init_info :: "mxlCommonFlowConfigInfo \<Rightarrow> flowConfigUnion \<Rightarrow> mxlFlowRuntimeInfo \<Rightarrow> mxlFlowInfo" where
  "init_info common specific runtime =
     \<lparr>fi_version = FLOW_DATA_VERSION, fi_size = 2048, fi_config = \<lparr>fc_common = common, fc_specific = specific\<rparr>,
      fi_runtime = runtime\<rparr>"

text \<open>The common part of a new flow: its data file, with its information and its state.\<close>

definition create_flow_segment ::
  "flow_env \<Rightarrow> path \<Rightarrow> mxlFlowInfo \<Rightarrow> (posix, SharedMemoryBase) act" where
  "create_flow_segment env dir info =
     (let flt = fe_faults env; flowDataPath = makeFlowDataFilePath dir
      in bind_act (FlowData_ctor flt flowDataPath CREATE_READ_WRITE Shared) (\<lambda>h.
         unwind (SharedMemory_dtor h) (bind_act (initFlowState flt flowDataPath) (\<lambda>st s.
           (Ret h, set_content (sm_ino h) (FlowSegment info st) s)))))"

text \<open>One grain file of a new flow.\<close>

definition init_grain :: "u32 \<Rightarrow> u16 \<Rightarrow> Grain \<Rightarrow> Grain" where
  "init_grain grainPayloadSize grainNumOfSlices g =
     g\<lparr>gr_info := (gr_info g)\<lparr>gi_grainSize := grainPayloadSize, gi_totalSlices := grainNumOfSlices,
        gi_validSlices := 0, gi_version := GRAIN_HEADER_VERSION, gi_size := 4096\<rparr>\<rparr>"

definition create_grain ::
  "faults \<Rightarrow> path \<Rightarrow> u64 \<Rightarrow> u64 \<Rightarrow> SharedMemoryBase \<Rightarrow> nat \<Rightarrow> (posix, SharedMemoryBase) act" where
  "create_grain flt grainDir payloadSize slices flow i =
     bind_act (emplace_grain_file flt (makeGrainDataFilePath grainDir (of_nat i)) (unat payloadSize) flow) (\<lambda>g s.
       case content_of s (sm_ino g) of
         GrainSegment x \<Rightarrow> (Ret g, set_content (sm_ino g) (GrainSegment (init_grain (ucast payloadSize) (ucast slices) x)) s)
       | _ \<Rightarrow> (Undef, s))"

text \<open>The loop over the grain files \<open>i, i + 1, ...\<close>; an exception destroys what was opened so far.\<close>

fun each_grain :: "(nat \<Rightarrow> (posix, SharedMemoryBase) act) \<Rightarrow> nat \<Rightarrow> nat \<Rightarrow> FlowData \<Rightarrow> (posix, FlowData) act" where
  "each_grain op i 0 d s = (Ret d, s)"
| "each_grain op i (Suc n) d s =
     (case unwind (FlowData_dtor d) (op i) s of
        (Ret g, s) \<Rightarrow> each_grain op (i + 1) n (d\<lparr>fl_maps := DiscreteMaps (map_handles (fl_maps d) @ [g])\<rparr>) s
      | (Throw e, s) \<Rightarrow> (Throw e, s)
      | (Undef, s) \<Rightarrow> (Undef, s))"

definition create_discrete_files ::
  "flow_env \<Rightarrow> path \<Rightarrow> mxlFlowInfo \<Rightarrow> u64 \<Rightarrow> u64 \<Rightarrow> u64 \<Rightarrow> (posix, FlowData) act" where
  "create_discrete_files env dir info grainCount payloadSize slices =
     bind_act (create_flow_segment env dir info) (\<lambda>h s.
       case make_directory (fe_faults env) Call_mkdir (makeGrainDirectoryName dir) s of
         (Some e, s) \<Rightarrow> (Throw (FilesystemError (if e = EEXIST then EIO else e)), SharedMemory_dtor h s)
       | (None, s) \<Rightarrow>
           each_grain (create_grain (fe_faults env) (makeGrainDirectoryName dir) payloadSize slices h) 0 (unat grainCount)
             \<lparr>fl_flow = h, fl_maps = DiscreteMaps []\<rparr> s)"

definition create_event_files ::
  "flow_env \<Rightarrow> path \<Rightarrow> mxlFlowInfo \<Rightarrow> mxlEventFlowConfigInfo \<Rightarrow> (posix, FlowData) act" where
  "create_event_files env dir info config =
     bind_act (create_flow_segment env dir info) (\<lambda>h.
     unwind (SharedMemory_dtor h)
       (bind_act (open_event_file (fe_faults env) (makeEventDataFilePath dir) config h) (\<lambda>ev.
          return_act \<lparr>fl_flow = h, fl_maps = EventMaps (Some ev)\<rparr>)))"

definition create_continuous_files ::
  "flow_env \<Rightarrow> path \<Rightarrow> mxlFlowInfo \<Rightarrow> mxlContinuousFlowConfigInfo \<Rightarrow> u64 \<Rightarrow> (posix, FlowData) act" where
  "create_continuous_files env dir info config sampleWordSize =
     bind_act (create_flow_segment env dir info) (\<lambda>h.
     unwind (SharedMemory_dtor h)
       (bind_act (open_channel_file (fe_faults env) (makeChannelDataFilePath dir) sampleWordSize config h) (\<lambda>(c, w).
          return_act \<lparr>fl_flow = h, fl_maps = ContinuousMaps (Some c) w\<rparr>)))"

section \<open>Opening a flow\<close>

definition openDiscreteFlow :: "faults \<Rightarrow> path \<Rightarrow> mxlFlowInfo \<Rightarrow> SharedMemoryBase \<Rightarrow> (posix, FlowData) act" where
  "openDiscreteFlow flt flowDir info h s =
     (let d = \<lparr>fl_flow = h, fl_maps = DiscreteMaps []\<rparr>
      in case fc_specific (fi_config info) of
           ConfigDiscrete c \<Rightarrow>
             (if dc_grainCount c > 0 then
                let grainDir = makeGrainDirectoryName flowDir
                in if is_directory s grainDir then
                     each_grain (\<lambda>i. emplace_grain_file flt (makeGrainDataFilePath grainDir (of_nat i)) 0 h) 0
                       (unat (dc_grainCount c)) d s
                   else (Throw (FilesystemError ENOENT), FlowData_dtor d s)
              else (Ret d, s))
         | _ \<Rightarrow> (Undef, s))"

definition openContinuousFlow :: "faults \<Rightarrow> path \<Rightarrow> mxlFlowInfo \<Rightarrow> SharedMemoryBase \<Rightarrow> (posix, FlowData) act" where
  "openContinuousFlow flt flowDir info h =
     (case fc_specific (fi_config info) of
        ConfigContinuous c \<Rightarrow>
          unwind (SharedMemory_dtor h)
            (bind_act (open_channel_file flt (makeChannelDataFilePath flowDir) 0 c h) (\<lambda>(ch, w).
               return_act \<lparr>fl_flow = h, fl_maps = ContinuousMaps (Some ch) w\<rparr>))
      | _ \<Rightarrow> lift_act Undef)"

definition openEventFlow :: "faults \<Rightarrow> path \<Rightarrow> mxlFlowInfo \<Rightarrow> SharedMemoryBase \<Rightarrow> (posix, FlowData) act" where
  "openEventFlow flt flowDir info h =
     (case fc_specific (fi_config info) of
        ConfigEvent c \<Rightarrow>
          unwind (SharedMemory_dtor h)
            (bind_act (open_event_file flt (makeEventDataFilePath flowDir) c h) (\<lambda>ev.
               return_act \<lparr>fl_flow = h, fl_maps = EventMaps (Some ev)\<rparr>))
      | _ \<Rightarrow> lift_act Undef)"

definition openFlow :: "flow_env \<Rightarrow> FlowManager \<Rightarrow> u8 list \<Rightarrow> AccessMode \<Rightarrow> (posix, FlowData) act" where
  "openFlow env m in_flowId in_mode s =
     (if in_mode = CREATE_READ_WRITE then (Throw InvalidArgument, s)
      else let flt = fe_faults env;
               base = makeFlowDirectoryName (fm_mxlDomain m) (fe_to_string env in_flowId);
               flowFile = makeFlowDataFilePath base
           in if path_exists s flowFile then
                bind_act (FlowData_ctor flt flowFile in_mode Shared) (\<lambda>h s.
                  case flow_segment h s of
                    None \<Rightarrow> (Undef, s)
                  | Some (info, st) \<Rightarrow>
                      (let format = cc_format (fc_common (fi_config info))
                       in if fi_version info \<noteq> FLOW_DATA_VERSION then (Throw InvalidArgument, SharedMemory_dtor h s)
                          else if mxlIsDiscreteDataFormat format then openDiscreteFlow flt base info h s
                          else if mxlIsEventDataFormat format then openEventFlow flt base info h s
                          else if mxlIsContinuousDataFormat format then openContinuousFlow flt base info h s
                          else (Throw RuntimeError, SharedMemory_dtor h s))) s
              else (Throw (FilesystemError ENOENT), s))"

section \<open>Creating or opening a flow\<close>

text \<open>The kind of a flow's mappings: what \<^verbatim>\<open>dynamic_pointer_cast\<close> asks for.\<close>

datatype flow_kind = KindDiscrete | KindContinuous | KindEvent

fun kind_of :: "flow_maps \<Rightarrow> flow_kind" where
  "kind_of (DiscreteMaps gs) = KindDiscrete"
| "kind_of (ContinuousMaps c w) = KindContinuous"
| "kind_of (EventMaps e) = KindEvent"

text \<open>
  The temporary directory is removed on every way out of the function; after the renaming there is
  nothing left to remove. A failure to remove it is only logged.
\<close>

definition with_temporary :: "flow_env \<Rightarrow> path \<Rightarrow> (path \<Rightarrow> (posix, 'a) act) \<Rightarrow> (posix, 'a) act" where
  "with_temporary env domain body =
     bind_act (createTemporaryFlowDirectory env domain) (\<lambda>tmp s.
       case body tmp s of (r, s) \<Rightarrow> (r, snd (remove_all (fe_faults env) tmp s)))"

text \<open>The new flow is published, or, when there is one already, that one is opened and the new one dropped.\<close>

definition publish_or_open ::
  "flow_env \<Rightarrow> FlowManager \<Rightarrow> u8 list \<Rightarrow> flow_kind \<Rightarrow> path \<Rightarrow> FlowData \<Rightarrow> (posix, bool \<times> FlowData) act" where
  "publish_or_open env m flowId kind tmp d =
     bind_act (unwind (FlowData_dtor d)
        (publishFlowDirectory (fe_faults env) tmp (makeFlowDirectoryName (fm_mxlDomain m) (fe_to_string env flowId))))
       (\<lambda>published.
        if published then return_act (True, d)
        else bind_act (unwind (FlowData_dtor d) (openFlow env m flowId READ_WRITE)) (\<lambda>existing s.
             if kind_of (fl_maps existing) \<noteq> kind then (Throw RuntimeError, FlowData_dtor d (FlowData_dtor existing s))
             else (Ret (False, existing), FlowData_dtor d s)))"

definition createOrOpenDiscreteFlow ::
  "flow_env \<Rightarrow> FlowManager \<Rightarrow> u8 list \<Rightarrow> string \<Rightarrow> int \<Rightarrow> u64 \<Rightarrow> mxlRational \<Rightarrow> u64 \<Rightarrow> u64 \<Rightarrow> u32 list \<Rightarrow> u32 \<Rightarrow> u32
    \<Rightarrow> (posix, bool \<times> FlowData) act" where
  "createOrOpenDiscreteFlow env m flowId flowDef flowFormat grainCount grainRate grainPayloadSize grainNumOfSlices
       grainSliceLengths maxSyncBatchSizeHintOpt maxCommitBatchSizeHintOpt =
     (let flowFormat = sanitizeFlowFormat flowFormat
      in if \<not> mxlIsDiscreteDataFormat flowFormat then throw_act RuntimeError
         else with_temporary env (fm_mxlDomain m) (\<lambda>tmp.
           bind_act (writeFlowDescriptor (fe_faults env) tmp flowDef) (\<lambda>_.
           bind_act (createAccessFile (fe_faults env) tmp) (\<lambda>_.
           bind_act (create_discrete_files env tmp
               (init_info
                 (initCommonFlowConfigInfo flowId flowFormat grainRate maxSyncBatchSizeHintOpt maxCommitBatchSizeHintOpt)
                 (ConfigDiscrete \<lparr>dc_sliceSizes = grainSliceLengths, dc_grainCount = ucast grainCount\<rparr>)
                 (initFlowRuntimeInfo (fe_now env)))
               grainCount grainPayloadSize grainNumOfSlices) (\<lambda>d.
           publish_or_open env m flowId KindDiscrete tmp d)))))"

definition createOrOpenEventFlow ::
  "flow_env \<Rightarrow> FlowManager \<Rightarrow> u8 list \<Rightarrow> string \<Rightarrow> u64 \<Rightarrow> mxlRational \<Rightarrow> u64 \<Rightarrow> (posix, bool \<times> FlowData) act" where
  "createOrOpenEventFlow env m flowId flowDef event_count grainRate eventPayloadSize =
     (if event_count < 2 \<or> event_count > 65536 \<or> eventPayloadSize = 0 \<or> eventPayloadSize > 1048576
      then throw_act InvalidArgument
      else let config = \<lparr>ec_eventCount = ucast event_count, ec_eventPayloadSize = ucast eventPayloadSize\<rparr>
           in with_temporary env (fm_mxlDomain m) (\<lambda>tmp.
             bind_act (writeFlowDescriptor (fe_faults env) tmp flowDef) (\<lambda>_.
             bind_act (createAccessFile (fe_faults env) tmp) (\<lambda>_.
             bind_act (create_event_files env tmp
                 (init_info
                   (initCommonFlowConfigInfo flowId (format_code MXL_DATA_FORMAT_EVENT) grainRate 1 1)
                   (ConfigEvent config)
                   ((initFlowRuntimeInfo (fe_now env))\<lparr>headIndex := MXL_UNDEFINED_INDEX\<rparr>))
                 config) (\<lambda>d.
             publish_or_open env m flowId KindEvent tmp d)))))"

definition createOrOpenContinuousFlow ::
  "flow_env \<Rightarrow> FlowManager \<Rightarrow> u8 list \<Rightarrow> string \<Rightarrow> int \<Rightarrow> mxlRational \<Rightarrow> u64 \<Rightarrow> u64 \<Rightarrow> u64 \<Rightarrow> u32 \<Rightarrow> u32
    \<Rightarrow> (posix, bool \<times> FlowData) act" where
  "createOrOpenContinuousFlow env m flowId flowDef flowFormat sampleRate channel_count sampleWordSize bufferLength
       maxSyncBatchSizeHintOpt maxCommitBatchSizeHintOpt =
     (let flowFormat = sanitizeFlowFormat flowFormat
      in if \<not> mxlIsContinuousDataFormat flowFormat then throw_act RuntimeError
         else let config = \<lparr>cf_channelCount = ucast channel_count, cf_bufferLength = ucast bufferLength\<rparr>
           in with_temporary env (fm_mxlDomain m) (\<lambda>tmp.
             bind_act (writeFlowDescriptor (fe_faults env) tmp flowDef) (\<lambda>_.
             bind_act (create_continuous_files env tmp
                 (init_info
                   (initCommonFlowConfigInfo flowId flowFormat sampleRate maxSyncBatchSizeHintOpt maxCommitBatchSizeHintOpt)
                   (ConfigContinuous config) (initFlowRuntimeInfo (fe_now env)))
                 config sampleWordSize) (\<lambda>d.
             publish_or_open env m flowId KindContinuous tmp d))))"

section \<open>Deleting and listing flows\<close>

definition deleteFlow_id :: "flow_env \<Rightarrow> FlowManager \<Rightarrow> u8 list \<Rightarrow> posix \<Rightarrow> bool \<times> posix" where
  "deleteFlow_id env m flowId s =
     (case remove_all (fe_faults env) (makeFlowDirectoryName (fm_mxlDomain m) (fe_to_string env flowId)) s of
        (Inl e, s) \<Rightarrow> (False, s)
      | (Inr removed, s) \<Rightarrow> (removed \<noteq> 0, s))"

definition deleteFlow :: "flow_env \<Rightarrow> FlowManager \<Rightarrow> FlowData option \<Rightarrow> posix \<Rightarrow> bool res \<times> posix" where
  "deleteFlow env m flowData s =
     (case flowData of
        None \<Rightarrow> (Ret False, s)
      | Some d \<Rightarrow>
          (case flow_segment (fl_flow d) s of
             None \<Rightarrow> (Undef, s)
           | Some (info, st) \<Rightarrow>
               (case deleteFlow_id env m (cc_id (fc_common (fi_config info))) (FlowData_dtor d s) of
                  (b, s) \<Rightarrow> (Ret b, s))))"

text \<open>\<^verbatim>\<open>stem\<close> and \<^verbatim>\<open>extension\<close> of a file name: the last dot separates them, unless the name starts with it.\<close>

definition name_extension :: "string \<Rightarrow> string" where
  "name_extension name =
     (let tail = rev (takeWhile (\<lambda>c. c \<noteq> CHR ''.'') (rev name))
      in if length tail + 1 \<ge> length name \<or> name = ''..'' then '''' else CHR ''.'' # tail)"

definition name_stem :: "string \<Rightarrow> string" where
  "name_stem name = take (length name - length (name_extension name)) name"

definition directory_entries :: "posix \<Rightarrow> path \<Rightarrow> path list" where
  "directory_entries s dir = filter (\<lambda>p. p \<noteq> [] \<and> butlast p = dir) (map fst (px_nodes s))"

definition is_flow_directory :: "posix \<Rightarrow> path \<Rightarrow> bool" where
  "is_flow_directory s p \<longleftrightarrow> is_directory s p \<and> name_extension (last p) = FLOW_DIRECTORY_NAME_SUFFIX"

definition listFlows :: "flow_env \<Rightarrow> FlowManager \<Rightarrow> posix \<Rightarrow> u8 list list res" where
  "listFlows env m s =
     (if is_directory s (fm_mxlDomain m) then
        Ret (List.map_filter (\<lambda>p. if is_flow_directory s p then fe_from_string env (name_stem (last p)) else None)
               (directory_entries s (fm_mxlDomain m)))
      else Throw (FilesystemError ENOENT))"

definition getFlowDef :: "flow_env \<Rightarrow> FlowManager \<Rightarrow> u8 list \<Rightarrow> posix \<Rightarrow> string res" where
  "getFlowDef env m flowId s =
     (let flowJsonFile = makeFlowDescriptorFilePath (makeFlowDirectoryName (fm_mxlDomain m) (fe_to_string env flowId))
      in case (if fe_faults env Call_ifstream flowJsonFile = None then lookup s flowJsonFile else None) of
           Some (Regular ino) \<Rightarrow> (case content_of s ino of Text t \<Rightarrow> Ret t | _ \<Rightarrow> Undef)
         | Some Directory \<Rightarrow> Throw RuntimeError
         | None \<Rightarrow>
             (if \<not> path_exists s flowJsonFile then Throw (FilesystemError ENOENT) else Throw RuntimeError))"

section \<open>Names of flows\<close>

lemma name_extension_flow:
  assumes "u \<noteq> []"
  shows "name_extension (u @ FLOW_DIRECTORY_NAME_SUFFIX) = FLOW_DIRECTORY_NAME_SUFFIX"
    "name_stem (u @ FLOW_DIRECTORY_NAME_SUFFIX) = u"
proof -
  have "rev (takeWhile (\<lambda>c. c \<noteq> CHR ''.'') (rev (u @ ''.mxl-flow''))) = ''mxl-flow''"
    by simp
  then show "name_extension (u @ FLOW_DIRECTORY_NAME_SUFFIX) = FLOW_DIRECTORY_NAME_SUFFIX"
    using assms by (simp add: name_extension_def FLOW_DIRECTORY_NAME_SUFFIX_def Let_def)
  then show "name_stem (u @ FLOW_DIRECTORY_NAME_SUFFIX) = u"
    by (simp add: name_stem_def)
qed

lemma name_extension_split:
  assumes "name_extension name = ext" "ext \<noteq> []"
  obtains u where "u \<noteq> []" "name = u @ ext"
proof -
  let ?tail = "rev (takeWhile (\<lambda>c. c \<noteq> CHR ''.'') (rev name))"
  have e: "length ?tail + 1 < length name" "ext = CHR ''.'' # ?tail"
    using assms by (auto simp: name_extension_def Let_def split: if_splits)
  obtain rest where "rev name = takeWhile (\<lambda>c. c \<noteq> CHR ''.'') (rev name) @ rest" "rest = dropWhile (\<lambda>c. c \<noteq> CHR ''.'') (rev name)"
    by simp
  moreover have "rest \<noteq> []"
    using calculation e(1) by (metis append_Nil2 length_rev less_add_one less_asym)
  moreover have "hd rest = CHR ''.''"
    using calculation hd_dropWhile [of "\<lambda>c. c \<noteq> CHR ''.''" "rev name"] by simp
  ultimately obtain x where "rev name = takeWhile (\<lambda>c. c \<noteq> CHR ''.'') (rev name) @ CHR ''.'' # x"
    by (metis list.collapse)
  then have n: "name = rev x @ ext"
    unfolding e(2) by (metis append.assoc append_Cons append_Nil rev.simps(2) rev_append rev_rev_ident)
  then have "rev x \<noteq> []"
    using e by (metis Suc_eq_plus1 append_Nil length_Cons less_irrefl)
  then show ?thesis
    using that n by blast
qed

lemma path_exists_iff: "path_exists s p \<longleftrightarrow> (\<exists>n. (p, n) \<in> set (px_nodes s))"
  by (force simp: path_exists_def lookup_def map_of_eq_None_iff)

lemma directory_entries_iff: "p \<in> set (directory_entries s dir) \<longleftrightarrow> path_exists s p \<and> p \<noteq> [] \<and> butlast p = dir"
  by (force simp: directory_entries_def path_exists_iff)

text \<open>
  C22: the listing of a domain gives the identifiers of exactly the flows it holds: an identifier is listed
  if and only if the name of a directory in the domain is a text form of it followed by the suffix.
\<close>

theorem listFlows_exact:
  assumes "listFlows env m s = Ret ids"
  shows "i \<in> set ids \<longleftrightarrow>
    (\<exists>name. name \<noteq> [] \<and> fe_from_string env name = Some i \<and> is_directory s (makeFlowDirectoryName (fm_mxlDomain m) name))"
proof -
  let ?d = "fm_mxlDomain m"
  have ids: "i \<in> set ids \<longleftrightarrow>
      (\<exists>p \<in> set (directory_entries s ?d). is_flow_directory s p \<and> fe_from_string env (name_stem (last p)) = Some i)"
    using assms by (force simp: listFlows_def List.map_filter_def split: if_splits)
  show ?thesis
    unfolding ids
  proof
    assume "\<exists>p \<in> set (directory_entries s ?d). is_flow_directory s p \<and> fe_from_string env (name_stem (last p)) = Some i"
    then obtain p where p: "p \<noteq> []" "butlast p = ?d" "is_directory s p" "name_extension (last p) = FLOW_DIRECTORY_NAME_SUFFIX"
        "fe_from_string env (name_stem (last p)) = Some i"
      by (auto simp: directory_entries_iff is_flow_directory_def)
    obtain u where u: "u \<noteq> []" "last p = u @ FLOW_DIRECTORY_NAME_SUFFIX"
      using name_extension_split [OF p(4)] by (auto simp: FLOW_DIRECTORY_NAME_SUFFIX_def)
    have "p = makeFlowDirectoryName ?d u"
      using p(1,2) u(2) by (metis append_butlast_last_id makeFlowDirectoryName_def)
    then show "\<exists>name. name \<noteq> [] \<and> fe_from_string env name = Some i \<and> is_directory s (makeFlowDirectoryName ?d name)"
      using p u name_extension_flow(2) by auto
  next
    assume "\<exists>name. name \<noteq> [] \<and> fe_from_string env name = Some i \<and> is_directory s (makeFlowDirectoryName ?d name)"
    then obtain u where "u \<noteq> []" "fe_from_string env u = Some i" "is_directory s (makeFlowDirectoryName ?d u)"
      by blast
    then show "\<exists>p \<in> set (directory_entries s ?d). is_flow_directory s p \<and> fe_from_string env (name_stem (last p)) = Some i"
      by (intro bexI [of _ "makeFlowDirectoryName ?d u"])
        (auto simp: directory_entries_iff is_flow_directory_def makeFlowDirectoryName_def name_extension_flow
          is_directory_def path_exists_def)
  qed
qed

text \<open>The digits of a number determine it, so the grains of a flow have different files.\<close>

lemma decimal_Nil [simp]: "decimal n \<noteq> []" "[] \<noteq> decimal n"
  by (subst decimal.simps; simp)+

lemma digit_inj: "a < 10 \<Longrightarrow> b < 10 \<Longrightarrow> digit a = digit b \<Longrightarrow> a = b"
  unfolding digit_def by (drule arg_cong [where f = "of_char :: char \<Rightarrow> nat"]) (simp add: of_char_of)

lemma decimal_inj: "decimal a = decimal b \<Longrightarrow> a = b"
proof (induction a arbitrary: b rule: decimal.induct)
  case (1 a)
  have split: "decimal n = (if n < 10 then [] else decimal (n div 10)) @ [digit (n mod 10)]" for n
    by (subst decimal.simps) simp
  have eq: "(if a < 10 then [] else decimal (a div 10)) = (if b < 10 then [] else decimal (b div 10))"
      "digit (a mod 10) = digit (b mod 10)"
    using 1(2) split [of a] split [of b] by simp_all
  then have "a mod 10 = b mod 10"
    using digit_inj by simp
  moreover have "a div 10 = b div 10"
    using eq(1) 1(1) by (auto split: if_splits)
  ultimately show ?case
    by (metis div_mult_mod_eq)
qed

lemma grain_files_differ:
  "makeGrainDataFilePath dir i = makeGrainDataFilePath dir j \<longleftrightarrow> i = j"
  by (auto simp: makeGrainDataFilePath_def dest: decimal_inj intro: word_unat_eq_iff [THEN iffD2])

section \<open>Witnesses\<close>

definition listing_env :: flow_env where
  "listing_env = \<lparr>fe_faults = no_faults, fe_now = 0, fe_to_string = (\<lambda>_. ''a''),
     fe_from_string = (\<lambda>t. if t = ''a'' then Some [1] else None), fe_suffix = ''abcdef''\<rparr>"

definition listed_domain :: posix where
  "listed_domain =
     two_files\<lparr>px_nodes := [([''d''], Directory), ([''d'', ''a.mxl-flow''], Directory), ([''d'', ''.mxl-flow''], Directory)]\<rparr>"

lemma listed_ids: "listFlows listing_env \<lparr>fm_mxlDomain = [''d'']\<rparr> listed_domain = Ret [[1]]"
  by code_simp

theorem listFlows_exact_witness:
  "\<exists>name. name \<noteq> [] \<and> fe_from_string listing_env name = Some [1] \<and>
     is_directory listed_domain (makeFlowDirectoryName (fm_mxlDomain \<lparr>fm_mxlDomain = [''d'']\<rparr>) name)"
  using listFlows_exact [OF listed_ids, of "[1]"] by simp

end
