(* ===== verification/DomainWatcher.thy ===== *)
theory DomainWatcher
  imports FlowManager
begin

text \<open>
  The watcher of a domain (\<^verbatim>\<open>DomainWatcher.cpp\<close>): writers register the access file of their flow, and
  whenever a reader touches that file the watcher stores the time of the access in the flow. The watches
  of the kernel are a table of watch descriptors and files; the event thread is a function of the results
  of the system calls it makes.
\<close>

unbundle bit_operations_syntax

section \<open>The kernel's watches\<close>

record inotify =
  kn_watches :: "(nat \<times> nat) list"
  kn_next :: nat

text \<open>A file that is watched already keeps its watch descriptor.\<close>

definition inotify_add_watch :: "faults \<Rightarrow> posix \<Rightarrow> path \<Rightarrow> inotify \<Rightarrow> (errc + nat) \<times> inotify" where
  "inotify_add_watch flt s p k =
     (case flt Call_inotify p of
        Some e \<Rightarrow> (Inl e, k)
      | None \<Rightarrow>
          (case lookup s p of
             Some (Regular ino) \<Rightarrow>
               (case find (\<lambda>e. snd e = ino) (kn_watches k) of
                  Some e \<Rightarrow> (Inr (fst e), k)
                | None \<Rightarrow> (Inr (kn_next k), k\<lparr>kn_watches := (kn_next k, ino) # kn_watches k, kn_next := kn_next k + 1\<rparr>))
           | Some Directory \<Rightarrow> (Inl EOTHER, k)
           | None \<Rightarrow> (Inl ENOENT, k)))"

definition inotify_rm_watch :: "nat \<Rightarrow> inotify \<Rightarrow> inotify" where
  "inotify_rm_watch wd k = k\<lparr>kn_watches := filter (\<lambda>e. fst e \<noteq> wd) (kn_watches k)\<rparr>"

section \<open>The watcher\<close>

text \<open>The writer is a reference, only compared; the mapping is the one that the record shares.\<close>

record DomainWatcherRecord =
  wr_id :: "u8 list"
  wr_fileName :: path
  wr_fw :: nat
  wr_flowData :: SharedMemoryBase

definition same_record :: "u8 list \<Rightarrow> nat \<Rightarrow> DomainWatcherRecord \<Rightarrow> bool" where
  "same_record flowId fw r \<longleftrightarrow> wr_id r = flowId \<and> wr_fw r = fw"

record DomainWatcher =
  dw_domain :: path
  dw_inotify :: inotify
  dw_watches :: "(nat \<times> DomainWatcherRecord) list"
  dw_running :: bool

type_synonym watched = "DomainWatcher \<times> posix"

subsection \<open>Construction\<close>

datatype watcher_fd = InotifyFd | EpollFd | EventFd

datatype watcher_call = Inotify_init1 | Epoll_create1 | Epoll_ctl_inotify | Eventfd | Epoll_ctl_eventfd | Start_thread

text \<open>The result, and the descriptors that are open when the constructor is left.\<close>

definition DomainWatcher_ctor ::
  "(watcher_call \<Rightarrow> errc option) \<Rightarrow> path \<Rightarrow> posix \<Rightarrow> DomainWatcher res \<times> watcher_fd list" where
  "DomainWatcher_ctor fails in_domain s =
     (if \<not> is_directory s in_domain then (Throw (FilesystemError ENOTDIR), [])
      else case fails Inotify_init1 of Some e \<Rightarrow> (Throw (SystemError e), []) | None \<Rightarrow>
        (let fds = [InotifyFd]
         in case fails Epoll_create1 of Some e \<Rightarrow> (Throw (SystemError e), removeAll InotifyFd fds) | None \<Rightarrow>
        (let fds = EpollFd # fds
         in case fails Epoll_ctl_inotify of
              Some e \<Rightarrow> (Throw (SystemError e), removeAll EpollFd (removeAll InotifyFd fds)) | None \<Rightarrow>
        (case fails Eventfd of
              Some e \<Rightarrow> (Throw (SystemError e), removeAll EpollFd (removeAll InotifyFd fds)) | None \<Rightarrow>
        (let fds = EventFd # fds
         in case fails Epoll_ctl_eventfd of
              Some e \<Rightarrow> (Throw (SystemError e), removeAll EventFd (removeAll EpollFd (removeAll InotifyFd fds))) | None \<Rightarrow>
        (case fails Start_thread of
              Some e \<Rightarrow> (Throw (SystemError e), removeAll EventFd (removeAll EpollFd (removeAll InotifyFd fds))) | None \<Rightarrow>
         (Ret \<lparr>dw_domain = in_domain, dw_inotify = \<lparr>kn_watches = [], kn_next = 1\<rparr>, dw_watches = [], dw_running = True\<rparr>, fds)))))))"

text \<open>Stopping, and the destructor: the watches are removed and the mappings of the records closed.\<close>

definition stop :: "DomainWatcher \<Rightarrow> DomainWatcher" where
  "stop w = w\<lparr>dw_running := False\<rparr>"

definition DomainWatcher_dtor :: "watched \<Rightarrow> inotify \<times> posix" where
  "DomainWatcher_dtor ws =
     (case ws of (w, s) \<Rightarrow>
        (fold (\<lambda>e. inotify_rm_watch (fst e)) (dw_watches w) (dw_inotify (stop w)),
         fold (\<lambda>e. SharedMemory_dtor (wr_flowData (snd e))) (dw_watches w) s))"

subsection \<open>Registering writers\<close>

definition watch_of :: "u8 list \<Rightarrow> DomainWatcher \<Rightarrow> nat option" where
  "watch_of flowId w = map_option fst (find (\<lambda>e. wr_id (snd e) = flowId) (dw_watches w))"

definition addFlow :: "flow_env \<Rightarrow> nat \<Rightarrow> u8 list \<Rightarrow> (watched, unit) act" where
  "addFlow env writer flowId ws =
     (let (w, s) = ws;
          flt = fe_faults env;
          fileName = makeFlowAccessFilePath (makeFlowDirectoryName (dw_domain w) (fe_to_string env flowId));
          dataPath = makeFlowDataFilePath (makeFlowDirectoryName (dw_domain w) (fe_to_string env flowId))
      in case (case watch_of flowId w of
                 Some wd \<Rightarrow> (Inr wd, dw_inotify w)
               | None \<Rightarrow> inotify_add_watch flt s fileName (dw_inotify w)) of
           (Inl e, k) \<Rightarrow> (Throw (SystemError e), w\<lparr>dw_inotify := k\<rparr>, s)
         | (Inr wd, k) \<Rightarrow>
             (case FlowData_ctor flt dataPath READ_WRITE NoLock s of
                (Ret h, s) \<Rightarrow>
                  (Ret (),
                   w\<lparr>dw_inotify := k,
                     dw_watches := dw_watches w @
                       [(wd, \<lparr>wr_id = flowId, wr_fileName = fileName, wr_fw = writer, wr_flowData = h\<rparr>)]\<rparr>, s)
              | (Throw e, s) \<Rightarrow> (Throw e, w\<lparr>dw_inotify := k\<rparr>, s)
              | (Undef, s) \<Rightarrow> (Undef, w\<lparr>dw_inotify := k\<rparr>, s)))"

fun erase_record :: "u8 list \<Rightarrow> nat \<Rightarrow> (nat \<times> DomainWatcherRecord) list \<Rightarrow> (nat \<times> DomainWatcherRecord) list" where
  "erase_record flowId fw [] = []"
| "erase_record flowId fw (e # es) = (if same_record flowId fw (snd e) then es else e # erase_record flowId fw es)"

definition removeFlow :: "nat \<Rightarrow> u8 list \<Rightarrow> watched \<Rightarrow> watched" where
  "removeFlow writer flowId ws =
     (let (w, s) = ws
      in case find (\<lambda>e. same_record flowId writer (snd e)) (dw_watches w) of
           None \<Rightarrow> (w, s)
         | Some (wd, r) \<Rightarrow>
             (let rest = erase_record flowId writer (dw_watches w)
              in (w\<lparr>dw_watches := rest,
                    dw_inotify := (if wd \<notin> fst ` set rest then inotify_rm_watch wd (dw_inotify w) else dw_inotify w)\<rparr>,
                  SharedMemory_dtor (wr_flowData r) s)))"

definition count_flow :: "u8 list \<Rightarrow> DomainWatcher \<Rightarrow> nat" where
  "count_flow flowId w =
     (case watch_of flowId w of None \<Rightarrow> 0 | Some wd \<Rightarrow> length (filter (\<lambda>e. fst e = wd) (dw_watches w)))"

definition size_watches :: "DomainWatcher \<Rightarrow> nat" where
  "size_watches w = length (dw_watches w)"

subsection \<open>Events\<close>

definition IN_ACCESS :: u32 where "IN_ACCESS = 1"
definition IN_MODIFY :: u32 where "IN_MODIFY = 2"
definition IN_ATTRIB :: u32 where "IN_ATTRIB = 4"

type_synonym inotify_event = "nat \<times> u32"

definition with_read_time :: "u64 \<Rightarrow> content \<Rightarrow> content" where
  "with_read_time time c =
     (case c of
        FlowSegment info st \<Rightarrow> FlowSegment (info\<lparr>fi_runtime := (fi_runtime info)\<lparr>lastReadTime := time\<rparr>\<rparr>) st
      | c \<Rightarrow> c)"

definition updateReadTime :: "nat \<Rightarrow> u64 \<Rightarrow> posix \<Rightarrow> posix" where
  "updateReadTime ino time s = set_content ino (with_read_time time (content_of s ino)) s"

definition processEvent :: "DomainWatcher \<Rightarrow> u64 \<Rightarrow> inotify_event \<Rightarrow> posix \<Rightarrow> posix" where
  "processEvent w time e s =
     (if snd e AND (IN_ACCESS OR IN_MODIFY OR IN_ATTRIB) = 0 then s
      else case find (\<lambda>x. fst x = fst e) (dw_watches w) of
          None \<Rightarrow> s
        | Some (wd, r) \<Rightarrow> updateReadTime (sm_ino (wr_flowData r)) time s)"

definition processEventBuffer :: "DomainWatcher \<Rightarrow> u64 \<Rightarrow> inotify_event list \<Rightarrow> posix \<Rightarrow> posix" where
  "processEventBuffer w time buffer s = fold (processEvent w time) buffer s"

text \<open>
  One turn of the event thread: \<^verbatim>\<open>_running\<close> is false, or what \<^verbatim>\<open>epoll_wait\<close> and then \<^verbatim>\<open>read\<close> give. A read
  that fails for good leaves the loop over the ready descriptors only.
\<close>

datatype poll_turn =
    Turn_stopped
  | Turn_interrupted
  | Turn_poll_failed
  | Turn_timeout
  | Turn_signalled
  | Turn_read_again
  | Turn_read_failed
  | Turn_nothing_read
  | Turn_events u64 "inotify_event list"

fun processEvents :: "poll_turn list \<Rightarrow> DomainWatcher \<Rightarrow> posix \<Rightarrow> posix option" where
  "processEvents [] w s = None"
| "processEvents (t # ts) w s =
     (case t of
        Turn_stopped \<Rightarrow> Some s
      | Turn_poll_failed \<Rightarrow> Some s
      | Turn_events time buffer \<Rightarrow> processEvents ts w (processEventBuffer w time buffer s)
      | _ \<Rightarrow> processEvents ts w s)"

section \<open>Registrations and watches\<close>

text \<open>
  Records of one flow share a watch, records of different flows do not, and every record's watch is one
  of the kernel's, which has one per file.
\<close>

definition inotify_ok :: "inotify \<Rightarrow> bool" where
  "inotify_ok k \<longleftrightarrow> distinct (map fst (kn_watches k)) \<and> distinct (map snd (kn_watches k)) \<and>
     (\<forall>wd \<in> fst ` set (kn_watches k). wd < kn_next k)"

definition watcher_ok :: "DomainWatcher \<Rightarrow> bool" where
  "watcher_ok w \<longleftrightarrow>
     inotify_ok (dw_inotify w) \<and> fst ` set (dw_watches w) \<subseteq> fst ` set (kn_watches (dw_inotify w)) \<and>
     (\<forall>e \<in> set (dw_watches w). \<forall>e' \<in> set (dw_watches w). wr_id (snd e) = wr_id (snd e') \<longleftrightarrow> fst e = fst e')"

definition watches_exact :: "DomainWatcher \<Rightarrow> bool" where
  "watches_exact w \<longleftrightarrow> fst ` set (kn_watches (dw_inotify w)) = fst ` set (dw_watches w)"

definition writers_of :: "u8 list \<Rightarrow> DomainWatcher \<Rightarrow> nat" where
  "writers_of flowId w = length (filter (\<lambda>e. wr_id (snd e) = flowId) (dw_watches w))"

lemma find_SomeD: "find P xs = Some x \<Longrightarrow> x \<in> set xs \<and> P x"
  by (auto simp: find_Some_iff)

lemma find_None_all: "find P xs = None \<longleftrightarrow> (\<forall>x \<in> set xs. \<not> P x)"
  by (auto simp: find_None_iff)

lemma watch_of_Some:
  assumes "watch_of i w = Some wd"
  shows "\<exists>r. (wd, r) \<in> set (dw_watches w) \<and> wr_id r = i"
proof -
  obtain e where e: "find (\<lambda>e. wr_id (snd e) = i) (dw_watches w) = Some e" "fst e = wd"
    using assms by (auto simp: watch_of_def)
  then show ?thesis
    using find_SomeD [OF e(1)] by (cases e) auto
qed

lemma watch_of_None: "watch_of i w = None \<longleftrightarrow> (\<forall>e \<in> set (dw_watches w). wr_id (snd e) \<noteq> i)"
  by (simp add: watch_of_def find_None_all)

lemma watcher_okD:
  "watcher_ok w \<Longrightarrow> e \<in> set (dw_watches w) \<Longrightarrow> e' \<in> set (dw_watches w) \<Longrightarrow>
     wr_id (snd e) = wr_id (snd e') \<longleftrightarrow> fst e = fst e'"
  by (simp add: watcher_ok_def)

lemma count_flow_eq:
  assumes "watcher_ok w"
  shows "count_flow i w = writers_of i w"
proof (cases "watch_of i w")
  case None
  then have "filter (\<lambda>e. wr_id (snd e) = i) (dw_watches w) = []"
    by (simp add: watch_of_None filter_empty_conv)
  then show ?thesis
    using None by (simp add: count_flow_def writers_of_def)
next
  case (Some wd)
  then obtain r where r: "(wd, r) \<in> set (dw_watches w)" "wr_id r = i"
    using watch_of_Some by blast
  then have "filter (\<lambda>e. fst e = wd) (dw_watches w) = filter (\<lambda>e. wr_id (snd e) = i) (dw_watches w)"
    using watcher_okD [OF assms, of _ "(wd, r)"] by (intro filter_cong refl) auto
  then show ?thesis
    using Some by (simp add: count_flow_def writers_of_def)
qed

lemma inotify_add_cases:
  assumes "inotify_add_watch flt s p k = (x, k')" "inotify_ok k"
  obtains (failed) e where "x = Inl e" "k' = k"
    | (old) wd ino where "x = Inr wd" "k' = k" "(wd, ino) \<in> set (kn_watches k)" "lookup s p = Some (Regular ino)"
    | (new) ino where "x = Inr (kn_next k)" "k' = k\<lparr>kn_watches := (kn_next k, ino) # kn_watches k, kn_next := kn_next k + 1\<rparr>"
        "ino \<notin> snd ` set (kn_watches k)" "inotify_ok k'"
proof (cases "flt Call_inotify p")
  case (Some e)
  then show ?thesis using assms(1) failed by (auto simp: inotify_add_watch_def)
next
  case None
  note no_fault = None
  show ?thesis
  proof (cases "\<exists>ino. lookup s p = Some (Regular ino)")
    case True
    then obtain ino where l: "lookup s p = Some (Regular ino)" by blast
    show ?thesis
    proof (cases "find (\<lambda>e. snd e = ino) (kn_watches k)")
      case None
      then have fresh: "ino \<notin> snd ` set (kn_watches k)"
        by (auto simp: find_None_iff)
      have "kn_next k \<notin> fst ` set (kn_watches k)"
        using assms(2) by (auto simp: inotify_ok_def)
      then have "inotify_ok (k\<lparr>kn_watches := (kn_next k, ino) # kn_watches k, kn_next := kn_next k + 1\<rparr>)"
        using assms(2) fresh by (auto simp: inotify_ok_def less_SucI)
      then show ?thesis
        using new [of ino] fresh None assms(1) l no_fault by (auto simp: inotify_add_watch_def)
    next
      case (Some e)
      then have "e \<in> set (kn_watches k)" "snd e = ino"
        by (auto simp: find_Some_iff)
      then show ?thesis
        using old [of "fst e" ino] Some assms(1) l no_fault by (auto simp: inotify_add_watch_def)
    qed
  next
    case False
    then show ?thesis
      using failed assms(1) no_fault by (auto simp: inotify_add_watch_def split: option.splits node.splits)
  qed
qed

text \<open>What registering does, up to the state of the files.\<close>

definition access_path :: "flow_env \<Rightarrow> u8 list \<Rightarrow> DomainWatcher \<Rightarrow> path" where
  "access_path env flowId w = makeFlowAccessFilePath (makeFlowDirectoryName (dw_domain w) (fe_to_string env flowId))"

text \<open>The access file of a flow that has no watch is not one of the files watched for other flows.\<close>

definition own_access_file :: "flow_env \<Rightarrow> u8 list \<Rightarrow> DomainWatcher \<Rightarrow> posix \<Rightarrow> bool" where
  "own_access_file env flowId w s \<longleftrightarrow>
     (\<forall>ino. watch_of flowId w = None \<and> lookup s (access_path env flowId w) = Some (Regular ino) \<longrightarrow>
        ino \<notin> snd ` set (kn_watches (dw_inotify w)))"

lemma addFlow_cases:
  assumes "addFlow env fw i (w, s) = (r, (w', s'))" "watcher_ok w" "own_access_file env i w s"
  obtains (added) wd k h where "r = Ret ()"
      "w' = w\<lparr>dw_inotify := k, dw_watches := dw_watches w @
         [(wd, \<lparr>wr_id = i, wr_fileName = access_path env i w, wr_fw = fw, wr_flowData = h\<rparr>)]\<rparr>"
      "inotify_ok k" "fst ` set (kn_watches k) = insert wd (fst ` set (kn_watches (dw_inotify w)))"
      "case watch_of i w of Some wd' \<Rightarrow> wd' = wd | None \<Rightarrow> wd \<notin> fst ` set (dw_watches w)"
    | (failed) k where "r \<noteq> Ret ()" "w' = w\<lparr>dw_inotify := k\<rparr>" "inotify_ok k"
      "fst ` set (kn_watches (dw_inotify w)) \<subseteq> fst ` set (kn_watches k)"
proof -
  let ?k = "dw_inotify w"
  have kok: "inotify_ok ?k" "fst ` set (dw_watches w) \<subseteq> fst ` set (kn_watches ?k)"
    using assms(2) by (simp_all add: watcher_ok_def)
  obtain x k where x: "(case watch_of i w of Some wd \<Rightarrow> (Inr wd, ?k)
      | None \<Rightarrow> inotify_add_watch (fe_faults env) s (access_path env i w) ?k) = (x, k)"
    by fastforce
  have k: "inotify_ok k \<and> fst ` set (kn_watches ?k) \<subseteq> fst ` set (kn_watches k) \<and>
    (\<forall>wd. x = Inr wd \<longrightarrow> fst ` set (kn_watches k) = insert wd (fst ` set (kn_watches ?k)) \<and>
      (case watch_of i w of Some wd' \<Rightarrow> wd' = wd | None \<Rightarrow> wd \<notin> fst ` set (dw_watches w)))"
  proof (cases "watch_of i w")
    case None
    then have add: "inotify_add_watch (fe_faults env) s (access_path env i w) ?k = (x, k)"
      using x by simp
    have next_fresh: "kn_next ?k \<notin> fst ` set (dw_watches w)"
      using kok unfolding inotify_ok_def by blast
    from add kok(1) show ?thesis
    proof (cases rule: inotify_add_cases)
      case (old wd ino)
      then show ?thesis
        using assms(3) None by (force simp: own_access_file_def)
    qed (use kok next_fresh None in auto)
  next
    case (Some wd)
    then have "x = Inr wd" "k = ?k"
      using x by simp_all
    moreover have "wd \<in> fst ` set (kn_watches ?k)"
      using kok(2) watch_of_Some [OF Some] by force
    ultimately show ?thesis
      using kok(1) Some by (simp add: insert_absorb)
  qed
  have run: "(case (x, k) of
           (Inl e, k) \<Rightarrow> (Throw (SystemError e), w\<lparr>dw_inotify := k\<rparr>, s)
         | (Inr wd, k) \<Rightarrow>
             (case FlowData_ctor (fe_faults env) (makeFlowDataFilePath (makeFlowDirectoryName (dw_domain w) (fe_to_string env i)))
                     READ_WRITE NoLock s of
                (Ret h, s) \<Rightarrow>
                  (Ret (),
                   w\<lparr>dw_inotify := k,
                     dw_watches := dw_watches w @
                       [(wd, \<lparr>wr_id = i, wr_fileName = access_path env i w, wr_fw = fw, wr_flowData = h\<rparr>)]\<rparr>, s)
              | (Throw e, s) \<Rightarrow> (Throw e, w\<lparr>dw_inotify := k\<rparr>, s)
              | (Undef, s) \<Rightarrow> (Undef, w\<lparr>dw_inotify := k\<rparr>, s))) = (r, w', s')"
    using assms(1) x unfolding addFlow_def Let_def access_path_def by simp
  show ?thesis
  proof (cases x)
    case (Inl e)
    then show ?thesis
      using run k failed [of k] by auto
  next
    case (Inr wd)
    then show ?thesis
      using run k added [where wd = wd and k = k] failed [of k] by (auto split: prod.splits res.splits)
  qed
qed

lemma watcher_ok_add:
  assumes "watcher_ok w" "inotify_ok k" "fst ` set (kn_watches k) = insert wd (fst ` set (kn_watches (dw_inotify w)))"
    "case watch_of (wr_id x) w of Some wd' \<Rightarrow> wd' = wd | None \<Rightarrow> wd \<notin> fst ` set (dw_watches w)"
  shows "watcher_ok (w\<lparr>dw_inotify := k, dw_watches := dw_watches w @ [(wd, x)]\<rparr>)"
proof -
  have same: "wr_id (snd e) = wr_id x \<longleftrightarrow> fst e = wd" if "e \<in> set (dw_watches w)" for e
  proof (cases "watch_of (wr_id x) w")
    case None
    have "wd \<notin> fst ` set (dw_watches w)" "wr_id (snd e) \<noteq> wr_id x"
      using assms(4) None that by (simp, simp add: watch_of_None)
    then show ?thesis
      using that by force
  next
    case (Some wd')
    then obtain r where "(wd', r) \<in> set (dw_watches w)" "wr_id r = wr_id x"
      using watch_of_Some by blast
    then show ?thesis
      using assms(4) watcher_okD [OF assms(1) that, of "(wd', r)"] Some by simp
  qed
  have "wr_id (snd e) = wr_id (snd e') \<longleftrightarrow> fst e = fst e'"
    if "e \<in> insert (wd, x) (set (dw_watches w))" "e' \<in> insert (wd, x) (set (dw_watches w))" for e e'
    using that same [of e] same [of e'] watcher_okD [OF assms(1), of e e'] by auto
  then show ?thesis
    using assms(1-3) by (auto simp: watcher_ok_def)
qed

lemma erase_record_parts:
  assumes "find (\<lambda>e. same_record i fw (snd e)) es = Some e"
  obtains as bs where "es = as @ e # bs" "erase_record i fw es = as @ bs"
  using assms
proof (induction es arbitrary: thesis)
  case (Cons x es)
  show ?case
  proof (cases "same_record i fw (snd x)")
    case True
    then show ?thesis
      using Cons.prems(1) [of "[]" es] Cons.prems(2) by simp
  next
    case False
    then obtain as bs where "es = as @ e # bs" "erase_record i fw es = as @ bs"
      using Cons.IH Cons.prems(2) by (metis find.simps(2))
    then show ?thesis
      using False Cons.prems(1) [of "x # as" bs] by simp
  qed
qed simp

lemma removeFlow_cases:
  assumes "removeFlow fw i (w, s) = (w', s')"
  obtains (unknown) "w' = w" "s' = s" "\<forall>e \<in> set (dw_watches w). \<not> same_record i fw (snd e)"
    | (removed) as wd x bs where "dw_watches w = as @ (wd, x) # bs" "same_record i fw x" "dw_watches w' = as @ bs"
        "dw_inotify w' = (if wd \<notin> fst ` set (as @ bs) then inotify_rm_watch wd (dw_inotify w) else dw_inotify w)"
        "dw_domain w' = dw_domain w" "s' = SharedMemory_dtor (wr_flowData x) s"
proof (cases "find (\<lambda>e. same_record i fw (snd e)) (dw_watches w)")
  case None
  then show ?thesis
    using unknown assms by (simp add: removeFlow_def find_None_all [symmetric])
next
  case (Some e)
  obtain as bs where "dw_watches w = as @ e # bs" "erase_record i fw (dw_watches w) = as @ bs"
    using erase_record_parts [OF Some] .
  then show ?thesis
    using Some assms find_SomeD [OF Some] removed [of as "fst e" "snd e" bs]
    by (auto simp: removeFlow_def Let_def split: prod.splits)
qed

lemma kn_watches_rm: "fst ` set (kn_watches (inotify_rm_watch wd k)) = fst ` set (kn_watches k) - {wd}"
  by (auto simp: inotify_rm_watch_def image_iff)

lemma inotify_ok_rm: "inotify_ok k \<Longrightarrow> inotify_ok (inotify_rm_watch wd k)"
  by (auto simp: inotify_ok_def inotify_rm_watch_def distinct_map_filter)

text \<open>
  C23: registering and unregistering keep the invariant of the watcher. A successful registration adds one
  to the number of writers of its flow and to no other; removing a registered writer takes one away; and
  as long as no registration fails the kernel watches exactly the files of the flows that have writers.
\<close>

theorem watcher_registrations:
  assumes "watcher_ok w"
    and "own_access_file env i w s"
    and "addFlow env fw i (w, s) = (r, (w', s'))" and "removeFlow fw' i' (w', s') = (w'', s'')"
  shows "watcher_ok w' \<and> watcher_ok w'' \<and>
    (r = Ret () \<longrightarrow> count_flow j w' = count_flow j w + (if j = i then 1 else 0)) \<and>
    (r \<noteq> Ret () \<longrightarrow> count_flow j w' = count_flow j w) \<and>
    count_flow j w'' = count_flow j w' -
      (if j = i' \<and> (\<exists>e \<in> set (dw_watches w'). same_record i' fw' (snd e)) then 1 else 0) \<and>
    (watches_exact w \<and> r = Ret () \<longrightarrow> watches_exact w' \<and> watches_exact w'')"
proof -
  have first: "watcher_ok w' \<and> writers_of j w' = writers_of j w + (if r = Ret () \<and> j = i then 1 else 0) \<and>
      (watches_exact w \<and> r = Ret () \<longrightarrow> watches_exact w')"
    using assms(3,1,2)
  proof (cases rule: addFlow_cases)
    case (added wd k h)
    let ?x = "\<lparr>wr_id = i, wr_fileName = access_path env i w, wr_fw = fw, wr_flowData = h\<rparr>"
    have "watcher_ok w'"
      unfolding added(2) using added(5) by (intro watcher_ok_add [OF assms(1) added(3,4)]) simp
    then show ?thesis
      using added by (auto simp: writers_of_def watches_exact_def)
  next
    case (failed k)
    then have "watcher_ok w'"
      using assms(1) unfolding watcher_ok_def by simp blast
    then show ?thesis
      using failed by (simp add: writers_of_def)
  qed
  have second: "watcher_ok w'' \<and> writers_of j w'' = writers_of j w' -
      (if j = i' \<and> (\<exists>e \<in> set (dw_watches w'). same_record i' fw' (snd e)) then 1 else 0) \<and>
      (watches_exact w' \<longrightarrow> watches_exact w'')"
    using assms(4)
  proof (cases rule: removeFlow_cases)
    case unknown
    then show ?thesis
      using first by auto
  next
    case (removed as wd x bs)
    have k: "inotify_ok (dw_inotify w'')"
      using first removed(4) inotify_ok_rm by (auto simp: watcher_ok_def)
    have sub: "fst ` set (as @ bs) \<subseteq> fst ` set (kn_watches (dw_inotify w''))"
      using first removed(1,4) by (auto simp: watcher_ok_def kn_watches_rm) 
    have pairs: "wr_id (snd e) = wr_id (snd e') \<longleftrightarrow> fst e = fst e'" if "e \<in> set (as @ bs)" "e' \<in> set (as @ bs)" for e e'
      using that by (intro watcher_okD [of w']) (auto simp: removed(1) first)
    have "watcher_ok w''"
      unfolding watcher_ok_def removed(3) using k sub pairs by blast
    moreover have "writers_of j w'' = writers_of j w' - (if j = i' then 1 else 0)"
      using removed(1-3) by (auto simp: writers_of_def same_record_def)
    moreover have "watches_exact w' \<longrightarrow> watches_exact w''"
      using removed(1,3,4) by (auto simp: watches_exact_def kn_watches_rm)
    moreover have "\<exists>e \<in> set (dw_watches w'). same_record i' fw' (snd e)"
      using removed(1,2) by auto
    ultimately show ?thesis
      by simp
  qed
  show ?thesis
    using first second count_flow_eq [OF assms(1)] count_flow_eq [of w' j] count_flow_eq [of w'' j] by auto
qed

section \<open>Access times\<close>

definition relevant :: "inotify_event \<Rightarrow> bool" where
  "relevant e \<longleftrightarrow> snd e AND (IN_ACCESS OR IN_MODIFY OR IN_ATTRIB) \<noteq> 0"

text \<open>The files whose flows an event concerns: the one of the first record with the watch of the event.\<close>

definition concerned :: "DomainWatcher \<Rightarrow> inotify_event \<Rightarrow> nat option" where
  "concerned w e =
     (if relevant e then map_option (\<lambda>x. sm_ino (wr_flowData (snd x))) (find (\<lambda>x. fst x = fst e) (dw_watches w)) else None)"

lemma processEvent_eq:
  "processEvent w time e s = (case concerned w e of None \<Rightarrow> s | Some ino \<Rightarrow> updateReadTime ino time s)"
  by (auto simp: processEvent_def concerned_def relevant_def split: option.splits prod.splits)

lemma with_read_time_twice [simp]: "with_read_time t (with_read_time t c) = with_read_time t c"
  by (cases c) (simp_all add: with_read_time_def)

lemma processEventBuffer_content:
  "content_of (processEventBuffer w time es s) ino =
     (if Some ino \<in> concerned w ` set es then with_read_time time (content_of s ino) else content_of s ino)"
  unfolding processEventBuffer_def
proof (induction es arbitrary: s)
  case (Cons e es)
  have step: "content_of (processEvent w time e s) ino =
      (if concerned w e = Some ino then with_read_time time (content_of s ino) else content_of s ino)"
    by (auto simp: processEvent_eq updateReadTime_def posix_simps split: option.splits)
  show ?case
    by (simp add: Cons.IH step)
qed simp

lemma processEventBuffer_frame:
  "px_nodes (processEventBuffer w time es s) = px_nodes s \<and> locks_of (processEventBuffer w time es s) = locks_of s \<and>
     size_of (processEventBuffer w time es s) = size_of s"
  unfolding processEventBuffer_def
proof (induction es arbitrary: s)
  case (Cons e es)
  then show ?case
    by (simp add: processEvent_eq updateReadTime_def posix_simps split: option.splits)
qed simp

text \<open>
  C24: a batch of events stores the time in exactly the flows whose access file was read, written or touched
  and that have a registered writer, as their last read time; no other flow, no other part of these flows
  and no file or lock changes.
\<close>

theorem events_update_read_times:
  assumes "watcher_ok w" and "\<forall>x \<in> set (dw_watches w). \<forall>y \<in> set (dw_watches w).
      fst x = fst y \<longrightarrow> sm_ino (wr_flowData (snd x)) = sm_ino (wr_flowData (snd y))"
  shows "px_nodes (processEventBuffer w time es s) = px_nodes s \<and>
    locks_of (processEventBuffer w time es s) = locks_of s \<and>
    content_of (processEventBuffer w time es s) ino =
      (if \<exists>x \<in> set (dw_watches w). sm_ino (wr_flowData (snd x)) = ino \<and> (\<exists>e \<in> set es. relevant e \<and> fst e = fst x)
       then with_read_time time (content_of s ino) else content_of s ino)"
proof -
  have "Some ino \<in> concerned w ` set es \<longleftrightarrow>
      (\<exists>x \<in> set (dw_watches w). sm_ino (wr_flowData (snd x)) = ino \<and> (\<exists>e \<in> set es. relevant e \<and> fst e = fst x))"
  proof
    assume "Some ino \<in> concerned w ` set es"
    then obtain e where e: "e \<in> set es" "concerned w e = Some ino"
      by auto
    then obtain x where x: "find (\<lambda>x. fst x = fst e) (dw_watches w) = Some x" "sm_ino (wr_flowData (snd x)) = ino" "relevant e"
      by (auto simp: concerned_def split: if_splits)
    then show "\<exists>x \<in> set (dw_watches w). sm_ino (wr_flowData (snd x)) = ino \<and> (\<exists>e \<in> set es. relevant e \<and> fst e = fst x)"
      using e(1) find_SomeD [OF x(1)] x(2,3) by (intro bexI [of _ x] conjI bexI [of _ e]) auto
  next
    assume "\<exists>x \<in> set (dw_watches w). sm_ino (wr_flowData (snd x)) = ino \<and> (\<exists>e \<in> set es. relevant e \<and> fst e = fst x)"
    then obtain x e where xe: "x \<in> set (dw_watches w)" "sm_ino (wr_flowData (snd x)) = ino" "e \<in> set es" "relevant e" "fst e = fst x"
      by blast
    have "find (\<lambda>x. fst x = fst e) (dw_watches w) \<noteq> None"
      using xe(1,5) by (auto simp: find_None_all)
    then obtain y where y: "find (\<lambda>x. fst x = fst e) (dw_watches w) = Some y"
      by blast
    then have "sm_ino (wr_flowData (snd y)) = ino"
      using find_SomeD [OF y] xe assms(2) by metis
    then have "concerned w e = Some ino"
      using y xe(4) by (simp add: concerned_def)
    then show "Some ino \<in> concerned w ` set es"
      using xe(3) by force
  qed
  then show ?thesis
    using processEventBuffer_content processEventBuffer_frame by simp
qed

text \<open>
  the constructor leaves no kernel descriptor open when it fails, whichever call fails; when it
  succeeds exactly its three descriptors are open and the watcher has no registrations.
\<close>

theorem watcher_construction:
  "case DomainWatcher_ctor fails domain s of
     (Throw e, fds) \<Rightarrow> fds = []
   | (Ret w, fds) \<Rightarrow> set fds = {InotifyFd, EpollFd, EventFd} \<and> watcher_ok w \<and> watches_exact w \<and> size_watches w = 0
   | (Undef, fds) \<Rightarrow> False"
  by (auto simp: DomainWatcher_ctor_def Let_def watcher_ok_def inotify_ok_def watches_exact_def size_watches_def
      split: option.splits prod.splits res.splits if_splits)

text \<open>The event thread: it runs the batches in order and ends when it is stopped or polling fails.\<close>

fun batches :: "poll_turn list \<Rightarrow> (u64 \<times> inotify_event list) list" where
  "batches [] = []"
| "batches (Turn_events time es # ts) = (time, es) # batches ts"
| "batches (t # ts) = batches ts"

definition ends_thread :: "poll_turn \<Rightarrow> bool" where
  "ends_thread t \<longleftrightarrow> t = Turn_stopped \<or> t = Turn_poll_failed"

lemma processEvents_runs:
  assumes "\<forall>t \<in> set ts. \<not> ends_thread t" "ends_thread t"
  shows "processEvents (ts @ t # rest) w s = Some (fold (\<lambda>(time, es). processEventBuffer w time es) (batches ts) s)"
  using assms
proof (induction ts arbitrary: s)
  case Nil
  then show ?case by (auto simp: ends_thread_def)
next
  case (Cons x ts)
  then show ?case by (cases x) (auto simp: ends_thread_def)
qed

text \<open>
  A registration whose mapping fails leaves the new watch in the kernel, although no record refers to it.
\<close>

lemma failed_registration_keeps_watch:
  assumes "watch_of i w = None" "inotify_add_watch (fe_faults env) s (access_path env i w) (dw_inotify w) = (Inr wd, k)"
    "FlowData_ctor (fe_faults env) (makeFlowDataFilePath (makeFlowDirectoryName (dw_domain w) (fe_to_string env i)))
       READ_WRITE NoLock s = (Throw e, s')"
  shows "addFlow env fw i (w, s) = (Throw e, w\<lparr>dw_inotify := k\<rparr>, s')"
  using assms by (simp add: addFlow_def access_path_def)

section \<open>Witnesses\<close>

definition watched_domain :: posix where
  "watched_domain =
     \<lparr>px_nodes = [([''d''], Directory), ([''d'', ''a.mxl-flow''], Directory), ([''d'', ''a.mxl-flow'', ''data''], Regular 0),
        ([''d'', ''a.mxl-flow'', ''access''], Regular 1)],
      px_inodes = (\<lambda>i. \<lparr>in_content = (if i = 0 then FlowSegment zero_info zero_state else Text []),
        in_size = SIZEOF_FLOW, in_locks = []\<rparr>),
      px_nextIno = 2, px_nextFd = 3\<rparr>"

definition fresh_watcher :: DomainWatcher where
  "fresh_watcher = \<lparr>dw_domain = [''d''], dw_inotify = \<lparr>kn_watches = [], kn_next = 1\<rparr>, dw_watches = [], dw_running = True\<rparr>"

definition data_mapping :: SharedMemoryBase where
  "data_mapping = \<lparr>sm_path = [''d'', ''a.mxl-flow'', ''data''], sm_fd = 3, sm_ino = 0, sm_mode = READ_WRITE,
     sm_mappedSize = SIZEOF_FLOW, sm_lockType = LockType_None\<rparr>"

definition one_writer :: DomainWatcher where
  "one_writer = fresh_watcher\<lparr>dw_inotify := \<lparr>kn_watches = [(1, 1)], kn_next = 2\<rparr>,
     dw_watches := [(1, \<lparr>wr_id = [1], wr_fileName = [''d'', ''a.mxl-flow'', ''access''], wr_fw = 9, wr_flowData = data_mapping\<rparr>)]\<rparr>"

lemma one_writer_added:
  "addFlow listing_env 9 [1] (fresh_watcher, watched_domain) = (Ret (), one_writer, watched_domain\<lparr>px_nextFd := 4\<rparr>)"
  by (simp add: addFlow_def FlowData_ctor_def SharedMemoryInstance_ctor_def bind_act_def SharedMemory_ctor_def
      open_existing_def inotify_add_watch_def watch_of_def listing_env_def no_faults_def fresh_watcher_def watched_domain_def
      one_writer_def data_mapping_def lookup_def fresh_fd_def new_mapping_def lock_and_map_def wanted_lock_def map_file_def
      unwind_def path_names file_names makeFlowDirectoryName_def created_def Let_def numeral_2_eq_2)

lemma fresh_watcher_ok: "watcher_ok fresh_watcher" "own_access_file listing_env [1] fresh_watcher watched_domain"
  by (simp_all add: watcher_ok_def inotify_ok_def fresh_watcher_def own_access_file_def)

theorem watcher_registrations_witness:
  "watcher_ok one_writer \<and> count_flow [1] one_writer = 1 \<and>
     count_flow [1] (fst (removeFlow 9 [1] (one_writer, watched_domain\<lparr>px_nextFd := 4\<rparr>))) = 0"
proof -
  obtain w'' s'' where r: "removeFlow 9 [1] (one_writer, watched_domain\<lparr>px_nextFd := 4\<rparr>) = (w'', s'')"
    by fastforce
  have old: "count_flow [1] fresh_watcher = 0"
    by (simp add: count_flow_def watch_of_def fresh_watcher_def)
  have "\<exists>e \<in> set (dw_watches one_writer). same_record [1] 9 (snd e)"
    by (simp add: one_writer_def same_record_def)
  then show ?thesis
    using watcher_registrations [OF fresh_watcher_ok one_writer_added r, of "[1]"] old r by simp
qed

theorem events_update_read_times_witness:
  "content_of (processEventBuffer one_writer 77 [(1, IN_ATTRIB), (5, IN_ACCESS)] watched_domain) 0 =
     with_read_time 77 (FlowSegment zero_info zero_state)"
proof -
  have ok: "watcher_ok one_writer"
    by (simp add: watcher_ok_def inotify_ok_def one_writer_def fresh_watcher_def)
  have rel: "relevant (1, IN_ATTRIB)"
    by (simp add: relevant_def IN_ACCESS_def IN_MODIFY_def IN_ATTRIB_def)
  have "content_of watched_domain 0 = FlowSegment zero_info zero_state"
    by (simp add: watched_domain_def content_of_def)
  then show ?thesis
    using events_update_read_times [OF ok, of 77 "[(1, IN_ATTRIB), (5, IN_ACCESS)]" watched_domain 0] rel
    by (simp add: one_writer_def data_mapping_def fresh_watcher_def)
qed

end
