(* ===== verification/SyncGroup.thy ===== *)
theory SyncGroup
  imports ContinuousFlow DiscreteFlow "HOL-Library.Multiset"
begin

text \<open>
  Synchronisation groups (\<^verbatim>\<open>FlowSynchronizationGroup.cpp\<close>): a list of readers, each at most once, and the
  wait for data at a point in time on all of them, which moves the slowest reader to the front of the
  list while it walks through it. A reader is named by a number.
\<close>

section \<open>The list of readers\<close>

datatype variant = VDiscrete | VContinuous

record ListEntry =
  le_reader :: nat
  le_minValidSlices :: u16
  le_variant :: variant
  le_grainRate :: mxlRational
  le_maxObservedSourceDelay :: int

definition discrete_entry :: "nat \<Rightarrow> mxlRational \<Rightarrow> u16 \<Rightarrow> ListEntry" where
  "discrete_entry reader rate minValidSlices =
     \<lparr>le_reader = reader, le_minValidSlices = minValidSlices, le_variant = VDiscrete, le_grainRate = rate,
      le_maxObservedSourceDelay = 0\<rparr>"

definition continuous_entry :: "nat \<Rightarrow> mxlRational \<Rightarrow> ListEntry" where
  "continuous_entry reader rate =
     \<lparr>le_reader = reader, le_minValidSlices = 0, le_variant = VContinuous, le_grainRate = rate,
      le_maxObservedSourceDelay = 0\<rparr>"

fun addReader_discrete :: "nat \<Rightarrow> mxlRational \<Rightarrow> u16 \<Rightarrow> ListEntry list \<Rightarrow> ListEntry list" where
  "addReader_discrete reader rate minValidSlices [] = [discrete_entry reader rate minValidSlices]"
| "addReader_discrete reader rate minValidSlices (current # rest) =
     (if le_reader current = reader then current\<lparr>le_minValidSlices := minValidSlices\<rparr> # rest
      else current # addReader_discrete reader rate minValidSlices rest)"

fun addReader_continuous :: "nat \<Rightarrow> mxlRational \<Rightarrow> ListEntry list \<Rightarrow> ListEntry list" where
  "addReader_continuous reader rate [] = [continuous_entry reader rate]"
| "addReader_continuous reader rate (current # rest) =
     (if le_reader current = reader then current # rest else current # addReader_continuous reader rate rest)"

fun removeReader :: "nat \<Rightarrow> ListEntry list \<Rightarrow> ListEntry list" where
  "removeReader reader [] = []"
| "removeReader reader (current # rest) =
     (if le_reader current = reader then rest else current # removeReader reader rest)"

section \<open>Waiting for data\<close>

text \<open>
  What the walk finds at a reader: the head of its flow, the result of \<^verbatim>\<open>waitForGrain\<close> or
  \<^verbatim>\<open>waitForSamples\<close> for the expected index, and the clock after a successful wait.
\<close>

record wait_env =
  we_head :: "nat \<Rightarrow> u64"
  we_waitForGrain :: "nat \<Rightarrow> u64 \<Rightarrow> u16 \<Rightarrow> mxlStatus"
  we_waitForSamples :: "nat \<Rightarrow> u64 \<Rightarrow> mxlStatus"
  we_now :: "nat \<Rightarrow> timepoint"

definition wait_result :: "wait_env \<Rightarrow> ListEntry \<Rightarrow> u64 \<Rightarrow> mxlStatus" where
  "wait_result env current expectedIndex =
     (case le_variant current of
        VDiscrete \<Rightarrow> we_waitForGrain env (le_reader current) expectedIndex (le_minValidSlices current)
      | VContinuous \<Rightarrow> we_waitForSamples env (le_reader current) expectedIndex)"

text \<open>
  The entry after a successful wait, and whether it goes to the front. \<open>front\<close> is the delay of the
  entry at the head of the list, unless the entry is the head itself.
\<close>

definition observe_delay :: "wait_env \<Rightarrow> u64 \<Rightarrow> int option \<Rightarrow> ListEntry \<Rightarrow> (ListEntry \<times> bool) res" where
  "observe_delay env expectedIndex front current =
     bind_res (indexToTimestamp (le_grainRate current) expectedIndex) (\<lambda>expectedArrivalTime.
       let currentTaiTime = we_now env (le_reader current)
       in if currentTaiTime > expectedArrivalTime then
            bind_res (tp_diff currentTaiTime expectedArrivalTime) (\<lambda>d.
              let sourceDelay = du_value d
              in if sourceDelay > le_maxObservedSourceDelay current then
                   let current = current\<lparr>le_maxObservedSourceDelay := sourceDelay\<rparr>
                   in Ret (current,
                        case front of
                          None \<Rightarrow> le_maxObservedSourceDelay current > le_maxObservedSourceDelay current
                        | Some m \<Rightarrow> le_maxObservedSourceDelay current > m)
                 else Ret (current, False))
          else Ret (current, False))"

text \<open>
  The walk: \<open>before\<close> is the part of the list up to \<open>prev\<close>, \<open>rest\<close> the part from the iterator on. The
  result has the status, the list that is left behind and the readers that were visited, in order.
\<close>

fun wait_walk ::
  "wait_env \<Rightarrow> timepoint \<Rightarrow> ListEntry list \<Rightarrow> ListEntry list \<Rightarrow> (mxlStatus \<times> ListEntry list \<times> nat list) res" where
  "wait_walk env originTime before [] = Ret (MXL_STATUS_OK, before, [])"
| "wait_walk env originTime before (current # rest) =
     bind_res (timestampToIndex (le_grainRate current) originTime) (\<lambda>expectedIndex.
     bind_res
       (if expectedIndex > we_head env (le_reader current) then
          let result = wait_result env current expectedIndex
          in if result = MXL_STATUS_OK then
               map_ret (\<lambda>r. (MXL_STATUS_OK, r))
                 (observe_delay env expectedIndex (map_option le_maxObservedSourceDelay (case before of [] \<Rightarrow> None | b # _ \<Rightarrow> Some b)) current)
             else Ret (result, current, False)
        else Ret (MXL_STATUS_OK, current, False))
       (\<lambda>(result, current, to_front).
          if result \<noteq> MXL_STATUS_OK then Ret (result, before @ current # rest, [le_reader current])
          else map_ret (\<lambda>(status, readers, visited). (status, readers, le_reader current # visited))
                 (wait_walk env originTime (if to_front then current # before else before @ [current]) rest)))"

definition waitForDataAt ::
  "wait_env \<Rightarrow> timepoint \<Rightarrow> ListEntry list \<Rightarrow> (mxlStatus \<times> ListEntry list \<times> nat list) res" where
  "waitForDataAt env originTime readers = wait_walk env originTime [] readers"

section \<open>The group as a set of readers\<close>

definition group_wf :: "ListEntry list \<Rightarrow> bool" where
  "group_wf readers \<longleftrightarrow> distinct (map le_reader readers)"

lemma add_discrete_set: "set (map le_reader (addReader_discrete r rate m xs)) = insert r (le_reader ` set xs)"
  by (induction xs) (auto simp: discrete_entry_def)

lemma add_continuous_set: "set (map le_reader (addReader_continuous r rate xs)) = insert r (le_reader ` set xs)"
  by (induction xs) (auto simp: continuous_entry_def)

lemma remove_set: "set (map le_reader (removeReader r xs)) \<subseteq> le_reader ` set xs"
  by (induction xs) auto

lemma add_discrete_wf: "group_wf xs \<Longrightarrow> group_wf (addReader_discrete r rate m xs)"
proof (induction xs)
  case (Cons x xs)
  then show ?case
    using add_discrete_set [of r rate m xs] by (auto simp: group_wf_def)
qed (simp add: group_wf_def)

lemma add_continuous_wf: "group_wf xs \<Longrightarrow> group_wf (addReader_continuous r rate xs)"
proof (induction xs)
  case (Cons x xs)
  then show ?case
    using add_continuous_set [of r rate xs] by (auto simp: group_wf_def)
qed (simp add: group_wf_def)

lemma remove_filter: "group_wf xs \<Longrightarrow> removeReader r xs = filter (\<lambda>e. le_reader e \<noteq> r) xs"
proof (induction xs)
  case (Cons x xs)
  have "filter (\<lambda>e. le_reader e \<noteq> r) xs = xs" if "r \<notin> le_reader ` set xs"
    using that by (auto simp: filter_id_conv)
  with Cons show ?case
    by (auto simp: group_wf_def)
qed simp

lemma add_present:
  assumes "group_wf xs" "r \<in> le_reader ` set xs"
  shows "addReader_discrete r rate m xs = map (\<lambda>e. if le_reader e = r then e\<lparr>le_minValidSlices := m\<rparr> else e) xs"
    and "addReader_continuous r rate xs = xs"
  using assms
proof (induction xs)
  case (Cons x xs)
  {
    case 1
    have "map (\<lambda>e. if le_reader e = r then e\<lparr>le_minValidSlices := m\<rparr> else e) xs = xs" if "r \<notin> le_reader ` set xs"
      using that by (intro map_idI) auto
    then show ?case
      using 1 Cons.IH(1) by (auto simp: group_wf_def)
  next
    case 2
    then show ?case
      using Cons.IH(2) by (auto simp: group_wf_def)
  }
qed simp_all

lemma add_absent:
  "r \<notin> le_reader ` set xs \<Longrightarrow> addReader_discrete r rate m xs = xs @ [discrete_entry r rate m]"
  "r \<notin> le_reader ` set xs \<Longrightarrow> addReader_continuous r rate xs = xs @ [continuous_entry r rate]"
  by (induction xs) auto

text \<open>
  A group is a set of readers: adding and removing keep every reader at most once, adding a reader
  that is there only renews the number of slices to wait for, and removing a reader leaves exactly the
  other entries, in their order.
\<close>

theorem group_operations:
  assumes "group_wf readers"
  shows "group_wf (addReader_discrete r rate m readers) \<and>
    group_wf (addReader_continuous r rate readers) \<and> group_wf (removeReader r readers) \<and>
    (r \<in> le_reader ` set readers \<longrightarrow>
       addReader_discrete r rate m readers =
         map (\<lambda>e. if le_reader e = r then e\<lparr>le_minValidSlices := m\<rparr> else e) readers \<and>
       addReader_continuous r rate readers = readers) \<and>
    (r \<notin> le_reader ` set readers \<longrightarrow>
       addReader_discrete r rate m readers = readers @ [discrete_entry r rate m] \<and>
       addReader_continuous r rate readers = readers @ [continuous_entry r rate]) \<and>
    removeReader r readers = filter (\<lambda>e. le_reader e \<noteq> r) readers"
proof -
  have "group_wf (removeReader r readers)"
    using assms by (auto simp: remove_filter group_wf_def intro: distinct_map_filter)
  then show ?thesis
    by (intro conjI impI add_discrete_wf [OF assms] add_continuous_wf [OF assms] remove_filter [OF assms]
        add_present [OF assms] add_absent)
qed

section \<open>The walk visits every reader once\<close>

text \<open>The reader is served: its flow has the expected index already, or the wait for it succeeds.\<close>

definition served :: "wait_env \<Rightarrow> timepoint \<Rightarrow> ListEntry \<Rightarrow> bool" where
  "served env originTime e \<longleftrightarrow>
     (\<exists>i. timestampToIndex (le_grainRate e) originTime = Ret i \<and>
        (i \<le> we_head env (le_reader e) \<or> wait_result env e i = MXL_STATUS_OK))"

text \<open>What identifies an entry; the walk changes nothing but the observed delay.\<close>

definition entry_key :: "ListEntry \<Rightarrow> nat \<times> u16 \<times> variant \<times> mxlRational" where
  "entry_key e = (le_reader e, le_minValidSlices e, le_variant e, le_grainRate e)"

lemma observe_delay_key:
  "observe_delay env i front e = Ret (e', b) \<Longrightarrow> entry_key e' = entry_key e \<and>
     le_maxObservedSourceDelay e \<le> le_maxObservedSourceDelay e'"
  by (auto simp: observe_delay_def Let_def entry_key_def res_simps split: if_splits)

lemma wait_walk_result:
  assumes "wait_walk env t before rest = Ret (status, readers, visited)"
  shows "image_mset entry_key (mset readers) = image_mset entry_key (mset before) + image_mset entry_key (mset rest) \<and>
    (if status = MXL_STATUS_OK then visited = map le_reader rest \<and> list_all (served env t) rest
     else \<exists>es e es'. rest = es @ e # es' \<and> visited = map le_reader (es @ [e]) \<and> list_all (served env t) es \<and>
       \<not> served env t e \<and> (\<exists>i. timestampToIndex (le_grainRate e) t = Ret i \<and> status = wait_result env e i))"
  using assms
proof (induction rest arbitrary: before status readers visited)
  case Nil
  then show ?case by simp
next
  case (Cons e rest)
  obtain i where i: "timestampToIndex (le_grainRate e) t = Ret i"
    using Cons.prems by (auto simp: res_simps)
  show ?case
  proof (cases "i > we_head env (le_reader e) \<and> wait_result env e i \<noteq> MXL_STATUS_OK")
    case True
    then have "status = wait_result env e i" "readers = before @ e # rest" "visited = [le_reader e]"
      using Cons.prems i by (auto simp: Let_def)
    then show ?thesis
      using True i by (auto simp: served_def not_le intro!: exI [of _ "[]"])
  next
    case False
    then have s: "served env t e"
      using i by (auto simp: served_def not_less)
    obtain e' b visited' where e': "entry_key e' = entry_key e"
      and w: "wait_walk env t (if b then e' # before else before @ [e']) rest = Ret (status, readers, visited')"
      and v: "visited = le_reader e' # visited'"
    proof (cases "i > we_head env (le_reader e)")
      case True
      obtain a b visited' where o: "observe_delay env i (map_option le_maxObservedSourceDelay
            (case before of [] \<Rightarrow> None | b # _ \<Rightarrow> Some b)) e = Ret (a, b)"
        and w: "wait_walk env t (if b then a # before else before @ [a]) rest = Ret (status, readers, visited')"
        and v: "visited = le_reader a # visited'"
        using True False Cons.prems i by (auto simp: Let_def res_simps split: prod.splits)
      show ?thesis
        using that [OF _ w v] observe_delay_key [OF o] by blast
    next
      case False
      then show ?thesis
        using Cons.prems i that [of e False] by (auto simp: Let_def res_simps split: prod.splits)
    qed
    have r: "le_reader e' = le_reader e"
      using e' by (simp add: entry_key_def)
    note IH = Cons.IH [OF w]
    show ?thesis
    proof (cases "status = MXL_STATUS_OK")
      case True
      then show ?thesis
        using IH e' r v s by auto
    next
      case False
      then obtain es x es' where x: "rest = es @ x # es'" "visited' = map le_reader (es @ [x])" "list_all (served env t) es"
        "\<not> served env t x" "\<exists>i. timestampToIndex (le_grainRate x) t = Ret i \<and> status = wait_result env x i"
        using IH by auto
      have "e # rest = (e # es) @ x # es'" "visited = map le_reader ((e # es) @ [x])" "list_all (served env t) (e # es)"
        using x r v s by auto
      moreover have "image_mset entry_key (mset readers) = image_mset entry_key (mset before) + image_mset entry_key (mset (e # rest))"
        using IH e' by auto
      ultimately show ?thesis
        using False x(4,5) by metis
    qed
  qed
qed

text \<open>
  Waiting for data on a group visits its readers in list order, each exactly once, although entries
  are moved to the front under way; it reports success exactly when every reader was served, and
  otherwise the status of the first reader whose wait failed; the group keeps its readers.
\<close>

theorem waitForDataAt_visits_each_once:
  assumes "waitForDataAt env t readers = Ret (status, readers', visited)"
  shows "mset (map entry_key readers') = mset (map entry_key readers) \<and>
    (if status = MXL_STATUS_OK then visited = map le_reader readers \<and> list_all (served env t) readers
     else \<exists>es e es'. readers = es @ e # es' \<and> visited = map le_reader (es @ [e]) \<and> list_all (served env t) es \<and>
       \<not> served env t e \<and> (\<exists>i. timestampToIndex (le_grainRate e) t = Ret i \<and> status = wait_result env e i))"
  using wait_walk_result [OF assms [unfolded waitForDataAt_def]] unfolding mset_map mset.simps image_mset_empty add_0 .

section \<open>Examples\<close>

definition sample_env :: wait_env where
  "sample_env =
     \<lparr>we_head = (\<lambda>_. 0), we_waitForGrain = (\<lambda>_ _ _. MXL_STATUS_OK), we_waitForSamples = (\<lambda>_ _. MXL_ERR_OUT_OF_RANGE_TOO_EARLY),
      we_now = (\<lambda>r. Timepoint (2000000000 * int r))\<rparr>"

lemma sample_index:
  "timestampToIndex \<lparr>numerator = 25, denominator = 1\<rparr> (Timepoint 1000000000) = Ret 25"
  "indexToTimestamp \<lparr>numerator = 25, denominator = 1\<rparr> 25 = Ret (Timepoint 1000000000)"
  by (simp_all add: timestampToIndex_def indexToTimestamp_def chk128_def in_i128_def div_chk_def sdiv_nonneg
      cast_u64_def cast_i64_def)

theorem group_operations_witness:
  "removeReader 1 [discrete_entry 1 \<lparr>numerator = 25, denominator = 1\<rparr> 0, discrete_entry 2 \<lparr>numerator = 25, denominator = 1\<rparr> 0]
     = [discrete_entry 2 \<lparr>numerator = 25, denominator = 1\<rparr> 0]"
proof -
  have "group_wf [discrete_entry 1 \<lparr>numerator = 25, denominator = 1\<rparr> 0, discrete_entry 2 \<lparr>numerator = 25, denominator = 1\<rparr> 0]"
    by (simp add: group_wf_def discrete_entry_def)
  from group_operations [OF this, of 1] show ?thesis
    by (simp add: discrete_entry_def)
qed

abbreviation sample_rate :: mxlRational where
  "sample_rate \<equiv> \<lparr>numerator = 25, denominator = 1\<rparr>"

lemma sample_delay:
  "observe_delay sample_env 25 None (discrete_entry 2 sample_rate 0) =
     Ret ((discrete_entry 2 sample_rate 0)\<lparr>le_maxObservedSourceDelay := 3000000000\<rparr>, False)"
  "observe_delay sample_env 25 (Some 3000000000) (discrete_entry 3 sample_rate 0) =
     Ret ((discrete_entry 3 sample_rate 0)\<lparr>le_maxObservedSourceDelay := 5000000000\<rparr>, True)"
  by (simp_all add: observe_delay_def discrete_entry_def sample_index sample_env_def Let_def time_order
      tp_diff_def chk64_def in_i64_def)

lemma sample_entry [simp]:
  "le_grainRate (discrete_entry r rate m) = rate" "le_reader (discrete_entry r rate m) = r"
  "we_head sample_env r = 0" "wait_result sample_env (discrete_entry r rate m) i = MXL_STATUS_OK"
  by (simp_all add: discrete_entry_def sample_env_def wait_result_def)

theorem waitForDataAt_visits_each_once_witness:
  "waitForDataAt sample_env (Timepoint 1000000000) [discrete_entry 2 sample_rate 0, discrete_entry 3 sample_rate 0]
     = Ret (MXL_STATUS_OK, [(discrete_entry 3 sample_rate 0)\<lparr>le_maxObservedSourceDelay := 5000000000\<rparr>,
          (discrete_entry 2 sample_rate 0)\<lparr>le_maxObservedSourceDelay := 3000000000\<rparr>], [2, 3]) \<and>
   [2, 3] = map le_reader [discrete_entry 2 sample_rate 0, discrete_entry 3 sample_rate 0]"
proof -
  have w: "waitForDataAt sample_env (Timepoint 1000000000) [discrete_entry 2 sample_rate 0, discrete_entry 3 sample_rate 0]
     = Ret (MXL_STATUS_OK, [(discrete_entry 3 sample_rate 0)\<lparr>le_maxObservedSourceDelay := 5000000000\<rparr>,
          (discrete_entry 2 sample_rate 0)\<lparr>le_maxObservedSourceDelay := 3000000000\<rparr>], [2, 3])"
    by (simp add: waitForDataAt_def sample_index sample_delay Let_def)
  from waitForDataAt_visits_each_once [OF w] show ?thesis
    using w by simp
qed

end
