(* ===== verification/FlowIo.thy ===== *)
theory FlowIo
  imports DomainWatcher SyncGroup
begin

text \<open>
  Readers and writers as objects that own the mappings of a flow: what they see of the shared files and
  write back (the flow data of the three kinds, taken from the contents of the mapped files), their
  creation by \<^verbatim>\<open>FlowIoFactory.cpp\<close> and \<^verbatim>\<open>PosixFlowIoFactory.cpp\<close> with the constructors of the six
  \<^verbatim>\<open>Posix*Flow{Reader,Writer}\<close> classes, and their destruction.
\<close>

section \<open>The data of a flow in its files\<close>

fun grain_content :: "content \<Rightarrow> Grain option" where
  "grain_content (GrainSegment g) = Some g"
| "grain_content _ = None"

fun ring_content :: "content \<Rightarrow> event_ring option" where
  "ring_content (EventSegment r) = Some r"
| "ring_content _ = None"

definition channel_content :: "nat \<Rightarrow> content \<Rightarrow> u8 list option" where
  "channel_content n c = (case c of ChannelSegment bs \<Rightarrow> Some bs | Zeros \<Rightarrow> Some (replicate n 0) | _ \<Rightarrow> None)"

definition load_discrete :: "FlowData \<Rightarrow> posix \<Rightarrow> DiscreteFlowData option" where
  "load_discrete d s =
     (case (fl_maps d, flow_segment (fl_flow d) s) of
        (DiscreteMaps gs, Some (info, st)) \<Rightarrow>
          (case (fc_specific (fi_config info), those (map (\<lambda>g. grain_content (content_of s (sm_ino g))) gs)) of
             (ConfigDiscrete c, Some grains) \<Rightarrow>
               Some \<lparr>dd_config = c, dd_runtime = fi_runtime info, dd_state = st, dd_grains = grains\<rparr>
           | _ \<Rightarrow> None)
      | _ \<Rightarrow> None)"

definition load_continuous :: "FlowData \<Rightarrow> posix \<Rightarrow> ContinuousFlowData option" where
  "load_continuous d s =
     (case (fl_maps d, flow_segment (fl_flow d) s) of
        (ContinuousMaps (Some h) w, Some (info, st)) \<Rightarrow>
          (case (fc_specific (fi_config info), channel_content (sm_mappedSize h) (content_of s (sm_ino h))) of
             (ConfigContinuous c, Some channels) \<Rightarrow>
               Some \<lparr>cd_common = fc_common (fi_config info), cd_config = c, cd_runtime = fi_runtime info, cd_state = st,
                     cd_sampleWordSize = w, cd_channels = channels\<rparr>
           | _ \<Rightarrow> None)
      | _ \<Rightarrow> None)"

definition load_event :: "FlowData \<Rightarrow> posix \<Rightarrow> EventFlowData option" where
  "load_event d s =
     (case (fl_maps d, flow_segment (fl_flow d) s) of
        (EventMaps (Some (h, v)), Some (info, st)) \<Rightarrow>
          (case (fc_specific (fi_config info), ring_content (content_of s (sm_ino h))) of
             (ConfigEvent c, Some r) \<Rightarrow>
               Some \<lparr>ed_config = c, ed_runtime = fi_runtime info, ed_state = st, ed_ring = r, ed_view = v\<rparr>
           | _ \<Rightarrow> None)
      | _ \<Rightarrow> None)"

text \<open>The operations of readers and writers change the runtime information, the state and the rings.\<close>

definition store_flow :: "FlowData \<Rightarrow> mxlFlowRuntimeInfo \<Rightarrow> FlowState \<Rightarrow> posix \<Rightarrow> posix" where
  "store_flow d runtime st s =
     (case content_of s (sm_ino (fl_flow d)) of
        FlowSegment info _ \<Rightarrow> set_content (sm_ino (fl_flow d)) (FlowSegment (info\<lparr>fi_runtime := runtime\<rparr>) st) s
      | _ \<Rightarrow> s)"

definition store_discrete :: "FlowData \<Rightarrow> DiscreteFlowData \<Rightarrow> posix \<Rightarrow> posix" where
  "store_discrete d x s =
     fold (\<lambda>(h, g). set_content (sm_ino h) (GrainSegment g)) (zip (map_handles (fl_maps d)) (dd_grains x))
       (store_flow d (dd_runtime x) (dd_state x) s)"

definition store_continuous :: "FlowData \<Rightarrow> ContinuousFlowData \<Rightarrow> posix \<Rightarrow> posix" where
  "store_continuous d x s =
     fold (\<lambda>h. set_content (sm_ino h) (ChannelSegment (cd_channels x))) (map_handles (fl_maps d))
       (store_flow d (cd_runtime x) (cd_state x) s)"

definition store_event :: "FlowData \<Rightarrow> EventFlowData \<Rightarrow> posix \<Rightarrow> posix" where
  "store_event d x s =
     fold (\<lambda>h. set_content (sm_ino h) (EventSegment (ed_ring x))) (map_handles (fl_maps d))
       (store_flow d (ed_runtime x) (ed_state x) s)"

text \<open>The mappings of a flow are of different files.\<close>

definition separate :: "FlowData \<Rightarrow> bool" where
  "separate d \<longleftrightarrow> distinct (map sm_ino (flow_handles d))"

section \<open>Readers\<close>

text \<open>The access file is opened if it can be, and its descriptor kept.\<close>

datatype reader_kind =
    DiscreteReader "(nat \<times> nat) option"
  | ContinuousReader PosixContinuousFlowReader
  | EventReader u64 "(nat \<times> nat) option"

record FlowReader =
  ro_flowId :: "u8 list"
  ro_domain :: path
  ro_data :: FlowData
  ro_kind :: reader_kind

definition reader_checkPermissions :: "flow_env \<Rightarrow> path \<Rightarrow> u8 list \<Rightarrow> posix \<Rightarrow> bool" where
  "reader_checkPermissions env domain flowId s =
     (let flowDefPath = makeFlowDescriptorFilePath (makeFlowDirectoryName domain (fe_to_string env flowId))
      in (\<exists>ino. lookup s flowDefPath = Some (Regular ino)) \<and> fe_faults env Call_access flowDefPath = None)"

lemma reader_checkPermissions_code [code]:
  "reader_checkPermissions env domain flowId s =
     (let flowDefPath = makeFlowDescriptorFilePath (makeFlowDirectoryName domain (fe_to_string env flowId))
      in (case lookup s flowDefPath of Some (Regular ino) \<Rightarrow> True | _ \<Rightarrow> False) \<and> fe_faults env Call_access flowDefPath = None)"
  by (auto simp: reader_checkPermissions_def Let_def split: option.splits node.splits)

definition open_access_file :: "flow_env \<Rightarrow> path \<Rightarrow> u8 list \<Rightarrow> posix \<Rightarrow> (nat \<times> nat) option \<times> posix" where
  "open_access_file env domain flowId s =
     (case open_existing (fe_faults env) (makeFlowAccessFilePath (makeFlowDirectoryName domain (fe_to_string env flowId))) s of
        (Inl e, s) \<Rightarrow> (None, s)
      | (Inr fd, s) \<Rightarrow> (Some fd, s))"

definition new_reader :: "FlowManager \<Rightarrow> u8 list \<Rightarrow> FlowData \<Rightarrow> reader_kind \<Rightarrow> FlowReader" where
  "new_reader manager flowId data kind =
     \<lparr>ro_flowId = flowId, ro_domain = fm_mxlDomain manager, ro_data = data, ro_kind = kind\<rparr>"

definition createDiscreteFlowReader :: "flow_env \<Rightarrow> FlowManager \<Rightarrow> u8 list \<Rightarrow> FlowData \<Rightarrow> (posix, FlowReader) act" where
  "createDiscreteFlowReader env manager flowId data s =
     (case open_access_file env (fm_mxlDomain manager) flowId s of
        (fd, s) \<Rightarrow> (Ret (new_reader manager flowId data (DiscreteReader fd)), s))"

definition createContinuousFlowReader :: "flow_env \<Rightarrow> FlowManager \<Rightarrow> u8 list \<Rightarrow> FlowData \<Rightarrow> (posix, FlowReader) act" where
  "createContinuousFlowReader env manager flowId data s =
     (case load_continuous data s of
        None \<Rightarrow> (Undef, s)
      | Some x \<Rightarrow>
          unwind (FlowData_dtor data)
            (lift_act (map_ret (\<lambda>r. new_reader manager flowId data (ContinuousReader r))
               (PosixContinuousFlowReader_ctor (reader_checkPermissions env (fm_mxlDomain manager) flowId s) x))) s)"

definition createEventFlowReader :: "flow_env \<Rightarrow> FlowManager \<Rightarrow> u8 list \<Rightarrow> FlowData \<Rightarrow> (posix, FlowReader) act" where
  "createEventFlowReader env manager flowId data s =
     (case load_event data s of
        None \<Rightarrow> (Undef, s)
      | Some x \<Rightarrow>
          (case open_access_file env (fm_mxlDomain manager) flowId s of
             (fd, s) \<Rightarrow> (Ret (new_reader manager flowId data (EventReader (PosixEventFlowReader_ctor x) fd)), s)))"

definition createFlowReader :: "flow_env \<Rightarrow> FlowManager \<Rightarrow> u8 list \<Rightarrow> FlowData \<Rightarrow> (posix, FlowReader) act" where
  "createFlowReader env manager flowId data =
     (case kind_of (fl_maps data) of
        KindDiscrete \<Rightarrow> createDiscreteFlowReader env manager flowId data
      | KindContinuous \<Rightarrow> createContinuousFlowReader env manager flowId data
      | KindEvent \<Rightarrow> createEventFlowReader env manager flowId data)"

definition close_access_file :: "(nat \<times> nat) option \<Rightarrow> posix \<Rightarrow> posix" where
  "close_access_file a s = (case a of None \<Rightarrow> s | Some (fd, ino) \<Rightarrow> close_fd fd ino s)"

definition FlowReader_dtor :: "FlowReader \<Rightarrow> posix \<Rightarrow> posix" where
  "FlowReader_dtor r s =
     FlowData_dtor (ro_data r)
       (case ro_kind r of
          DiscreteReader a \<Rightarrow> close_access_file a s
        | ContinuousReader x \<Rightarrow> s
        | EventReader i a \<Rightarrow> close_access_file a s)"

section \<open>Writers\<close>

datatype writer_kind =
    DiscreteWriter PosixDiscreteFlowWriter
  | ContinuousWriter PosixContinuousFlowWriter
  | EventWriter PosixEventFlowWriter

record FlowWriter =
  wo_flowId :: "u8 list"
  wo_data :: FlowData
  wo_kind :: writer_kind

definition on_files :: "(posix, 'a) act \<Rightarrow> (watched, 'a) act" where
  "on_files m ws = (case m (snd ws) of (r, s) \<Rightarrow> (r, fst ws, s))"

definition close_files :: "FlowData \<Rightarrow> watched \<Rightarrow> watched" where
  "close_files d ws = (fst ws, FlowData_dtor d (snd ws))"

definition writer_checkPermissions :: "flow_env \<Rightarrow> path \<Rightarrow> posix \<Rightarrow> bool" where
  "writer_checkPermissions env domain s \<longleftrightarrow> is_directory s domain \<and> fe_faults env Call_access domain = None"

text \<open>The writer registers itself, as \<open>this\<close>, with the watcher.\<close>

definition createDiscreteFlowWriter :: "flow_env \<Rightarrow> FlowManager \<Rightarrow> nat \<Rightarrow> u8 list \<Rightarrow> FlowData \<Rightarrow> (watched, FlowWriter) act" where
  "createDiscreteFlowWriter env manager this flowId data =
     bind_act (unwind (close_files data) (addFlow env this flowId)) (\<lambda>_.
       return_act \<lparr>wo_flowId = flowId, wo_data = data, wo_kind = DiscreteWriter PosixDiscreteFlowWriter_ctor\<rparr>)"

definition createContinuousFlowWriter :: "flow_env \<Rightarrow> FlowManager \<Rightarrow> u8 list \<Rightarrow> FlowData \<Rightarrow> (watched, FlowWriter) act" where
  "createContinuousFlowWriter env manager flowId data ws =
     (case load_continuous data (snd ws) of
        None \<Rightarrow> (Undef, ws)
      | Some x \<Rightarrow>
          unwind (close_files data)
            (lift_act (map_ret (\<lambda>w. \<lparr>wo_flowId = flowId, wo_data = data, wo_kind = ContinuousWriter w\<rparr>)
               (PosixContinuousFlowWriter_ctor (writer_checkPermissions env (fm_mxlDomain manager) (snd ws)) x))) ws)"

text \<open>
  The constructor of an event writer recovers the head, registers the writer, and then notifies the readers:
  when the registration throws, the recovered head is stored and the counter is not incremented.
\<close>

definition createEventFlowWriter :: "flow_env \<Rightarrow> FlowManager \<Rightarrow> nat \<Rightarrow> u8 list \<Rightarrow> FlowData \<Rightarrow> (watched, FlowWriter) act" where
  "createEventFlowWriter env manager this flowId data ws =
     (case load_event data (snd ws) of
        None \<Rightarrow> (Undef, ws)
      | Some x \<Rightarrow>
          (case PosixEventFlowWriter_ctor (fe_now env) x of
             Throw e \<Rightarrow> (Throw e, close_files data ws)
           | Undef \<Rightarrow> (Undef, ws)
           | Ret (w, y) \<Rightarrow>
               bind_act (unwind (close_files data) (addFlow env this flowId))
                 (\<lambda>_ ws. (Ret \<lparr>wo_flowId = flowId, wo_data = data, wo_kind = EventWriter w\<rparr>,
                          fst ws, store_event data y (snd ws)))
                 (fst ws, store_event data (y\<lparr>ed_state := ed_state x\<rparr>) (snd ws))))"

definition createFlowWriter :: "flow_env \<Rightarrow> FlowManager \<Rightarrow> nat \<Rightarrow> u8 list \<Rightarrow> FlowData \<Rightarrow> (watched, FlowWriter) act" where
  "createFlowWriter env manager this flowId data =
     (case kind_of (fl_maps data) of
        KindDiscrete \<Rightarrow> createDiscreteFlowWriter env manager this flowId data
      | KindContinuous \<Rightarrow> createContinuousFlowWriter env manager flowId data
      | KindEvent \<Rightarrow> createEventFlowWriter env manager this flowId data)"

text \<open>The destructor unregisters with the identifier that the flow's data file holds.\<close>

definition unregister :: "nat \<Rightarrow> FlowData \<Rightarrow> watched \<Rightarrow> watched" where
  "unregister this d ws =
     (case flow_segment (fl_flow d) (snd ws) of
        None \<Rightarrow> ws
      | Some (info, st) \<Rightarrow> removeFlow this (cc_id (fc_common (fi_config info))) ws)"

definition FlowWriter_dtor :: "nat \<Rightarrow> FlowWriter \<Rightarrow> watched \<Rightarrow> watched" where
  "FlowWriter_dtor this w ws =
     close_files (wo_data w)
       (case wo_kind w of
          ContinuousWriter x \<Rightarrow> ws
        | _ \<Rightarrow> unregister this (wo_data w) ws)"

definition FlowWriter_isExclusive :: "FlowWriter \<Rightarrow> bool" where
  "FlowWriter_isExclusive w = FlowData_isExclusive (wo_data w)"

definition FlowWriter_makeExclusive :: "faults \<Rightarrow> FlowWriter \<Rightarrow> (posix, bool \<times> FlowWriter) act" where
  "FlowWriter_makeExclusive flt w =
     bind_act (FlowData_makeExclusive flt (wo_data w)) (\<lambda>(ok, d). return_act (ok, w\<lparr>wo_data := d\<rparr>))"

section \<open>Reading back what was stored\<close>

lemma those_map_Some: "(\<And>x. x \<in> set xs \<Longrightarrow> f x = Some (g x)) \<Longrightarrow> those (map f xs) = Some (map g xs)"
  by (induction xs) auto

lemma those_length: "those xs = Some ys \<Longrightarrow> length ys = length xs"
  by (induction xs arbitrary: ys) (auto split: option.splits)


lemma content_fold_other:
  "i \<notin> sm_ino ` set hs \<Longrightarrow> content_of (fold (\<lambda>(h, g). set_content (sm_ino h) (f g)) (zip hs gs) s) i = content_of s i"
proof (induction hs arbitrary: gs s)
  case (Cons h hs)
  then show ?case
    by (cases gs) (auto simp: posix_simps)
qed simp

lemma content_fold_nth:
  assumes "distinct (map sm_ino hs)" "length hs = length gs" "k < length hs"
  shows "content_of (fold (\<lambda>(h, g). set_content (sm_ino h) (f g)) (zip hs gs) s) (sm_ino (hs ! k)) = f (gs ! k)"
  using assms
proof (induction hs arbitrary: gs s k)
  case (Cons h hs)
  then obtain g gs' where gs: "gs = g # gs'" by (cases gs) auto
  show ?case
  proof (cases k)
    case 0
    then show ?thesis
      using Cons.prems(1) gs by (simp add: content_fold_other posix_simps)
  next
    case (Suc j)
    then show ?thesis
      using Cons.IH [of gs' j] Cons.prems gs by simp
  qed
qed simp

text \<open>The common part.\<close>

lemma flow_segment_eq:
  "flow_segment h s = Some (info, st) \<longleftrightarrow> content_of s (sm_ino h) = FlowSegment info st"
  by (auto simp: flow_segment_def split: content.splits)

lemma store_flow_content:
  assumes "flow_segment (fl_flow d) s = Some (info, st)"
  shows "content_of (store_flow d r st' s) = (content_of s)(sm_ino (fl_flow d) := FlowSegment (info\<lparr>fi_runtime := r\<rparr>) st')"
  using assms by (simp add: store_flow_def flow_segment_eq posix_simps)

lemma load_discrete_iff:
  "load_discrete d s = Some x \<longleftrightarrow>
     (\<exists>gs info. fl_maps d = DiscreteMaps gs \<and> flow_segment (fl_flow d) s = Some (info, dd_state x) \<and>
        fc_specific (fi_config info) = ConfigDiscrete (dd_config x) \<and> fi_runtime info = dd_runtime x \<and>
        those (map (\<lambda>g. grain_content (content_of s (sm_ino g))) gs) = Some (dd_grains x))"
  by (cases x) (auto simp: load_discrete_def split: flow_maps.splits option.splits flowConfigUnion.splits)

lemma load_event_iff:
  "load_event d s = Some x \<longleftrightarrow>
     (\<exists>h info. fl_maps d = EventMaps (Some (h, ed_view x)) \<and> flow_segment (fl_flow d) s = Some (info, ed_state x) \<and>
        fc_specific (fi_config info) = ConfigEvent (ed_config x) \<and> fi_runtime info = ed_runtime x \<and>
        content_of s (sm_ino h) = EventSegment (ed_ring x))"
  by (cases x) (auto simp: load_event_def split: flow_maps.splits option.splits flowConfigUnion.splits content.splits
      elim!: ring_content.elims)

lemma load_continuous_iff:
  "load_continuous d s = Some x \<longleftrightarrow>
     (\<exists>h info. fl_maps d = ContinuousMaps (Some h) (cd_sampleWordSize x) \<and>
        flow_segment (fl_flow d) s = Some (info, cd_state x) \<and>
        fc_specific (fi_config info) = ConfigContinuous (cd_config x) \<and> fc_common (fi_config info) = cd_common x \<and>
        fi_runtime info = cd_runtime x \<and>
        channel_content (sm_mappedSize h) (content_of s (sm_ino h)) = Some (cd_channels x))"
  by (cases x) (auto simp: load_continuous_def split: flow_maps.splits option.splits flowConfigUnion.splits)

lemma load_store_discrete:
  assumes "load_discrete d s = Some x" "separate d" "dd_config y = dd_config x" "length (dd_grains y) = length (dd_grains x)"
  shows "load_discrete d (store_discrete d y s) = Some y"
proof -
  obtain gs info where x: "fl_maps d = DiscreteMaps gs" "flow_segment (fl_flow d) s = Some (info, dd_state x)"
      "fc_specific (fi_config info) = ConfigDiscrete (dd_config x)"
      "those (map (\<lambda>g. grain_content (content_of s (sm_ino g))) gs) = Some (dd_grains x)"
    using assms(1) by (auto simp: load_discrete_iff)
  let ?s1 = "store_flow d (dd_runtime y) (dd_state y) s" and ?s2 = "store_discrete d y s"
  have dist: "distinct (map sm_ino gs)" "sm_ino (fl_flow d) \<notin> sm_ino ` set gs"
    using assms(2) by (auto simp: separate_def flow_handles_def x(1))
  have len: "length gs = length (dd_grains y)"
    using those_length [OF x(4)] assms(4) by simp
  have s2: "?s2 = fold (\<lambda>(h, g). set_content (sm_ino h) (GrainSegment g)) (zip gs (dd_grains y)) ?s1"
    by (simp add: store_discrete_def x(1))
  have "flow_segment (fl_flow d) ?s2 = Some (info\<lparr>fi_runtime := dd_runtime y\<rparr>, dd_state y)"
    unfolding flow_segment_eq s2 content_fold_other [OF dist(2)] store_flow_content [OF x(2)] by simp
  moreover have "map (\<lambda>g. grain_content (content_of ?s2 (sm_ino g))) gs = map Some (dd_grains y)"
    using len content_fold_nth [OF dist(1) len] by (intro nth_equalityI) (simp_all add: s2)
  ultimately show ?thesis
    using x(1,3) assms(3) by (auto simp: load_discrete_iff those_map_Some [where g = "\<lambda>x. x", simplified])
qed

lemma load_store_event:
  assumes "load_event d s = Some x" "separate d" "ed_config y = ed_config x" "ed_view y = ed_view x"
  shows "load_event d (store_event d y s) = Some y"
proof -
  obtain h info where x: "fl_maps d = EventMaps (Some (h, ed_view x))" "flow_segment (fl_flow d) s = Some (info, ed_state x)"
      "fc_specific (fi_config info) = ConfigEvent (ed_config x)"
    using assms(1) by (auto simp: load_event_iff)
  have ne: "sm_ino h \<noteq> sm_ino (fl_flow d)"
    using assms(2) by (simp add: separate_def flow_handles_def x(1))
  have c: "content_of (store_event d y s) =
      (content_of s)(sm_ino (fl_flow d) := FlowSegment (info\<lparr>fi_runtime := ed_runtime y\<rparr>) (ed_state y),
        sm_ino h := EventSegment (ed_ring y))"
    by (simp add: store_event_def x(1) posix_simps store_flow_content [OF x(2)])
  show ?thesis
    unfolding load_event_iff flow_segment_eq c using x ne assms(3,4) by auto
qed

lemma load_store_continuous:
  assumes "load_continuous d s = Some x" "separate d" "cd_config y = cd_config x" "cd_common y = cd_common x"
    "cd_sampleWordSize y = cd_sampleWordSize x"
  shows "load_continuous d (store_continuous d y s) = Some y"
proof -
  obtain h info where x: "fl_maps d = ContinuousMaps (Some h) (cd_sampleWordSize x)"
      "flow_segment (fl_flow d) s = Some (info, cd_state x)"
      "fc_specific (fi_config info) = ConfigContinuous (cd_config x)" "fc_common (fi_config info) = cd_common x"
    using assms(1) by (auto simp: load_continuous_iff)
  have ne: "sm_ino h \<noteq> sm_ino (fl_flow d)"
    using assms(2) by (simp add: separate_def flow_handles_def x(1))
  have c: "content_of (store_continuous d y s) =
      (content_of s)(sm_ino (fl_flow d) := FlowSegment (info\<lparr>fi_runtime := cd_runtime y\<rparr>) (cd_state y),
        sm_ino h := ChannelSegment (cd_channels y))"
    by (simp add: store_continuous_def x(1) posix_simps store_flow_content [OF x(2)])
  show ?thesis
    unfolding load_continuous_iff flow_segment_eq c using x ne assms(3-5) by (auto simp: channel_content_def)
qed

text \<open>
  what an operation stores through the mappings of a flow is what is loaded through them afterwards,
  for each of the three kinds, provided it keeps the configuration and the shape of the rings.
\<close>

theorem stored_is_loaded:
  assumes "separate d"
  shows "(load_discrete d s = Some x \<and> dd_config x' = dd_config x \<and> length (dd_grains x') = length (dd_grains x) \<longrightarrow>
      load_discrete d (store_discrete d x' s) = Some x') \<and>
    (load_event d s = Some y \<and> ed_config y' = ed_config y \<and> ed_view y' = ed_view y \<longrightarrow>
      load_event d (store_event d y' s) = Some y') \<and>
    (load_continuous d s = Some z \<and> cd_config z' = cd_config z \<and> cd_common z' = cd_common z \<and>
      cd_sampleWordSize z' = cd_sampleWordSize z \<longrightarrow> load_continuous d (store_continuous d z' s) = Some z')"
  using load_store_discrete load_store_event load_store_continuous assms by blast

section \<open>Two processes and one flow\<close>

text \<open>Mappings of the same files, in different processes, with locks of their own.\<close>

definition shared_flow :: "FlowData \<Rightarrow> FlowData \<Rightarrow> bool" where
  "shared_flow d e \<longleftrightarrow> map sm_ino (flow_handles d) = map sm_ino (flow_handles e) \<and> kind_of (fl_maps d) = kind_of (fl_maps e)"

lemma shared_discrete:
  assumes "shared_flow d e" "fl_maps d = DiscreteMaps gs"
  obtains gs' where "fl_maps e = DiscreteMaps gs'" "map sm_ino gs' = map sm_ino gs" "sm_ino (fl_flow e) = sm_ino (fl_flow d)"
proof (cases "fl_maps e")
  case (DiscreteMaps gs')
  then show ?thesis
    using assms that [of gs'] by (auto simp: shared_flow_def flow_handles_def)
qed (use assms in \<open>simp_all add: shared_flow_def\<close>)

lemma load_discrete_shared:
  assumes "shared_flow d e" "load_discrete d s = Some x"
  shows "load_discrete e s = Some x"
proof -
  obtain gs info where x: "fl_maps d = DiscreteMaps gs" "flow_segment (fl_flow d) s = Some (info, dd_state x)"
      "fc_specific (fi_config info) = ConfigDiscrete (dd_config x)" "fi_runtime info = dd_runtime x"
      "those (map (\<lambda>g. grain_content (content_of s (sm_ino g))) gs) = Some (dd_grains x)"
    using assms(2) by (auto simp: load_discrete_iff)
  obtain gs' where e: "fl_maps e = DiscreteMaps gs'" "map sm_ino gs' = map sm_ino gs" "sm_ino (fl_flow e) = sm_ino (fl_flow d)"
    using shared_discrete [OF assms(1) x(1)] .
  have "map (\<lambda>g. grain_content (content_of s (sm_ino g))) gs' = map (\<lambda>i. grain_content (content_of s i)) (map sm_ino gs')"
    by simp
  also have "\<dots> = map (\<lambda>g. grain_content (content_of s (sm_ino g))) gs"
    unfolding e(2) by simp
  finally show ?thesis
    using x e by (simp add: load_discrete_iff flow_segment_def)
qed

text \<open>An operation of the writer keeps the configuration and the number of grains.\<close>

definition same_shape :: "DiscreteFlowData \<Rightarrow> DiscreteFlowData \<Rightarrow> bool" where
  "same_shape d d' \<longleftrightarrow> dd_config d' = dd_config d \<and> length (dd_grains d') = length (dd_grains d)"

lemma same_shape_trans: "same_shape a b \<Longrightarrow> same_shape b c \<Longrightarrow> same_shape a c"
  by (simp add: same_shape_def)

lemma update_grain_shape: "update_grain i f d = Ret d' \<Longrightarrow> same_shape d d'"
  by (auto simp: update_grain_def same_shape_def split: option.splits)

lemma invalidate_loop_shape: "invalidate_loop k i d = Ret d' \<Longrightarrow> same_shape d d'"
proof (induction k i d arbitrary: d' rule: invalidate_loop.induct)
  case (1 k i d)
  show ?case
  proof (cases "k < i")
    case True
    then obtain d1 where d1: "invalidate_grain k d = Ret d1" "invalidate_loop (k + 1) i d1 = Ret d'"
      using 1(2) by (subst (asm) invalidate_loop.simps) (auto simp: res_simps)
    have "same_shape d d1"
      using d1(1) by (auto simp: invalidate_grain_def res_simps intro: update_grain_shape)
    then show ?thesis
      using 1(1) [OF True d1(2)] same_shape_trans by blast
  next
    case False
    then show ?thesis
      using 1(2) by (subst (asm) invalidate_loop.simps) (simp add: same_shape_def)
  qed
qed

lemma openGrain_shape:
  assumes "openGrain i w d = Ret (st, out, w', d')"
  shows "same_shape d d'"
proof (cases "dw_lastCommittedIndex w \<noteq> MXL_UNDEFINED_INDEX \<and> i \<le> dw_lastCommittedIndex w")
  case True
  then show ?thesis
    using assms by (simp add: openGrain_def same_shape_def)
next
  case False
  define skip where "skip = (if dw_lastCommittedIndex w \<noteq> MXL_UNDEFINED_INDEX \<and> i > dw_lastCommittedIndex w + 1
            then invalidate_loop (skipped_first i (dw_lastCommittedIndex w) (grain_count d)) i d else Ret d)"
  obtain d1 off where d1: "skip = Ret d1" "update_grain off (\<lambda>g. g\<lparr>gr_info := reset_info i (gr_info g)\<rparr>) d1 = Ret d'"
    using assms False unfolding openGrain_def Let_def skip_def [symmetric] by (auto simp: res_simps)
  have "same_shape d d1"
    using d1(1) invalidate_loop_shape by (auto simp: skip_def same_shape_def split: if_splits)
  then show ?thesis
    using update_grain_shape [OF d1(2)] same_shape_trans by blast
qed

lemma commit_grain_shape:
  assumes "commit_grain now info w d = Ret (st, w', d')"
  shows "same_shape d d'"
proof (cases "gi_index info = dw_currentIndex w")
  case True
  let ?d = "d\<lparr>dd_runtime := (dd_runtime d)\<lparr>headIndex := dw_currentIndex w\<rparr>\<rparr>"
  obtain off d1 where "update_grain off (\<lambda>g. g\<lparr>gr_info := info\<rparr>) ?d = Ret d1"
      "dd_config d' = dd_config d1" "dd_grains d' = dd_grains d1"
    using assms True by (auto simp: commit_grain_def Let_def res_simps)
  then show ?thesis
    using update_grain_shape [of off _ ?d d1] by (simp add: same_shape_def)
qed (use assms in \<open>simp add: commit_grain_def same_shape_def\<close>)

lemma write_grain_shape:
  assumes "write_grain now i g w d = Ret (st, w', d')"
  shows "same_shape d d'"
proof -
  obtain st1 out w1 d1 where o: "openGrain i w d = Ret (st1, out, w1, d1)"
    using assms by (auto simp: write_grain_def res_simps)
  show ?thesis
  proof (cases "st1 = MXL_STATUS_OK")
    case True
    then obtain off d2 where u: "update_grain off (\<lambda>g'. g'\<lparr>gr_payload := gr_payload g\<rparr>) d1 = Ret d2"
        and c: "commit_grain now (gr_info g) w1 d2 = Ret (st, w', d')"
      using assms o by (auto simp: write_grain_def res_simps)
    show ?thesis
      by (rule same_shape_trans [OF openGrain_shape [OF o] same_shape_trans [OF update_grain_shape [OF u] commit_grain_shape [OF c]]])
  next
    case False
    then show ?thesis
      using assms o openGrain_shape [OF o] by (auto simp: write_grain_def res_simps)
  qed
qed

text \<open>
  a grain that one process writes is the grain that another process reads: when both have mapped the
  files of a flow, opening, filling and committing a complete grain through the mappings of the first
  makes a read of its index through the mappings of the second return exactly that grain.
\<close>

theorem grain_crosses_processes:
  assumes "separate d" "shared_flow d e" and "load_discrete d s = Some x" "disc_log first f w x"
    and "unat (dw_lastCommittedIndex w) < unat i" "i \<noteq> MXL_UNDEFINED_INDEX" "first \<le> unat i" "complete_grain i g"
    and "2 \<le> length (dd_grains x)"
  shows "\<exists>w' x'. write_grain now i g w x = Ret (MXL_STATUS_OK, w', x') \<and>
    load_discrete e (store_discrete d x' s) = Some x' \<and> getGrainImpl i m x' = Ret (MXL_STATUS_OK, Some g)"
proof -
  let ?f = "\<lambda>k. if k = unat i then Some g else if unat (dw_lastCommittedIndex w) < k then None else f k"
  obtain w' x' where w: "write_grain now i g w x = Ret (MXL_STATUS_OK, w', x')" "disc_log first ?f w' x'"
      "dw_lastCommittedIndex w' = i"
    using write_grain_log [OF assms(4-6,8)] by blast
  have shape: "dd_config x' = dd_config x" "length (dd_grains x') = length (dd_grains x)"
    using write_grain_shape [OF w(1)] by (simp_all add: same_shape_def)
  have "load_discrete e (store_discrete d x' s) = Some x'"
    by (rule load_discrete_shared [OF assms(2) load_store_discrete [OF assms(3,1) shape]])
  moreover have "window_start (unat i) (length (dd_grains x')) \<le> unat i"
    using assms(9) shape(2) by (auto simp: window_start_def)
  then have "getGrainImpl i m x' = Ret (MXL_STATUS_OK, Some g)"
    using reader_log [OF w(2) assms(7), of m] w(3) by (simp add: grain_holds_def)
  ultimately show ?thesis
    using w(1) by blast
qed

section \<open>Witnesses\<close>

definition mapping_of :: "nat \<Rightarrow> nat \<Rightarrow> SharedMemoryBase" where
  "mapping_of fd ino = \<lparr>sm_path = [], sm_fd = fd, sm_ino = ino, sm_mode = READ_WRITE, sm_mappedSize = SIZEOF_FLOW, sm_lockType = LockType_None\<rparr>"

definition mapped_flow :: "nat \<Rightarrow> FlowData" where
  "mapped_flow fd =
     \<lparr>fl_flow = mapping_of fd 0, fl_maps = DiscreteMaps [mapping_of (fd + 1) 1, mapping_of (fd + 2) 2, mapping_of (fd + 3) 3, mapping_of (fd + 4) 4]\<rparr>"

definition stored_sample :: posix where
  "stored_sample =
     (let x = sample_disc 5 (replicate 4 (sample_grain 5 2))
      in \<lparr>px_nodes = [], px_inodes = (\<lambda>i. \<lparr>in_content = (if i = 0
             then FlowSegment (zero_info\<lparr>fi_config := \<lparr>fc_common = zero_common, fc_specific = ConfigDiscrete (dd_config x)\<rparr>,
                    fi_runtime := dd_runtime x\<rparr>) (dd_state x)
             else GrainSegment (sample_grain 5 2)), in_size = SIZEOF_FLOW, in_locks = []\<rparr>), px_nextIno = 5, px_nextFd = 30\<rparr>)"

lemma stored_sample_loads: "load_discrete (mapped_flow fd) stored_sample = Some (sample_disc 5 (replicate 4 (sample_grain 5 2)))"
  by (simp add: load_discrete_iff mapped_flow_def stored_sample_def Let_def flow_segment_eq content_of_def mapping_of_def
      sample_disc_def zero_info_def numeral_eq_Suc)

lemma mapped_flow_shared: "separate (mapped_flow fd)" "shared_flow (mapped_flow fd) (mapped_flow fd')"
  by (simp_all add: separate_def shared_flow_def mapped_flow_def flow_handles_def mapping_of_def)

theorem stored_is_loaded_witness:
  "load_discrete (mapped_flow 10) (store_discrete (mapped_flow 10) (sample_disc 9 (replicate 4 (sample_grain 9 1))) stored_sample) =
     Some (sample_disc 9 (replicate 4 (sample_grain 9 1)))"
  using stored_is_loaded [OF mapped_flow_shared(1), of 10 stored_sample "sample_disc 5 (replicate 4 (sample_grain 5 2))"
      "sample_disc 9 (replicate 4 (sample_grain 9 1))"] stored_sample_loads [of 10]
  by (simp add: sample_disc_def)

theorem grain_crosses_processes_witness:
  "\<exists>w' x'. write_grain 78 7 (sample_grain 7 2) \<lparr>dw_currentIndex = MXL_UNDEFINED_INDEX, dw_lastCommittedIndex = 5\<rparr>
       (sample_disc 5 (replicate 4 (sample_grain 5 2))) = Ret (MXL_STATUS_OK, w', x') \<and>
     load_discrete (mapped_flow 20) (store_discrete (mapped_flow 10) x' stored_sample) = Some x' \<and>
     getGrainImpl 7 2 x' = Ret (MXL_STATUS_OK, Some (sample_grain 7 2))"
proof -
  have "complete_grain 7 (sample_grain 7 2)" "(7 :: u64) \<noteq> MXL_UNDEFINED_INDEX"
    by (simp_all add: complete_grain_def sample_grain_def MXL_UNDEFINED_INDEX_def)
  then show ?thesis
    using grain_crosses_processes [OF mapped_flow_shared(1) [of 10] mapped_flow_shared(2) [of 10 20] stored_sample_loads
        sample_disc_log, where i = 7 and g = "sample_grain 7 2" and now = 78 and m = 2]
    by (simp add: sample_disc_def)
qed

end
