(* ===== verification/Instance.thy ===== *)
theory Instance
  imports FlowIo "HOL-Library.List_Lexorder"
begin

text \<open>
  An instance of the library (\<^verbatim>\<open>Instance.cpp\<close>, \<^verbatim>\<open>Instance.hpp\<close>): the reference-counted readers and writers of
  a process by flow identifier, its synchronization groups and its history duration; the geometry of a new
  flow; and the garbage collection of a domain.
\<close>

section \<open>State\<close>

text \<open>An object with its address and the number of references to it.\<close>

record 'a RefCounted =
  rc_ptr :: nat
  rc_value :: 'a
  rc_count :: u64

definition RefCounted_ctor :: "nat \<Rightarrow> 'a \<Rightarrow> 'a RefCounted" where
  "RefCounted_ctor p v = \<lparr>rc_ptr = p, rc_value = v, rc_count = 1\<rparr>"

definition addReference :: "'a RefCounted \<Rightarrow> 'a RefCounted" where
  "addReference v = v\<lparr>rc_count := rc_count v + 1\<rparr>"

definition releaseReference :: "'a RefCounted \<Rightarrow> bool \<times> 'a RefCounted" where
  "releaseReference v =
     (let n = rc_count v - (if rc_count v > 0 then 1 else 0) in (n = 0, v\<lparr>rc_count := n\<rparr>))"

definition referenceCount :: "'a RefCounted \<Rightarrow> u64" where
  "referenceCount v = rc_count v"

text \<open>A map ordered by its keys, and the group list with the addresses of the groups.\<close>

type_synonym 'a by_id = "(u8 list \<times> 'a RefCounted) list"

fun put :: "u8 list \<Rightarrow> 'a RefCounted \<Rightarrow> 'a by_id \<Rightarrow> 'a by_id" where
  "put k v [] = [(k, v)]"
| "put k v ((k', v') # xs) =
     (if k = k' then (k, v) # xs else if k < k' then (k, v) # (k', v') # xs else (k', v') # put k v xs)"

definition erase :: "u8 list \<Rightarrow> 'a by_id \<Rightarrow> 'a by_id" where
  "erase k xs = filter (\<lambda>e. fst e \<noteq> k) xs"

record Instance =
  in_flowManager :: FlowManager
  in_readers :: "FlowReader by_id"
  in_writers :: "FlowWriter by_id"
  in_syncGroups :: "(nat \<times> ListEntry list) list"
  in_options :: string
  in_historyDuration :: u64
  in_stopping :: bool
  in_nextPtr :: nat

text \<open>An instance, the watcher it shares with its writers, and the machine.\<close>

type_synonym world = "Instance \<times> watched"

record instance_env =
  ie_flow :: flow_env
  ie_parse :: "string \<Rightarrow> json option"

definition in_files :: "(posix, 'a) act \<Rightarrow> (world, 'a) act" where
  "in_files m w = (case on_files m (snd w) of (r, ws) \<Rightarrow> (r, fst w, ws))"

definition in_watched :: "(watched, 'a) act \<Rightarrow> (world, 'a) act" where
  "in_watched m w = (case m (snd w) of (r, ws) \<Rightarrow> (r, fst w, ws))"

definition change_files :: "(posix \<Rightarrow> posix) \<Rightarrow> world \<Rightarrow> world" where
  "change_files f w = (case w of (i, d, s) \<Rightarrow> (i, d, f s))"

definition change_instance :: "(Instance \<Rightarrow> Instance) \<Rightarrow> world \<Rightarrow> world" where
  "change_instance f w = (f (fst w), snd w)"

definition find_ptr :: "nat \<Rightarrow> 'a by_id \<Rightarrow> (u8 list \<times> 'a RefCounted) option" where
  "find_ptr p xs = find (\<lambda>e. rc_ptr (snd e) = p) xs"

section \<open>Options\<close>

definition MXL_HISTORY_DURATION_OPTION :: string where
  "MXL_HISTORY_DURATION_OPTION = ''urn:x-mxl:option:history_duration/v1.0''"

definition parseOptionsJson :: "(string \<Rightarrow> json option) \<Rightarrow> string \<Rightarrow> object option" where
  "parseOptionsJson parse options = (case parse options of Some (JObject config) \<Rightarrow> Some config | _ \<Rightarrow> None)"

text \<open>The conversion of a number to 64 bits truncates, and is undefined when it does not fit.\<close>

definition number_to_u64 :: "rat \<Rightarrow> u64 res" where
  "number_to_u64 x =
     (let n = (if x \<ge> 0 then floor x else ceiling x) in if 0 \<le> n \<and> n < 2 ^ 64 then Ret (word_of_int n) else Undef)"

definition readDomainHistoryDuration :: "instance_env \<Rightarrow> path \<Rightarrow> u64 \<Rightarrow> posix \<Rightarrow> u64 res" where
  "readDomainHistoryDuration env p fallback s =
     (if fe_faults (ie_flow env) Call_ifstream p \<noteq> None then Ret fallback
      else case (case lookup s p of
                   None \<Rightarrow> None
                 | Some Directory \<Rightarrow> Some (Ret [])
                 | Some (Regular ino) \<Rightarrow> Some (case content_of s ino of Text t \<Rightarrow> Ret t | _ \<Rightarrow> Undef)) of
             None \<Rightarrow> Ret fallback
           | Some text \<Rightarrow>
               bind_res text (\<lambda>t.
               case parseOptionsJson (ie_parse env) t of
                 None \<Rightarrow> Ret fallback
               | Some config \<Rightarrow>
                   (case map_of config MXL_HISTORY_DURATION_OPTION of
                      Some (JNumber x) \<Rightarrow> number_to_u64 x
                    | _ \<Rightarrow> Ret fallback)))"

text \<open>The options of the instance are parsed, and a failure is logged, but they set nothing.\<close>

definition parseOptions :: "instance_env \<Rightarrow> string \<Rightarrow> Instance \<Rightarrow> posix \<Rightarrow> Instance res" where
  "parseOptions env options i s =
     map_ret (\<lambda>h. i\<lparr>in_historyDuration := h\<rparr>)
       (readDomainHistoryDuration env (makeDomainOptionsFilePath (fm_mxlDomain (in_flowManager i))) (in_historyDuration i) s)"

definition Instance_ctor :: "instance_env \<Rightarrow> path \<Rightarrow> string \<Rightarrow> (posix, Instance) act" where
  "Instance_ctor env mxlDomain options =
     bind_act (FlowManager_ctor mxlDomain) (\<lambda>m s.
       (parseOptions env options
          \<lparr>in_flowManager = m, in_readers = [], in_writers = [], in_syncGroups = [], in_options = options,
           in_historyDuration = 200000000, in_stopping = False, in_nextPtr = 1\<rparr> s, s))"

definition getHistoryDurationNs :: "Instance \<Rightarrow> u64" where
  "getHistoryDurationNs i = in_historyDuration i"

definition getDomain :: "Instance \<Rightarrow> path" where
  "getDomain i = fm_mxlDomain (in_flowManager i)"

definition instance_getFlowDef :: "instance_env \<Rightarrow> u8 list \<Rightarrow> world \<Rightarrow> string res" where
  "instance_getFlowDef env flowId w = getFlowDef (ie_flow env) (in_flowManager (fst w)) flowId (snd (snd w))"

section \<open>Readers\<close>

definition getFlowReader :: "instance_env \<Rightarrow> string \<Rightarrow> (world, nat) act" where
  "getFlowReader env flowId w =
     (case fe_from_string (ie_flow env) flowId of
        None \<Rightarrow> (Throw InvalidArgument, w)
      | Some i \<Rightarrow>
          (case map_of (in_readers (fst w)) i of
             Some v \<Rightarrow> (Ret (rc_ptr v), change_instance (\<lambda>x. x\<lparr>in_readers := put i (addReference v) (in_readers x)\<rparr>) w)
           | None \<Rightarrow>
               bind_act (in_files (openFlow (ie_flow env) (in_flowManager (fst w)) i READ_ONLY)) (\<lambda>flowData.
               bind_act (in_files (createFlowReader (ie_flow env) (in_flowManager (fst w)) i flowData)) (\<lambda>reader w.
                 (Ret (in_nextPtr (fst w)),
                  change_instance (\<lambda>x. x\<lparr>in_readers := put i (RefCounted_ctor (in_nextPtr x) reader) (in_readers x),
                                         in_nextPtr := in_nextPtr x + 1\<rparr>) w))) w))"

text \<open>A pointer that is not a reader of the instance is dangling, and reading through it undefined.\<close>

definition releaseReader :: "nat \<Rightarrow> (world, unit) act" where
  "releaseReader reader w =
     (case find_ptr reader (in_readers (fst w)) of
        None \<Rightarrow> (Undef, w)
      | Some (i, v) \<Rightarrow>
          (case releaseReference v of
             (none_left, v') \<Rightarrow>
               if none_left then
                 (Ret (),
                  change_files (FlowReader_dtor (rc_value v))
                    (change_instance (\<lambda>x. x\<lparr>in_syncGroups := map (\<lambda>(p, g). (p, removeReader reader g)) (in_syncGroups x),
                                           in_readers := erase i (in_readers x)\<rparr>) w))
               else (Ret (), change_instance (\<lambda>x. x\<lparr>in_readers := put i v' (in_readers x)\<rparr>) w)))"

section \<open>Writers\<close>

text \<open>The attempt to make a writer exclusive stores the new type of its lock in the writer.\<close>

definition claim_flow :: "instance_env \<Rightarrow> FlowWriter RefCounted \<Rightarrow> (world, bool \<times> FlowWriter RefCounted) act" where
  "claim_flow env v w =
     (if FlowWriter_isExclusive (rc_value v) then (Ret (True, v), w)
      else bind_act (in_files (FlowWriter_makeExclusive (fe_faults (ie_flow env)) (rc_value v)))
             (\<lambda>(ok, x). return_act (ok, v\<lparr>rc_value := x\<rparr>)) w)"

definition delete_claimed :: "instance_env \<Rightarrow> u8 list \<Rightarrow> bool \<Rightarrow> world \<Rightarrow> world" where
  "delete_claimed env i ok w =
     (if ok then change_files (\<lambda>s. snd (deleteFlow_id (ie_flow env) (in_flowManager (fst w)) i s)) w else w)"

definition releaseWriter :: "instance_env \<Rightarrow> nat \<Rightarrow> (world, unit) act" where
  "releaseWriter env writer w =
     (case find_ptr writer (in_writers (fst w)) of
        None \<Rightarrow> (Undef, w)
      | Some (i, v) \<Rightarrow>
          (case releaseReference v of
             (none_left, v') \<Rightarrow>
               (let w = change_instance (\<lambda>x. x\<lparr>in_writers := put i v' (in_writers x)\<rparr>) w
                in if none_left then
                     bind_act (claim_flow env v') (\<lambda>(ok, v') w.
                       case delete_claimed env i ok w of
                         (x, ws) \<Rightarrow>
                           (Ret (), x\<lparr>in_writers := erase i (in_writers x)\<rparr>, FlowWriter_dtor writer (rc_value v') ws)) w
                   else (Ret (), w))))"

section \<open>The geometry of a new flow\<close>

definition grain_count_for :: "u64 \<Rightarrow> mxlRational \<Rightarrow> u64 res" where
  "grain_count_for historyDuration grainRate =
     (let d = 1000000000 * cast_u64 (denominator grainRate)
      in if d = 0 then Undef else Ret (historyDuration * cast_u64 (numerator grainRate) div d))"

definition event_count_for :: "u64 \<Rightarrow> mxlRational \<Rightarrow> int res" where
  "event_count_for historyDuration grainRate =
     bind_res (chk128 (uint historyDuration * numerator grainRate)) (\<lambda>n. div_chk n (1000000000 * denominator grainRate))"

definition page_aligned_length :: "u64 \<Rightarrow> mxlRational \<Rightarrow> u64 \<Rightarrow> u64 res" where
  "page_aligned_length historyDuration sampleRate sampleWordSize =
     (let d = 500000000 * cast_u64 (denominator sampleRate)
      in if d = 0 then Undef
         else let bufferLength = historyDuration * cast_u64 (numerator sampleRate) div d
         in if sampleWordSize = 0 then Undef
            else let lengthPerPage = 4096 div sampleWordSize
            in if lengthPerPage = 0 then Undef
               else Ret (((bufferLength + lengthPerPage - 1) div lengthPerPage) * lengthPerPage))"

definition batch_default :: "mxlRational \<Rightarrow> u32 res" where
  "batch_default rate =
     bind_res (chk64 (100 * denominator rate)) (\<lambda>d.
     bind_res (div_chk (numerator rate) d) (\<lambda>q. bind_res (chk64 q) (\<lambda>q. Ret (word_of_int q))))"

definition createOrOpenDiscreteFlowData ::
  "instance_env \<Rightarrow> string \<Rightarrow> FlowParser \<Rightarrow> FlowOptionsParser \<Rightarrow> Instance \<Rightarrow> (posix, bool \<times> FlowData) act" where
  "createOrOpenDiscreteFlowData env flowDef parser optionsParser i =
     bind_act (lift_act (grain_count_for (in_historyDuration i) (fp_grainRate parser))) (\<lambda>grainCount.
     bind_act (lift_act (getTotalPayloadSlices parser)) (\<lambda>slices.
     bind_act (lift_act (getPayloadSize parser)) (\<lambda>payloadSize.
     bind_act (lift_act (getPayloadSliceLengths parser)) (\<lambda>lengths.
     createOrOpenDiscreteFlow (ie_flow env) (in_flowManager i) (fp_id parser) flowDef (format_code (fp_format parser))
       grainCount (fp_grainRate parser) payloadSize slices lengths
       (case fo_maxSyncBatchSizeHint optionsParser of Some h \<Rightarrow> h | None \<Rightarrow> ucast slices)
       (case fo_maxCommitBatchSizeHint optionsParser of Some h \<Rightarrow> h | None \<Rightarrow> ucast slices)))))"

definition createOrOpenEventFlowData ::
  "instance_env \<Rightarrow> string \<Rightarrow> FlowParser \<Rightarrow> Instance \<Rightarrow> (posix, bool \<times> FlowData) act" where
  "createOrOpenEventFlowData env flowDef parser i =
     bind_act (lift_act (event_count_for (in_historyDuration i) (fp_grainRate parser))) (\<lambda>n.
       if n < 2 \<or> n > 65536 then throw_act InvalidArgument
       else bind_act (lift_act (getPayloadSize parser)) (\<lambda>payloadSize.
         createOrOpenEventFlow (ie_flow env) (in_flowManager i) (fp_id parser) flowDef (cast_u64 n)
           (fp_grainRate parser) payloadSize))"

definition createOrOpenContinuousFlowData ::
  "instance_env \<Rightarrow> string \<Rightarrow> FlowParser \<Rightarrow> FlowOptionsParser \<Rightarrow> Instance \<Rightarrow> (posix, bool \<times> FlowData) act" where
  "createOrOpenContinuousFlowData env flowDef parser optionsParser i =
     bind_act (lift_act (getPayloadSize parser)) (\<lambda>sampleWordSize.
     bind_act (lift_act (page_aligned_length (in_historyDuration i) (fp_grainRate parser) sampleWordSize)) (\<lambda>len.
     bind_act (lift_act (batch_default (fp_grainRate parser))) (\<lambda>batch.
     bind_act (lift_act (getChannelCount parser)) (\<lambda>channels.
     createOrOpenContinuousFlow (ie_flow env) (in_flowManager i) (fp_id parser) flowDef (format_code (fp_format parser))
       (fp_grainRate parser) channels sampleWordSize len
       (case fo_maxSyncBatchSizeHint optionsParser of Some h \<Rightarrow> h | None \<Rightarrow> batch)
       (case fo_maxCommitBatchSizeHint optionsParser of Some h \<Rightarrow> h | None \<Rightarrow> batch)))))"

section \<open>Creating writers\<close>

definition create_flow_data ::
  "instance_env \<Rightarrow> string \<Rightarrow> FlowParser \<Rightarrow> FlowOptionsParser \<Rightarrow> Instance \<Rightarrow> (posix, bool \<times> FlowData) act" where
  "create_flow_data env flowDef parser optionsParser i =
     (let format = format_code (fp_format parser)
      in if mxlIsDiscreteDataFormat format then createOrOpenDiscreteFlowData env flowDef parser optionsParser i
         else if fp_format parser = MXL_DATA_FORMAT_EVENT then createOrOpenEventFlowData env flowDef parser i
         else if mxlIsContinuousDataFormat format then createOrOpenContinuousFlowData env flowDef parser optionsParser i
         else throw_act RuntimeError)"

text \<open>
  A flow that has a writer already gets another reference to it, and the mappings that were just opened
  are closed.
\<close>

definition attach_writer :: "instance_env \<Rightarrow> bool \<Rightarrow> FlowData \<Rightarrow> (world, mxlFlowConfigInfo \<times> nat \<times> bool) act" where
  "attach_writer env was_created flowData w =
     (case flow_segment (fl_flow flowData) (snd (snd w)) of
        None \<Rightarrow> (Undef, w)
      | Some (info, st) \<Rightarrow>
          (let config = fi_config info; i = cc_id (fc_common config)
           in case map_of (in_writers (fst w)) i of
                Some v \<Rightarrow>
                  (Ret (config, rc_ptr v, was_created),
                   change_files (FlowData_dtor flowData)
                     (change_instance (\<lambda>x. x\<lparr>in_writers := put i (addReference v) (in_writers x)\<rparr>) w))
              | None \<Rightarrow>
                  bind_act (in_watched (createFlowWriter (ie_flow env) (in_flowManager (fst w)) (in_nextPtr (fst w)) i flowData))
                    (\<lambda>writer w.
                      (Ret (config, in_nextPtr (fst w), was_created),
                       change_instance (\<lambda>x. x\<lparr>in_writers := put i (RefCounted_ctor (in_nextPtr x) writer) (in_writers x),
                                              in_nextPtr := in_nextPtr x + 1\<rparr>) w)) w))"

definition instance_createFlowWriter ::
  "instance_env \<Rightarrow> string \<Rightarrow> string option \<Rightarrow> (world, mxlFlowConfigInfo \<times> nat \<times> bool) act" where
  "instance_createFlowWriter env flowDef options w =
     bind_act (lift_act (FlowParser_ctor (ie_parse env) (fe_from_string (ie_flow env)) flowDef)) (\<lambda>parser.
     bind_act (lift_act (case options of
         Some o_str \<Rightarrow> FlowOptionsParser_ctor (ie_parse env) o_str
       | None \<Rightarrow> Ret \<lparr>fo_maxCommitBatchSizeHint = None, fo_maxSyncBatchSizeHint = None\<rparr>)) (\<lambda>optionsParser.
     bind_act (in_files (create_flow_data env flowDef parser optionsParser (fst w))) (\<lambda>(was_created, flowData).
     attach_writer env was_created flowData))) w"

section \<open>Destruction\<close>

text \<open>Flows of leaked writers are deleted when no one else writes to them; exceptions are logged.\<close>

definition clean_leaked :: "instance_env \<Rightarrow> (u8 list \<times> FlowWriter RefCounted) \<Rightarrow> world \<Rightarrow> world" where
  "clean_leaked env e w =
     (case claim_flow env (snd e) w of
        (Ret (ok, v), w) \<Rightarrow>
          delete_claimed env (fst e) ok (change_instance (\<lambda>x. x\<lparr>in_writers := put (fst e) v (in_writers x)\<rparr>) w)
      | (r, w) \<Rightarrow> w)"

definition Instance_dtor :: "instance_env \<Rightarrow> world \<Rightarrow> watched" where
  "Instance_dtor env w =
     (let w = (case w of (i, d, s) \<Rightarrow> (i\<lparr>in_stopping := True\<rparr>, stop d, s));
          w = fold (clean_leaked env) (in_writers (fst w)) w;
          ws = fold (\<lambda>e. FlowWriter_dtor (rc_ptr (snd e)) (rc_value (snd e))) (in_writers (fst w)) (snd w)
      in (fst ws, fold (\<lambda>e. FlowReader_dtor (rc_value (snd e))) (in_readers (fst w)) (snd ws)))"

section \<open>Garbage collection\<close>

text \<open>One entry of the directory: an exclusive lock that can be had says that no writer uses the flow.\<close>

definition collect_entry :: "faults \<Rightarrow> path \<Rightarrow> nat \<times> posix \<Rightarrow> nat \<times> posix" where
  "collect_entry flt p cs =
     (case cs of (n, s) \<Rightarrow>
        (if \<not> is_flow_directory s p then (n, s)
         else let flowDataFile = makeFlowDataFilePath p
              in if \<not> path_exists s flowDataFile then (n, s)
                 else case open_existing flt flowDataFile s of
                        (Inl e, s) \<Rightarrow> (n, s)
                      | (Inr (fd, ino), s) \<Rightarrow>
                          (case flock_nb flt flowDataFile fd ino LOCK_EX s of
                             (err, s) \<Rightarrow>
                               (let s = close_fd fd ino s
                                in if err \<noteq> None then (n, s)
                                   else case remove_all flt p s of
                                          (Inl e, s) \<Rightarrow> (n, s)
                                        | (Inr k, s) \<Rightarrow> (n + 1, s)))))"

definition garbageCollect :: "faults \<Rightarrow> FlowManager \<Rightarrow> posix \<Rightarrow> nat \<times> posix" where
  "garbageCollect flt m s =
     (if \<not> is_directory s (fm_mxlDomain m) then (0, s)
      else fold (collect_entry flt) (directory_entries s (fm_mxlDomain m)) (0, s))"

section \<open>Synchronization groups\<close>

definition createFlowSynchronizationGroup :: "Instance \<Rightarrow> nat \<times> Instance" where
  "createFlowSynchronizationGroup i =
     (in_nextPtr i, i\<lparr>in_syncGroups := (in_nextPtr i, []) # in_syncGroups i, in_nextPtr := in_nextPtr i + 1\<rparr>)"

fun erase_group :: "nat \<Rightarrow> (nat \<times> ListEntry list) list \<Rightarrow> (nat \<times> ListEntry list) list" where
  "erase_group p [] = []"
| "erase_group p (g # gs) = (if fst g = p then gs else g # erase_group p gs)"

definition releaseFlowSynchronizationGroup :: "nat \<Rightarrow> Instance \<Rightarrow> Instance" where
  "releaseFlowSynchronizationGroup p i = i\<lparr>in_syncGroups := erase_group p (in_syncGroups i)\<rparr>"

section \<open>What is collected\<close>

text \<open>A flow without any lock: no writer uses it.\<close>

definition unused_flow :: "posix \<Rightarrow> path \<Rightarrow> bool" where
  "unused_flow s p \<longleftrightarrow> is_flow_directory s p \<and>
     (case lookup s (makeFlowDataFilePath p) of Some (Regular ino) \<Rightarrow> locks_of s ino = [] | _ \<Rightarrow> False)"

text \<open>The files of a machine without those at or below some directories.\<close>

definition without :: "path set \<Rightarrow> posix \<Rightarrow> posix \<Rightarrow> bool" where
  "without D s t \<longleftrightarrow>
     px_nodes t = filter (\<lambda>(q, _). \<forall>p \<in> D. \<not> below p q) (px_nodes s) \<and> locks_of t = locks_of s \<and>
     content_of t = content_of s \<and> posix_ok t"

lemma map_of_filter_key: "map_of (filter (\<lambda>(k, _). P k) xs) k = (if P k then map_of xs k else None)"
  by (induction xs) auto

lemma without_lookup: "without D s t \<Longrightarrow> lookup t q = (if \<forall>p \<in> D. \<not> below p q then lookup s q else None)"
  unfolding without_def lookup_def by (simp add: map_of_filter_key)

lemma siblings_disjoint:
  assumes "butlast p = d" "butlast q = d" "p \<noteq> []" "q \<noteq> []" "below p r" "below q r"
  shows "p = q"
proof -
  have "length p = length q"
    using assms(1-4) by (metis append_butlast_last_id length_append_singleton)
  then show ?thesis
    using assms(5,6) by (auto simp: below_def prefix_def append_eq_append_conv)
qed

lemma flock_exclusive:
  assumes "flt Call_flock p = None" "posix_ok s" "unlocked_fd fd s"
  shows "\<exists>s'. flock_nb flt p fd ino LOCK_EX s = ((if locks_of s ino = [] then None else Some EWOULDBLOCK), s') \<and>
    locks_of (close_fd fd ino s') = locks_of s \<and> px_nodes s' = px_nodes s \<and> content_of s' = content_of s \<and>
    px_nextFd s' = px_nextFd s \<and> px_nextIno s' = px_nextIno s"
proof -
  have others: "filter (\<lambda>e. fst e \<noteq> fd) (locks_of s ino) = locks_of s ino"
    using filter_unlocked [OF assms(3)] .
  have "conflicts fd LOCK_EX (locks_of s ino) \<longleftrightarrow> locks_of s ino \<noteq> []"
  proof (cases "locks_of s ino")
    case Nil
    then show ?thesis
      by (simp add: conflicts_def)
  next
    case (Cons e es)
    then have "(fst e, snd e) \<in> set (locks_of s ino)"
      by simp
    then have "fst e \<noteq> fd"
      using assms(3) unfolding unlocked_fd_def by metis
    with Cons show ?thesis
      by (cases e) (simp add: conflicts_def)
  qed
  moreover have "(fd, LOCK_EX) \<notin> set (locks_of s ino)"
    using assms(3) by (simp add: unlocked_fd_def)
  ultimately show ?thesis
    using assms(1) others by (auto simp: flock_nb_def Let_def close_fd_def posix_simps)
qed

lemma collect_entry_step:
  assumes "without D s t" "p \<notin> D" "\<And>q. q \<in> insert p D \<Longrightarrow> q \<noteq> [] \<and> butlast q = d"
    and flt: "\<And>c q. flt c q = None"
  shows "\<exists>t'. collect_entry flt p (n, t) =
      (if unused_flow s p then n + 1 else n, t') \<and> without (if unused_flow s p then insert p D else D) s t'"
proof -
  have same: "lookup t q = lookup s q" if "below p q" for q
    using that without_lookup [OF assms(1)] siblings_disjoint [of p d _ q] assms(2,3) by (metis insertCI)
  have data: "below p (makeFlowDataFilePath p)" "below p p"
    by (simp_all add: below_def makeFlowDataFilePath_def)
  have dir: "is_flow_directory t p \<longleftrightarrow> is_flow_directory s p"
    by (simp add: is_flow_directory_def is_directory_def same data)
  let ?l = "lookup s (makeFlowDataFilePath p)"
  show ?thesis
  proof (cases "is_flow_directory s p \<and> (\<exists>ino. ?l = Some (Regular ino))")
    case False
    then have "collect_entry flt p (n, t) = (n, t)" "\<not> unused_flow s p"
      using flt dir same [OF data(1)]
      by (auto simp: collect_entry_def unused_flow_def path_exists_def open_existing_def Let_def split: node.splits option.splits)
    then show ?thesis
      using assms(1) by auto
  next
    case True
    then obtain ino where ino: "?l = Some (Regular ino)" "is_flow_directory s p" by blast
    let ?u = "t\<lparr>px_nextFd := px_nextFd t + 1\<rparr>" and ?fd = "px_nextFd t"
    have t: "posix_ok t" "locks_of t = locks_of s" "content_of t = content_of s"
      using assms(1) by (auto simp: without_def)
    have op: "open_existing flt (makeFlowDataFilePath p) t = (Inr (?fd, ino), ?u)"
      using flt ino(1) same [OF data(1)] by (simp add: open_existing_def fresh_fd_def)
    have u: "posix_ok ?u" "locks_of ?u = locks_of s" "unlocked_fd ?fd ?u"
      using posix_ok_fresh_fd [OF t(1)] t posix_ok_nextFd [OF t(1)] by (auto simp: posix_simps unlocked_fd_def)
    obtain v where v: "flock_nb flt (makeFlowDataFilePath p) ?fd ino LOCK_EX ?u =
        ((if locks_of s ino = [] then None else Some EWOULDBLOCK), v)"
      "locks_of (close_fd ?fd ino v) = locks_of s" "px_nodes v = px_nodes t" "content_of v = content_of t"
      "px_nextFd v = px_nextFd ?u" "px_nextIno v = px_nextIno t"
      using flock_exclusive [of flt "makeFlowDataFilePath p" ?u ?fd ino, OF flt u(1,3)] u(2)
      by (auto simp: posix_simps)
    let ?w = "close_fd ?fd ino v"
    have "posix_ok ?w"
      using v u(1,2) by (intro posix_ok_frame [OF u(1)]) (simp_all add: close_fd_def posix_simps)
    then have w: "without D s ?w"
      using assms(1) v by (simp add: without_def close_fd_def posix_simps t)
    have run: "collect_entry flt p (n, t) =
        (if locks_of s ino \<noteq> [] then (n, ?w)
         else case remove_all flt p ?w of (Inl e, s) \<Rightarrow> (n, s) | (Inr k, s) \<Rightarrow> (n + 1, s))"
      using ino dir same [OF data(1)] op v(1) by (simp add: collect_entry_def path_exists_def Let_def)
    show ?thesis
    proof (cases "locks_of s ino = []")
      case False
      then show ?thesis
        using run w ino by (simp add: unused_flow_def)
    next
      case True
      let ?x = "?w\<lparr>px_nodes := filter (\<lambda>(q, _). \<not> below p q) (px_nodes ?w)\<rparr>"
      have "posix_ok ?x"
        using w by (intro posix_ok_subset) (auto simp: without_def)
      then have "without (insert p D) s ?x"
        using w by (auto simp: without_def posix_simps intro!: filter_cong)
      then show ?thesis
        using run ino True flt by (simp add: unused_flow_def remove_all_def)
    qed
  qed
qed

lemma collect_all:
  assumes "without D s t" "distinct ps" "set ps \<inter> D = {}" "\<And>q. q \<in> set ps \<union> D \<Longrightarrow> q \<noteq> [] \<and> butlast q = d"
    and flt: "\<And>c q. flt c q = None"
  shows "\<exists>t'. fold (collect_entry flt) ps (n, t) = (n + length (filter (unused_flow s) ps), t') \<and>
    without (D \<union> set (filter (unused_flow s) ps)) s t'"
  using assms(1-4)
proof (induction ps arbitrary: n D t)
  case (Cons p ps)
  obtain t1 where t1: "collect_entry flt p (n, t) = (if unused_flow s p then n + 1 else n, t1)"
      "without (if unused_flow s p then insert p D else D) s t1"
    using collect_entry_step [OF Cons.prems(1), of p d flt n] Cons.prems(3,4) flt by auto
  show ?case
    using Cons.IH [OF t1(2), of "if unused_flow s p then n + 1 else n"] Cons.prems t1(1) by (auto split: if_splits)
qed simp


section \<open>Witness\<close>

text \<open>Of the two flows of the domain, the first has a writer.\<close>

definition two_flows :: posix where
  "two_flows =
     \<lparr>px_nodes = [([''d''], Directory), ([''d'', ''a.mxl-flow''], Directory), ([''d'', ''a.mxl-flow'', ''data''], Regular 0),
        ([''d'', ''b.mxl-flow''], Directory), ([''d'', ''b.mxl-flow'', ''data''], Regular 1)],
      px_inodes = (\<lambda>i. \<lparr>in_content = Zeros, in_size = 0, in_locks = (if i = 0 then [(7, LOCK_SH)] else [])\<rparr>),
      px_nextIno = 2, px_nextFd = 8\<rparr>"

lemma two_flows_unused:
  "filter (unused_flow two_flows) (directory_entries two_flows [''d'']) = [[''d'', ''b.mxl-flow'']]"
  by code_simp

lemma two_flows_all:
  "(\<forall>p \<in> set (directory_entries two_flows [''d'']). unused_flow two_flows p \<longrightarrow> Q p) \<longleftrightarrow> Q [''d'', ''b.mxl-flow'']"
proof -
  have "(\<forall>p \<in> set ps. P p \<longrightarrow> Q p) \<longleftrightarrow> list_all Q (filter P ps)" for ps and P :: "path \<Rightarrow> bool"
    by (induction ps) auto
  then show ?thesis
    by (simp add: two_flows_unused)
qed


end
