(* ===== verification/FlowCreation.thy ===== *)
theory FlowCreation
  imports FlowManager
begin

text \<open>
  What creating and opening flows does to the files and locks of the machine: a small calculus of the
  mappings that an action takes over and gives back, and with it the outcomes of the manager's
  create-or-open functions, whatever call fails.
\<close>

section \<open>Working inside a directory\<close>

text \<open>
  \<open>open_below dir s hs t\<close>: since the state \<open>s\<close>, files and directories have only been added below \<open>dir\<close>,
  the content of every older file is what it was, and the locks are those of \<open>s\<close> and of the mappings \<open>hs\<close>.
\<close>

definition held_by :: "SharedMemoryBase list \<Rightarrow> nat \<Rightarrow> (nat \<times> lock) set" where
  "held_by hs ino = {e. \<exists>h \<in> set hs. holds h ino e}"

definition grown_below :: "path \<Rightarrow> posix \<Rightarrow> posix \<Rightarrow> bool" where
  "grown_below dir s t \<longleftrightarrow>
     px_nextIno s \<le> px_nextIno t \<and> px_nextFd s \<le> px_nextFd t \<and>
     (\<exists>new. px_nodes t = new @ px_nodes s \<and>
        (\<forall>(p, n) \<in> set new. below dir p \<and> (\<forall>i. n = Regular i \<longrightarrow> px_nextIno s \<le> i))) \<and>
     (\<forall>i < px_nextIno s. content_of t i = content_of s i)"

definition handles_since :: "posix \<Rightarrow> SharedMemoryBase list \<Rightarrow> posix \<Rightarrow> bool" where
  "handles_since s hs t \<longleftrightarrow>
     distinct (map sm_fd hs) \<and> (\<forall>h \<in> set hs. px_nextFd s \<le> sm_fd h \<and> sm_fd h < px_nextFd t) \<and>
     (\<forall>ino. set (locks_of t ino) = set (locks_of s ino) \<union> held_by hs ino)"

definition open_below :: "path \<Rightarrow> posix \<Rightarrow> SharedMemoryBase list \<Rightarrow> posix \<Rightarrow> bool" where
  "open_below dir s hs t \<longleftrightarrow> posix_ok s \<and> posix_ok t \<and> grown_below dir s t \<and> handles_since s hs t"

lemma held_by_simps [simp]:
  "held_by [] ino = {}"
  "held_by (h # hs) ino = {e. holds h ino e} \<union> held_by hs ino"
  "held_by (hs @ ks) ino = held_by hs ino \<union> held_by ks ino"
  by (auto simp: held_by_def)

lemma grown_below_refl: "grown_below dir s s"
  by (simp add: grown_below_def)

lemma open_below_refl: "posix_ok s \<Longrightarrow> open_below dir s [] s"
  by (simp add: open_below_def grown_below_refl handles_since_def)

lemma grown_below_same:
  assumes "grown_below dir s t" "px_nodes u = px_nodes t" "px_nextIno u = px_nextIno t" "px_nextFd t \<le> px_nextFd u"
    "\<forall>i < px_nextIno s. content_of u i = content_of t i"
  shows "grown_below dir s u"
  using assms by (auto simp: grown_below_def)

lemma grown_below_le:
  "grown_below dir s t \<Longrightarrow> px_nextIno s \<le> px_nextIno t" "grown_below dir s t \<Longrightarrow> px_nextFd s \<le> px_nextFd t"
  "grown_below dir s t \<Longrightarrow> i < px_nextIno s \<Longrightarrow> content_of t i = content_of s i"
  by (simp_all add: grown_below_def)

lemma grown_below_add:
  assumes "grown_below dir s t" "px_nodes u = (p, n) # px_nodes t" "below dir p" "\<And>i. n = Regular i \<Longrightarrow> px_nextIno s \<le> i"
    "px_nextIno t \<le> px_nextIno u" "px_nextFd t \<le> px_nextFd u" "\<forall>i < px_nextIno s. content_of u i = content_of t i"
  shows "grown_below dir s u"
proof -
  obtain new where "px_nodes t = new @ px_nodes s"
      "\<forall>(p, n) \<in> set new. below dir p \<and> (\<forall>i. n = Regular i \<longrightarrow> px_nextIno s \<le> i)"
    using assms(1) by (auto simp: grown_below_def)
  then have "px_nodes u = ((p, n) # new) @ px_nodes s \<and>
      (\<forall>(p, n) \<in> set ((p, n) # new). below dir p \<and> (\<forall>i. n = Regular i \<longrightarrow> px_nextIno s \<le> i))"
    using assms(2-4) by simp
  then have "\<exists>new. px_nodes u = new @ px_nodes s \<and>
      (\<forall>(p, n) \<in> set new. below dir p \<and> (\<forall>i. n = Regular i \<longrightarrow> px_nextIno s \<le> i))"
    by blast
  then show ?thesis
    using grown_below_le [OF assms(1)] assms(5-7) unfolding grown_below_def by simp
qed

text \<open>Opening a mapping.\<close>

lemma lock_type_eq: "lock_type a = lock_type b \<longleftrightarrow> a = b"
  by (cases a rule: lock_type.cases; cases b rule: lock_type.cases) auto

lemma handles_since_mapped:
  assumes "handles_since s hs t" "mapped_file p mode lm n t h u" "px_nextFd s \<le> px_nextFd t"
  shows "handles_since s (h # hs) u"
proof -
  note m = assms(2) [unfolded mapped_file_def]
  have "set (locks_of u ino) = set (locks_of t ino) \<union> {e. holds h ino e}" for ino
    using m by (auto simp: add_lock_iff holds_def lock_type_eq)
  then show ?thesis
    using assms m by (auto simp: handles_since_def)
qed

lemma grown_below_mapped:
  assumes "grown_below dir s t" "mapped_file p mode lm n t h u" "created h \<Longrightarrow> below dir p"
  shows "grown_below dir s u"
proof (cases "created h")
  case True
  then have u: "px_nodes u = (p, Regular (px_nextIno t)) # px_nodes t" "px_nextIno u = px_nextIno t + 1"
      "px_nextFd u = px_nextFd t + 1" "content_of u = (content_of t)(px_nextIno t := Zeros)"
    using assms(2) by (simp_all add: mapped_file_def new_file_at_def)
  show ?thesis
    using assms(1) u True assms(3) grown_below_le [OF assms(1)]
    by (intro grown_below_add [OF assms(1) u(1)]) auto
next
  case False
  then have u: "px_nodes u = px_nodes t" "px_nextIno u = px_nextIno t" "px_nextFd u = px_nextFd t + 1" "content_of u = content_of t"
    using assms(2) by (simp_all add: mapped_file_def same_files_def)
  show ?thesis
    by (rule grown_below_same [OF assms(1)]) (simp_all add: u)
qed

lemma open_below_mapped:
  assumes "open_below dir s hs t" "mapped_file p mode lm n t h u" "posix_ok u" "created h \<Longrightarrow> below dir p"
  shows "open_below dir s (h # hs) u"
  using assms handles_since_mapped grown_below_mapped unfolding open_below_def
  by (metis grown_below_def)

lemma open_below_failed:
  assumes "open_below dir s hs t" "ctor_failed p mode t u" "posix_ok u" "mode = CREATE_READ_WRITE \<Longrightarrow> below dir p"
  shows "open_below dir s hs u"
proof -
  have h: "handles_since s hs u"
    using assms by (auto simp: open_below_def handles_since_def ctor_failed_def intro: less_le_trans)
  have g: "grown_below dir s t"
    using assms(1) by (simp add: open_below_def)
  have fd: "px_nextFd t \<le> px_nextFd u"
    using assms(2) by (simp add: ctor_failed_def)
  have "grown_below dir s u"
  proof (cases "px_nodes u = px_nodes t")
    case True
    then show ?thesis
      using assms(2) by (intro grown_below_same [OF g True]) (auto simp: ctor_failed_def)
  next
    case False
    then have u: "px_nodes u = (p, Regular (px_nextIno t)) # px_nodes t" "px_nextIno u = px_nextIno t + 1"
      "content_of u = (content_of t)(px_nextIno t := Zeros)" "below dir p"
      using assms(2,4) by (auto simp: ctor_failed_def)
    show ?thesis
      using u fd grown_below_le [OF g] by (intro grown_below_add [OF g u(1)]) auto
  qed
  with h show ?thesis
    using assms by (simp add: open_below_def)
qed

text \<open>Closing mappings.\<close>

lemma handles_since_close:
  assumes "handles_since s (as @ h # bs) t" "posix_ok s"
  shows "handles_since s (as @ bs) (SharedMemory_dtor h t)"
proof -
  have new: "e \<in> set (locks_of s ino) \<Longrightarrow> fst e \<noteq> sm_fd h" for e ino
    using assms by (fastforce simp: handles_since_def posix_ok_def lock_list_ok_def)
  have other: "k \<in> set (as @ bs) \<Longrightarrow> sm_fd k \<noteq> sm_fd h" for k
    using assms(1) by (auto simp: handles_since_def image_iff)
  have "set (locks_of (SharedMemory_dtor h t) ino) = set (locks_of s ino) \<union> held_by (as @ bs) ino" for ino
  proof (intro equalityI subsetI)
    fix e assume "e \<in> set (locks_of (SharedMemory_dtor h t) ino)"
    then have "e \<in> set (locks_of t ino)" "ino = sm_ino h \<longrightarrow> fst e \<noteq> sm_fd h"
      by (simp_all add: dtor_locks)
    then show "e \<in> set (locks_of s ino) \<union> held_by (as @ bs) ino"
      using assms(1) by (auto simp: handles_since_def holds_def)
  next
    fix e assume e: "e \<in> set (locks_of s ino) \<union> held_by (as @ bs) ino"
    then have "e \<in> set (locks_of t ino)"
      using assms(1) by (auto simp: handles_since_def)
    moreover have "fst e \<noteq> sm_fd h"
    proof (cases "e \<in> set (locks_of s ino)")
      case True
      then show ?thesis by (rule new)
    next
      case False
      then obtain k where "k \<in> set (as @ bs)" "holds k ino e"
        using e unfolding held_by_def by blast
      then show ?thesis
        using other [of k] by (simp add: holds_def)
    qed
    ultimately show "e \<in> set (locks_of (SharedMemory_dtor h t) ino)"
      unfolding dtor_locks by blast
  qed
  then show ?thesis
    using assms(1) by (auto simp: handles_since_def dtor_frame)
qed

lemma open_below_close:
  assumes "open_below dir s (as @ h # bs) t"
  shows "open_below dir s (as @ bs) (SharedMemory_dtor h t)"
proof -
  have "posix_ok (SharedMemory_dtor h t)"
    using assms posix_ok_close by (simp add: open_below_def SharedMemory_dtor_def)
  moreover have "grown_below dir s (SharedMemory_dtor h t)"
    using grown_below_same [of dir s t "SharedMemory_dtor h t"] assms by (simp add: open_below_def dtor_frame)
  moreover have "handles_since s (as @ bs) (SharedMemory_dtor h t)"
    using assms handles_since_close unfolding open_below_def by blast
  ultimately show ?thesis
    using assms unfolding open_below_def by blast
qed

lemma open_below_close_all:
  "open_below dir s (hs @ ks) t \<Longrightarrow> open_below dir s ks (fold SharedMemory_dtor hs t)"
proof (induction hs arbitrary: t)
  case (Cons h hs)
  then have "open_below dir s (hs @ ks) (SharedMemory_dtor h t)"
    using open_below_close [of dir s "[]" h "hs @ ks" t] by simp
  then show ?case
    using Cons.IH by simp
qed simp

lemma open_below_move: "open_below dir s (h # as @ bs) t \<Longrightarrow> open_below dir s (as @ h # bs) t"
  by (auto simp: open_below_def handles_since_def)

lemma open_below_dtor:
  "open_below dir s (flow_handles d @ ks) t \<Longrightarrow> open_below dir s ks (FlowData_dtor d t)"
  by (simp add: FlowData_dtor_def open_below_close_all)

section \<open>What an action takes and gives\<close>

text \<open>
  \<open>acquires dir s ks m new Q\<close>: the action \<open>m\<close> takes over the mappings \<open>ks\<close>. When it returns \<open>x\<close>, the open
  mappings are \<open>new x\<close>, and \<open>Q x\<close> holds; when it throws, it has closed all of them. Files appear
  below \<open>dir\<close> only.
\<close>

definition acquires ::
  "path \<Rightarrow> posix \<Rightarrow> SharedMemoryBase list \<Rightarrow> (posix, 'a) act \<Rightarrow> ('a \<Rightarrow> SharedMemoryBase list) \<Rightarrow> ('a \<Rightarrow> bool) \<Rightarrow> bool" where
  "acquires dir s ks m new Q \<longleftrightarrow>
     (\<forall>hs t. open_below dir s (ks @ hs) t \<longrightarrow>
        (case m t of
           (Ret x, u) \<Rightarrow> Q x \<and> open_below dir s (new x @ hs) u
         | (Throw e, u) \<Rightarrow> open_below dir s hs u
         | (Undef, u) \<Rightarrow> True))"

lemma acquiresI:
  assumes "\<And>hs t r u. open_below dir s (ks @ hs) t \<Longrightarrow> m t = (r, u) \<Longrightarrow>
      (\<forall>x. r = Ret x \<longrightarrow> Q x \<and> open_below dir s (new x @ hs) u) \<and> (\<forall>e. r = Throw e \<longrightarrow> open_below dir s hs u)"
  shows "acquires dir s ks m new Q"
  unfolding acquires_def using assms by (auto split: prod.splits res.splits)

lemma acquiresD:
  assumes "acquires dir s ks m new Q" "open_below dir s (ks @ hs) t" "m t = (r, u)"
  shows "r = Ret x \<Longrightarrow> Q x" "r = Ret x \<Longrightarrow> open_below dir s (new x @ hs) u" "r = Throw e \<Longrightarrow> open_below dir s hs u"
proof -
  note post = assms(1) [unfolded acquires_def, rule_format, OF assms(2), unfolded assms(3)]
  show "r = Ret x \<Longrightarrow> Q x" "r = Ret x \<Longrightarrow> open_below dir s (new x @ hs) u" "r = Throw e \<Longrightarrow> open_below dir s hs u"
    using post by simp_all
qed

lemma acquires_weaken:
  assumes "acquires dir s ks m new Q" "\<And>x. Q x \<Longrightarrow> Q' x" "\<And>x. Q x \<Longrightarrow> new x = new' x"
  shows "acquires dir s ks m new' Q'"
proof (rule acquiresI)
  fix hs t r u
  assume "open_below dir s (ks @ hs) t" "m t = (r, u)"
  then show "(\<forall>x. r = Ret x \<longrightarrow> Q' x \<and> open_below dir s (new' x @ hs) u) \<and> (\<forall>e. r = Throw e \<longrightarrow> open_below dir s hs u)"
    using acquiresD [OF assms(1)] assms(2,3) by metis
qed

lemma acquires_cases:
  assumes "\<And>t. \<exists>m'. m t = m' t \<and> acquires dir s ks m' new Q"
  shows "acquires dir s ks m new Q"
proof (rule acquiresI)
  fix hs t r u
  assume t: "open_below dir s (ks @ hs) t" and run: "m t = (r, u)"
  obtain m' where "m t = m' t" "acquires dir s ks m' new Q"
    using assms by blast
  then show "(\<forall>x. r = Ret x \<longrightarrow> Q x \<and> open_below dir s (new x @ hs) u) \<and> (\<forall>e. r = Throw e \<longrightarrow> open_below dir s hs u)"
    using run acquiresD [OF _ t] by metis
qed

lemma acquires_if:
  "(b \<Longrightarrow> acquires dir s ks m new Q) \<Longrightarrow> (\<not> b \<Longrightarrow> acquires dir s ks m' new Q) \<Longrightarrow>
     acquires dir s ks (\<lambda>t. if b then m t else m' t) new Q"
  by (cases b) simp_all

lemma acquires_return: "Q x \<Longrightarrow> new x = ks \<Longrightarrow> acquires dir s ks (return_act x) new Q"
  by (rule acquiresI) (auto simp: return_act_def)

lemma acquires_throw: "acquires dir s [] (throw_act e) new Q"
  by (rule acquiresI) (auto simp: throw_act_def)

lemma acquires_lift: "(\<And>x. r = Ret x \<Longrightarrow> Q x \<and> new x = []) \<Longrightarrow> acquires dir s [] (lift_act r) new Q"
  by (rule acquiresI) (auto simp: lift_act_def)

lemma acquires_bind:
  assumes "acquires dir s ks m new1 Q1" "\<And>x. Q1 x \<Longrightarrow> acquires dir s (new1 x) (f x) new2 Q2"
  shows "acquires dir s ks (bind_act m f) new2 Q2"
proof (rule acquiresI)
  fix hs t r u
  assume t: "open_below dir s (ks @ hs) t" and "bind_act m f t = (r, u)"
  from this(2) show "(\<forall>x. r = Ret x \<longrightarrow> Q2 x \<and> open_below dir s (new2 x @ hs) u) \<and> (\<forall>e. r = Throw e \<longrightarrow> open_below dir s hs u)"
  proof (cases rule: bind_act_cases)
    case (ret x v)
    then show ?thesis
      using acquiresD(1,2) [OF assms(1) t ret(1) refl] acquiresD [OF assms(2)] by blast
  next
    case (exn e)
    then show ?thesis
      using acquiresD(3) [OF assms(1) t exn(1) refl] by simp
  qed auto
qed

lemma acquires_bind_lift:
  "(\<And>x. r = Ret x \<Longrightarrow> acquires dir s [] (f x) new Q) \<Longrightarrow> acquires dir s [] (bind_act (lift_act r) f) new Q"
  by (rule acquires_bind [where ?Q1.0 = "\<lambda>x. r = Ret x" and ?new1.0 = "\<lambda>_. []"], rule acquires_lift) auto

text \<open>Mappings held in the scope around an action are closed when it throws, and stay open when it returns.\<close>

lemma acquires_unwind:
  assumes "acquires dir s js m new Q" "\<And>hs t. open_below dir s (ks @ hs) t \<Longrightarrow> open_below dir s hs (cl t)"
    "\<And>hs t. open_below dir s (ls @ hs) t \<Longrightarrow> open_below dir s (js @ ks @ hs) t"
    "\<And>x hs t. open_below dir s (new x @ ks @ hs) t \<Longrightarrow> open_below dir s (new' x @ hs) t"
  shows "acquires dir s ls (unwind cl m) new' Q"
proof (rule acquiresI)
  fix hs t r u
  assume "open_below dir s (ls @ hs) t" and run: "unwind cl m t = (r, u)"
  then have t: "open_below dir s (js @ ks @ hs) t"
    using assms(3) by blast
  from run show "(\<forall>x. r = Ret x \<longrightarrow> Q x \<and> open_below dir s (new' x @ hs) u) \<and> (\<forall>e. r = Throw e \<longrightarrow> open_below dir s hs u)"
  proof (cases rule: unwind_cases)
    case (exn e v)
    then show ?thesis
      using acquiresD(3) [OF assms(1) t exn(1) refl] assms(2) by simp
  next
    case normal
    then show ?thesis
      using acquiresD(1,2) [OF assms(1) t normal(1)] assms(4) by blast
  qed
qed

lemma open_below_perm:
  assumes "open_below dir s hs t" "set ks = set hs" "distinct (map sm_fd ks)"
  shows "open_below dir s ks t"
  using assms by (auto simp: open_below_def handles_since_def held_by_def)

lemma open_below_swap: "open_below dir s (as @ bs @ cs) t \<Longrightarrow> open_below dir s (bs @ as @ cs) t"
  by (rule open_below_perm, assumption) (auto simp: open_below_def handles_since_def)

text \<open>Nothing is at or below a path; what is there later is new.\<close>

definition vacant :: "path \<Rightarrow> posix \<Rightarrow> bool" where
  "vacant dir s \<longleftrightarrow> (\<forall>(q, n) \<in> set (px_nodes s). \<not> below dir q)"

lemma fresh_below:
  assumes "open_below dir s hs t" "vacant dir s" "below dir p" "lookup t p = Some (Regular i)"
  shows "px_nextIno s \<le> i"
proof -
  obtain new where new: "px_nodes t = new @ px_nodes s"
      "\<forall>(p, n) \<in> set new. below dir p \<and> (\<forall>i. n = Regular i \<longrightarrow> px_nextIno s \<le> i)"
    using assms(1) by (auto simp: open_below_def grown_below_def)
  moreover have "(p, Regular i) \<in> set (px_nodes t)"
    using assms(4) by (auto simp: lookup_def dest: map_of_SomeD)
  ultimately show ?thesis
    using assms(2,3) by (auto simp: vacant_def)
qed

lemma posix_ok_content: "posix_ok (set_content i c t) \<longleftrightarrow> posix_ok t" "posix_ok (set_size i n t) \<longleftrightarrow> posix_ok t"
  by (simp_all add: posix_ok_def posix_simps)

lemma open_below_frame:
  assumes "open_below dir s hs t" "posix_ok u" "grown_below dir s u" "locks_of u = locks_of t" "px_nextFd u = px_nextFd t"
  shows "open_below dir s hs u"
  using assms by (simp add: open_below_def handles_since_def)

lemma open_below_content:
  assumes "open_below dir s hs t" "px_nextIno s \<le> i"
  shows "open_below dir s hs (set_content i c t)" "open_below dir s hs (set_size i n t)"
proof -
  have g: "grown_below dir s t" "posix_ok t"
    using assms(1) by (auto simp: open_below_def)
  show "open_below dir s hs (set_content i c t)"
    using g assms(2)
    by (intro open_below_frame [OF assms(1)] grown_below_same [OF g(1)]) (auto simp: posix_simps posix_ok_content)
  show "open_below dir s hs (set_size i n t)"
    using g assms(2)
    by (intro open_below_frame [OF assms(1)] grown_below_same [OF g(1)]) (auto simp: posix_simps posix_ok_content)
qed

lemma open_below_mkdir:
  assumes "make_directory flt c p t = (r, u)" "open_below dir s hs t" "below dir p"
  shows "open_below dir s hs u"
proof (cases "u = t")
  case False
  then have u: "u = t\<lparr>px_nodes := (p, Directory) # px_nodes t\<rparr>"
    using assms(1) by (auto simp: make_directory_def split: option.splits if_splits)
  have g: "grown_below dir s t" "posix_ok t"
    using assms(2) by (auto simp: open_below_def)
  have "posix_ok u"
    using g(2) u by (auto simp: posix_ok_def posix_simps)
  moreover have "grown_below dir s u"
    using g(1) assms(3) by (intro grown_below_add [OF g(1), of u p Directory]) (auto simp: u posix_simps)
  ultimately show ?thesis
    by (intro open_below_frame [OF assms(2)]) (simp_all add: u posix_simps)
qed (use assms in simp)

lemma fresh_file_content: "i \<noteq> px_nextIno s \<Longrightarrow> content_of (snd (fresh_file p s)) i = content_of s i"
  by (simp add: fresh_file_def content_of_def set_inode_def)

lemma open_below_fresh_file:
  assumes "open_below dir s hs t" "below dir p"
  shows "open_below dir s hs (snd (fresh_file p t))"
proof -
  have g: "grown_below dir s t" "posix_ok t"
    using assms(1) by (auto simp: open_below_def)
  have "locks_of (snd (fresh_file p t)) = locks_of t"
    using g(2) by (auto simp: posix_simps posix_ok_def)
  moreover have "grown_below dir s (snd (fresh_file p t))"
    using grown_below_le [OF g(1)] assms(2)
    by (intro grown_below_add [OF g(1), of _ p "Regular (px_nextIno t)"]) (auto simp: posix_simps fresh_file_content)
  ultimately show ?thesis
    using posix_ok_fresh_file [OF g(2)] by (intro open_below_frame [OF assms(1)]) (simp_all add: posix_simps)
qed

lemma acquires_write_file:
  assumes "below dir p" "vacant dir s"
  shows "acquires dir s [] (write_file flt p txt e) (\<lambda>_. []) (\<lambda>_. True)"
proof (rule acquiresI)
  fix hs t r u
  assume "open_below dir s ([] @ hs) t" and w: "write_file flt p txt e t = (r, u)"
  then have t: "open_below dir s hs t" by simp
  have "open_below dir s hs u"
  proof (cases "u = t")
    case False
    then consider i where "lookup t p = Some (Regular i)" "u = set_size i (length txt) (set_content i (Text txt) t)"
      | "u = set_size (px_nextIno t) (length txt) (set_content (px_nextIno t) (Text txt) (snd (fresh_file p t)))"
      using w by (auto simp: write_file_def Let_def posix_simps split: option.splits node.splits if_splits prod.splits)
        (metis fst_conv snd_conv fresh_file_simps(1))
    then show ?thesis
    proof cases
      case 1
      then show ?thesis
        using open_below_content [OF open_below_content(1) [OF t]] fresh_below [OF t assms(2,1)] open_below_content t by metis
    next
      case 2
      have "px_nextIno s \<le> px_nextIno t"
        using t by (simp add: open_below_def grown_below_def)
      then show ?thesis
        using 2 open_below_content open_below_fresh_file [OF t assms(1)] by simp
    qed
  qed (use t in simp)
  then show "(\<forall>x. r = Ret x \<longrightarrow> True \<and> open_below dir s ([] @ hs) u) \<and> (\<forall>e. r = Throw e \<longrightarrow> open_below dir s hs u)"
    by simp
qed

text \<open>What is known of a mapping of \<open>p\<close>: a file below a directory that was vacant is a new one.\<close>

definition mapped_at :: "path \<Rightarrow> posix \<Rightarrow> path \<Rightarrow> AccessMode \<Rightarrow> SharedMemoryBase \<Rightarrow> bool" where
  "mapped_at dir s p mode h \<longleftrightarrow>
     (below dir p \<and> vacant dir s \<longrightarrow> px_nextIno s \<le> sm_ino h) \<and> (mode \<noteq> CREATE_READ_WRITE \<longrightarrow> \<not> created h)"

lemma mapped_at_simps:
  "below dir p \<Longrightarrow> vacant dir s \<Longrightarrow> mapped_at dir s p mode h \<Longrightarrow> px_nextIno s \<le> sm_ino h"
  "mode \<noteq> CREATE_READ_WRITE \<Longrightarrow> mapped_at dir s p mode h \<Longrightarrow> \<not> created h"
  by (simp_all add: mapped_at_def)

lemma acquires_ctor:
  assumes "mode = CREATE_READ_WRITE \<Longrightarrow> below dir p"
  shows "acquires dir s [] (SharedMemory_ctor flt p mode n lm) (\<lambda>h. [h]) (mapped_at dir s p mode)"
proof (rule acquiresI)
  fix hs t r u
  assume "open_below dir s ([] @ hs) t" and c: "SharedMemory_ctor flt p mode n lm t = (r, u)"
  then have t: "open_below dir s hs t" by simp
  have ok: "posix_ok t" "grown_below dir s t"
    using t by (auto simp: open_below_def)
  from SharedMemory_ctor_spec [OF c ok(1)]
  have u: "posix_ok u" "(\<exists>h. r = Ret h \<and> mapped_file p mode lm n t h u) \<or> ((\<exists>e. r = Throw e) \<and> ctor_failed p mode t u)"
    by auto
  show "(\<forall>x. r = Ret x \<longrightarrow> mapped_at dir s p mode x \<and> open_below dir s ([x] @ hs) u) \<and>
      (\<forall>e. r = Throw e \<longrightarrow> open_below dir s hs u)"
    using u(2)
  proof (elim disjE exE conjE)
    fix h assume h: "r = Ret h" "mapped_file p mode lm n t h u"
    have cr: "created h \<Longrightarrow> mode = CREATE_READ_WRITE \<and> sm_ino h = px_nextIno t"
      using h(2) by (simp add: mapped_file_def)
    have "px_nextIno s \<le> sm_ino h" if "below dir p" "vacant dir s"
    proof (cases "created h")
      case False
      then have "lookup t p = Some (Regular (sm_ino h))"
        using h(2) by (simp add: mapped_file_def)
      then show ?thesis
        using that fresh_below [OF t] by blast
    qed (use cr grown_below_le [OF ok(2)] in simp)
    then have "mapped_at dir s p mode h"
      using cr by (auto simp: mapped_at_def)
    moreover have "open_below dir s (h # hs) u"
      using open_below_mapped [OF t h(2) u(1)] cr assms by blast
    ultimately show ?thesis
      using h(1) by auto
  next
    fix e assume "r = Throw e" "ctor_failed p mode t u"
    then show ?thesis
      using open_below_failed [OF t _ u(1)] assms by auto
  qed
qed

lemma acquires_instance:
  assumes "mode = CREATE_READ_WRITE \<Longrightarrow> below dir p \<and> vacant dir s"
  shows "acquires dir s [] (SharedMemoryInstance_ctor n c flt p mode m lm) (\<lambda>h. [h]) (mapped_at dir s p mode)"
  unfolding SharedMemoryInstance_ctor_def
proof (rule acquires_bind [OF acquires_ctor], use assms in blast)
  fix h assume q: "mapped_at dir s p mode h"
  have "created h \<Longrightarrow> px_nextIno s \<le> sm_ino h"
    using q assms by (auto simp: mapped_at_def)
  then show "acquires dir s [h] (\<lambda>s. if created h then if sm_mappedSize h < m + n then (Throw RuntimeError, SharedMemory_dtor h s)
             else (Ret h, set_content (sm_ino h) c s) else (Ret h, s)) (\<lambda>h. [h]) (mapped_at dir s p mode)"
    using q open_below_close [of dir s "[]" h] open_below_content(1)
    by (intro acquiresI) (auto split: if_splits)
qed

section \<open>The files of a flow, as an action\<close>

lemma sibling_mode_create: "sibling_mode h = CREATE_READ_WRITE \<longleftrightarrow> created h"
  by (simp add: sibling_mode_def accessMode_def)

lemma acquires_emplace:
  assumes "created flow \<Longrightarrow> below dir p \<and> vacant dir s"
  shows "acquires dir s [] (emplace_grain_file flt p n flow) (\<lambda>g. [g]) (mapped_at dir s p (sibling_mode flow))"
  unfolding emplace_grain_file_def
proof (rule acquires_bind [OF acquires_instance], use assms in \<open>simp add: sibling_mode_create\<close>)
  fix g assume "mapped_at dir s p (sibling_mode flow) g"
  then show "acquires dir s [g] (\<lambda>s. if created flow then (Ret g, s)
      else case content_of s (sm_ino g) of
           GrainSegment x \<Rightarrow> (if gi_version (gr_info x) \<noteq> GRAIN_HEADER_VERSION then (Throw InvalidArgument, SharedMemory_dtor g s)
              else (Ret g, s))
         | _ \<Rightarrow> (Undef, s)) (\<lambda>g. [g]) (mapped_at dir s p (sibling_mode flow))"
    using open_below_close [of dir s "[]" g]
    by (intro acquiresI) (auto split: if_splits content.splits)
qed

lemma acquires_event_file:
  assumes "created flow \<Longrightarrow> below dir p \<and> vacant dir s"
  shows "acquires dir s [] (open_event_file flt p c flow) (\<lambda>(h, v). [h]) (\<lambda>_. True)"
  unfolding open_event_file_def
proof (intro acquires_bind_lift acquires_bind [OF acquires_ctor])
  show "sibling_mode flow = CREATE_READ_WRITE \<Longrightarrow> below dir p"
    using assms by (simp add: sibling_mode_create)
  fix h assume q: "mapped_at dir s p (sibling_mode flow) h"
  then have "created h \<Longrightarrow> px_nextIno s \<le> sm_ino h"
    using assms sibling_mode_create by (auto simp: mapped_at_def)
  then show "acquires dir s [h] (\<lambda>s.
       if created h then
         (case openEventBuffer c None of
            Ret (r, v) \<Rightarrow> (Ret (h, v), set_content (sm_ino h) (EventSegment r) s)
          | Throw e \<Rightarrow> (Throw e, SharedMemory_dtor h s)
          | Undef \<Rightarrow> (Undef, s))
       else case content_of s (sm_ino h) of
           EventSegment r \<Rightarrow>
             (case openEventBuffer c (Some r) of
                Ret (r, v) \<Rightarrow> (Ret (h, v), s)
              | Throw e \<Rightarrow> (Throw e, SharedMemory_dtor h s)
              | Undef \<Rightarrow> (Undef, s))
         | _ \<Rightarrow> (Undef, s)) (\<lambda>(h, v). [h]) (\<lambda>_. True)"
    using open_below_close [of dir s "[]" h] open_below_content(1)
    by (intro acquiresI) (auto split: if_splits content.splits res.splits)
qed

lemma acquires_channel_file:
  assumes "created flow \<Longrightarrow> below dir p"
  shows "acquires dir s [] (open_channel_file flt p w c flow) (\<lambda>(h, v). [h]) (\<lambda>_. True)"
  unfolding open_channel_file_def Let_def
  using assms
  by (auto simp: sibling_mode_create intro!: acquires_throw acquires_bind [OF acquires_ctor] acquires_return)

lemma below_dir_names [simp]:
  "below dir (makeFlowDataFilePath dir)" "below dir (makeFlowDescriptorFilePath dir)" "below dir (makeFlowAccessFilePath dir)"
  "below dir (makeGrainDirectoryName dir)" "below dir (makeGrainDataFilePath (makeGrainDirectoryName dir) i)"
  "below dir (makeChannelDataFilePath dir)" "below dir (makeEventDataFilePath dir)" "below dir dir"
  by (simp_all add: path_names below_def)

lemma open_below_first: "open_below dir s ([h] @ hs) t \<Longrightarrow> open_below dir s hs (SharedMemory_dtor h t)"
  using open_below_close [of dir s "[]" h hs t] by simp

lemma open_below_second: "open_below dir s ([g] @ [h] @ hs) t \<Longrightarrow> open_below dir s ([h] @ [g] @ hs) t"
  by (rule open_below_swap)

text \<open>A mapping \<open>h\<close> is in the scope around an action that uses no other.\<close>

lemma acquires_unwind_dtor:
  assumes "acquires dir s [] m new Q"
  shows "acquires dir s [h] (unwind (SharedMemory_dtor h) m) (\<lambda>x. new x @ [h]) Q"
  by (rule acquires_unwind [OF assms, where ks = "[h]"]) (auto intro: open_below_first)

text \<open>The mappings \<open>ks\<close> stay open around an action that does not touch them.\<close>

lemma acquires_frame:
  assumes "acquires dir s [] m new Q"
  shows "acquires dir s ks (unwind (fold SharedMemory_dtor ks) m) (\<lambda>x. new x @ ks) Q"
  by (rule acquires_unwind [OF assms, where ks = ks]) (auto intro: open_below_close_all)

lemma acquires_unwind_flow:
  assumes "acquires dir s [] m new Q"
  shows "acquires dir s (flow_handles d) (unwind (FlowData_dtor d) m) (\<lambda>x. new x @ flow_handles d) Q"
  using acquires_frame [OF assms, of "flow_handles d"] by (simp add: FlowData_dtor_def [abs_def])

lemma acquires_state: "(\<And>t. fst (m t) \<noteq> Undef \<Longrightarrow> snd (m t) = t) \<Longrightarrow> acquires dir s [] m (\<lambda>_. []) (\<lambda>_. True)"
  by (rule acquiresI) (metis append_Nil fst_conv res.distinct(3) res.distinct(5) snd_conv)

lemma acquires_initFlowState: "acquires dir s [] (initFlowState flt p) (\<lambda>_. []) (\<lambda>_. True)"
  by (rule acquires_state) (auto simp: initFlowState_def split: option.splits node.splits)

lemma acquires_segment:
  assumes "vacant dir s"
  shows "acquires dir s [] (create_flow_segment env dir info) (\<lambda>h. [h]) (\<lambda>_. True)"
  unfolding create_flow_segment_def Let_def FlowData_ctor_def
proof (rule acquires_bind [OF acquires_instance], use assms in simp)
  fix h assume "mapped_at dir s (makeFlowDataFilePath dir) CREATE_READ_WRITE h"
  then have h: "px_nextIno s \<le> sm_ino h"
    using assms by (simp add: mapped_at_def)
  have "acquires dir s [] (bind_act (initFlowState (fe_faults env) (makeFlowDataFilePath dir))
        (\<lambda>st s. (Ret h, set_content (sm_ino h) (FlowSegment info st) s))) (\<lambda>_. []) (\<lambda>x. x = h)"
    using h open_below_content(1) by (intro acquires_bind [OF acquires_initFlowState] acquiresI) auto
  from acquires_unwind_dtor [OF this, of h]
  show "acquires dir s [h] (unwind (SharedMemory_dtor h) (bind_act (initFlowState (fe_faults env) (makeFlowDataFilePath dir))
        (\<lambda>st s. (Ret h, set_content (sm_ino h) (FlowSegment info st) s)))) (\<lambda>h. [h]) (\<lambda>_. True)"
    by (rule acquires_weaken) auto
qed

lemma acquires_create_grain:
  assumes "vacant dir s"
  shows "acquires dir s [] (create_grain flt (makeGrainDirectoryName dir) n k flow i) (\<lambda>g. [g]) (\<lambda>_. True)"
  unfolding create_grain_def
proof (rule acquires_bind [OF acquires_emplace], use assms in simp)
  fix g assume "mapped_at dir s (makeGrainDataFilePath (makeGrainDirectoryName dir) (of_nat i)) (sibling_mode flow) g"
  then have "px_nextIno s \<le> sm_ino g"
    using assms by (simp add: mapped_at_def)
  then show "acquires dir s [g] (\<lambda>s. case content_of s (sm_ino g) of
         GrainSegment x \<Rightarrow> (Ret g, set_content (sm_ino g) (GrainSegment (init_grain (ucast n) (ucast k) x)) s)
       | _ \<Rightarrow> (Undef, s)) (\<lambda>g. [g]) (\<lambda>_. True)"
    using open_below_content(1) by (intro acquiresI) (auto split: content.splits)
qed

lemma flow_handles_add:
  "fl_maps d = DiscreteMaps gs \<Longrightarrow>
     flow_handles (d\<lparr>fl_maps := DiscreteMaps (map_handles (fl_maps d) @ [g])\<rparr>) = gs @ g # [fl_flow d]"
  "fl_maps d = DiscreteMaps gs \<Longrightarrow> flow_handles d = gs @ [fl_flow d]"
  by (simp_all add: flow_handles_def)

lemma acquires_each_grain:
  assumes "\<And>i. acquires dir s [] (op i) (\<lambda>g. [g]) Q" "fl_maps d = DiscreteMaps gs"
  shows "acquires dir s (flow_handles d) (each_grain op i n d) flow_handles (\<lambda>d'. kind_of (fl_maps d') = KindDiscrete)"
  using assms(2)
proof (induction n arbitrary: i d gs)
  case 0
  then show ?case by (intro acquiresI) auto
next
  case (Suc n)
  let ?d = "\<lambda>g. d\<lparr>fl_maps := DiscreteMaps (map_handles (fl_maps d) @ [g])\<rparr>"
  have eq: "each_grain op i (Suc n) d = bind_act (unwind (FlowData_dtor d) (op i)) (\<lambda>g. each_grain op (i + 1) n (?d g))"
    by (rule ext) (simp only: each_grain.simps bind_act_def)
  have "acquires dir s (flow_handles d) (unwind (FlowData_dtor d) (op i)) (\<lambda>g. flow_handles (?d g)) Q"
  proof (rule acquires_unwind [OF assms(1), where ks = "flow_handles d"])
    fix g hs t
    assume "open_below dir s ([g] @ flow_handles d @ hs) t"
    then show "open_below dir s (flow_handles (?d g) @ hs) t"
      using open_below_swap [of dir s "[g]" gs "[fl_flow d] @ hs" t] by (simp add: flow_handles_add [OF Suc.prems])
  qed (auto intro: open_below_dtor)
  then show ?case
    unfolding eq by (rule acquires_bind) (rule Suc.IH, simp add: Suc.prems)
qed

abbreviation is_flow_of :: "flow_kind \<Rightarrow> FlowData \<Rightarrow> bool" where
  "is_flow_of k d \<equiv> kind_of (fl_maps d) = k"

lemma acquires_discrete_files:
  assumes "vacant dir s"
  shows "acquires dir s [] (create_discrete_files env dir info n p k) flow_handles (is_flow_of KindDiscrete)"
  unfolding create_discrete_files_def
proof (rule acquires_bind [OF acquires_segment [OF assms]])
  fix h
  let ?grains = "each_grain (create_grain (fe_faults env) (makeGrainDirectoryName dir) p k h) 0 (unat n)
             \<lparr>fl_flow = h, fl_maps = DiscreteMaps []\<rparr>"
  have g: "acquires dir s [h] ?grains flow_handles (is_flow_of KindDiscrete)"
    using acquires_each_grain [OF acquires_create_grain [OF assms], of "\<lparr>fl_flow = h, fl_maps = DiscreteMaps []\<rparr>" "[]"]
    by (simp add: flow_handles_def)
  show "acquires dir s [h] (\<lambda>s. case make_directory (fe_faults env) Call_mkdir (makeGrainDirectoryName dir) s of
         (Some e, s) \<Rightarrow> (Throw (FilesystemError (if e = EEXIST then EIO else e)), SharedMemory_dtor h s)
       | (None, s) \<Rightarrow> ?grains s) flow_handles (is_flow_of KindDiscrete)"
  proof (rule acquiresI)
    fix hs t r u
    assume t: "open_below dir s ([h] @ hs) t"
      and run: "(case make_directory (fe_faults env) Call_mkdir (makeGrainDirectoryName dir) t of
         (Some e, s) \<Rightarrow> (Throw (FilesystemError (if e = EEXIST then EIO else e)), SharedMemory_dtor h s)
       | (None, s) \<Rightarrow> ?grains s) = (r, u)"
    obtain x v where x: "make_directory (fe_faults env) Call_mkdir (makeGrainDirectoryName dir) t = (x, v)"
      by fastforce
    then have "open_below dir s ([h] @ hs) v"
      using open_below_mkdir t by simp
    then show "(\<forall>x. r = Ret x \<longrightarrow> is_flow_of KindDiscrete x \<and> open_below dir s (flow_handles x @ hs) u) \<and>
        (\<forall>e. r = Throw e \<longrightarrow> open_below dir s hs u)"
      using run x acquiresD [OF g] open_below_first by (cases x) auto
  qed
qed

lemma acquires_event_files:
  assumes "vacant dir s"
  shows "acquires dir s [] (create_event_files env dir info c) flow_handles (is_flow_of KindEvent)"
  unfolding create_event_files_def
proof (rule acquires_bind [OF acquires_segment [OF assms]])
  fix h
  have "acquires dir s [] (bind_act (open_event_file (fe_faults env) (makeEventDataFilePath dir) c h)
      (\<lambda>ev. return_act \<lparr>fl_flow = h, fl_maps = EventMaps (Some ev)\<rparr>)) (\<lambda>d. map_handles (fl_maps d))
      (\<lambda>d. fl_flow d = h \<and> is_flow_of KindEvent d)"
    using assms by (intro acquires_bind [OF acquires_event_file]) (auto intro: acquires_return)
  from acquires_unwind_dtor [OF this, of h]
  show "acquires dir s [h] (unwind (SharedMemory_dtor h)
      (bind_act (open_event_file (fe_faults env) (makeEventDataFilePath dir) c h)
      (\<lambda>ev. return_act \<lparr>fl_flow = h, fl_maps = EventMaps (Some ev)\<rparr>))) flow_handles (is_flow_of KindEvent)"
    by (rule acquires_weaken) (auto simp: flow_handles_def)
qed

lemma acquires_continuous_files:
  assumes "vacant dir s"
  shows "acquires dir s [] (create_continuous_files env dir info c w) flow_handles (is_flow_of KindContinuous)"
  unfolding create_continuous_files_def
proof (rule acquires_bind [OF acquires_segment [OF assms]])
  fix h
  have "acquires dir s [] (bind_act (open_channel_file (fe_faults env) (makeChannelDataFilePath dir) w c h)
      (\<lambda>(c, w). return_act \<lparr>fl_flow = h, fl_maps = ContinuousMaps (Some c) w\<rparr>)) (\<lambda>d. map_handles (fl_maps d))
      (\<lambda>d. fl_flow d = h \<and> is_flow_of KindContinuous d)"
    using assms by (intro acquires_bind [OF acquires_channel_file]) (auto intro: acquires_return)
  from acquires_unwind_dtor [OF this, of h]
  show "acquires dir s [h] (unwind (SharedMemory_dtor h)
      (bind_act (open_channel_file (fe_faults env) (makeChannelDataFilePath dir) w c h)
      (\<lambda>(c, w). return_act \<lparr>fl_flow = h, fl_maps = ContinuousMaps (Some c) w\<rparr>))) flow_handles (is_flow_of KindContinuous)"
    by (rule acquires_weaken) (auto simp: flow_handles_def)
qed

text \<open>Opening creates nothing.\<close>

lemma acquires_openDiscreteFlow:
  assumes "\<not> created h"
  shows "acquires dir s [h] (openDiscreteFlow flt base info h) flow_handles (\<lambda>_. True)"
proof -
  let ?d = "\<lparr>fl_flow = h, fl_maps = DiscreteMaps []\<rparr>"
  have h: "flow_handles ?d = [h]"
    by (simp add: flow_handles_def)
  have "acquires dir s [h] (each_grain (\<lambda>i. emplace_grain_file flt (makeGrainDataFilePath (makeGrainDirectoryName base) (of_nat i)) 0 h)
      0 n ?d) flow_handles (is_flow_of KindDiscrete)" for n
    using assms acquires_each_grain [where d = ?d and Q = "\<lambda>_. True" and gs = "[]" and dir = dir and s = s
        and op = "\<lambda>i. emplace_grain_file flt (makeGrainDataFilePath (makeGrainDirectoryName base) (of_nat i)) 0 h"]
    unfolding h by (auto intro: acquires_weaken [OF acquires_emplace])
  note g = acquiresD [OF this]
  show ?thesis
    using g open_below_first [of dir s h]
    by (intro acquiresI) (auto simp: openDiscreteFlow_def Let_def FlowData_dtor_def h split: if_splits flowConfigUnion.splits)
qed

lemma acquires_undef: "acquires dir s ks (lift_act Undef) new Q"
  by (rule acquiresI) (auto simp: lift_act_def)

lemma acquires_openContinuousFlow:
  assumes "\<not> created h"
  shows "acquires dir s [h] (openContinuousFlow flt base info h) flow_handles (\<lambda>_. True)"
proof -
  have "acquires dir s [] (bind_act (open_channel_file flt p 0 c h)
      (\<lambda>(ch, w). return_act \<lparr>fl_flow = h, fl_maps = ContinuousMaps (Some ch) w\<rparr>)) (\<lambda>d. map_handles (fl_maps d))
      (\<lambda>d. fl_flow d = h)" for p c
    using assms by (intro acquires_bind [OF acquires_channel_file]) (auto intro: acquires_return)
  from acquires_weaken [OF acquires_unwind_dtor [OF this, of h]] show ?thesis
    by (auto simp: openContinuousFlow_def flow_handles_def intro: acquires_undef split: flowConfigUnion.splits)
qed

lemma acquires_openEventFlow:
  assumes "\<not> created h"
  shows "acquires dir s [h] (openEventFlow flt base info h) flow_handles (\<lambda>_. True)"
proof -
  have "acquires dir s [] (bind_act (open_event_file flt p c h)
      (\<lambda>ev. return_act \<lparr>fl_flow = h, fl_maps = EventMaps (Some ev)\<rparr>)) (\<lambda>d. map_handles (fl_maps d))
      (\<lambda>d. fl_flow d = h)" for p c
    using assms by (intro acquires_bind [OF acquires_event_file]) (auto intro: acquires_return)
  from acquires_weaken [OF acquires_unwind_dtor [OF this, of h]] show ?thesis
    by (auto simp: openEventFlow_def flow_handles_def intro: acquires_undef split: flowConfigUnion.splits)
qed

lemma acquires_throw_closed:
  "acquires dir s [h] (\<lambda>s. (Throw e, SharedMemory_dtor h s)) new Q"
  by (rule acquiresI) (auto intro: open_below_first)

lemma acquires_opened:
  assumes "\<not> created h"
  shows "acquires dir s [h] (\<lambda>s. case flow_segment h s of
                    None \<Rightarrow> (Undef, s)
                  | Some (info, st) \<Rightarrow>
                      (let format = cc_format (fc_common (fi_config info))
                       in if fi_version info \<noteq> FLOW_DATA_VERSION then (Throw InvalidArgument, SharedMemory_dtor h s)
                          else if mxlIsDiscreteDataFormat format then openDiscreteFlow flt base info h s
                          else if mxlIsEventDataFormat format then openEventFlow flt base info h s
                          else if mxlIsContinuousDataFormat format then openContinuousFlow flt base info h s
                          else (Throw RuntimeError, SharedMemory_dtor h s))) flow_handles (\<lambda>_. True)" (is "acquires _ _ _ ?m _ _")
proof (rule acquires_cases)
  fix t
  show "\<exists>m'. ?m t = m' t \<and> acquires dir s [h] m' flow_handles (\<lambda>_. True)"
  proof (cases "flow_segment h t")
    case None
    then show ?thesis
      using acquires_undef by (intro exI [of _ "lift_act Undef"]) (simp add: lift_act_def)
  next
    case (Some x)
    obtain info st where x: "x = (info, st)" by fastforce
    let ?f = "cc_format (fc_common (fi_config info))"
    let ?go = "\<lambda>s. if fi_version info \<noteq> FLOW_DATA_VERSION then (Throw InvalidArgument, SharedMemory_dtor h s)
                   else if mxlIsDiscreteDataFormat ?f then openDiscreteFlow flt base info h s
                   else if mxlIsEventDataFormat ?f then openEventFlow flt base info h s
                   else if mxlIsContinuousDataFormat ?f then openContinuousFlow flt base info h s
                   else (Throw RuntimeError, SharedMemory_dtor h s)"
    have "acquires dir s [h] ?go flow_handles (\<lambda>_. True)"
      using assms
      by (intro acquires_if acquires_throw_closed acquires_openDiscreteFlow acquires_openEventFlow acquires_openContinuousFlow)
    moreover have "?m t = ?go t"
      unfolding Some x Let_def by simp
    ultimately show ?thesis
      by (intro exI [of _ ?go] conjI)
  qed
qed

lemma acquires_openFlow: "acquires dir s [] (openFlow env m i mode) flow_handles (\<lambda>_. True)"
proof (cases "mode = CREATE_READ_WRITE")
  case True
  then show ?thesis by (intro acquiresI) (auto simp: openFlow_def)
next
  case False
  have c: "acquires dir s [] (FlowData_ctor flt p mode Shared) (\<lambda>h. [h]) (\<lambda>h. \<not> created h)" for flt p
    unfolding FlowData_ctor_def
    by (rule acquires_weaken [OF acquires_instance [where mode = mode]]) (use False in \<open>simp_all add: mapped_at_def\<close>)
  let ?base = "makeFlowDirectoryName (fm_mxlDomain m) (fe_to_string env i)"
  show ?thesis
  proof (rule acquires_cases)
    fix t
    show "\<exists>m'. openFlow env m i mode t = m' t \<and> acquires dir s [] m' flow_handles (\<lambda>_. True)"
    proof (cases "path_exists t (makeFlowDataFilePath ?base)")
      case True
      with acquires_bind [OF c acquires_opened] False show ?thesis
        unfolding openFlow_def Let_def by (intro exI conjI) simp
    next
      case nope: False
      then have "openFlow env m i mode t = throw_act (FilesystemError ENOENT) t"
        using False by (simp add: openFlow_def throw_act_def)
      then show ?thesis
        using acquires_throw by blast
    qed
  qed
qed

section \<open>Publishing\<close>

lemma posix_ok_rename: "rename_noreplace flt p q s = (r, s') \<Longrightarrow> posix_ok s \<Longrightarrow> posix_ok s'"
  by (auto simp: rename_noreplace_def posix_simps intro!: posix_ok_subset split: option.splits if_splits)

lemma posix_ok_remove: "remove_all flt p s = (r, s') \<Longrightarrow> posix_ok s \<Longrightarrow> posix_ok s'"
  by (auto simp: remove_all_def posix_simps intro!: posix_ok_subset split: option.splits)

lemma moved_outside: "\<not> below src p \<Longrightarrow> moved src dst p = p"
  by (simp add: moved_def)

lemma moved_below: "below src p \<Longrightarrow> below dst (moved src dst p)"
  by (simp add: moved_def below_def)

lemma vacant_paths: "vacant dir s \<Longrightarrow> (p, n) \<in> set (px_nodes s) \<Longrightarrow> \<not> below dir p"
  by (auto simp: vacant_def)

lemma open_below_new:
  assumes "open_below dir s hs t"
  obtains new where "px_nodes t = new @ px_nodes s" "\<forall>(p, n) \<in> set new. below dir p"
    "\<forall>(p, n) \<in> set new. \<forall>i. n = Regular i \<longrightarrow> px_nextIno s \<le> i"
proof -
  obtain new where "px_nodes t = new @ px_nodes s"
      "\<forall>(p, n) \<in> set new. below dir p \<and> (\<forall>i. n = Regular i \<longrightarrow> px_nextIno s \<le> i)"
    using assms by (auto simp: open_below_def grown_below_def)
  then show ?thesis
    using that by auto
qed

text \<open>The renaming moves everything that has been created.\<close>

lemma open_below_rename:
  assumes "rename_noreplace flt src dst t = (None, u)" "open_below src s hs t" "vacant src s"
  shows "open_below dst s hs u"
proof -
  obtain new where new: "px_nodes t = new @ px_nodes s"
      "\<forall>(p, n) \<in> set new. below src p \<and> (\<forall>i. n = Regular i \<longrightarrow> px_nextIno s \<le> i)"
    using assms(2) by (auto simp: open_below_def grown_below_def)
  let ?move = "\<lambda>(q, n :: node). (moved src dst q, n)"
  have u: "u = t\<lparr>px_nodes := map ?move (px_nodes t)\<rparr>"
    using assms(1) by (auto simp: rename_noreplace_def split: option.splits if_splits)
  have "map ?move (px_nodes s) = px_nodes s"
    using vacant_paths [OF assms(3)] by (intro map_idI) (auto simp: moved_outside)
  then have nodes: "px_nodes u = map ?move new @ px_nodes s"
    by (simp add: u new(1))
  have "\<forall>(p, n) \<in> set (map ?move new). below dst p \<and> (\<forall>i. n = Regular i \<longrightarrow> px_nextIno s \<le> i)"
    using new(2) moved_below by fastforce
  with nodes have "grown_below dst s u"
    using assms(2) unfolding open_below_def grown_below_def by (simp add: u posix_simps)
  moreover have "posix_ok u"
    using posix_ok_rename [OF assms(1)] assms(2) by (simp add: open_below_def)
  ultimately show ?thesis
    using assms(2) by (auto simp: open_below_def handles_since_def u posix_simps)
qed

lemma remove_all_nodes:
  "flt Call_remove p = None \<Longrightarrow>
     remove_all flt p t = (Inr (length (filter (\<lambda>(q, _). below p q) (px_nodes t))), t\<lparr>px_nodes := filter (\<lambda>(q, _). \<not> below p q) (px_nodes t)\<rparr>)"
  by (simp add: remove_all_def)

lemma open_below_replace:
  assumes "open_below dir s hs t" "posix_ok (t\<lparr>px_nodes := px_nodes s\<rparr>)"
  shows "open_below dst s hs (t\<lparr>px_nodes := px_nodes s\<rparr>)"
  using assms by (auto simp: open_below_def grown_below_def handles_since_def posix_simps)

text \<open>Removing the directory restores the files.\<close>

lemma open_below_removed:
  assumes "open_below dir s hs t" "vacant dir s" "flt Call_remove dir = None"
  shows "px_nodes (snd (remove_all flt dir t)) = px_nodes s" "open_below dst s hs (snd (remove_all flt dir t))"
proof -
  obtain new where new: "px_nodes t = new @ px_nodes s" "\<forall>(p, n) \<in> set new. below dir p"
    using open_below_new [OF assms(1)] by metis
  then have "filter (\<lambda>(q, _). \<not> below dir q) (px_nodes t) = px_nodes s"
    using assms(2) by (auto simp: vacant_def filter_empty_conv intro!: filter_True)
  with assms(3) have r: "snd (remove_all flt dir t) = t\<lparr>px_nodes := px_nodes s\<rparr>"
    by (simp add: remove_all_nodes)
  then show "px_nodes (snd (remove_all flt dir t)) = px_nodes s"
    by simp
  have "posix_ok (snd (remove_all flt dir t))"
    using posix_ok_remove [of flt dir t] assms(1) unfolding open_below_def by (metis prod.collapse)
  then show "open_below dst s hs (snd (remove_all flt dir t))"
    unfolding r by (rule open_below_replace [OF assms(1)])
qed

text \<open>Once it has been renamed there is nothing to remove.\<close>

lemma open_below_kept:
  assumes "open_below dst s hs t" "vacant src s" "\<And>p. below dst p \<Longrightarrow> \<not> below src p"
  shows "snd (remove_all flt src t) = t"
proof -
  obtain new where new: "px_nodes t = new @ px_nodes s" "\<forall>(p, n) \<in> set new. below dst p"
    using open_below_new [OF assms(1)] by metis
  then have "filter (\<lambda>(q, _). \<not> below src q) (px_nodes t) = px_nodes t"
    using assms(2,3) by (auto simp: vacant_def intro!: filter_True)
  then show ?thesis
    by (auto simp: remove_all_def split: option.splits)
qed

section \<open>The outcome of creating or opening a flow\<close>

lemma rename_refused: "rename_noreplace flt p q t = (Some e, u) \<Longrightarrow> u = t"
  by (auto simp: rename_noreplace_def split: option.splits if_splits)

lemma publishFlowDirectory_cases:
  assumes "publishFlowDirectory flt src dst t = (r, u)"
  obtains (published) "r = Ret True" "rename_noreplace flt src dst t = (None, u)" "flt Call_chmod src = None"
    | (present) "r = Ret False" "u = t"
    | (failed) e where "r = Throw e" "u = t"
  using assms rename_refused
  by (auto simp: publishFlowDirectory_def split: option.splits prod.splits if_splits)

lemma acquires_existing:
  "acquires dir s (flow_handles d)
     (bind_act (unwind (FlowData_dtor d) (openFlow env m i READ_WRITE)) (\<lambda>existing s.
             if kind_of (fl_maps existing) \<noteq> kind then (Throw RuntimeError, FlowData_dtor d (FlowData_dtor existing s))
             else (Ret (False, existing), FlowData_dtor d s)))
     (\<lambda>(b, x). flow_handles x) (\<lambda>(b, x). \<not> b \<and> is_flow_of kind x)"
proof (rule acquires_bind [OF acquires_unwind_flow [OF acquires_openFlow]])
  fix x
  show "acquires dir s (flow_handles x @ flow_handles d)
     (\<lambda>s. if kind_of (fl_maps x) \<noteq> kind then (Throw RuntimeError, FlowData_dtor d (FlowData_dtor x s))
             else (Ret (False, x), FlowData_dtor d s)) (\<lambda>(b, x). flow_handles x) (\<lambda>(b, x). \<not> b \<and> is_flow_of kind x)"
  proof (rule acquiresI)
    fix hs t r u
    assume t: "open_below dir s ((flow_handles x @ flow_handles d) @ hs) t"
      and run: "(if kind_of (fl_maps x) \<noteq> kind then (Throw RuntimeError, FlowData_dtor d (FlowData_dtor x t))
             else (Ret (False, x), FlowData_dtor d t)) = (r, u)"
    have "open_below dir s hs (FlowData_dtor d (FlowData_dtor x t))"
      using t by (auto intro!: open_below_dtor)
    moreover have "open_below dir s (flow_handles x @ hs) (FlowData_dtor d t)"
      using open_below_swap [of dir s "flow_handles x" "flow_handles d" hs t] t open_below_dtor by simp
    ultimately show "(\<forall>y. r = Ret y \<longrightarrow> (case y of (b, x) \<Rightarrow> \<not> b \<and> is_flow_of kind x) \<and>
        open_below dir s ((case y of (b, x) \<Rightarrow> flow_handles x) @ hs) u) \<and> (\<forall>e. r = Throw e \<longrightarrow> open_below dir s hs u)"
      using run by (auto split: if_splits)
  qed
qed

lemma publish_or_open_outcome:
  assumes run: "publish_or_open env m i kind tmp d t = (r, u)" and t: "open_below tmp s (flow_handles d @ hs) t"
    and "vacant tmp s"
  shows "r = Ret (True, x) \<Longrightarrow>
      x = d \<and> open_below (makeFlowDirectoryName (fm_mxlDomain m) (fe_to_string env i)) s (flow_handles d @ hs) u"
    and "r = Ret (False, x) \<Longrightarrow> is_flow_of kind x \<and> open_below tmp s (flow_handles x @ hs) u"
    and "r = Throw e \<Longrightarrow> open_below tmp s hs u"
proof -
  let ?base = "makeFlowDirectoryName (fm_mxlDomain m) (fe_to_string env i)"
  obtain p v where p: "publishFlowDirectory (fe_faults env) tmp ?base t = (p, v)"
    by fastforce
  have "(\<forall>x. r = Ret (True, x) \<longrightarrow> x = d \<and> open_below ?base s (flow_handles d @ hs) u) \<and>
    (\<forall>x. r = Ret (False, x) \<longrightarrow> is_flow_of kind x \<and> open_below tmp s (flow_handles x @ hs) u) \<and>
    (\<forall>e. r = Throw e \<longrightarrow> open_below tmp s hs u)"
    using p
  proof (cases rule: publishFlowDirectory_cases)
    case published
    then have "r = Ret (True, d)" "u = v"
      using run p by (auto simp: publish_or_open_def bind_act_def unwind_def return_act_def)
    then show ?thesis
      using open_below_rename [OF published(2) t assms(3)] by simp
  next
    case present
    then have "bind_act (unwind (FlowData_dtor d) (openFlow env m i READ_WRITE)) (\<lambda>existing s.
             if kind_of (fl_maps existing) \<noteq> kind then (Throw RuntimeError, FlowData_dtor d (FlowData_dtor existing s))
             else (Ret (False, existing), FlowData_dtor d s)) t = (r, u)"
      using run p by (simp add: publish_or_open_def bind_act_def unwind_def)
    from acquiresD [OF acquires_existing t this] show ?thesis
      by auto
  next
    case (failed e)
    then have "r = Throw e" "u = FlowData_dtor d t"
      using run p by (auto simp: publish_or_open_def bind_act_def unwind_def)
    then show ?thesis
      using open_below_dtor [OF t] by simp
  qed
  then show "r = Ret (True, x) \<Longrightarrow> x = d \<and> open_below ?base s (flow_handles d @ hs) u"
    and "r = Ret (False, x) \<Longrightarrow> is_flow_of kind x \<and> open_below tmp s (flow_handles x @ hs) u"
    and "r = Throw e \<Longrightarrow> open_below tmp s hs u"
    by auto
qed

text \<open>Every ancestor of a file is there.\<close>

definition closed_tree :: "posix \<Rightarrow> bool" where
  "closed_tree s \<longleftrightarrow> (\<forall>(p, n) \<in> set (px_nodes s). \<forall>q. prefix q p \<and> q \<noteq> [] \<longrightarrow> path_exists s q)"

lemma vacant_new: "closed_tree s \<Longrightarrow> \<not> path_exists s p \<Longrightarrow> p \<noteq> [] \<Longrightarrow> vacant p s"
  by (auto simp: closed_tree_def vacant_def below_def)

text \<open>The suffix that \<^verbatim>\<open>mkdtemp\<close> picks has six characters, so the temporary name is not the name of a flow.\<close>

lemma temporary_not_flow:
  assumes "length (fe_suffix env) = 6" "below (makeFlowDirectoryName domain u) p"
  shows "\<not> below (temporary_path env domain) p"
proof
  assume "below (temporary_path env domain) p"
  then have "temporary_path env domain = makeFlowDirectoryName domain u"
    using assms(2) by (auto simp: below_def prefix_def temporary_path_def makeFlowDirectoryName_def)
  then have e: "''.mxl-tmp-XXXXXXXXXX'' @ fe_suffix env = u @ ''.mxl-flow''"
    by (simp add: temporary_path_def makeFlowDirectoryName_def FLOW_DIRECTORY_NAME_SUFFIX_def)
  have "length u = 16"
    using assms(1) arg_cong [where f = length, OF e] by simp
  with e have "drop 16 (''.mxl-tmp-XXXXXXXXXX'' @ fe_suffix env) = ''.mxl-flow''"
    by simp
  then show False
    by (simp add: numeral_eq_Suc)
qed

lemma with_temporary_cases:
  assumes "with_temporary env domain body s = (r, s')"
  obtains (failed) e where "r = Throw e" "s' = s"
    | (made) t u where "make_directory (fe_faults env) Call_mkdtemp (temporary_path env domain) s = (None, t)"
        "\<not> path_exists s (temporary_path env domain)" "body (temporary_path env domain) t = (r, u)"
        "s' = snd (remove_all (fe_faults env) (temporary_path env domain) u)"
  using assms
  by (auto simp: with_temporary_def bind_act_def createTemporaryFlowDirectory_def make_directory_def
      split: option.splits prod.splits if_splits)

text \<open>
  What a create-or-open function does: the new flow is there with everything that was created below its
  directory; or an existing flow is open and no file has been added; or it failed, and no file and no
  lock is left.
\<close>

lemma creation_outcome:
  assumes run: "with_temporary env (fm_mxlDomain m)
      (\<lambda>tmp. bind_act (pre tmp) (\<lambda>d. publish_or_open env m i kind tmp d)) s = (r, s')"
    and pre: "\<And>tmp. vacant tmp s \<Longrightarrow> acquires tmp s [] (pre tmp) flow_handles (is_flow_of kind)"
    and s: "posix_ok s" "closed_tree s"
    and env: "fe_faults env Call_remove (temporary_path env (fm_mxlDomain m)) = None" "length (fe_suffix env) = 6"
  shows "r = Ret (True, d) \<Longrightarrow> is_flow_of kind d \<and>
      open_below (makeFlowDirectoryName (fm_mxlDomain m) (fe_to_string env i)) s (flow_handles d) s'"
    and "r = Ret (False, d) \<Longrightarrow> is_flow_of kind d \<and> px_nodes s' = px_nodes s \<and> open_below p s (flow_handles d) s'"
    and "r = Throw e \<Longrightarrow> px_nodes s' = px_nodes s \<and> open_below p s [] s'"
proof -
  let ?tmp = "temporary_path env (fm_mxlDomain m)"
  let ?base = "makeFlowDirectoryName (fm_mxlDomain m) (fe_to_string env i)"
  have "(\<forall>d. r = Ret (True, d) \<longrightarrow> is_flow_of kind d \<and> open_below ?base s (flow_handles d) s') \<and>
    (\<forall>d. r = Ret (False, d) \<longrightarrow> is_flow_of kind d \<and> px_nodes s' = px_nodes s \<and> open_below p s (flow_handles d) s') \<and>
    (\<forall>e. r = Throw e \<longrightarrow> px_nodes s' = px_nodes s \<and> open_below p s [] s')"
    using run
  proof (cases rule: with_temporary_cases)
    case (failed e)
    then show ?thesis
      using open_below_refl [OF s(1)] by simp
  next
    case (made t u)
    have v: "vacant ?tmp s"
      using made(2) s(2) by (intro vacant_new) (simp_all add: temporary_path_def)
    have t: "open_below ?tmp s ([] @ []) t"
      using open_below_mkdir [OF made(1)] open_below_refl [OF s(1)] by simp
    from made(3) show ?thesis
    proof (cases rule: bind_act_cases)
      case (ret d w)
      note w = acquiresD(1,2) [OF pre [OF v] t ret(1) refl]
      note out = publish_or_open_outcome [OF ret(2) w(2) v]
      have "s' = u" if "r = Ret (True, x)" for x
        unfolding made(4)
        by (rule open_below_kept [OF conjunct2 [OF out(1) [OF that]] v]) (rule temporary_not_flow [OF env(2)])
      then show ?thesis
        using out w(1) open_below_removed [where flt = "fe_faults env" and dir = ?tmp and s = s, rotated, OF v env(1)] made(4) by auto
    next
      case (exn e)
      then show ?thesis
        using acquiresD(3) [OF pre [OF v] t exn(1) refl] open_below_removed [where flt = "fe_faults env" and dir = ?tmp and s = s, rotated, OF v env(1)] made(4) by auto
    qed auto
  qed
  then show "r = Ret (True, d) \<Longrightarrow> is_flow_of kind d \<and> open_below ?base s (flow_handles d) s'"
    and "r = Ret (False, d) \<Longrightarrow> is_flow_of kind d \<and> px_nodes s' = px_nodes s \<and> open_below p s (flow_handles d) s'"
    and "r = Throw e \<Longrightarrow> px_nodes s' = px_nodes s \<and> open_below p s [] s'"
    by blast+
qed

text \<open>The three functions are of this form.\<close>

lemma acquires_described:
  assumes "vacant tmp s" "acquires tmp s [] m new Q"
  shows "acquires tmp s [] (bind_act (writeFlowDescriptor flt tmp def) (\<lambda>_. m)) new Q"
    "acquires tmp s [] (bind_act (createAccessFile flt tmp) (\<lambda>_. m)) new Q"
  unfolding writeFlowDescriptor_def createAccessFile_def
  using assms by (auto intro!: acquires_bind [OF acquires_write_file])

lemma bind_act_assoc: "bind_act (bind_act m f) g = bind_act m (\<lambda>x. bind_act (f x) g)"
  by (rule ext) (auto simp: bind_act_def split: prod.splits res.splits)

inductive creates :: "flow_env \<Rightarrow> FlowManager \<Rightarrow> u8 list \<Rightarrow> flow_kind \<Rightarrow> (posix, bool \<times> FlowData) act \<Rightarrow> bool" where
  creates_discrete: "creates env m i KindDiscrete (createOrOpenDiscreteFlow env m i def fmt n rate sz k lens sh ch)"
| creates_event: "creates env m i KindEvent (createOrOpenEventFlow env m i def n rate sz)"
| creates_continuous: "creates env m i KindContinuous (createOrOpenContinuousFlow env m i def fmt rate c w n sh ch)"

lemma creates_form:
  assumes "creates env m i kind act"
  obtains (rejected) e where "act = throw_act e"
    | (runs) pre where "\<And>tmp s. vacant tmp s \<Longrightarrow> acquires tmp s [] (pre tmp) flow_handles (is_flow_of kind)"
        "act = with_temporary env (fm_mxlDomain m) (\<lambda>tmp. bind_act (pre tmp) (\<lambda>d. publish_or_open env m i kind tmp d))"
  using assms
proof cases
  case (creates_discrete def fmt n rate sz k lens sh ch)
  show ?thesis
  proof (cases "mxlIsDiscreteDataFormat (sanitizeFlowFormat fmt)")
    case True
    show ?thesis
      by (rule runs [where pre = "\<lambda>tmp. bind_act (writeFlowDescriptor (fe_faults env) tmp def) (\<lambda>_.
           bind_act (createAccessFile (fe_faults env) tmp) (\<lambda>_. create_discrete_files env tmp
               (init_info (initCommonFlowConfigInfo i (sanitizeFlowFormat fmt) rate sh ch)
                 (ConfigDiscrete \<lparr>dc_sliceSizes = lens, dc_grainCount = ucast n\<rparr>) (initFlowRuntimeInfo (fe_now env))) n sz k))"])
        (use True creates_discrete in \<open>auto simp: createOrOpenDiscreteFlow_def Let_def bind_act_assoc
           intro!: acquires_described acquires_discrete_files\<close>)
  qed (use rejected creates_discrete in \<open>auto simp: createOrOpenDiscreteFlow_def\<close>)
next
  case (creates_event def n rate sz)
  show ?thesis
  proof (cases "n < 2 \<or> n > 65536 \<or> sz = 0 \<or> sz > 1048576")
    case False
    let ?c = "\<lparr>ec_eventCount = ucast n, ec_eventPayloadSize = ucast sz\<rparr>"
    show ?thesis
      by (rule runs [where pre = "\<lambda>tmp. bind_act (writeFlowDescriptor (fe_faults env) tmp def) (\<lambda>_.
           bind_act (createAccessFile (fe_faults env) tmp) (\<lambda>_. create_event_files env tmp
               (init_info (initCommonFlowConfigInfo i (format_code MXL_DATA_FORMAT_EVENT) rate 1 1)
                 (ConfigEvent ?c) ((initFlowRuntimeInfo (fe_now env))\<lparr>headIndex := MXL_UNDEFINED_INDEX\<rparr>)) ?c))"])
        (use False creates_event in \<open>auto simp: createOrOpenEventFlow_def Let_def bind_act_assoc
           intro!: acquires_described acquires_event_files\<close>)
  qed (use rejected creates_event in \<open>auto simp: createOrOpenEventFlow_def\<close>)
next
  case (creates_continuous def fmt rate c w n sh ch)
  show ?thesis
  proof (cases "mxlIsContinuousDataFormat (sanitizeFlowFormat fmt)")
    case True
    let ?c = "\<lparr>cf_channelCount = ucast c, cf_bufferLength = ucast n\<rparr>"
    show ?thesis
      by (rule runs [where pre = "\<lambda>tmp. bind_act (writeFlowDescriptor (fe_faults env) tmp def) (\<lambda>_.
           create_continuous_files env tmp
               (init_info (initCommonFlowConfigInfo i (sanitizeFlowFormat fmt) rate sh ch)
                 (ConfigContinuous ?c) (initFlowRuntimeInfo (fe_now env))) ?c w)"])
        (use True creates_continuous in \<open>auto simp: createOrOpenContinuousFlow_def Let_def bind_act_assoc
           intro!: acquires_described acquires_continuous_files\<close>)
  qed (use rejected creates_continuous in \<open>auto simp: createOrOpenContinuousFlow_def\<close>)
qed

lemma creates_outcome:
  assumes c: "creates env m i kind act" and run: "act s = (r, s')" and s: "posix_ok s" "closed_tree s"
    and env: "fe_faults env Call_remove (temporary_path env (fm_mxlDomain m)) = None" "length (fe_suffix env) = 6"
  shows "r = Ret (True, d) \<Longrightarrow> is_flow_of kind d \<and>
      open_below (makeFlowDirectoryName (fm_mxlDomain m) (fe_to_string env i)) s (flow_handles d) s'"
    and "r = Ret (False, d) \<Longrightarrow> is_flow_of kind d \<and> px_nodes s' = px_nodes s \<and> open_below [] s (flow_handles d) s'"
    and "r = Throw e \<Longrightarrow> px_nodes s' = px_nodes s \<and> open_below [] s [] s'"
proof -
  have "(r = Ret (True, d) \<longrightarrow> is_flow_of kind d \<and>
      open_below (makeFlowDirectoryName (fm_mxlDomain m) (fe_to_string env i)) s (flow_handles d) s') \<and>
    (r = Ret (False, d) \<longrightarrow> is_flow_of kind d \<and> px_nodes s' = px_nodes s \<and> open_below [] s (flow_handles d) s') \<and>
    (r = Throw e \<longrightarrow> px_nodes s' = px_nodes s \<and> open_below [] s [] s')"
    using c
  proof (cases rule: creates_form)
    case (rejected e')
    then show ?thesis
      using run open_below_refl [OF s(1)] by (auto simp: throw_act_def)
  next
    case (runs pre)
    note out = creation_outcome [OF run [unfolded runs(2)] runs(1) s env]
    show ?thesis
      using out by blast
  qed
  then show "r = Ret (True, d) \<Longrightarrow> is_flow_of kind d \<and>
      open_below (makeFlowDirectoryName (fm_mxlDomain m) (fe_to_string env i)) s (flow_handles d) s'"
    and "r = Ret (False, d) \<Longrightarrow> is_flow_of kind d \<and> px_nodes s' = px_nodes s \<and> open_below [] s (flow_handles d) s'"
    and "r = Throw e \<Longrightarrow> px_nodes s' = px_nodes s \<and> open_below [] s [] s'"
    by blast+
qed



text \<open>
  when the flow exists already, it is opened and nothing is added or changed: the files and their
  contents are those of before, and the new locks are those of the mappings of the existing flow.
\<close>

theorem existing_flow_is_opened:
  assumes "creates env m i kind act" and "act s = (Ret (False, d), s')" and "posix_ok s" "closed_tree s"
    and "fe_faults env Call_remove (temporary_path env (fm_mxlDomain m)) = None" "length (fe_suffix env) = 6"
  shows "is_flow_of kind d \<and> px_nodes s' = px_nodes s \<and>
    (\<forall>ino. set (locks_of s' ino) = set (locks_of s ino) \<union> held_by (flow_handles d) ino) \<and>
    (\<forall>ino < px_nextIno s. content_of s' ino = content_of s ino)"
  using creates_outcome(2) [OF assms refl] by (simp add: open_below_def grown_below_def handles_since_def)

section \<open>Witnesses\<close>

definition plain_env :: flow_env where
  "plain_env = \<lparr>fe_faults = no_faults, fe_now = 7, fe_to_string = (\<lambda>_. ''1234''), fe_from_string = (\<lambda>_. None),
     fe_suffix = ''abcdef''\<rparr>"

definition mkdir_fails :: flow_env where
  "mkdir_fails = plain_env\<lparr>fe_faults := (\<lambda>c p. if c = Call_mkdir then Some EIO else None)\<rparr>"

definition one_domain :: posix where
  "one_domain =
     \<lparr>px_nodes = [([''d''], Directory)], px_inodes = (\<lambda>_. \<lparr>in_content = Zeros, in_size = 0, in_locks = []\<rparr>),
      px_nextIno = 0, px_nextFd = 3\<rparr>"

lemma one_domain_ok: "posix_ok one_domain" "closed_tree one_domain"
  by (auto simp: one_domain_def posix_ok_def locks_of_def closed_tree_def path_exists_def lookup_def prefix_Cons)

definition tiny_flow :: "u64 \<Rightarrow> flow_env \<Rightarrow> (posix, bool \<times> FlowData) act" where
  "tiny_flow n env =
     createOrOpenDiscreteFlow env \<lparr>fm_mxlDomain = [''d'']\<rparr> (replicate 16 1) ''{}'' (format_code MXL_DATA_FORMAT_DATA) n
       \<lparr>numerator = 50, denominator = 1\<rparr> 2 2 [1, 0, 0, 0] 1 1"

lemma closed_tree_code [code]:
  "closed_tree s \<longleftrightarrow> (\<forall>(p, n) \<in> set (px_nodes s). \<forall>q \<in> set (prefixes p). q \<noteq> [] \<longrightarrow> path_exists s q)"
  by (auto simp: closed_tree_def in_set_prefixes)

lemma tiny_flow_creates: "creates env \<lparr>fm_mxlDomain = [''d'']\<rparr> (replicate 16 1) KindDiscrete (tiny_flow n env)"
  unfolding tiny_flow_def by (rule creates_discrete)

lemma env_ok:
  "fe_faults plain_env Call_remove p = None" "fe_faults mkdir_fails Call_remove p = None"
  "length (fe_suffix plain_env) = 6" "length (fe_suffix mkdir_fails) = 6"
  by (simp_all add: plain_env_def mkdir_fails_def no_faults_def)

text \<open>A domain that has the flow already.\<close>

definition with_flow :: posix where
  "with_flow =
     \<lparr>px_nodes = [([''d''], Directory), ([''d'', ''1234.mxl-flow''], Directory),
        ([''d'', ''1234.mxl-flow'', ''data''], Regular 0)],
      px_inodes = (\<lambda>i. if i = 0
        then \<lparr>in_content = FlowSegment (init_info (zero_common\<lparr>cc_format := format_code MXL_DATA_FORMAT_DATA\<rparr>)
                (ConfigDiscrete \<lparr>dc_sliceSizes = [1, 0, 0, 0], dc_grainCount = 0\<rparr>) (initFlowRuntimeInfo 1)) zero_state,
              in_size = SIZEOF_FLOW, in_locks = []\<rparr>
        else \<lparr>in_content = Zeros, in_size = 0, in_locks = []\<rparr>),
      px_nextIno = 1, px_nextFd = 5\<rparr>"

lemma with_flow_ok: "posix_ok with_flow"
  by (simp add: posix_ok_def with_flow_def locks_of_def)

lemma tiny_flow_fails: "fst (tiny_flow 1 mkdir_fails one_domain) = Throw (FilesystemError EIO)"
  by code_simp

lemma tiny_flow_publishes: "case fst (tiny_flow 1 plain_env one_domain) of Ret (b, d) \<Rightarrow> b | _ \<Rightarrow> False"
  by code_simp

lemma tiny_flow_closed: "closed_tree with_flow"
  by code_simp

lemma tiny_flow_opens: "case fst (tiny_flow 0 plain_env with_flow) of Ret (b, d) \<Rightarrow> \<not> b | _ \<Rightarrow> False"
  by code_simp

lemma tiny_flow_first:
  "\<exists>d. tiny_flow 1 plain_env one_domain = (Ret (True, d), snd (tiny_flow 1 plain_env one_domain))"
  using tiny_flow_publishes by (cases "tiny_flow 1 plain_env one_domain") (auto split: res.splits)

lemma tiny_flow_second: "\<exists>d. tiny_flow 0 plain_env with_flow = (Ret (False, d), snd (tiny_flow 0 plain_env with_flow))"
  using tiny_flow_opens by (cases "tiny_flow 0 plain_env with_flow") (auto split: res.splits)



theorem existing_flow_is_opened_witness:
  "\<exists>d. tiny_flow 0 plain_env with_flow = (Ret (False, d), snd (tiny_flow 0 plain_env with_flow)) \<and>
     px_nodes (snd (tiny_flow 0 plain_env with_flow)) = px_nodes with_flow \<and>
     (\<forall>ino. set (locks_of (snd (tiny_flow 0 plain_env with_flow)) ino) =
        set (locks_of with_flow ino) \<union> held_by (flow_handles d) ino)"
proof -
  obtain d where d: "tiny_flow 0 plain_env with_flow = (Ret (False, d), snd (tiny_flow 0 plain_env with_flow))"
    using tiny_flow_second by blast
  show ?thesis
    using existing_flow_is_opened [OF tiny_flow_creates d with_flow_ok tiny_flow_closed env_ok(1,3)] d by blast
qed

end
