(* ===== verification/InstanceHandles.thy ===== *)
theory InstanceHandles
  imports Instance FlowCreation "HOL-Library.Multiset"
begin

text \<open>
  The handles that an instance gives out: every reader and writer that a client holds is alive, and has as
  many references as the client holds handles to it, whatever else happens to the files.
\<close>

section \<open>Counted objects\<close>

text \<open>The objects of an instance, the handles to them that clients hold, and the bound of the addresses in use.\<close>

definition objs_ok :: "'a by_id \<Rightarrow> nat multiset \<Rightarrow> nat \<Rightarrow> bool" where
  "objs_ok xs H n \<longleftrightarrow>
     sorted_wrt (<) (map fst xs) \<and>
     (\<forall>k v. map_of xs k = Some v \<longrightarrow> rc_ptr v < n \<and> unat (rc_count v) = count H (rc_ptr v)) \<and>
     (\<forall>k k' v v'. map_of xs k = Some v \<and> map_of xs k' = Some v' \<and> rc_ptr v = rc_ptr v' \<longrightarrow> k = k') \<and>
     (\<forall>p \<in># H. \<exists>k v. map_of xs k = Some v \<and> rc_ptr v = p)"

lemma keys_put: "fst ` set (put k v xs) = insert k (fst ` set xs)"
  by (induction k v xs rule: put.induct) auto

lemma sorted_put: "sorted_wrt (<) (map fst xs) \<Longrightarrow> sorted_wrt (<) (map fst (put k v xs))"
proof (induction k v xs rule: put.induct)
  case (2 k v k' v' xs)
  have "\<forall>x \<in> fst ` set (put k v xs). k' < x" if "k' < k" "\<forall>x \<in> set xs. k' < fst x"
    using that by (auto simp: keys_put)
  then show ?case
    using 2 by (auto simp: not_less le_less intro: less_trans)
qed simp

lemma map_of_put: "sorted_wrt (<) (map fst xs) \<Longrightarrow> map_of (put k v xs) = (map_of xs)(k \<mapsto> v)"
proof (induction k v xs rule: put.induct)
  case (2 k v k' v' xs)
  then show ?case
    by (auto simp: fun_eq_iff)
qed auto

lemma map_of_erase: "map_of (erase k xs) = (map_of xs)(k := None)"
  unfolding erase_def by (induction xs) (auto simp: fun_eq_iff)

lemma erase_put: "erase k (put k v xs) = erase k xs"
  unfolding erase_def by (induction k v xs rule: put.induct) auto

lemma sorted_erase: "sorted_wrt (<) (map fst xs) \<Longrightarrow> sorted_wrt (<) (map fst (erase k xs))"
  unfolding erase_def by (induction xs) auto

lemma sorted_distinct_keys: "sorted_wrt (<) (map fst xs) \<Longrightarrow> distinct (map fst (xs :: 'a by_id))"
  by (induction xs) auto

lemma objs_okD:
  assumes "objs_ok xs H n"
  shows "sorted_wrt (<) (map fst xs)" and "map_of xs k = Some v \<Longrightarrow> rc_ptr v < n"
    and "map_of xs k = Some v \<Longrightarrow> unat (rc_count v) = count H (rc_ptr v)"
    and "map_of xs k = Some v \<Longrightarrow> map_of xs k' = Some v' \<Longrightarrow> rc_ptr v = rc_ptr v' \<Longrightarrow> k = k'"
    and "p \<in># H \<Longrightarrow> \<exists>k v. map_of xs k = Some v \<and> rc_ptr v = p"
  using assms unfolding objs_ok_def by blast+

lemma objs_ok_initial: "objs_ok [] {#} n"
  by (simp add: objs_ok_def)

lemma objs_ok_mono: "objs_ok xs H n \<Longrightarrow> n \<le> m \<Longrightarrow> objs_ok xs H m"
  unfolding objs_ok_def by (meson less_le_trans)

lemma objs_ok_next: "objs_ok xs H n \<Longrightarrow> objs_ok xs H (Suc n)"
  by (rule objs_ok_mono) auto

lemma in_diff_other: "x \<noteq> p \<Longrightarrow> x \<in># R - {#p#} \<longleftrightarrow> x \<in># R"
  by (simp add: in_diff_count)

lemma find_ptr_SomeD:
  assumes "objs_ok xs H n" "find_ptr p xs = Some (k, v)"
  shows "map_of xs k = Some v" "rc_ptr v = p"
  using find_SomeD [OF assms(2) [unfolded find_ptr_def]] sorted_distinct_keys [OF objs_okD(1) [OF assms(1)]]
  by auto

lemma find_ptr_held:
  assumes "objs_ok xs H n" "p \<in># H"
  obtains k v where "find_ptr p xs = Some (k, v)" "map_of xs k = Some v" "rc_ptr v = p"
proof -
  obtain k' v' where "map_of xs k' = Some v'" "rc_ptr v' = p"
    using objs_okD(5) [OF assms] by blast
  then have "(k', v') \<in> set xs \<and> rc_ptr (snd (k', v')) = p"
    by (simp add: map_of_SomeD)
  then have "find_ptr p xs \<noteq> None"
    unfolding find_ptr_def find_None_all by blast
  then obtain k v where "find_ptr p xs = Some (k, v)"
    by (cases "find_ptr p xs") auto
  with find_ptr_SomeD [OF assms(1)] that show ?thesis
    by blast
qed

lemma unat_add_one: "unat (x :: u64) + 1 < 2 ^ 64 \<Longrightarrow> unat (x + 1) = unat x + 1"
  by (subst unat_word_ariths) simp

lemma count_le_size: "count H p \<le> size H"
  by (induction H) auto

lemma objs_ok_update:
  assumes "objs_ok xs H n" "map_of xs k = Some v" "rc_ptr v' = rc_ptr v" "unat (rc_count v') = count H' (rc_ptr v)"
    and "\<And>p. p \<noteq> rc_ptr v \<Longrightarrow> count H' p = count H p"
  shows "objs_ok (put k v' xs) H' n"
proof -
  note ok = objs_okD [OF assms(1)]
  have "\<exists>k1 v1. ((map_of xs)(k \<mapsto> v')) k1 = Some v1 \<and> rc_ptr v1 = p" if "p \<in># H'" for p
  proof (cases "p = rc_ptr v")
    case True
    then show ?thesis
      using assms(3) by (intro exI [of _ k] exI [of _ v']) simp
  next
    case False
    then have "p \<in># H"
      using that assms(5) by (simp add: count_greater_zero_iff [symmetric] del: count_greater_zero_iff)
    then obtain k1 v1 where "map_of xs k1 = Some v1" "rc_ptr v1 = p"
      using ok(5) by blast
    then show ?thesis
      using False assms(2) by (intro exI [of _ k1] exI [of _ v1]) auto
  qed
  moreover have "rc_ptr v1 < n \<and> unat (rc_count v1) = count H' (rc_ptr v1)" if "((map_of xs)(k \<mapsto> v')) k1 = Some v1" for k1 v1
  proof (cases "k1 = k")
    case True
    then show ?thesis
      using that assms(2-4) ok(2) by auto
  next
    case False
    then have k1: "map_of xs k1 = Some v1" and "rc_ptr v1 \<noteq> rc_ptr v"
      using that ok(4) [of k1 v1 k v] assms(2) by auto
    then show ?thesis
      using assms(5) ok(2,3) [OF k1] by simp
  qed
  moreover have "k1 = k2" if "((map_of xs)(k \<mapsto> v')) k1 = Some v1" "((map_of xs)(k \<mapsto> v')) k2 = Some v2" "rc_ptr v1 = rc_ptr v2"
    for k1 k2 v1 v2
    using that assms(2,3) ok(4) by (metis fun_upd_apply option.inject)
  ultimately show ?thesis
    unfolding objs_ok_def map_of_put [OF ok(1)] using sorted_put [OF ok(1)] by blast
qed

lemma objs_ok_get:
  assumes "objs_ok xs H n" "map_of xs k = Some v" "size H + 1 < 2 ^ 64"
  shows "objs_ok (put k (addReference v) xs) (add_mset (rc_ptr v) H) n"
proof (rule objs_ok_update [OF assms(1,2)])
  have "unat (rc_count v) + 1 < 2 ^ 64"
    using objs_okD(3) [OF assms(1,2)] count_le_size [of H "rc_ptr v"] assms(3) by simp
  then show "unat (rc_count (addReference v)) = count (add_mset (rc_ptr v) H) (rc_ptr v)"
    using objs_okD(3) [OF assms(1,2)] unat_add_one by (simp add: addReference_def)
qed (simp_all add: addReference_def)

lemma objs_ok_new:
  assumes "objs_ok xs H n" "map_of xs k = None"
  shows "objs_ok (put k (RefCounted_ctor n x) xs) (add_mset n H) (n + 1)"
proof -
  note ok = objs_okD [OF assms(1)]
  have "n \<notin># H"
    using ok(2,5) by blast
  then have "count H n = 0"
    by (simp add: count_eq_zero_iff)
  then show ?thesis
    unfolding objs_ok_def map_of_put [OF ok(1)] using sorted_put [OF ok(1)] ok(2-5) assms(2)
    by (auto simp: RefCounted_ctor_def less_Suc_eq dest: less_imp_neq split: if_splits) (metis option.distinct(1))+
qed

lemma objs_ok_release:
  assumes "objs_ok xs H n" "map_of xs k = Some v" "rc_ptr v \<in># H" "releaseReference v = (none_left, v')"
  shows "objs_ok (put k v' xs) (H - {#rc_ptr v#}) n" and "none_left \<longleftrightarrow> count H (rc_ptr v) = 1" and "rc_ptr v' = rc_ptr v"
    and "rc_value v' = rc_value v"
proof -
  have c: "unat (rc_count v) = count H (rc_ptr v)" "count H (rc_ptr v) > 0"
    using objs_okD(3) [OF assms(1,2)] assms(3) by auto
  then have pos: "rc_count v > 0"
    by (simp add: word_gt_0 unat_eq_zero [symmetric] del: unat_eq_zero)
  then have "unat (rc_count v - 1) = unat (rc_count v) - 1"
    by (metis unat_minus_one word_gt_0)
  then show "objs_ok (put k v' xs) (H - {#rc_ptr v#}) n" "rc_ptr v' = rc_ptr v" "rc_value v' = rc_value v"
    using assms(4) pos c by (auto simp: releaseReference_def Let_def intro!: objs_ok_update [OF assms(1,2)])
  show "none_left \<longleftrightarrow> count H (rc_ptr v) = 1"
    using assms(4) pos c(1) less_imp_Suc_add [OF c(2)] \<open>unat (rc_count v - 1) = unat (rc_count v) - 1\<close>
    by (auto simp: releaseReference_def Let_def unat_eq_zero [symmetric] simp del: unat_eq_zero)
qed

lemma objs_ok_erase:
  assumes "objs_ok xs H n" "map_of xs k = Some v" "count H (rc_ptr v) = 0"
  shows "objs_ok (erase k xs) H n"
  using assms unfolding objs_ok_def map_of_erase
  by (auto simp: sorted_erase split: if_splits) (metis count_eq_zero_iff option.inject)

section \<open>What the operations do to the objects\<close>

lemma in_files_instance: "in_files m w = (r, w') \<Longrightarrow> fst w' = fst w"
  by (auto simp: in_files_def split: prod.splits)

lemma in_watched_instance: "in_watched m w = (r, w') \<Longrightarrow> fst w' = fst w"
  by (auto simp: in_watched_def split: prod.splits)

lemma change_parts [simp]:
  "fst (change_files f w) = fst w" "fst (change_instance g w) = g (fst w)" "snd (change_instance g w) = snd w"
  by (auto simp: change_files_def change_instance_def split: prod.splits)

lemma getFlowReader_cases:
  assumes "getFlowReader env flowId w = (r, w')"
  obtains (again) i v where "map_of (in_readers (fst w)) i = Some v" "r = Ret (rc_ptr v)"
      "fst w' = (fst w)\<lparr>in_readers := put i (addReference v) (in_readers (fst w))\<rparr>" "snd w' = snd w"
    | (first) i x where "map_of (in_readers (fst w)) i = None" "r = Ret (in_nextPtr (fst w))"
      "fst w' = (fst w)\<lparr>in_readers := put i (RefCounted_ctor (in_nextPtr (fst w)) x) (in_readers (fst w)),
                         in_nextPtr := in_nextPtr (fst w) + 1\<rparr>"
    | (failed) "\<And>p. r \<noteq> Ret p" "fst w' = fst w"
proof (cases "fe_from_string (ie_flow env) flowId")
  case None
  then show ?thesis
    using assms failed by (auto simp: getFlowReader_def)
next
  case (Some i)
  show ?thesis
  proof (cases "map_of (in_readers (fst w)) i")
    case v: (Some v)
    then show ?thesis
      using assms Some again [of i v] by (auto simp: getFlowReader_def change_instance_def)
  next
    case None
    obtain r1 w1 where o: "in_files (openFlow (ie_flow env) (in_flowManager (fst w)) i READ_ONLY) w = (r1, w1)"
      by (rule prod.exhaust)
    show ?thesis
    proof (cases r1)
      case (Ret d)
      obtain r2 w2 where c: "in_files (createFlowReader (ie_flow env) (in_flowManager (fst w)) i d) w1 = (r2, w2)"
        by (rule prod.exhaust)
      then show ?thesis
        using assms Some None o Ret in_files_instance [OF o] in_files_instance [OF c] first [of i] failed
        by (cases r2) (auto simp: getFlowReader_def bind_act_def)
    qed (use assms Some None o in_files_instance [OF o] failed in \<open>auto simp: getFlowReader_def bind_act_def\<close>)
  qed
qed

lemma attach_writer_cases:
  assumes "attach_writer env b d w = (r, w')"
  obtains (again) i v c where "map_of (in_writers (fst w)) i = Some v" "r = Ret (c, rc_ptr v, b)"
      "fst w' = (fst w)\<lparr>in_writers := put i (addReference v) (in_writers (fst w))\<rparr>"
    | (first) i x c where "map_of (in_writers (fst w)) i = None" "r = Ret (c, in_nextPtr (fst w), b)"
      "fst w' = (fst w)\<lparr>in_writers := put i (RefCounted_ctor (in_nextPtr (fst w)) x) (in_writers (fst w)),
                         in_nextPtr := in_nextPtr (fst w) + 1\<rparr>"
    | (failed) "\<And>p. r \<noteq> Ret p" "fst w' = fst w"
proof (cases "flow_segment (fl_flow d) (snd (snd w))")
  case None
  then show ?thesis
    using assms failed by (auto simp: attach_writer_def)
next
  case (Some f)
  obtain info st where f: "f = (info, st)" by fastforce
  let ?c = "fi_config info"
  let ?i = "cc_id (fc_common ?c)"
  show ?thesis
  proof (cases "map_of (in_writers (fst w)) ?i")
    case v: (Some v)
    then show ?thesis
      using assms Some f again [of ?i v ?c] by (auto simp: attach_writer_def Let_def)
  next
    case None
    obtain r1 w1 where c: "in_watched (createFlowWriter (ie_flow env) (in_flowManager (fst w)) (in_nextPtr (fst w)) ?i d) w = (r1, w1)"
      by (rule prod.exhaust)
    then show ?thesis
      using assms Some f None in_watched_instance [OF c] first [of ?i ?c] failed
      by (cases r1) (auto simp: attach_writer_def Let_def bind_act_def)
  qed
qed

lemma instance_createFlowWriter_cases:
  assumes "instance_createFlowWriter env flowDef options w = (r, w')"
  obtains (attach) b d w1 where "fst w1 = fst w" "attach_writer env b d w1 = (r, w')"
    | (failed) "\<And>p. r \<noteq> Ret p" "fst w' = fst w"
proof -
  note run = assms [unfolded instance_createFlowWriter_def bind_act_def lift_act_def]
  show ?thesis
  proof (cases "FlowParser_ctor (ie_parse env) (fe_from_string (ie_flow env)) flowDef")
    case p: (Ret parser)
    let ?o = "case options of Some o_str \<Rightarrow> FlowOptionsParser_ctor (ie_parse env) o_str
       | None \<Rightarrow> Ret \<lparr>fo_maxCommitBatchSizeHint = None, fo_maxSyncBatchSizeHint = None\<rparr>"
    show ?thesis
    proof (cases ?o)
      case o: (Ret opts)
      obtain r1 w1 where c: "in_files (create_flow_data env flowDef parser opts (fst w)) w = (r1, w1)"
        by (rule prod.exhaust)
      then show ?thesis
        using run p o in_files_instance [OF c] attach [of w1] failed by (cases r1) auto
    qed (use run p failed in auto)
  qed (use run failed in auto)
qed

lemma claim_flow_instance:
  assumes "claim_flow env v w = (r, w')"
  shows "fst w' = fst w" and "r = Ret (ok, v') \<Longrightarrow> rc_ptr v' = rc_ptr v" and "r \<noteq> Undef"
proof -
  let ?m = "in_files (FlowWriter_makeExclusive (fe_faults (ie_flow env)) (rc_value v))"
  have "fst w' = fst w \<and> (r = Ret (ok, v') \<longrightarrow> rc_ptr v' = rc_ptr v) \<and> r \<noteq> Undef"
  proof (cases "FlowWriter_isExclusive (rc_value v)")
    case True
    then show ?thesis
      using assms by (auto simp: claim_flow_def)
  next
    case False
    obtain r1 w1 where m: "?m w = (r1, w1)"
      by (rule prod.exhaust)
    moreover have "r1 \<noteq> Undef"
      using m by (auto simp: in_files_def on_files_def FlowWriter_makeExclusive_def FlowData_makeExclusive_def
          makeExclusive_def bind_act_def return_act_def split: prod.splits res.splits if_splits option.splits errc.splits)
    ultimately show ?thesis
      using assms False in_files_instance [OF m]
      by (cases r1) (auto simp: claim_flow_def bind_act_def return_act_def)
  qed
  then show "fst w' = fst w" and "r = Ret (ok, v') \<Longrightarrow> rc_ptr v' = rc_ptr v" and "r \<noteq> Undef"
    by blast+
qed

lemma delete_claimed_instance [simp]: "fst (delete_claimed env i ok w) = fst w"
  by (simp add: delete_claimed_def)

text \<open>The release of a reader that is held, and of a writer.\<close>

lemma releaseReader_held:
  assumes "objs_ok (in_readers (fst w)) R n" "\<And>k v. map_of (in_readers (fst w)) k = Some v \<Longrightarrow> rc_ptr v \<in># R" "p \<in># R"
  obtains w' where "releaseReader p w = (Ret (), w')" "objs_ok (in_readers (fst w')) (R - {#p#}) n"
    "in_writers (fst w') = in_writers (fst w)" "in_nextPtr (fst w') = in_nextPtr (fst w)"
    "\<And>k v. map_of (in_readers (fst w')) k = Some v \<Longrightarrow> rc_ptr v \<in># R - {#p#}"
proof -
  obtain k v where v: "find_ptr p (in_readers (fst w)) = Some (k, v)" "map_of (in_readers (fst w)) k = Some v" "rc_ptr v = p"
    using find_ptr_held [OF assms(1,3)] .
  obtain b v' where rel: "releaseReference v = (b, v')"
    by fastforce
  note ok = objs_okD [OF assms(1)]
  note r = objs_ok_release [OF assms(1) v(2) _ rel, unfolded v(3), OF assms(3)]
  have more: "rc_ptr u \<in># R - {#p#}" if "map_of (in_readers (fst w)) j = Some u" "j \<noteq> k" for j u
    using that assms(2) [OF that(1)] ok(4) [OF that(1) v(2)] v(3) in_diff_other [of "rc_ptr u" p R] by blast
  show ?thesis
  proof (cases b)
    case True
    then have "count (R - {#p#}) p = 0"
      using r(2) by simp
    then have "objs_ok (erase k (in_readers (fst w))) (R - {#p#}) n"
      using objs_ok_erase [OF r(1), of k v'] r(3) map_of_put [OF ok(1)] by (simp add: erase_put)
    then show ?thesis
      using True v rel more
      by (intro that [of "snd (releaseReader p w)"]) (auto simp: releaseReader_def map_of_erase split: if_splits)
  next
    case False
    then have "count R p \<noteq> 0" "count R p \<noteq> 1"
      using r(2) assms(3) by (simp_all add: count_eq_zero_iff)
    then have "1 < count R p"
      by linarith
    then have "p \<in># R - {#p#}"
      by (simp add: in_diff_count)
    then show ?thesis
      using False v rel r(1,3) more
      by (intro that [of "snd (releaseReader p w)"]) (auto simp: releaseReader_def map_of_put [OF ok(1)] split: if_splits)
  qed
qed

lemma releaseWriter_held:
  assumes "objs_ok (in_writers (fst w)) W n" "p \<in># W"
  obtains r w' where "releaseWriter env p w = (r, w')" "r \<noteq> Undef" "objs_ok (in_writers (fst w')) (W - {#p#}) n"
    "in_readers (fst w') = in_readers (fst w)" "in_nextPtr (fst w') = in_nextPtr (fst w)"
proof -
  obtain k v where v: "find_ptr p (in_writers (fst w)) = Some (k, v)" "map_of (in_writers (fst w)) k = Some v" "rc_ptr v = p"
    using find_ptr_held [OF assms] .
  obtain b v' where rel: "releaseReference v = (b, v')"
    by fastforce
  note ok = objs_okD [OF assms(1)]
  note r = objs_ok_release [OF assms(1) v(2) _ rel, unfolded v(3), OF assms(2)]
  let ?w = "change_instance (\<lambda>x. x\<lparr>in_writers := put k v' (in_writers x)\<rparr>) w"
  show ?thesis
  proof (cases b)
    case False
    then show ?thesis
      using v(1) rel r(1) by (intro that [of "Ret ()" ?w]) (simp_all add: releaseWriter_def Let_def)
  next
    case True
    obtain q u where c: "claim_flow env v' ?w = (q, u)"
      by (rule prod.exhaust)
    note claimed = claim_flow_instance [OF c]
    show ?thesis
    proof (cases q)
      case (Ret x)
      obtain okay y where x: "x = (okay, y)" by fastforce
      obtain i ws where d: "delete_claimed env k okay u = (i, ws)" by (rule prod.exhaust)
      have i: "i = fst ?w"
        using d claimed(1) delete_claimed_instance [of env k okay u] by simp
      have "objs_ok (erase k (put k v' (in_writers (fst w)))) (W - {#p#}) n"
        using objs_ok_erase [OF r(1), of k v'] r(2,3) True map_of_put [OF ok(1)] by simp
      then show ?thesis
        using v(1) rel True c Ret x d i
        by (intro that [of "Ret ()" "(i\<lparr>in_writers := erase k (in_writers i)\<rparr>, FlowWriter_dtor p (rc_value y) ws)"])
          (simp_all add: releaseWriter_def Let_def bind_act_def)
    next
      case (Throw e)
      then show ?thesis
        using v(1) rel True c claimed(1) r(1)
        by (intro that [of "Throw e" u]) (simp_all add: releaseWriter_def Let_def bind_act_def)
    qed (use claimed in simp)
  qed
qed

section \<open>Clients\<close>

text \<open>
  A client of an instance gets and releases readers and writers and groups, with whatever failures; the
  watcher and the files change at any time. The multisets are the handles to readers and writers that the
  client holds: it releases only these. The release of a writer ends its handle even when it fails.
\<close>

type_synonym client = "nat multiset \<times> nat multiset \<times> world"

inductive in_step :: "client \<Rightarrow> client \<Rightarrow> bool" where
  in_get: "getFlowReader env t w = (Ret p, w') \<Longrightarrow> size R + 1 < 2 ^ 64 \<Longrightarrow> in_step (R, W, w) (add_mset p R, W, w')"
| in_get_failed: "getFlowReader env t w = (Throw e, w') \<Longrightarrow> in_step (R, W, w) (R, W, w')"
| in_release_reader: "p \<in># R \<Longrightarrow> releaseReader p w = (Ret (), w') \<Longrightarrow> in_step (R, W, w) (R - {#p#}, W, w')"
| in_create: "instance_createFlowWriter env t opts w = (Ret (c, p, b), w') \<Longrightarrow> size W + 1 < 2 ^ 64 \<Longrightarrow>
    in_step (R, W, w) (R, add_mset p W, w')"
| in_create_failed: "instance_createFlowWriter env t opts w = (Throw e, w') \<Longrightarrow> in_step (R, W, w) (R, W, w')"
| in_release_writer: "p \<in># W \<Longrightarrow> releaseWriter env p w = (r, w') \<Longrightarrow> r \<noteq> Undef \<Longrightarrow>
    in_step (R, W, w) (R, W - {#p#}, w')"
| in_create_group: "createFlowSynchronizationGroup i = (p, i') \<Longrightarrow> in_step (R, W, i, ws) (R, W, i', ws)"
| in_release_group: "in_step (R, W, i, ws) (R, W, releaseFlowSynchronizationGroup p i, ws)"
| in_outside: "in_step (R, W, i, ws) (R, W, i, ws')"

inductive in_reachable :: "client \<Rightarrow> bool" where
  in_initial: "Instance_ctor env domain opts s = (Ret i, s') \<Longrightarrow> in_reachable ({#}, {#}, i, d, s')"
| in_then: "in_reachable c \<Longrightarrow> in_step c c' \<Longrightarrow> in_reachable c'"

definition client_ok :: "client \<Rightarrow> bool" where
  "client_ok c \<longleftrightarrow>
     (case c of (R, W, w) \<Rightarrow>
        objs_ok (in_readers (fst w)) R (in_nextPtr (fst w)) \<and> objs_ok (in_writers (fst w)) W (in_nextPtr (fst w)) \<and>
        (\<forall>k v. map_of (in_readers (fst w)) k = Some v \<longrightarrow> rc_ptr v \<in># R))"

lemma Instance_ctor_empty:
  "Instance_ctor env domain opts s = (Ret i, s') \<Longrightarrow> in_readers i = [] \<and> in_writers i = []"
  unfolding Instance_ctor_def
  by (elim bind_act_cases) (auto simp: parseOptions_def res_simps)

lemma client_ok_get:
  assumes "client_ok (R, W, w)" "getFlowReader env t w = (Ret p, w')" "size R + 1 < 2 ^ 64"
  shows "client_ok (add_mset p R, W, w')"
  using assms(2)
proof (cases rule: getFlowReader_cases)
  case (again i v)
  then show ?thesis
    using assms(1,3) objs_ok_get [of "in_readers (fst w)" R "in_nextPtr (fst w)" i v]
    by (auto simp: client_ok_def map_of_put [OF objs_okD(1)] addReference_def split: if_splits)
next
  case (first i x)
  then show ?thesis
    using assms(1) objs_ok_new [of "in_readers (fst w)" R "in_nextPtr (fst w)" i x] objs_ok_next
    by (auto simp: client_ok_def map_of_put [OF objs_okD(1)] RefCounted_ctor_def split: if_splits)
next
  case failed
  then show ?thesis by blast
qed

lemma client_ok_create:
  assumes "client_ok (R, W, w)" "instance_createFlowWriter env t opts w = (Ret (c, p, b), w')" "size W + 1 < 2 ^ 64"
  shows "client_ok (R, add_mset p W, w')"
  using assms(2)
proof (cases rule: instance_createFlowWriter_cases)
  case (attach b' d w1)
  from attach(2) show ?thesis
  proof (cases rule: attach_writer_cases)
    case (again i v c')
    then show ?thesis
      using assms(1,3) attach(1) objs_ok_get [of "in_writers (fst w)" W "in_nextPtr (fst w)" i v]
      by (auto simp: client_ok_def)
  next
    case (first i x c')
    then show ?thesis
      using assms(1) attach(1) objs_ok_new [of "in_writers (fst w)" W "in_nextPtr (fst w)" i x] objs_ok_next
      by (auto simp: client_ok_def)
  next
    case failed
    then show ?thesis by blast
  qed
next
  case failed
  then show ?thesis by blast
qed

lemma createFlowWriter_failed_instance:
  assumes "instance_createFlowWriter env t opts w = (Throw e, w')"
  shows "fst w' = fst w"
  using assms
proof (cases rule: instance_createFlowWriter_cases)
  case (attach b d w1)
  from attach(2) show ?thesis
    by (cases rule: attach_writer_cases) (simp_all add: attach(1))
qed

lemma client_ok_release_reader:
  assumes "client_ok (R, W, w)" "p \<in># R" "releaseReader p w = (Ret (), w')"
  shows "client_ok (R - {#p#}, W, w')"
proof -
  have ok: "objs_ok (in_readers (fst w)) R (in_nextPtr (fst w))" "\<And>k v. map_of (in_readers (fst w)) k = Some v \<Longrightarrow> rc_ptr v \<in># R"
    using assms(1) by (auto simp: client_ok_def)
  show ?thesis
    by (rule releaseReader_held [OF ok assms(2)]) (use assms(1,3) in \<open>auto simp: client_ok_def\<close>)
qed

lemma client_ok_release_writer:
  assumes "client_ok (R, W, w)" "p \<in># W" "releaseWriter env p w = (r, w')"
  shows "client_ok (R, W - {#p#}, w')"
proof -
  have ok: "objs_ok (in_writers (fst w)) W (in_nextPtr (fst w))"
    using assms(1) by (auto simp: client_ok_def)
  show ?thesis
    by (rule releaseWriter_held [OF ok assms(2), of env]) (use assms(1,3) in \<open>auto simp: client_ok_def\<close>)
qed

lemma getFlowReader_failed_instance: "getFlowReader env t w = (Throw e, w') \<Longrightarrow> fst w' = fst w"
  by (erule getFlowReader_cases) simp_all

lemma client_ok_frame:
  assumes "client_ok (R, W, w)" "in_readers (fst w') = in_readers (fst w)" "in_writers (fst w') = in_writers (fst w)"
    and "in_nextPtr (fst w) \<le> in_nextPtr (fst w')"
  shows "client_ok (R, W, w')"
  using assms by (auto simp: client_ok_def intro: objs_ok_mono)

lemma client_ok_step: "in_step c c' \<Longrightarrow> client_ok c \<Longrightarrow> client_ok c'"
proof (induction rule: in_step.induct)
  case (in_get_failed env t w e w' R W)
  show ?case
    by (rule client_ok_frame [OF in_get_failed(2)]) (simp_all add: getFlowReader_failed_instance [OF in_get_failed(1)])
next
  case (in_create_failed env t opts w e w' R W)
  show ?case
    by (rule client_ok_frame [OF in_create_failed(2)]) (simp_all add: createFlowWriter_failed_instance [OF in_create_failed(1)])
next
  case (in_create_group i p i' R W ws)
  show ?case
    by (rule client_ok_frame [OF in_create_group(2)]) (use in_create_group(1) in \<open>auto simp: createFlowSynchronizationGroup_def\<close>)
next
  case (in_release_group R W i ws p)
  show ?case
    by (rule client_ok_frame [OF in_release_group(1)]) (auto simp: releaseFlowSynchronizationGroup_def)
next
  case (in_outside R W i ws ws')
  show ?case
    by (rule client_ok_frame [OF in_outside(1)]) auto
qed (blast intro: client_ok_get client_ok_create client_ok_release_reader client_ok_release_writer)+

lemma client_ok_reachable: "in_reachable c \<Longrightarrow> client_ok c"
proof (induction rule: in_reachable.induct)
  case (in_initial env domain opts s i s' d)
  then show ?case
    using Instance_ctor_empty by (simp add: client_ok_def objs_ok_initial)
qed (rule client_ok_step)

text \<open>
  C16: every reader and writer that a client holds is alive: the handle is that of an object of the instance,
  the object's reference count is the number of times that the client holds it, releasing it is defined,
  and every reader of the instance is held by someone - whatever the client gets and releases in whatever
  order, whatever calls fail, and whatever happens to the files in between.
\<close>

theorem held_handles_are_live:
  assumes "in_reachable (R, W, w)"
  shows "(\<forall>p \<in># R. fst (releaseReader p w) = Ret () \<and>
            (\<exists>k v. find_ptr p (in_readers (fst w)) = Some (k, v) \<and> unat (rc_count v) = count R p)) \<and>
    (\<forall>p \<in># W. fst (releaseWriter env p w) \<noteq> Undef \<and>
            (\<exists>k v. find_ptr p (in_writers (fst w)) = Some (k, v) \<and> unat (rc_count v) = count W p)) \<and>
    (\<forall>(k, v) \<in> set (in_readers (fst w)). rc_ptr v \<in># R)"
proof -
  let ?n = "in_nextPtr (fst w)"
  have ok: "objs_ok (in_readers (fst w)) R ?n" "objs_ok (in_writers (fst w)) W ?n"
      "\<And>k v. map_of (in_readers (fst w)) k = Some v \<Longrightarrow> rc_ptr v \<in># R"
    using client_ok_reachable [OF assms] by (auto simp: client_ok_def)
  have counted: "\<exists>k v. find_ptr p xs = Some (k, v) \<and> unat (rc_count v) = count H p"
    if "objs_ok xs H ?n" "p \<in># H" for xs :: "'a by_id" and H p
    using find_ptr_held [OF that] objs_okD(3) [OF that(1)] by metis
  have "rc_ptr v \<in># R" if "(k, v) \<in> set (in_readers (fst w))" for k v
    using that ok(3) map_of_is_SomeI [OF sorted_distinct_keys [OF objs_okD(1) [OF ok(1)]]] by blast
  moreover have "fst (releaseReader p w) = Ret ()" if "p \<in># R" for p
    by (rule releaseReader_held [OF ok(1,3) that]) simp_all
  moreover have "fst (releaseWriter env p w) \<noteq> Undef" if "p \<in># W" for p
    by (rule releaseWriter_held [OF ok(2) that, of env]) simp_all
  ultimately show ?thesis
    using counted [OF ok(1)] counted [OF ok(2)] by blast
qed

section \<open>The last writer\<close>

definition locked_by_others :: "SharedMemoryBase \<Rightarrow> posix \<Rightarrow> bool" where
  "locked_by_others h s \<longleftrightarrow> (\<exists>e \<in> set (locks_of s (sm_ino h)). fst e \<noteq> sm_fd h)"

lemma exclusive_alone:
  assumes "posix_ok s" "(sm_fd h, LOCK_EX) \<in> set (locks_of s (sm_ino h))"
  shows "\<not> locked_by_others h s"
  using assms unfolding posix_ok_def lock_list_ok_def locked_by_others_def by fastforce

lemma makeExclusive_outcome:
  assumes "posix_ok s" "flt Call_flock (sm_path h) = None"
    and "isExclusive h \<Longrightarrow> (sm_fd h, LOCK_EX) \<in> set (locks_of s (sm_ino h))"
  obtains h' s' where "makeExclusive flt h s = (Ret (\<not> locked_by_others h s, h'), s')" "px_nodes s' = px_nodes s"
    "sm_fd h' = sm_fd h" "sm_ino h' = sm_ino h"
proof -
  obtain r s' where run: "makeExclusive flt h s = (r, s')" by fastforce
  then show ?thesis
  proof (cases rule: makeExclusive_cases)
    case already
    then show ?thesis
      using run that exclusive_alone [OF assms(1) assms(3)] by simp
  next
    case (granted others)
    have "\<not> locked_by_others h s"
    proof (cases "s' = s")
      case True
      then show ?thesis
        using granted(5) exclusive_alone [OF assms(1)] by simp
    next
      case False
      then show ?thesis
        using granted(3,6) by (auto simp: conflicts_def list_ex_iff locked_by_others_def filter_empty_conv)
    qed
    then show ?thesis
      using run granted(2,4) by (intro that [of "h\<lparr>sm_lockType := LockType_Exclusive\<rparr>" s']) (auto simp: posix_simps)
  next
    case (refused others)
    then have "\<exists>e. e \<in> set (locks_of s (sm_ino h)) \<and> fst e \<noteq> sm_fd h"
      using assms(2) by (auto simp: conflicts_def list_ex_iff)
    then have "locked_by_others h s"
      unfolding locked_by_others_def by blast
    then show ?thesis
      using run refused(2,4) by (intro that [of h s']) (auto simp: posix_simps)
  next
    case (failed e)
    then show ?thesis
      using run assms(2) by (auto simp: makeExclusive_def flock_nb_def Let_def isExclusive_def split: if_splits)
  qed
qed

lemma FlowData_dtor_nodes: "px_nodes (FlowData_dtor d s) = px_nodes s"
proof -
  have "px_nodes (fold SharedMemory_dtor hs s) = px_nodes s" for hs s
    by (induction hs arbitrary: s) (simp_all add: SharedMemory_dtor_def close_fd_def posix_simps)
  then show ?thesis
    by (simp add: FlowData_dtor_def)
qed

lemma FlowData_dtor_unlocks: "(sm_fd (fl_flow d), l) \<notin> set (locks_of (FlowData_dtor d s) (sm_ino (fl_flow d)))"
  by (simp add: FlowData_dtor_def flow_handles_def SharedMemory_dtor_def close_fd_def posix_simps)

lemma unregister_nodes: "px_nodes (snd (unregister this d ws)) = px_nodes (snd ws)"
  by (auto simp: unregister_def removeFlow_def Let_def SharedMemory_dtor_def close_fd_def posix_simps split: option.splits prod.splits)

lemma FlowWriter_dtor_effect:
  "px_nodes (snd (FlowWriter_dtor this x ws)) = px_nodes (snd ws)"
  "(sm_fd (fl_flow (wo_data x)), l) \<notin> set (locks_of (snd (FlowWriter_dtor this x ws)) (sm_ino (fl_flow (wo_data x))))"
  by (simp_all add: FlowWriter_dtor_def close_files_def FlowData_dtor_nodes FlowData_dtor_unlocks unregister_nodes
      split: writer_kind.splits)


section \<open>Witnesses\<close>

definition reading_env :: instance_env where
  "reading_env = \<lparr>ie_flow = plain_env\<lparr>fe_from_string := (\<lambda>t. if t = ''1234'' then Some [1] else None)\<rparr>, ie_parse = (\<lambda>_. None)\<rparr>"

definition new_instance :: Instance where
  "new_instance =
     \<lparr>in_flowManager = \<lparr>fm_mxlDomain = [''d'']\<rparr>, in_readers = [], in_writers = [], in_syncGroups = [], in_options = [],
      in_historyDuration = 200000000, in_stopping = False, in_nextPtr = 1\<rparr>"

definition started :: world where
  "started = (new_instance, fresh_watcher, with_flow)"

definition then_read :: "world \<Rightarrow> world" where
  "then_read w = snd (getFlowReader reading_env ''1234'' w)"

lemma started_runs: "Instance_ctor reading_env [''d''] [] with_flow = (Ret new_instance, with_flow)"
  by (simp add: new_instance_def Instance_ctor_def bind_act_def FlowManager_ctor_def parseOptions_def
      readDomainHistoryDuration_def with_flow_def path_exists_def is_directory_def lookup_def reading_env_def plain_env_def
      no_faults_def path_names file_names makeDomainOptionsFilePath_def)

lemma first_read: "fst (getFlowReader reading_env ''1234'' started) = Ret 1"
  by code_simp

lemma second_read: "fst (getFlowReader reading_env ''1234'' (then_read started)) = Ret 1"
  by code_simp

lemma reads_reachable: "in_reachable ({#1, 1#}, {#}, then_read (then_read started))"
proof -
  have "in_reachable ({#}, {#}, started)"
    unfolding started_def by (rule in_initial [OF started_runs])
  moreover have "in_step ({#}, {#}, started) ({#1#}, {#}, then_read started)"
    using first_read by (intro in_get [where env = reading_env and t = "''1234''"])
      (auto simp: then_read_def intro: prod_eqI)
  moreover have "in_step ({#1#}, {#}, then_read started) ({#1, 1#}, {#}, then_read (then_read started))"
    using second_read by (intro in_get [where env = reading_env and t = "''1234''"])
      (auto simp: then_read_def [of "then_read started"] intro: prod_eqI)
  ultimately show ?thesis
    by (blast intro: in_then)
qed

theorem held_handles_are_live_witness:
  "fst (releaseReader 1 (then_read (then_read started))) = Ret () \<and>
   (\<exists>k v. find_ptr 1 (in_readers (fst (then_read (then_read started)))) = Some (k, v) \<and> unat (rc_count v) = 2)"
  using held_handles_are_live [OF reads_reachable, of reading_env] by (simp add: numeral_2_eq_2)

text \<open>A writer of the flow of \<^verbatim>\<open>with_flow\<close> that holds its shared lock.\<close>

definition writing_machine :: posix where
  "writing_machine = set_locks 0 [(3, LOCK_SH)] with_flow"

definition one_discrete_writer :: "FlowWriter RefCounted" where
  "one_discrete_writer = RefCounted_ctor 5 \<lparr>wo_flowId = [1],
     wo_data = \<lparr>fl_flow = \<lparr>sm_path = [''d'', ''1234.mxl-flow'', ''data''], sm_fd = 3, sm_ino = 0, sm_mode = READ_WRITE,
                              sm_mappedSize = SIZEOF_FLOW, sm_lockType = LockType_Shared\<rparr>, fl_maps = DiscreteMaps []\<rparr>,
     wo_kind = DiscreteWriter PosixDiscreteFlowWriter_ctor\<rparr>"


end
