(* ===== verification/FlowGeometry.thy ===== *)
theory FlowGeometry
  imports Instance
begin

text \<open>
  The sizes of the rings of a new flow (\<^verbatim>\<open>Instance.cpp\<close>): how many grains and how many samples of each
  channel an instance reserves for its history duration.
\<close>

lemma unat_cast_u64: "0 \<le> x \<Longrightarrow> x < 2 ^ 64 \<Longrightarrow> unat (cast_u64 x) = nat x"
  by (simp add: cast_u64_def unsigned_of_int take_bit_int_eq_self [of x 64])

lemma unat_mult_u64: "unat (x :: u64) * unat y < 2 ^ 64 \<Longrightarrow> unat (x * y) = unat x * unat y"
  by (simp add: unat_mult_lem [THEN iffD1])

lemma unat_add_u64: "unat (x :: u64) + unat y < 2 ^ 64 \<Longrightarrow> unat (x + y) = unat x + unat y"
  by (simp add: unat_add_lem [THEN iffD1])

lemma unat_div_u64: "unat (x div y :: u64) = unat x div unat y"
  by (simp add: unat_div_distrib)

text \<open>Rounding up to a multiple.\<close>

lemma round_up:
  fixes m b :: nat
  assumes "0 < m"
  shows "m dvd (b + m - 1) div m * m" "b \<le> (b + m - 1) div m * m" "(b + m - 1) div m * m < b + m"
proof -
  have "(b + m - 1) div m * m + (b + m - 1) mod m = b + m - 1" "(b + m - 1) mod m < m"
    using assms by simp_all
  then show "b \<le> (b + m - 1) div m * m" "(b + m - 1) div m * m < b + m"
    using assms by linarith+
qed simp

definition scaled :: "u64 \<Rightarrow> mxlRational \<Rightarrow> nat \<Rightarrow> nat" where
  "scaled h r unit = (unat h * nat (numerator r)) div (unit * nat (denominator r))"

lemma scaled_word:
  assumes "0 < numerator r" "0 < denominator r" "unat h * nat (numerator r) < 2 ^ 64"
    and "unat u * nat (denominator r) < 2 ^ 64" "0 < u" "0 < h"
  shows "u * cast_u64 (denominator r) \<noteq> 0"
    and "unat (h * cast_u64 (numerator r) div (u * cast_u64 (denominator r))) = scaled h r (unat u)"
proof -
  have h: "1 \<le> unat h" "1 \<le> unat u"
    using assms(5,6) by (simp_all add: word_gt_0 unat_gt_0 Suc_le_eq)
  have "1 * nat (numerator r) \<le> unat h * nat (numerator r)" "1 * nat (denominator r) \<le> unat u * nat (denominator r)"
    using h by (auto intro: mult_le_mono1)
  then have "nat (numerator r) < 2 ^ 64" "nat (denominator r) < 2 ^ 64"
    using assms(3,4) by linarith+
  then have c: "unat (cast_u64 (numerator r)) = nat (numerator r)" "unat (cast_u64 (denominator r)) = nat (denominator r)"
    using assms(1,2) by (simp_all add: unat_cast_u64 nat_less_iff)
  then have d: "unat (u * cast_u64 (denominator r)) = unat u * nat (denominator r)"
    using assms(4) by (simp add: unat_mult_u64)
  then show "u * cast_u64 (denominator r) \<noteq> 0"
    using h assms(2) by (auto simp: unat_eq_zero [symmetric] simp del: unat_eq_zero)
  show "unat (h * cast_u64 (numerator r) div (u * cast_u64 (denominator r))) = scaled h r (unat u)"
    using c d assms(3) by (simp add: unat_div_u64 unat_mult_u64 scaled_def)
qed

text \<open>
  C19: for a rate whose products fit into 64 bits, the number of grains is the history duration in grains,
  rounded down, hence zero exactly when one grain lasts longer than the history; the number of samples is
  the smallest multiple of the samples on a page that covers twice the history, so that the buffer of a
  channel is made of whole pages when the sample size divides the page size.
\<close>

theorem ring_geometry:
  assumes "0 < numerator r" "0 < denominator r" "0 < h" "unat h * nat (numerator r) + 4096 < 2 ^ 64"
    and "1000000000 * nat (denominator r) < 2 ^ 64" "0 < w" "w \<le> 4096"
  shows "\<exists>n len. grain_count_for h r = Ret n \<and> unat n = scaled h r 1000000000 \<and>
      (n = 0 \<longleftrightarrow> unat h * nat (numerator r) < 1000000000 * nat (denominator r)) \<and>
    page_aligned_length h r w = Ret len \<and> 4096 div unat w dvd unat len \<and>
    scaled h r 500000000 \<le> unat len \<and> unat len < scaled h r 500000000 + 4096 div unat w \<and>
    (unat w dvd 4096 \<longrightarrow> 4096 dvd unat len * unat w)"
proof -
  let ?n = "h * cast_u64 (numerator r) div (1000000000 * cast_u64 (denominator r))"
  let ?b = "h * cast_u64 (numerator r) div (500000000 * cast_u64 (denominator r))"
  have n: "1000000000 * cast_u64 (denominator r) \<noteq> 0" "unat ?n = scaled h r 1000000000"
    using scaled_word [OF assms(1,2), of h 1000000000] assms(3-5) by simp_all
  have b: "500000000 * cast_u64 (denominator r) \<noteq> 0" "unat ?b = scaled h r 500000000"
    using scaled_word [OF assms(1,2), of h 500000000] assms(3-5) by simp_all
  have "?n = 0 \<longleftrightarrow> unat h * nat (numerator r) < 1000000000 * nat (denominator r)"
    using n(2) assms(2) by (simp add: unat_eq_zero [symmetric] scaled_def div_eq_0_iff del: unat_eq_zero)
  moreover have w: "0 < unat w" "unat w \<le> 4096"
    using assms(6,7) by (simp_all add: word_gt_0 unat_gt_0 word_le_nat_alt)
  let ?p = "4096 div w"
  have p: "unat ?p = 4096 div unat w" "0 < unat ?p"
    using w by (simp_all add: unat_div_u64 div_greater_zero_iff)
  have "unat ?p \<le> 4096"
    using p(1) by (simp add: div_le_dividend)
  have "scaled h r 500000000 \<le> unat h * nat (numerator r)"
    by (simp add: scaled_def div_le_dividend)
  then have fits: "unat ?b + unat ?p < 2 ^ 64"
    using b(2) \<open>unat ?p \<le> 4096\<close> assms(4) by linarith
  let ?len = "((?b + ?p - 1) div ?p) * ?p"
  have "unat (?b + ?p - 1) = unat ?b + unat ?p - 1"
  proof -
    have "unat (?b + ?p) = unat ?b + unat ?p"
      using fits by (rule unat_add_u64)
    moreover from this have "?b + ?p \<noteq> 0"
      using p(2) by (auto simp: unat_eq_zero [symmetric] simp del: unat_eq_zero)
    ultimately show ?thesis
      by (simp add: unat_minus_one)
  qed
  then have q: "unat ((?b + ?p - 1) div ?p) = (unat ?b + unat ?p - 1) div unat ?p"
    by (simp add: unat_div_u64)
  then have len: "unat ?len = (unat ?b + unat ?p - 1) div unat ?p * unat ?p"
    using round_up(3) [OF p(2), of "unat ?b"] fits by (subst unat_mult_u64) (simp_all add: q)
  have "page_aligned_length h r w = Ret ?len"
    using b(1) assms(6) p(2) by (auto simp: page_aligned_length_def Let_def word_gt_0 unat_gt_0)
  moreover have lens: "unat ?p dvd unat ?len" "unat ?b \<le> unat ?len" "unat ?len < unat ?b + unat ?p"
    unfolding len by (rule round_up [OF p(2)])+
  moreover have "4096 dvd unat ?len * unat w" if "unat w dvd 4096"
  proof -
    have "unat ?p * unat w = 4096"
      using that p(1) by simp
    then show ?thesis
      using mult_dvd_mono [OF lens(1) dvd_refl [of "unat w"]] by simp
  qed
  ultimately show ?thesis
    using n b(2) p(1) by (intro exI [of _ ?n] exI [of _ ?len]) (simp add: grain_count_for_def Let_def)
qed

theorem ring_geometry_witness:
  "(\<exists>n. grain_count_for 200000000 \<lparr>numerator = 4, denominator = 1\<rparr> = Ret n \<and> n = 0) \<and>
   (\<exists>len. page_aligned_length 200000000 \<lparr>numerator = 48000, denominator = 1\<rparr> 4 = Ret len \<and> 4096 dvd unat len * 4)"
  using ring_geometry [of "\<lparr>numerator = 4, denominator = 1\<rparr>" 200000000 4]
    ring_geometry [of "\<lparr>numerator = 48000, denominator = 1\<rparr>" 200000000 4] by auto

end
