(* ===== verification/FlowApi.thy ===== *)
theory FlowApi
  imports Instance
begin

text \<open>
  The public C interface (\<^verbatim>\<open>flow.cpp\<close>, \<^verbatim>\<open>mxl.cpp\<close>) on a process with one instance. A handle is the address of an
  object, 0 is the null pointer, and an address that is not that of an object is dangling: following it is
  undefined. An output pointer is modelled by whether it is given, and what is stored through it by an
  optional result beside the status.
\<close>

section \<open>Handles\<close>

definition is_null :: "nat \<Rightarrow> bool" where
  "is_null p \<longleftrightarrow> p = 0"

definition files_of :: "world \<Rightarrow> posix" where
  "files_of w = snd (snd w)"

definition reader_at :: "nat \<Rightarrow> world \<Rightarrow> FlowReader res" where
  "reader_at p w = (case find_ptr p (in_readers (fst w)) of None \<Rightarrow> Undef | Some (k, v) \<Rightarrow> Ret (rc_value v))"

text \<open>\<^verbatim>\<open>dynamic_cast\<close> of a null pointer, and to a class that the object is not of, gives null.\<close>

definition cast_reader :: "(reader_kind \<Rightarrow> 'k option) \<Rightarrow> nat \<Rightarrow> world \<Rightarrow> (FlowReader \<times> 'k) option res" where
  "cast_reader kind p w =
     (if is_null p then Ret None
      else map_ret (\<lambda>r. map_option (\<lambda>k. (r, k)) (kind (ro_kind r))) (reader_at p w))"

fun as_discrete_reader :: "reader_kind \<Rightarrow> unit option" where
  "as_discrete_reader (DiscreteReader fd) = Some ()"
| "as_discrete_reader _ = None"

fun as_continuous_reader :: "reader_kind \<Rightarrow> PosixContinuousFlowReader option" where
  "as_continuous_reader (ContinuousReader r) = Some r"
| "as_continuous_reader _ = None"

fun as_event_reader :: "reader_kind \<Rightarrow> (u64 \<times> (nat \<times> nat) option) option" where
  "as_event_reader (EventReader i fd) = Some (i, fd)"
| "as_event_reader _ = None"

text \<open>The inode that \<^verbatim>\<open>stat\<close> gives for the data file of the flow of a reader.\<close>

definition flow_stat :: "flow_env \<Rightarrow> FlowReader \<Rightarrow> posix \<Rightarrow> u64 option" where
  "flow_stat env r s =
     (let path = makeFlowDataFilePath (makeFlowDirectoryName (ro_domain r) (fe_to_string env (ro_flowId r)))
      in if fe_faults env Call_stat path \<noteq> None then None
         else case lookup s path of Some (Regular ino) \<Rightarrow> Some (of_nat ino) | _ \<Rightarrow> None)"

text \<open>What exceptions become at the boundary.\<close>

definition caught :: "(exn \<Rightarrow> mxlStatus) \<Rightarrow> (mxlStatus \<times> 'a option) res \<Rightarrow> (mxlStatus \<times> 'a option) res" where
  "caught f r = (case r of Throw e \<Rightarrow> Ret (f e, None) | _ \<Rightarrow> r)"

definition any_error :: "exn \<Rightarrow> mxlStatus" where
  "any_error e = MXL_ERR_UNKNOWN"

definition caught_act :: "(exn \<Rightarrow> mxlStatus) \<Rightarrow> ('s, mxlStatus \<times> 'a option) act \<Rightarrow> ('s, mxlStatus \<times> 'a option) act" where
  "caught_act f m s = (case m s of (r, s) \<Rightarrow> (caught f r, s))"

definition answer :: "mxlStatus \<Rightarrow> (mxlStatus \<times> 'a option) res" where
  "answer status = Ret (status, None)"

definition ok_with :: "'a \<Rightarrow> (mxlStatus \<times> 'a option) res" where
  "ok_with x = Ret (MXL_STATUS_OK, Some x)"

text \<open>A timeout is read as signed; the sum is signed too, so a long timeout overflows.\<close>

definition signed64 :: "u64 \<Rightarrow> int" where
  "signed64 x = (if uint x < 2 ^ 63 then uint x else uint x - 2 ^ 64)"

definition toDeadline :: "timepoint \<Rightarrow> u64 \<Rightarrow> timepoint res" where
  "toDeadline now timeoutNs = tp_plus now (Duration (signed64 timeoutNs))"

section \<open>Flows\<close>

definition mxlIsFlowActive :: "instance_env \<Rightarrow> bool \<Rightarrow> string option \<Rightarrow> bool \<Rightarrow> (world, mxlStatus \<times> bool option) act" where
  "mxlIsFlowActive env inst flowId isActive w =
     (if \<not> isActive \<or> \<not> inst then (answer MXL_ERR_INVALID_ARG, w)
      else case flowId of
        None \<Rightarrow> (answer MXL_ERR_INVALID_ARG, w)
      | Some name \<Rightarrow>
          (if fe_from_string (ie_flow env) name = None then (answer MXL_ERR_INVALID_ARG, w)
           else let flt = fe_faults (ie_flow env);
                    flowDataFile = makeFlowDataFilePath (makeFlowDirectoryName (getDomain (fst w)) name)
                in case open_existing flt flowDataFile (files_of w) of
                     (Inl e, s) \<Rightarrow> (answer MXL_ERR_FLOW_NOT_FOUND, fst w, fst (snd w), s)
                   | (Inr (fd, ino), s) \<Rightarrow>
                       (case flock_nb flt flowDataFile fd ino LOCK_EX s of
                          (err, s) \<Rightarrow> (ok_with (err \<noteq> None), fst w, fst (snd w), close_fd fd ino s))))"

text \<open>
  \<^verbatim>\<open>strncpy\<close> copies up to the first null character and fills the rest; the buffer has to be as long as the
  caller says.
\<close>

definition strncpy_chars :: "string \<Rightarrow> nat \<Rightarrow> string" where
  "strncpy_chars text n = (let t = take n (takeWhile (\<lambda>c. c \<noteq> CHR 0x00) text) in t @ replicate (n - length t) (CHR 0x00))"

lemma strncpy_terminated: "CHR 0x00 \<notin> set text \<Longrightarrow> strncpy_chars text (length text + 1) = text @ [CHR 0x00]"
proof -
  assume "CHR 0x00 \<notin> set text"
  then have "takeWhile (\<lambda>c. c \<noteq> CHR 0x00) text = text"
    by (auto simp: takeWhile_eq_all_conv)
  then show ?thesis
    unfolding strncpy_chars_def Let_def \<open>takeWhile (\<lambda>c. c \<noteq> CHR 0x00) text = text\<close> by simp
qed

definition definition_error :: "exn \<Rightarrow> mxlStatus" where
  "definition_error e = (if e = FilesystemError ENOENT then MXL_ERR_FLOW_NOT_FOUND else MXL_ERR_UNKNOWN)"

text \<open>The result is the size stored through \<^verbatim>\<open>bufferSize\<close> and the new content of the buffer.\<close>

definition mxlGetFlowDef ::
  "instance_env \<Rightarrow> bool \<Rightarrow> string option \<Rightarrow> string option \<Rightarrow> nat option \<Rightarrow> world
    \<Rightarrow> (mxlStatus \<times> (nat \<times> string option) option) res" where
  "mxlGetFlowDef env inst flowId buffer sizePtr w =
     (case (flowId, sizePtr) of
        (Some name, Some given_size) \<Rightarrow>
          caught definition_error
            (if \<not> inst then answer MXL_ERR_INVALID_ARG
             else case fe_from_string (ie_flow env) name of
               None \<Rightarrow> answer MXL_ERR_INVALID_ARG
             | Some i \<Rightarrow>
                 bind_res (instance_getFlowDef env i w) (\<lambda>flowDef.
                   let needed = length flowDef + 1
                   in case buffer of
                        None \<Rightarrow> Ret (MXL_ERR_INVALID_ARG, Some (needed, None))
                      | Some memory \<Rightarrow>
                          (if given_size < needed then Ret (MXL_ERR_INVALID_ARG, Some (needed, Some memory))
                           else if length memory < needed then Undef
                           else ok_with (needed,
                                  Some (strncpy_chars flowDef needed @ drop needed memory)))))
      | _ \<Rightarrow> answer MXL_ERR_INVALID_ARG)"

section \<open>Creation and release of readers and writers\<close>

definition reader_error :: "exn \<Rightarrow> mxlStatus" where
  "reader_error e =
     (case e of
        FilesystemError ENOENT \<Rightarrow> MXL_ERR_FLOW_NOT_FOUND
      | FilesystemError EACCES \<Rightarrow> MXL_ERR_PERMISSION_DENIED
      | FilesystemError EPERM \<Rightarrow> MXL_ERR_PERMISSION_DENIED
      | _ \<Rightarrow> MXL_ERR_UNKNOWN)"

definition mxlCreateFlowReader ::
  "instance_env \<Rightarrow> bool \<Rightarrow> string option \<Rightarrow> bool \<Rightarrow> (world, mxlStatus \<times> nat option) act" where
  "mxlCreateFlowReader env inst flowId reader =
     (if \<not> reader \<or> \<not> inst then lift_act (answer MXL_ERR_INVALID_ARG)
      else case flowId of
        None \<Rightarrow> lift_act (answer MXL_ERR_INVALID_ARG)
      | Some name \<Rightarrow>
          (if fe_from_string (ie_flow env) name = None then lift_act (answer MXL_ERR_INVALID_ARG)
           else caught_act reader_error (bind_act (getFlowReader env name) (\<lambda>p. lift_act (ok_with p)))))"

definition mxlReleaseFlowReader :: "bool \<Rightarrow> nat \<Rightarrow> (world, mxlStatus \<times> unit option) act" where
  "mxlReleaseFlowReader inst reader =
     (if inst \<and> \<not> is_null reader then caught_act any_error (bind_act (releaseReader reader) (\<lambda>_. lift_act (ok_with ())))
      else lift_act (answer MXL_ERR_INVALID_ARG))"

definition writer_error :: "exn \<Rightarrow> mxlStatus" where
  "writer_error e =
     (case e of
        FilesystemError EACCES \<Rightarrow> MXL_ERR_PERMISSION_DENIED
      | FilesystemError EPERM \<Rightarrow> MXL_ERR_PERMISSION_DENIED
      | FilesystemError EROFS \<Rightarrow> MXL_ERR_PERMISSION_DENIED
      | _ \<Rightarrow> MXL_ERR_UNKNOWN)"

definition given :: "bool \<Rightarrow> 'a \<Rightarrow> 'a option" where
  "given b x = (if b then Some x else None)"

definition mxlCreateFlowWriter ::
  "instance_env \<Rightarrow> bool \<Rightarrow> string option \<Rightarrow> string option \<Rightarrow> bool \<Rightarrow> bool \<Rightarrow> bool
    \<Rightarrow> (world, mxlStatus \<times> (nat \<times> mxlFlowConfigInfo option \<times> bool option) option) act" where
  "mxlCreateFlowWriter env inst flowDef options writer configInfo wantCreated =
     (case flowDef of
        None \<Rightarrow> lift_act (answer MXL_ERR_INVALID_ARG)
      | Some def \<Rightarrow>
          (if \<not> inst \<or> \<not> writer then lift_act (answer MXL_ERR_INVALID_ARG)
           else caught_act writer_error
             (bind_act (instance_createFlowWriter env def options) (\<lambda>(flowConfigInfo, flowWriter, flowCreated).
                lift_act (ok_with (flowWriter, given configInfo flowConfigInfo, given wantCreated flowCreated))))))"

definition mxlReleaseFlowWriter :: "instance_env \<Rightarrow> bool \<Rightarrow> nat \<Rightarrow> (world, mxlStatus \<times> unit option) act" where
  "mxlReleaseFlowWriter env inst writer =
     (if \<not> inst \<or> is_null writer then lift_act (answer MXL_ERR_INVALID_ARG)
      else caught_act any_error (bind_act (releaseWriter env writer) (\<lambda>_. lift_act (ok_with ()))))"

section \<open>Readers\<close>

definition reader_info :: "(mxlFlowInfo \<Rightarrow> 'a) \<Rightarrow> nat \<Rightarrow> bool \<Rightarrow> world \<Rightarrow> (mxlStatus \<times> 'a option) res" where
  "reader_info part reader info w =
     caught any_error
       (if \<not> info then answer MXL_ERR_INVALID_ARG
        else if is_null reader then answer MXL_ERR_INVALID_FLOW_READER
        else bind_res (reader_at reader w) (\<lambda>r.
          case flow_segment (fl_flow (ro_data r)) (files_of w) of
            None \<Rightarrow> Undef
          | Some (i, st) \<Rightarrow> ok_with (part i)))"

definition mxlFlowReaderGetInfo :: "nat \<Rightarrow> bool \<Rightarrow> world \<Rightarrow> (mxlStatus \<times> mxlFlowInfo option) res" where
  "mxlFlowReaderGetInfo = reader_info (\<lambda>i. i)"

definition mxlFlowReaderGetConfigInfo :: "nat \<Rightarrow> bool \<Rightarrow> world \<Rightarrow> (mxlStatus \<times> mxlFlowConfigInfo option) res" where
  "mxlFlowReaderGetConfigInfo = reader_info fi_config"

definition mxlFlowReaderGetRuntimeInfo :: "nat \<Rightarrow> bool \<Rightarrow> world \<Rightarrow> (mxlStatus \<times> mxlFlowRuntimeInfo option) res" where
  "mxlFlowReaderGetRuntimeInfo = reader_info fi_runtime"

text \<open>
  A blocking call looks at the files again and again: the list gives what they hold at each look, and
  whether \<^verbatim>\<open>waitUntilChanged\<close> reported a change after it. The result is \<^verbatim>\<open>None\<close> when the list is too short.
\<close>

type_synonym looks = "(posix \<times> bool) list"

definition load_looks :: "(posix \<Rightarrow> 'a option) \<Rightarrow> looks \<Rightarrow> ('a \<times> bool) list option" where
  "load_looks load obs = those (map (\<lambda>(s, b). map_option (\<lambda>d. (d, b)) (load s)) obs)"

definition last_files :: "looks \<Rightarrow> posix \<Rightarrow> posix" where
  "last_files obs s = (case obs of [] \<Rightarrow> s | _ \<Rightarrow> fst (last obs))"

definition state_at :: "FlowReader \<Rightarrow> posix \<Rightarrow> FlowState option" where
  "state_at r s = map_option snd (flow_segment (fl_flow (ro_data r)) s)"

text \<open>The cast of the handle, and what is done with an object of the right class.\<close>

definition on_reader ::
  "(reader_kind \<Rightarrow> 'k option) \<Rightarrow> nat \<Rightarrow> world \<Rightarrow> (FlowReader \<Rightarrow> 'k \<Rightarrow> (mxlStatus \<times> 'a option) res)
    \<Rightarrow> (mxlStatus \<times> 'a option) res" where
  "on_reader kind reader w f =
     bind_res (cast_reader kind reader w) (\<lambda>c. case c of None \<Rightarrow> answer MXL_ERR_INVALID_FLOW_READER | Some (r, k) \<Rightarrow> f r k)"

definition mxlFlowReaderGetGrainSlice ::
  "flow_env \<Rightarrow> timepoint \<Rightarrow> nat \<Rightarrow> u64 \<Rightarrow> u16 \<Rightarrow> u64 \<Rightarrow> bool \<Rightarrow> bool \<Rightarrow> looks \<Rightarrow> world
    \<Rightarrow> (mxlStatus \<times> Grain option) res option" where
  "mxlFlowReaderGetGrainSlice env now reader index minValidSlices timeoutNs grainInfo payload obs w =
     (if \<not> grainInfo \<or> \<not> payload then Some (answer MXL_ERR_INVALID_ARG)
      else case cast_reader as_discrete_reader reader w of
        Undef \<Rightarrow> Some Undef
      | Throw e \<Rightarrow> Some (answer MXL_ERR_UNKNOWN)
      | Ret None \<Rightarrow> Some (answer MXL_ERR_INVALID_FLOW_READER)
      | Ret (Some (r, k)) \<Rightarrow>
          (case (toDeadline now timeoutNs, load_looks (load_discrete (ro_data r)) obs, state_at r (last_files obs (files_of w))) of
             (Ret deadline, Some ds, Some st) \<Rightarrow>
               map_option (caught any_error)
                 (getGrain_until index minValidSlices ds (flow_stat env r (last_files obs (files_of w))) st)
           | _ \<Rightarrow> Some Undef))"

definition mxlFlowReaderGetGrain ::
  "flow_env \<Rightarrow> timepoint \<Rightarrow> nat \<Rightarrow> u64 \<Rightarrow> u64 \<Rightarrow> bool \<Rightarrow> bool \<Rightarrow> looks \<Rightarrow> world \<Rightarrow> (mxlStatus \<times> Grain option) res option" where
  "mxlFlowReaderGetGrain env now reader index timeoutNs grainInfo payload obs w =
     mxlFlowReaderGetGrainSlice env now reader index MXL_GRAIN_VALID_SLICES_ALL timeoutNs grainInfo payload obs w"

definition mxlFlowReaderGetGrainSliceNonBlocking ::
  "flow_env \<Rightarrow> nat \<Rightarrow> u64 \<Rightarrow> u16 \<Rightarrow> bool \<Rightarrow> bool \<Rightarrow> world \<Rightarrow> (mxlStatus \<times> Grain option) res" where
  "mxlFlowReaderGetGrainSliceNonBlocking env reader index minValidSlices grainInfo payload w =
     caught any_error
       (if \<not> grainInfo \<or> \<not> payload then answer MXL_ERR_INVALID_ARG
        else on_reader as_discrete_reader reader w (\<lambda>r k.
          case load_discrete (ro_data r) (files_of w) of
            None \<Rightarrow> Undef
          | Some d \<Rightarrow> getGrain index minValidSlices d (flow_stat env r (files_of w))))"

definition mxlFlowReaderGetGrainNonBlocking ::
  "flow_env \<Rightarrow> nat \<Rightarrow> u64 \<Rightarrow> bool \<Rightarrow> bool \<Rightarrow> world \<Rightarrow> (mxlStatus \<times> Grain option) res" where
  "mxlFlowReaderGetGrainNonBlocking env reader index grainInfo payload w =
     mxlFlowReaderGetGrainSliceNonBlocking env reader index MXL_GRAIN_VALID_SLICES_ALL grainInfo payload w"

definition mxlFlowReaderGetMaxReadLengthSamples :: "nat \<Rightarrow> bool \<Rightarrow> world \<Rightarrow> (mxlStatus \<times> u64 option) res" where
  "mxlFlowReaderGetMaxReadLengthSamples reader maxReadLength w =
     caught any_error
       (if \<not> maxReadLength then answer MXL_ERR_INVALID_ARG
        else on_reader as_continuous_reader reader w (\<lambda>r k. ok_with (getMaxReadLength k)))"

definition mxlFlowReaderGetSamples ::
  "flow_env \<Rightarrow> timepoint \<Rightarrow> nat \<Rightarrow> u64 \<Rightarrow> u64 \<Rightarrow> u64 \<Rightarrow> bool \<Rightarrow> looks \<Rightarrow> world
    \<Rightarrow> (mxlStatus \<times> mxlWrappedMultiBufferSlice option) res option" where
  "mxlFlowReaderGetSamples env now reader index n timeoutNs slices obs w =
     (if \<not> slices then Some (answer MXL_ERR_INVALID_ARG)
      else case cast_reader as_continuous_reader reader w of
        Undef \<Rightarrow> Some Undef
      | Throw e \<Rightarrow> Some (answer MXL_ERR_UNKNOWN)
      | Ret None \<Rightarrow> Some (answer MXL_ERR_INVALID_FLOW_READER)
      | Ret (Some (r, k)) \<Rightarrow>
          (case (toDeadline now timeoutNs, load_looks (load_continuous (ro_data r)) obs, state_at r (last_files obs (files_of w))) of
             (Ret deadline, Some ds, Some st) \<Rightarrow>
               map_option (caught any_error)
                 (getSamples_until index n k ds (flow_stat env r (last_files obs (files_of w))) st)
           | _ \<Rightarrow> Some Undef))"

definition mxlFlowReaderGetSamplesNonBlocking ::
  "flow_env \<Rightarrow> nat \<Rightarrow> u64 \<Rightarrow> u64 \<Rightarrow> bool \<Rightarrow> world \<Rightarrow> (mxlStatus \<times> mxlWrappedMultiBufferSlice option) res" where
  "mxlFlowReaderGetSamplesNonBlocking env reader index n slices w =
     caught any_error
       (if \<not> slices then answer MXL_ERR_INVALID_ARG
        else on_reader as_continuous_reader reader w (\<lambda>r k.
          case load_continuous (ro_data r) (files_of w) of
            None \<Rightarrow> Undef
          | Some d \<Rightarrow> getSamples index n k d (flow_stat env r (files_of w))))"

text \<open>What a round of the blocking read of an event sees; the reader keeps its position.\<close>

record event_look =
  el_first :: posix
  el_read :: posix
  el_again :: posix
  el_now :: timepoint
  el_wait :: bool

definition event_obs_of :: "flow_env \<Rightarrow> FlowReader \<Rightarrow> event_look \<Rightarrow> event_obs option" where
  "event_obs_of env r l =
     (case (load_event (ro_data r) (el_first l), load_event (ro_data r) (el_read l), load_event (ro_data r) (el_again l)) of
        (Some a, Some b, Some c) \<Rightarrow>
          Some \<lparr>eo_first = a, eo_read = b, eo_again = c, eo_stat = flow_stat env r (el_read l), eo_now = el_now l,
                eo_wait = el_wait l\<rparr>
      | _ \<Rightarrow> None)"

definition move_reader :: "nat \<Rightarrow> u64 \<Rightarrow> Instance \<Rightarrow> Instance" where
  "move_reader p nextIndex i =
     (case find_ptr p (in_readers i) of
        Some (k, v) \<Rightarrow>
          (case ro_kind (rc_value v) of
             EventReader n fd \<Rightarrow>
               i\<lparr>in_readers := put k (v\<lparr>rc_value := (rc_value v)\<lparr>ro_kind := EventReader nextIndex fd\<rparr>\<rparr>) (in_readers i)\<rparr>
           | _ \<Rightarrow> i)
      | None \<Rightarrow> i)"

definition mxlFlowReaderGetEvent ::
  "flow_env \<Rightarrow> timepoint \<Rightarrow> nat \<Rightarrow> u64 \<Rightarrow> bool \<Rightarrow> bool \<Rightarrow> event_look list \<Rightarrow> world
    \<Rightarrow> ((mxlStatus \<times> (mxlEventInfo \<times> u8 list) option) res \<times> world) option" where
  "mxlFlowReaderGetEvent env now reader timeoutNs info payload obs w =
     (if \<not> info \<or> \<not> payload then Some (answer MXL_ERR_INVALID_ARG, w)
      else case cast_reader as_event_reader reader w of
        Undef \<Rightarrow> Some (Undef, w)
      | Throw e \<Rightarrow> Some (answer MXL_ERR_UNKNOWN, w)
      | Ret None \<Rightarrow> Some (answer MXL_ERR_INVALID_FLOW_READER, w)
      | Ret (Some (r, nextIndex, fd)) \<Rightarrow>
          (case (toDeadline now timeoutNs, those (map (event_obs_of env r) obs)) of
             (Ret deadline, Some os) \<Rightarrow>
               map_option (\<lambda>(status, out, nextIndex). (Ret (status, out), change_instance (move_reader reader nextIndex) w))
                 (getEvent deadline os nextIndex)
           | _ \<Rightarrow> Some (Undef, w)))"

definition mxlFlowReaderGetEventNonBlocking ::
  "flow_env \<Rightarrow> timepoint \<Rightarrow> nat \<Rightarrow> bool \<Rightarrow> bool \<Rightarrow> event_look list \<Rightarrow> world
    \<Rightarrow> ((mxlStatus \<times> (mxlEventInfo \<times> u8 list) option) res \<times> world) option" where
  "mxlFlowReaderGetEventNonBlocking env now reader info payload obs w =
     mxlFlowReaderGetEvent env now reader 0 info payload obs w"

section \<open>Writers\<close>

text \<open>
  An operation of a writer gets its private state, the mappings of its flow and the files, and gives a
  status, what it stores through its output pointers, the new private state and the new files. It is
  \<^verbatim>\<open>None\<close> when the writer is of another class.
\<close>

type_synonym 'a writer_op = "writer_kind \<Rightarrow> FlowData \<Rightarrow> posix \<Rightarrow> (mxlStatus \<times> 'a option \<times> writer_kind \<times> posix) res option"

definition on_writer :: "nat \<Rightarrow> 'a writer_op \<Rightarrow> (world, mxlStatus \<times> 'a option) act" where
  "on_writer writer f w =
     (if is_null writer then (answer MXL_ERR_INVALID_FLOW_WRITER, w)
      else case find_ptr writer (in_writers (fst w)) of
        None \<Rightarrow> (Undef, w)
      | Some (k, v) \<Rightarrow>
          (case f (wo_kind (rc_value v)) (wo_data (rc_value v)) (files_of w) of
             None \<Rightarrow> (answer MXL_ERR_INVALID_FLOW_WRITER, w)
           | Some Undef \<Rightarrow> (Undef, w)
           | Some (Throw e) \<Rightarrow> (answer (any_error e), w)
           | Some (Ret (status, out, kind, s)) \<Rightarrow>
               (Ret (status, out),
                (fst w)\<lparr>in_writers := put k (v\<lparr>rc_value := (rc_value v)\<lparr>wo_kind := kind\<rparr>\<rparr>) (in_writers (fst w))\<rparr>,
                fst (snd w), s)))"

definition discrete_op ::
  "(PosixDiscreteFlowWriter \<Rightarrow> DiscreteFlowData \<Rightarrow> (mxlStatus \<times> 'a option \<times> PosixDiscreteFlowWriter \<times> DiscreteFlowData) res)
    \<Rightarrow> 'a writer_op" where
  "discrete_op f kind data s =
     (case kind of
        DiscreteWriter x \<Rightarrow>
          Some (case load_discrete data s of
                  None \<Rightarrow> Undef
                | Some d \<Rightarrow>
                    map_ret (\<lambda>(status, out, x', d'). (status, out, DiscreteWriter x', store_discrete data d' s)) (f x d))
      | _ \<Rightarrow> None)"

definition continuous_op ::
  "(PosixContinuousFlowWriter \<Rightarrow> ContinuousFlowData
      \<Rightarrow> (mxlStatus \<times> 'a option \<times> PosixContinuousFlowWriter \<times> ContinuousFlowData) res) \<Rightarrow> 'a writer_op" where
  "continuous_op f kind data s =
     (case kind of
        ContinuousWriter x \<Rightarrow>
          Some (case load_continuous data s of
                  None \<Rightarrow> Undef
                | Some d \<Rightarrow>
                    map_ret (\<lambda>(status, out, x', d'). (status, out, ContinuousWriter x', store_continuous data d' s)) (f x d))
      | _ \<Rightarrow> None)"

definition event_op ::
  "(PosixEventFlowWriter \<Rightarrow> EventFlowData \<Rightarrow> (mxlStatus \<times> 'a option \<times> PosixEventFlowWriter \<times> EventFlowData) res)
    \<Rightarrow> 'a writer_op" where
  "event_op f kind data s =
     (case kind of
        EventWriter x \<Rightarrow>
          Some (case load_event data s of
                  None \<Rightarrow> Undef
                | Some d \<Rightarrow>
                    map_ret (\<lambda>(status, out, x', d'). (status, out, EventWriter x', store_event data d' s)) (f x d))
      | _ \<Rightarrow> None)"

definition mxlFlowWriterGetGrainInfo :: "nat \<Rightarrow> u64 \<Rightarrow> bool \<Rightarrow> (world, mxlStatus \<times> mxlGrainInfo option) act" where
  "mxlFlowWriterGetGrainInfo writer index grainInfo =
     (if \<not> grainInfo then lift_act (answer MXL_ERR_INVALID_ARG)
      else on_writer writer (discrete_op (\<lambda>x d. map_ret (\<lambda>i. (MXL_STATUS_OK, Some i, x, d)) (getGrainInfo index d))))"

text \<open>The payload pointer is that of the mapped grain, which the client then fills.\<close>

definition mxlFlowWriterOpenGrain :: "nat \<Rightarrow> u64 \<Rightarrow> bool \<Rightarrow> bool \<Rightarrow> (world, mxlStatus \<times> Grain option) act" where
  "mxlFlowWriterOpenGrain writer index grainInfo payload =
     (if \<not> grainInfo \<or> \<not> payload then lift_act (answer MXL_ERR_INVALID_ARG)
      else on_writer writer (discrete_op (openGrain index)))"

definition client_fills_grain :: "nat \<Rightarrow> u64 \<Rightarrow> u8 list \<Rightarrow> (world, mxlStatus \<times> unit option) act" where
  "client_fills_grain writer index payload =
     on_writer writer (discrete_op (\<lambda>x d.
       bind_res (grain_offset d index) (\<lambda>offset.
       map_ret (\<lambda>d. (MXL_STATUS_OK, None, x, d)) (update_grain offset (\<lambda>g. g\<lparr>gr_payload := payload\<rparr>) d))))"

definition mxlFlowWriterCancelGrain :: "nat \<Rightarrow> (world, mxlStatus \<times> unit option) act" where
  "mxlFlowWriterCancelGrain writer =
     on_writer writer (\<lambda>kind data s.
       case kind of
         DiscreteWriter x \<Rightarrow> (case cancel_grain x of (status, x') \<Rightarrow> Some (Ret (status, None, DiscreteWriter x', s)))
       | _ \<Rightarrow> None)"

definition mxlFlowWriterCommitGrain :: "u64 \<Rightarrow> nat \<Rightarrow> mxlGrainInfo option \<Rightarrow> (world, mxlStatus \<times> unit option) act" where
  "mxlFlowWriterCommitGrain now writer grainInfo =
     (case grainInfo of
        None \<Rightarrow> lift_act (answer MXL_ERR_INVALID_ARG)
      | Some info \<Rightarrow>
          on_writer writer (discrete_op (\<lambda>x d. map_ret (\<lambda>(status, x, d). (status, None, x, d)) (commit_grain now info x d))))"

definition mxlFlowWriterGetMaxWriteLengthSamples :: "nat \<Rightarrow> bool \<Rightarrow> (world, mxlStatus \<times> u64 option) act" where
  "mxlFlowWriterGetMaxWriteLengthSamples writer maxWriteLength =
     (if \<not> maxWriteLength then lift_act (answer MXL_ERR_INVALID_ARG)
      else on_writer writer (\<lambda>kind data s.
        case kind of
          ContinuousWriter x \<Rightarrow> Some (Ret (MXL_STATUS_OK, Some (getMaxWriteLength x), kind, s))
        | _ \<Rightarrow> None))"

definition mxlFlowWriterOpenSamples ::
  "nat \<Rightarrow> u64 \<Rightarrow> u64 \<Rightarrow> bool \<Rightarrow> (world, mxlStatus \<times> mxlWrappedMultiBufferSlice option) act" where
  "mxlFlowWriterOpenSamples writer index n slices =
     (if \<not> slices then lift_act (answer MXL_ERR_INVALID_ARG)
      else on_writer writer (continuous_op (\<lambda>x d. map_ret (\<lambda>(status, out, x). (status, out, x, d)) (openSamples index n x d))))"

definition mxlFlowWriterCancelSamples :: "nat \<Rightarrow> (world, mxlStatus \<times> unit option) act" where
  "mxlFlowWriterCancelSamples writer =
     on_writer writer (\<lambda>kind data s.
       case kind of
         ContinuousWriter x \<Rightarrow> (case cancel_samples x of (status, x') \<Rightarrow> Some (Ret (status, None, ContinuousWriter x', s)))
       | _ \<Rightarrow> None)"

definition mxlFlowWriterCommitSamples :: "nat \<Rightarrow> (world, mxlStatus \<times> unit option) act" where
  "mxlFlowWriterCommitSamples writer =
     on_writer writer (continuous_op (\<lambda>x d. map_ret (\<lambda>(status, x, d). (status, None, x, d)) (commit_samples x d)))"

definition mxlFlowWriterOpenEvent :: "nat \<Rightarrow> bool \<Rightarrow> bool \<Rightarrow> (world, mxlStatus \<times> mxlEventInfo option) act" where
  "mxlFlowWriterOpenEvent handle info payload =
     (if \<not> info \<or> \<not> payload then lift_act (answer MXL_ERR_INVALID_ARG)
      else on_writer handle (\<lambda>kind data s.
        case kind of
          EventWriter x \<Rightarrow> (case openEvent x of (status, out, x') \<Rightarrow> Some (Ret (status, out, EventWriter x', s)))
        | _ \<Rightarrow> None))"

text \<open>The payload is what the client has put into the buffer of the writer.\<close>

definition mxlFlowWriterCommitEvent ::
  "u64 \<Rightarrow> u8 list \<Rightarrow> nat \<Rightarrow> mxlEventInfo option \<Rightarrow> (world, mxlStatus \<times> unit option) act" where
  "mxlFlowWriterCommitEvent now payload handle info =
     (case info of
        None \<Rightarrow> lift_act (answer MXL_ERR_INVALID_ARG)
      | Some i \<Rightarrow>
          on_writer handle (event_op (\<lambda>x d. case commit_event now i payload x d of (status, x', d') \<Rightarrow> Ret (status, None, x', d'))))"

definition mxlFlowWriterCancelEvent :: "nat \<Rightarrow> (world, mxlStatus \<times> unit option) act" where
  "mxlFlowWriterCancelEvent handle =
     on_writer handle (\<lambda>kind data s.
       case kind of
         EventWriter x \<Rightarrow> (case cancel_event x of (status, x') \<Rightarrow> Some (Ret (status, None, EventWriter x', s)))
       | _ \<Rightarrow> None)"

section \<open>Synchronization groups\<close>

text \<open>The pointer is stored through \<open>grp\<close> without a check.\<close>

definition mxlCreateFlowSynchronizationGroup :: "bool \<Rightarrow> bool \<Rightarrow> (world, mxlStatus \<times> nat option) act" where
  "mxlCreateFlowSynchronizationGroup inst grp w =
     (if \<not> inst then (answer MXL_ERR_INVALID_ARG, w)
      else if \<not> grp then (Undef, w)
      else case createFlowSynchronizationGroup (fst w) of (p, i) \<Rightarrow> (ok_with p, i, snd w))"

definition mxlReleaseFlowSynchronizationGroup :: "bool \<Rightarrow> nat \<Rightarrow> (world, mxlStatus \<times> unit option) act" where
  "mxlReleaseFlowSynchronizationGroup inst grp w =
     (if inst \<and> \<not> is_null grp then (ok_with (), releaseFlowSynchronizationGroup grp (fst w), snd w)
      else (answer MXL_ERR_INVALID_ARG, w))"

definition change_group :: "nat \<Rightarrow> (ListEntry list \<Rightarrow> ListEntry list) \<Rightarrow> (world, mxlStatus \<times> unit option) act" where
  "change_group grp f w =
     (if map_of (in_syncGroups (fst w)) grp = None then (Undef, w)
      else (ok_with (),
            (fst w)\<lparr>in_syncGroups := map (\<lambda>(p, g). (p, if p = grp then f g else g)) (in_syncGroups (fst w))\<rparr>, snd w))"

text \<open>The new entry takes the rate from the configuration of the flow.\<close>

definition rate_of_reader :: "FlowReader \<Rightarrow> posix \<Rightarrow> mxlRational option" where
  "rate_of_reader r s = map_option (\<lambda>(i, st). cc_grainRate (fc_common (fi_config i))) (flow_segment (fl_flow (ro_data r)) s)"

definition mxlFlowSynchronizationGroupAddReader :: "nat \<Rightarrow> nat \<Rightarrow> (world, mxlStatus \<times> unit option) act" where
  "mxlFlowSynchronizationGroupAddReader grp reader w =
     (if is_null grp then (answer MXL_ERR_INVALID_ARG, w)
      else if is_null reader then (answer MXL_ERR_INVALID_FLOW_READER, w)
      else case reader_at reader w of
        Ret r \<Rightarrow>
          (case (ro_kind r, rate_of_reader r (files_of w)) of
             (EventReader i fd, _) \<Rightarrow> (answer MXL_ERR_INVALID_FLOW_READER, w)
           | (_, None) \<Rightarrow> (Undef, w)
           | (DiscreteReader fd, Some rate) \<Rightarrow>
               change_group grp (addReader_discrete reader rate MXL_GRAIN_VALID_SLICES_ALL) w
           | (ContinuousReader c, Some rate) \<Rightarrow> change_group grp (addReader_continuous reader rate) w)
      | _ \<Rightarrow> (Undef, w))"

definition mxlFlowSynchronizationGroupAddPartialGrainReader :: "nat \<Rightarrow> nat \<Rightarrow> u16 \<Rightarrow> (world, mxlStatus \<times> unit option) act" where
  "mxlFlowSynchronizationGroupAddPartialGrainReader grp reader minValidSlices w =
     (if is_null grp then (answer MXL_ERR_INVALID_ARG, w)
      else case cast_reader as_discrete_reader reader w of
        Ret (Some (r, k)) \<Rightarrow>
          (case rate_of_reader r (files_of w) of
             None \<Rightarrow> (Undef, w)
           | Some rate \<Rightarrow> change_group grp (addReader_discrete reader rate minValidSlices) w)
      | Ret None \<Rightarrow> (answer MXL_ERR_INVALID_FLOW_READER, w)
      | _ \<Rightarrow> (Undef, w))"

definition mxlFlowSynchronizationGroupRemoveReader :: "nat \<Rightarrow> nat \<Rightarrow> (world, mxlStatus \<times> unit option) act" where
  "mxlFlowSynchronizationGroupRemoveReader grp reader w =
     (if is_null grp \<or> is_null reader then (answer MXL_ERR_INVALID_ARG, w)
      else change_group grp (removeReader reader) w)"

definition mxlFlowSynchronizationGroupWaitForDataAt ::
  "wait_env \<Rightarrow> timepoint \<Rightarrow> nat \<Rightarrow> u64 \<Rightarrow> u64 \<Rightarrow> (world, mxlStatus \<times> unit option) act" where
  "mxlFlowSynchronizationGroupWaitForDataAt env now grp timestamp timeoutNs w =
     (if is_null grp then (answer MXL_ERR_INVALID_ARG, w)
      else case map_of (in_syncGroups (fst w)) grp of
        None \<Rightarrow> (Undef, w)
      | Some readers \<Rightarrow>
          (case bind_res (toDeadline now timeoutNs) (\<lambda>deadline. waitForDataAt env (Timepoint (signed64 timestamp)) readers) of
             Undef \<Rightarrow> (Undef, w)
           | Throw e \<Rightarrow> (answer (any_error e), w)
           | Ret (status, readers', visited) \<Rightarrow>
               (Ret (status, None),
                (fst w)\<lparr>in_syncGroups := map (\<lambda>(p, g). (p, if p = grp then readers' else g)) (in_syncGroups (fst w))\<rparr>,
                snd w)))"

section \<open>Instances\<close>

text \<open>The version numbers come from the build.\<close>

record mxlVersionType =
  ver_major :: u16
  ver_minor :: u16
  ver_bugfix :: u16
  ver_build :: u16
  ver_full :: string

definition mxlGetVersion :: "mxlVersionType \<Rightarrow> bool \<Rightarrow> mxlStatus \<times> mxlVersionType option" where
  "mxlGetVersion built out_version = (if out_version then (MXL_STATUS_OK, Some built) else (MXL_ERR_INVALID_ARG, None))"

text \<open>A null domain is undefined. When the instance throws, the watcher it was given is destroyed.\<close>

definition mxlCreateInstance ::
  "(watcher_call \<Rightarrow> errc option) \<Rightarrow> instance_env \<Rightarrow> path option \<Rightarrow> string option \<Rightarrow> posix \<Rightarrow> world option res" where
  "mxlCreateInstance fails env in_mxlDomain optionsPtr s =
     (case in_mxlDomain of
        None \<Rightarrow> Undef
      | Some domain \<Rightarrow>
          (case DomainWatcher_ctor fails domain s of
             (Throw e, fds) \<Rightarrow> Ret None
           | (Undef, fds) \<Rightarrow> Undef
           | (Ret watcher, fds) \<Rightarrow>
               (case Instance_ctor env domain (case optionsPtr of None \<Rightarrow> [] | Some t \<Rightarrow> t) s of
                  (Ret i, s) \<Rightarrow> Ret (Some (i, watcher, s))
                | (Throw e, s) \<Rightarrow> Ret None
                | (Undef, s) \<Rightarrow> Undef)))"

definition mxlDestroyInstance :: "instance_env \<Rightarrow> world option \<Rightarrow> mxlStatus \<times> watched option" where
  "mxlDestroyInstance env in_instance =
     (case in_instance of
        None \<Rightarrow> (MXL_ERR_INVALID_ARG, None)
      | Some w \<Rightarrow> (MXL_STATUS_OK, Some (Instance_dtor env w)))"

definition mxlGarbageCollectFlows :: "faults \<Rightarrow> bool \<Rightarrow> world \<Rightarrow> mxlStatus \<times> world" where
  "mxlGarbageCollectFlows flt inst w =
     (if inst then (MXL_STATUS_OK, fst w, fst (snd w), snd (garbageCollect flt (in_flowManager (fst w)) (files_of w)))
      else (MXL_ERR_INVALID_ARG, w))"

text \<open>The type of the file system, when \<^verbatim>\<open>statfs\<close> gives one.\<close>

definition TMPFS_MAGIC :: int where "TMPFS_MAGIC = 0x01021994"
definition RAMFS_MAGIC :: int where "RAMFS_MAGIC = 0x858458f6"

definition mxlIsTmpFs :: "(path \<Rightarrow> int option) \<Rightarrow> path option \<Rightarrow> bool \<Rightarrow> mxlStatus \<times> bool option" where
  "mxlIsTmpFs statfs in_path out_isTmpFs =
     (case in_path of
        None \<Rightarrow> (MXL_ERR_INVALID_ARG, None)
      | Some p \<Rightarrow>
          (if \<not> out_isTmpFs then (MXL_ERR_INVALID_ARG, None)
           else case statfs p of
             None \<Rightarrow> (MXL_ERR_UNKNOWN, None)
           | Some t \<Rightarrow> (MXL_STATUS_OK, Some (t = TMPFS_MAGIC \<or> t = RAMFS_MAGIC))))"

end
