(* ===== verification/FlowApiProofs.thy ===== *)
theory FlowApiProofs
  imports FlowApi FlowCreation InstanceHandles
begin

text \<open>What the public interface promises: the activity of a flow, the two calls that get a flow definition,
  failed creation of readers, deadlines, and grains that pass from a writer to a reader through it.\<close>

section \<open>Deadlines\<close>

text \<open>
  a deadline is the timeout after the current time when the sum fits into 63 bits; a timeout of
  \<^term>\<open>(2::nat) ^ 63\<close> or more is read as negative, so that the deadline is already over; and in between,
  the sum overflows and the call is undefined.
\<close>

theorem deadline_of_timeout:
  assumes "0 \<le> tp_value now" "tp_value now < 2 ^ 63"
  shows "toDeadline now t =
    (if uint t < 2 ^ 63
     then if tp_value now + uint t < 2 ^ 63 then Ret (Timepoint (tp_value now + uint t)) else Undef
     else Ret (Timepoint (max 0 (tp_value now + uint t - 2 ^ 64))))"
proof -
  have sum: "tp_plus now (Duration (if v < 2 ^ 63 then v else v - 2 ^ 64)) =
      (if v < 2 ^ 63 then if tp_value now + v < 2 ^ 63 then Ret (Timepoint (tp_value now + v)) else Undef
       else Ret (Timepoint (max 0 (tp_value now + v - 2 ^ 64))))" if "0 \<le> v" "v < 2 ^ 64" for v
    using assms that by (cases "v < 2 ^ 63") (auto simp: tp_plus_def chk64_def in_i64_def max_def)
  show ?thesis
    unfolding toDeadline_def signed64_def by (rule sum) (use uint_lt2p [of t] in simp_all)
qed

theorem deadline_of_timeout_witness:
  "toDeadline (Timepoint 1000) 0xFFFFFFFFFFFFFFFF = Ret (Timepoint 999) \<and> toDeadline (Timepoint 1000) 0x7FFFFFFFFFFFFFFF = Undef"
  using deadline_of_timeout [of "Timepoint 1000" "0xFFFFFFFFFFFFFFFF"] deadline_of_timeout [of "Timepoint 1000" "0x7FFFFFFFFFFFFFFF"]
  by simp

section \<open>The activity of a flow\<close>

text \<open>
  when the data file of a flow can be opened, \<^verbatim>\<open>mxlIsFlowActive\<close> reports the flow as active exactly if
  someone has a lock on the file, and leaves the instance, the files, their contents and all locks as they
  are.
\<close>

theorem flow_activity:
  assumes "posix_ok (files_of w)" "\<forall>c p. fe_faults (ie_flow env) c p = None" "fe_from_string (ie_flow env) name \<noteq> None"
    and "lookup (files_of w) (makeFlowDataFilePath (makeFlowDirectoryName (getDomain (fst w)) name)) = Some (Regular ino)"
    and "mxlIsFlowActive env True (Some name) True w = (r, w')"
  shows "r = Ret (MXL_STATUS_OK, Some (locks_of (files_of w) ino \<noteq> [])) \<and> fst w' = fst w \<and>
    px_nodes (files_of w') = px_nodes (files_of w) \<and> locks_of (files_of w') = locks_of (files_of w) \<and>
    content_of (files_of w') = content_of (files_of w)"
proof -
  let ?s = "files_of w" and ?flt = "fe_faults (ie_flow env)"
  let ?p = "makeFlowDataFilePath (makeFlowDirectoryName (getDomain (fst w)) name)"
  let ?u = "?s\<lparr>px_nextFd := px_nextFd ?s + 1\<rparr>" and ?fd = "px_nextFd ?s"
  have op: "open_existing ?flt ?p ?s = (Inr (?fd, ino), ?u)"
    using assms(2,4) by (simp add: open_existing_def fresh_fd_def)
  have u: "posix_ok ?u" "unlocked_fd ?fd ?u"
    using posix_ok_fresh_fd [OF assms(1)] posix_ok_nextFd [OF assms(1)] by (auto simp: posix_simps unlocked_fd_def)
  obtain v where v: "flock_nb ?flt ?p ?fd ino LOCK_EX ?u = ((if locks_of ?s ino = [] then None else Some EWOULDBLOCK), v)"
      "locks_of (close_fd ?fd ino v) = locks_of ?s" "px_nodes v = px_nodes ?s" "content_of v = content_of ?s"
    using flock_exclusive [of ?flt ?p ?u ?fd ino, OF _ u] assms(2) by (auto simp: posix_simps)
  have "mxlIsFlowActive env True (Some name) True w =
      (Ret (MXL_STATUS_OK, Some (locks_of ?s ino \<noteq> [])), fst w, fst (snd w), close_fd ?fd ino v)"
    using assms(3) op v(1) by (auto simp: mxlIsFlowActive_def Let_def ok_with_def)
  then show ?thesis
    using assms(5) v(2-4) by (auto simp: files_of_def close_fd_def posix_simps)
qed

section \<open>The definition of a flow\<close>

text \<open>
  \<^verbatim>\<open>mxlGetFlowDef\<close> without a buffer reports the size that is needed; called again with a buffer of that
  size it succeeds and stores the definition, which is the text of the flow's descriptor, followed by a null
  character.
\<close>

theorem flow_definition_two_calls:
  assumes "fe_from_string (ie_flow env) name = Some i" "\<forall>c p. fe_faults (ie_flow env) c p = None"
    and "lookup (files_of w) (makeFlowDescriptorFilePath (makeFlowDirectoryName (getDomain (fst w)) (fe_to_string (ie_flow env) i))) =
      Some (Regular ino)"
    and "content_of (files_of w) ino = Text flowDef" and "CHR 0x00 \<notin> set flowDef"
  shows "mxlGetFlowDef env True (Some name) None (Some size0) w = Ret (MXL_ERR_INVALID_ARG, Some (length flowDef + 1, None)) \<and>
    (\<forall>memory. length memory = length flowDef + 1 \<longrightarrow>
       mxlGetFlowDef env True (Some name) (Some memory) (Some (length flowDef + 1)) w =
         Ret (MXL_STATUS_OK, Some (length flowDef + 1, Some (flowDef @ [CHR 0x00]))))"
proof -
  have flow_text: "instance_getFlowDef env i w = Ret flowDef"
    using assms(2-4) by (simp add: instance_getFlowDef_def getFlowDef_def getDomain_def files_of_def Let_def)
  then show ?thesis
    using assms(1) strncpy_terminated [OF assms(5)] by (simp add: mxlGetFlowDef_def caught_def ok_with_def Let_def)
qed

section \<open>Creating a reader\<close>

lemma createFlowReader_failed:
  assumes "createFlowReader env m i d t = (Throw e, u)"
  shows "u = FlowData_dtor d t"
  using assms
  by (auto simp: createFlowReader_def createDiscreteFlowReader_def createContinuousFlowReader_def createEventFlowReader_def
      unwind_def lift_act_def split: flow_kind.splits option.splits prod.splits res.splits)

lemma same_nodes:
  assumes "open_below [''a''] s hs t" "open_below [''b''] s hs t"
  shows "px_nodes t = px_nodes s"
proof -
  obtain as where as: "px_nodes t = as @ px_nodes s" "\<forall>(p, n) \<in> set as. below [''a''] p"
    using open_below_new [OF assms(1)] by metis
  obtain bs where bs: "px_nodes t = bs @ px_nodes s" "\<forall>(p, n) \<in> set bs. below [''b''] p"
    using open_below_new [OF assms(2)] by metis
  have "\<not> (below [''a''] p \<and> below [''b''] p)" for p
    by (auto simp: below_def prefix_def)
  moreover have "as = bs"
    using as(1) bs(1) by simp
  ultimately have "as = []"
    using as(2) bs(2) by (cases as) auto
  then show ?thesis
    using as by simp
qed

lemma getFlowReader_failed_files:
  assumes "getFlowReader env name w = (Throw e, w')" "posix_ok (files_of w)"
  shows "open_below dir (files_of w) [] (files_of w')"
proof (cases "fe_from_string (ie_flow env) name")
  case None
  then show ?thesis
    using assms open_below_refl by (auto simp: getFlowReader_def)
next
  case (Some i)
  then have none: "map_of (in_readers (fst w)) i = None"
    using assms(1) by (auto simp: getFlowReader_def split: option.splits)
  obtain r1 t where o: "openFlow (ie_flow env) (in_flowManager (fst w)) i READ_ONLY (files_of w) = (r1, t)"
    by fastforce
  note acq = acquires_openFlow [of dir "files_of w" "ie_flow env" "in_flowManager (fst w)" i READ_ONLY]
  have "open_below dir (files_of w) ([] @ []) (files_of w)"
    using open_below_refl [OF assms(2)] by simp
  note got = acquiresD [OF acq this o]
  show ?thesis
  proof (cases r1)
    case (Ret d)
    obtain r2 u where c: "createFlowReader (ie_flow env) (in_flowManager (fst w)) i d t = (r2, u)"
      by fastforce
    have "r2 = Throw e \<and> files_of w' = u"
      using assms(1) Some none o c Ret
      by (cases r2) (auto simp: getFlowReader_def bind_act_def in_files_def on_files_def files_of_def)
    moreover from this have "u = FlowData_dtor d t"
      using createFlowReader_failed c by blast
    ultimately show ?thesis
      using got(2) [OF Ret] open_below_dtor [of dir _ d "[]"] by simp
  next
    case (Throw e')
    then show ?thesis
      using assms(1) Some none o got(3) [OF Throw]
      by (auto simp: getFlowReader_def bind_act_def in_files_def on_files_def files_of_def)
  next
    case Undef
    then show ?thesis
      using assms(1) Some none o by (simp add: getFlowReader_def bind_act_def in_files_def on_files_def files_of_def)
  qed
qed

lemma in_put: "(k, v) \<in> set (put k v xs)"
  by (induction k v xs rule: put.induct) auto

lemma getFlowReader_entry:
  assumes "getFlowReader env name w = (Ret p, w')" "fe_from_string (ie_flow env) name = Some i"
  obtains v where "(i, v) \<in> set (in_readers (fst w'))" "rc_ptr v = p"
proof (cases "map_of (in_readers (fst w)) i")
  case (Some v)
  then show ?thesis
    using assms in_put [of i "addReference v"] that [of "addReference v"]
    by (auto simp: getFlowReader_def addReference_def)
next
  case None
  obtain r1 w1 where o: "in_files (openFlow (ie_flow env) (in_flowManager (fst w)) i READ_ONLY) w = (r1, w1)"
    by (rule prod.exhaust)
  obtain d where d: "r1 = Ret d"
    using assms None o by (cases r1) (auto simp: getFlowReader_def bind_act_def)
  obtain r2 w2 where c: "in_files (createFlowReader (ie_flow env) (in_flowManager (fst w)) i d) w1 = (r2, w2)"
    by (rule prod.exhaust)
  obtain x where x: "r2 = Ret x"
    using assms None o d c by (cases r2) (auto simp: getFlowReader_def bind_act_def)
  let ?v = "RefCounted_ctor (in_nextPtr (fst w2)) x"
  show ?thesis
    using assms None o d c x in_put [of i ?v] that [of ?v]
    by (auto simp: getFlowReader_def bind_act_def RefCounted_ctor_def)
qed

lemma getFlowReader_missing:
  assumes "\<not> path_exists (files_of w) (makeFlowDataFilePath (makeFlowDirectoryName (fm_mxlDomain (in_flowManager (fst w)))
      (fe_to_string (ie_flow env) i)))"
    and "fe_from_string (ie_flow env) name = Some i" "map_of (in_readers (fst w)) i = None"
  shows "fst (getFlowReader env name w) = Throw (FilesystemError ENOENT)"
  using assms by (simp add: getFlowReader_def bind_act_def in_files_def on_files_def openFlow_def files_of_def Let_def)

text \<open>
  C28: \<^verbatim>\<open>mxlCreateFlowReader\<close> either gives a handle to a reader of the instance, or, whatever failed, gives
  none and leaves the instance, the files, their contents and the locks as they were; for a flow that does
  not exist and has no reader yet the status is \<^verbatim>\<open>MXL_ERR_FLOW_NOT_FOUND\<close>.
\<close>

theorem create_reader_outcome:
  assumes "posix_ok (files_of w)" "fe_from_string (ie_flow env) name = Some i"
    and "mxlCreateFlowReader env True (Some name) True w = (Ret (status, out), w')"
  shows "(if status = MXL_STATUS_OK
    then \<exists>p v. out = Some p \<and> (i, v) \<in> set (in_readers (fst w')) \<and> rc_ptr v = p
    else out = None \<and> fst w' = fst w \<and> px_nodes (files_of w') = px_nodes (files_of w) \<and>
      (\<forall>ino. set (locks_of (files_of w') ino) = set (locks_of (files_of w) ino)) \<and>
      (\<forall>ino < px_nextIno (files_of w). content_of (files_of w') ino = content_of (files_of w) ino)) \<and>
    (map_of (in_readers (fst w)) i = None \<and>
      \<not> path_exists (files_of w) (makeFlowDataFilePath (makeFlowDirectoryName (fm_mxlDomain (in_flowManager (fst w))) (fe_to_string (ie_flow env) i)))
      \<longrightarrow> status = MXL_ERR_FLOW_NOT_FOUND)"
proof -
  obtain r u where run: "getFlowReader env name w = (r, u)"
    by (rule prod.exhaust)
  have w': "w' = u" and api: "caught reader_error (map_ret (\<lambda>p. (MXL_STATUS_OK, Some p)) r) = Ret (status, out)"
    using assms(2,3) run
    by (cases r; auto simp: mxlCreateFlowReader_def caught_act_def bind_act_def lift_act_def ok_with_def)+
  show ?thesis
  proof (cases r)
    case (Ret p)
    then have ok: "status = MXL_STATUS_OK" "out = Some p"
      using api by (simp_all add: caught_def)
    obtain v where "(i, v) \<in> set (in_readers (fst w'))" "rc_ptr v = p"
      using getFlowReader_entry [OF run [unfolded Ret] assms(2)] w' by blast
    moreover have "path_exists (files_of w) (makeFlowDataFilePath (makeFlowDirectoryName (fm_mxlDomain (in_flowManager (fst w)))
        (fe_to_string (ie_flow env) i)))" if "map_of (in_readers (fst w)) i = None"
      using getFlowReader_missing [OF _ assms(2) that] run Ret by fastforce
    ultimately show ?thesis
      using ok by auto
  next
    case (Throw e)
    then have st: "status = reader_error e" "out = None" "status \<noteq> MXL_STATUS_OK"
      using api by (auto simp: caught_def reader_error_def split: exn.splits errc.splits)
    note same = getFlowReader_failed_files [OF run [unfolded Throw] assms(1)]
    have "px_nodes (files_of u) = px_nodes (files_of w)"
      by (rule same_nodes [OF same same])
    moreover have "fst u = fst w"
      by (rule getFlowReader_failed_instance [OF run [unfolded Throw]])
    moreover have "status = MXL_ERR_FLOW_NOT_FOUND" if "map_of (in_readers (fst w)) i = None"
      "\<not> path_exists (files_of w) (makeFlowDataFilePath (makeFlowDirectoryName (fm_mxlDomain (in_flowManager (fst w)))
        (fe_to_string (ie_flow env) i)))"
      using getFlowReader_missing [OF that(2) assms(2) that(1)] run Throw st(1) by (simp add: reader_error_def)
    ultimately show ?thesis
      using st w' same [of "[]"] by (auto simp: open_below_def grown_below_def handles_since_def)
  next
    case Undef
    then show ?thesis
      using api by (simp add: caught_def)
  qed
qed

section \<open>A grain through the interface\<close>

text \<open>The handle \<open>p\<close> is that of a writer of a discrete flow with mappings \<open>d\<close> and private state \<open>x\<close>.\<close>

definition discrete_writer :: "nat \<Rightarrow> FlowData \<Rightarrow> PosixDiscreteFlowWriter \<Rightarrow> world \<Rightarrow> bool" where
  "discrete_writer p d x w \<longleftrightarrow>
     (\<exists>k v. find_ptr p (in_writers (fst w)) = Some (k, v) \<and> wo_data (rc_value v) = d \<and> wo_kind (rc_value v) = DiscreteWriter x)"

definition discrete_reader :: "nat \<Rightarrow> FlowData \<Rightarrow> world \<Rightarrow> bool" where
  "discrete_reader q e w \<longleftrightarrow>
     (\<exists>k v fd. find_ptr q (in_readers (fst w)) = Some (k, v) \<and> ro_data (rc_value v) = e \<and> ro_kind (rc_value v) = DiscreteReader fd)"

lemma find_put:
  assumes "objs_ok xs H n" "p \<in># H" "find_ptr p xs = Some (k, v)" "rc_ptr v' = rc_ptr v" "rc_count v' = rc_count v"
  shows "objs_ok (put k v' xs) H n" and "find_ptr p (put k v' xs) = Some (k, v')"
proof -
  note kv = find_ptr_SomeD [OF assms(1,3)]
  show ok: "objs_ok (put k v' xs) H n"
    using assms(4,5) objs_okD(3) [OF assms(1) kv(1)] by (intro objs_ok_update [OF assms(1) kv(1)]) simp_all
  obtain k2 v2 where f: "find_ptr p (put k v' xs) = Some (k2, v2)" "map_of (put k v' xs) k2 = Some v2" "rc_ptr v2 = p"
    using find_ptr_held [OF ok assms(2)] .
  have "map_of (put k v' xs) k = Some v'"
    by (simp add: map_of_put [OF objs_okD(1) [OF assms(1)]])
  then have "k2 = k"
    using objs_okD(4) [OF ok f(2)] f(3) kv(2) assms(4) by simp
  then show "find_ptr p (put k v' xs) = Some (k, v')"
    using f \<open>map_of (put k v' xs) k = Some v'\<close> by simp
qed

lemma on_writer_discrete:
  assumes "objs_ok (in_writers (fst w)) W n" "p \<in># W" "\<not> is_null p"
    and "discrete_writer p d x w" "separate d" "load_discrete d (files_of w) = Some X"
    and "f x X = Ret (st, out, x', X')" "same_shape X X'"
  obtains w' where "on_writer p (discrete_op f) w = (Ret (st, out), w')" "objs_ok (in_writers (fst w')) W n"
    "discrete_writer p d x' w'" "load_discrete d (files_of w') = Some X'" "in_readers (fst w') = in_readers (fst w)"
proof -
  obtain k v where v: "find_ptr p (in_writers (fst w)) = Some (k, v)" "wo_data (rc_value v) = d" "wo_kind (rc_value v) = DiscreteWriter x"
    using assms(4) by (auto simp: discrete_writer_def)
  let ?v = "v\<lparr>rc_value := (rc_value v)\<lparr>wo_kind := DiscreteWriter x'\<rparr>\<rparr>"
  let ?w = "((fst w)\<lparr>in_writers := put k ?v (in_writers (fst w))\<rparr>, fst (snd w), store_discrete d X' (files_of w))"
  note found = find_put [OF assms(1,2) v(1), of ?v]
  show ?thesis
  proof
    show "on_writer p (discrete_op f) w = (Ret (st, out), ?w)"
      using assms(3,6,7) v by (simp add: on_writer_def discrete_op_def)
    show "objs_ok (in_writers (fst ?w)) W n"
      using found(1) by simp
    show "discrete_writer p d x' ?w"
      using found(2) v(2) by (simp add: discrete_writer_def)
    show "load_discrete d (files_of ?w) = Some X'"
      using load_store_discrete [OF assms(6,5)] assms(8) by (simp add: files_of_def same_shape_def)
    show "in_readers (fst ?w) = in_readers (fst w)"
      by simp
  qed
qed

lemma write_grain_steps:
  assumes "write_grain now i g x X = Ret (MXL_STATUS_OK, x', X')"
  obtains out x1 X1 off X2 where "openGrain i x X = Ret (MXL_STATUS_OK, out, x1, X1)" "grain_offset X1 i = Ret off"
      "update_grain off (\<lambda>g'. g'\<lparr>gr_payload := gr_payload g\<rparr>) X1 = Ret X2"
      "commit_grain now (gr_info g) x1 X2 = Ret (MXL_STATUS_OK, x', X')"
  using assms by (auto simp: write_grain_def res_simps split: if_splits)

text \<open>Writing through a handle keeps every held handle live.\<close>

lemma client_ok_on_writer:
  assumes "client_ok (R, W, w)" "p \<in># W" "on_writer p f w = (r, w')"
  shows "client_ok (R, W, w')"
proof (cases "w' = w")
  case False
  then obtain k v st out kind s where v: "find_ptr p (in_writers (fst w)) = Some (k, v)" and
      w': "w' = ((fst w)\<lparr>in_writers := put k (v\<lparr>rc_value := (rc_value v)\<lparr>wo_kind := kind\<rparr>\<rparr>) (in_writers (fst w))\<rparr>, fst (snd w), s)"
    using assms(3) by (auto simp: on_writer_def split: if_splits option.splits res.splits)
  have "objs_ok (put k (v\<lparr>rc_value := (rc_value v)\<lparr>wo_kind := kind\<rparr>\<rparr>) (in_writers (fst w))) W (in_nextPtr (fst w))"
    using assms(1) by (intro find_put(1) [OF _ assms(2) v]) (simp_all add: client_ok_def)
  then show ?thesis
    using assms(1) w' by (simp add: client_ok_def)
qed (use assms in simp)

text \<open>
  C27: for a client of an instance that holds a writer and a reader of the same discrete flow, opening a
  grain, filling its payload and committing its metadata through the public interface succeeds, and
  the reader then gets exactly that grain.
\<close>

theorem grain_through_interface:
  assumes "client_ok (R, W, w)" "p \<in># W" "q \<in># R" "0 < p" "0 < q"
    and "discrete_writer p d x w" "discrete_reader q e w" "separate d" "shared_flow d e"
    and "load_discrete d (files_of w) = Some X" "disc_log first f x X" "2 \<le> length (dd_grains X)"
    and "unat (dw_lastCommittedIndex x) < unat i" "i \<noteq> MXL_UNDEFINED_INDEX" "first \<le> unat i" "complete_grain i g"
  shows "\<exists>out w1 w2 w3. mxlFlowWriterOpenGrain p i True True w = (Ret (MXL_STATUS_OK, out), w1) \<and>
    client_fills_grain p i (gr_payload g) w1 = (Ret (MXL_STATUS_OK, None), w2) \<and>
    mxlFlowWriterCommitGrain now p (Some (gr_info g)) w2 = (Ret (MXL_STATUS_OK, None), w3) \<and>
    mxlFlowReaderGetGrainSliceNonBlocking env q i m True True w3 = Ret (MXL_STATUS_OK, Some g)"
proof -
  let ?n = "in_nextPtr (fst w)"
  have ok: "objs_ok (in_writers (fst w)) W ?n" and p: "\<not> is_null p" "\<not> is_null q"
    using assms(1,4,5) by (auto simp: client_ok_def is_null_def)
  let ?f = "\<lambda>k. if k = unat i then Some g else if unat (dw_lastCommittedIndex x) < k then None else f k"
  obtain x' X' where written: "write_grain now i g x X = Ret (MXL_STATUS_OK, x', X')" "disc_log first ?f x' X'"
      "dw_lastCommittedIndex x' = i"
    using write_grain_log [OF assms(11,13,14,16)] by blast
  obtain out x1 X1 off X2 where run: "openGrain i x X = Ret (MXL_STATUS_OK, out, x1, X1)" "grain_offset X1 i = Ret off"
      "update_grain off (\<lambda>g'. g'\<lparr>gr_payload := gr_payload g\<rparr>) X1 = Ret X2"
      "commit_grain now (gr_info g) x1 X2 = Ret (MXL_STATUS_OK, x', X')"
    using write_grain_steps [OF written(1)] .
  obtain w1 where w1: "on_writer p (discrete_op (openGrain i)) w = (Ret (MXL_STATUS_OK, out), w1)"
      "objs_ok (in_writers (fst w1)) W ?n" "discrete_writer p d x1 w1" "load_discrete d (files_of w1) = Some X1"
      "in_readers (fst w1) = in_readers (fst w)"
    by (rule on_writer_discrete [where f = "openGrain i",
        OF ok assms(2) p(1) assms(6,8,10) run(1) openGrain_shape [OF run(1)]])
  let ?fill = "(\<lambda>x d. bind_res (grain_offset d i) (\<lambda>off. map_ret (\<lambda>d. (MXL_STATUS_OK, None, x, d))
      (update_grain off (\<lambda>g'. g'\<lparr>gr_payload := gr_payload g\<rparr>) d)))"
  have fill: "?fill x1 X1 = Ret (MXL_STATUS_OK, None, x1, X2)"
    using run(2,3) by simp
  obtain w2 where w2: "client_fills_grain p i (gr_payload g) w1 = (Ret (MXL_STATUS_OK, None), w2)"
      "objs_ok (in_writers (fst w2)) W ?n" "discrete_writer p d x1 w2" "load_discrete d (files_of w2) = Some X2"
      "in_readers (fst w2) = in_readers (fst w1)"
    unfolding client_fills_grain_def
    by (rule on_writer_discrete [where f = ?fill, OF w1(2) assms(2) p(1) w1(3) assms(8) w1(4) fill update_grain_shape [OF run(3)]])
  let ?commit = "(\<lambda>x d. map_ret (\<lambda>(status, x, d). (status, None, x, d)) (commit_grain now (gr_info g) x d))"
  have commit: "?commit x1 X2
      = Ret (MXL_STATUS_OK, None, x', X')"
    using run(4) by simp
  obtain w3 where w3: "mxlFlowWriterCommitGrain now p (Some (gr_info g)) w2 = (Ret (MXL_STATUS_OK, None), w3)"
      "load_discrete d (files_of w3) = Some X'" "in_readers (fst w3) = in_readers (fst w2)"
    unfolding mxlFlowWriterCommitGrain_def option.case
    by (rule on_writer_discrete [where f = ?commit, OF w2(2) assms(2) p(1) w2(3) assms(8) w2(4) commit commit_grain_shape [OF run(4)]])
  have len: "length (dd_grains X') = length (dd_grains X)"
    using write_grain_shape [OF written(1)] by (simp add: same_shape_def)
  have "window_start (unat i) (length (dd_grains X')) \<le> unat i"
    using assms(12) len by (auto simp: window_start_def)
  then have "getGrainImpl i m X' = Ret (MXL_STATUS_OK, Some g)"
    using reader_log [OF written(2) assms(15), of m] written(3) by (simp add: grain_holds_def)
  moreover have "load_discrete e (files_of w3) = Some X'"
    by (rule load_discrete_shared [OF assms(9) w3(2)])
  ultimately have "mxlFlowReaderGetGrainSliceNonBlocking env q i m True True w3 = Ret (MXL_STATUS_OK, Some g)"
    using assms(7) p(2) w1(5) w2(5) w3(3)
    by (auto simp: mxlFlowReaderGetGrainSliceNonBlocking_def on_reader_def cast_reader_def reader_at_def discrete_reader_def
        getGrain_def check_stale_def caught_def)
  moreover have "mxlFlowWriterOpenGrain p i True True w = (Ret (MXL_STATUS_OK, out), w1)"
    using w1(1) by (simp add: mxlFlowWriterOpenGrain_def)
  ultimately show ?thesis
    using w2(1) w3(1) by blast
qed

section \<open>Witnesses\<close>

definition api_env :: instance_env where
  "api_env = reading_env\<lparr>ie_flow := (ie_flow reading_env)\<lparr>fe_from_string := (\<lambda>t. Some [1])\<rparr>\<rparr>"

lemma api_env_simps [simp]:
  "fe_faults (ie_flow api_env) c p = None" "fe_from_string (ie_flow api_env) t = Some [1]"
  "fe_to_string (ie_flow api_env) b = ''1234''"
  by (simp_all add: api_env_def reading_env_def plain_env_def no_faults_def)

lemma getDomain_new: "getDomain new_instance = [''d'']"
  by (simp add: getDomain_def new_instance_def)

theorem flow_activity_witness:
  "fst (mxlIsFlowActive api_env True (Some ''a'') True (new_instance, fresh_watcher, two_flows)) = Ret (MXL_STATUS_OK, Some True) \<and>
   fst (mxlIsFlowActive api_env True (Some ''b'') True (new_instance, fresh_watcher, two_flows)) = Ret (MXL_STATUS_OK, Some False)"
proof -
  let ?w = "(new_instance, fresh_watcher, two_flows)"
  have ok: "posix_ok (files_of ?w)"
    by (auto simp: files_of_def posix_ok_def two_flows_def locks_of_def lock_list_ok_def)
  have "fst (mxlIsFlowActive api_env True (Some f) True ?w) = Ret (MXL_STATUS_OK, Some (locks_of two_flows ino \<noteq> []))"
    if "lookup two_flows (makeFlowDataFilePath (makeFlowDirectoryName [''d''] f)) = Some (Regular ino)" for f ino
    using flow_activity [OF ok, where env = api_env and name = f and ino = ino, OF _ _ _ prod.collapse [symmetric]] that
    by (simp add: getDomain_new files_of_def)
  moreover have "lookup two_flows (makeFlowDataFilePath (makeFlowDirectoryName [''d''] ''a'')) = Some (Regular 0)"
      "lookup two_flows (makeFlowDataFilePath (makeFlowDirectoryName [''d''] ''b'')) = Some (Regular 1)"
    by code_simp+
  moreover have "locks_of two_flows 0 \<noteq> []" "locks_of two_flows 1 = []"
    by (simp_all add: two_flows_def locks_of_def)
  ultimately show ?thesis
    by simp
qed

definition described_flow :: posix where
  "described_flow =
     \<lparr>px_nodes = [([''d''], Directory), ([''d'', ''1234.mxl-flow''], Directory),
        ([''d'', ''1234.mxl-flow'', ''data''], Regular 0), ([''d'', ''1234.mxl-flow'', ''flow_def.json''], Regular 1)],
      px_inodes = (\<lambda>i. \<lparr>in_content = (if i = 1 then Text ''{}'' else Zeros), in_size = 0, in_locks = []\<rparr>),
      px_nextIno = 2, px_nextFd = 5\<rparr>"

theorem flow_definition_two_calls_witness:
  "mxlGetFlowDef api_env True (Some ''1234'') None (Some 0) (new_instance, fresh_watcher, described_flow)
     = Ret (MXL_ERR_INVALID_ARG, Some (3, None)) \<and>
   mxlGetFlowDef api_env True (Some ''1234'') (Some ''abc'') (Some 3) (new_instance, fresh_watcher, described_flow)
     = Ret (MXL_STATUS_OK, Some (3, Some (''{}'' @ [CHR 0x00])))"
proof -
  let ?w = "(new_instance, fresh_watcher, described_flow)"
  have "lookup (files_of ?w) (makeFlowDescriptorFilePath (makeFlowDirectoryName (getDomain (fst ?w))
      (fe_to_string (ie_flow api_env) [1]))) = Some (Regular 1)"
    by (simp add: files_of_def getDomain_new) code_simp
  moreover have "content_of (files_of ?w) 1 = Text ''{}''"
    by (simp add: files_of_def content_of_def described_flow_def)
  moreover have "length ''abc'' = length ''{}'' + 1" "CHR 0x00 \<notin> set ''{}''"
    by simp_all
  ultimately show ?thesis
    using flow_definition_two_calls [of api_env "''1234''" "[1]" ?w 1 "''{}''" 0] by (simp add: eval_nat_numeral)
qed

lemma missing_reader_runs:
  "case fst (mxlCreateFlowReader reading_env True (Some ''1234'') True (new_instance, fresh_watcher, one_domain)) of Ret _ \<Rightarrow> True | _ \<Rightarrow> False"
  by code_simp

theorem create_reader_outcome_witness:
  "\<exists>w'. mxlCreateFlowReader reading_env True (Some ''1234'') True (new_instance, fresh_watcher, one_domain)
       = (Ret (MXL_ERR_FLOW_NOT_FOUND, None), w') \<and> fst w' = new_instance"
proof -
  let ?w = "(new_instance, fresh_watcher, one_domain)"
  obtain status out w' where run: "mxlCreateFlowReader reading_env True (Some ''1234'') True ?w = (Ret (status, out), w')"
    using missing_reader_runs by (cases "mxlCreateFlowReader reading_env True (Some ''1234'') True ?w") (auto split: res.splits)
  have "posix_ok (files_of ?w)" "fe_from_string (ie_flow reading_env) ''1234'' = Some [1]"
    using one_domain_ok by (simp_all add: files_of_def reading_env_def)
  note outcome = create_reader_outcome [OF this run]
  have "status = MXL_ERR_FLOW_NOT_FOUND"
    using outcome by (simp add: new_instance_def files_of_def one_domain_def path_exists_def lookup_def path_names file_names)
  then show ?thesis
    using outcome run by simp
qed

definition sharing_instance :: Instance where
  "sharing_instance = new_instance\<lparr>
     in_readers := [([1], RefCounted_ctor 1 (new_reader \<lparr>fm_mxlDomain = [''d'']\<rparr> [1] (mapped_flow 20) (DiscreteReader None)))],
     in_writers := [([1], RefCounted_ctor 2 \<lparr>wo_flowId = [1], wo_data = mapped_flow 10,
        wo_kind = DiscreteWriter \<lparr>dw_currentIndex = MXL_UNDEFINED_INDEX, dw_lastCommittedIndex = 5\<rparr>\<rparr>)],
     in_nextPtr := 3\<rparr>"

lemma sharing_instance_ok: "client_ok ({#1#}, {#2#}, sharing_instance, fresh_watcher, stored_sample)"
  by (simp add: client_ok_def sharing_instance_def objs_ok_def RefCounted_ctor_def)

theorem grain_through_interface_witness:
  "\<exists>out w1 w2 w3.
     mxlFlowWriterOpenGrain 2 7 True True (sharing_instance, fresh_watcher, stored_sample) = (Ret (MXL_STATUS_OK, out), w1) \<and>
     client_fills_grain 2 7 [1, 2, 3, 4] w1 = (Ret (MXL_STATUS_OK, None), w2) \<and>
     mxlFlowWriterCommitGrain 78 2 (Some (gr_info (sample_grain 7 2))) w2 = (Ret (MXL_STATUS_OK, None), w3) \<and>
     mxlFlowReaderGetGrainSliceNonBlocking plain_env 1 7 2 True True w3 = Ret (MXL_STATUS_OK, Some (sample_grain 7 2))"
proof -
  let ?w = "(sharing_instance, fresh_watcher, stored_sample)"
  have handles: "discrete_writer 2 (mapped_flow 10) \<lparr>dw_currentIndex = MXL_UNDEFINED_INDEX, dw_lastCommittedIndex = 5\<rparr> ?w"
      "discrete_reader 1 (mapped_flow 20) ?w"
    by (simp_all add: discrete_writer_def discrete_reader_def sharing_instance_def RefCounted_ctor_def new_reader_def find_ptr_def)
  have grain: "complete_grain 7 (sample_grain 7 2)" "(7 :: u64) \<noteq> MXL_UNDEFINED_INDEX"
      "gr_payload (sample_grain 7 2) = [1, 2, 3, 4]"
    by (simp_all add: complete_grain_def sample_grain_def MXL_UNDEFINED_INDEX_def)
  have "load_discrete (mapped_flow 10) (files_of ?w) = Some (sample_disc 5 (replicate 4 (sample_grain 5 2)))"
    by (simp add: files_of_def stored_sample_loads)
  from grain_through_interface [OF sharing_instance_ok _ _ _ _ handles mapped_flow_shared this sample_disc_log,
      where i = 7 and g = "sample_grain 7 2" and now = 78 and m = 2 and env = plain_env]
  show ?thesis
    using grain by (simp add: sample_disc_def)
qed

end
