(* ===== verification/FabricRegions.thy ===== *)
theory FabricRegions
  imports SharedMemory
begin

text \<open>
  The data of the fabrics transport, \<^verbatim>\<open>ImmData.cpp\<close>, \<^verbatim>\<open>SliceRange.cpp\<close>, \<^verbatim>\<open>DataLayout.cpp\<close>, \<^verbatim>\<open>Region.cpp\<close>,
  \<^verbatim>\<open>LocalRegion.cpp\<close>, \<^verbatim>\<open>RemoteRegion.cpp\<close>, \<^verbatim>\<open>RegisteredRegion.cpp\<close>, over a memory of bytes that is addressed
  by 64-bit words.
\<close>

section \<open>Memory\<close>

type_synonym memory = "u64 \<Rightarrow> u8"

definition load_bytes :: "memory \<Rightarrow> u64 \<Rightarrow> nat \<Rightarrow> u8 list" where
  "load_bytes mem a n = map (\<lambda>k. mem (a + of_nat k)) [0..<n]"

definition store_bytes :: "u64 \<Rightarrow> u8 list \<Rightarrow> memory \<Rightarrow> memory" where
  "store_bytes a bs mem x = (if unat (x - a) < length bs then bs ! unat (x - a) else mem x)"

definition load_word :: "memory \<Rightarrow> u64 \<Rightarrow> nat \<Rightarrow> 'a::len word" where
  "load_word mem a n = bytes_word (load_bytes mem a n)"

definition store_word :: "u64 \<Rightarrow> nat \<Rightarrow> 'a::len word \<Rightarrow> memory \<Rightarrow> memory" where
  "store_word a n w = store_bytes a (word_bytes n w)"

lemma length_load_bytes [simp]: "length (load_bytes mem a n) = n"
  by (simp add: load_bytes_def)

lemma nth_load_bytes [simp]: "k < n \<Longrightarrow> load_bytes mem a n ! k = mem (a + of_nat k)"
  by (simp add: load_bytes_def)

lemma load_bytes_append: "load_bytes mem a (m + n) = load_bytes mem a m @ load_bytes mem (a + of_nat m) n"
proof (rule nth_equalityI)
  fix k
  assume "k < length (load_bytes mem a (m + n))"
  then show "load_bytes mem a (m + n) ! k = (load_bytes mem a m @ load_bytes mem (a + of_nat m) n) ! k"
    by (cases "k < m") (simp_all add: nth_append add.assoc flip: of_nat_add)
qed simp

lemma load_bytes_0 [simp]: "load_bytes mem a 0 = []"
  by (simp add: load_bytes_def)

lemma store_bytes_Nil [simp]: "store_bytes a [] mem = mem"
  by (rule ext) (simp add: store_bytes_def)

lemma store_bytes_nth: "k < length bs \<Longrightarrow> length bs \<le> 2 ^ 64 \<Longrightarrow> store_bytes a bs mem (a + of_nat k) = bs ! k"
  by (simp add: store_bytes_def unat_of_nat take_bit_nat_eq_self)

lemma store_bytes_other: "length bs \<le> unat (x - a) \<Longrightarrow> store_bytes a bs mem x = mem x"
  by (simp add: store_bytes_def)

lemma load_store_bytes:
  assumes "length bs \<le> 2 ^ 64"
  shows "load_bytes (store_bytes a bs mem) a (length bs) = bs"
  by (rule nth_equalityI) (use assms in \<open>simp_all add: store_bytes_nth\<close>)

lemma unat_minus_of_nat:
  assumes "n \<le> 2 ^ 64"
  shows "unat (d - of_nat n :: u64) = (if n \<le> unat d then unat d - n else 2 ^ 64 + unat d - n)"
proof (cases "n = 2 ^ 64")
  case True
  then have "(of_nat n :: u64) = 0"
    by (simp add: word_of_nat_eq_0_iff)
  then have "d - of_nat n = d"
    by simp
  then show ?thesis
    using unat_u64_less [of d] True by (simp only: split: if_split) simp
next
  case False
  then have "unat (of_nat n :: u64) = n"
    using assms by (simp add: unat_of_nat take_bit_nat_eq_self)
  then have "unat (d - of_nat n) = (if n \<le> unat d then unat d - n else unat d + 2 ^ 64 - n)"
    by (simp add: unat_sub_if' word_size)
  then show ?thesis
    by (simp only: add.commute)
qed

text \<open>Storing a list of bytes is storing its parts one after the other.\<close>

lemma store_bytes_append:
  assumes "length xs + length ys \<le> 2 ^ 64"
  shows "store_bytes a (xs @ ys) mem = store_bytes (a + of_nat (length xs)) ys (store_bytes a xs mem)"
proof
  fix x
  have shift: "x - (a + of_nat (length xs)) = (x - a) - of_nat (length xs)"
    by (rule diff_diff_eq [symmetric])
  have off: "unat (x - (a + of_nat (length xs))) =
      (if length xs \<le> unat (x - a) then unat (x - a) - length xs else 2 ^ 64 + unat (x - a) - length xs)"
    unfolding shift by (rule unat_minus_of_nat) (use assms in simp)
  show "store_bytes a (xs @ ys) mem x = store_bytes (a + of_nat (length xs)) ys (store_bytes a xs mem) x"
    unfolding store_bytes_def off using assms by (auto simp: nth_append)
qed

section \<open>Immediate data\<close>

record ImmDataGrain_Unpacked =
  im_ringBufferSlot :: u16
  im_sliceIndex :: u16

text \<open>\<^verbatim>\<open>bit_cast\<close> on a little-endian machine; the index of the slot is cut to 16 bits.\<close>

definition ImmDataGrain_ctor :: "u64 \<Rightarrow> u16 \<Rightarrow> u32" where
  "ImmDataGrain_ctor index sliceIndex =
     (let ringBufferIndex = ucast index :: u16
      in bytes_word (word_bytes 2 ringBufferIndex @ word_bytes 2 sliceIndex))"

definition ImmDataGrain_unpack :: "u32 \<Rightarrow> ImmDataGrain_Unpacked" where
  "ImmDataGrain_unpack inner =
     (let bs = word_bytes 4 inner
      in \<lparr>im_ringBufferSlot = bytes_word (take 2 bs), im_sliceIndex = bytes_word (drop 2 bs)\<rparr>)"

lemma imm_data_roundtrip:
  "ImmDataGrain_unpack (ImmDataGrain_ctor i s) = \<lparr>im_ringBufferSlot = ucast i, im_sliceIndex = s\<rparr>"
proof -
  have "word_bytes 4 (ImmDataGrain_ctor i s) = word_bytes 2 (ucast i :: u16) @ word_bytes 2 s"
    using word_bytes_bytes_word [where bs = "word_bytes 2 (ucast i :: u16) @ word_bytes 2 s" and n = 4 and 'a = 32]
    by (simp add: ImmDataGrain_ctor_def)
  then show ?thesis
    by (simp add: ImmDataGrain_unpack_def Let_def)
qed

section \<open>Slice ranges\<close>

record SliceRange =
  sr_start :: u16
  sr_end :: u16

definition SliceRange_make :: "u16 \<Rightarrow> u16 \<Rightarrow> SliceRange res" where
  "SliceRange_make first end_slice =
     (if first > end_slice then Throw (OfiException MXL_ERR_INVALID_ARG)
      else Ret \<lparr>sr_start = first, sr_end = end_slice\<rparr>)"

definition transferSize :: "SliceRange \<Rightarrow> u32 \<Rightarrow> u32" where
  "transferSize r sliceSize = (ucast (sr_end r) - ucast (sr_start r)) * sliceSize"

definition transferOffset :: "SliceRange \<Rightarrow> u32 \<Rightarrow> u32 \<Rightarrow> u32" where
  "transferOffset r payloadOffset sliceSize = payloadOffset + ucast (sr_start r) * sliceSize"

section \<open>Data layouts\<close>

record DataLayout_Discrete =
  dl_sliceSizes :: "u32 list"
  dl_totalSlices :: u16

record DataLayout_Continuous =
  dl_sampleSize :: u64
  dl_channelCount :: u64
  dl_bufferLength :: u64

datatype DataLayout = Discrete DataLayout_Discrete | Continuous DataLayout_Continuous

definition fromDiscrete :: "u32 list \<Rightarrow> u16 \<Rightarrow> DataLayout" where
  "fromDiscrete sliceSizes totalSlices = Discrete \<lparr>dl_sliceSizes = sliceSizes, dl_totalSlices = totalSlices\<rparr>"

definition fromContinuous :: "u64 \<Rightarrow> u64 \<Rightarrow> u64 \<Rightarrow> DataLayout" where
  "fromContinuous sampleSize channels bufferLength =
     Continuous \<lparr>dl_sampleSize = sampleSize, dl_channelCount = channels, dl_bufferLength = bufferLength\<rparr>"

definition totalLength :: "DataLayout_Discrete \<Rightarrow> u64" where
  "totalLength l = foldl (\<lambda>sum s. sum + ucast s) 0 (dl_sliceSizes l)"

definition activePlaneCount :: "DataLayout_Discrete \<Rightarrow> nat" where
  "activePlaneCount l = length (filter (\<lambda>sliceSize. sliceSize > 0) (dl_sliceSizes l))"

definition planePayloadOffset :: "DataLayout_Discrete \<Rightarrow> nat \<Rightarrow> u32 \<Rightarrow> u32 res" where
  "planePayloadOffset l planeIndex grainPayloadOffset =
     (if length (dl_sliceSizes l) \<le> planeIndex then Throw (OfiException MXL_ERR_INVALID_STATE)
      else Ret (foldl (\<lambda>lhs rhs. lhs + rhs * ucast (dl_totalSlices l)) grainPayloadOffset (take planeIndex (dl_sliceSizes l))))"

section \<open>Regions\<close>

datatype Location = Host | Cuda int

definition Location_id :: "Location \<Rightarrow> u64" where
  "Location_id l = (case l of Host \<Rightarrow> 0 | Cuda deviceId \<Rightarrow> cast_u64 deviceId)"

datatype fi_hmem_iface = FI_HMEM_SYSTEM | FI_HMEM_CUDA

definition Location_iface :: "Location \<Rightarrow> fi_hmem_iface" where
  "Location_iface l = (case l of Host \<Rightarrow> FI_HMEM_SYSTEM | Cuda _ \<Rightarrow> FI_HMEM_CUDA)"

definition Location_isHost :: "Location \<Rightarrow> bool" where
  "Location_isHost l = (case l of Host \<Rightarrow> True | _ \<Rightarrow> False)"

record Region =
  rg_base :: u64
  rg_size :: u64
  rg_grainIndexPtr :: "u64 option"
  rg_validSlicesPtr :: "u64 option"
  rg_loc :: Location

record LocalRegion =
  lr_addr :: u64
  lr_len :: u64
  lr_desc :: nat

record RemoteRegion =
  rr_addr :: u64
  rr_len :: u64
  rr_rkey :: u64

text \<open>The sum of offset and length is computed in 64 bits.\<close>

definition LocalRegion_sub :: "LocalRegion \<Rightarrow> u64 \<Rightarrow> u64 \<Rightarrow> LocalRegion res" where
  "LocalRegion_sub r offset n =
     (if offset + n > lr_len r then Throw (OfiException MXL_ERR_INVALID_STATE)
      else Ret \<lparr>lr_addr = lr_addr r + offset, lr_len = n, lr_desc = lr_desc r\<rparr>)"

definition RemoteRegion_sub :: "RemoteRegion \<Rightarrow> u64 \<Rightarrow> u64 \<Rightarrow> RemoteRegion res" where
  "RemoteRegion_sub r offset n =
     (if offset + n > rr_len r then Throw (OfiException MXL_ERR_INVALID_ARG)
      else Ret \<lparr>rr_addr = rr_addr r + offset, rr_len = n, rr_rkey = rr_rkey r\<rparr>)"

definition toIovec :: "LocalRegion \<Rightarrow> u64 \<times> u64" where
  "toIovec r = (lr_addr r, lr_len r)"

definition toRmaIov :: "RemoteRegion \<Rightarrow> u64 \<times> u64 \<times> u64" where
  "toRmaIov r = (rr_addr r, rr_len r, rr_rkey r)"

text \<open>A group keeps its regions with the arrays that libfabric wants; a span is a part of the three.\<close>

record LocalRegionGroup =
  lg_inner :: "LocalRegion list"
  lg_iovs :: "(u64 \<times> u64) list"
  lg_descs :: "nat list"

definition LocalRegionGroup_ctor :: "LocalRegion list \<Rightarrow> LocalRegionGroup" where
  "LocalRegionGroup_ctor inner = \<lparr>lg_inner = inner, lg_iovs = map toIovec inner, lg_descs = map lr_desc inner\<rparr>"

definition LocalRegionGroup_span :: "LocalRegionGroup \<Rightarrow> nat \<Rightarrow> nat \<Rightarrow> LocalRegionGroup res" where
  "LocalRegionGroup_span g first end_index =
     (if end_index < first then Throw (OfiException MXL_ERR_INVALID_ARG)
      else let spanLength = end_index - first
           in if spanLength > length (lg_inner g) then Throw (OfiException MXL_ERR_INVALID_ARG)
              else if first + spanLength > length (lg_inner g) then Undef
              else let part = (\<lambda>xs. take spanLength (drop first xs))
                   in Ret \<lparr>lg_inner = part (lg_inner g), lg_iovs = take spanLength (drop first (lg_iovs g)),
                           lg_descs = take spanLength (drop first (lg_descs g))\<rparr>)"

definition byteSize :: "LocalRegionGroup \<Rightarrow> u64" where
  "byteSize g = foldl (\<lambda>sum r. sum + lr_len r) 0 (lg_inner g)"

section \<open>Registered regions\<close>

text \<open>What the registration with the fabric gives: a descriptor and a key.\<close>

record RegisteredRegion =
  rx_desc :: nat
  rx_rkey :: u64
  rx_region :: Region

definition toRemote :: "bool \<Rightarrow> RegisteredRegion \<Rightarrow> RemoteRegion" where
  "toRemote useVirtualAddress x =
     (let a = (if useVirtualAddress then rg_base (rx_region x) else 0)
      in \<lparr>rr_addr = a, rr_len = rg_size (rx_region x), rr_rkey = rx_rkey x\<rparr>)"

definition toLocal :: "RegisteredRegion \<Rightarrow> LocalRegion" where
  "toLocal x = \<lparr>lr_addr = rg_base (rx_region x), lr_len = rg_size (rx_region x), lr_desc = rx_desc x\<rparr>"

section \<open>The regions of a flow\<close>

record MxlRegions =
  mx_regions :: "Region list"
  mx_layout :: DataLayout
  mx_maxSyncBatchSize :: u32

text \<open>A flow as the fabrics see it: its data and where its grains and channels are mapped.\<close>

record MappedFlow =
  mf_common :: mxlCommonFlowConfigInfo
  mf_discrete :: DiscreteFlowData
  mf_grainAddrs :: "u64 list"
  mf_continuous :: ContinuousFlowData
  mf_channelAddr :: u64

definition MXL_GRAIN_PAYLOAD_OFFSET :: u64 where
  "MXL_GRAIN_PAYLOAD_OFFSET = 8192"

definition OFFSET_OF_INDEX :: u64 where
  "OFFSET_OF_INDEX = 8"

definition OFFSET_OF_VALID_SLICES :: u64 where
  "OFFSET_OF_VALID_SLICES = 26"

definition host_region :: "u64 \<Rightarrow> u64 \<Rightarrow> Region" where
  "host_region base n =
     \<lparr>rg_base = base, rg_size = n, rg_grainIndexPtr = None, rg_validSlicesPtr = None, rg_loc = Host\<rparr>"

definition grain_region :: "u64 \<Rightarrow> Grain \<Rightarrow> Region" where
  "grain_region a g = host_region a (MXL_GRAIN_PAYLOAD_OFFSET + ucast (gi_grainSize (gr_info g)))"

definition mxlFabricsRegionsFromFlow :: "MappedFlow \<Rightarrow> MxlRegions res" where
  "mxlFabricsRegionsFromFlow flow =
     (if cc_payloadLocation (mf_common flow) \<noteq> MXL_PAYLOAD_LOCATION_HOST_MEMORY then Throw (OfiException MXL_ERR_UNKNOWN)
      else if mxlIsDiscreteDataFormat (cc_format (mf_common flow)) then
        let grains = dd_grains (mf_discrete flow)
        in (case grains of
              [] \<Rightarrow> Undef
            | g # _ \<Rightarrow>
                Ret \<lparr>mx_regions = map2 grain_region (mf_grainAddrs flow) grains,
                     mx_layout = fromDiscrete (dc_sliceSizes (dd_config (mf_discrete flow))) (gi_totalSlices (gr_info g)),
                     mx_maxSyncBatchSize = cc_maxSyncBatchSizeHint (mf_common flow)\<rparr>)
      else if mxlIsContinuousDataFormat (cc_format (mf_common flow)) then
        let d = mf_continuous flow
        in Ret \<lparr>mx_regions = [host_region (mf_channelAddr flow) (of_nat (length (cd_channels d)))],
               mx_layout = fromContinuous (cd_sampleWordSize d) (channelCount d) (channelBufferLength d),
               mx_maxSyncBatchSize = cc_maxSyncBatchSizeHint (mf_common flow)\<rparr>
      else Throw (OfiException MXL_ERR_UNKNOWN))"

definition writable_region :: "u64 \<Rightarrow> Region \<Rightarrow> Region" where
  "writable_region a r = r\<lparr>rg_grainIndexPtr := Some (a + OFFSET_OF_INDEX), rg_validSlicesPtr := Some (a + OFFSET_OF_VALID_SLICES)\<rparr>"

definition mxlFabricsRegionsFromMutableFlow :: "MappedFlow \<Rightarrow> MxlRegions res" where
  "mxlFabricsRegionsFromMutableFlow flow =
     bind_res (mxlFabricsRegionsFromFlow flow) (\<lambda>regions.
       if mxlIsDiscreteDataFormat (cc_format (mf_common flow)) then
         (if length (mx_regions regions) \<noteq> length (dd_grains (mf_discrete flow)) then Throw (OfiException MXL_ERR_INVALID_STATE)
          else Ret (regions\<lparr>mx_regions := map2 writable_region (mf_grainAddrs flow) (mx_regions regions)\<rparr>))
       else Ret regions)"

text \<open>Loads and stores through the pointers of a region, null for those of a flow that is only read.\<close>

definition getGrainIndexInRingSlot :: "Region list \<Rightarrow> u16 \<Rightarrow> memory \<Rightarrow> u64 res" where
  "getGrainIndexInRingSlot regions slot mem =
     (if unat slot \<ge> length regions then Throw (OfiException MXL_ERR_INVALID_ARG)
      else case rg_grainIndexPtr (regions ! unat slot) of
        None \<Rightarrow> Undef
      | Some p \<Rightarrow> Ret (load_word mem p 8))"

definition setValidSlicesForGrain :: "Region list \<Rightarrow> u16 \<Rightarrow> u16 \<Rightarrow> memory \<Rightarrow> memory res" where
  "setValidSlicesForGrain regions slot validSlices mem =
     (if unat slot \<ge> length regions then Throw (OfiException MXL_ERR_INVALID_ARG)
      else case rg_validSlicesPtr (regions ! unat slot) of
        None \<Rightarrow> Undef
      | Some p \<Rightarrow> Ret (store_word p 2 validSlices mem))"

end
