(* ===== verification/Base64.thy ===== *)
theory Base64
  imports Bytes
begin

text \<open>
  The codec \<^verbatim>\<open>Base64.hpp\<close>, with which addresses are written into the description of a target. The tables of
  the little-endian variant are given by the formulas that generate them.
\<close>

section \<open>The tables\<close>

definition alphabet :: string where
  "alphabet = ''ABCDEFGHIJKLMNOPQRSTUVWXYZabcdefghijklmnopqrstuvwxyz0123456789+/''"

definition padding_char :: char where
  "padding_char = CHR ''=''"

definition bad_char :: u32 where
  "bad_char = 0x01FFFFFF"

definition encode_table_0 :: "u8 \<Rightarrow> char" where
  "encode_table_0 t = alphabet ! unat (drop_bit 2 t)"

definition encode_table_1 :: "u8 \<Rightarrow> char" where
  "encode_table_1 t = alphabet ! unat (t AND 63)"

definition sextet :: "char \<Rightarrow> u32 option" where
  "sextet c = map_of (zip alphabet (map of_nat [0..<64])) c"

definition decode_table_0 :: "char \<Rightarrow> u32" where
  "decode_table_0 c = (case sextet c of None \<Rightarrow> bad_char | Some v \<Rightarrow> push_bit 2 v)"

definition decode_table_1 :: "char \<Rightarrow> u32" where
  "decode_table_1 c = (case sextet c of None \<Rightarrow> bad_char | Some v \<Rightarrow> (drop_bit 4 v AND 3) OR push_bit 12 (v AND 15))"

definition decode_table_2 :: "char \<Rightarrow> u32" where
  "decode_table_2 c =
     (case sextet c of None \<Rightarrow> bad_char | Some v \<Rightarrow> push_bit 8 (drop_bit 2 v AND 15) OR push_bit 22 (v AND 3))"

definition decode_table_3 :: "char \<Rightarrow> u32" where
  "decode_table_3 c = (case sextet c of None \<Rightarrow> bad_char | Some v \<Rightarrow> push_bit 16 v)"

section \<open>Encoding\<close>

fun encode_into :: "u8 list \<Rightarrow> string" where
  "encode_into [] = []"
| "encode_into [t1] =
     [encode_table_0 t1, encode_table_1 (push_bit 4 (t1 AND 0x03)), padding_char, padding_char]"
| "encode_into [t1, t2] =
     [encode_table_0 t1, encode_table_1 (push_bit 4 (t1 AND 0x03) OR (drop_bit 4 t2 AND 0x0F)),
      encode_table_1 (push_bit 2 (t2 AND 0x0F)), padding_char]"
| "encode_into (t1 # t2 # t3 # bytes) =
     encode_table_0 t1 # encode_table_1 (push_bit 4 (t1 AND 0x03) OR (drop_bit 4 t2 AND 0x0F)) #
     encode_table_1 (push_bit 2 (t2 AND 0x0F) OR (drop_bit 6 t3 AND 0x03)) # encode_table_1 t3 # encode_into bytes"

section \<open>Decoding\<close>

text \<open>The first \<open>n\<close> bytes of a decoded word.\<close>

definition decoded_bytes :: "nat \<Rightarrow> u32 \<Rightarrow> u8 list res" where
  "decoded_bytes n temp = (if temp \<ge> bad_char then Throw RuntimeError else Ret (take n (word_bytes 4 temp)))"

fun decode_blocks :: "nat \<Rightarrow> string \<Rightarrow> (u8 list \<times> string) res" where
  "decode_blocks 0 bytes = Ret ([], bytes)"
| "decode_blocks (Suc i) (t1 # t2 # t3 # t4 # bytes) =
     bind_res (decoded_bytes 3 (decode_table_0 t1 OR decode_table_1 t2 OR decode_table_2 t3 OR decode_table_3 t4)) (\<lambda>block.
     bind_res (decode_blocks i bytes) (\<lambda>(out, rest). Ret (block @ out, rest)))"
| "decode_blocks (Suc i) _ = Undef"

definition decode_rest :: "nat \<Rightarrow> string \<Rightarrow> u8 list res" where
  "decode_rest numPadding bytes =
     (case (numPadding, bytes) of
        (0, _) \<Rightarrow> Ret []
      | (Suc 0, t1 # t2 # t3 # _) \<Rightarrow> decoded_bytes 2 (decode_table_0 t1 OR decode_table_1 t2 OR decode_table_2 t3)
      | (Suc (Suc 0), t1 # t2 # _) \<Rightarrow> decoded_bytes 1 (decode_table_0 t1 OR decode_table_1 t2)
      | _ \<Rightarrow> Undef)"

definition decode_into :: "string \<Rightarrow> u8 list res" where
  "decode_into base64Text =
     (if base64Text = [] then Ret []
      else if length base64Text mod 4 \<noteq> 0 then Throw RuntimeError
      else let numPadding = length (filter (\<lambda>c. c = padding_char) (take 4 (rev base64Text)))
           in if numPadding > 2 then Throw RuntimeError
              else bind_res (decode_blocks (length base64Text div 4 - (if numPadding \<noteq> 0 then 1 else 0)) base64Text)
                     (\<lambda>(out, rest). map_ret (\<lambda>tail. out @ tail) (decode_rest numPadding rest)))"

section \<open>Round trip\<close>

lemma length_alphabet [simp]: "length alphabet = 64"
  by (simp add: alphabet_def)

lemma distinct_alphabet: "distinct alphabet"
  by (simp add: alphabet_def)

lemma padding_not_in_alphabet: "padding_char \<notin> set alphabet"
  by (simp add: alphabet_def padding_char_def)

lemma sextet_alphabet: "v < 64 \<Longrightarrow> sextet (alphabet ! v) = Some (of_nat v)"
  unfolding sextet_def by (subst map_of_zip_nth) (simp_all add: distinct_alphabet)

lemma unat_and_63: "unat (x AND 63 :: u8) < 64"
proof -
  have "x AND 63 = take_bit 6 x"
    by (simp add: take_bit_eq_mask mask_eq_decr_exp)
  then show ?thesis
    by (simp add: unsigned_take_bit_eq take_bit_nat_less_exp [of 6, simplified])
qed

lemma unat_drop_2: "unat (drop_bit 2 x :: u8) < 64"
proof -
  have "unat x < 256"
    using unsigned_less [of x] by simp
  then show ?thesis
    by (simp add: drop_bit_eq_div unat_div_distrib)
qed

lemma sextet_encode_0: "sextet (encode_table_0 t) = Some (ucast (drop_bit 2 t))"
  using sextet_alphabet [OF unat_drop_2 [of t]] by (simp add: encode_table_0_def)

lemma sextet_encode_1: "sextet (encode_table_1 t) = Some (ucast (t AND 63))"
  using sextet_alphabet [OF unat_and_63 [of t]] by (simp add: encode_table_1_def)

lemma encode_not_padding: "encode_table_0 t \<noteq> padding_char" "encode_table_1 t \<noteq> padding_char"
proof -
  have "sextet padding_char = None"
    using padding_not_in_alphabet by (auto simp: sextet_def map_of_eq_None_iff dest: set_zip_leftD)
  then show "encode_table_0 t \<noteq> padding_char" "encode_table_1 t \<noteq> padding_char"
    using sextet_encode_0 [of t] sextet_encode_1 [of t] by auto
qed

lemma less_32_cases: "n < 32 \<Longrightarrow> n \<in> set [0, 1, 2, 3, 4, 5, 6, 7, 8, 9, 10, 11, 12, 13, 14, 15,
    16, 17, 18, 19, 20, 21, 22, 23, 24, 25, 26, 27, 28, 29, 30, 31 :: nat]"
proof -
  assume "n < 32"
  moreover have "[0..<32] = [0, 1, 2, 3, 4, 5, 6, 7, 8, 9, 10, 11, 12, 13, 14, 15,
    16, 17, 18, 19, 20, 21, 22, 23, 24, 25, 26, 27, 28, 29, 30, 31]"
    by (simp add: upt_rec)
  ultimately show ?thesis
    using atLeastLessThan_iff [of n 0 32] set_upt [of 0 32] by simp
qed

lemma bit_u8_high [simp]: "8 \<le> n \<Longrightarrow> \<not> bit (t :: u8) n"
  using bit_imp_le_length [of t n] by auto

lemma block_word:
  "decode_table_0 (encode_table_0 t1) OR
   decode_table_1 (encode_table_1 (push_bit 4 (t1 AND 0x03) OR (drop_bit 4 t2 AND 0x0F))) OR
   decode_table_2 (encode_table_1 (push_bit 2 (t2 AND 0x0F) OR (drop_bit 6 t3 AND 0x03))) OR
   decode_table_3 (encode_table_1 t3) = bytes_word [t1, t2, t3]" (is "?temp = _")
proof (rule bit_word_eqI)
  fix n
  assume "n < LENGTH(32)"
  then have "n \<in> set [0, 1, 2, 3, 4, 5, 6, 7, 8, 9, 10, 11, 12, 13, 14, 15,
      16, 17, 18, 19, 20, 21, 22, 23, 24, 25, 26, 27, 28, 29, 30, 31]"
    using less_32_cases by simp
  then show "bit ?temp n \<longleftrightarrow> bit (bytes_word [t1, t2, t3] :: u32) n"
    unfolding decode_table_0_def decode_table_1_def decode_table_2_def decode_table_3_def
      sextet_encode_0 sextet_encode_1 option.case bit_bytes_word list.set
    by (elim insertE emptyE; hypsubst; simp add: bit_simps)
qed

lemma decoded_bytes_block: "decoded_bytes n (bytes_word [t1, t2, t3]) = Ret (take n [t1, t2, t3, 0])"
proof -
  let ?w = "bytes_word [t1, t2, t3] :: u32"
  have "?w = bytes_word [t1, t2, t3, 0]"
    by simp
  then have "word_bytes 4 ?w = [t1, t2, t3, 0]"
    using word_bytes_bytes_word [where bs = "[t1, t2, t3, 0]" and n = 4 and 'a = 32] by simp
  moreover have "take_bit 24 ?w = ?w"
    unfolding bit_eq_iff bit_take_bit_iff bit_bytes_word by auto
  then have "unat ?w = take_bit 24 (unat ?w)"
    by (metis unsigned_take_bit_eq)
  then have "unat ?w < 2 ^ 24"
    using take_bit_nat_less_exp [of 24 "unat ?w"] by linarith
  then have "\<not> bad_char \<le> ?w"
    by (simp add: bad_char_def word_le_nat_alt del: bytes_word.simps)
  ultimately show ?thesis
    by (simp add: decoded_bytes_def del: bytes_word.simps)
qed

lemma not_multiple_3: "Suc 0 \<noteq> 3 * k" "Suc (Suc 0) \<noteq> 3 * k"
  by presburger+

lemma encode_into_append: "length xs = 3 * k \<Longrightarrow> encode_into (xs @ ys) = encode_into xs @ encode_into ys"
proof (induction xs arbitrary: k rule: encode_into.induct)
  case (4 t1 t2 t3 bytes)
  then obtain j where "length bytes = 3 * j"
    by (cases k) auto
  then show ?case
    using 4(1) [of j] by simp
qed (auto simp: not_multiple_3)

lemma length_encode_into: "length xs = 3 * k \<Longrightarrow> length (encode_into xs) = 4 * k"
proof (induction xs arbitrary: k rule: encode_into.induct)
  case (4 t1 t2 t3 bytes)
  then obtain j where "k = Suc j" "length bytes = 3 * j"
    by (cases k) auto
  then show ?case
    using 4(1) [of j] by simp
qed (auto simp: not_multiple_3)

lemma decode_blocks_encode:
  "length xs = 3 * k \<Longrightarrow> decode_blocks k (encode_into xs @ rest) = Ret (xs, rest)"
proof (induction xs arbitrary: k rule: encode_into.induct)
  case (4 t1 t2 t3 bytes)
  then obtain j where "k = Suc j" "length bytes = 3 * j"
    by (cases k) auto
  then show ?case
    using 4(1) [of j] by (simp add: block_word decoded_bytes_block del: bytes_word.simps push_bit_and)
qed (auto simp: not_multiple_3)

text \<open>What the last one, two or three bytes are encoded as.\<close>

lemma block_word_2:
  "decode_table_0 (encode_table_0 t1) OR
   decode_table_1 (encode_table_1 (push_bit 4 (t1 AND 0x03) OR (drop_bit 4 t2 AND 0x0F))) OR
   decode_table_2 (encode_table_1 (push_bit 2 (t2 AND 0x0F))) = bytes_word [t1, t2, 0]"
  using block_word [of t1 t2 0] by (simp add: decode_table_3_def sextet_encode_1 del: bytes_word.simps push_bit_and)

lemma block_word_1:
  "decode_table_0 (encode_table_0 t1) OR decode_table_1 (encode_table_1 (push_bit 4 (t1 AND 0x03))) = bytes_word [t1, 0, 0]"
  using block_word_2 [of t1 0] by (simp add: decode_table_2_def sextet_encode_1 del: bytes_word.simps push_bit_and)

theorem base64_roundtrip: "decode_into (encode_into bs) = Ret bs"
proof (cases "bs = []")
  case False
  let ?k = "(length bs - 1) div 3"
  define xs ys where "xs = take (3 * ?k) bs" and "ys = drop (3 * ?k) bs"
  have "length bs = 3 * ?k + ((length bs - 1) mod 3 + 1)" "(length bs - 1) mod 3 < 3"
    using False by (cases bs; simp)+
  then have "length bs - 3 * ?k = (length bs - 1) mod 3 + 1" "3 * ?k \<le> length bs" "(length bs - 1) mod 3 \<in> {0, 1, 2}"
    by linarith+ auto
  then have len: "length xs = 3 * ?k" "length ys \<in> {1, 2, 3}"
    unfolding xs_def ys_def length_take length_drop by auto
  then have enc: "encode_into bs = encode_into xs @ encode_into ys"
    using encode_into_append [of xs ?k ys] by (simp add: xs_def ys_def)
  have size: "length (encode_into xs) = 4 * ?k"
    using len(1) by (simp add: length_encode_into)
  note blocks = decode_blocks_encode [OF len(1)]
  note tables = block_word block_word_1 block_word_2 decoded_bytes_block encode_not_padding
  from len(2) consider t1 where "ys = [t1]" | t1 t2 where "ys = [t1, t2]" | t1 t2 t3 where "ys = [t1, t2, t3]"
    by (auto simp: length_Suc_conv numeral_2_eq_2 numeral_3_eq_3)
  then have "decode_into (encode_into xs @ encode_into ys) = Ret (xs @ ys)"
  proof cases
    case 1
    then show ?thesis
      using size blocks by (simp add: decode_into_def decode_rest_def tables del: bytes_word.simps push_bit_and)
  next
    case 2
    then show ?thesis
      using size blocks by (simp add: decode_into_def decode_rest_def tables del: bytes_word.simps push_bit_and)
  next
    case 3
    have "decode_blocks (?k + 1) (encode_into (xs @ ys) @ []) = Ret (xs @ ys, [])"
      by (rule decode_blocks_encode) (use len(1) 3 in simp)
    then show ?thesis
      using size len(1) enc 3 encode_into_append [of xs ?k ys] by (simp add: decode_into_def decode_rest_def tables del: bytes_word.simps push_bit_and)
  qed
  then show ?thesis
    using enc by (simp add: xs_def ys_def)
qed (simp add: decode_into_def)

end
