(* ===== verification/TargetInfo.thy ===== *)
theory TargetInfo
  imports FabricRegions Base64 FlowManager "HOL-Library.List_Lexorder" "HOL-Library.Char_ord"
begin

text \<open>
  What a target tells its initiators, \<^verbatim>\<open>TargetInfo.cpp\<close>, with its form as JSON text, \<^verbatim>\<open>Provider.cpp\<close> and the raw
  addresses of \<^verbatim>\<open>Address.cpp\<close>. The JSON library is a parameter.
\<close>

section \<open>Providers\<close>

datatype Provider = Provider_ANY | Provider_TCP | Provider_VERBS | Provider_EFA | Provider_SHM

definition MXL_FABRICS_PROVIDER_ANY :: int where "MXL_FABRICS_PROVIDER_ANY = 0"
definition MXL_FABRICS_PROVIDER_TCP :: int where "MXL_FABRICS_PROVIDER_TCP = 1"
definition MXL_FABRICS_PROVIDER_VERBS :: int where "MXL_FABRICS_PROVIDER_VERBS = 2"
definition MXL_FABRICS_PROVIDER_EFA :: int where "MXL_FABRICS_PROVIDER_EFA = 3"
definition MXL_FABRICS_PROVIDER_SHM :: int where "MXL_FABRICS_PROVIDER_SHM = 4"

lemmas api_providers = MXL_FABRICS_PROVIDER_ANY_def MXL_FABRICS_PROVIDER_TCP_def MXL_FABRICS_PROVIDER_VERBS_def
  MXL_FABRICS_PROVIDER_EFA_def MXL_FABRICS_PROVIDER_SHM_def

fun providerToAPI :: "Provider \<Rightarrow> int" where
  "providerToAPI Provider_ANY = MXL_FABRICS_PROVIDER_ANY"
| "providerToAPI Provider_TCP = MXL_FABRICS_PROVIDER_TCP"
| "providerToAPI Provider_VERBS = MXL_FABRICS_PROVIDER_VERBS"
| "providerToAPI Provider_EFA = MXL_FABRICS_PROVIDER_EFA"
| "providerToAPI Provider_SHM = MXL_FABRICS_PROVIDER_SHM"

definition providerFromAPI :: "int \<Rightarrow> Provider option" where
  "providerFromAPI api =
     (if api = MXL_FABRICS_PROVIDER_ANY then Some Provider_ANY
      else if api = MXL_FABRICS_PROVIDER_TCP then Some Provider_TCP
      else if api = MXL_FABRICS_PROVIDER_VERBS then Some Provider_VERBS
      else if api = MXL_FABRICS_PROVIDER_EFA then Some Provider_EFA
      else if api = MXL_FABRICS_PROVIDER_SHM then Some Provider_SHM
      else None)"

definition providerStringMap :: "(string \<times> Provider) list" where
  "providerStringMap =
     [(''any'', Provider_ANY), (''tcp'', Provider_TCP), (''verbs'', Provider_VERBS), (''efa'', Provider_EFA), (''shm'', Provider_SHM)]"

definition providerFromString :: "string \<Rightarrow> Provider option" where
  "providerFromString s = map_of providerStringMap s"

text \<open>The formatter of \<^verbatim>\<open>Format.hpp\<close> has no name for any provider.\<close>

fun format_provider :: "Provider \<Rightarrow> string" where
  "format_provider Provider_TCP = ''tcp''"
| "format_provider Provider_VERBS = ''verbs''"
| "format_provider Provider_EFA = ''efa''"
| "format_provider Provider_SHM = ''shm''"
| "format_provider Provider_ANY = ''unknown''"

lemma provider_api_roundtrip: "providerFromAPI (providerToAPI p) = Some p"
  by (cases p) (simp_all add: providerFromAPI_def api_providers)

lemma provider_text_roundtrip:
  "(case providerFromString (format_provider p) of None \<Rightarrow> Provider_ANY | Some q \<Rightarrow> q) = p"
  by (cases p) (simp_all add: providerFromString_def providerStringMap_def)

section \<open>Raw addresses\<close>

datatype FabricAddressFormat =
    Format_Unspec | Format_Sockaddr | Format_SockaddrIp | Format_SockaddrIn | Format_SockaddrIn6
  | Format_SockaddrIb | Format_Efa | Format_String

definition valid_formats :: "FabricAddressFormat list" where
  "valid_formats =
     [Format_Unspec, Format_Sockaddr, Format_SockaddrIp, Format_SockaddrIn, Format_SockaddrIn6, Format_SockaddrIb,
      Format_Efa, Format_String]"

text \<open>The numbers of the formats, \<open>fi_code\<close>, are those of libfabric.\<close>

definition convertAddressFormat :: "(FabricAddressFormat \<Rightarrow> u32) \<Rightarrow> u32 \<Rightarrow> FabricAddressFormat" where
  "convertAddressFormat fi_code fiAddrFormat =
     (case find (\<lambda>f. fi_code f = fiAddrFormat) valid_formats of None \<Rightarrow> Format_Unspec | Some f \<Rightarrow> f)"

definition mustConvertAddressFormat :: "(FabricAddressFormat \<Rightarrow> u32) \<Rightarrow> u32 \<Rightarrow> FabricAddressFormat res" where
  "mustConvertAddressFormat fi_code fiAddrFormat =
     (let v = convertAddressFormat fi_code fiAddrFormat
      in if v = Format_Unspec then Throw (OfiException MXL_ERR_INVALID_ARG) else Ret v)"

record RawFabricAddress =
  fa_inner :: "u8 list"
  fa_addressFormat :: FabricAddressFormat

definition toBase64 :: "RawFabricAddress \<Rightarrow> string" where
  "toBase64 a = encode_into (fa_inner a)"

definition fromBase64 :: "string \<Rightarrow> FabricAddressFormat \<Rightarrow> RawFabricAddress res" where
  "fromBase64 s addressFormat =
     bind_res (decode_into s) (\<lambda>decoded.
       if decoded = [] then Throw RuntimeError
       else Ret \<lparr>fa_inner = decoded, fa_addressFormat = addressFormat\<rparr>)"

section \<open>Numbers as text\<close>

definition to_string :: "u64 \<Rightarrow> string" where
  "to_string x = decimal (unat x)"

definition is_digit :: "char \<Rightarrow> bool" where
  "is_digit c \<longleftrightarrow> 48 \<le> (of_char c :: nat) \<and> (of_char c :: nat) \<le> 57"

definition is_space :: "char \<Rightarrow> bool" where
  "is_space c \<longleftrightarrow> (of_char c :: nat) = 32 \<or> 9 \<le> (of_char c :: nat) \<and> (of_char c :: nat) \<le> 13"

definition digits_value :: "string \<Rightarrow> nat" where
  "digits_value ds = foldl (\<lambda>n c. 10 * n + (of_char c - 48)) 0 ds"

text \<open>\<^verbatim>\<open>std::stoull\<close>: leading blanks, an optional sign, and the digits up to the first other character.\<close>

definition stoull :: "string \<Rightarrow> u64 res" where
  "stoull s =
     (let t = dropWhile is_space s;
          negative = (t \<noteq> [] \<and> hd t = CHR ''-'');
          u = (if t \<noteq> [] \<and> (hd t = CHR ''-'' \<or> hd t = CHR ''+'') then tl t else t);
          ds = takeWhile is_digit u;
          n = digits_value ds
      in if ds = [] then Throw InvalidArgument
         else if n \<ge> 2 ^ 64 then Throw OutOfRange
         else Ret (if negative then - of_nat n else of_nat n))"

section \<open>The information of a target\<close>

record TargetInfoBounceBufferInfo =
  bb_entryCount :: u64
  bb_entrySize :: u64

record TargetInfo =
  ti_id :: u64
  ti_fabricAddress :: RawFabricAddress
  ti_provider :: Provider
  ti_remoteRegions :: "RemoteRegion list"
  ti_bounceBufferInfo :: "TargetInfoBounceBufferInfo option"

text \<open>An object is a map in the order of its keys; assignment replaces or adds a member.\<close>

fun obj_set :: "string \<Rightarrow> json \<Rightarrow> object \<Rightarrow> object" where
  "obj_set k v [] = [(k, v)]"
| "obj_set k v ((k', v') # o') =
     (if k = k' then (k, v) # o' else if k < k' then (k, v) # (k', v') # o' else (k', v') # obj_set k v o')"

definition obj_at :: "object \<Rightarrow> string \<Rightarrow> json res" where
  "obj_at o' k = (case map_of o' k of None \<Rightarrow> Throw OutOfRange | Some v \<Rightarrow> Ret v)"

definition region_json :: "RemoteRegion \<Rightarrow> json" where
  "region_json r =
     JObject (obj_set ''rkey'' (JString (to_string (rr_rkey r)))
       (obj_set ''len'' (JString (to_string (rr_len r)))
         (obj_set ''addr'' (JString (to_string (rr_addr r))) [])))"

definition bounce_json :: "TargetInfoBounceBufferInfo \<Rightarrow> json" where
  "bounce_json b =
     JObject (obj_set ''entrySize'' (JString (to_string (bb_entrySize b)))
       (obj_set ''entryCount'' (JString (to_string (bb_entryCount b))) []))"

definition target_json :: "(FabricAddressFormat \<Rightarrow> u32) \<Rightarrow> TargetInfo \<Rightarrow> json" where
  "target_json fi_code t =
     (let members = obj_set ''fabricAddress'' (JString (toBase64 (ti_fabricAddress t))) [];
          members = obj_set ''addressFormat'' (JNumber (of_nat (unat (fi_code (fa_addressFormat (ti_fabricAddress t)))))) members;
          members = obj_set ''regions'' (JArray (map region_json (ti_remoteRegions t))) members;
          members = (case ti_bounceBufferInfo t of None \<Rightarrow> members | Some b \<Rightarrow> obj_set ''bounceBufferInfo'' (bounce_json b) members);
          members = obj_set ''id'' (JString (to_string (ti_id t))) members;
          members = obj_set ''provider'' (JString (format_provider (ti_provider t))) members
      in JObject members)"

definition toJSON :: "(json \<Rightarrow> string) \<Rightarrow> (FabricAddressFormat \<Rightarrow> u32) \<Rightarrow> TargetInfo \<Rightarrow> string" where
  "toJSON serialize fi_code t = serialize (target_json fi_code t)"

definition number_at :: "object \<Rightarrow> string \<Rightarrow> u64 res" where
  "number_at o' k = bind_res (obj_at o' k) (\<lambda>v. bind_res (get_string v) stoull)"

fun parse_regions :: "json list \<Rightarrow> RemoteRegion list res" where
  "parse_regions [] = Ret []"
| "parse_regions (regionValue # rest) =
     bind_res (get_object regionValue) (\<lambda>regionObj.
     bind_res (number_at regionObj ''addr'') (\<lambda>addr.
     bind_res (number_at regionObj ''len'') (\<lambda>len.
     bind_res (number_at regionObj ''rkey'') (\<lambda>rkey.
     map_ret (\<lambda>regions. \<lparr>rr_addr = addr, rr_len = len, rr_rkey = rkey\<rparr> # regions) (parse_regions rest)))))"

definition parse_bounce :: "object \<Rightarrow> TargetInfoBounceBufferInfo option res" where
  "parse_bounce members =
     (case map_of members ''bounceBufferInfo'' of
        None \<Rightarrow> Ret None
      | Some v \<Rightarrow>
          bind_res (get_object v) (\<lambda>bounceBufferInfoObj.
          bind_res (number_at bounceBufferInfoObj ''entryCount'') (\<lambda>entryCount.
          bind_res (number_at bounceBufferInfoObj ''entrySize'') (\<lambda>entrySize.
          Ret (Some \<lparr>bb_entryCount = entryCount, bb_entrySize = entrySize\<rparr>)))))"

definition fromJSON :: "(string \<Rightarrow> json option) \<Rightarrow> (FabricAddressFormat \<Rightarrow> u32) \<Rightarrow> string \<Rightarrow> TargetInfo res" where
  "fromJSON parse fi_code s =
     (case parse s of
        Some (JObject members) \<Rightarrow>
          bind_res (bind_res (obj_at members ''addressFormat'') (\<lambda>v. bind_res (get_double v) u32_of_double)) (\<lambda>code.
          bind_res (mustConvertAddressFormat fi_code code) (\<lambda>addressFormat.
          bind_res (bind_res (obj_at members ''fabricAddress'') get_string) (\<lambda>text.
          bind_res (fromBase64 text addressFormat) (\<lambda>fabricAddress.
          bind_res (bind_res (obj_at members ''regions'') get_array) (\<lambda>values.
          bind_res (parse_regions values) (\<lambda>regions.
          bind_res (parse_bounce members) (\<lambda>bounceBufferInfo.
          bind_res (number_at members ''id'') (\<lambda>ident.
          bind_res (bind_res (obj_at members ''provider'') get_string) (\<lambda>name.
          Ret \<lparr>ti_id = ident, ti_fabricAddress = fabricAddress,
               ti_provider = (case providerFromString name of None \<Rightarrow> Provider_ANY | Some p \<Rightarrow> p),
               ti_remoteRegions = regions, ti_bounceBufferInfo = bounceBufferInfo\<rparr>)))))))))
      | _ \<Rightarrow> Throw (OfiException MXL_ERR_INVALID_ARG))"

definition target_eq :: "TargetInfo \<Rightarrow> TargetInfo \<Rightarrow> bool" where
  "target_eq a b \<longleftrightarrow>
     ti_fabricAddress a = ti_fabricAddress b \<and> ti_remoteRegions a = ti_remoteRegions b \<and> ti_id a = ti_id b"

section \<open>Round trip\<close>

lemma digits_value_snoc: "digits_value (ds @ [c]) = 10 * digits_value ds + (of_char c - 48)"
  by (simp add: digits_value_def)

lemma of_char_digit: "n < 10 \<Longrightarrow> (of_char (digit n) :: nat) = 48 + n"
  by (simp add: digit_def of_char_of)

lemma digits_value_decimal: "digits_value (decimal n) = n"
proof (induction n rule: decimal.induct)
  case (1 n)
  show ?case
  proof (cases "n < 10")
    case True
    then show ?thesis
      by (subst decimal.simps) (simp add: digits_value_def of_char_digit)
  next
    case False
    then show ?thesis
      using 1 by (subst decimal.simps) (simp add: digits_value_snoc of_char_digit)
  qed
qed

lemma decimal_digits: "c \<in> set (decimal n) \<Longrightarrow> is_digit c"
proof (induction n rule: decimal.induct)
  case (1 n)
  have "is_digit (digit m)" if "m < 10" for m
    using that by (simp add: is_digit_def of_char_digit)
  then show ?case
    using 1 by (subst (asm) (2) decimal.simps) (auto split: if_splits)
qed

lemma stoull_to_string: "stoull (to_string x) = Ret x"
proof -
  let ?d = "decimal (unat x)"
  obtain c cs where d: "?d = c # cs"
    by (cases ?d) auto
  have "\<And>e. e \<in> set ?d \<Longrightarrow> is_digit e"
    by (rule decimal_digits)
  then have take: "takeWhile is_digit ?d = ?d" and c: "is_digit c"
    by (auto simp: takeWhile_eq_all_conv d)
  have "\<not> is_space c" "c \<noteq> CHR ''-''" "c \<noteq> CHR ''+''"
    using c by (auto simp: is_digit_def is_space_def)
  then have "dropWhile is_space ?d = ?d" "hd ?d \<noteq> CHR ''-''" "hd ?d \<noteq> CHR ''+''"
    by (simp_all add: d)
  then show ?thesis
    using unat_u64_less [of x] by (simp add: stoull_def to_string_def Let_def take digits_value_decimal)
qed

lemma convertAddressFormat_code: "inj fi_code \<Longrightarrow> convertAddressFormat fi_code (fi_code f) = f"
  by (cases f) (simp_all add: convertAddressFormat_def valid_formats_def inj_eq)

lemma fromBase64_toBase64: "fa_inner a \<noteq> [] \<Longrightarrow> fromBase64 (toBase64 a) (fa_addressFormat a) = Ret a"
  by (simp add: fromBase64_def toBase64_def base64_roundtrip)

lemmas number_text = number_at_def obj_at_def stoull_to_string

lemma parse_region_json: "parse_regions (map region_json rs) = Ret rs"
  by (induction rs) (simp_all add: region_json_def number_text)

lemma u32_of_double_of_nat: "n < 2 ^ 32 \<Longrightarrow> u32_of_double (of_nat n) = Ret (of_nat n)"
  by (simp add: u32_of_double_def trunc_rat_def)

lemma u32_of_double_unsigned: "u32_of_double (unsigned (x :: u32)) = Ret x"
  using u32_of_double_of_nat [of "unat x"] unat_u32_less [of x] by simp

lemma map_of_obj_set: "map_of (obj_set k v ms) = (map_of ms)(k \<mapsto> v)"
  by (induction k v ms rule: obj_set.induct) auto

text \<open>
  What a target says of itself survives the way through text: the description that an initiator reads
  from the text that a target wrote is the description the target had, in every part, for every target that
  has an address, provided the JSON library reads back the document that it wrote.
\<close>

theorem target_info_roundtrip:
  assumes "parse (serialize (target_json fi_code t)) = Some (target_json fi_code t)" "inj fi_code"
    and "fa_inner (ti_fabricAddress t) \<noteq> []" "fa_addressFormat (ti_fabricAddress t) \<noteq> Format_Unspec"
  shows "fromJSON parse fi_code (toJSON serialize fi_code t) = Ret t"
proof -
  obtain ms where ms: "target_json fi_code t = JObject ms"
    by (simp add: target_json_def Let_def)
  have "parse (toJSON serialize fi_code t) = Some (JObject ms)"
    using assms(1) by (simp add: toJSON_def ms)
  moreover have "map_of ms ''addressFormat'' = Some (JNumber (of_nat (unat (fi_code (fa_addressFormat (ti_fabricAddress t))))))"
      "map_of ms ''fabricAddress'' = Some (JString (toBase64 (ti_fabricAddress t)))"
      "map_of ms ''regions'' = Some (JArray (map region_json (ti_remoteRegions t)))"
      "map_of ms ''bounceBufferInfo'' = map_option bounce_json (ti_bounceBufferInfo t)"
      "map_of ms ''id'' = Some (JString (to_string (ti_id t)))"
      "map_of ms ''provider'' = Some (JString (format_provider (ti_provider t)))"
    using ms by (auto simp: target_json_def Let_def map_of_obj_set split: option.splits)
  moreover have "parse_bounce ms = Ret (ti_bounceBufferInfo t)"
    using calculation(5) by (cases "ti_bounceBufferInfo t") (simp_all add: parse_bounce_def bounce_json_def map_of_obj_set number_text)
  ultimately show ?thesis
    using assms(2-4)
    by (simp add: fromJSON_def number_text u32_of_double_unsigned mustConvertAddressFormat_def convertAddressFormat_code
        fromBase64_toBase64 parse_region_json provider_text_roundtrip)
qed

section \<open>Witness\<close>

definition sample_target :: TargetInfo where
  "sample_target =
     \<lparr>ti_id = 0xFFFFFFFFFFFFFFFF, ti_fabricAddress = \<lparr>fa_inner = [2, 0, 19, 136, 127, 0, 0, 1], fa_addressFormat = Format_SockaddrIn\<rparr>,
      ti_provider = Provider_TCP, ti_remoteRegions = [\<lparr>rr_addr = 4096, rr_len = 8192, rr_rkey = 7\<rparr>],
      ti_bounceBufferInfo = Some \<lparr>bb_entryCount = 4, bb_entrySize = 1024\<rparr>\<rparr>"

fun sample_code :: "FabricAddressFormat \<Rightarrow> u32" where
  "sample_code Format_Unspec = 0xFFFFFFFF"
| "sample_code Format_Sockaddr = 1"
| "sample_code Format_SockaddrIn = 2"
| "sample_code Format_SockaddrIn6 = 3"
| "sample_code Format_SockaddrIb = 4"
| "sample_code Format_String = 9"
| "sample_code Format_Efa = 12"
| "sample_code Format_SockaddrIp = 17"

lemma inj_sample_code: "inj sample_code"
proof (rule injI)
  fix x y
  show "sample_code x = sample_code y \<Longrightarrow> x = y"
    by (cases x; cases y) simp_all
qed

theorem target_info_roundtrip_witness:
  "fromJSON (\<lambda>_. Some (target_json sample_code sample_target)) sample_code
     (toJSON (\<lambda>_. ''...'') sample_code sample_target) = Ret sample_target"
  by (rule target_info_roundtrip [OF refl inj_sample_code]) (simp_all add: sample_target_def)

end
