(* ===== verification/FabricTransfer.thy ===== *)
theory FabricTransfer
  imports TargetInfo
begin

text \<open>
  How media is moved between machines: the remote writes of \<^verbatim>\<open>Endpoint.cpp\<close>, the two sides of the grain and
  sample protocols in \<^verbatim>\<open>ProtocolEgressRMA.cpp\<close> and \<^verbatim>\<open>ProtocolIngressRMA.cpp\<close>, and \<^verbatim>\<open>AudioBounceBuffer.cpp\<close>.
\<close>

section \<open>Errors of libfabric\<close>

definition FI_EINTR :: int where "FI_EINTR = 4"
definition FI_EAGAIN :: int where "FI_EAGAIN = 11"
definition FI_ENOSYS :: int where "FI_ENOSYS = 38"
definition FI_EAVAIL :: int where "FI_EAVAIL = 259"

definition mxlStatusFromFiErrno :: "int \<Rightarrow> mxlStatus" where
  "mxlStatusFromFiErrno fiErrno =
     (if fiErrno = - FI_EINTR then MXL_ERR_INTERRUPTED
      else if fiErrno = - FI_EAGAIN then MXL_ERR_NOT_READY
      else if fiErrno = - FI_ENOSYS then MXL_ERR_UNSUPPORTED_OPERATION
      else MXL_ERR_UNKNOWN)"

definition FabricException_make :: "int \<Rightarrow> exn" where
  "FabricException_make fiErrno = FabricException (mxlStatusFromFiErrno fiErrno) fiErrno"

definition isInterrupted :: "exn \<Rightarrow> bool" where
  "isInterrupted e = (case e of FabricException _ fiErrno \<Rightarrow> fiErrno = - FI_EINTR | _ \<Rightarrow> False)"

text \<open>\<open>result\<close> is what the function of libfabric returned.\<close>

definition fiCall :: "int \<Rightarrow> int res" where
  "fiCall result = (if result < 0 then Throw (FabricException_make result) else Ret result)"

section \<open>Remote writes\<close>

text \<open>
  A work request of \<^verbatim>\<open>fi_writemsg\<close>. The endpoint keeps the requests that were accepted; whether the next one
  is accepted is up to \<open>accept\<close>, which is given all earlier ones.
\<close>

record rma_msg =
  rm_token :: u64
  rm_iov :: "(u64 \<times> u64) list"
  rm_desc :: "nat list"
  rm_dest :: u64
  rm_rma :: "u64 \<times> u64 \<times> u64"
  rm_data :: u64
  rm_hasData :: bool

type_synonym acceptor = "rma_msg list \<Rightarrow> rma_msg \<Rightarrow> int"

definition writeImpl ::
  "acceptor \<Rightarrow> u64 \<Rightarrow> (u64 \<times> u64) list \<Rightarrow> nat list \<Rightarrow> u64 \<times> u64 \<times> u64 \<Rightarrow> u64 \<Rightarrow> u32 option \<Rightarrow> (rma_msg list, unit) act" where
  "writeImpl accept token msgIov desc rmaIov destAddr immData posted =
     (let msg = \<lparr>rm_token = token, rm_iov = msgIov, rm_desc = desc, rm_dest = destAddr, rm_rma = rmaIov,
                 rm_data = (case immData of None \<Rightarrow> 0 | Some d \<Rightarrow> ucast d), rm_hasData = (immData \<noteq> None)\<rparr>
      in case fiCall (accept posted msg) of
           Ret _ \<Rightarrow> (Ret (), posted @ [msg])
         | Throw e \<Rightarrow> (Throw e, posted)
         | Undef \<Rightarrow> (Undef, posted))"

definition write_one ::
  "acceptor \<Rightarrow> u64 \<Rightarrow> LocalRegion \<Rightarrow> RemoteRegion \<Rightarrow> u64 \<Rightarrow> u32 option \<Rightarrow> (rma_msg list, u64) act" where
  "write_one accept token local remote destAddr immData =
     bind_act (writeImpl accept token [toIovec local] [lr_desc local] (toRmaIov remote) destAddr immData)
       (\<lambda>_. return_act 1)"

text \<open>The loop over the parts of a group that fit into one request; \<open>nbWrites\<close> is its bound, \<open>remoteOffset\<close> runs along.\<close>

fun write_parts ::
  "acceptor \<Rightarrow> u64 \<Rightarrow> LocalRegionGroup \<Rightarrow> RemoteRegion \<Rightarrow> u64 \<Rightarrow> u32 option \<Rightarrow> nat \<Rightarrow> nat \<Rightarrow> nat list \<Rightarrow> u64
    \<Rightarrow> (rma_msg list, unit) act" where
  "write_parts accept token grp remote destAddr immData iovLimit nbWrites [] remoteOffset = return_act ()"
| "write_parts accept token grp remote destAddr immData iovLimit nbWrites (i # parts) remoteOffset =
     (let first = i * iovLimit;
          end_index = first + min iovLimit (length (lg_inner grp) - first)
      in bind_act (lift_act (LocalRegionGroup_span grp first end_index)) (\<lambda>span.
         if remoteOffset + byteSize span > rr_len remote then throw_act (OfiException MXL_ERR_INVALID_ARG)
         else let immDataForWrite = (if i = nbWrites - 1 then immData else None)
              in bind_act (writeImpl accept token (lg_iovs span) (lg_descs span)
                    (rr_addr remote + remoteOffset, byteSize span, rr_rkey remote) destAddr immDataForWrite) (\<lambda>_.
                 write_parts accept token grp remote destAddr immData iovLimit nbWrites parts (remoteOffset + byteSize span))))"

definition write_group ::
  "acceptor \<Rightarrow> u64 \<Rightarrow> u64 \<Rightarrow> LocalRegionGroup \<Rightarrow> RemoteRegion \<Rightarrow> u64 \<Rightarrow> u32 option \<Rightarrow> (rma_msg list, u64) act" where
  "write_group accept iovLimit token grp remote destAddr immData =
     (if iovLimit = 0 then lift_act Undef
      else let nbWrites = (of_nat (length (lg_inner grp)) + iovLimit - 1) div iovLimit
           in bind_act (write_parts accept token grp remote destAddr immData (unat iovLimit) (unat nbWrites) [0..<unat nbWrites] 0)
                (\<lambda>_. return_act nbWrites))"

section \<open>Grains: the sending side\<close>

record RMAGrainEgressProtocol =
  ge_token :: u64
  ge_remoteRegions :: "RemoteRegion list"
  ge_layout :: DataLayout_Discrete
  ge_localRegions :: "LocalRegion list"
  ge_pending :: u64

text \<open>The state of a sending side: the protocol object and the requests posted so far.\<close>

definition post_counted :: "(rma_msg list, u64) act \<Rightarrow> (RMAGrainEgressProtocol \<times> rma_msg list, unit) act" where
  "post_counted m s =
     (case m (snd s) of
        (Ret n, posted) \<Rightarrow> (Ret (), (fst s)\<lparr>ge_pending := ge_pending (fst s) + n\<rparr>, posted)
      | (Throw e, posted) \<Rightarrow> (Throw e, fst s, posted)
      | (Undef, posted) \<Rightarrow> (Undef, fst s, posted))"

definition plane_window :: "DataLayout_Discrete \<Rightarrow> SliceRange \<Rightarrow> u32 \<Rightarrow> nat \<Rightarrow> (u32 \<times> u32) res" where
  "plane_window layout slices payloadOffset plane =
     (let sliceSize = dl_sliceSizes layout ! plane
      in if plane = 0 then
           (if sr_start slices = 0 then Ret (transferOffset slices 0 sliceSize, transferSize slices sliceSize + payloadOffset)
            else Ret (transferOffset slices payloadOffset sliceSize, transferSize slices sliceSize))
         else bind_res (planePayloadOffset layout plane payloadOffset) (\<lambda>planeBase.
                Ret (transferOffset slices planeBase sliceSize, transferSize slices sliceSize)))"

fun transfer_planes ::
  "acceptor \<Rightarrow> LocalRegion \<Rightarrow> RemoteRegion \<Rightarrow> u64 \<Rightarrow> u32 \<Rightarrow> SliceRange \<Rightarrow> u64 \<Rightarrow> nat \<Rightarrow> nat list
    \<Rightarrow> (RMAGrainEgressProtocol \<times> rma_msg list, unit) act" where
  "transfer_planes accept localGrain remoteGrain remoteSlot payloadOffset slices destAddr planeCount [] = return_act ()"
| "transfer_planes accept localGrain remoteGrain remoteSlot payloadOffset slices destAddr planeCount (plane # planes) =
     (\<lambda>s. bind_act (lift_act (plane_window (ge_layout (fst s)) slices payloadOffset plane)) (\<lambda>(offset, bytes).
        bind_act (lift_act (LocalRegion_sub localGrain (ucast offset) (ucast bytes))) (\<lambda>localRegion.
        bind_act (lift_act (RemoteRegion_sub remoteGrain (ucast offset) (ucast bytes))) (\<lambda>remoteRegion.
        let immData = (if plane = planeCount - 1 then Some (ImmDataGrain_ctor remoteSlot (sr_end slices)) else None)
        in bind_act (post_counted (write_one accept (ge_token (fst s)) localRegion remoteRegion destAddr immData)) (\<lambda>_.
           transfer_planes accept localGrain remoteGrain remoteSlot payloadOffset slices destAddr planeCount planes)))) s)"

definition ge_transferGrain ::
  "acceptor \<Rightarrow> u64 \<Rightarrow> u64 \<Rightarrow> u32 \<Rightarrow> SliceRange \<Rightarrow> u64 \<Rightarrow> (RMAGrainEgressProtocol \<times> rma_msg list, unit) act" where
  "ge_transferGrain accept localIndex remoteIndex payloadOffset slices destAddr s =
     (let p = fst s; layout = ge_layout p
      in if ge_localRegions p = [] \<or> ge_remoteRegions p = [] then (Undef, s)
         else let localGrain = ge_localRegions p ! unat (localIndex mod of_nat (length (ge_localRegions p)));
                  remoteSlot = remoteIndex mod of_nat (length (ge_remoteRegions p));
                  remoteGrain = ge_remoteRegions p ! unat remoteSlot
              in if sr_start slices = 0 \<and> sr_end slices = dl_totalSlices layout then
                   post_counted (write_one accept (ge_token p) localGrain remoteGrain destAddr
                     (Some (ImmDataGrain_ctor remoteSlot (dl_totalSlices layout)))) s
                 else let planeCount = activePlaneCount layout
                      in transfer_planes accept localGrain remoteGrain remoteSlot payloadOffset slices destAddr planeCount
                           [0..<planeCount] s)"

definition ge_processCompletion :: "RMAGrainEgressProtocol \<Rightarrow> RMAGrainEgressProtocol" where
  "ge_processCompletion p = p\<lparr>ge_pending := ge_pending p - 1\<rparr>"

definition ge_hasPendingWork :: "RMAGrainEgressProtocol \<Rightarrow> bool" where
  "ge_hasPendingWork p \<longleftrightarrow> ge_pending p > 0"

definition ge_reset :: "RMAGrainEgressProtocol \<Rightarrow> u64 \<times> RMAGrainEgressProtocol" where
  "ge_reset p = (ge_pending p, p\<lparr>ge_pending := 0\<rparr>)"

section \<open>The template of the grain protocol\<close>

record RMAGrainEgressProtocolTemplate =
  gt_layout :: DataLayout_Discrete
  gt_regions :: "Region list"
  gt_localRegions :: "LocalRegion list option"

definition RMAGrainEgressProtocol_ctor ::
  "u64 \<Rightarrow> TargetInfo \<Rightarrow> DataLayout_Discrete \<Rightarrow> LocalRegion list \<Rightarrow> RMAGrainEgressProtocol" where
  "RMAGrainEgressProtocol_ctor token remote layout localRegions =
     \<lparr>ge_token = token, ge_remoteRegions = ti_remoteRegions remote, ge_layout = layout, ge_localRegions = localRegions, ge_pending = 0\<rparr>"

text \<open>
  A domain is the list of its registered regions; \<open>register\<close> is the registration with the fabric, which may
  fail.
\<close>

type_synonym registrar = "RegisteredRegion list \<Rightarrow> Region \<Rightarrow> int \<times> nat \<times> u64"

definition registerRegion :: "registrar \<Rightarrow> Region \<Rightarrow> (RegisteredRegion list, unit) act" where
  "registerRegion register region regs =
     (case register regs region of (result, desc, rkey) \<Rightarrow>
        (case fiCall result of
           Ret _ \<Rightarrow> (Ret (), regs @ [\<lparr>rx_desc = desc, rx_rkey = rkey, rx_region = region\<rparr>])
         | Throw e \<Rightarrow> (Throw e, regs)
         | Undef \<Rightarrow> (Undef, regs)))"

fun registerRegions :: "registrar \<Rightarrow> Region list \<Rightarrow> (RegisteredRegion list, unit) act" where
  "registerRegions register [] = return_act ()"
| "registerRegions register (region # regions) =
     bind_act (registerRegion register region) (\<lambda>_. registerRegions register regions)"

definition localRegions :: "RegisteredRegion list \<Rightarrow> LocalRegion list" where
  "localRegions regs = map toLocal regs"

definition remoteRegions :: "bool \<Rightarrow> RegisteredRegion list \<Rightarrow> RemoteRegion list" where
  "remoteRegions usingVirtualAddresses regs = map (toRemote usingVirtualAddresses) regs"

definition gt_registerMemory ::
  "registrar \<Rightarrow> RMAGrainEgressProtocolTemplate \<Rightarrow> (RegisteredRegion list, RMAGrainEgressProtocolTemplate) act" where
  "gt_registerMemory register t =
     (if gt_localRegions t \<noteq> None then throw_act (OfiException MXL_ERR_INVALID_STATE)
      else bind_act (registerRegions register (gt_regions t))
             (\<lambda>_ regs. (Ret (t\<lparr>gt_localRegions := Some (localRegions regs)\<rparr>), regs)))"

definition gt_createInstance :: "RMAGrainEgressProtocolTemplate \<Rightarrow> u64 \<Rightarrow> TargetInfo \<Rightarrow> RMAGrainEgressProtocol res" where
  "gt_createInstance t token remoteInfo =
     (case gt_localRegions t of
        None \<Rightarrow> Throw (OfiException MXL_ERR_INVALID_STATE)
      | Some regions \<Rightarrow> Ret (RMAGrainEgressProtocol_ctor token remoteInfo (gt_layout t) regions))"

section \<open>Samples: slices of a ring\<close>

definition getMutableMultiBufferSlices ::
  "u64 \<Rightarrow> u64 \<Rightarrow> u64 \<Rightarrow> u64 \<Rightarrow> u64 \<Rightarrow> u64 \<Rightarrow> mxlWrappedMultiBufferSlice res" where
  "getMutableMultiBufferSlices index n bufferLength sampleWordSize channels baseBufferPtr =
     (if bufferLength = 0 then Undef
      else let startOffset = (index + bufferLength - n) mod bufferLength;
               endOffset = index mod bufferLength;
               firstLength = (if startOffset < endOffset then n else bufferLength - startOffset);
               secondLength = n - firstLength
           in Ret \<lparr>ws_first = \<lparr>bs_pointer = baseBufferPtr + sampleWordSize * startOffset, bs_size = sampleWordSize * firstLength\<rparr>,
                   ws_second = \<lparr>bs_pointer = baseBufferPtr, bs_size = sampleWordSize * secondLength\<rparr>,
                   ws_stride = sampleWordSize * bufferLength,
                   ws_count = channels\<rparr>)"

text \<open>The fragments of a channel that are present.\<close>

definition channel_fragments :: "mxlWrappedMultiBufferSlice \<Rightarrow> nat \<Rightarrow> (u64 \<times> u64) list" where
  "channel_fragments sl chan =
     map (\<lambda>fragment. (bs_pointer fragment + ws_stride sl * of_nat chan, bs_size fragment))
       (filter (\<lambda>fragment. bs_size fragment > 0) [ws_first sl, ws_second sl])"

definition makeScatterGatherList :: "DataLayout_Continuous \<Rightarrow> u64 \<Rightarrow> u64 \<Rightarrow> LocalRegion \<Rightarrow> LocalRegion list res" where
  "makeScatterGatherList layout head_index n region =
     bind_res (getMutableMultiBufferSlices head_index n (dl_bufferLength layout) (dl_sampleSize layout) (dl_channelCount layout)
       (lr_addr region)) (\<lambda>sl.
     Ret (concat (map (\<lambda>chan. map (\<lambda>(srcAddr, bytes). \<lparr>lr_addr = srcAddr, lr_len = bytes, lr_desc = lr_desc region\<rparr>)
            (channel_fragments sl chan)) [0..<unat (ws_count sl)])))"

section \<open>Samples: the sending side\<close>

definition SIZEOF_AUDIO_ENTRY_HEADER :: u64 where
  "SIZEOF_AUDIO_ENTRY_HEADER = 16"

record AudioEntryHeader =
  ae_headIndex :: u64
  ae_count :: u64

definition entry_header_bytes :: "AudioEntryHeader \<Rightarrow> u8 list" where
  "entry_header_bytes h = word_bytes 8 (ae_headIndex h) @ word_bytes 8 (ae_count h)"

text \<open>The headers lie in the memory of the sender, at the addresses of \<open>se_entryHeaderRegions\<close>.\<close>

record RMASampleEgressProtocol =
  se_token :: u64
  se_remoteInfo :: TargetInfo
  se_layout :: DataLayout_Continuous
  se_localRegion :: LocalRegion
  se_entryHeaders :: "AudioEntryHeader list"
  se_entryHeaderRegions :: "LocalRegion list"
  se_pending :: u64
  se_bounceBufferEntryIndex :: u32
  se_bounceBufferEntryCount :: u64

definition RMASampleEgressProtocol_ctor ::
  "u64 \<Rightarrow> TargetInfo \<Rightarrow> DataLayout_Continuous \<Rightarrow> LocalRegion \<Rightarrow> u64 \<Rightarrow> RMASampleEgressProtocol" where
  "RMASampleEgressProtocol_ctor token remote layout localRegion bounceBufferEntryCount =
     \<lparr>se_token = token, se_remoteInfo = remote, se_layout = layout, se_localRegion = localRegion,
      se_entryHeaders = replicate (unat bounceBufferEntryCount) \<lparr>ae_headIndex = 0, ae_count = 0\<rparr>,
      se_entryHeaderRegions = [], se_pending = 0, se_bounceBufferEntryIndex = 0,
      se_bounceBufferEntryCount = bounceBufferEntryCount\<rparr>"

text \<open>\<open>header_at\<close> gives the addresses of the elements of the vector of headers.\<close>

definition se_registerMemory ::
  "registrar \<Rightarrow> (nat \<Rightarrow> u64) \<Rightarrow> RMASampleEgressProtocol \<Rightarrow> (RegisteredRegion list, RMASampleEgressProtocol) act" where
  "se_registerMemory register header_at p regs =
     (if se_entryHeaders p = [] then (Throw (OfiException MXL_ERR_INVALID_STATE), regs)
      else let entryHeaderRegions = map (\<lambda>i. host_region (header_at i) SIZEOF_AUDIO_ENTRY_HEADER) [0..<length (se_entryHeaders p)];
               offset = length (localRegions regs)
           in bind_act (registerRegions register entryHeaderRegions)
                (\<lambda>_ regs. (Ret (p\<lparr>se_entryHeaderRegions := drop offset (localRegions regs)\<rparr>), regs)) regs)"

record sender =
  sn_memory :: memory
  sn_posted :: "rma_msg list"

definition on_posted :: "(rma_msg list, 'a) act \<Rightarrow> (RMASampleEgressProtocol \<times> sender, 'a) act" where
  "on_posted m s =
     (case m (sn_posted (snd s)) of (r, posted) \<Rightarrow> (r, fst s, (snd s)\<lparr>sn_posted := posted\<rparr>))"

definition se_transferSamples ::
  "acceptor \<Rightarrow> u64 \<Rightarrow> u64 \<Rightarrow> u64 \<Rightarrow> u64 \<Rightarrow> (RMASampleEgressProtocol \<times> sender, unit) act" where
  "se_transferSamples accept iovLimit head_index n destAddr s =
     (let p = fst s; layout = se_layout p; remote = se_remoteInfo p;
          i = unat (se_bounceBufferEntryIndex p)
      in if n = 0 then (Throw (OfiException MXL_ERR_INVALID_ARG), s)
         else case ti_bounceBufferInfo remote of
           None \<Rightarrow> (Undef, s)
         | Some bounce \<Rightarrow>
             (let entrySizeRequired = dl_sampleSize layout * dl_channelCount layout * n + SIZEOF_AUDIO_ENTRY_HEADER
              in if entrySizeRequired > bb_entrySize bounce then (Throw (OfiException MXL_ERR_INVALID_ARG), s)
                 else bind_act (lift_act (makeScatterGatherList layout head_index n (se_localRegion p))) (\<lambda>sgl s.
                   if length (se_entryHeaders p) \<le> i \<or> length (se_entryHeaderRegions p) \<le> i \<or> ti_remoteRegions remote = [] then (Undef, s)
                   else let header = \<lparr>ae_headIndex = head_index, ae_count = n\<rparr>;
                            headerRegion = se_entryHeaderRegions p ! i;
                            p = p\<lparr>se_entryHeaders := (se_entryHeaders p)[i := header]\<rparr>;
                            mem = store_bytes (lr_addr headerRegion) (entry_header_bytes header) (sn_memory (snd s));
                            remoteRegion = ti_remoteRegions remote ! (i mod length (ti_remoteRegions remote))
                        in bind_act (on_posted (write_group accept iovLimit (se_token p)
                                (LocalRegionGroup_ctor (headerRegion # sgl)) remoteRegion destAddr (Some (se_bounceBufferEntryIndex p))))
                             (\<lambda>k s.
                               if se_bounceBufferEntryCount p = 0 then (Undef, s)
                               else (Ret (), (fst s)\<lparr>se_pending := se_pending (fst s) + k,
                                   se_bounceBufferEntryIndex :=
                                     ucast ((ucast (se_bounceBufferEntryIndex p) + 1) mod se_bounceBufferEntryCount p)\<rparr>, snd s))
                             (p, (snd s)\<lparr>sn_memory := mem\<rparr>)) s))"

definition se_processCompletion :: "RMASampleEgressProtocol \<Rightarrow> RMASampleEgressProtocol" where
  "se_processCompletion p = p\<lparr>se_pending := se_pending p - 1\<rparr>"

definition se_hasPendingWork :: "RMASampleEgressProtocol \<Rightarrow> bool" where
  "se_hasPendingWork p \<longleftrightarrow> se_pending p > 0"

definition se_reset :: "RMASampleEgressProtocol \<Rightarrow> u64 \<times> RMASampleEgressProtocol" where
  "se_reset p = (se_pending p, p\<lparr>se_pending := 0\<rparr>)"

record RMASampleEgressProtocolTemplate =
  st_layout :: DataLayout_Continuous
  st_region :: Region
  st_localRegion :: "LocalRegion option"

definition st_registerMemory ::
  "registrar \<Rightarrow> RMASampleEgressProtocolTemplate \<Rightarrow> (RegisteredRegion list, RMASampleEgressProtocolTemplate) act" where
  "st_registerMemory register t regs =
     (if st_localRegion t \<noteq> None then (Throw (OfiException MXL_ERR_INVALID_STATE), regs)
      else if localRegions regs \<noteq> [] then (Throw (OfiException MXL_ERR_INVALID_STATE), regs)
      else bind_act (registerRegion register (st_region t))
             (\<lambda>_ regs. case localRegions regs of
                [] \<Rightarrow> (Undef, regs)
              | r # _ \<Rightarrow> (Ret (t\<lparr>st_localRegion := Some r\<rparr>), regs)) regs)"

definition st_createInstance :: "RMASampleEgressProtocolTemplate \<Rightarrow> u64 \<Rightarrow> TargetInfo \<Rightarrow> RMASampleEgressProtocol res" where
  "st_createInstance t token remoteInfo =
     (case (st_localRegion t, ti_bounceBufferInfo remoteInfo) of
        (None, _) \<Rightarrow> Throw (OfiException MXL_ERR_INVALID_STATE)
      | (_, None) \<Rightarrow> Throw (OfiException MXL_ERR_INVALID_ARG)
      | (Some region, Some bounce) \<Rightarrow>
          Ret (RMASampleEgressProtocol_ctor token remoteInfo (st_layout t) region (ucast (ucast (bb_entryCount bounce) :: u32))))"

section \<open>Completions\<close>

record CompletionData =
  co_token :: u64
  co_remoteCqData :: bool
  co_data :: u64

datatype Completion = DataEntry CompletionData | ErrorEntry u64

definition completion_immediate :: "CompletionData \<Rightarrow> u64 option" where
  "completion_immediate d = (if co_remoteCqData d then Some (co_data d) else None)"

fun tryData :: "Completion \<Rightarrow> CompletionData option" where
  "tryData (DataEntry d) = Some d"
| "tryData (ErrorEntry token) = None"

fun tryErr :: "Completion \<Rightarrow> u64 option" where
  "tryErr (ErrorEntry token) = Some token"
| "tryErr (DataEntry d) = None"

fun completion_token :: "Completion \<Rightarrow> u64" where
  "completion_token (DataEntry d) = co_token d"
| "completion_token (ErrorEntry token) = token"

section \<open>The bounce buffer\<close>

text \<open>The entries are given by the addresses of their data; all have the same size.\<close>

record AudioBounceBuffer =
  ab_entries :: "u64 list"
  ab_size :: u64
  ab_layout :: DataLayout_Continuous

definition AudioBounceBuffer_ctor :: "(nat \<Rightarrow> u64) \<Rightarrow> u64 \<Rightarrow> u64 \<Rightarrow> DataLayout_Continuous \<Rightarrow> AudioBounceBuffer" where
  "AudioBounceBuffer_ctor entry_at entries size_of_entry layout =
     \<lparr>ab_entries = map entry_at [0..<unat entries],
      ab_size = SIZEOF_AUDIO_ENTRY_HEADER + ucast (ucast size_of_entry :: u32), ab_layout = layout\<rparr>"

definition entryCount :: "AudioBounceBuffer \<Rightarrow> u64" where
  "entryCount b = of_nat (length (ab_entries b))"

definition entrySize :: "AudioBounceBuffer \<Rightarrow> u64" where
  "entrySize b = (if ab_entries b = [] then 0 else ab_size b)"

definition getRegions :: "AudioBounceBuffer \<Rightarrow> Region list" where
  "getRegions b = map (\<lambda>entry. host_region entry (ab_size b)) (ab_entries b)"

definition memcpy :: "u64 \<Rightarrow> u64 \<Rightarrow> u64 \<Rightarrow> memory \<Rightarrow> memory" where
  "memcpy dst src n mem = store_bytes dst (load_bytes mem src (unat n)) mem"

fun copy_fragments :: "(u64 \<times> u64) list \<Rightarrow> u64 \<Rightarrow> memory \<Rightarrow> memory" where
  "copy_fragments [] srcAddr mem = mem"
| "copy_fragments ((dstAddr, bytes) # fragments) srcAddr mem =
     copy_fragments fragments (srcAddr + bytes) (memcpy dstAddr srcAddr bytes mem)"

definition unpack :: "AudioBounceBuffer \<Rightarrow> u64 \<Rightarrow> Region \<Rightarrow> (memory, AudioEntryHeader) act" where
  "unpack b entryIndex outRegion mem =
     (if length (ab_entries b) \<le> unat entryIndex then (Throw OutOfRange, mem)
      else let entry = ab_entries b ! unat entryIndex;
               header = \<lparr>ae_headIndex = load_word mem entry 8, ae_count = load_word mem (entry + 8) 8\<rparr>;
               sampleBytes = dl_channelCount (ab_layout b) * dl_sampleSize (ab_layout b)
           in if sampleBytes = 0 then (Undef, mem)
              else let maxCountPerEntry = (entrySize b - SIZEOF_AUDIO_ENTRY_HEADER) div sampleBytes
                   in if ae_count header > maxCountPerEntry then (Throw (OfiException MXL_ERR_INVALID_ARG), mem)
                      else case getMutableMultiBufferSlices (ae_headIndex header) (ae_count header) (dl_bufferLength (ab_layout b))
                             (dl_sampleSize (ab_layout b)) (dl_channelCount (ab_layout b)) (rg_base outRegion) of
                        Ret sl \<Rightarrow>
                          (Ret header, copy_fragments (concat (map (channel_fragments sl) [0..<unat (ws_count sl)]))
                             (entry + SIZEOF_AUDIO_ENTRY_HEADER) mem)
                      | Throw e \<Rightarrow> (Throw e, mem)
                      | Undef \<Rightarrow> (Undef, mem))"

section \<open>The receiving side\<close>

datatype ReadResult = GrainReadResult u64 | SampleReadResult u64 u64 | Interrupted

text \<open>\<open>recv\<close> is what \<^verbatim>\<open>fi_recv\<close> returns; the buffer for immediate data exists when the provider wants one.\<close>

definition endpoint_recv :: "int \<Rightarrow> unit res" where
  "endpoint_recv recv = map_ret (\<lambda>_. ()) (fiCall recv)"

record RMAGrainIngressProtocol =
  gi_regions :: "Region list"
  gi_isMemoryRegistered :: bool
  gi_immDataBuffer :: bool

definition RMAGrainIngressProtocol_ctor :: "Region list \<Rightarrow> RMAGrainIngressProtocol" where
  "RMAGrainIngressProtocol_ctor regions = \<lparr>gi_regions = regions, gi_isMemoryRegistered = False, gi_immDataBuffer = False\<rparr>"

definition gi_registerMemory ::
  "registrar \<Rightarrow> bool \<Rightarrow> RMAGrainIngressProtocol \<Rightarrow> (RegisteredRegion list, RemoteRegion list \<times> RMAGrainIngressProtocol) act" where
  "gi_registerMemory register virtual_addresses p =
     (if gi_isMemoryRegistered p then throw_act (OfiException MXL_ERR_INVALID_STATE)
      else bind_act (registerRegions register (gi_regions p))
             (\<lambda>_ regs. (Ret (remoteRegions virtual_addresses regs, p\<lparr>gi_isMemoryRegistered := True\<rparr>), regs)))"

definition gi_start :: "bool \<Rightarrow> int \<Rightarrow> RMAGrainIngressProtocol \<Rightarrow> unit res \<times> RMAGrainIngressProtocol" where
  "gi_start usingRecvBufForCqData recv p =
     (if usingRecvBufForCqData then (endpoint_recv recv, p\<lparr>gi_immDataBuffer := True\<rparr>) else (Ret (), p))"

definition gi_read :: "RMAGrainIngressProtocol \<Rightarrow> int \<Rightarrow> Completion \<Rightarrow> (memory, ReadResult option) act" where
  "gi_read p recv completion =
     (case tryData completion of
        None \<Rightarrow> return_act None
      | Some completionData \<Rightarrow>
          bind_act (lift_act (if gi_immDataBuffer p then endpoint_recv recv else Ret ())) (\<lambda>_.
          case completion_immediate completionData of
            None \<Rightarrow> return_act None
          | Some immData \<Rightarrow>
              (let unpacked = ImmDataGrain_unpack (ucast immData);
                   slot = im_ringBufferSlot unpacked;
                   slice = im_sliceIndex unpacked
               in bind_act (\<lambda>mem. case setValidSlicesForGrain (gi_regions p) slot slice mem of
                              Ret mem' \<Rightarrow> (Ret (), mem') | Throw e \<Rightarrow> (Throw e, mem) | Undef \<Rightarrow> (Undef, mem)) (\<lambda>_ mem.
                  (map_ret (\<lambda>grainIndex. Some (GrainReadResult grainIndex)) (getGrainIndexInRingSlot (gi_regions p) slot mem), mem)))))"

record RMASampleIngressProtocol =
  si_bounceBuffer :: AudioBounceBuffer
  si_region :: Region
  si_isMemoryRegistered :: bool
  si_immDataBuffer :: bool

definition makeAudioBounceBuffer :: "(nat \<Rightarrow> u64) \<Rightarrow> DataLayout_Continuous \<Rightarrow> u32 \<Rightarrow> AudioBounceBuffer res" where
  "makeAudioBounceBuffer entry_at layout maxSyncBatchSize =
     (let oneSampleSize = dl_sampleSize layout * dl_channelCount layout;
          size_of_entry = oneSampleSize * ucast maxSyncBatchSize;
          historySize = dl_bufferLength layout * oneSampleSize
      in if size_of_entry = 0 then Undef
         else Ret (AudioBounceBuffer_ctor entry_at ((historySize + size_of_entry - 1) div size_of_entry) size_of_entry layout))"

definition RMASampleIngressProtocol_ctor ::
  "(nat \<Rightarrow> u64) \<Rightarrow> Region \<Rightarrow> DataLayout_Continuous \<Rightarrow> u32 \<Rightarrow> RMASampleIngressProtocol res" where
  "RMASampleIngressProtocol_ctor entry_at region layout maxSyncBatchSize =
     map_ret (\<lambda>b. \<lparr>si_bounceBuffer = b, si_region = region, si_isMemoryRegistered = False, si_immDataBuffer = False\<rparr>)
       (makeAudioBounceBuffer entry_at layout maxSyncBatchSize)"

definition si_registerMemory ::
  "registrar \<Rightarrow> bool \<Rightarrow> RMASampleIngressProtocol \<Rightarrow> (RegisteredRegion list, RemoteRegion list \<times> RMASampleIngressProtocol) act" where
  "si_registerMemory register virtual_addresses p =
     (if si_isMemoryRegistered p then throw_act (OfiException MXL_ERR_INVALID_STATE)
      else bind_act (registerRegions register (getRegions (si_bounceBuffer p)))
             (\<lambda>_ regs. (Ret (remoteRegions virtual_addresses regs, p\<lparr>si_isMemoryRegistered := True\<rparr>), regs)))"

definition si_bounceBufferInfo :: "RMASampleIngressProtocol \<Rightarrow> TargetInfoBounceBufferInfo option" where
  "si_bounceBufferInfo p =
     Some \<lparr>bb_entryCount = entryCount (si_bounceBuffer p), bb_entrySize = entrySize (si_bounceBuffer p)\<rparr>"

definition si_start :: "bool \<Rightarrow> int \<Rightarrow> RMASampleIngressProtocol \<Rightarrow> unit res \<times> RMASampleIngressProtocol" where
  "si_start usingRecvBufForCqData recv p =
     (if usingRecvBufForCqData then (endpoint_recv recv, p\<lparr>si_immDataBuffer := True\<rparr>) else (Ret (), p))"

definition si_read :: "RMASampleIngressProtocol \<Rightarrow> int \<Rightarrow> Completion \<Rightarrow> (memory, ReadResult option) act" where
  "si_read p recv completion =
     (case tryData completion of
        None \<Rightarrow> return_act None
      | Some completionData \<Rightarrow>
          bind_act (lift_act (if si_immDataBuffer p then endpoint_recv recv else Ret ())) (\<lambda>_.
          case completion_immediate completionData of
            None \<Rightarrow> throw_act (OfiException MXL_ERR_INVALID_STATE)
          | Some immData \<Rightarrow>
              bind_act (unpack (si_bounceBuffer p) immData (si_region p)) (\<lambda>header.
              return_act (Some (SampleReadResult (ae_headIndex header) (ae_count header))))))"

section \<open>The choice of the protocol\<close>

datatype IngressProtocol = GrainIngress RMAGrainIngressProtocol | SampleIngress RMASampleIngressProtocol

definition selectIngressProtocol :: "(nat \<Rightarrow> u64) \<Rightarrow> DataLayout \<Rightarrow> Region list \<Rightarrow> u32 \<Rightarrow> IngressProtocol res" where
  "selectIngressProtocol entry_at layout regions maxSyncBatchSize =
     (case layout of
        Discrete _ \<Rightarrow> Ret (GrainIngress (RMAGrainIngressProtocol_ctor regions))
      | Continuous l \<Rightarrow>
          (case regions of
             [region] \<Rightarrow> map_ret SampleIngress (RMASampleIngressProtocol_ctor entry_at region l maxSyncBatchSize)
           | _ \<Rightarrow> Throw (OfiException MXL_ERR_INVALID_ARG)))"

datatype EgressProtocolTemplate =
    GrainTemplate RMAGrainEgressProtocolTemplate
  | SampleTemplate RMASampleEgressProtocolTemplate

definition selectEgressProtocol :: "DataLayout \<Rightarrow> Region list \<Rightarrow> EgressProtocolTemplate res" where
  "selectEgressProtocol layout regions =
     (case layout of
        Discrete l \<Rightarrow> Ret (GrainTemplate \<lparr>gt_layout = l, gt_regions = regions, gt_localRegions = None\<rparr>)
      | Continuous l \<Rightarrow>
          (case regions of
             [region] \<Rightarrow> Ret (SampleTemplate \<lparr>st_layout = l, st_region = region, st_localRegion = None\<rparr>)
           | _ \<Rightarrow> Throw (OfiException MXL_ERR_INVALID_ARG)))"

end
