(* ===== verification/FabricAddress.thy ===== *)
theory FabricAddress
  imports FabricTransfer
begin

text \<open>
  Addresses of the fabrics, \<^verbatim>\<open>FabricAddress.cpp\<close>: raw addresses decoded by their format, the text of the host and of
  the service, and addresses made from what a user configures. The functions of the C library that convert
  addresses are parameters: \<open>pton4\<close> and \<open>pton6\<close> are \<^verbatim>\<open>inet_pton\<close>, \<open>ntop\<close> is \<^verbatim>\<open>inet_ntop\<close>.
\<close>

section \<open>Addresses\<close>

record sockaddr_in =
  sin_family :: u16
  sin_port :: u16
  sin_addr :: "u8 list"

record sockaddr_in6 =
  sin6_family :: u16
  sin6_port :: u16
  sin6_flowinfo :: u32
  sin6_addr :: "u8 list"
  sin6_scope_id :: u32

record OfiSockaddrIb =
  sib_family :: u16
  sib_pkey :: u16
  sib_flowinfo :: u32
  sib_addr :: "u8 list"
  sib_sid :: u64
  sib_sid_mask :: u64
  sib_scope_id :: u64

record EfaAddress =
  efa_gid :: "u8 list"
  efa_qpn :: u16
  efa_qkey :: u32

datatype FabricAddress =
    Native_none
  | Native_in sockaddr_in
  | Native_in6 sockaddr_in6
  | Native_ib OfiSockaddrIb
  | Native_efa EfaAddress
  | Native_string string

definition AF_INET :: u16 where "AF_INET = 2"
definition AF_INET6 :: u16 where "AF_INET6 = 10"
definition AF_IB :: u16 where "AF_IB = 27"

definition address_empty :: "FabricAddress \<Rightarrow> bool" where
  "address_empty a \<longleftrightarrow> a = Native_none"

section \<open>Decoding\<close>

text \<open>A field is read from the bytes at an offset, in the order of the machine.\<close>

definition field_at :: "nat \<Rightarrow> nat \<Rightarrow> u8 list \<Rightarrow> 'a::len word" where
  "field_at offset n bs = bytes_word (take n (drop offset bs))"

definition bytes_of :: "nat \<Rightarrow> nat \<Rightarrow> u8 list \<Rightarrow> u8 list" where
  "bytes_of offset n bs = take n (drop offset bs)"

definition decode_in :: "u8 list \<Rightarrow> FabricAddress" where
  "decode_in bs =
     (if length bs < 16 then Native_none
      else Native_in \<lparr>sin_family = field_at 0 2 bs, sin_port = field_at 2 2 bs, sin_addr = bytes_of 4 4 bs\<rparr>)"

definition decode_in6 :: "u8 list \<Rightarrow> FabricAddress" where
  "decode_in6 bs =
     (if length bs < 28 then Native_none
      else Native_in6 \<lparr>sin6_family = field_at 0 2 bs, sin6_port = field_at 2 2 bs, sin6_flowinfo = field_at 4 4 bs,
             sin6_addr = bytes_of 8 16 bs, sin6_scope_id = field_at 24 4 bs\<rparr>)"

definition decode_ib :: "u8 list \<Rightarrow> FabricAddress" where
  "decode_ib bs =
     (if length bs < 48 then Native_none
      else Native_ib \<lparr>sib_family = field_at 0 2 bs, sib_pkey = field_at 2 2 bs, sib_flowinfo = field_at 4 4 bs,
             sib_addr = bytes_of 8 16 bs, sib_sid = field_at 24 8 bs, sib_sid_mask = field_at 32 8 bs,
             sib_scope_id = field_at 40 8 bs\<rparr>)"

definition decode_efa :: "u8 list \<Rightarrow> FabricAddress" where
  "decode_efa bs =
     (if length bs < 24 then Native_none
      else Native_efa \<lparr>efa_gid = bytes_of 0 16 bs, efa_qpn = field_at 16 2 bs, efa_qkey = field_at 20 4 bs\<rparr>)"

text \<open>
  The family of a socket address is read whatever the length, and a string up to its null character, wherever that
  is: bytes that are not there are undefined behaviour.
\<close>

definition sockAddrFamily :: "u8 list \<Rightarrow> u16 res" where
  "sockAddrFamily bs = (if length bs < 2 then Undef else Ret (field_at 0 2 bs))"

definition decode_string :: "u8 list \<Rightarrow> FabricAddress res" where
  "decode_string bs =
     (if 0 \<notin> set bs then Undef else Ret (Native_string (map (\<lambda>b. char_of (unat b)) (takeWhile (\<lambda>b. b \<noteq> 0) bs))))"

definition decode_sockaddr :: "bool \<Rightarrow> u8 list \<Rightarrow> FabricAddress res" where
  "decode_sockaddr infiniband bs =
     bind_res (sockAddrFamily bs) (\<lambda>family.
       Ret (if family = AF_INET then decode_in bs
            else if family = AF_INET6 then decode_in6 bs
            else if infiniband \<and> family = AF_IB then decode_ib bs
            else Native_none))"

fun decode :: "FabricAddressFormat \<Rightarrow> u8 list option \<Rightarrow> FabricAddress res" where
  "decode addrFormat None = Ret Native_none"
| "decode Format_Sockaddr (Some bs) = decode_sockaddr True bs"
| "decode Format_SockaddrIp (Some bs) = decode_sockaddr False bs"
| "decode Format_SockaddrIn (Some bs) = Ret (decode_in bs)"
| "decode Format_SockaddrIn6 (Some bs) = Ret (decode_in6 bs)"
| "decode Format_SockaddrIb (Some bs) = Ret (decode_ib bs)"
| "decode Format_Efa (Some bs) = Ret (decode_efa bs)"
| "decode Format_String (Some bs) = decode_string bs"
| "decode Format_Unspec (Some bs) = Ret Native_none"

text \<open>The data pointer of an empty vector is taken to be null.\<close>

text \<open>
  The source and the destination of an info: both functions are declared not to throw, so that an unknown
  format ends the process.
\<close>

definition fromSource :: "(FabricAddressFormat \<Rightarrow> u32) \<Rightarrow> u32 \<Rightarrow> u8 list option \<Rightarrow> FabricAddress res" where
  "fromSource fi_code addr_format src_addr =
     (case mustConvertAddressFormat fi_code addr_format of Ret f \<Rightarrow> decode f src_addr | _ \<Rightarrow> Undef)"

definition fromDestination :: "(FabricAddressFormat \<Rightarrow> u32) \<Rightarrow> u32 \<Rightarrow> u8 list option \<Rightarrow> FabricAddress res" where
  "fromDestination fi_code addr_format dest_addr =
     (case mustConvertAddressFormat fi_code addr_format of Ret f \<Rightarrow> decode f dest_addr | _ \<Rightarrow> Undef)"

definition FI_ETOOSMALL :: int where "FI_ETOOSMALL = 257"

text \<open>\<open>getname\<close> is \<^verbatim>\<open>fi_getname\<close>: without a buffer it gives the length, with one of a length the bytes.\<close>

definition retrieveFabricAddress ::
  "(FabricAddressFormat \<Rightarrow> u32) \<Rightarrow> u32 \<Rightarrow> int \<times> nat \<Rightarrow> (nat \<Rightarrow> int \<times> u8 list) \<Rightarrow> RawFabricAddress res" where
  "retrieveFabricAddress fi_code addr_format len_result getname =
     bind_res (mustConvertAddressFormat fi_code addr_format) (\<lambda>fmt.
       case len_result of (ret, addrlen) \<Rightarrow>
         if ret \<noteq> - FI_ETOOSMALL then Throw (FabricException MXL_ERR_UNKNOWN ret)
         else case getname addrlen of (ret, addr) \<Rightarrow>
           map_ret (\<lambda>_. \<lparr>fa_inner = addr, fa_addressFormat = fmt\<rparr>) (fiCall ret))"

definition RawFabricAddress_decode :: "RawFabricAddress \<Rightarrow> FabricAddress res" where
  "RawFabricAddress_decode a = decode (fa_addressFormat a) (if fa_inner a = [] then None else Some (fa_inner a))"

section \<open>Text\<close>

type_synonym inet_ntop = "u16 \<Rightarrow> u8 list \<Rightarrow> string option"

definition swap_bytes :: "nat \<Rightarrow> 'a::len word \<Rightarrow> 'a word" where
  "swap_bytes n w = bytes_word (rev (word_bytes n w))"

definition ntohs :: "u16 \<Rightarrow> u16" where
  "ntohs = swap_bytes 2"

definition be64toh :: "u64 \<Rightarrow> u64" where
  "be64toh = swap_bytes 8"

fun hexadecimal :: "nat \<Rightarrow> string" where
  "hexadecimal n = (if n < 16 then [''0123456789abcdef'' ! n] else hexadecimal (n div 16) @ [''0123456789abcdef'' ! (n mod 16)])"

declare hexadecimal.simps [simp del]

text \<open>The overloads for the kinds of address; there is none for the absence of an address.\<close>

fun straddr :: "inet_ntop \<Rightarrow> FabricAddress \<Rightarrow> string option" where
  "straddr ntop (Native_in s) =
     map_option (\<lambda>ip. ''fi_sockaddr_in://'' @ ip @ '':'' @ decimal (unat (ntohs (sin_port s)))) (ntop (sin_family s) (sin_addr s))"
| "straddr ntop (Native_in6 s) =
     map_option (\<lambda>ip. ''fi_sockaddr_in6://['' @ ip @ '']:'' @ decimal (unat (ntohs (sin6_port s)))) (ntop (sin6_family s) (sin6_addr s))"
| "straddr ntop (Native_ib s) =
     map_option (\<lambda>gid. ''fi_sockaddr_ib://['' @ gid @ '']:0x'' @ hexadecimal (unat (ntohs (sib_pkey s)))
         @ '':0x'' @ hexadecimal (unat (drop_bit 16 (be64toh (sib_sid s)) AND 0xFFF))
         @ '':0x'' @ hexadecimal (unat (be64toh (sib_scope_id s) AND 0xFF))) (ntop AF_INET6 (sib_addr s))"
| "straddr ntop (Native_efa e) =
     map_option (\<lambda>gid. ''fi_addr_efa://['' @ gid @ '']:'' @ decimal (unat (efa_qpn e)) @ '':'' @ decimal (unat (efa_qkey e)))
       (ntop AF_INET6 (efa_gid e))"
| "straddr ntop (Native_string s) = Some s"
| "straddr ntop Native_none = None"

definition toString :: "inet_ntop \<Rightarrow> FabricAddress \<Rightarrow> string" where
  "toString ntop a = (if a = Native_none then [] else case straddr ntop a of Some s \<Rightarrow> s | None \<Rightarrow> [])"

fun hostString :: "inet_ntop \<Rightarrow> FabricAddress \<Rightarrow> string option" where
  "hostString ntop (Native_in s) = ntop (sin_family s) (sin_addr s)"
| "hostString ntop (Native_in6 s) = ntop (sin6_family s) (sin6_addr s)"
| "hostString ntop (Native_ib s) = ntop AF_INET6 (sib_addr s)"
| "hostString ntop (Native_efa e) = ntop AF_INET6 (efa_gid e)"
| "hostString ntop (Native_string s) = Some (takeWhile (\<lambda>c. c \<noteq> CHR '':'') s)"
| "hostString ntop Native_none = None"

definition node :: "inet_ntop \<Rightarrow> FabricAddress \<Rightarrow> string option" where
  "node ntop a = (if a = Native_none then None else hostString ntop a)"

text \<open>The port is printed as it is stored.\<close>

definition port_string :: "u16 \<Rightarrow> string option" where
  "port_string port = (if port = 0 then None else Some (decimal (unat port)))"

fun serviceString :: "FabricAddress \<Rightarrow> string option" where
  "serviceString (Native_in s) = port_string (sin_port s)"
| "serviceString (Native_in6 s) = port_string (sin6_port s)"
| "serviceString (Native_ib s) = None"
| "serviceString (Native_efa e) = None"
| "serviceString (Native_string s) = (case dropWhile (\<lambda>c. c \<noteq> CHR '':'') s of [] \<Rightarrow> None | _ # rest \<Rightarrow> Some rest)"
| "serviceString Native_none = None"

definition service :: "FabricAddress \<Rightarrow> string option" where
  "service a = (if a = Native_none then None else serviceString a)"

fun addressFormat :: "FabricAddress \<Rightarrow> FabricAddressFormat" where
  "addressFormat Native_none = Format_Unspec"
| "addressFormat (Native_in s) = Format_SockaddrIn"
| "addressFormat (Native_in6 s) = Format_SockaddrIn6"
| "addressFormat (Native_ib s) = Format_SockaddrIb"
| "addressFormat (Native_efa e) = Format_Efa"
| "addressFormat (Native_string s) = Format_String"

section \<open>Addresses from the configuration\<close>

type_synonym inet_pton = "string \<Rightarrow> u8 list option"

definition parseInternetAddress :: "inet_pton \<Rightarrow> inet_pton \<Rightarrow> string \<Rightarrow> u16 \<Rightarrow> FabricAddress res" where
  "parseInternetAddress pton4 pton6 ipString port =
     (if CHR '':'' \<in> set ipString then
        (case pton6 ipString of
           None \<Rightarrow> Throw (OfiException MXL_ERR_INVALID_ARG)
         | Some addr \<Rightarrow> Ret (Native_in6 \<lparr>sin6_family = AF_INET6, sin6_port = port, sin6_flowinfo = 0, sin6_addr = addr, sin6_scope_id = 0\<rparr>))
      else
        (case pton4 ipString of
           None \<Rightarrow> Throw (OfiException MXL_ERR_INVALID_ARG)
         | Some addr \<Rightarrow> Ret (Native_in \<lparr>sin_family = AF_INET, sin_port = port, sin_addr = addr\<rparr>)))"

text \<open>\<^verbatim>\<open>std::stoi\<close>, for values of 32 bits.\<close>

definition stoi :: "string \<Rightarrow> int res" where
  "stoi s =
     (let t = dropWhile is_space s;
          negative = (t \<noteq> [] \<and> hd t = CHR ''-'');
          u = (if t \<noteq> [] \<and> (hd t = CHR ''-'' \<or> hd t = CHR ''+'') then tl t else t);
          ds = takeWhile is_digit u;
          n = (if negative then - int (digits_value ds) else int (digits_value ds))
      in if ds = [] then Throw InvalidArgument
         else if n < - (2 ^ 31) \<or> n \<ge> 2 ^ 31 then Throw OutOfRange
         else Ret n)"

text \<open>The number of the port is cut to 16 bits.\<close>

definition address_parse ::
  "inet_pton \<Rightarrow> inet_pton \<Rightarrow> Provider \<Rightarrow> string option \<Rightarrow> string option \<Rightarrow> FabricAddress res" where
  "address_parse pton4 pton6 provider host serviceName =
     (case host of
        None \<Rightarrow> if serviceName \<noteq> None then Throw (OfiException MXL_ERR_INVALID_ARG) else Ret Native_none
      | Some n \<Rightarrow>
          (case provider of
             Provider_SHM \<Rightarrow>
               (case serviceName of
                  Some s \<Rightarrow> Ret (Native_string (if s \<noteq> [] then n @ '':'' @ s else n))
                | None \<Rightarrow> Ret (Native_string n))
           | Provider_EFA \<Rightarrow>
               bind_res (parseInternetAddress pton4 pton6 n 0) (\<lambda>parsed.
                 case parsed of
                   Native_in6 s \<Rightarrow> Ret (Native_efa \<lparr>efa_gid = sin6_addr s, efa_qpn = 0, efa_qkey = 0\<rparr>)
                 | _ \<Rightarrow> Throw (OfiException MXL_ERR_INVALID_ARG))
           | Provider_ANY \<Rightarrow> Throw (OfiException MXL_ERR_INVALID_STATE)
           | _ \<Rightarrow>
               (case serviceName of
                  Some s \<Rightarrow>
                    if s \<noteq> [] then bind_res (stoi s) (\<lambda>port. parseInternetAddress pton4 pton6 n (word_of_int port))
                    else parseInternetAddress pton4 pton6 n 0
                | None \<Rightarrow> parseInternetAddress pton4 pton6 n 0)))"

section \<open>What is configured is what is found\<close>

lemma decimal_not_Nil: "decimal n \<noteq> []"
  by (subst decimal.simps) simp

lemma decimal_no_colon: "CHR '':'' \<notin> set (decimal n)"
  using decimal_digits [of "CHR '':''" n] by (auto simp: is_digit_def)

lemma stoi_decimal:
  assumes "n < 2 ^ 31"
  shows "stoi (decimal n) = Ret (int n)"
proof -
  let ?d = "decimal n"
  obtain c cs where d: "?d = c # cs"
    using decimal_not_Nil [of n] by (cases ?d) auto
  have "\<And>e. e \<in> set ?d \<Longrightarrow> is_digit e"
    by (rule decimal_digits)
  then have take: "takeWhile is_digit ?d = ?d" and c: "is_digit c"
    by (auto simp: takeWhile_eq_all_conv d)
  have "\<not> is_space c" "c \<noteq> CHR ''-''" "c \<noteq> CHR ''+''"
    using c by (auto simp: is_digit_def is_space_def)
  then have "dropWhile is_space ?d = ?d" "hd ?d \<noteq> CHR ''-''" "hd ?d \<noteq> CHR ''+''"
    by (simp_all add: d)
  then show ?thesis
    using assms by (simp add: stoi_def Let_def take digits_value_decimal decimal_not_Nil)
qed

definition canonical :: "inet_ntop \<Rightarrow> inet_pton \<Rightarrow> u16 \<Rightarrow> string \<Rightarrow> bool" where
  "canonical ntop pton family host \<longleftrightarrow> (case pton host of None \<Rightarrow> False | Some a \<Rightarrow> ntop family a = Some host)"

text \<open>
  The host and the service of a parsed address are those that were configured: a host in the form in which the C
  library prints it, and a port in decimal, or any service of the shared memory provider.
\<close>

theorem parsed_address_found:
  "provider = Provider_TCP \<or> provider = Provider_VERBS \<Longrightarrow>
   (if CHR '':'' \<in> set host then canonical ntop pton6 AF_INET6 host else canonical ntop pton4 AF_INET host) \<Longrightarrow> 0 < port \<Longrightarrow> port < 2 ^ 16 \<Longrightarrow>
   \<exists>a. address_parse pton4 pton6 provider (Some host) (Some (decimal port)) = Ret a
     \<and> node ntop a = Some host \<and> service a = Some (decimal port)"
  "CHR '':'' \<notin> set host \<Longrightarrow> name \<noteq> [] \<Longrightarrow>
   \<exists>a. address_parse pton4 pton6 Provider_SHM (Some host) (Some name) = Ret a
     \<and> node ntop a = Some host \<and> service a = Some name"
  "CHR '':'' \<in> set host \<Longrightarrow> canonical ntop pton6 AF_INET6 host \<Longrightarrow>
   \<exists>a. address_parse pton4 pton6 Provider_EFA (Some host) name' = Ret a \<and> node ntop a = Some host \<and> service a = None"
proof -
  assume provider: "provider = Provider_TCP \<or> provider = Provider_VERBS" and port: "0 < port" "port < 2 ^ 16"
    and host: "if CHR '':'' \<in> set host then canonical ntop pton6 AF_INET6 host else canonical ntop pton4 AF_INET host"
  have "stoi (decimal port) = Ret (int port)"
    using port by (intro stoi_decimal) simp
  moreover have "unat (word_of_int (int port) :: u16) = port" "(word_of_int (int port) :: u16) \<noteq> 0"
    using port by (simp_all add: unat_of_nat take_bit_nat_eq_self word_eq_unat)
  ultimately show "\<exists>a. address_parse pton4 pton6 provider (Some host) (Some (decimal port)) = Ret a
     \<and> node ntop a = Some host \<and> service a = Some (decimal port)"
    using provider host
    by (elim disjE; cases "CHR '':'' \<in> set host"; cases "pton6 host"; cases "pton4 host")
      (simp_all add: address_parse_def decimal_not_Nil parseInternetAddress_def node_def service_def port_string_def canonical_def)
next
  assume "CHR '':'' \<notin> set host" "name \<noteq> []"
  then have "takeWhile (\<lambda>c. c \<noteq> CHR '':'') (host @ '':'' @ name) = host" "dropWhile (\<lambda>c. c \<noteq> CHR '':'') (host @ '':'' @ name) = '':'' @ name"
    by (induction host) auto
  then show "\<exists>a. address_parse pton4 pton6 Provider_SHM (Some host) (Some name) = Ret a
     \<and> node ntop a = Some host \<and> service a = Some name"
    using \<open>name \<noteq> []\<close> by (intro exI [of _ "Native_string (host @ '':'' @ name)"]) (simp add: address_parse_def node_def service_def)
next
  assume "CHR '':'' \<in> set host" "canonical ntop pton6 AF_INET6 host"
  then show "\<exists>a. address_parse pton4 pton6 Provider_EFA (Some host) name' = Ret a \<and> node ntop a = Some host \<and> service a = None"
    by (cases "pton6 host") (simp_all add: address_parse_def parseInternetAddress_def node_def service_def canonical_def)
qed

text \<open>
  The port of an address that was parsed is in the order of the machine, so what \<open>toString\<close> says of it is the
  port with its bytes exchanged.
\<close>

lemma parsed_port_is_printed_swapped:
  "\<exists>a. address_parse (\<lambda>_. Some [127, 0, 0, 1]) (\<lambda>_. None) Provider_TCP (Some ''127.0.0.1'') (Some (decimal 80)) = Ret a
    \<and> service a = Some (decimal 80) \<and> toString (\<lambda>_ _. Some ''127.0.0.1'') a = ''fi_sockaddr_in://127.0.0.1:'' @ decimal 20480"
proof -
  have "stoi (decimal 80) = Ret (int 80)"
    by (rule stoi_decimal) simp
  moreover have "unat (ntohs 80) = 20480"
    by (simp add: ntohs_def swap_bytes_def word_bytes_def upt_conv_Cons)
  ultimately show ?thesis
    by (simp add: address_parse_def parseInternetAddress_def service_def port_string_def toString_def decimal_not_Nil del: decimal.simps)
qed

text \<open>A string address without a null character makes the decoder read beyond its end.\<close>

lemma unterminated_string_overruns: "RawFabricAddress_decode \<lparr>fa_inner = [97, 98], fa_addressFormat = Format_String\<rparr> = Undef"
  by (simp add: RawFabricAddress_decode_def decode_string_def)

end
