(* ===== verification/FabricEndpoint.thy ===== *)
theory FabricEndpoint
  imports FabricAddress
begin

text \<open>
  Endpoints and their queues: \<^verbatim>\<open>CompletionQueue.cpp\<close>, \<^verbatim>\<open>EventQueue.cpp\<close>, \<^verbatim>\<open>Event.cpp\<close>, \<^verbatim>\<open>Endpoint.cpp\<close> and
  \<^verbatim>\<open>PassiveEndpoint.cpp\<close>. What libfabric returns from a call is given by a \<open>fabric\<close>, what a queue holds by the
  results of the reads.
\<close>

section \<open>Completion queues\<close>

text \<open>The result of \<^verbatim>\<open>fi_cq_read\<close>, with the entry it filled in and the one that \<^verbatim>\<open>fi_cq_readerr\<close> would give.\<close>

record cq_result =
  cr_ret :: int
  cr_entry :: CompletionData
  cr_error :: u64

definition cq_handleReadResult :: "cq_result \<Rightarrow> Completion option res" where
  "cq_handleReadResult r =
     (if cr_ret r = - FI_EAGAIN then Ret None
      else if cr_ret r = - FI_EAVAIL then Ret (Some (ErrorEntry (cr_error r)))
      else if cr_ret r < 0 then Throw (FabricException_make (cr_ret r))
      else Ret (Some (DataEntry (cr_entry r))))"

datatype read_call = Read | SRead int

definition NANOS_PER_MILLI :: int where
  "NANOS_PER_MILLI = 1000000"

definition to_millis :: "int \<Rightarrow> int" where
  "to_millis d = d sdiv NANOS_PER_MILLI"

definition CompletionQueue_read :: "(read_call \<Rightarrow> cq_result) \<Rightarrow> Completion option res" where
  "CompletionQueue_read q = cq_handleReadResult (q Read)"

definition CompletionQueue_readBlocking :: "(read_call \<Rightarrow> cq_result) \<Rightarrow> int \<Rightarrow> Completion option res" where
  "CompletionQueue_readBlocking q timeout =
     (let timeoutMs = to_millis timeout
      in if timeoutMs = 0 then CompletionQueue_read q else cq_handleReadResult (q (SRead timeoutMs)))"

datatype wait_object = FI_WAIT_UNSPEC | FI_WAIT_NONE

record cq_attributes =
  ca_size :: u64
  ca_waitObject :: wait_object

definition CQ_DEFAULT_SIZE :: u64 where
  "CQ_DEFAULT_SIZE = 8"

definition CompletionQueue_Attributes_defaults :: cq_attributes where
  "CompletionQueue_Attributes_defaults = \<lparr>ca_size = CQ_DEFAULT_SIZE, ca_waitObject = FI_WAIT_UNSPEC\<rparr>"

text \<open>\<open>version\<close> is the major and the minor version of libfabric.\<close>

definition isWaitObjectSupportedForEFA :: "nat \<times> nat \<Rightarrow> bool" where
  "isWaitObjectSupportedForEFA version \<longleftrightarrow> fst version > 2 \<or> fst version = 2 \<and> snd version \<ge> 4"

section \<open>Events\<close>

datatype Event = ConnectionRequested u64 | ConnectedEvent u64 | ShutdownEvent u64 | EventError u64 int int

fun event_fid :: "Event \<Rightarrow> u64" where
  "event_fid (ConnectionRequested fid) = fid"
| "event_fid (ConnectedEvent fid) = fid"
| "event_fid (ShutdownEvent fid) = fid"
| "event_fid (EventError fid err providerErr) = fid"

definition isConnReq :: "Event \<Rightarrow> bool" where
  "isConnReq e = (case e of ConnectionRequested _ \<Rightarrow> True | _ \<Rightarrow> False)"

definition isConnected :: "Event \<Rightarrow> bool" where
  "isConnected e = (case e of ConnectedEvent _ \<Rightarrow> True | _ \<Rightarrow> False)"

definition isShutdown :: "Event \<Rightarrow> bool" where
  "isShutdown e = (case e of ShutdownEvent _ \<Rightarrow> True | _ \<Rightarrow> False)"

definition isError :: "Event \<Rightarrow> bool" where
  "isError e = (case e of EventError _ _ _ \<Rightarrow> True | _ \<Rightarrow> False)"

datatype event_type =
    FI_CONNREQ | FI_CONNECTED | FI_SHUTDOWN | FI_NOTIFY | FI_MR_COMPLETE | FI_AV_COMPLETE | FI_JOIN_COMPLETE | FI_OTHER_EVENT

definition fromRawCMEntry :: "u64 \<Rightarrow> event_type \<Rightarrow> Event res" where
  "fromRawCMEntry fid eventType =
     (case eventType of
        FI_CONNREQ \<Rightarrow> Ret (ConnectionRequested fid)
      | FI_CONNECTED \<Rightarrow> Ret (ConnectedEvent fid)
      | FI_SHUTDOWN \<Rightarrow> Ret (ShutdownEvent fid)
      | _ \<Rightarrow> Throw (OfiException MXL_ERR_INTERNAL))"

definition fromRawEntry :: "Event res" where
  "fromRawEntry = Throw (OfiException MXL_ERR_INTERNAL)"

record eq_result =
  er_ret :: int
  er_type :: event_type
  er_fid :: u64
  er_error :: "u64 \<times> int \<times> int"

definition eq_handleReadResult :: "eq_result \<Rightarrow> Event option res" where
  "eq_handleReadResult r =
     (if er_ret r = - FI_EAGAIN then Ret None
      else if er_ret r = - FI_EAVAIL then
        (case er_error r of (fid, err, providerErr) \<Rightarrow> Ret (Some (EventError fid err providerErr)))
      else if er_ret r < 0 then Throw (FabricException_make (er_ret r))
      else if er_type r \<in> {FI_CONNECTED, FI_CONNREQ, FI_SHUTDOWN} then map_ret Some (fromRawCMEntry (er_fid r) (er_type r))
      else if er_type r \<in> {FI_NOTIFY, FI_MR_COMPLETE, FI_AV_COMPLETE, FI_JOIN_COMPLETE} then map_ret Some fromRawEntry
      else Ret None)"

definition EventQueue_read :: "(read_call \<Rightarrow> eq_result) \<Rightarrow> Event option res" where
  "EventQueue_read q = eq_handleReadResult (q Read)"

definition EventQueue_readBlocking :: "(read_call \<Rightarrow> eq_result) \<Rightarrow> int \<Rightarrow> Event option res" where
  "EventQueue_readBlocking q timeout =
     (let timeoutMs = to_millis timeout
      in if timeoutMs = 0 then EventQueue_read q else eq_handleReadResult (q (SRead timeoutMs)))"

section \<open>Endpoints\<close>

text \<open>An endpoint that was moved from has no handle any more, and no operation may be called on it.\<close>

record Endpoint =
  ep_id :: u64
  ep_open :: bool
  ep_cq :: bool
  ep_eq :: bool
  ep_av :: bool

definition moved :: "Endpoint \<Rightarrow> Endpoint" where
  "moved ep = ep\<lparr>ep_open := False\<rparr>"

datatype fabric_call =
    Call_endpoint | Call_bind_eq | Call_bind_cq | Call_bind_av | Call_enable | Call_accept | Call_connect | Call_shutdown
  | Call_passive_ep | Call_pep_bind | Call_listen | Call_eq_open | Call_cq_open cq_attributes | Call_recv

text \<open>The result of a call for the endpoint with an identifier.\<close>

type_synonym fabric = "fabric_call \<Rightarrow> u64 \<Rightarrow> int"

definition Endpoint_create :: "fabric \<Rightarrow> u64 \<Rightarrow> Endpoint res" where
  "Endpoint_create fab epid =
     map_ret (\<lambda>_. \<lparr>ep_id = epid, ep_open = True, ep_cq = False, ep_eq = False, ep_av = False\<rparr>) (fiCall (fab Call_endpoint epid))"

definition endpoint_call :: "fabric \<Rightarrow> fabric_call \<Rightarrow> Endpoint \<Rightarrow> unit res" where
  "endpoint_call fab c ep = (if \<not> ep_open ep then Undef else map_ret (\<lambda>_. ()) (fiCall (fab c (ep_id ep))))"

definition Endpoint_bind_eq :: "fabric \<Rightarrow> Endpoint \<Rightarrow> Endpoint res" where
  "Endpoint_bind_eq fab ep = map_ret (\<lambda>_. ep\<lparr>ep_eq := True\<rparr>) (endpoint_call fab Call_bind_eq ep)"

definition Endpoint_bind_cq :: "fabric \<Rightarrow> Endpoint \<Rightarrow> Endpoint res" where
  "Endpoint_bind_cq fab ep = map_ret (\<lambda>_. ep\<lparr>ep_cq := True\<rparr>) (endpoint_call fab Call_bind_cq ep)"

definition Endpoint_bind_av :: "fabric \<Rightarrow> Endpoint \<Rightarrow> Endpoint res" where
  "Endpoint_bind_av fab ep = map_ret (\<lambda>_. ep\<lparr>ep_av := True\<rparr>) (endpoint_call fab Call_bind_av ep)"

definition Endpoint_enable :: "fabric \<Rightarrow> Endpoint \<Rightarrow> unit res" where
  "Endpoint_enable fab = endpoint_call fab Call_enable"

definition Endpoint_accept :: "fabric \<Rightarrow> Endpoint \<Rightarrow> unit res" where
  "Endpoint_accept fab = endpoint_call fab Call_accept"

definition Endpoint_connect :: "fabric \<Rightarrow> Endpoint \<Rightarrow> unit res" where
  "Endpoint_connect fab = endpoint_call fab Call_connect"

definition Endpoint_shutdown :: "fabric \<Rightarrow> Endpoint \<Rightarrow> unit res" where
  "Endpoint_shutdown fab = endpoint_call fab Call_shutdown"

definition endpoint_completionQueue :: "Endpoint \<Rightarrow> unit res" where
  "endpoint_completionQueue ep = (if \<not> ep_cq ep then Throw (OfiException MXL_ERR_INTERNAL) else if \<not> ep_open ep then Undef else Ret ())"

definition endpoint_eventQueue :: "Endpoint \<Rightarrow> unit res" where
  "endpoint_eventQueue ep = (if \<not> ep_eq ep then Throw (OfiException MXL_ERR_INTERNAL) else if \<not> ep_open ep then Undef else Ret ())"

definition endpoint_addressVector :: "Endpoint \<Rightarrow> unit res" where
  "endpoint_addressVector ep = (if \<not> ep_av ep then Throw (OfiException MXL_ERR_INTERNAL) else if \<not> ep_open ep then Undef else Ret ())"

text \<open>
  The completion queue is read before the event queue. The queues of an endpoint that was moved from are null
  pointers.
\<close>

definition Endpoint_readQueues ::
  "(read_call \<Rightarrow> cq_result) \<Rightarrow> (read_call \<Rightarrow> eq_result) \<Rightarrow> Endpoint \<Rightarrow> (Completion option \<times> Event option) res" where
  "Endpoint_readQueues cq eq ep =
     (if \<not> ep_open ep then Undef
      else bind_res (if ep_cq ep then CompletionQueue_read cq else Ret None) (\<lambda>completion.
           bind_res (if ep_eq ep then EventQueue_read eq else Ret None) (\<lambda>event.
           Ret (completion, event))))"

definition EQReadInterval :: int where
  "EQReadInterval = 100"

text \<open>A round of the blocking read: the time, and what the two queues hold then.\<close>

record queue_round =
  qr_now :: int
  qr_cq :: "read_call \<Rightarrow> cq_result"
  qr_eq :: "read_call \<Rightarrow> eq_result"

fun read_rounds :: "int \<Rightarrow> queue_round list \<Rightarrow> (Completion option \<times> Event option) res option" where
  "read_rounds deadline [] = None"
| "read_rounds deadline (r # rounds) =
     (let timeUntilDeadline = to_millis (deadline - qr_now r)
      in if timeUntilDeadline \<le> 0 then Some (Ret (None, None))
         else case EventQueue_read (qr_eq r) of
           Throw e \<Rightarrow> Some (Throw e)
         | Undef \<Rightarrow> Some Undef
         | Ret (Some event) \<Rightarrow> Some (Ret (None, Some event))
         | Ret None \<Rightarrow>
             (case CompletionQueue_readBlocking (qr_cq r) (min EQReadInterval timeUntilDeadline * NANOS_PER_MILLI) of
                Throw e \<Rightarrow> Some (Throw e)
              | Undef \<Rightarrow> Some Undef
              | Ret (Some completion) \<Rightarrow> Some (Ret (Some completion, None))
              | Ret None \<Rightarrow> read_rounds deadline rounds))"

definition Endpoint_readQueuesBlocking ::
  "int \<Rightarrow> queue_round list \<Rightarrow> int \<Rightarrow> Endpoint \<Rightarrow> (Completion option \<times> Event option) res option" where
  "Endpoint_readQueuesBlocking now rounds timeout ep =
     (if \<not> ep_open ep then Some Undef
      else if \<not> ep_eq ep \<and> \<not> ep_cq ep then Some (Throw (OfiException MXL_ERR_INVALID_STATE))
      else case rounds of
        [] \<Rightarrow> None
      | r # _ \<Rightarrow>
          if \<not> ep_eq ep then
            Some (map_ret (\<lambda>completion. (completion, None)) (CompletionQueue_readBlocking (qr_cq r) timeout))
          else if to_millis timeout < EQReadInterval then
            Some (bind_res (EventQueue_read (qr_eq r)) (\<lambda>event.
                  if \<not> ep_cq ep then Undef
                  else bind_res (CompletionQueue_readBlocking (qr_cq r) timeout) (\<lambda>completion. Ret (completion, event))))
          else if \<not> ep_cq ep then Some Undef
          else read_rounds (now + timeout) rounds)"

text \<open>
  A blocking read ends: as soon as a round is at the deadline, or its queues hold something, the answer is there.
\<close>

lemma read_rounds_ends:
  assumes "\<exists>r \<in> set rounds. to_millis (deadline - qr_now r) \<le> 0 \<or> EventQueue_read (qr_eq r) \<noteq> Ret None"
  shows "read_rounds deadline rounds \<noteq> None"
  using assms by (induction rounds) (auto simp: Let_def split: res.splits option.splits)

section \<open>Passive endpoints\<close>

record PassiveEndpoint =
  pe_id :: u64
  pe_open :: bool
  pe_eq :: bool

definition pep_moved :: "PassiveEndpoint \<Rightarrow> PassiveEndpoint" where
  "pep_moved p = p\<lparr>pe_open := False\<rparr>"

definition PassiveEndpoint_create :: "fabric \<Rightarrow> u64 \<Rightarrow> PassiveEndpoint res" where
  "PassiveEndpoint_create fab epid =
     map_ret (\<lambda>_. \<lparr>pe_id = epid, pe_open = True, pe_eq = False\<rparr>) (fiCall (fab Call_passive_ep epid))"

definition pep_call :: "fabric \<Rightarrow> fabric_call \<Rightarrow> PassiveEndpoint \<Rightarrow> unit res" where
  "pep_call fab c p = (if \<not> pe_open p then Undef else map_ret (\<lambda>_. ()) (fiCall (fab c (pe_id p))))"

definition PassiveEndpoint_bind :: "fabric \<Rightarrow> PassiveEndpoint \<Rightarrow> PassiveEndpoint res" where
  "PassiveEndpoint_bind fab p = map_ret (\<lambda>_. p\<lparr>pe_eq := True\<rparr>) (pep_call fab Call_pep_bind p)"

definition pep_eventQueue :: "PassiveEndpoint \<Rightarrow> unit res" where
  "pep_eventQueue p = (if \<not> pe_eq p then Throw (OfiException MXL_ERR_INTERNAL) else if \<not> pe_open p then Undef else Ret ())"

definition PassiveEndpoint_listen :: "fabric \<Rightarrow> PassiveEndpoint \<Rightarrow> unit res" where
  "PassiveEndpoint_listen fab = pep_call fab Call_listen"

section \<open>Address vectors\<close>

text \<open>What libfabric does for an address vector: an insertion gives the number of addresses and the handle of the new one.\<close>

record address_vector =
  av_insert :: "RawFabricAddress \<Rightarrow> int \<times> u64"
  av_straddr :: "RawFabricAddress \<Rightarrow> string option"
  av_remove :: "u64 \<Rightarrow> int"

definition AddressVector_addrToString :: "address_vector \<Rightarrow> RawFabricAddress \<Rightarrow> string res" where
  "AddressVector_addrToString av addr = (case av_straddr av addr of None \<Rightarrow> Throw (OfiException MXL_ERR_INTERNAL) | Some s \<Rightarrow> Ret s)"

definition AddressVector_insert :: "address_vector \<Rightarrow> RawFabricAddress \<Rightarrow> u64 res" where
  "AddressVector_insert av addr =
     (case av_insert av addr of (ret, fiAddr) \<Rightarrow>
        if ret \<noteq> 1 then Throw (OfiException MXL_ERR_INTERNAL)
        else bind_res (AddressVector_addrToString av addr) (\<lambda>_. Ret fiAddr))"

text \<open>A failing removal leaves a function that does not throw, which ends the process.\<close>

definition AddressVector_remove :: "address_vector \<Rightarrow> u64 \<Rightarrow> unit res" where
  "AddressVector_remove av addr = (case fiCall (av_remove av addr) of Ret _ \<Rightarrow> Ret () | _ \<Rightarrow> Undef)"

end
