(* ===== verification/FabricInitiator.thy ===== *)
theory FabricInitiator
  imports FabricEndpoint
begin

text \<open>
  The sending side of the fabrics with connections, \<^verbatim>\<open>RCInitiator.cpp\<close>: an endpoint with its state for every target,
  and the progress that the caller drives by reading the completion and the event queue.
\<close>

section \<open>The protocol of an endpoint\<close>

datatype EgressProtocol = GrainEgress RMAGrainEgressProtocol | SampleEgress RMASampleEgressProtocol

text \<open>What the fabric takes: the requests it accepts and the fragments a request may have.\<close>

record transmit =
  tx_accept :: acceptor
  tx_iovLimit :: u64

definition eg_transferGrain ::
  "transmit \<Rightarrow> u64 \<Rightarrow> u64 \<Rightarrow> u32 \<Rightarrow> SliceRange \<Rightarrow> u64 \<Rightarrow> (EgressProtocol \<times> sender, unit) act" where
  "eg_transferGrain tx localIndex remoteIndex payloadOffset slices destAddr =
     (\<lambda>(proto, s). case proto of
        GrainEgress g \<Rightarrow>
          (case ge_transferGrain (tx_accept tx) localIndex remoteIndex payloadOffset slices destAddr (g, sn_posted s) of
             (r, g', posted) \<Rightarrow> (r, GrainEgress g', s\<lparr>sn_posted := posted\<rparr>))
      | SampleEgress _ \<Rightarrow> (Throw (OfiException MXL_ERR_INVALID_STATE), proto, s))"

definition eg_transferSamples :: "transmit \<Rightarrow> u64 \<Rightarrow> u64 \<Rightarrow> u64 \<Rightarrow> (EgressProtocol \<times> sender, unit) act" where
  "eg_transferSamples tx head_index n destAddr =
     (\<lambda>(proto, s). case proto of
        GrainEgress _ \<Rightarrow> (Throw (OfiException MXL_ERR_INVALID_STATE), proto, s)
      | SampleEgress p \<Rightarrow>
          (case se_transferSamples (tx_accept tx) (tx_iovLimit tx) head_index n destAddr (p, s) of
             (r, p', s') \<Rightarrow> (r, SampleEgress p', s')))"

fun eg_processCompletion :: "EgressProtocol \<Rightarrow> EgressProtocol" where
  "eg_processCompletion (GrainEgress g) = GrainEgress (ge_processCompletion g)"
| "eg_processCompletion (SampleEgress p) = SampleEgress (se_processCompletion p)"

fun eg_hasPendingWork :: "EgressProtocol \<Rightarrow> bool" where
  "eg_hasPendingWork (GrainEgress g) = ge_hasPendingWork g"
| "eg_hasPendingWork (SampleEgress p) = se_hasPendingWork p"

fun eg_reset :: "EgressProtocol \<Rightarrow> u64 \<times> EgressProtocol" where
  "eg_reset (GrainEgress g) = (fst (ge_reset g), GrainEgress (snd (ge_reset g)))"
| "eg_reset (SampleEgress p) = (fst (se_reset p), SampleEgress (snd (se_reset p)))"

fun eg_registerMemory :: "registrar \<Rightarrow> (nat \<Rightarrow> u64) \<Rightarrow> EgressProtocol \<Rightarrow> (RegisteredRegion list, EgressProtocol) act" where
  "eg_registerMemory register header_at (GrainEgress g) = return_act (GrainEgress g)"
| "eg_registerMemory register header_at (SampleEgress p) =
     bind_act (se_registerMemory register header_at p) (\<lambda>p. return_act (SampleEgress p))"

definition et_createInstance :: "EgressProtocolTemplate \<Rightarrow> u64 \<Rightarrow> TargetInfo \<Rightarrow> EgressProtocol res" where
  "et_createInstance t token info =
     (case t of
        GrainTemplate g \<Rightarrow> map_ret GrainEgress (gt_createInstance g token info)
      | SampleTemplate p \<Rightarrow> map_ret SampleEgress (st_createInstance p token info))"

definition et_registerMemory :: "registrar \<Rightarrow> EgressProtocolTemplate \<Rightarrow> (RegisteredRegion list, EgressProtocolTemplate) act" where
  "et_registerMemory register t =
     (case t of
        GrainTemplate g \<Rightarrow> bind_act (gt_registerMemory register g) (\<lambda>g. return_act (GrainTemplate g))
      | SampleTemplate p \<Rightarrow> bind_act (st_registerMemory register p) (\<lambda>p. return_act (SampleTemplate p)))"

section \<open>An endpoint\<close>

datatype RCState = Idle Endpoint int | Connecting Endpoint | Connected Endpoint | Flushing Endpoint u64 | Done

record RCInitiatorEndpoint =
  ie_state :: RCState
  ie_info :: TargetInfo
  ie_proto :: EgressProtocol

definition RCInitiatorEndpoint_ctor :: "Endpoint \<Rightarrow> EgressProtocol \<Rightarrow> TargetInfo \<Rightarrow> RCInitiatorEndpoint" where
  "RCInitiatorEndpoint_ctor ep proto info = \<lparr>ie_state = Idle ep 0, ie_info = info, ie_proto = proto\<rparr>"

definition isIdle :: "RCInitiatorEndpoint \<Rightarrow> bool" where
  "isIdle t = (case ie_state t of Idle _ _ \<Rightarrow> True | _ \<Rightarrow> False)"

definition canEvict :: "RCInitiatorEndpoint \<Rightarrow> bool" where
  "canEvict t = (case ie_state t of Done \<Rightarrow> True | _ \<Rightarrow> False)"

definition hasPendingWork :: "RCInitiatorEndpoint \<Rightarrow> bool" where
  "hasPendingWork t =
     (case ie_state t of
        Idle _ _ \<Rightarrow> True
      | Connecting _ \<Rightarrow> True
      | Connected _ \<Rightarrow> eg_hasPendingWork (ie_proto t)
      | Flushing _ _ \<Rightarrow> True
      | Done \<Rightarrow> False)"

text \<open>
  The handlers move the state out, and the new one back in. When one throws, the state keeps its kind, with an
  endpoint that was moved from.
\<close>

definition with_state :: "RCInitiatorEndpoint \<Rightarrow> RCState \<Rightarrow> RCState res \<Rightarrow> unit res \<times> RCInitiatorEndpoint" where
  "with_state t lost r =
     (case r of
        Ret st \<Rightarrow> (Ret (), t\<lparr>ie_state := st\<rparr>)
      | Throw e \<Rightarrow> (Throw e, t\<lparr>ie_state := lost\<rparr>)
      | Undef \<Rightarrow> (Undef, t\<lparr>ie_state := lost\<rparr>))"

definition ie_shutdown :: "fabric \<Rightarrow> (RCInitiatorEndpoint, unit) act" where
  "ie_shutdown fab t =
     (case ie_state t of
        Idle _ _ \<Rightarrow> (Ret (), t\<lparr>ie_state := Done\<rparr>)
      | Connecting _ \<Rightarrow> (Ret (), t\<lparr>ie_state := Done\<rparr>)
      | Connected ep \<Rightarrow>
          (let (pending, proto) = eg_reset (ie_proto t)
           in with_state (t\<lparr>ie_proto := proto\<rparr>) (Connected (moved ep))
                (map_ret (\<lambda>_. Flushing ep pending) (Endpoint_shutdown fab ep)))
      | Flushing _ _ \<Rightarrow> (Ret (), t)
      | Done \<Rightarrow> (Ret (), t))"

definition ie_terminate :: "RCInitiatorEndpoint \<Rightarrow> RCInitiatorEndpoint" where
  "ie_terminate t = (case ie_state t of Flushing _ _ \<Rightarrow> t\<lparr>ie_state := Done\<rparr> | _ \<Rightarrow> t)"

definition RESTART_INTERVAL :: int where
  "RESTART_INTERVAL = 5000000000"

definition ie_activate :: "fabric \<Rightarrow> int \<Rightarrow> (RCInitiatorEndpoint, unit) act" where
  "ie_activate fab now t =
     (case ie_state t of
        Idle ep idleSince \<Rightarrow>
          if now - idleSince < RESTART_INTERVAL then (Ret (), t)
          else with_state t (Idle (moved ep) idleSince)
                 (bind_res (Endpoint_bind_eq fab ep) (\<lambda>ep.
                  bind_res (Endpoint_bind_cq fab ep) (\<lambda>ep.
                  bind_res (RawFabricAddress_decode (ti_fabricAddress (ie_info t))) (\<lambda>_.
                  bind_res (Endpoint_connect fab ep) (\<lambda>_. Ret (Connecting ep))))))
      | _ \<Rightarrow> (Ret (), t))"

definition restart :: "fabric \<Rightarrow> int \<Rightarrow> Endpoint \<Rightarrow> RCState res" where
  "restart fab now old =
     (if \<not> ep_open old then Undef else map_ret (\<lambda>ep. Idle ep now) (Endpoint_create fab (ep_id old)))"

definition ie_consume_event :: "fabric \<Rightarrow> int \<Rightarrow> Event \<Rightarrow> (RCInitiatorEndpoint, unit) act" where
  "ie_consume_event fab now ev t =
     (case ie_state t of
        Idle _ _ \<Rightarrow> (Ret (), t)
      | Connecting ep \<Rightarrow>
          if isError ev then with_state t (Connecting (moved ep)) (restart fab now ep)
          else if isConnected ev then (Ret (), t\<lparr>ie_state := Connected ep\<rparr>)
          else if isShutdown ev then with_state t (Connecting (moved ep)) (restart fab now ep)
          else (Ret (), t)
      | Connected ep \<Rightarrow>
          if isError ev then with_state t (Connected (moved ep)) (restart fab now ep)
          else if isShutdown ev then
            (let (pending, proto) = eg_reset (ie_proto t)
             in (Ret (), t\<lparr>ie_state := Flushing ep pending, ie_proto := proto\<rparr>))
          else (Ret (), t)
      | Flushing ep pending \<Rightarrow>
          if isShutdown ev then (Ret (), t)
          else if isError ev then (Ret (), t\<lparr>ie_state := Done\<rparr>)
          else (Ret (), t)
      | Done \<Rightarrow> (Ret (), t))"

definition handleCompletionData :: "CompletionData \<Rightarrow> RCInitiatorEndpoint \<Rightarrow> RCInitiatorEndpoint" where
  "handleCompletionData completion t =
     (case ie_state t of
        Connected ep \<Rightarrow> t\<lparr>ie_proto := eg_processCompletion (ie_proto t)\<rparr>
      | Flushing ep pending \<Rightarrow> t\<lparr>ie_state := Flushing ep (pending - 1)\<rparr>
      | _ \<Rightarrow> t)"

text \<open>A completion with an error is only logged.\<close>

definition ie_consume_completion :: "Completion \<Rightarrow> RCInitiatorEndpoint \<Rightarrow> RCInitiatorEndpoint" where
  "ie_consume_completion completion t =
     (case tryErr completion of
        Some error \<Rightarrow> t
      | None \<Rightarrow> (case tryData completion of Some d \<Rightarrow> handleCompletionData d t | None \<Rightarrow> t))"

definition FI_ADDR_UNSPEC :: u64 where
  "FI_ADDR_UNSPEC = 0xFFFFFFFFFFFFFFFF"

definition in_proto :: "(EgressProtocol \<times> sender, unit) act \<Rightarrow> (RCInitiatorEndpoint \<times> sender, unit) act" where
  "in_proto m = (\<lambda>(t, s). case m (ie_proto t, s) of (r, proto, s') \<Rightarrow> (r, t\<lparr>ie_proto := proto\<rparr>, s'))"

definition when_connected :: "(EgressProtocol \<times> sender, unit) act \<Rightarrow> (RCInitiatorEndpoint \<times> sender, unit) act" where
  "when_connected m = (\<lambda>(t, s). case ie_state t of
       Connected ep \<Rightarrow> if \<not> ep_open ep then (Undef, t, s) else in_proto m (t, s)
     | _ \<Rightarrow> (Ret (), t, s))"

definition ie_transferGrain :: "transmit \<Rightarrow> u64 \<Rightarrow> u64 \<Rightarrow> u64 \<Rightarrow> SliceRange \<Rightarrow> (RCInitiatorEndpoint \<times> sender, unit) act" where
  "ie_transferGrain tx localIndex remoteIndex remotePayloadOffset slices =
     when_connected (eg_transferGrain tx localIndex remoteIndex (ucast remotePayloadOffset) slices FI_ADDR_UNSPEC)"

definition ie_transferSamples :: "transmit \<Rightarrow> u64 \<Rightarrow> u64 \<Rightarrow> (RCInitiatorEndpoint \<times> sender, unit) act" where
  "ie_transferSamples tx head_index n = when_connected (eg_transferSamples tx head_index n FI_ADDR_UNSPEC)"

section \<open>The initiator\<close>

text \<open>
  The targets are kept in the order of the identifiers of their endpoints. The domain is the list of registered
  regions; the sender is the memory of the process with the requests posted so far.
\<close>

record RCInitiator =
  ri_domain :: "RegisteredRegion list"
  ri_proto :: EgressProtocolTemplate
  ri_targets :: "(u64 \<times> RCInitiatorEndpoint) list"
  ri_sender :: sender

datatype MakeProgressResult = Ready | NotReady | ProgressInterrupted

fun emplace :: "u64 \<Rightarrow> 't \<Rightarrow> (u64 \<times> 't) list \<Rightarrow> (u64 \<times> 't) list" where
  "emplace k v [] = [(k, v)]"
| "emplace k v ((k', v') # rest) =
     (if k = k' then (k', v') # rest else if k < k' then (k, v) # (k', v') # rest else (k', v') # emplace k v rest)"

fun change_target :: "u64 \<Rightarrow> 't \<Rightarrow> (u64 \<times> 't) list \<Rightarrow> (u64 \<times> 't) list" where
  "change_target k v [] = []"
| "change_target k v ((k', v') # rest) = (if k = k' then (k, v) # rest else (k', v') # change_target k v rest)"

text \<open>A loop over the targets ends with the first one that throws.\<close>

fun each_target :: "('t \<times> 's, unit) act \<Rightarrow> ((u64 \<times> 't) list \<times> 's, unit) act" where
  "each_target op ([], s) = (Ret (), [], s)"
| "each_target op ((k, t) # targets, s) =
     (case op (t, s) of
        (Ret _, t', s') \<Rightarrow> (case each_target op (targets, s') of (r, targets', s'') \<Rightarrow> (r, (k, t') # targets', s''))
      | (Throw e, t', s') \<Rightarrow> (Throw e, (k, t') # targets, s')
      | (Undef, t', s') \<Rightarrow> (Undef, (k, t') # targets, s'))"

definition on_targets :: "(RCInitiatorEndpoint \<times> sender, unit) act \<Rightarrow> (RCInitiator, unit) act" where
  "on_targets op s =
     (case each_target op (ri_targets s, ri_sender s) of
        (r, targets, snd') \<Rightarrow> (r, s\<lparr>ri_targets := targets, ri_sender := snd'\<rparr>))"

definition on_endpoint :: "(RCInitiatorEndpoint, unit) act \<Rightarrow> (RCInitiatorEndpoint \<times> sender, unit) act" where
  "on_endpoint m = (\<lambda>(t, s). case m t of (r, t') \<Rightarrow> (r, t', s))"

text \<open>\<open>epid\<close> is the identifier that \<^verbatim>\<open>randomId\<close> gives.\<close>

definition RCInitiator_addTarget ::
  "fabric \<Rightarrow> registrar \<Rightarrow> (nat \<Rightarrow> u64) \<Rightarrow> u64 \<Rightarrow> TargetInfo \<Rightarrow> (RCInitiator, unit) act" where
  "RCInitiator_addTarget fab register header_at epid targetInfo s =
     (case bind_res (Endpoint_create fab epid) (\<lambda>endpoint.
           map_ret (\<lambda>proto. (endpoint, proto)) (et_createInstance (ri_proto s) (ep_id endpoint) targetInfo)) of
        Ret (endpoint, proto) \<Rightarrow>
          (case eg_registerMemory register header_at proto (ri_domain s) of
             (Ret proto, regs) \<Rightarrow>
               (Ret (), s\<lparr>ri_domain := regs,
                  ri_targets := emplace (ep_id endpoint) (RCInitiatorEndpoint_ctor endpoint proto targetInfo) (ri_targets s)\<rparr>)
           | (Throw e, regs) \<Rightarrow> (Throw e, s\<lparr>ri_domain := regs\<rparr>)
           | (Undef, regs) \<Rightarrow> (Undef, s\<lparr>ri_domain := regs\<rparr>))
      | Throw e \<Rightarrow> (Throw e, s)
      | Undef \<Rightarrow> (Undef, s))"

definition RCInitiator_removeTarget :: "fabric \<Rightarrow> TargetInfo \<Rightarrow> (RCInitiator, unit) act" where
  "RCInitiator_removeTarget fab targetInfo s =
     (case find (\<lambda>(k, t). ti_id (ie_info t) = ti_id targetInfo) (ri_targets s) of
        None \<Rightarrow> (Throw (OfiException MXL_ERR_NOT_FOUND), s)
      | Some (k, t) \<Rightarrow> (case ie_shutdown fab t of (r, t') \<Rightarrow> (r, s\<lparr>ri_targets := change_target k t' (ri_targets s)\<rparr>)))"

definition RCInitiator_transferGrain :: "transmit \<Rightarrow> u64 \<Rightarrow> u16 \<Rightarrow> u16 \<Rightarrow> (RCInitiator, unit) act" where
  "RCInitiator_transferGrain tx grainIndex startSlice endSlice =
     on_targets (\<lambda>ts. bind_act (lift_act (SliceRange_make startSlice endSlice)) (\<lambda>slices.
       ie_transferGrain tx grainIndex grainIndex MXL_GRAIN_PAYLOAD_OFFSET slices) ts)"

definition RCInitiator_transferGrainToTarget ::
  "transmit \<Rightarrow> u64 \<Rightarrow> u64 \<Rightarrow> u64 \<Rightarrow> u64 \<Rightarrow> u16 \<Rightarrow> u16 \<Rightarrow> (RCInitiator, unit) act" where
  "RCInitiator_transferGrainToTarget tx targetId localIndex remoteIndex payloadOffset startSlice endSlice s =
     (case map_of (ri_targets s) targetId of
        None \<Rightarrow> (Throw (OfiException MXL_ERR_NOT_FOUND), s)
      | Some t \<Rightarrow>
          (case bind_act (lift_act (SliceRange_make startSlice endSlice)) (\<lambda>slices.
                  ie_transferGrain tx localIndex remoteIndex payloadOffset slices) (t, ri_sender s) of
             (r, t', snd') \<Rightarrow> (r, s\<lparr>ri_targets := change_target targetId t' (ri_targets s), ri_sender := snd'\<rparr>)))"

definition RCInitiator_transferSamples :: "transmit \<Rightarrow> u64 \<Rightarrow> u64 \<Rightarrow> (RCInitiator, unit) act" where
  "RCInitiator_transferSamples tx head_index n = on_targets (ie_transferSamples tx head_index n)"

definition RCInitiator_shutdown :: "fabric \<Rightarrow> (RCInitiator, unit) act" where
  "RCInitiator_shutdown fab = on_targets (on_endpoint (ie_shutdown fab))"

definition afterProgressResult :: "RCInitiator \<Rightarrow> MakeProgressResult" where
  "afterProgressResult s = (if \<exists>(k, t) \<in> set (ri_targets s). hasPendingWork t then NotReady else Ready)"

definition hasTarget :: "RCInitiator \<Rightarrow> bool" where
  "hasTarget s \<longleftrightarrow> length (ri_targets s) > 0"

definition activateIdleEndpoints :: "fabric \<Rightarrow> int \<Rightarrow> (RCInitiator, unit) act" where
  "activateIdleEndpoints fab now = on_targets (on_endpoint (ie_activate fab now))"

definition evictDeadEndpoints :: "RCInitiator \<Rightarrow> RCInitiator" where
  "evictDeadEndpoints s = s\<lparr>ri_targets := filter (\<lambda>(k, t). \<not> canEvict t) (ri_targets s)\<rparr>"

definition terminate_all :: "RCInitiator \<Rightarrow> RCInitiator" where
  "terminate_all s = s\<lparr>ri_targets := map (\<lambda>(k, t). (k, ie_terminate t)) (ri_targets s)\<rparr>"

section \<open>The queues\<close>

text \<open>The lists give what the reads of a queue return; a loop that has not seen its end has no result.\<close>

fun pollCQ :: "cq_result list \<Rightarrow> RCInitiator \<Rightarrow> (unit res \<times> RCInitiator) option" where
  "pollCQ [] s = None"
| "pollCQ (r # reads) s =
     (case cq_handleReadResult r of
        Throw e \<Rightarrow> Some (Throw e, s)
      | Undef \<Rightarrow> Some (Undef, s)
      | Ret None \<Rightarrow> Some (Ret (), terminate_all s)
      | Ret (Some completion) \<Rightarrow>
          (case map_of (ri_targets s) (completion_token completion) of
             None \<Rightarrow> pollCQ reads s
           | Some t \<Rightarrow>
               pollCQ reads (s\<lparr>ri_targets := change_target (completion_token completion) (ie_consume_completion completion t) (ri_targets s)\<rparr>)))"

fun pollEQ :: "fabric \<Rightarrow> int \<Rightarrow> eq_result list \<Rightarrow> RCInitiator \<Rightarrow> (unit res \<times> RCInitiator) option" where
  "pollEQ fab now [] s = None"
| "pollEQ fab now (r # reads) s =
     (case eq_handleReadResult r of
        Throw e \<Rightarrow> Some (Throw e, s)
      | Undef \<Rightarrow> Some (Undef, s)
      | Ret None \<Rightarrow> Some (Ret (), s)
      | Ret (Some event) \<Rightarrow>
          (case map_of (ri_targets s) (event_fid event) of
             None \<Rightarrow> pollEQ fab now reads s
           | Some t \<Rightarrow>
               (case ie_consume_event fab now event t of
                  (Ret _, t') \<Rightarrow> pollEQ fab now reads (s\<lparr>ri_targets := change_target (event_fid event) t' (ri_targets s)\<rparr>)
                | (Throw e, t') \<Rightarrow> Some (Throw e, s\<lparr>ri_targets := change_target (event_fid event) t' (ri_targets s)\<rparr>)
                | (Undef, t') \<Rightarrow> Some (Undef, s\<lparr>ri_targets := change_target (event_fid event) t' (ri_targets s)\<rparr>))))"

definition then_do :: "(unit res \<times> 's) option \<Rightarrow> ('s \<Rightarrow> ('a res \<times> 's) option) \<Rightarrow> ('a res \<times> 's) option" where
  "then_do m f =
     (case m of
        None \<Rightarrow> None
      | Some (Ret _, s) \<Rightarrow> f s
      | Some (Throw e, s) \<Rightarrow> Some (Throw e, s)
      | Some (Undef, s) \<Rightarrow> Some (Undef, s))"

text \<open>What one call of \<open>makeProgress\<close> meets: the time, libfabric, and what the two queues hold.\<close>

record progress_round =
  pr_now :: int
  pr_fabric :: fabric
  pr_cq :: "cq_result list"
  pr_eq :: "eq_result list"

definition makeProgress :: "progress_round \<Rightarrow> RCInitiator \<Rightarrow> (MakeProgressResult res \<times> RCInitiator) option" where
  "makeProgress r s =
     (if \<not> hasTarget s then Some (Throw (OfiException MXL_ERR_INTERRUPTED), s)
      else then_do (Some (activateIdleEndpoints (pr_fabric r) (pr_now r) s)) (\<lambda>s.
           then_do (pollCQ (pr_cq r) s) (\<lambda>s.
           then_do (pollEQ (pr_fabric r) (pr_now r) (pr_eq r) s) (\<lambda>s.
           let s = evictDeadEndpoints s in Some (Ret (afterProgressResult s), s)))))"

text \<open>A completion for an unknown endpoint is logged and then handed to the endpoint at the end of the map.\<close>

definition blockOnCQ ::
  "progress_round \<Rightarrow> (read_call \<Rightarrow> cq_result) \<Rightarrow> int \<Rightarrow> RCInitiator \<Rightarrow> (MakeProgressResult res \<times> RCInitiator) option" where
  "blockOnCQ r cq timeout s =
     (if timeout = 0 then
        (case makeProgress r s of
           None \<Rightarrow> None
         | Some (Ret _, s) \<Rightarrow> Some (Ret (afterProgressResult s), s)
         | Some (Throw e, s) \<Rightarrow> Some (Throw e, s)
         | Some (Undef, s) \<Rightarrow> Some (Undef, s))
      else Some (case CompletionQueue_readBlocking cq timeout of
        Ret None \<Rightarrow> let s = terminate_all s in (Ret (afterProgressResult s), s)
      | Ret (Some completion) \<Rightarrow>
          (case map_of (ri_targets s) (completion_token completion) of
             None \<Rightarrow> (Undef, s)
           | Some t \<Rightarrow>
               let s = s\<lparr>ri_targets := change_target (completion_token completion) (ie_consume_completion completion t) (ri_targets s)\<rparr>
               in (Ret (afterProgressResult s), s))
      | Throw e \<Rightarrow> if isInterrupted e then (Ret ProgressInterrupted, s) else (Throw e, s)
      | Undef \<Rightarrow> (Undef, s)))"

definition EQPollInterval :: int where
  "EQPollInterval = 100"

text \<open>A turn of the blocking loop: one call of \<open>makeProgress\<close>, the time after it, and the blocking read.\<close>

record blocking_round =
  br_progress :: progress_round
  br_now :: int
  br_cq :: "read_call \<Rightarrow> cq_result"
  br_again :: progress_round

fun progress_rounds :: "int \<Rightarrow> blocking_round list \<Rightarrow> RCInitiator \<Rightarrow> (MakeProgressResult res \<times> RCInitiator) option" where
  "progress_rounds deadline [] s = None"
| "progress_rounds deadline (b # rounds) s =
     (case makeProgress (br_progress b) s of
        None \<Rightarrow> None
      | Some (Throw e, s) \<Rightarrow> Some (Throw e, s)
      | Some (Undef, s) \<Rightarrow> Some (Undef, s)
      | Some (Ret result, s) \<Rightarrow>
          if result = Ready then Some (Ret Ready, s)
          else let timeUntilDeadline = to_millis (deadline - br_now b)
               in if timeUntilDeadline \<le> 0 then Some (Ret (afterProgressResult s), s)
                  else case blockOnCQ (br_again b) (br_cq b) (min EQPollInterval timeUntilDeadline * NANOS_PER_MILLI) s of
                    None \<Rightarrow> None
                  | Some (Ret res, s) \<Rightarrow> if res = NotReady then progress_rounds deadline rounds s else Some (Ret res, s)
                  | Some (Throw e, s) \<Rightarrow> Some (Throw e, s)
                  | Some (Undef, s) \<Rightarrow> Some (Undef, s))"

definition makeProgressBlocking ::
  "int \<Rightarrow> int \<Rightarrow> blocking_round list \<Rightarrow> RCInitiator \<Rightarrow> (MakeProgressResult res \<times> RCInitiator) option" where
  "makeProgressBlocking now timeout rounds s =
     (case rounds of
        [] \<Rightarrow> None
      | b # _ \<Rightarrow>
          if timeout < EQPollInterval * NANOS_PER_MILLI then
            (case makeProgress (br_progress b) s of
               None \<Rightarrow> None
             | Some (Ret _, s) \<Rightarrow> blockOnCQ (br_again b) (br_cq b) timeout s
             | Some (Throw e, s) \<Rightarrow> Some (Throw e, s)
             | Some (Undef, s) \<Rightarrow> Some (Undef, s))
          else progress_rounds (now + timeout) rounds s)"

end
