(* ===== verification/FabricProgress.thy ===== *)
theory FabricProgress
  imports FabricInitiator
begin

text \<open>
  What the initiator promises: the accounting of the requests of an endpoint, the invariant of its targets, and that
  a shutdown comes to its end.
\<close>

section \<open>Requests that are posted are counted\<close>

definition posts :: "u64 \<Rightarrow> rma_msg list \<Rightarrow> rma_msg list \<Rightarrow> nat \<Rightarrow> bool" where
  "posts token posted posted' n \<longleftrightarrow> (\<exists>new. posted' = posted @ new \<and> length new = n \<and> (\<forall>m \<in> set new. rm_token m = token))"

lemma posts_refl [simp, intro]: "posts token posted posted 0"
  by (simp add: posts_def)

lemma posts_trans: "posts token a b m \<Longrightarrow> posts token b c n \<Longrightarrow> posts token a c (m + n)"
  unfolding posts_def by (elim exE) (rule_tac x = "new @ newa" in exI, auto)

lemma writeImpl_posts:
  assumes "writeImpl accept token iov desc rma dest imm posted = (r, posted')"
  shows "if r = Ret () then posts token posted posted' 1 else posted' = posted"
  using assms by (auto simp: writeImpl_def Let_def fiCall_def posts_def split: if_splits)

definition counted :: "RMAGrainEgressProtocol \<times> rma_msg list \<Rightarrow> RMAGrainEgressProtocol \<times> rma_msg list \<Rightarrow> bool" where
  "counted s s' \<longleftrightarrow> (\<exists>n. posts (ge_token (fst s)) (snd s) (snd s') n \<and> fst s' = (fst s)\<lparr>ge_pending := ge_pending (fst s) + of_nat n\<rparr>)"

lemma counted_refl [simp, intro]: "counted s s"
  unfolding counted_def by (rule exI [of _ 0]) simp

lemma counted_trans:
  assumes "counted a b" "counted b c" shows "counted a c"
proof -
  obtain m n where "posts (ge_token (fst a)) (snd a) (snd b) m" "fst b = (fst a)\<lparr>ge_pending := ge_pending (fst a) + of_nat m\<rparr>"
    "posts (ge_token (fst b)) (snd b) (snd c) n" "fst c = (fst b)\<lparr>ge_pending := ge_pending (fst b) + of_nat n\<rparr>"
    using assms unfolding counted_def by blast
  then show ?thesis
    unfolding counted_def by (intro exI [of _ "m + n"]) (auto intro: posts_trans)
qed

lemma post_counted_one:
  assumes "post_counted (write_one accept (ge_token (fst s)) local remote dest imm) s = (r, s')"
  shows "counted s s'"
proof -
  obtain r' posted' where w: "writeImpl accept (ge_token (fst s)) [toIovec local] [lr_desc local] (toRmaIov remote) dest imm (snd s) = (r', posted')"
    by fastforce
  show ?thesis
  proof (cases "r' = Ret ()")
    case True
    then show ?thesis
      using assms w writeImpl_posts [OF w]
      by (auto simp: post_counted_def write_one_def bind_act_def return_act_def counted_def intro!: exI [of _ 1])
  next
    case False
    then show ?thesis
      using assms w writeImpl_posts [OF w]
      by (cases s; cases r') (auto simp: post_counted_def write_one_def bind_act_def return_act_def)
  qed
qed

lemma transfer_planes_counted:
  "transfer_planes accept lg rg slot po slices dest planeCount planes s = (r, s') \<Longrightarrow> counted s s'"
proof (induction planes arbitrary: s)
  case Nil
  then show ?case
    by (simp add: return_act_def)
next
  case (Cons plane planes)
  then show ?case
    by (auto simp: bind_act_def lift_act_def Let_def split: prod.splits res.splits
        intro: post_counted_one counted_trans [OF post_counted_one])
qed

lemma ge_transferGrain_counted:
  "ge_transferGrain accept li ri po slices dest s = (r, s') \<Longrightarrow> counted s s'"
  by (auto simp: ge_transferGrain_def Let_def split: if_splits intro: post_counted_one transfer_planes_counted)

lemma LocalRegion_parts_posts:
  "write_parts accept token grp remote dest imm iovs nbWrites parts off posted = (Ret (), posted') \<Longrightarrow>
   posts token posted posted' (length parts)"
proof (induction parts arbitrary: off posted)
  case Nil
  then show ?case
    by (simp add: return_act_def)
next
  case (Cons i parts)
  let ?first = "i * iovs"
  obtain part where "LocalRegionGroup_span grp ?first (?first + min iovs (length (lg_inner grp) - ?first)) = Ret part"
    using Cons.prems by (auto simp: bind_act_def lift_act_def Let_def split: res.splits)
  then obtain mid where w: "writeImpl accept token (lg_iovs part) (lg_descs part) (rr_addr remote + off, byteSize part, rr_rkey remote) dest
        (if i = nbWrites - 1 then imm else None) posted = (Ret (), mid)"
    and rest: "write_parts accept token grp remote dest imm iovs nbWrites parts (off + byteSize part) mid = (Ret (), posted')"
    using Cons.prems by (auto simp: bind_act_def lift_act_def throw_act_def Let_def split: res.splits prod.splits if_splits)
  show ?case
    using posts_trans [OF _ Cons.IH [OF rest], of posted 1] writeImpl_posts [OF w] by simp
qed

lemma write_group_posts:
  assumes "write_group accept iovs token grp remote dest imm posted = (Ret k, posted')"
  shows "\<exists>n. k = of_nat n \<and> posts token posted posted' n"
  using assms
  by (auto simp: write_group_def Let_def bind_act_def lift_act_def return_act_def split: if_splits prod.splits res.splits
      dest!: LocalRegion_parts_posts intro!: exI [of _ "unat k"])

definition samples_counted :: "RMASampleEgressProtocol \<times> sender \<Rightarrow> RMASampleEgressProtocol \<times> sender \<Rightarrow> bool" where
  "samples_counted s s' \<longleftrightarrow>
     (\<exists>n. posts (se_token (fst s)) (sn_posted (snd s)) (sn_posted (snd s')) n
        \<and> se_pending (fst s') = se_pending (fst s) + of_nat n \<and> se_token (fst s') = se_token (fst s))"

lemma se_transferSamples_counted:
  assumes "se_transferSamples accept iovs h n dest s = (Ret (), s')"
  shows "samples_counted s s'"
  using assms
  by (auto simp: se_transferSamples_def samples_counted_def Let_def bind_act_def lift_act_def on_posted_def split: if_splits prod.splits res.splits option.splits
      dest!: write_group_posts)

lemma se_transferSamples_failed:
  assumes "se_transferSamples accept iovs h n dest s = (r, s')" "r \<noteq> Ret ()"
  shows "se_pending (fst s') = se_pending (fst s) \<and> se_token (fst s') = se_token (fst s)"
  using assms
  by (auto simp: se_transferSamples_def Let_def bind_act_def lift_act_def on_posted_def split: if_splits prod.splits res.splits option.splits)

section \<open>An endpoint and its requests\<close>

fun eg_token :: "EgressProtocol \<Rightarrow> u64" where
  "eg_token (GrainEgress g) = ge_token g"
| "eg_token (SampleEgress p) = se_token p"

fun eg_pending :: "EgressProtocol \<Rightarrow> u64" where
  "eg_pending (GrainEgress g) = ge_pending g"
| "eg_pending (SampleEgress p) = se_pending p"

lemma eg_simps [simp]:
  "eg_hasPendingWork p \<longleftrightarrow> eg_pending p > 0"
  "eg_pending (eg_processCompletion p) = eg_pending p - 1" "eg_token (eg_processCompletion p) = eg_token p"
  "fst (eg_reset p) = eg_pending p" "eg_pending (snd (eg_reset p)) = 0" "eg_token (snd (eg_reset p)) = eg_token p"
  by (cases p; simp add: ge_hasPendingWork_def se_hasPendingWork_def ge_processCompletion_def se_processCompletion_def ge_reset_def se_reset_def)+

definition own :: "u64 \<Rightarrow> sender \<Rightarrow> nat" where
  "own token s = length (filter (\<lambda>m. rm_token m = token) (sn_posted s))"

lemma posts_own: "posts token (sn_posted s) (sn_posted s') n \<Longrightarrow> own token s' = own token s + n"
  by (auto simp: posts_def own_def)

text \<open>A transfer posts requests and counts them, unless it fails after some of its requests were accepted.\<close>

lemma transferGrain_own:
  assumes "eg_transferGrain tx li ri po slices dest (p, s) = (r, p', s')"
  shows "\<exists>n. own (eg_token p) s' = own (eg_token p) s + n \<and> eg_pending p' = eg_pending p + of_nat n \<and> eg_token p' = eg_token p"
proof (cases p)
  case (GrainEgress g)
  then obtain g' posted where t: "ge_transferGrain (tx_accept tx) li ri po slices dest (g, sn_posted s) = (r, g', posted)"
    and p': "p' = GrainEgress g'" "s' = s\<lparr>sn_posted := posted\<rparr>"
    using assms by (auto simp: eg_transferGrain_def split: prod.splits)
  obtain n where "posts (ge_token g) (sn_posted s) posted n" "g' = g\<lparr>ge_pending := ge_pending g + of_nat n\<rparr>"
    using ge_transferGrain_counted [OF t] by (auto simp: counted_def)
  then show ?thesis
    using GrainEgress p' posts_own [of "ge_token g" s s' n] by auto
next
  case (SampleEgress q)
  then show ?thesis
    using assms by (auto simp: eg_transferGrain_def intro: exI [of _ 0])
qed

lemma transferSamples_own:
  assumes "eg_transferSamples tx h k dest (p, s) = (r, p', s')" "r = Ret () \<or> sn_posted s' = sn_posted s"
  shows "\<exists>n. own (eg_token p) s' = own (eg_token p) s + n \<and> eg_pending p' = eg_pending p + of_nat n \<and> eg_token p' = eg_token p"
proof (cases p)
  case (GrainEgress g)
  then show ?thesis
    using assms by (auto simp: eg_transferSamples_def intro: exI [of _ 0])
next
  case (SampleEgress q)
  then obtain q' where t: "se_transferSamples (tx_accept tx) (tx_iovLimit tx) h k dest (q, s) = (r, q', s')" and p': "p' = SampleEgress q'"
    using assms by (auto simp: eg_transferSamples_def split: prod.splits)
  show ?thesis
  proof (cases "r = Ret ()")
    case True
    then show ?thesis
      using se_transferSamples_counted [OF t [unfolded True]] SampleEgress p' posts_own [of "se_token q" s s']
      by (auto simp: samples_counted_def)
  next
    case False
    then show ?thesis
      using se_transferSamples_failed [OF t] SampleEgress p' assms(2) by (auto simp: own_def intro: exI [of _ 0])
  qed
qed

section \<open>Every request is accounted for\<close>

text \<open>
  A run of one endpoint among others: its transfers, what the queues deliver to it, and requests that other
  endpoints post. The two numbers are the completions that it counted, and those that it did not, because they are errors or
  because it was not connected any more; the provider gives at most one completion for a request. A transfer of samples
  that fails is taken to have posted nothing.
\<close>

type_synonym endpoint_run = "RCInitiatorEndpoint \<times> sender \<times> nat \<times> nat"

definition own_requests :: "RCInitiatorEndpoint \<Rightarrow> sender \<Rightarrow> nat" where
  "own_requests t s = own (eg_token (ie_proto t)) s"

inductive endpoint_step :: "endpoint_run \<Rightarrow> endpoint_run \<Rightarrow> bool" where
  step_grain: "endpoint_step (t, s, n, e) (t', s', n, e)"
    if "ie_transferGrain tx localIndex remoteIndex offset slices (t, s) = (r, t', s')"
| step_samples: "endpoint_step (t, s, n, e) (t', s', n, e)"
    if "ie_transferSamples tx head_index k (t, s) = (r, t', s')" "r = Ret () \<or> sn_posted s' = sn_posted s"
| step_others: "endpoint_step (t, s, n, e) (t, s', n, e)"
    if "own_requests t s' = own_requests t s"
| step_data: "endpoint_step (t, s, n, e)
      (ie_consume_completion (DataEntry d) t, s, if \<exists>ep. ie_state t = Connected ep then (n + 1, e) else (n, e + 1))"
    if "n + e < own_requests t s"
| step_error: "endpoint_step (t, s, n, e) (ie_consume_completion (ErrorEntry token) t, s, n, e + 1)"
    if "n + e < own_requests t s"
| step_activate: "endpoint_step (t, s, n, e) (t', s, n, e)"
    if "ie_activate fab now t = (r, t')"
| step_event: "endpoint_step (t, s, n, e) (t', s, n, e)"
    if "ie_consume_event fab now ev t = (r, t')"
| step_shutdown: "endpoint_step (t, s, n, e) (t', s, n, e)"
    if "ie_shutdown fab t = (r, t')"
| step_terminate: "endpoint_step (t, s, n, e) (ie_terminate t, s, n, e)"

inductive endpoint_reach :: "endpoint_run \<Rightarrow> bool" where
  reach_start: "endpoint_reach (RCInitiatorEndpoint_ctor ep proto info, s, 0, 0)"
    if "eg_pending proto = 0" "own (eg_token proto) s = 0"
| reach_step: "endpoint_reach y" if "endpoint_reach x" "endpoint_step x y"

fun settled :: "u64 \<Rightarrow> nat \<Rightarrow> RCState \<Rightarrow> bool" where
  "settled pending outstanding (Flushing ep k) \<longleftrightarrow> pending = 0"
| "settled pending outstanding Done \<longleftrightarrow> True"
| "settled pending outstanding (Connected ep) \<longleftrightarrow> pending = of_nat outstanding \<or> \<not> ep_open ep"
| "settled pending outstanding (Connecting ep) \<longleftrightarrow> pending = of_nat outstanding"
| "settled pending outstanding (Idle ep since) \<longleftrightarrow> pending = of_nat outstanding"

definition accounted :: "endpoint_run \<Rightarrow> bool" where
  "accounted x = (case x of (t, s, n, e) \<Rightarrow>
     n + e \<le> own_requests t s \<and> settled (eg_pending (ie_proto t)) (own_requests t s - n) (ie_state t))"

lemma own_requests_state [simp]: "own_requests (t\<lparr>ie_state := st\<rparr>) s = own_requests t s"
  by (simp add: own_requests_def)

lemma in_proto_accounted:
  assumes "accounted (t, s, n, e)" "m (ie_proto t, s) = (r, p', s')"
    and "\<exists>k. own (eg_token (ie_proto t)) s' = own (eg_token (ie_proto t)) s + k
      \<and> eg_pending p' = eg_pending (ie_proto t) + of_nat k \<and> eg_token p' = eg_token (ie_proto t)"
    and "ie_state t = Connected ep"
  shows "accounted (t\<lparr>ie_proto := p'\<rparr>, s', n, e)"
  using assms by (auto simp: accounted_def own_requests_def add.commute simp flip: of_nat_add)

lemma when_connected_accounted:
  assumes "accounted (t, s, n, e)" "when_connected m (t, s) = (r, t', s')"
    and "\<And>p'. m (ie_proto t, s) = (r, p', s') \<Longrightarrow> \<exists>k. own (eg_token (ie_proto t)) s' = own (eg_token (ie_proto t)) s + k
      \<and> eg_pending p' = eg_pending (ie_proto t) + of_nat k \<and> eg_token p' = eg_token (ie_proto t)"
  shows "accounted (t', s', n, e)"
  using assms in_proto_accounted [OF assms(1), of m r _ s']
  by (auto simp: when_connected_def in_proto_def split: RCState.splits if_splits prod.splits)

lemma completion_accounted:
  assumes "accounted (t, s, n, e)" "n + e < own_requests t s"
  shows "accounted (ie_consume_completion (DataEntry d) t, s, if \<exists>ep. ie_state t = Connected ep then (n + 1, e) else (n, e + 1))"
    "accounted (ie_consume_completion (ErrorEntry token) t, s, n, e + 1)"
proof -
  have "of_nat (own_requests t s - n) - 1 = (of_nat (own_requests t s - Suc n) :: u64)"
    using assms(2) by (simp add: of_nat_diff)
  then show "accounted (ie_consume_completion (DataEntry d) t, s, if \<exists>ep. ie_state t = Connected ep then (n + 1, e) else (n, e + 1))"
    using assms by (cases "ie_state t") (auto simp: accounted_def ie_consume_completion_def handleCompletionData_def own_requests_def)
  show "accounted (ie_consume_completion (ErrorEntry token) t, s, n, e + 1)"
    using assms by (auto simp: accounted_def ie_consume_completion_def)
qed

lemma with_state_accounted:
  assumes "with_state t lost m = (r, t')" "n + e \<le> own_requests t s"
    and "settled (eg_pending (ie_proto t)) (own_requests t s - n) lost"
    and "\<And>st. m = Ret st \<Longrightarrow> settled (eg_pending (ie_proto t)) (own_requests t s - n) st"
  shows "accounted (t', s, n, e)"
  using assms by (auto simp: accounted_def with_state_def split: res.splits)

lemma event_accounted:
  assumes "ie_consume_event fab now ev t = (r, t')" "accounted (t, s, n, e)"
  shows "accounted (t', s, n, e)"
proof -
  have restarted: "accounted (t', s, n, e)"
    if "with_state t lost (restart fab now ep) = (r, t')" "settled (eg_pending (ie_proto t)) (own_requests t s - n) lost"
      "ie_state t = Connecting ep \<or> ie_state t = Connected ep" for lost ep
  proof (rule with_state_accounted [OF that(1) _ that(2)])
    show "n + e \<le> own_requests t s"
      using assms(2) by (simp add: accounted_def)
    show "settled (eg_pending (ie_proto t)) (own_requests t s - n) st" if "restart fab now ep = Ret st" for st
      using that \<open>_ \<or> _\<close> assms(2) by (auto simp: restart_def accounted_def map_ret_Ret_iff simp del: of_nat_diff split: if_splits)
  qed
  show ?thesis
  proof (cases "ie_state t")
    case (Connecting ep)
    then show ?thesis
      using assms restarted [of "Connecting (moved ep)" ep]
      by (auto simp: ie_consume_event_def accounted_def moved_def simp del: of_nat_diff split: if_splits)
  next
    case (Connected ep)
    then show ?thesis
      using assms restarted [of "Connected (moved ep)" ep]
      by (auto simp: ie_consume_event_def accounted_def moved_def own_requests_def split_beta simp del: of_nat_diff split: if_splits)
  qed (use assms in \<open>auto simp: ie_consume_event_def accounted_def own_requests_def split: if_splits\<close>)
qed

lemma activate_accounted:
  assumes "ie_activate fab now t = (r, t')" "accounted (t, s, n, e)"
  shows "accounted (t', s, n, e)"
proof (cases "ie_state t")
  case (Idle ep since)
  show ?thesis
  proof (cases "now - since < RESTART_INTERVAL")
    case False
    show ?thesis
      by (rule with_state_accounted [OF assms(1) [unfolded ie_activate_def Idle RCState.case if_not_P [OF False]]])
         (use assms(2) Idle in \<open>auto simp: accounted_def bind_res_Ret_iff simp del: of_nat_diff\<close>)
  qed (use assms Idle in \<open>simp add: ie_activate_def\<close>)
qed (use assms in \<open>auto simp: ie_activate_def\<close>)

lemma shutdown_accounted:
  assumes "ie_shutdown fab t = (r, t')" "accounted (t, s, n, e)"
  shows "accounted (t', s, n, e)"
proof (cases "ie_state t")
  case (Connected ep)
  let ?t = "t\<lparr>ie_proto := snd (eg_reset (ie_proto t))\<rparr>"
  have "with_state ?t (Connected (moved ep)) (map_ret (\<lambda>_. Flushing ep (eg_pending (ie_proto t))) (Endpoint_shutdown fab ep)) = (r, t')"
    using assms(1) Connected by (simp add: ie_shutdown_def split_beta)
  then show ?thesis
    using assms(2) by (rule_tac with_state_accounted) (auto simp: accounted_def own_requests_def moved_def res_simps)
qed (use assms in \<open>auto simp: ie_shutdown_def accounted_def\<close>)

lemma step_accounted: "endpoint_step x y \<Longrightarrow> accounted x \<Longrightarrow> accounted y"
proof (induction rule: endpoint_step.induct)
  case (step_grain tx li ri off sl t s r t' s' n e)
  then show ?case
    unfolding ie_transferGrain_def by (elim when_connected_accounted [rotated]) (auto dest: transferGrain_own)
next
  case (step_samples tx h k t s r t' s' n e)
  then show ?case
    unfolding ie_transferSamples_def by (elim when_connected_accounted [rotated]) (auto dest: transferSamples_own)
next
  case (step_others t s' s n e)
  then show ?case
    by (simp add: accounted_def)
next
  case (step_data n e t s d)
  then show ?case
    by (rule completion_accounted(1) [rotated])
next
  case (step_error n e t s token)
  then show ?case
    by (rule completion_accounted(2) [rotated])
next
  case (step_activate fab now t r t' s n e)
  then show ?case
    by (rule activate_accounted)
next
  case (step_event fab now ev t r t' s n e)
  then show ?case
    by (rule event_accounted)
next
  case (step_shutdown fab t r t' s n e)
  then show ?case
    by (rule shutdown_accounted)
next
  case (step_terminate t s n e)
  then show ?case
    by (auto simp: accounted_def ie_terminate_def own_requests_def split: RCState.splits)
qed


text \<open>A grain whose only request fails stays pending.\<close>

definition example_target_info :: TargetInfo where
  "example_target_info = \<lparr>ti_id = 7, ti_fabricAddress = \<lparr>fa_inner = [], fa_addressFormat = Format_SockaddrIn\<rparr>,
     ti_provider = Provider_TCP, ti_remoteRegions = [\<lparr>rr_addr = 0, rr_len = 44, rr_rkey = 1000\<rparr>], ti_bounceBufferInfo = None\<rparr>"

definition example_egress :: EgressProtocol where
  "example_egress = GrainEgress \<lparr>ge_token = 5, ge_remoteRegions = ti_remoteRegions example_target_info,
     ge_layout = \<lparr>dl_sliceSizes = [2], dl_totalSlices = 4\<rparr>, ge_localRegions = [\<lparr>lr_addr = 100, lr_len = 44, lr_desc = 0\<rparr>], ge_pending = 0\<rparr>"

definition example_endpoint :: Endpoint where
  "example_endpoint = \<lparr>ep_id = 5, ep_open = True, ep_cq = False, ep_eq = False, ep_av = False\<rparr>"


section \<open>The invariant of the targets\<close>

fun state_endpoint :: "RCState \<Rightarrow> Endpoint option" where
  "state_endpoint (Idle ep since) = Some ep"
| "state_endpoint (Connecting ep) = Some ep"
| "state_endpoint (Connected ep) = Some ep"
| "state_endpoint (Flushing ep pending) = Some ep"
| "state_endpoint Done = None"

text \<open>
  The endpoint of a target is its own, open and, once it connects, bound to both queues; requests carry its
  identifier.
\<close>

definition target_ok :: "u64 \<Rightarrow> RCInitiatorEndpoint \<Rightarrow> bool" where
  "target_ok k t \<longleftrightarrow>
     (case state_endpoint (ie_state t) of None \<Rightarrow> True | Some ep \<Rightarrow> ep_id ep = k \<and> ep_open ep \<and> (isIdle t \<or> ep_cq ep \<and> ep_eq ep))
     \<and> eg_token (ie_proto t) = k"

definition initiator_ok :: "RCInitiator \<Rightarrow> bool" where
  "initiator_ok s \<longleftrightarrow> sorted_wrt (<) (map fst (ri_targets s)) \<and> (\<forall>(k, t) \<in> set (ri_targets s). target_ok k t)"

lemma with_state_ok:
  assumes "with_state t lost m = (Ret (), t')" "\<And>st. m = Ret st \<Longrightarrow> target_ok k (t\<lparr>ie_state := st\<rparr>)"
  shows "target_ok k t'"
  using assms by (auto simp: with_state_def split: res.splits)

lemma ie_shutdown_ok:
  assumes "ie_shutdown fab t = (Ret (), t')" "target_ok k t"
  shows "target_ok k t'" "ie_state t' = Done \<or> (\<exists>ep n. ie_state t' = Flushing ep n)"
  using assms
  by (auto simp: ie_shutdown_def target_ok_def isIdle_def split_beta with_state_def res_simps split: RCState.splits res.splits)

lemma ie_shutdown_returns:
  assumes "target_ok k t" "fab Call_shutdown k \<ge> 0"
  shows "fst (ie_shutdown fab t) = Ret ()"
  using assms
  by (auto simp: ie_shutdown_def target_ok_def isIdle_def split_beta with_state_def Endpoint_shutdown_def endpoint_call_def fiCall_def split: RCState.splits)

lemma restart_ok:
  assumes "with_state t lost (restart fab now ep) = (Ret (), t')" "ep_id ep = k" "eg_token (ie_proto t) = k"
  shows "target_ok k t'"
  using assms(1)
proof (rule with_state_ok)
  show "target_ok k (t\<lparr>ie_state := st\<rparr>)" if "restart fab now ep = Ret st" for st
    using that assms(2-) by (auto simp: restart_def Endpoint_create_def target_ok_def isIdle_def map_ret_Ret_iff fiCall_def split: if_splits)
qed

lemma ie_consume_event_ok:
  assumes "ie_consume_event fab now ev t = (Ret (), t')" "target_ok k t"
  shows "target_ok k t'"
proof (cases "ie_state t")
  case (Connecting ep)
  then show ?thesis
    using assms restart_ok [of t "Connecting (moved ep)" fab now ep t' k]
    by (auto simp: ie_consume_event_def target_ok_def isIdle_def split: if_splits)
next
  case (Connected ep)
  then show ?thesis
    using assms restart_ok [of t "Connected (moved ep)" fab now ep t' k]
    by (auto simp: ie_consume_event_def split_beta target_ok_def isIdle_def split: if_splits)
qed (use assms in \<open>auto simp: ie_consume_event_def target_ok_def isIdle_def split: if_splits\<close>)

lemma endpoint_call_fields [simp]:
  "Endpoint_bind_eq fab ep = Ret ep' \<Longrightarrow> ep' = ep\<lparr>ep_eq := True\<rparr>"
  "Endpoint_bind_cq fab ep = Ret ep' \<Longrightarrow> ep' = ep\<lparr>ep_cq := True\<rparr>"
  by (auto simp: Endpoint_bind_eq_def Endpoint_bind_cq_def map_ret_Ret_iff)

lemma ie_activate_ok:
  assumes "ie_activate fab now t = (Ret (), t')" "target_ok k t"
  shows "target_ok k t'"
proof (cases "ie_state t")
  case (Idle ep since)
  then show ?thesis
    using assms
    by (auto simp: ie_activate_def bind_res_Ret_iff split: if_splits elim!: with_state_ok dest!: endpoint_call_fields)
       (auto simp: target_ok_def isIdle_def)
qed (use assms in \<open>auto simp: ie_activate_def\<close>)

lemma ie_consume_completion_ok: "target_ok k t \<Longrightarrow> target_ok k (ie_consume_completion c t)"
  by (cases c) (auto simp: ie_consume_completion_def handleCompletionData_def target_ok_def isIdle_def split: RCState.splits)

lemma ie_terminate_ok: "target_ok k t \<Longrightarrow> target_ok k (ie_terminate t)"
  by (auto simp: ie_terminate_def target_ok_def isIdle_def split: RCState.splits)

lemma isIdle_proto [simp]: "isIdle (t\<lparr>ie_proto := p\<rparr>) = isIdle t"
  by (simp add: isIdle_def)

lemma in_proto_ok:
  assumes "in_proto m (t, s) = (r, t', s')" "target_ok k t" "\<And>p' s'. m (ie_proto t, s) = (r, p', s') \<Longrightarrow> eg_token p' = eg_token (ie_proto t)"
  shows "target_ok k t'"
  using assms by (auto simp: in_proto_def target_ok_def split: prod.splits option.splits)

lemma transferSamples_token: "eg_transferSamples tx h n dest (p, s) = (r, p', s') \<Longrightarrow> eg_token p' = eg_token p"
proof (cases p)
  case (SampleEgress q)
  assume t: "eg_transferSamples tx h n dest (p, s) = (r, p', s')"
  then obtain q' where q': "se_transferSamples (tx_accept tx) (tx_iovLimit tx) h n dest (q, s) = (r, q', s')" "p' = SampleEgress q'"
    using SampleEgress by (auto simp: eg_transferSamples_def split: prod.splits)
  have "se_token q' = se_token q"
  proof (cases "r = Ret ()")
    case True
    then show ?thesis
      using se_transferSamples_counted [OF q'(1) [unfolded True]] by (auto simp: samples_counted_def)
  qed (use se_transferSamples_failed [OF q'(1)] in simp)
  then show ?thesis
    using SampleEgress q' by simp
qed (auto simp: eg_transferSamples_def)

lemma when_connected_ok:
  assumes "when_connected m (t, s) = (r, t', s')" "target_ok k t" "\<And>p' s'. m (ie_proto t, s) = (r, p', s') \<Longrightarrow> eg_token p' = eg_token (ie_proto t)"
  shows "target_ok k t'"
  using assms in_proto_ok [of m t s r t' s' k] by (auto simp: when_connected_def split: RCState.splits if_splits)

lemma ie_transferGrain_ok: "ie_transferGrain tx li ri off slices (t, s) = (r, t', s') \<Longrightarrow> target_ok k t \<Longrightarrow> target_ok k t'"
  unfolding ie_transferGrain_def by (elim when_connected_ok) (auto dest: transferGrain_own)

lemma ie_transferSamples_ok: "ie_transferSamples tx h n (t, s) = (r, t', s') \<Longrightarrow> target_ok k t \<Longrightarrow> target_ok k t'"
  unfolding ie_transferSamples_def by (elim when_connected_ok) (auto dest: transferSamples_token)

section \<open>All targets\<close>

definition acted :: "('t \<times> 's, unit) act \<Rightarrow> u64 \<times> 't \<Rightarrow> u64 \<times> 't \<Rightarrow> bool" where
  "acted op x y \<longleftrightarrow> fst y = fst x \<and> (\<exists>a b. op (snd x, a) = (Ret (), snd y, b))"

lemma each_target_Ret: "each_target op (ts, a) = (Ret (), ts', b) \<Longrightarrow> list_all2 (acted op) ts ts'"
proof (induction ts arbitrary: a ts')
  case (Cons kt ts)
  then show ?case
    by (cases kt) (auto simp: acted_def split: prod.splits res.splits intro!: exI)
qed simp

lemma on_targets_all:
  assumes "on_targets op s = (Ret (), s')"
  shows "map fst (ri_targets s') = map fst (ri_targets s)"
    "(k, t') \<in> set (ri_targets s') \<Longrightarrow> \<exists>t a b. (k, t) \<in> set (ri_targets s) \<and> op (t, a) = (Ret (), t', b)"
proof -
  have all: "list_all2 (acted op) (ri_targets s) (ri_targets s')"
    using assms by (auto simp: on_targets_def dest!: each_target_Ret split: prod.splits)
  then show "map fst (ri_targets s') = map fst (ri_targets s)"
    by (induction rule: list_all2_induct) (auto simp: acted_def)
  show "(k, t') \<in> set (ri_targets s') \<Longrightarrow> \<exists>t a b. (k, t) \<in> set (ri_targets s) \<and> op (t, a) = (Ret (), t', b)"
    using all by (induction rule: list_all2_induct) (fastforce simp: acted_def)+
qed

lemma on_targets_ok:
  assumes "on_targets op s = (Ret (), s')" "initiator_ok s"
    and "\<And>k t a t' b. op (t, a) = (Ret (), t', b) \<Longrightarrow> target_ok k t \<Longrightarrow> target_ok k t'"
  shows "initiator_ok s'"
  using assms(2) on_targets_all(1) [OF assms(1)] unfolding initiator_ok_def
  by (auto dest!: on_targets_all(2) [OF assms(1)] intro: assms(3))

lemma on_endpoint_Ret: "on_endpoint m (t, a) = (r, t', b) \<longleftrightarrow> m t = (r, t') \<and> b = a"
  by (auto simp: on_endpoint_def split: prod.splits)

lemma change_target_keys [simp]: "map fst (change_target k v ts) = map fst ts"
  by (induction k v ts rule: change_target.induct) auto

lemma change_target_set: "set (change_target k v ts) \<subseteq> insert (k, v) (set ts)"
  by (induction k v ts rule: change_target.induct) auto

lemma change_target_ok:
  assumes "initiator_ok s" "target_ok k t"
  shows "initiator_ok (s\<lparr>ri_targets := change_target k t (ri_targets s)\<rparr>)"
  using assms change_target_set [of k t "ri_targets s"] by (auto simp: initiator_ok_def)

lemma initiator_ok_sender [simp]: "initiator_ok (s\<lparr>ri_sender := b\<rparr>) = initiator_ok s" "initiator_ok (s\<lparr>ri_domain := d\<rparr>) = initiator_ok s"
  by (simp_all add: initiator_ok_def)

lemma initiator_ok_target: "initiator_ok s \<Longrightarrow> map_of (ri_targets s) k = Some t \<Longrightarrow> target_ok k t"
  by (auto simp: initiator_ok_def dest!: map_of_SomeD)

lemma emplace_set: "set (emplace k v ts) \<subseteq> insert (k, v) (set ts)"
  by (induction k v ts rule: emplace.induct) auto

lemma emplace_sorted: "sorted_wrt (<) (map fst ts) \<Longrightarrow> sorted_wrt (<) (map fst (emplace (k :: u64) v ts))"
proof (induction k v ts rule: emplace.induct)
  case (2 k v k' v' rest)
  show ?case
  proof (cases "k' < k")
    case True
    have "k' < fst x" if "x \<in> set (emplace k v rest)" for x
      using that emplace_set [of k v rest] "2.prems" True by auto
    moreover have "sorted_wrt (<) (map fst (emplace k v rest))"
      using 2 True by (simp add: not_less_iff_gr_or_eq)
    moreover have "\<not> k < k'" "k \<noteq> k'"
      using True by auto
    ultimately show ?thesis
      by simp
  next
    case False
    then show ?thesis
      using "2.prems" by (auto simp: neq_iff intro: less_trans)
  qed
qed simp

lemma created_token:
  assumes "et_createInstance t token info = Ret proto" "eg_registerMemory register header_at proto regs = (Ret proto', regs')"
  shows "eg_token proto' = token"
proof -
  have "eg_token proto = token"
    using assms(1) by (auto simp: et_createInstance_def gt_createInstance_def st_createInstance_def map_ret_Ret_iff
        RMAGrainEgressProtocol_ctor_def RMASampleEgressProtocol_ctor_def split: EgressProtocolTemplate.splits option.splits)
  then show ?thesis
    using assms(2) by (cases proto) (auto simp: return_act_def bind_act_def se_registerMemory_def Let_def split: if_splits prod.splits res.splits)
qed

lemma RCInitiator_addTarget_ok:
  assumes "RCInitiator_addTarget fab register header_at epid info s = (Ret (), s')" "initiator_ok s"
  shows "initiator_ok s'"
proof -
  have "\<exists>x. bind_res (Endpoint_create fab epid) (\<lambda>endpoint.
      map_ret (\<lambda>proto. (endpoint, proto)) (et_createInstance (ri_proto s) (ep_id endpoint) info)) = Ret x"
    using assms(1) by (simp add: RCInitiator_addTarget_def split: res.splits)
  then obtain ep proto where made: "Endpoint_create fab epid = Ret ep" "et_createInstance (ri_proto s) (ep_id ep) info = Ret proto"
    by (auto simp: bind_res_Ret_iff map_ret_Ret_iff)
  obtain proto' regs where reg: "eg_registerMemory register header_at proto (ri_domain s) = (Ret proto', regs)"
    and s': "s' = s\<lparr>ri_domain := regs, ri_targets := emplace (ep_id ep) (RCInitiatorEndpoint_ctor ep proto' info) (ri_targets s)\<rparr>"
    using assms(1) made by (auto simp: RCInitiator_addTarget_def split: res.splits prod.splits)
  have "eg_token proto' = ep_id ep"
    by (rule created_token [OF made(2) reg])
  moreover have "ep_open ep"
    using made(1) by (auto simp: Endpoint_create_def map_ret_Ret_iff)
  ultimately have "target_ok (ep_id ep) (RCInitiatorEndpoint_ctor ep proto' info)"
    by (simp add: target_ok_def RCInitiatorEndpoint_ctor_def isIdle_def)
  then show ?thesis
    using assms(2) emplace_set [of "ep_id ep" "RCInitiatorEndpoint_ctor ep proto' info" "ri_targets s"]
    by (auto simp: s' initiator_ok_def intro!: emplace_sorted)
qed

lemma RCInitiator_removeTarget_ok:
  assumes "RCInitiator_removeTarget fab info s = (Ret (), s')" "initiator_ok s"
  shows "initiator_ok s'"
proof -
  obtain k t where "find (\<lambda>(k, t). ti_id (ie_info t) = ti_id info) (ri_targets s) = Some (k, t)"
    using assms(1) by (auto simp: RCInitiator_removeTarget_def split: option.splits)
  moreover from this have "(k, t) \<in> set (ri_targets s)"
    by (auto simp: find_Some_iff in_set_conv_nth)
  ultimately have found: "find (\<lambda>(k, t). ti_id (ie_info t) = ti_id info) (ri_targets s) = Some (k, t)" "target_ok k t"
    using assms(2) by (auto simp: initiator_ok_def)
  obtain t' where "ie_shutdown fab t = (Ret (), t')" "s' = s\<lparr>ri_targets := change_target k t' (ri_targets s)\<rparr>"
    using assms(1) found(1) by (auto simp: RCInitiator_removeTarget_def split: prod.splits)
  then show ?thesis
    using change_target_ok [OF assms(2)] ie_shutdown_ok(1) found(2) by metis
qed

lemma change_target_sender_ok:
  assumes "initiator_ok s" "target_ok k t"
  shows "initiator_ok (s\<lparr>ri_targets := change_target k t (ri_targets s), ri_sender := b\<rparr>)"
  using change_target_ok [OF assms] by (simp add: initiator_ok_def)

lemma make_slices_step:
  "bind_act (lift_act (SliceRange_make a b)) f x = (Ret (), y) \<Longrightarrow> \<exists>slices. f slices x = (Ret (), y)"
  by (auto simp: bind_act_def lift_act_def split: res.splits)

lemma RCInitiator_transfer_ok:
  assumes "initiator_ok s"
  shows "RCInitiator_transferGrain tx g a b s = (Ret (), s') \<Longrightarrow> initiator_ok s'"
    "RCInitiator_transferSamples tx h n s = (Ret (), s') \<Longrightarrow> initiator_ok s'"
    "RCInitiator_transferGrainToTarget tx k li ri off a b s = (Ret (), s') \<Longrightarrow> initiator_ok s'"
proof -
  show "RCInitiator_transferGrain tx g a b s = (Ret (), s') \<Longrightarrow> initiator_ok s'"
    unfolding RCInitiator_transferGrain_def
    by (erule on_targets_ok [OF _ assms]) (auto dest!: make_slices_step intro: ie_transferGrain_ok)
  show "RCInitiator_transferSamples tx h n s = (Ret (), s') \<Longrightarrow> initiator_ok s'"
    unfolding RCInitiator_transferSamples_def
    by (erule on_targets_ok [OF _ assms]) (rule ie_transferSamples_ok)
  show "RCInitiator_transferGrainToTarget tx k li ri off a b s = (Ret (), s') \<Longrightarrow> initiator_ok s'"
    by (auto simp: RCInitiator_transferGrainToTarget_def split: option.splits prod.splits
        dest!: make_slices_step dest: initiator_ok_target [OF assms] intro!: change_target_sender_ok [OF assms] intro: ie_transferGrain_ok)
qed

lemma RCInitiator_shutdown_ok: "RCInitiator_shutdown fab s = (Ret (), s') \<Longrightarrow> initiator_ok s \<Longrightarrow> initiator_ok s'"
  unfolding RCInitiator_shutdown_def by (erule on_targets_ok) (auto simp: on_endpoint_Ret intro: ie_shutdown_ok)

lemma activate_all_ok: "activateIdleEndpoints fab now s = (Ret (), s') \<Longrightarrow> initiator_ok s \<Longrightarrow> initiator_ok s'"
  unfolding activateIdleEndpoints_def by (erule on_targets_ok) (auto simp: on_endpoint_Ret intro: ie_activate_ok)

lemma terminate_all_ok: "initiator_ok s \<Longrightarrow> initiator_ok (terminate_all s)"
  by (auto simp: initiator_ok_def terminate_all_def comp_def split_beta intro: ie_terminate_ok)

lemma evict_ok: "initiator_ok s \<Longrightarrow> initiator_ok (evictDeadEndpoints s)"
  by (auto simp: initiator_ok_def evictDeadEndpoints_def sorted_wrt_map intro: sorted_wrt_filter)

lemma pollCQ_ok: "pollCQ reads s = Some (r, s') \<Longrightarrow> initiator_ok s \<Longrightarrow> initiator_ok s'"
  by (induction reads s rule: pollCQ.induct)
     (auto simp: split: res.splits option.splits intro: terminate_all_ok
        dest: initiator_ok_target intro!: change_target_ok ie_consume_completion_ok)

lemma pollEQ_ok: "pollEQ fab now reads s = Some (Ret (), s') \<Longrightarrow> initiator_ok s \<Longrightarrow> initiator_ok s'"
proof (induction fab now reads s rule: pollEQ.induct)
  case (2 fab now r reads s)
  have step: "initiator_ok (s\<lparr>ri_targets := change_target k t' (ri_targets s)\<rparr>)"
    if "map_of (ri_targets s) k = Some t" "ie_consume_event fab now ev t = (Ret (), t')" for k ev t t'
    by (rule change_target_ok [OF "2.prems"(2) ie_consume_event_ok [OF that(2) initiator_ok_target [OF "2.prems"(2) that(1)]]])
  show ?case
    using "2.prems" step by (auto split: res.splits option.splits prod.splits dest: "2.IH")
qed simp

lemma then_do_Ret: "then_do m f = Some (Ret x, s') \<longleftrightarrow> (\<exists>y s. m = Some (Ret y, s) \<and> f s = Some (Ret x, s'))"
  by (auto simp: then_do_def split: option.splits prod.splits res.splits)

lemma makeProgress_ok: "makeProgress r s = Some (Ret x, s') \<Longrightarrow> initiator_ok s \<Longrightarrow> initiator_ok s'"
  by (auto simp: makeProgress_def then_do_Ret Let_def split: if_splits intro: evict_ok dest!: activate_all_ok pollCQ_ok pollEQ_ok)

lemma blockOnCQ_ok:
  assumes "blockOnCQ r cq timeout s = Some (Ret x, s')" "initiator_ok s"
  shows "initiator_ok s'"
proof -
  have "initiator_ok (s\<lparr>ri_targets := change_target k (ie_consume_completion c t) (ri_targets s)\<rparr>)"
    if "map_of (ri_targets s) k = Some t" for k c t
    by (rule change_target_ok [OF assms(2) ie_consume_completion_ok [OF initiator_ok_target [OF assms(2) that]]])
  then show ?thesis
    using assms
    by (auto simp: blockOnCQ_def Let_def split: if_splits option.splits prod.splits res.splits intro: terminate_all_ok dest: makeProgress_ok)
qed

lemma progress_rounds_ok: "progress_rounds deadline rounds s = Some (Ret x, s') \<Longrightarrow> initiator_ok s \<Longrightarrow> initiator_ok s'"
proof (induction deadline rounds s rule: progress_rounds.induct)
  case (2 deadline b rounds s)
  obtain result s1 where first: "makeProgress (br_progress b) s = Some (Ret result, s1)" "initiator_ok s1"
    using "2.prems" by (auto split: option.splits prod.splits res.splits dest: makeProgress_ok)
  show ?case
  proof (cases "result = Ready \<or> to_millis (deadline - br_now b) \<le> 0")
    case True
    then show ?thesis
      using "2.prems" first by (auto simp: Let_def split: if_splits)
  next
    case False
    then show ?thesis
      using "2.prems" first 2(1) [OF first(1) refl refl]
      by (auto simp: Let_def split: option.splits prod.splits res.splits if_splits dest: blockOnCQ_ok)
  qed
qed simp

lemma makeProgressBlocking_ok: "makeProgressBlocking now timeout rounds s = Some (Ret x, s') \<Longrightarrow> initiator_ok s \<Longrightarrow> initiator_ok s'"
  by (auto simp: makeProgressBlocking_def simp del: progress_rounds.simps split: list.splits if_splits option.splits prod.splits res.splits
      dest: makeProgress_ok blockOnCQ_ok progress_rounds_ok)

text \<open>The states that an initiator reaches by operations that return.\<close>

inductive initiator_reach :: "RCInitiator \<Rightarrow> bool" where
  reach_setup: "initiator_reach \<lparr>ri_domain = regs, ri_proto = proto, ri_targets = [], ri_sender = sender0\<rparr>"
| reach_add: "initiator_reach s'"
    if "initiator_reach s" "RCInitiator_addTarget fab register header_at epid info s = (Ret (), s')"
| reach_remove: "initiator_reach s'"
    if "initiator_reach s" "RCInitiator_removeTarget fab info s = (Ret (), s')"
| reach_grain: "initiator_reach s'"
    if "initiator_reach s" "RCInitiator_transferGrain tx grainIndex startSlice endSlice s = (Ret (), s')"
| reach_grain_to: "initiator_reach s'"
    if "initiator_reach s" "RCInitiator_transferGrainToTarget tx k li ri off startSlice endSlice s = (Ret (), s')"
| reach_samples: "initiator_reach s'"
    if "initiator_reach s" "RCInitiator_transferSamples tx head_index n s = (Ret (), s')"
| reach_shutdown: "initiator_reach s'"
    if "initiator_reach s" "RCInitiator_shutdown fab s = (Ret (), s')"
| reach_progress: "initiator_reach s'"
    if "initiator_reach s" "makeProgress r s = Some (Ret x, s')"
| reach_blocking: "initiator_reach s'"
    if "initiator_reach s" "makeProgressBlocking now timeout rounds s = Some (Ret x, s')"
| reach_memory: "initiator_reach (s\<lparr>ri_sender := sender0\<rparr>)"
    if "initiator_reach s"

text \<open>
  As long as its operations return, every target of an initiator has an endpoint of its own that is open and, once it
  connects, bound to the queues.
\<close>

lemma reach_ok: "initiator_reach s \<Longrightarrow> initiator_ok s"
proof (induction rule: initiator_reach.induct)
  case (reach_setup regs proto sender0)
  then show ?case
    by (simp add: initiator_ok_def)
qed (auto intro: RCInitiator_addTarget_ok RCInitiator_removeTarget_ok RCInitiator_transfer_ok RCInitiator_shutdown_ok
    makeProgress_ok makeProgressBlocking_ok)

section \<open>A shutdown comes to its end\<close>

text \<open>A queue drains when its reads give entries up to the one that finds nothing.\<close>

fun drains :: "('r \<Rightarrow> 'e option res) \<Rightarrow> 'r list \<Rightarrow> bool" where
  "drains entry [] \<longleftrightarrow> False"
| "drains entry (r # reads) \<longleftrightarrow> entry r = Ret None \<or> (\<exists>x. entry r = Ret (Some x)) \<and> drains entry reads"

definition closing :: "RCInitiatorEndpoint \<Rightarrow> bool" where
  "closing t \<longleftrightarrow> (case ie_state t of Flushing _ _ \<Rightarrow> True | Done \<Rightarrow> True | _ \<Rightarrow> False)"

definition all_targets :: "(RCInitiatorEndpoint \<Rightarrow> bool) \<Rightarrow> RCInitiator \<Rightarrow> bool" where
  "all_targets P s \<longleftrightarrow> (\<forall>(k, t) \<in> set (ri_targets s). P t)"

lemma all_targets_change:
  "all_targets P s \<Longrightarrow> P t \<Longrightarrow> all_targets P (s\<lparr>ri_targets := change_target k t (ri_targets s)\<rparr>)"
  using change_target_set [of k t "ri_targets s"] by (auto simp: all_targets_def)

lemma all_targets_found: "all_targets P s \<Longrightarrow> map_of (ri_targets s) k = Some t \<Longrightarrow> P t"
  by (auto simp: all_targets_def dest!: map_of_SomeD)

lemma shutdown_returns:
  assumes "initiator_ok s" "\<And>k. k \<in> fst ` set (ri_targets s) \<Longrightarrow> fab Call_shutdown k \<ge> 0"
  shows "\<exists>s'. RCInitiator_shutdown fab s = (Ret (), s') \<and> all_targets closing s' \<and> map fst (ri_targets s') = map fst (ri_targets s)"
proof -
  have "fst (each_target (on_endpoint (ie_shutdown fab)) (ts, a)) = Ret ()"
    if "\<forall>(k, t) \<in> set ts. target_ok k t \<and> fab Call_shutdown k \<ge> 0" for ts and a :: sender
    using that
  proof (induction ts arbitrary: a)
    case (Cons kt ts)
    obtain k t where kt: "kt = (k, t)"
      by fastforce
    obtain t' where "ie_shutdown fab t = (Ret (), t')"
      using Cons.prems ie_shutdown_returns [of k t fab] by (cases "ie_shutdown fab t") (auto simp: kt)
    then show ?case
      using Cons.IH [of a] Cons.prems by (auto simp: kt on_endpoint_def split: prod.splits)
  qed simp
  moreover have "\<forall>(k, t) \<in> set (ri_targets s). target_ok k t \<and> fab Call_shutdown k \<ge> 0"
    using assms by (auto simp: initiator_ok_def rev_image_eqI)
  ultimately have "fst (each_target (on_endpoint (ie_shutdown fab)) (ri_targets s, ri_sender s)) = Ret ()"
    by blast
  then have "fst (RCInitiator_shutdown fab s) = Ret ()"
    by (simp add: RCInitiator_shutdown_def on_targets_def split_beta)
  then obtain s' where s': "RCInitiator_shutdown fab s = (Ret (), s')"
    by (metis prod.collapse)
  then have "on_targets (on_endpoint (ie_shutdown fab)) s = (Ret (), s')"
    by (simp add: RCInitiator_shutdown_def)
  note all = on_targets_all [OF this]
  have "closing t'" if kt: "(k, t') \<in> set (ri_targets s')" for k t'
  proof -
    obtain t where "(k, t) \<in> set (ri_targets s)" "ie_shutdown fab t = (Ret (), t')"
      using all(2) [OF kt] by (auto simp: on_endpoint_Ret)
    moreover from this have "target_ok k t"
      using assms(1) by (auto simp: initiator_ok_def)
    ultimately show ?thesis
      using ie_shutdown_ok(2) by (fastforce simp: closing_def)
  qed
  then have "map fst (ri_targets s') = map fst (ri_targets s)" "all_targets closing s'"
    using all(1) by (auto simp: all_targets_def)
  then show ?thesis
    using s' by blast
qed

lemma closing_activate: "closing t \<Longrightarrow> ie_activate fab now t = (Ret (), t)"
  by (auto simp: closing_def ie_activate_def split: RCState.splits)

lemma activate_closing: "all_targets closing s \<Longrightarrow> activateIdleEndpoints fab now s = (Ret (), s)"
proof -
  have "\<forall>(k, t) \<in> set ts. closing t \<Longrightarrow> each_target (on_endpoint (ie_activate fab now)) (ts, a) = (Ret (), ts, a)" for ts and a :: sender
    by (induction ts arbitrary: a) (auto simp: on_endpoint_def closing_activate)
  then show "all_targets closing s \<Longrightarrow> activateIdleEndpoints fab now s = (Ret (), s)"
    by (simp add: activateIdleEndpoints_def on_targets_def all_targets_def)
qed

lemma closing_completion: "closing t \<Longrightarrow> closing (ie_consume_completion c t)"
  by (cases c) (auto simp: closing_def ie_consume_completion_def handleCompletionData_def split: RCState.splits)

lemma closing_terminate: "closing t \<Longrightarrow> canEvict (ie_terminate t)"
  by (auto simp: closing_def canEvict_def ie_terminate_def split: RCState.splits)

lemma evictable_event: "canEvict t \<Longrightarrow> ie_consume_event fab now ev t = (Ret (), t)"
  by (auto simp: canEvict_def ie_consume_event_def split: RCState.splits)

lemma pollCQ_flushes:
  "drains cq_handleReadResult reads \<Longrightarrow> all_targets closing s \<Longrightarrow> \<exists>s'. pollCQ reads s = Some (Ret (), s') \<and> all_targets canEvict s'"
proof (induction reads s rule: pollCQ.induct)
  case (2 r reads s)
  have "all_targets canEvict (terminate_all s)"
    using "2.prems"(2) by (auto simp: all_targets_def terminate_all_def closing_terminate)
  moreover have "all_targets closing (s\<lparr>ri_targets := change_target k (ie_consume_completion c t) (ri_targets s)\<rparr>)"
    if "map_of (ri_targets s) k = Some t" for k c t
    using "2.prems"(2) that by (auto intro!: all_targets_change closing_completion dest: all_targets_found)
  ultimately show ?case
    using 2 by (auto split: option.splits)
qed simp

lemma pollEQ_evictable:
  "drains eq_handleReadResult reads \<Longrightarrow> all_targets canEvict s \<Longrightarrow> \<exists>s'. pollEQ fab now reads s = Some (Ret (), s') \<and> all_targets canEvict s'"
proof (induction fab now reads s rule: pollEQ.induct)
  case (2 fab now r reads s)
  have "all_targets canEvict (s\<lparr>ri_targets := change_target k t (ri_targets s)\<rparr>)" "ie_consume_event fab now ev t = (Ret (), t)"
    if "map_of (ri_targets s) k = Some t" for k t ev
    using all_targets_found [OF "2.prems"(2) that] "2.prems"(2) by (auto intro: all_targets_change evictable_event)
  then show ?case
    using 2 by (auto split: option.splits)
qed simp

lemma closing_progress:
  assumes "all_targets closing s" "ri_targets s \<noteq> []" "drains cq_handleReadResult (pr_cq r)" "drains eq_handleReadResult (pr_eq r)"
  shows "\<exists>s'. makeProgress r s = Some (Ret Ready, s') \<and> ri_targets s' = []"
proof -
  obtain s1 where s1: "pollCQ (pr_cq r) s = Some (Ret (), s1)" "all_targets canEvict s1"
    using pollCQ_flushes assms by blast
  obtain s2 where s2: "pollEQ (pr_fabric r) (pr_now r) (pr_eq r) s1 = Some (Ret (), s2)" "all_targets canEvict s2"
    using pollEQ_evictable assms s1 by blast
  have "ri_targets (evictDeadEndpoints s2) = []"
    using s2(2) by (auto simp: evictDeadEndpoints_def all_targets_def filter_empty_conv)
  then show ?thesis
    using assms(2) s1(1) s2(1)
    by (simp add: makeProgress_def hasTarget_def activate_closing [OF assms(1)] then_do_def Let_def afterProgressResult_def)
qed


text \<open>
  The blocking call without a time to wait is not the same as \<open>makeProgress\<close>: it progresses twice, and the second time, with the last
  target gone, it throws.
\<close>

lemma shutdown_blocking_throws:
  assumes "all_targets closing s" "ri_targets s \<noteq> []"
    and "drains cq_handleReadResult (pr_cq (br_progress b))" "drains eq_handleReadResult (pr_eq (br_progress b))"
  shows "\<exists>s'. makeProgressBlocking now 0 (b # rounds) s = Some (Throw (OfiException MXL_ERR_INTERRUPTED), s')"
  using closing_progress [OF assms]
  by (auto simp: makeProgressBlocking_def blockOnCQ_def EQPollInterval_def NANOS_PER_MILLI_def makeProgress_def [of "br_again b"] hasTarget_def)

definition example_initiator :: RCInitiator where
  "example_initiator = \<lparr>ri_domain = [],
     ri_proto = GrainTemplate \<lparr>gt_layout = \<lparr>dl_sliceSizes = [2], dl_totalSlices = 4\<rparr>, gt_regions = [], gt_localRegions = Some []\<rparr>,
     ri_targets = [], ri_sender = \<lparr>sn_memory = (\<lambda>_. 0), sn_posted = []\<rparr>\<rparr>"

definition example_with_target :: RCInitiator where
  "example_with_target = snd (RCInitiator_addTarget (\<lambda>_ _. 0) (\<lambda>_ _. (0, 0, 0)) (\<lambda>_. 0) 5 example_target_info example_initiator)"

lemmas example_target_defs = example_initiator_def RCInitiator_addTarget_def Endpoint_create_def fiCall_def et_createInstance_def
  gt_createInstance_def return_act_def

lemma example_target_added:
  "RCInitiator_addTarget (\<lambda>_ _. 0) (\<lambda>_ _. (0, 0, 0)) (\<lambda>_. 0) 5 example_target_info example_initiator = (Ret (), example_with_target)"
  "map fst (ri_targets example_with_target) = [5]"
  by (simp_all add: example_with_target_def example_target_defs)

lemma example_reached: "initiator_reach example_with_target"
  by (rule reach_add [OF _ example_target_added(1)]) (simp add: example_initiator_def reach_setup)

text \<open>The queues still hold a completion and an event.\<close>

definition example_round :: progress_round where
  "example_round = \<lparr>pr_now = 0, pr_fabric = (\<lambda>_ _. 0),
     pr_cq = [\<lparr>cr_ret = 1, cr_entry = \<lparr>co_token = 5, co_remoteCqData = False, co_data = 0\<rparr>, cr_error = 0\<rparr>,
              \<lparr>cr_ret = - FI_EAGAIN, cr_entry = \<lparr>co_token = 0, co_remoteCqData = False, co_data = 0\<rparr>, cr_error = 0\<rparr>],
     pr_eq = [\<lparr>er_ret = 1, er_type = FI_SHUTDOWN, er_fid = 5, er_error = (0, 0, 0)\<rparr>,
              \<lparr>er_ret = - FI_EAGAIN, er_type = FI_SHUTDOWN, er_fid = 0, er_error = (0, 0, 0)\<rparr>]\<rparr>"


end
