(* ===== verification/FabricTarget.thy ===== *)
theory FabricTarget
  imports FabricEndpoint
begin

text \<open>
  The receiving side of the fabrics: \<^verbatim>\<open>RCTarget.cpp\<close>, which waits for a connection and serves it until the other side
  closes it, and \<^verbatim>\<open>RDMTarget.cpp\<close>, which has no connections.
\<close>

section \<open>The protocol of a target\<close>

fun ig_start :: "bool \<Rightarrow> int \<Rightarrow> IngressProtocol \<Rightarrow> unit res \<times> IngressProtocol" where
  "ig_start usingRecvBufForCqData recv (GrainIngress p) =
     (case gi_start usingRecvBufForCqData recv p of (r, p') \<Rightarrow> (r, GrainIngress p'))"
| "ig_start usingRecvBufForCqData recv (SampleIngress p) =
     (case si_start usingRecvBufForCqData recv p of (r, p') \<Rightarrow> (r, SampleIngress p'))"

fun ig_read :: "IngressProtocol \<Rightarrow> int \<Rightarrow> Completion \<Rightarrow> (memory, ReadResult option) act" where
  "ig_read (GrainIngress p) recv completion = gi_read p recv completion"
| "ig_read (SampleIngress p) recv completion = si_read p recv completion"

section \<open>Reading with or without waiting\<close>

text \<open>
  What one read of a target meets: the time to wait, if it may wait, and what it then sees of the queues, libfabric,
  the address of a peer that asks for a connection, and the identifier for a new listener.
\<close>

record target_read =
  tg_timeout :: "int option"
  tg_now :: int
  tg_rounds :: "queue_round list"
  tg_fabric :: fabric
  tg_fi_code :: "FabricAddressFormat \<Rightarrow> u32"
  tg_peer :: "u32 \<times> u8 list option"
  tg_usingRecvBufForCqData :: bool
  tg_recv :: int
  tg_newId :: u64

definition readEndpointQueues :: "target_read \<Rightarrow> Endpoint \<Rightarrow> (Completion option \<times> Event option) res option" where
  "readEndpointQueues tg ep =
     (case tg_timeout tg of
        Some timeout \<Rightarrow> Endpoint_readQueuesBlocking (tg_now tg) (tg_rounds tg) timeout ep
      | None \<Rightarrow> (case tg_rounds tg of [] \<Rightarrow> None | r # _ \<Rightarrow> Some (Endpoint_readQueues (qr_cq r) (qr_eq r) ep)))"

definition readEventQueue :: "target_read \<Rightarrow> Event option res option" where
  "readEventQueue tg =
     (case tg_rounds tg of
        [] \<Rightarrow> None
      | r # _ \<Rightarrow> Some (case tg_timeout tg of Some timeout \<Rightarrow> EventQueue_readBlocking (qr_eq r) timeout | None \<Rightarrow> EventQueue_read (qr_eq r)))"

definition readCompletionQueue :: "target_read \<Rightarrow> Completion option res option" where
  "readCompletionQueue tg =
     (case tg_rounds tg of
        [] \<Rightarrow> None
      | r # _ \<Rightarrow> Some (case tg_timeout tg of
                       Some timeout \<Rightarrow> CompletionQueue_readBlocking (qr_cq r) timeout
                     | None \<Rightarrow> CompletionQueue_read (qr_cq r)))"

section \<open>Targets with connections\<close>

datatype RCTargetState = WaitForConnectionRequest PassiveEndpoint | WaitForConnection Endpoint | TargetConnected Endpoint

record RCTarget =
  rt_proto :: IngressProtocol
  rt_state :: RCTargetState
  rt_cqDepth :: "u64 option"

definition RCTarget_ctor :: "PassiveEndpoint \<Rightarrow> IngressProtocol \<Rightarrow> u64 option \<Rightarrow> RCTarget" where
  "RCTarget_ctor pep proto cqDepth = \<lparr>rt_proto = proto, rt_state = WaitForConnectionRequest pep, rt_cqDepth = cqDepth\<rparr>"

definition makeListener :: "fabric \<Rightarrow> u64 \<Rightarrow> PassiveEndpoint res" where
  "makeListener fab newId =
     bind_res (PassiveEndpoint_create fab newId) (\<lambda>pep.
     bind_res (fiCall (fab Call_eq_open newId)) (\<lambda>_.
     bind_res (PassiveEndpoint_bind fab pep) (\<lambda>pep.
     bind_res (PassiveEndpoint_listen fab pep) (\<lambda>_. Ret pep))))"

text \<open>
  The end of a handler: an interruption keeps a state and is a result; any other exception leaves the state with
  the endpoint that the handler has moved out of it.
\<close>

definition handler_end ::
  "RCTarget \<Rightarrow> RCTargetState \<Rightarrow> RCTargetState \<Rightarrow> (RCTargetState \<times> ReadResult option) res \<Rightarrow> ReadResult option res \<times> RCTarget" where
  "handler_end t kept lost r =
     (case r of
        Ret (st, result) \<Rightarrow> (Ret result, t\<lparr>rt_state := st\<rparr>)
      | Throw e \<Rightarrow> if isInterrupted e then (Ret (Some Interrupted), t\<lparr>rt_state := kept\<rparr>) else (Throw e, t\<lparr>rt_state := lost\<rparr>)
      | Undef \<Rightarrow> (Undef, t\<lparr>rt_state := lost\<rparr>))"

definition accept_connection :: "target_read \<Rightarrow> u64 option \<Rightarrow> PassiveEndpoint \<Rightarrow> Endpoint res" where
  "accept_connection tg cqDepth pep =
     (let fab = tg_fabric tg;
          cqAttr = CompletionQueue_Attributes_defaults\<lparr>ca_size := (case cqDepth of Some n \<Rightarrow> n | None \<Rightarrow> CQ_DEFAULT_SIZE)\<rparr>
      in bind_res (fromDestination (tg_fi_code tg) (fst (tg_peer tg)) (snd (tg_peer tg))) (\<lambda>_.
         bind_res (fiCall (fab (Call_cq_open cqAttr) (pe_id pep))) (\<lambda>_.
         bind_res (Endpoint_create fab (pe_id pep)) (\<lambda>ep.
         bind_res (Endpoint_bind_cq fab ep) (\<lambda>ep.
         bind_res (fiCall (fab Call_eq_open (pe_id pep))) (\<lambda>_.
         bind_res (Endpoint_bind_eq fab ep) (\<lambda>ep.
         bind_res (Endpoint_accept fab ep) (\<lambda>_. Ret ep))))))))"

definition wait_request :: "target_read \<Rightarrow> PassiveEndpoint \<Rightarrow> RCTarget \<Rightarrow> (ReadResult option res \<times> RCTarget) option" where
  "wait_request tg pep t =
     map_option (\<lambda>event.
       handler_end t (WaitForConnectionRequest pep) (WaitForConnectionRequest (pep_moved pep))
         (bind_res (pep_eventQueue pep) (\<lambda>_.
          bind_res event (\<lambda>event.
            case event of
              Some e \<Rightarrow> if isConnReq e then map_ret (\<lambda>ep. (WaitForConnection ep, None)) (accept_connection tg (rt_cqDepth t) pep)
                        else Ret (WaitForConnectionRequest pep, None)
            | None \<Rightarrow> Ret (WaitForConnectionRequest pep, None)))))
       (readEventQueue tg)"

text \<open>The endpoint is moved into the new state before the protocol starts.\<close>

definition wait_connected :: "target_read \<Rightarrow> Endpoint \<Rightarrow> RCTarget \<Rightarrow> (ReadResult option res \<times> RCTarget) option" where
  "wait_connected tg ep t =
     map_option (\<lambda>event.
       case bind_res (endpoint_eventQueue ep) (\<lambda>_. event) of
         Ret (Some e) \<Rightarrow>
           if isConnected e then
             (case ig_start (tg_usingRecvBufForCqData tg) (tg_recv tg) (rt_proto t) of
                (r, proto) \<Rightarrow>
                  handler_end (t\<lparr>rt_proto := proto\<rparr>) (WaitForConnection (moved ep)) (WaitForConnection (moved ep))
                    (map_ret (\<lambda>_. (TargetConnected ep, None)) r))
           else (Ret None, t)
       | Ret None \<Rightarrow> (Ret None, t)
       | Throw e \<Rightarrow> handler_end t (WaitForConnection ep) (WaitForConnection (moved ep)) (Throw e)
       | Undef \<Rightarrow> handler_end t (WaitForConnection ep) (WaitForConnection (moved ep)) Undef)
       (readEventQueue tg)"

text \<open>A shutdown event wins over a completion that was read with it.\<close>

definition serve ::
  "target_read \<Rightarrow> Endpoint \<Rightarrow> RCTarget \<times> memory \<Rightarrow> (ReadResult option res \<times> RCTarget \<times> memory) option" where
  "serve tg ep = (\<lambda>(t, mem).
     map_option (\<lambda>queues.
       case queues of
         Ret (completion, event) \<Rightarrow>
           if (case event of Some e \<Rightarrow> isShutdown e | None \<Rightarrow> False) then
             (case handler_end t (TargetConnected ep) (TargetConnected (moved ep))
                     (map_ret (\<lambda>pep. (WaitForConnectionRequest pep, None)) (makeListener (tg_fabric tg) (tg_newId tg))) of
                (r, t') \<Rightarrow> (r, t', mem))
           else (case completion of
               None \<Rightarrow> (Ret None, t, mem)
             | Some c \<Rightarrow>
                 (case ig_read (rt_proto t) (tg_recv tg) c mem of
                    (r, mem') \<Rightarrow>
                      (case handler_end t (TargetConnected ep) (TargetConnected (moved ep)) (map_ret (Pair (TargetConnected ep)) r) of
                         (r', t') \<Rightarrow> (r', t', mem'))))
       | Throw e \<Rightarrow> (case handler_end t (TargetConnected ep) (TargetConnected (moved ep)) (Throw e) of (r, t') \<Rightarrow> (r, t', mem))
       | Undef \<Rightarrow> (Undef, t\<lparr>rt_state := TargetConnected (moved ep)\<rparr>, mem))
       (readEndpointQueues tg ep))"

definition RCTarget_readNext ::
  "target_read \<Rightarrow> RCTarget \<times> memory \<Rightarrow> (ReadResult option res \<times> RCTarget \<times> memory) option" where
  "RCTarget_readNext tg = (\<lambda>(t, mem).
     case rt_state t of
       WaitForConnectionRequest pep \<Rightarrow> map_option (\<lambda>(r, t'). (r, t', mem)) (wait_request tg pep t)
     | WaitForConnection ep \<Rightarrow> map_option (\<lambda>(r, t'). (r, t', mem)) (wait_connected tg ep t)
     | TargetConnected ep \<Rightarrow> serve tg ep (t, mem))"

definition RCTarget_read :: "target_read \<Rightarrow> RCTarget \<times> memory \<Rightarrow> (ReadResult option res \<times> RCTarget \<times> memory) option" where
  "RCTarget_read tg = RCTarget_readNext (tg\<lparr>tg_timeout := None\<rparr>)"

definition RCTarget_readBlocking :: "int \<Rightarrow> target_read \<Rightarrow> RCTarget \<times> memory \<Rightarrow> (ReadResult option res \<times> RCTarget \<times> memory) option" where
  "RCTarget_readBlocking timeout tg = RCTarget_readNext (tg\<lparr>tg_timeout := Some timeout\<rparr>)"

section \<open>Targets without connections\<close>

record RDMTarget =
  dt_ep :: Endpoint
  dt_protocol :: IngressProtocol

definition RDMTarget_readNext ::
  "target_read \<Rightarrow> RDMTarget \<Rightarrow> memory \<Rightarrow> (ReadResult option res \<times> memory) option" where
  "RDMTarget_readNext tg t mem =
     map_option (\<lambda>completion.
       case (case bind_res (endpoint_completionQueue (dt_ep t)) (\<lambda>_. completion) of
               Ret (Some c) \<Rightarrow> ig_read (dt_protocol t) (tg_recv tg) c mem
             | Ret None \<Rightarrow> (Ret None, mem)
             | Throw e \<Rightarrow> (Throw e, mem)
             | Undef \<Rightarrow> (Undef, mem)) of
         (Throw e, mem') \<Rightarrow> if isInterrupted e then (Ret (Some Interrupted), mem') else (Throw e, mem')
       | (r, mem') \<Rightarrow> (r, mem'))
       (readCompletionQueue tg)"

definition RDMTarget_read :: "target_read \<Rightarrow> RDMTarget \<Rightarrow> memory \<Rightarrow> (ReadResult option res \<times> memory) option" where
  "RDMTarget_read tg = RDMTarget_readNext (tg\<lparr>tg_timeout := None\<rparr>)"

definition RDMTarget_readBlocking :: "int \<Rightarrow> target_read \<Rightarrow> RDMTarget \<Rightarrow> memory \<Rightarrow> (ReadResult option res \<times> memory) option" where
  "RDMTarget_readBlocking timeout tg = RDMTarget_readNext (tg\<lparr>tg_timeout := Some timeout\<rparr>)"

end
