(* ===== verification/FabricTargetProofs.thy ===== *)
theory FabricTargetProofs
  imports FabricTarget
begin

text \<open>
  What a target promises: in every state that it reaches its endpoint is open and has its queues, media comes only over
  an established connection, and the connection follows its protocol.
\<close>

section \<open>The endpoint of a target\<close>

fun rc_state_ok :: "RCTargetState \<Rightarrow> bool" where
  "rc_state_ok (WaitForConnectionRequest pep) \<longleftrightarrow> pe_open pep \<and> pe_eq pep"
| "rc_state_ok (WaitForConnection ep) \<longleftrightarrow> ep_open ep \<and> ep_cq ep \<and> ep_eq ep"
| "rc_state_ok (TargetConnected ep) \<longleftrightarrow> ep_open ep \<and> ep_cq ep \<and> ep_eq ep"

fun follows :: "RCTargetState \<Rightarrow> RCTargetState \<Rightarrow> bool" where
  "follows (WaitForConnectionRequest pep) st \<longleftrightarrow> st = WaitForConnectionRequest pep \<or> (\<exists>ep. st = WaitForConnection ep \<and> ep_id ep = pe_id pep)"
| "follows (WaitForConnection ep) st \<longleftrightarrow> st = WaitForConnection ep \<or> st = TargetConnected ep"
| "follows (TargetConnected ep) st \<longleftrightarrow> st = TargetConnected ep \<or> (\<exists>pep. st = WaitForConnectionRequest pep)"

text \<open>The receive buffer cannot be posted because a signal arrives.\<close>

definition start_interrupted :: "target_read \<Rightarrow> bool" where
  "start_interrupted tg \<longleftrightarrow> tg_usingRecvBufForCqData tg \<and> tg_recv tg = - FI_EINTR"

lemma makeListener_ok: "makeListener fab k = Ret pep \<Longrightarrow> pe_open pep \<and> pe_eq pep"
  by (auto simp: makeListener_def bind_res_Ret_iff PassiveEndpoint_create_def PassiveEndpoint_bind_def map_ret_Ret_iff)

lemma accept_connection_ok:
  "accept_connection tg cqDepth pep = Ret ep \<Longrightarrow> ep_open ep \<and> ep_cq ep \<and> ep_eq ep \<and> ep_id ep = pe_id pep"
  by (auto simp: accept_connection_def Let_def bind_res_Ret_iff Endpoint_create_def Endpoint_bind_cq_def Endpoint_bind_eq_def map_ret_Ret_iff)

lemma handler_end_Ret:
  assumes "handler_end t kept lost r = (Ret x, t')"
  shows "(\<exists>st. r = Ret (st, x) \<and> t' = t\<lparr>rt_state := st\<rparr>) \<or> (\<exists>e. r = Throw e \<and> x = Some Interrupted \<and> t' = t\<lparr>rt_state := kept\<rparr>)"
  using assms by (auto simp: handler_end_def split: res.splits if_splits)

lemma wait_request_Ret:
  assumes "wait_request tg pep t = Some (Ret x, t')" "rt_state t = WaitForConnectionRequest pep" "pe_open pep" "pe_eq pep"
  shows "rc_state_ok (rt_state t')" "follows (rt_state t) (rt_state t')" "x = None \<or> x = Some Interrupted"
proof -
  obtain event where ev: "readEventQueue tg = Some event"
    using assms(1) by (auto simp: wait_request_def)
  have q: "pep_eventQueue pep = Ret ()"
    using assms(3,4) by (simp add: pep_eventQueue_def)
  have "rc_state_ok (rt_state t') \<and> follows (rt_state t) (rt_state t') \<and> (x = None \<or> x = Some Interrupted)"
  proof (cases "\<exists>e. event = Ret (Some e) \<and> isConnReq e")
    case True
    then show ?thesis
      using assms ev q by (auto simp: wait_request_def map_ret_Ret_iff dest!: handler_end_Ret accept_connection_ok)
  next
    case False
    then show ?thesis
      using assms ev q by (cases event) (auto simp: wait_request_def split: option.splits dest!: handler_end_Ret)
  qed
  then show "rc_state_ok (rt_state t')" "follows (rt_state t) (rt_state t')" "x = None \<or> x = Some Interrupted"
    by blast+
qed

lemma ig_start_Ret: "fst (ig_start b recv p) = (if b then endpoint_recv recv else Ret ())"
  by (cases p) (auto simp: gi_start_def si_start_def split: prod.splits)

lemma endpoint_recv_interrupted: "endpoint_recv recv = Throw e \<Longrightarrow> isInterrupted e \<Longrightarrow> recv = - FI_EINTR"
  by (auto simp: endpoint_recv_def fiCall_def FabricException_make_def isInterrupted_def split: if_splits)

lemma wait_connected_Ret:
  assumes "wait_connected tg ep t = Some (Ret x, t')" "rt_state t = WaitForConnection ep" "rc_state_ok (rt_state t)" "\<not> start_interrupted tg"
  shows "rc_state_ok (rt_state t')" "follows (rt_state t) (rt_state t')" "x = None \<or> x = Some Interrupted"
proof -
  obtain event where ev: "readEventQueue tg = Some event"
    using assms(1) by (auto simp: wait_connected_def)
  have q: "endpoint_eventQueue ep = Ret ()"
    using assms(2,3) by (simp add: endpoint_eventQueue_def)
  have "rc_state_ok (rt_state t') \<and> follows (rt_state t) (rt_state t') \<and> (x = None \<or> x = Some Interrupted)"
  proof (cases "\<exists>e. event = Ret (Some e) \<and> isConnected e")
    case True
    then obtain proto r where "ig_start (tg_usingRecvBufForCqData tg) (tg_recv tg) (rt_proto t) = (r, proto)"
      and h: "handler_end (t\<lparr>rt_proto := proto\<rparr>) (WaitForConnection (moved ep)) (WaitForConnection (moved ep))
          (map_ret (\<lambda>_. (TargetConnected ep, None)) r) = (Ret x, t')"
      using assms(1) ev q by (auto simp: wait_connected_def split: prod.splits)
    then have r: "r = (if tg_usingRecvBufForCqData tg then endpoint_recv (tg_recv tg) else Ret ())"
      using ig_start_Ret by (metis fst_conv)
    have "\<not> (\<exists>e. r = Throw e \<and> isInterrupted e)"
      using assms(4) endpoint_recv_interrupted by (auto simp: r start_interrupted_def split: if_splits)
    then have "t' = t\<lparr>rt_proto := proto, rt_state := TargetConnected ep\<rparr> \<and> x = None"
      using h by (cases r) (auto simp: handler_end_def)
    then show ?thesis
      using assms(2,3) by simp
  next
    case False
    then show ?thesis
      using assms(1,2,3) ev q by (auto simp: wait_connected_def split: res.splits option.splits if_splits dest!: handler_end_Ret)
  qed
  then show "rc_state_ok (rt_state t')" "follows (rt_state t) (rt_state t')" "x = None \<or> x = Some Interrupted"
    by blast+
qed

lemma serve_Ret:
  assumes "serve tg ep (t, mem) = Some (Ret x, t', mem')" "rt_state t = TargetConnected ep" "rc_state_ok (rt_state t)"
  shows "rc_state_ok (rt_state t')" "follows (rt_state t) (rt_state t')"
proof -
  obtain queues where q: "readEndpointQueues tg ep = Some queues"
    using assms(1) by (auto simp: serve_def)
  have "rc_state_ok (rt_state t') \<and> follows (rt_state t) (rt_state t')"
  proof (cases queues)
    case (Ret p)
    obtain completion event where p: "p = (completion, event)"
      by fastforce
    show ?thesis
    proof (cases "\<exists>e. event = Some e \<and> isShutdown e")
      case True
      then show ?thesis
        using assms q Ret p by (auto simp: serve_def map_ret_Ret_iff split: prod.splits dest!: handler_end_Ret makeListener_ok)
    next
      case False
      then show ?thesis
        using assms q Ret p
        by (cases completion; cases event) (auto simp: serve_def map_ret_Ret_iff split: prod.splits dest!: handler_end_Ret)
    qed
  next
    case (Throw e)
    then show ?thesis
      using assms q by (auto simp: serve_def split: prod.splits dest!: handler_end_Ret)
  qed (use assms q in \<open>auto simp: serve_def\<close>)
  then show "rc_state_ok (rt_state t')" "follows (rt_state t) (rt_state t')"
    by blast+
qed

lemma readNext_Ret:
  assumes "RCTarget_readNext tg (t, mem) = Some (Ret x, t', mem')" "rc_state_ok (rt_state t)" "\<not> start_interrupted tg"
  shows "rc_state_ok (rt_state t')" "follows (rt_state t) (rt_state t')"
    "(\<exists>ep. rt_state t = TargetConnected ep) \<or> mem' = mem \<and> (x = None \<or> x = Some Interrupted)"
  using assms wait_request_Ret [of tg _ t x t'] wait_connected_Ret [of tg _ t x t'] serve_Ret [of tg _ t mem x t' mem']
  by (auto simp: RCTarget_readNext_def simp del: follows.simps split: RCTargetState.splits)

inductive target_reach :: "RCTarget \<times> memory \<Rightarrow> bool" where
  target_setup: "target_reach (RCTarget_ctor pep proto cqDepth, mem)"
    if "makeListener fab k = Ret pep"
| target_read: "target_reach (t', mem')"
    if "target_reach (t, mem)" "RCTarget_readNext tg (t, mem) = Some (Ret x, t', mem')" "\<not> start_interrupted tg"
| target_memory: "target_reach (t, mem')"
    if "target_reach (t, mem)"

lemma target_reach_ok: "target_reach y \<Longrightarrow> rc_state_ok (rt_state (fst y))"
  by (induction rule: target_reach.induct) (auto simp: RCTarget_ctor_def dest: makeListener_ok readNext_Ret(1))


definition example_listener :: PassiveEndpoint where
  "example_listener = \<lparr>pe_id = 9, pe_open = True, pe_eq = True\<rparr>"

definition example_rc_target :: RCTarget where
  "example_rc_target = RCTarget_ctor example_listener (GrainIngress (RMAGrainIngressProtocol_ctor [])) None"

definition empty_cq :: "read_call \<Rightarrow> cq_result" where
  "empty_cq c = \<lparr>cr_ret = - FI_EAGAIN, cr_entry = \<lparr>co_token = 0, co_remoteCqData = False, co_data = 0\<rparr>, cr_error = 0\<rparr>"

definition connection_request :: target_read where
  "connection_request = \<lparr>tg_timeout = None, tg_now = 0,
     tg_rounds = [\<lparr>qr_now = 0, qr_cq = empty_cq, qr_eq = (\<lambda>_. \<lparr>er_ret = 1, er_type = FI_CONNREQ, er_fid = 9, er_error = (0, 0, 0)\<rparr>)\<rparr>],
     tg_fabric = (\<lambda>_ _. 0), tg_fi_code = (\<lambda>f. if f = Format_SockaddrIn then 2 else 0), tg_peer = (2, None),
     tg_usingRecvBufForCqData = True, tg_recv = 0, tg_newId = 10\<rparr>"


section \<open>What a connected target does with the queues\<close>

text \<open>A completion is given to the protocol, with and without a connection.\<close>

lemma connected_read_completion:
  assumes "rt_state t = TargetConnected ep" "ep_open ep" "ep_cq ep" "ep_eq ep"
    and "tg_rounds tg = [r]" "CompletionQueue_read (qr_cq r) = Ret (Some c)" "EventQueue_read (qr_eq r) = Ret None"
    and "ig_read (rt_proto t) (tg_recv tg) c mem = (Ret x, mem')"
  shows "RCTarget_read tg (t, mem) = Some (Ret x, t, mem')"
  using assms
  by (simp add: RCTarget_read_def RCTarget_readNext_def serve_def readEndpointQueues_def Endpoint_readQueues_def handler_end_def)

lemma rdm_read_completion:
  assumes "ep_open (dt_ep t)" "ep_cq (dt_ep t)" "tg_rounds tg = [r]" "CompletionQueue_read (qr_cq r) = Ret (Some c)"
    and "ig_read (dt_protocol t) (tg_recv tg) c mem = (Ret x, mem')"
  shows "RDMTarget_read tg t mem = Some (Ret x, mem')"
  using assms by (simp add: RDMTarget_read_def RDMTarget_readNext_def readCompletionQueue_def endpoint_completionQueue_def)

text \<open>A completion that is read together with the end of the connection is lost: the media it announces is never reported.\<close>

lemma shutdown_drops_completion:
  assumes "rt_state t = TargetConnected ep" "ep_open ep" "ep_cq ep" "ep_eq ep"
    and "tg_rounds tg = [r]" "CompletionQueue_read (qr_cq r) = Ret (Some c)" "EventQueue_read (qr_eq r) = Ret (Some (ShutdownEvent k))"
    and "makeListener (tg_fabric tg) (tg_newId tg) = Ret pep"
  shows "RCTarget_read tg (t, mem) = Some (Ret None, t\<lparr>rt_state := WaitForConnectionRequest pep\<rparr>, mem)"
  using assms
  by (simp add: RCTarget_read_def RCTarget_readNext_def serve_def readEndpointQueues_def Endpoint_readQueues_def handler_end_def isShutdown_def)

text \<open>After an error other than an interruption the endpoint is gone: the next read works on null pointers.\<close>

lemma error_loses_endpoint:
  assumes "rt_state t = TargetConnected ep" "ep_open ep" "ep_cq ep" "ep_eq ep" "tg_rounds tg = [r]"
    and "CompletionQueue_read (qr_cq r) = Throw e" "\<not> isInterrupted e" and "tg_rounds tg' = [r']"
  shows "\<exists>t'. RCTarget_read tg (t, mem) = Some (Throw e, t', mem) \<and> (\<exists>y. RCTarget_read tg' (t', mem) = Some (Undef, y))"
  using assms
  by (simp add: RCTarget_read_def RCTarget_readNext_def serve_def readEndpointQueues_def Endpoint_readQueues_def handler_end_def moved_def)

text \<open>An interruption of the start of the protocol is reported as harmless, but the endpoint has been moved out of the state.\<close>

lemma interrupted_start_loses_endpoint:
  assumes "rt_state t = WaitForConnection ep" "ep_open ep" "ep_eq ep" "tg_rounds tg = [r]"
    and "EventQueue_read (qr_eq r) = Ret (Some (ConnectedEvent k))" "start_interrupted tg"
  shows "\<exists>t'. RCTarget_read tg (t, mem) = Some (Ret (Some Interrupted), t', mem) \<and> rt_state t' = WaitForConnection (moved ep)"
  using assms ig_start_Ret [of True "- FI_EINTR" "rt_proto t"]
  by (cases "ig_start True (- FI_EINTR) (rt_proto t)")
     (simp add: RCTarget_read_def RCTarget_readNext_def wait_connected_def readEventQueue_def endpoint_eventQueue_def isConnected_def
       start_interrupted_def handler_end_def endpoint_recv_def fiCall_def FabricException_make_def isInterrupted_def FI_EINTR_def)

end
