(* ===== verification/FabricRdmInitiator.thy ===== *)
theory FabricRdmInitiator
  imports FabricInitiator
begin

text \<open>
  The sending side of the fabrics without connections, \<^verbatim>\<open>RDMInitiator.cpp\<close>: one endpoint for all targets, whose
  completions are told apart by the token of a target.
\<close>

section \<open>A target\<close>

datatype RDMState = RIdle | RActivated u64 | RDone

record RDMInitiatorTarget =
  rm_state :: RDMState
  rm_proto :: EgressProtocol
  rm_remoteInfo :: TargetInfo

definition RDMInitiatorTarget_ctor :: "EgressProtocol \<Rightarrow> TargetInfo \<Rightarrow> RDMInitiatorTarget" where
  "RDMInitiatorTarget_ctor proto remoteInfo = \<lparr>rm_state = RIdle, rm_proto = proto, rm_remoteInfo = remoteInfo\<rparr>"

definition rm_isIdle :: "RDMInitiatorTarget \<Rightarrow> bool" where
  "rm_isIdle t \<longleftrightarrow> rm_state t = RIdle"

definition rm_activate :: "address_vector \<Rightarrow> Endpoint \<Rightarrow> (RDMInitiatorTarget, unit) act" where
  "rm_activate av ep t =
     (case rm_state t of
        RIdle \<Rightarrow>
          (case bind_res (endpoint_addressVector ep) (\<lambda>_. AddressVector_insert av (ti_fabricAddress (rm_remoteInfo t))) of
             Ret fiAddr \<Rightarrow> (Ret (), t\<lparr>rm_state := RActivated fiAddr\<rparr>)
           | Throw e \<Rightarrow> (Throw e, t)
           | Undef \<Rightarrow> (Undef, t))
      | RActivated fiAddr \<Rightarrow> (Ret (), t)
      | RDone \<Rightarrow> (Throw (OfiException MXL_ERR_INVALID_STATE), t))"

definition rm_shutdown :: "address_vector \<Rightarrow> Endpoint \<Rightarrow> (RDMInitiatorTarget, unit) act" where
  "rm_shutdown av ep t =
     (case rm_state t of
        RIdle \<Rightarrow> (Ret (), t\<lparr>rm_state := RDone\<rparr>)
      | RActivated fiAddr \<Rightarrow>
          (case bind_res (endpoint_addressVector ep) (\<lambda>_. AddressVector_remove av fiAddr) of
             Ret _ \<Rightarrow> (Ret (), t\<lparr>rm_state := RDone\<rparr>)
           | Throw e \<Rightarrow> (Throw e, t)
           | Undef \<Rightarrow> (Undef, t))
      | RDone \<Rightarrow> (Ret (), t))"

definition when_activated ::
  "Endpoint \<Rightarrow> (u64 \<Rightarrow> (EgressProtocol \<times> sender, unit) act) \<Rightarrow> (RDMInitiatorTarget \<times> sender, unit) act" where
  "when_activated ep m = (\<lambda>(t, s). case rm_state t of
       RActivated fiAddr \<Rightarrow>
         if \<not> ep_open ep then (Undef, t, s)
         else (case m fiAddr (rm_proto t, s) of (r, proto, s') \<Rightarrow> (r, t\<lparr>rm_proto := proto\<rparr>, s'))
     | _ \<Rightarrow> (Ret (), t, s))"

definition rm_transferGrain ::
  "transmit \<Rightarrow> Endpoint \<Rightarrow> u64 \<Rightarrow> u64 \<Rightarrow> u64 \<Rightarrow> SliceRange \<Rightarrow> (RDMInitiatorTarget \<times> sender, unit) act" where
  "rm_transferGrain tx ep localIndex remoteIndex remotePayloadOffset slices =
     when_activated ep (eg_transferGrain tx localIndex remoteIndex (ucast remotePayloadOffset) slices)"

definition rm_transferSamples :: "transmit \<Rightarrow> Endpoint \<Rightarrow> u64 \<Rightarrow> u64 \<Rightarrow> (RDMInitiatorTarget \<times> sender, unit) act" where
  "rm_transferSamples tx ep head_index n = when_activated ep (eg_transferSamples tx head_index n)"

definition rm_hasPendingWork :: "RDMInitiatorTarget \<Rightarrow> bool" where
  "rm_hasPendingWork t =
     (case rm_state t of RIdle \<Rightarrow> True | RActivated _ \<Rightarrow> eg_hasPendingWork (rm_proto t) | RDone \<Rightarrow> False)"

definition rm_handleCompletion :: "Completion \<Rightarrow> RDMInitiatorTarget \<Rightarrow> RDMInitiatorTarget" where
  "rm_handleCompletion completion t =
     (if tryErr completion \<noteq> None then t
      else case rm_state t of
        RActivated _ \<Rightarrow> t\<lparr>rm_proto := eg_processCompletion (rm_proto t)\<rparr>
      | _ \<Rightarrow> t)"

section \<open>The initiator\<close>

text \<open>The targets are in the order of their tokens; a second map goes from the identifier of a target to its token.\<close>

record RDMInitiator =
  rd_endpoint :: Endpoint
  rd_domain :: "RegisteredRegion list"
  rd_proto :: EgressProtocolTemplate
  rd_targets :: "(u64 \<times> RDMInitiatorTarget) list"
  rd_remoteEndpoints :: "(u64 \<times> u64) list"
  rd_sender :: sender

definition rd_on_targets :: "(RDMInitiatorTarget \<times> sender, unit) act \<Rightarrow> (RDMInitiator, unit) act" where
  "rd_on_targets op s =
     (case each_target op (rd_targets s, rd_sender s) of
        (r, targets, snd') \<Rightarrow> (r, s\<lparr>rd_targets := targets, rd_sender := snd'\<rparr>))"

definition findRemoteByToken :: "RDMInitiator \<Rightarrow> u64 \<Rightarrow> (u64 \<times> RDMInitiatorTarget) res" where
  "findRemoteByToken s token =
     (case map_of (rd_targets s) token of None \<Rightarrow> Throw (OfiException MXL_ERR_NOT_FOUND) | Some t \<Rightarrow> Ret (token, t))"

definition findRemoteByEndpoint :: "RDMInitiator \<Rightarrow> u64 \<Rightarrow> (u64 \<times> RDMInitiatorTarget) res" where
  "findRemoteByEndpoint s epid =
     (case map_of (rd_remoteEndpoints s) epid of None \<Rightarrow> Throw (OfiException MXL_ERR_NOT_FOUND) | Some token \<Rightarrow> findRemoteByToken s token)"

text \<open>\<open>token\<close> is what \<^verbatim>\<open>randomToken\<close> gives.\<close>

definition RDMInitiator_addTarget ::
  "registrar \<Rightarrow> (nat \<Rightarrow> u64) \<Rightarrow> u64 \<Rightarrow> TargetInfo \<Rightarrow> (RDMInitiator, unit) act" where
  "RDMInitiator_addTarget register header_at token targetInfo s =
     (if map_of (rd_remoteEndpoints s) (ti_id targetInfo) \<noteq> None then (Throw (OfiException MXL_ERR_EXISTS), s)
      else case et_createInstance (rd_proto s) token targetInfo of
        Throw e \<Rightarrow> (Throw e, s)
      | Undef \<Rightarrow> (Undef, s)
      | Ret proto \<Rightarrow>
          (case eg_registerMemory register header_at proto (rd_domain s) of
             (Ret proto, regs) \<Rightarrow>
               (Ret (), s\<lparr>rd_domain := regs,
                  rd_remoteEndpoints := emplace (ti_id targetInfo) token (rd_remoteEndpoints s),
                  rd_targets := emplace token (RDMInitiatorTarget_ctor proto targetInfo) (rd_targets s)\<rparr>)
           | (Throw e, regs) \<Rightarrow> (Throw e, s\<lparr>rd_domain := regs\<rparr>)
           | (Undef, regs) \<Rightarrow> (Undef, s\<lparr>rd_domain := regs\<rparr>)))"

definition erase_key :: "u64 \<Rightarrow> (u64 \<times> 't) list \<Rightarrow> (u64 \<times> 't) list" where
  "erase_key k = filter (\<lambda>(k', _). k' \<noteq> k)"

definition RDMInitiator_removeTarget :: "address_vector \<Rightarrow> TargetInfo \<Rightarrow> (RDMInitiator, unit) act" where
  "RDMInitiator_removeTarget av targetInfo s =
     (case findRemoteByEndpoint s (ti_id targetInfo) of
        Throw e \<Rightarrow> (Throw e, s)
      | Undef \<Rightarrow> (Undef, s)
      | Ret (token, t) \<Rightarrow>
          (case rm_shutdown av (rd_endpoint s) t of
             (Ret _, t') \<Rightarrow>
               (Ret (), s\<lparr>rd_remoteEndpoints := erase_key (ti_id targetInfo) (rd_remoteEndpoints s),
                  rd_targets := erase_key token (rd_targets s)\<rparr>)
           | (Throw e, t') \<Rightarrow> (Throw e, s\<lparr>rd_targets := change_target token t' (rd_targets s)\<rparr>)
           | (Undef, t') \<Rightarrow> (Undef, s\<lparr>rd_targets := change_target token t' (rd_targets s)\<rparr>)))"

definition RDMInitiator_shutdown :: "(RDMInitiator, unit) act" where
  "RDMInitiator_shutdown s = (Ret (), s)"

definition RDMInitiator_transferGrain :: "transmit \<Rightarrow> u64 \<Rightarrow> u16 \<Rightarrow> u16 \<Rightarrow> (RDMInitiator, unit) act" where
  "RDMInitiator_transferGrain tx grainIndex startSlice endSlice s =
     rd_on_targets (\<lambda>ts. bind_act (lift_act (SliceRange_make startSlice endSlice)) (\<lambda>slices.
       rm_transferGrain tx (rd_endpoint s) grainIndex grainIndex MXL_GRAIN_PAYLOAD_OFFSET slices) ts) s"

definition RDMInitiator_transferGrainToTarget ::
  "transmit \<Rightarrow> u64 \<Rightarrow> u64 \<Rightarrow> u64 \<Rightarrow> u64 \<Rightarrow> u16 \<Rightarrow> u16 \<Rightarrow> (RDMInitiator, unit) act" where
  "RDMInitiator_transferGrainToTarget tx targetId localIndex remoteIndex payloadOffset startSlice endSlice s =
     (case findRemoteByEndpoint s targetId of
        Throw e \<Rightarrow> (Throw e, s)
      | Undef \<Rightarrow> (Undef, s)
      | Ret (token, t) \<Rightarrow>
          (case bind_act (lift_act (SliceRange_make startSlice endSlice)) (\<lambda>slices.
                  rm_transferGrain tx (rd_endpoint s) localIndex remoteIndex payloadOffset slices) (t, rd_sender s) of
             (r, t', snd') \<Rightarrow> (r, s\<lparr>rd_targets := change_target token t' (rd_targets s), rd_sender := snd'\<rparr>)))"

definition RDMInitiator_transferSamples :: "transmit \<Rightarrow> u64 \<Rightarrow> u64 \<Rightarrow> (RDMInitiator, unit) act" where
  "RDMInitiator_transferSamples tx head_index n s = rd_on_targets (rm_transferSamples tx (rd_endpoint s) head_index n) s"

definition rd_afterProgressResult :: "RDMInitiator \<Rightarrow> MakeProgressResult" where
  "rd_afterProgressResult s = (if \<exists>(k, t) \<in> set (rd_targets s). rm_hasPendingWork t then NotReady else Ready)"

definition rd_processCompletion :: "Completion \<Rightarrow> RDMInitiator \<Rightarrow> RDMInitiator" where
  "rd_processCompletion completion s =
     (case map_of (rd_targets s) (completion_token completion) of
        None \<Rightarrow> s
      | Some t \<Rightarrow> s\<lparr>rd_targets := change_target (completion_token completion) (rm_handleCompletion completion t) (rd_targets s)\<rparr>)"

definition rd_activateIdleEndpoints :: "address_vector \<Rightarrow> (RDMInitiator, unit) act" where
  "rd_activateIdleEndpoints av s = rd_on_targets (\<lambda>(t, snd'). case rm_activate av (rd_endpoint s) t of (r, t') \<Rightarrow> (r, t', snd')) s"

text \<open>One completion is read at a time.\<close>

definition rd_completion :: "Completion option res \<Rightarrow> (RDMInitiator, unit) act" where
  "rd_completion r s =
     (case bind_res (endpoint_completionQueue (rd_endpoint s)) (\<lambda>_. r) of
        Ret None \<Rightarrow> (Ret (), s)
      | Ret (Some c) \<Rightarrow> (Ret (), rd_processCompletion c s)
      | Throw e \<Rightarrow> (Throw e, s)
      | Undef \<Rightarrow> (Undef, s))"

definition rd_pollCQ :: "(read_call \<Rightarrow> cq_result) \<Rightarrow> (RDMInitiator, unit) act" where
  "rd_pollCQ cq = rd_completion (CompletionQueue_read cq)"

definition rd_blockOnCQ :: "(read_call \<Rightarrow> cq_result) \<Rightarrow> int \<Rightarrow> (RDMInitiator, unit) act" where
  "rd_blockOnCQ cq timeout s =
     (if timeout = 0 then rd_pollCQ cq s else rd_completion (CompletionQueue_readBlocking cq timeout) s)"

definition RDMInitiator_makeProgress :: "address_vector \<Rightarrow> (read_call \<Rightarrow> cq_result) \<Rightarrow> (RDMInitiator, MakeProgressResult) act" where
  "RDMInitiator_makeProgress av cq =
     bind_act (rd_activateIdleEndpoints av) (\<lambda>_. bind_act (rd_pollCQ cq) (\<lambda>_ s. (Ret (rd_afterProgressResult s), s)))"

text \<open>\<open>elapsed\<close> is the time that the activation took.\<close>

definition RDMInitiator_makeProgressBlocking ::
  "address_vector \<Rightarrow> (read_call \<Rightarrow> cq_result) \<Rightarrow> int \<Rightarrow> int \<Rightarrow> (RDMInitiator, MakeProgressResult) act" where
  "RDMInitiator_makeProgressBlocking av cq elapsed timeout =
     bind_act (rd_activateIdleEndpoints av) (\<lambda>_ s.
       let remaining = timeout - elapsed
       in if remaining \<ge> 0 then
            (case rd_blockOnCQ cq remaining s of
               (Ret _, s') \<Rightarrow> (Ret (rd_afterProgressResult s'), s')
             | (Throw e, s') \<Rightarrow> if isInterrupted e then (Ret ProgressInterrupted, s') else (Throw e, s')
             | (Undef, s') \<Rightarrow> (Undef, s'))
          else bind_act (rd_pollCQ cq) (\<lambda>_ s. (Ret (rd_afterProgressResult s), s)) s)"

end
