(* ===== verification/FabricRdmProofs.thy ===== *)
theory FabricRdmProofs
  imports FabricRdmInitiator FabricProgress
begin

text \<open>
  What the initiator without connections promises: its two maps agree in every reachable state, adding and removing
  targets is a map of targets, and when all completions come, the progress it reports ends with the last of them.
\<close>

section \<open>The two maps\<close>

text \<open>Every target is found by its identifier, is not shut down, and posts its requests with its own token.\<close>

definition rdm_ok :: "RDMInitiator \<Rightarrow> bool" where
  "rdm_ok s \<longleftrightarrow>
     sorted_wrt (<) (map fst (rd_targets s)) \<and> sorted_wrt (<) (map fst (rd_remoteEndpoints s))
     \<and> distinct (map snd (rd_remoteEndpoints s)) \<and> snd ` set (rd_remoteEndpoints s) = fst ` set (rd_targets s)
     \<and> (\<forall>(k, t) \<in> set (rd_targets s). rm_state t \<noteq> RDone \<and> eg_token (rm_proto t) = k
          \<and> map_of (rd_remoteEndpoints s) (ti_id (rm_remoteInfo t)) = Some k)"

text \<open>An operation on single targets that keeps what a target is.\<close>

definition same_target :: "RDMInitiatorTarget \<Rightarrow> RDMInitiatorTarget \<Rightarrow> bool" where
  "same_target t t' \<longleftrightarrow> rm_remoteInfo t' = rm_remoteInfo t \<and> eg_token (rm_proto t') = eg_token (rm_proto t)
     \<and> (rm_state t \<noteq> RDone \<longrightarrow> rm_state t' \<noteq> RDone)"

lemma same_target_refl [simp, intro]: "same_target t t"
  by (simp add: same_target_def)

lemma each_target_same:
  assumes "each_target op (ts, a) = (r, ts', b)" "\<And>t a r t' b. op (t, a) = (r, t', b) \<Longrightarrow> same_target t t'"
  shows "list_all2 (\<lambda>x y. fst y = fst x \<and> same_target (snd x) (snd y)) ts ts'"
  using assms(1)
proof (induction ts arbitrary: a r ts' b)
  case (Cons kt ts)
  obtain k t where kt: "kt = (k, t)"
    by fastforce
  obtain r1 t1 a1 where op: "op (t, a) = (r1, t1, a1)"
    by (cases "op (t, a)")
  then have same: "same_target t t1"
    by (rule assms(2))
  show ?case
  proof (cases r1)
    case (Ret u)
    obtain r2 ts2 b2 where rest: "each_target op (ts, a1) = (r2, ts2, b2)"
      by (cases "each_target op (ts, a1)")
    then show ?thesis
      using Cons.prems op Ret same Cons.IH [OF rest] by (auto simp: kt)
  qed (use Cons.prems op same in \<open>auto simp: kt intro!: list.rel_refl\<close>)
qed simp

lemma list_same_ok:
  assumes "list_all2 (\<lambda>x y. fst y = fst x \<and> same_target (snd x) (snd y)) (rd_targets s) ts'" "rdm_ok s"
  shows "rdm_ok (s\<lparr>rd_targets := ts'\<rparr>)"
proof -
  have fst: "map fst ts' = map fst (rd_targets s)"
    using assms(1) by (induction rule: list_all2_induct) auto
  then have "fst ` set ts' = fst ` set (rd_targets s)"
    by (metis list.set_map)
  moreover have "\<exists>t. (k, t) \<in> set (rd_targets s) \<and> same_target t t'" if "(k, t') \<in> set ts'" for k t'
    using assms(1) that by (induction rule: list_all2_induct) auto
  ultimately show ?thesis
    using assms(2) fst by (fastforce simp: rdm_ok_def same_target_def)
qed

lemma rdm_ok_parts [simp]: "rdm_ok (s\<lparr>rd_sender := a\<rparr>) = rdm_ok s" "rdm_ok (s\<lparr>rd_domain := regs\<rparr>) = rdm_ok s"
  by (simp_all add: rdm_ok_def)

lemma rd_on_targets_ok:
  assumes "rd_on_targets op s = (r, s')" "rdm_ok s" "\<And>t a r t' b. op (t, a) = (r, t', b) \<Longrightarrow> same_target t t'"
  shows "rdm_ok s'"
proof -
  obtain ts b where e: "each_target op (rd_targets s, rd_sender s) = (r, ts, b)" and s': "s' = s\<lparr>rd_targets := ts, rd_sender := b\<rparr>"
    using assms(1) by (auto simp: rd_on_targets_def split: prod.splits)
  show ?thesis
    unfolding s' rdm_ok_parts by (rule list_same_ok [OF each_target_same [OF e assms(3)] assms(2)])
qed

lemma change_same:
  assumes "distinct (map fst ts)" "map_of ts k = Some t" "same_target t t'"
  shows "list_all2 (\<lambda>x y. fst y = fst x \<and> same_target (snd x) (snd y)) ts (change_target k t' ts)"
  using assms by (induction k t' ts rule: change_target.induct) (auto simp: list.rel_refl split: if_splits)

lemma rdm_distinct: "rdm_ok s \<Longrightarrow> distinct (map fst (rd_targets s))" "rdm_ok s \<Longrightarrow> distinct (map fst (rd_remoteEndpoints s))"
  by (auto simp: rdm_ok_def sorted_wrt_iff_nth_less distinct_conv_nth linorder_neq_iff)

lemma change_target_same_ok:
  assumes "rdm_ok s" "map_of (rd_targets s) k = Some t" "same_target t t'"
  shows "rdm_ok (s\<lparr>rd_targets := change_target k t' (rd_targets s)\<rparr>)"
  by (rule list_same_ok [OF change_same [OF rdm_distinct(1) [OF assms(1)] assms(2,3)] assms(1)])

lemma when_activated_same:
  assumes "when_activated ep m (t, a) = (r, t', b)" "\<And>f p a r p' b. m f (p, a) = (r, p', b) \<Longrightarrow> eg_token p' = eg_token p"
  shows "same_target t t'"
  using assms by (auto simp: when_activated_def same_target_def split: RDMState.splits if_splits prod.splits)

lemma rm_transfer_same:
  "rm_transferGrain tx ep li ri off slices (t, a) = (r, t', b) \<Longrightarrow> same_target t t'"
  "rm_transferSamples tx ep h n (t, a) = (r, t', b) \<Longrightarrow> same_target t t'"
  unfolding rm_transferGrain_def rm_transferSamples_def
   apply (erule when_activated_same)
   apply (drule transferGrain_own, blast)
  apply (erule when_activated_same)
  apply (erule transferSamples_token)
  done

lemma make_slices_same:
  assumes "bind_act (lift_act (SliceRange_make x y)) (\<lambda>slices. rm_transferGrain tx ep li ri off slices) (t, a) = (r, t', b)"
  shows "same_target t t'"
  using assms rm_transfer_same(1) by (auto simp: bind_act_def lift_act_def split: res.splits prod.splits)

lemma rm_activate_same: "rm_activate av ep t = (r, t') \<Longrightarrow> same_target t t'"
  by (auto simp: rm_activate_def same_target_def split: RDMState.splits res.splits)

lemma rm_handleCompletion_same: "same_target t (rm_handleCompletion c t)"
  by (auto simp: rm_handleCompletion_def same_target_def split: RDMState.splits)

section \<open>Targets as a map\<close>

definition target_named :: "RDMInitiator \<Rightarrow> u64 \<Rightarrow> RDMInitiatorTarget option" where
  "target_named s epid = (case findRemoteByEndpoint s epid of Ret (token, t) \<Rightarrow> Some t | _ \<Rightarrow> None)"

lemma map_of_emplace: "map_of ts k = None \<Longrightarrow> map_of (emplace k v ts) = (map_of ts)(k \<mapsto> v)"
  by (induction k v ts rule: emplace.induct) (auto simp: fun_eq_iff split: if_splits)

lemma map_of_erase_key: "map_of (erase_key k ts) = (map_of ts)(k := None)"
  by (induction ts) (auto simp: erase_key_def fun_eq_iff)

lemma in_erase: "x \<in> set (erase_key k ts) \<longleftrightarrow> x \<in> set ts \<and> fst x \<noteq> k"
  by (auto simp: erase_key_def)

lemma emplace_set_new: "map_of ts k = None \<Longrightarrow> set (emplace k v ts) = insert (k, v) (set ts)"
  by (induction k v ts rule: emplace.induct) (auto split: if_splits)

lemma emplace_distinct_snd:
  "distinct (map snd ts) \<Longrightarrow> v \<notin> snd ` set ts \<Longrightarrow> distinct (map snd (emplace k v ts))"
proof (induction k v ts rule: emplace.induct)
  case (2 k v k' v' rest)
  then show ?case
    using emplace_set [of k v rest] by auto
qed simp

lemma target_named_eq:
  "target_named s epid = (case map_of (rd_remoteEndpoints s) epid of None \<Rightarrow> None | Some token \<Rightarrow> map_of (rd_targets s) token)"
  by (simp add: target_named_def findRemoteByEndpoint_def findRemoteByToken_def split: option.splits)

lemma addTarget_Ret:
  assumes "RDMInitiator_addTarget register header_at token info s = (r, s')" "rdm_ok s" "map_of (rd_targets s) token = None"
  shows "rdm_ok s'" "r = Ret () \<Longrightarrow> \<exists>proto. eg_token proto = token \<and> target_named s' = (target_named s)(ti_id info \<mapsto> RDMInitiatorTarget_ctor proto info)"
proof -
  have "rdm_ok s' \<and> (r = Ret () \<longrightarrow> (\<exists>proto. eg_token proto = token \<and> target_named s' = (target_named s)(ti_id info \<mapsto> RDMInitiatorTarget_ctor proto info)))"
  proof (cases "r = Ret ()")
    case False
    then show ?thesis
      using assms by (auto simp: RDMInitiator_addTarget_def split: if_splits res.splits prod.splits)
  next
    case True
    then obtain proto0 proto regs where new: "map_of (rd_remoteEndpoints s) (ti_id info) = None"
      and made: "et_createInstance (rd_proto s) token info = Ret proto0" "eg_registerMemory register header_at proto0 (rd_domain s) = (Ret proto, regs)"
      and s': "s' = s\<lparr>rd_domain := regs, rd_remoteEndpoints := emplace (ti_id info) token (rd_remoteEndpoints s),
         rd_targets := emplace token (RDMInitiatorTarget_ctor proto info) (rd_targets s)\<rparr>"
      using assms(1) by (auto simp: RDMInitiator_addTarget_def split: if_splits res.splits prod.splits)
    have token: "eg_token proto = token"
      by (rule created_token [OF made])
    have fresh: "token \<notin> snd ` set (rd_remoteEndpoints s)"
      using assms(2,3) by (simp add: rdm_ok_def map_of_eq_None_iff)
    let ?t = "RDMInitiatorTarget_ctor proto info"
    have sets: "set (rd_targets s') = insert (token, ?t) (set (rd_targets s))"
      "set (rd_remoteEndpoints s') = insert (ti_id info, token) (set (rd_remoteEndpoints s))"
      by (simp_all add: s' emplace_set_new assms(3) new)
    have "rdm_ok s'"
      unfolding rdm_ok_def
    proof (intro conjI)
      show "sorted_wrt (<) (map fst (rd_targets s'))" "sorted_wrt (<) (map fst (rd_remoteEndpoints s'))"
        using assms(2) by (auto simp: s' rdm_ok_def intro!: emplace_sorted)
      show "distinct (map snd (rd_remoteEndpoints s'))"
        using assms(2) fresh by (auto simp: s' rdm_ok_def intro!: emplace_distinct_snd)
      show "snd ` set (rd_remoteEndpoints s') = fst ` set (rd_targets s')"
        using assms(2) by (simp add: sets rdm_ok_def)
      have "\<forall>(k, t) \<in> set (rd_targets s). rm_state t \<noteq> RDone \<and> eg_token (rm_proto t) = k
          \<and> map_of (rd_remoteEndpoints s) (ti_id (rm_remoteInfo t)) = Some k"
        using assms(2) by (simp add: rdm_ok_def)
      moreover have "map_of (rd_remoteEndpoints s') = (map_of (rd_remoteEndpoints s))(ti_id info \<mapsto> token)"
        by (simp add: s' map_of_emplace new)
      ultimately show "\<forall>(k, t) \<in> set (rd_targets s'). rm_state t \<noteq> RDone \<and> eg_token (rm_proto t) = k
          \<and> map_of (rd_remoteEndpoints s') (ti_id (rm_remoteInfo t)) = Some k"
        using new token by (auto simp: sets RDMInitiatorTarget_ctor_def)
    qed
    moreover have "target_named s' = (target_named s)(ti_id info \<mapsto> RDMInitiatorTarget_ctor proto info)"
    proof
      fix k
      have "map_of (rd_remoteEndpoints s) k \<noteq> Some token"
        using fresh by (force dest: map_of_SomeD)
      then show "target_named s' k = ((target_named s)(ti_id info \<mapsto> RDMInitiatorTarget_ctor proto info)) k"
        by (auto simp: target_named_eq s' map_of_emplace assms(3) new split: option.splits)
    qed
    ultimately show ?thesis
      using token by blast
  qed
  then show "rdm_ok s'" "r = Ret () \<Longrightarrow> \<exists>proto. eg_token proto = token \<and> target_named s' = (target_named s)(ti_id info \<mapsto> RDMInitiatorTarget_ctor proto info)"
    by blast+
qed

lemma removeTarget_ok:
  assumes "RDMInitiator_removeTarget av info s = (r, s')" "rdm_ok s"
  shows "r = Undef \<or> rdm_ok s'" "r = Ret () \<Longrightarrow> target_named s (ti_id info) \<noteq> None \<and> target_named s' = (target_named s)(ti_id info := None)"
proof -
  have "(r = Undef \<or> rdm_ok s') \<and> (r = Ret () \<longrightarrow> target_named s (ti_id info) \<noteq> None \<and> target_named s' = (target_named s)(ti_id info := None))"
  proof (cases "target_named s (ti_id info)")
    case None
    then show ?thesis
      using assms by (auto simp: RDMInitiator_removeTarget_def target_named_def findRemoteByEndpoint_def findRemoteByToken_def split: option.splits res.splits)
  next
    case (Some t)
    then obtain token where token: "map_of (rd_remoteEndpoints s) (ti_id info) = Some token" "map_of (rd_targets s) token = Some t"
      by (auto simp: target_named_eq split: option.splits)
    then have find: "findRemoteByEndpoint s (ti_id info) = Ret (token, t)"
      by (simp add: findRemoteByEndpoint_def findRemoteByToken_def)
    obtain r1 t1 where down: "rm_shutdown av (rd_endpoint s) t = (r1, t1)"
      by fastforce
    show ?thesis
    proof (cases "r1 = Ret ()")
      case False
      then have "t1 = t" "r \<noteq> Ret ()" "s' = s\<lparr>rd_targets := change_target token t1 (rd_targets s)\<rparr>"
        using down assms(1) by (auto simp: rm_shutdown_def RDMInitiator_removeTarget_def find split: RDMState.splits res.splits)
      then show ?thesis
        using change_target_same_ok [OF assms(2) token(2)] by simp
    next
      case True
      let ?rs = "rd_remoteEndpoints s" and ?ts = "rd_targets s"
      have s': "s' = s\<lparr>rd_remoteEndpoints := erase_key (ti_id info) ?rs, rd_targets := erase_key token ?ts\<rparr>" and r: "r = Ret ()"
        using down assms(1) True by (auto simp: RDMInitiator_removeTarget_def find)
      have only: "k = ti_id info" if "(k, token) \<in> set ?rs" for k
      proof -
        have "inj_on snd (set ?rs)"
          using assms(2) by (simp add: rdm_ok_def distinct_map)
        from inj_onD [OF this, of "(k, token)" "(ti_id info, token)"] show ?thesis
          using that map_of_SomeD [OF token(1)] by simp
      qed
      have own: "token' = token" if "(ti_id info, token') \<in> set ?rs" for token'
        using map_of_is_SomeI [OF rdm_distinct(2) [OF assms(2)] that] token(1) by simp
      have "snd ` set (erase_key (ti_id info) ?rs) = fst ` set (erase_key token ?ts)"
      proof -
        have "snd ` set (erase_key (ti_id info) ?rs) = snd ` set ?rs - {token}"
        proof (intro equalityI subsetI)
          fix v
          assume "v \<in> snd ` set (erase_key (ti_id info) ?rs)"
          then obtain k where "(k, v) \<in> set ?rs" "k \<noteq> ti_id info"
            by (auto simp: erase_key_def)
          then show "v \<in> snd ` set ?rs - {token}"
            using only by force
        next
          fix v
          assume v: "v \<in> snd ` set ?rs - {token}"
          then obtain k where k: "(k, v) \<in> set ?rs"
            by auto
          then have "k \<noteq> ti_id info"
            using own v by auto
          with k have "(k, v) \<in> set (erase_key (ti_id info) ?rs)"
            by (simp add: erase_key_def)
          then show "v \<in> snd ` set (erase_key (ti_id info) ?rs)"
            by force
        qed
        moreover have "fst ` set (erase_key token ?ts) = fst ` set ?ts - {token}"
          by (auto simp: erase_key_def image_iff)
        ultimately show ?thesis
          using assms(2) by (simp add: rdm_ok_def)
      qed
      moreover have "\<forall>(k, t) \<in> set (erase_key token ?ts). rm_state t \<noteq> RDone \<and> eg_token (rm_proto t) = k
          \<and> map_of (erase_key (ti_id info) ?rs) (ti_id (rm_remoteInfo t)) = Some k"
        using assms(2) token(1) by (fastforce simp: rdm_ok_def map_of_erase_key in_erase)
      ultimately have "rdm_ok s'"
        using assms(2)
        by (simp add: s' rdm_ok_def) (simp add: erase_key_def sorted_wrt_map sorted_wrt_filter distinct_map_filter)
      moreover have "target_named s' = (target_named s)(ti_id info := None)"
      proof
        fix k
        have "map_of ?rs k \<noteq> Some token" if "k \<noteq> ti_id info"
          using only that by (auto dest: map_of_SomeD)
        then show "target_named s' k = ((target_named s)(ti_id info := None)) k"
          by (auto simp: target_named_eq s' map_of_erase_key split: option.splits)
      qed
      ultimately show ?thesis
        using Some by simp
    qed
  qed
  then show "r = Undef \<or> rdm_ok s'" "r = Ret () \<Longrightarrow> target_named s (ti_id info) \<noteq> None \<and> target_named s' = (target_named s)(ti_id info := None)"
    by blast+
qed

lemma rdm_ok_no_state: "rdm_ok s \<Longrightarrow> rdm_ok (rd_processCompletion c s)"
  using rm_handleCompletion_same by (auto simp: rd_processCompletion_def split: option.splits intro: change_target_same_ok)

lemma transferGrain_rdm_ok:
  "RDMInitiator_transferGrain tx g a b s = (r, s') \<Longrightarrow> rdm_ok s \<Longrightarrow> rdm_ok s'"
  unfolding RDMInitiator_transferGrain_def by (erule rd_on_targets_ok) (auto intro: make_slices_same)

lemma transferSamples_rdm_ok:
  "RDMInitiator_transferSamples tx h n s = (r, s') \<Longrightarrow> rdm_ok s \<Longrightarrow> rdm_ok s'"
  unfolding RDMInitiator_transferSamples_def by (erule rd_on_targets_ok) (auto intro: rm_transfer_same)

lemma transferGrainToTarget_rdm_ok:
  assumes "RDMInitiator_transferGrainToTarget tx k li ri off a b s = (r, s')" "rdm_ok s"
  shows "rdm_ok s'"
proof (cases "findRemoteByEndpoint s k")
  case (Ret kt)
  obtain token t where kt: "kt = (token, t)"
    by fastforce
  then have found: "map_of (rd_targets s) token = Some t"
    using Ret by (auto simp: findRemoteByEndpoint_def findRemoteByToken_def split: option.splits)
  obtain r t' c where m: "bind_act (lift_act (SliceRange_make a b)) (\<lambda>slices.
      rm_transferGrain tx (rd_endpoint s) li ri off slices) (t, rd_sender s) = (r, t', c)"
    by (metis prod.exhaust)
  then show ?thesis
    using assms change_target_same_ok [OF assms(2) found make_slices_same [OF m]]
    by (auto simp: RDMInitiator_transferGrainToTarget_def Ret kt)
qed (use assms in \<open>auto simp: RDMInitiator_transferGrainToTarget_def\<close>)

lemma activate_rdm_ok: "rd_activateIdleEndpoints av s = (r, s') \<Longrightarrow> rdm_ok s \<Longrightarrow> rdm_ok s'"
  unfolding rd_activateIdleEndpoints_def by (erule rd_on_targets_ok) (auto split: prod.splits intro: rm_activate_same)

lemma rd_completion_ok: "rd_completion c s = (r, s') \<Longrightarrow> rdm_ok s \<Longrightarrow> rdm_ok s'"
  by (auto simp: rd_completion_def split: res.splits option.splits intro: rdm_ok_no_state)

lemma rd_blockOnCQ_ok: "rd_blockOnCQ cq timeout s = (r, s') \<Longrightarrow> rdm_ok s \<Longrightarrow> rdm_ok s'"
  by (auto simp: rd_blockOnCQ_def rd_pollCQ_def split: if_splits intro: rd_completion_ok)

lemma makeProgress_rdm_ok:
  assumes "RDMInitiator_makeProgress av cq s = (r, s')" "rdm_ok s"
  shows "rdm_ok s'"
proof -
  obtain r1 s1 where a: "rd_activateIdleEndpoints av s = (r1, s1)"
    by fastforce
  moreover obtain r2 s2 where "rd_pollCQ cq s1 = (r2, s2)"
    by fastforce
  moreover have "rdm_ok s1" "rdm_ok s2"
    using calculation assms(2) by (auto simp: rd_pollCQ_def intro: rd_completion_ok activate_rdm_ok)
  ultimately show ?thesis
    using assms(1) by (auto simp: RDMInitiator_makeProgress_def bind_act_def split: res.splits)
qed

lemma makeProgressBlocking_rdm_ok:
  assumes "RDMInitiator_makeProgressBlocking av cq elapsed timeout s = (r, s')" "rdm_ok s"
  shows "rdm_ok s'"
proof -
  obtain r1 s1 where a: "rd_activateIdleEndpoints av s = (r1, s1)"
    by fastforce
  moreover obtain r2 s2 where "rd_pollCQ cq s1 = (r2, s2)"
    by fastforce
  moreover obtain r3 s3 where "rd_blockOnCQ cq (timeout - elapsed) s1 = (r3, s3)"
    by fastforce
  moreover have "rdm_ok s1" "rdm_ok s2" "rdm_ok s3"
    using calculation assms(2) by (auto simp: rd_pollCQ_def intro: rd_completion_ok activate_rdm_ok rd_blockOnCQ_ok)
  ultimately show ?thesis
    using assms(1) by (auto simp: RDMInitiator_makeProgressBlocking_def bind_act_def Let_def split: res.splits if_splits)
qed

text \<open>
  The states that an initiator reaches, by operations that return and by operations that throw. The tokens are drawn
  at random and taken to be new.
\<close>

inductive rdm_reach :: "RDMInitiator \<Rightarrow> bool" where
  rdm_setup: "rdm_reach s"
    if "rd_targets s = []" "rd_remoteEndpoints s = []"
| rdm_add: "rdm_reach s'"
    if "rdm_reach s" "RDMInitiator_addTarget register header_at token info s = (r, s')" "map_of (rd_targets s) token = None"
| rdm_remove: "rdm_reach s'"
    if "rdm_reach s" "RDMInitiator_removeTarget av info s = (r, s')" "r \<noteq> Undef"
| rdm_grain: "rdm_reach s'"
    if "rdm_reach s" "RDMInitiator_transferGrain tx grainIndex startSlice endSlice s = (r, s')"
| rdm_grain_to: "rdm_reach s'"
    if "rdm_reach s" "RDMInitiator_transferGrainToTarget tx k li ri off startSlice endSlice s = (r, s')"
| rdm_samples: "rdm_reach s'"
    if "rdm_reach s" "RDMInitiator_transferSamples tx head_index n s = (r, s')"
| rdm_progress: "rdm_reach s'"
    if "rdm_reach s" "RDMInitiator_makeProgress av cq s = (x, s')"
| rdm_blocking: "rdm_reach s'"
    if "rdm_reach s" "RDMInitiator_makeProgressBlocking av cq elapsed timeout s = (x, s')"

lemma rdm_reach_ok: "rdm_reach s \<Longrightarrow> rdm_ok s"
proof (induction rule: rdm_reach.induct)
  case (rdm_setup s)
  then show ?case
    by (simp add: rdm_ok_def)
qed (auto dest: addTarget_Ret(1) removeTarget_ok(1) transferGrain_rdm_ok transferGrainToTarget_rdm_ok transferSamples_rdm_ok
    makeProgress_rdm_ok makeProgressBlocking_rdm_ok)


section \<open>Progress ends with the last completion\<close>

text \<open>The queue of a call of \<open>makeProgress\<close> that finds a completion, and the results of a call for every completion.\<close>

definition completion_queue :: "CompletionData \<Rightarrow> read_call \<Rightarrow> cq_result" where
  "completion_queue d call = \<lparr>cr_ret = 1, cr_entry = d, cr_error = 0\<rparr>"

fun progress_results :: "address_vector \<Rightarrow> CompletionData list \<Rightarrow> RDMInitiator \<Rightarrow> MakeProgressResult res list \<times> RDMInitiator" where
  "progress_results av [] s = ([], s)"
| "progress_results av (d # ds) s =
     (case RDMInitiator_makeProgress av (completion_queue d) s of
        (r, s') \<Rightarrow> (case progress_results av ds s' of (rs, s'') \<Rightarrow> (r # rs, s'')))"

text \<open>Every target is active, and waits for exactly the completions of a list.\<close>

definition awaits :: "CompletionData list \<Rightarrow> RDMInitiator \<Rightarrow> bool" where
  "awaits ds s \<longleftrightarrow> ep_open (rd_endpoint s) \<and> ep_cq (rd_endpoint s)
     \<and> (\<forall>(k, t) \<in> set (rd_targets s). (\<exists>a. rm_state t = RActivated a)
          \<and> unat (eg_pending (rm_proto t)) = length (filter (\<lambda>d. co_token d = k) ds))
     \<and> (\<forall>d \<in> set ds. co_token d \<in> fst ` set (rd_targets s))"

lemma awaits_activate: "awaits ds s \<Longrightarrow> rd_activateIdleEndpoints av s = (Ret (), s)"
proof -
  have "(\<forall>(k, t) \<in> set ts. \<exists>a. rm_state t = RActivated a) \<Longrightarrow>
    each_target (\<lambda>(t, snd'). case rm_activate av ep t of (r, t') \<Rightarrow> (r, t', snd')) (ts, b) = (Ret (), ts, b)" for ts ep and b :: sender
    by (induction ts arbitrary: b) (auto simp: rm_activate_def)
  moreover assume "awaits ds s"
  ultimately show ?thesis
    by (fastforce simp: rd_activateIdleEndpoints_def rd_on_targets_def awaits_def)
qed

lemma awaits_pending:
  assumes "awaits ds s"
  shows "rd_afterProgressResult s = (if ds = [] then Ready else NotReady)"
proof (cases ds)
  case Nil
  have "\<not> rm_hasPendingWork t" if "(k, t) \<in> set (rd_targets s)" for k t
    using assms that Nil by (auto simp: awaits_def rm_hasPendingWork_def unat_eq_zero)
  then show ?thesis
    using Nil by (auto simp: rd_afterProgressResult_def)
next
  case (Cons d ds')
  then obtain t where t: "(co_token d, t) \<in> set (rd_targets s)"
    using assms by (auto simp: awaits_def)
  then have "(\<exists>a. rm_state t = RActivated a) \<and> 0 < unat (eg_pending (rm_proto t))"
    using assms Cons by (fastforce simp: awaits_def)
  then have "rm_hasPendingWork t"
    by (auto simp: rm_hasPendingWork_def word_gt_0 unat_gt_0)
  then show ?thesis
    using t Cons by (auto simp: rd_afterProgressResult_def)
qed

lemma change_target_map: "distinct (map fst ts) \<Longrightarrow> k \<in> fst ` set ts \<Longrightarrow>
  set (change_target k v ts) = insert (k, v) {x \<in> set ts. fst x \<noteq> k}"
  by (induction k v ts rule: change_target.induct) auto

lemma awaits_step:
  assumes "awaits (d # ds) s" "rdm_ok s"
  shows "\<exists>s'. RDMInitiator_makeProgress av (completion_queue d) s = (Ret (if ds = [] then Ready else NotReady), s') \<and> awaits ds s' \<and> rdm_ok s'"
proof -
  let ?k = "co_token d"
  obtain t where t: "map_of (rd_targets s) ?k = Some t"
    using assms(1) map_of_eq_None_iff [of "rd_targets s" ?k] by (cases "map_of (rd_targets s) ?k") (auto simp: awaits_def)
  let ?t = "rm_handleCompletion (DataEntry d) t"
  define s' where "s' = s\<lparr>rd_targets := change_target ?k ?t (rd_targets s)\<rparr>"
  have here: "(?k, t) \<in> set (rd_targets s)"
    using t by (rule map_of_SomeD)
  then obtain a where active: "rm_state t = RActivated a"
    and pending: "unat (eg_pending (rm_proto t)) = Suc (length (filter (\<lambda>e. co_token e = ?k) ds))"
    using assms(1) by (auto simp: awaits_def)
  have "unat (eg_pending (rm_proto t) - 1) = length (filter (\<lambda>e. co_token e = ?k) ds)"
    using pending by (simp add: unat_minus_one unat_eq_zero [symmetric])
  then have fin: "rm_state ?t = RActivated a" "unat (eg_pending (rm_proto ?t)) = length (filter (\<lambda>e. co_token e = ?k) ds)"
    using active by (simp_all add: rm_handleCompletion_def)
  have targets: "set (rd_targets s') = insert (?k, ?t) {x \<in> set (rd_targets s). fst x \<noteq> ?k}"
    using change_target_map [OF rdm_distinct(1) [OF assms(2)]] here by (force simp: s'_def)
  have "fst ` set (rd_targets s') = fst ` set (rd_targets s)"
    using here by (force simp: targets)
  moreover have "rd_endpoint s' = rd_endpoint s"
    by (simp add: s'_def)
  moreover have "(\<exists>a. rm_state u = RActivated a) \<and> unat (eg_pending (rm_proto u)) = length (filter (\<lambda>e. co_token e = k) ds)"
    if "(k, u) \<in> set (rd_targets s')" for k u
    using that fin assms(1) by (fastforce simp: targets awaits_def)
  ultimately have "awaits ds s'"
    using assms(1) by (auto simp: awaits_def)
  moreover have "rdm_ok s'"
    unfolding s'_def by (rule change_target_same_ok [OF assms(2) t rm_handleCompletion_same])
  moreover have "rd_pollCQ (completion_queue d) s = (Ret (), s')"
    using assms(1) t
    by (simp add: rd_pollCQ_def rd_completion_def endpoint_completionQueue_def awaits_def CompletionQueue_read_def cq_handleReadResult_def
        completion_queue_def FI_EAGAIN_def FI_EAVAIL_def rd_processCompletion_def s'_def)
  ultimately show ?thesis
    using awaits_activate [OF assms(1), of av] awaits_pending [of ds s']
    by (simp add: RDMInitiator_makeProgress_def bind_act_def)
qed

text \<open>
  C32: An initiator whose targets wait for a number of completions says that it is not ready for each of them but the
  last, in whatever order they come, and with the last that no work is left.
\<close>

theorem progress_until_last_completion:
  assumes "rdm_reach s" "awaits ds s" "ds \<noteq> []"
  shows "\<exists>s'. progress_results av ds s = (replicate (length ds - 1) (Ret NotReady) @ [Ret Ready], s') \<and> awaits [] s'"
proof -
  have "rdm_ok s \<Longrightarrow> awaits ds s \<Longrightarrow> ds \<noteq> [] \<Longrightarrow>
    \<exists>s'. progress_results av ds s = (replicate (length ds - 1) (Ret NotReady) @ [Ret Ready], s') \<and> awaits [] s'"
  proof (induction ds arbitrary: s)
    case (Cons d ds)
    obtain s1 where step: "RDMInitiator_makeProgress av (completion_queue d) s = (Ret (if ds = [] then Ready else NotReady), s1)"
      "awaits ds s1" "rdm_ok s1"
      using awaits_step [OF Cons.prems(2,1)] by blast
    show ?case
    proof (cases ds)
      case Nil
      then show ?thesis
        using step by simp
    next
      case (Cons e es)
      then obtain s2 where "progress_results av ds s1 = (replicate (length ds - 1) (Ret NotReady) @ [Ret Ready], s2)" "awaits [] s2"
        using Cons.IH [OF step(3,2)] by auto
      then show ?thesis
        using step(1) Cons by auto
    qed
  qed simp
  then show ?thesis
    using assms rdm_reach_ok by blast
qed

section \<open>An example\<close>

definition example_rdm :: RDMInitiator where
  "example_rdm = \<lparr>rd_endpoint = \<lparr>ep_id = 1, ep_open = True, ep_cq = True, ep_eq = False, ep_av = True\<rparr>, rd_domain = [],
     rd_proto = GrainTemplate \<lparr>gt_layout = \<lparr>dl_sliceSizes = [2], dl_totalSlices = 4\<rparr>, gt_regions = [],
       gt_localRegions = Some [\<lparr>lr_addr = 100, lr_len = 44, lr_desc = 0\<rparr>]\<rparr>,
     rd_targets = [], rd_remoteEndpoints = [], rd_sender = \<lparr>sn_memory = (\<lambda>_. 0), sn_posted = []\<rparr>\<rparr>"

definition example_av :: address_vector where
  "example_av = \<lparr>av_insert = (\<lambda>_. (1, 3)), av_straddr = (\<lambda>_. Some []), av_remove = (\<lambda>_. 0)\<rparr>"

definition no_completion :: "read_call \<Rightarrow> cq_result" where
  "no_completion call = \<lparr>cr_ret = - FI_EAGAIN, cr_entry = \<lparr>co_token = 0, co_remoteCqData = False, co_data = 0\<rparr>, cr_error = 0\<rparr>"

text \<open>The target is added, activated and given a grain.\<close>

definition example_added :: RDMInitiator where
  "example_added = snd (RDMInitiator_addTarget (\<lambda>_ _. (0, 0, 0)) (\<lambda>_. 0) 6 example_target_info example_rdm)"

definition example_active :: RDMInitiator where
  "example_active = snd (RDMInitiator_makeProgress example_av no_completion example_added)"

definition example_sent :: RDMInitiator where
  "example_sent = snd (RDMInitiator_transferGrain \<lparr>tx_accept = (\<lambda>_ _. 0), tx_iovLimit = 1\<rparr> 0 0 4 example_active)"

lemmas example_rdm_defs = RDMInitiator_addTarget_def et_createInstance_def gt_createInstance_def return_act_def example_rdm_def
  RDMInitiatorTarget_ctor_def RMAGrainEgressProtocol_ctor_def example_target_info_def

lemma example_added_eq:
  "RDMInitiator_addTarget (\<lambda>_ _. (0, 0, 0)) (\<lambda>_. 0) 6 example_target_info example_rdm = (Ret (), example_added)"
  "ti_id example_target_info = 7" "rd_endpoint example_added = rd_endpoint example_rdm"
  "\<exists>g. rd_targets example_added = [(6, \<lparr>rm_state = RIdle, rm_proto = GrainEgress g, rm_remoteInfo = example_target_info\<rparr>)]
     \<and> ge_pending g = 0 \<and> ge_token g = 6 \<and> ge_layout g = \<lparr>dl_sliceSizes = [2], dl_totalSlices = 4\<rparr> \<and> ge_localRegions g \<noteq> [] \<and> ge_remoteRegions g \<noteq> []"
  by (simp_all add: example_added_def example_rdm_defs)

lemma example_rdm_reach: "rdm_reach example_added" "rdm_reach example_active" "rdm_reach example_sent"
proof -
  show added: "rdm_reach example_added"
    by (rule rdm_add [OF rdm_setup example_added_eq(1)]) (simp_all add: example_rdm_def)
  show active: "rdm_reach example_active"
    by (rule rdm_progress [OF added]) (simp add: example_active_def prod_eq_iff)
  show "rdm_reach example_sent"
    by (rule rdm_grain [OF active]) (simp add: example_sent_def prod_eq_iff)
qed

lemma example_awaits: "awaits [\<lparr>co_token = 6, co_remoteCqData = False, co_data = 0\<rparr>] example_sent"
proof -
  obtain g where g: "rd_targets example_added = [(6, \<lparr>rm_state = RIdle, rm_proto = GrainEgress g, rm_remoteInfo = example_target_info\<rparr>)]"
    "ge_pending g = 0" "ge_token g = 6" "ge_layout g = \<lparr>dl_sliceSizes = [2], dl_totalSlices = 4\<rparr>" "ge_localRegions g \<noteq> []" "ge_remoteRegions g \<noteq> []"
    using example_added_eq(4) by blast
  have ep: "rd_endpoint example_added = \<lparr>ep_id = 1, ep_open = True, ep_cq = True, ep_eq = False, ep_av = True\<rparr>"
    by (simp add: example_added_eq(3) example_rdm_def)
  have active: "rd_targets example_active = [(6, \<lparr>rm_state = RActivated 3, rm_proto = GrainEgress g, rm_remoteInfo = example_target_info\<rparr>)]"
    "rd_endpoint example_active = rd_endpoint example_added"
    by (simp_all add: example_active_def RDMInitiator_makeProgress_def bind_act_def rd_activateIdleEndpoints_def rd_on_targets_def g rm_activate_def
        endpoint_addressVector_def ep AddressVector_insert_def AddressVector_addrToString_def example_av_def rd_pollCQ_def rd_completion_def
        endpoint_completionQueue_def CompletionQueue_read_def cq_handleReadResult_def no_completion_def)
  show ?thesis
    by (simp add: awaits_def example_sent_def RDMInitiator_transferGrain_def rd_on_targets_def active ep bind_act_def lift_act_def SliceRange_make_def
        rm_transferGrain_def when_activated_def eg_transferGrain_def ge_transferGrain_def g post_counted_def write_one_def writeImpl_def
        return_act_def fiCall_def Let_def)
qed

theorem progress_until_last_completion_witness:
  "\<exists>s'. progress_results example_av [\<lparr>co_token = 6, co_remoteCqData = False, co_data = 0\<rparr>] example_sent = ([Ret Ready], s')"
  using progress_until_last_completion [OF example_rdm_reach(3) example_awaits, of example_av] by auto


end
