(* ===== verification/FabricInterfaces.thy ===== *)
theory FabricInterfaces
  imports FabricEndpoint
begin

text \<open>
  The interfaces of the fabrics: which of those that libfabric knows are offered, and which one a target or an initiator
  takes (\<^verbatim>\<open>ProviderConfig.cpp\<close>, \<^verbatim>\<open>FabricInterfaceProbe.cpp\<close>, \<^verbatim>\<open>FabricInfoHelpers.cpp\<close>), their descriptions
  (\<^verbatim>\<open>FabricInterfaceDescription.cpp\<close>) and the linked list of them that the caller gets (\<^verbatim>\<open>FabricInterfaceList.cpp\<close>).
\<close>

section \<open>What libfabric knows of an interface\<close>

datatype fi_ep_type = FI_EP_MSG | FI_EP_RDM | FI_EP_OTHER u32

datatype fi_protocol = FI_PROTO_SOCK_TCP | FI_PROTO_RDMA_CM_IB_RC | FI_PROTO_SHM | FI_PROTO_EFA | FI_PROTO_OTHER u32

datatype fi_link_state = FI_LINK_UP | FI_LINK_DOWN | FI_LINK_UNKNOWN

text \<open>A pointer to a text that may be null is an option.\<close>

record fi_device_attr =
  dv_name :: "string option"
  dv_device_id :: "string option"
  dv_device_version :: "string option"
  dv_vendor_id :: "string option"
  dv_driver :: "string option"
  dv_firmware :: "string option"

record fi_link_attr =
  lk_address :: "string option"
  lk_speed :: u64
  lk_state :: fi_link_state
  lk_network_type :: "string option"

datatype fi_bus_attr = FI_BUS_PCI u16 u8 u8 u8 | FI_BUS_UNKNOWN

record fid_nic =
  nic_device :: "fi_device_attr option"
  nic_bus :: "fi_bus_attr option"
  nic_link :: "fi_link_attr option"

record fi_domain_attr =
  da_name :: "string option"
  da_cq_cnt :: u64
  da_ep_cnt :: u64
  da_mr_cnt :: u64
  da_mr_mode :: u32

record fi_info =
  fi_caps :: u64
  fi_prov_name :: string
  fi_addr_format :: u32
  fi_src_addr :: "u8 list option"
  fi_ep_type :: fi_ep_type
  fi_protocol :: fi_protocol
  fi_max_msg_size :: u64
  fi_domain :: fi_domain_attr
  fi_nic :: "fid_nic option"
  fi_rx_cq_data :: bool

text \<open>The hints of \<^verbatim>\<open>fi_getinfo\<close>; without an address the format is left as libfabric sets it.\<close>

record fi_hints =
  hi_prov_name :: string
  hi_mr_mode :: u32
  hi_ep_type :: fi_ep_type
  hi_caps :: u64
  hi_addr_format :: "u32 option"

datatype fi_printed = PrintAddrFormat u32 | PrintProtocol fi_protocol | PrintEpType fi_ep_type

text \<open>
  Libfabric and the C library: the bits of the capabilities and modes, the numbers of the address formats, the version,
  the texts of values, what \<^verbatim>\<open>fi_getinfo\<close> gives, the name of the host and the conversions of addresses.
\<close>

record libfabric =
  FI_MSG :: u64
  FI_RMA :: u64
  FI_TAGGED :: u64
  FI_WRITE :: u64
  FI_RECV :: u64
  FI_SEND :: u64
  FI_REMOTE_WRITE :: u64
  FI_HMEM :: u64
  FI_MR_VIRT_ADDR :: u64
  FI_MR_LOCAL :: u64
  FI_MR_ALLOCATED :: u64
  FI_MR_PROV_KEY :: u64
  lf_code :: "FabricAddressFormat \<Rightarrow> u32"
  lf_version :: "nat \<times> nat"
  lf_tostr :: "fi_printed \<Rightarrow> string"
  lf_getinfo :: "fi_hints option \<Rightarrow> string option \<Rightarrow> string option \<Rightarrow> int \<times> fi_info list"
  lf_hostname :: string
  lf_ntop :: inet_ntop
  lf_pton4 :: inet_pton
  lf_pton6 :: inet_pton

definition requireCapability :: "fi_info \<Rightarrow> u64 \<Rightarrow> unit res" where
  "requireCapability info cap = (if fi_caps info AND cap \<noteq> cap then Throw (OfiException MXL_ERR_UNSUPPORTED_OPERATION) else Ret ())"

section \<open>The configuration of a provider\<close>

definition MXL_FABRICS_IFACE_CAP_BLOCKING_OPERATIONS :: u64 where "MXL_FABRICS_IFACE_CAP_BLOCKING_OPERATIONS = 1"
definition MXL_FABRICS_IFACE_CAP_REMOTE_WRITE :: u64 where "MXL_FABRICS_IFACE_CAP_REMOTE_WRITE = 2"
definition MXL_FABRICS_IFACE_CAP_SEND_RECEIVE :: u64 where "MXL_FABRICS_IFACE_CAP_SEND_RECEIVE = 4"

record ProviderCapabilities =
  pc_maxMessageSize :: u64
  pc_interfaceCaps :: u64

record mxlFabricsInterfaceConfig =
  if_provider :: int
  if_flags :: u64
  if_maxMessageSize :: u64
  if_node :: "string option"
  if_service :: "string option"

definition ProviderCapabilities_fromAPI :: "mxlFabricsInterfaceConfig \<Rightarrow> ProviderCapabilities" where
  "ProviderCapabilities_fromAPI c = \<lparr>pc_maxMessageSize = if_maxMessageSize c, pc_interfaceCaps = if_flags c\<rparr>"

record ProviderConfig =
  pv_providerName :: string
  pv_memoryRegistrationModes :: u32
  pv_endpointType :: fi_ep_type
  pv_caps :: u64
  pv_supportedAddressFormats :: "u32 list"
  pv_supportedProtocols :: "fi_protocol list"
  pv_requiredCaps :: u64
  pv_filteredCaps :: u64
  pv_capabilities :: "ProviderCapabilities option"

definition supportedMemoryRegistrationModes :: "libfabric \<Rightarrow> u32" where
  "supportedMemoryRegistrationModes lf = ucast (FI_MR_VIRT_ADDR lf OR FI_MR_LOCAL lf OR FI_MR_ALLOCATED lf OR FI_MR_PROV_KEY lf)"

definition libfabricCaps :: "libfabric \<Rightarrow> ProviderCapabilities option \<Rightarrow> bool \<Rightarrow> u64" where
  "libfabricCaps lf capabilities isTarget =
     (case capabilities of
        None \<Rightarrow> 0
      | Some c \<Rightarrow>
          let result = (if pc_interfaceCaps c AND MXL_FABRICS_IFACE_CAP_REMOTE_WRITE \<noteq> 0
                        then (if isTarget then FI_REMOTE_WRITE lf else FI_WRITE lf) OR FI_RMA lf else 0)
          in if pc_interfaceCaps c AND MXL_FABRICS_IFACE_CAP_SEND_RECEIVE \<noteq> 0 then result OR (FI_SEND lf OR FI_RECV lf) else result)"

definition libfabricRequiredCaps :: "libfabric \<Rightarrow> ProviderCapabilities option \<Rightarrow> u64" where
  "libfabricRequiredCaps lf capabilities =
     (case capabilities of
        None \<Rightarrow> 0
      | Some c \<Rightarrow> if pc_interfaceCaps c AND MXL_FABRICS_IFACE_CAP_REMOTE_WRITE \<noteq> 0 then FI_RMA lf else 0)"

definition ProviderConfig_tcp :: "libfabric \<Rightarrow> bool \<Rightarrow> ProviderCapabilities option \<Rightarrow> ProviderConfig" where
  "ProviderConfig_tcp lf isTarget capabilities =
     \<lparr>pv_providerName = ''tcp'', pv_memoryRegistrationModes = supportedMemoryRegistrationModes lf, pv_endpointType = FI_EP_MSG,
      pv_caps = libfabricCaps lf capabilities isTarget,
      pv_supportedAddressFormats = [lf_code lf Format_SockaddrIn, lf_code lf Format_SockaddrIn6],
      pv_supportedProtocols = [FI_PROTO_SOCK_TCP],
      pv_requiredCaps = libfabricRequiredCaps lf capabilities OR FI_MSG lf, pv_filteredCaps = FI_TAGGED lf,
      pv_capabilities = capabilities\<rparr>"

definition ProviderConfig_verbs :: "libfabric \<Rightarrow> bool \<Rightarrow> ProviderCapabilities option \<Rightarrow> ProviderConfig" where
  "ProviderConfig_verbs lf isTarget capabilities =
     \<lparr>pv_providerName = ''verbs'', pv_memoryRegistrationModes = supportedMemoryRegistrationModes lf, pv_endpointType = FI_EP_MSG,
      pv_caps = libfabricCaps lf capabilities isTarget,
      pv_supportedAddressFormats = [lf_code lf Format_SockaddrIn, lf_code lf Format_SockaddrIn6],
      pv_supportedProtocols = [FI_PROTO_RDMA_CM_IB_RC],
      pv_requiredCaps = libfabricRequiredCaps lf capabilities OR FI_MSG lf, pv_filteredCaps = FI_HMEM lf,
      pv_capabilities = capabilities\<rparr>"

definition ProviderConfig_shm :: "libfabric \<Rightarrow> bool \<Rightarrow> ProviderCapabilities option \<Rightarrow> ProviderConfig" where
  "ProviderConfig_shm lf isTarget capabilities =
     \<lparr>pv_providerName = ''shm'', pv_memoryRegistrationModes = supportedMemoryRegistrationModes lf, pv_endpointType = FI_EP_RDM,
      pv_caps = libfabricCaps lf capabilities isTarget,
      pv_supportedAddressFormats = [lf_code lf Format_String],
      pv_supportedProtocols = [FI_PROTO_SHM],
      pv_requiredCaps = libfabricRequiredCaps lf capabilities, pv_filteredCaps = FI_HMEM lf,
      pv_capabilities = capabilities\<rparr>"

definition ProviderConfig_efa :: "libfabric \<Rightarrow> bool \<Rightarrow> ProviderCapabilities option \<Rightarrow> ProviderConfig" where
  "ProviderConfig_efa lf isTarget capabilities =
     \<lparr>pv_providerName = ''efa'', pv_memoryRegistrationModes = supportedMemoryRegistrationModes lf, pv_endpointType = FI_EP_RDM,
      pv_caps = libfabricCaps lf capabilities isTarget,
      pv_supportedAddressFormats = [lf_code lf Format_Efa],
      pv_supportedProtocols = [FI_PROTO_EFA],
      pv_requiredCaps = libfabricRequiredCaps lf capabilities, pv_filteredCaps = FI_HMEM lf OR FI_TAGGED lf,
      pv_capabilities = capabilities\<rparr>"

fun ProviderConfig_create :: "libfabric \<Rightarrow> Provider \<Rightarrow> bool \<Rightarrow> ProviderCapabilities option \<Rightarrow> ProviderConfig res" where
  "ProviderConfig_create lf Provider_TCP isTarget capabilities = Ret (ProviderConfig_tcp lf isTarget capabilities)"
| "ProviderConfig_create lf Provider_VERBS isTarget capabilities = Ret (ProviderConfig_verbs lf isTarget capabilities)"
| "ProviderConfig_create lf Provider_EFA isTarget capabilities = Ret (ProviderConfig_efa lf isTarget capabilities)"
| "ProviderConfig_create lf Provider_SHM isTarget capabilities = Ret (ProviderConfig_shm lf isTarget capabilities)"
| "ProviderConfig_create lf Provider_ANY isTarget capabilities = Throw (OfiException MXL_ERR_INVALID_STATE)"

definition isSupportedFabricInfo :: "ProviderConfig \<Rightarrow> fi_info \<Rightarrow> bool" where
  "isSupportedFabricInfo c info \<longleftrightarrow>
     (let protocolNotSupported = fi_protocol info \<notin> set (pv_supportedProtocols c);
          addressFormatNotSupported = fi_addr_format info \<notin> set (pv_supportedAddressFormats c);
          containsFilteredCaps = fi_caps info AND pv_filteredCaps c > 0;
          missingRequiredCaps = pv_requiredCaps c \<noteq> 0 \<and> fi_caps info AND pv_requiredCaps c \<noteq> pv_requiredCaps c;
          unsupportedEndpointType = fi_ep_type info \<noteq> pv_endpointType c
      in \<not> (protocolNotSupported \<or> addressFormatNotSupported \<or> containsFilteredCaps \<or> missingRequiredCaps \<or> unsupportedEndpointType))"

section \<open>The lists of libfabric\<close>

definition FabricInfoList_get :: "libfabric \<Rightarrow> fi_info list res" where
  "FabricInfoList_get lf = (case lf_getinfo lf None None None of (ret, infos) \<Rightarrow> map_ret (\<lambda>_. infos) (fiCall ret))"

definition getSourceInterfaces :: "libfabric \<Rightarrow> ProviderConfig \<Rightarrow> FabricAddress option \<Rightarrow> fi_info list res" where
  "getSourceInterfaces lf c sourceAddress =
     (let hints = \<lparr>hi_prov_name = pv_providerName c, hi_mr_mode = pv_memoryRegistrationModes c, hi_ep_type = pv_endpointType c,
                   hi_caps = pv_caps c, hi_addr_format = map_option (\<lambda>a. lf_code lf (addressFormat a)) sourceAddress\<rparr>
      in case lf_getinfo lf (Some hints) (Option.bind sourceAddress (node (lf_ntop lf))) (Option.bind sourceAddress service) of
           (ret, infos) \<Rightarrow> map_ret (\<lambda>_. infos) (fiCall ret))"

section \<open>The interface for a target or an initiator\<close>

definition selectSourceInterface :: "libfabric \<Rightarrow> mxlFabricsInterfaceConfig \<Rightarrow> bool \<Rightarrow> (fi_info \<times> ProviderConfig) res" where
  "selectSourceInterface lf interfaceConfig isTarget =
     (case providerFromAPI (if_provider interfaceConfig) of
        None \<Rightarrow> Throw (OfiException MXL_ERR_INVALID_ARG)
      | Some provider \<Rightarrow>
          let caps = ProviderCapabilities_fromAPI interfaceConfig
          in if pc_interfaceCaps caps AND (MXL_FABRICS_IFACE_CAP_REMOTE_WRITE OR MXL_FABRICS_IFACE_CAP_SEND_RECEIVE) = 0
             then Throw (OfiException MXL_ERR_INVALID_ARG)
             else if pc_interfaceCaps caps AND MXL_FABRICS_IFACE_CAP_REMOTE_WRITE = 0 then Throw (OfiException MXL_ERR_NO_FABRIC)
             else bind_res (ProviderConfig_create lf provider isTarget (Some caps)) (\<lambda>providerConfig.
                  bind_res (address_parse (lf_pton4 lf) (lf_pton6 lf) provider (if_node interfaceConfig) (if_service interfaceConfig)) (\<lambda>fabricAddress.
                  bind_res (getSourceInterfaces lf providerConfig (Some fabricAddress)) (\<lambda>sourceInterfaces.
                  case sourceInterfaces of
                    [] \<Rightarrow> Throw (OfiException MXL_ERR_NO_FABRIC)
                  | info # _ \<Rightarrow> Ret (info, providerConfig)))))"

section \<open>The description of an interface\<close>

text \<open>A number as a double: the nearest value of 53 bits, the even one of two.\<close>

fun surplus_bits :: "nat \<Rightarrow> nat" where
  "surplus_bits n = (if n < 2 ^ 53 then 0 else Suc (surplus_bits (n div 2)))"

declare surplus_bits.simps [simp del]

definition to_double :: "nat \<Rightarrow> rat" where
  "to_double n =
     (let k = surplus_bits n; q = n div 2 ^ k; r = n mod 2 ^ k
      in of_nat ((if 2 * r > 2 ^ k \<or> 2 * r = 2 ^ k \<and> odd q then q + 1 else q) * 2 ^ k))"

definition copyCStringProperty :: "object \<Rightarrow> string option \<Rightarrow> string \<Rightarrow> object" where
  "copyCStringProperty destination v name =
     (case v of Some (c # cs) \<Rightarrow> obj_set name (JString (c # cs)) destination | _ \<Rightarrow> destination)"

definition copyStringProperty :: "object \<Rightarrow> string \<Rightarrow> string \<Rightarrow> object" where
  "copyStringProperty destination v name = (if v \<noteq> [] then obj_set name (JString v) destination else destination)"

definition copyNumberProperty :: "object \<Rightarrow> nat \<Rightarrow> string \<Rightarrow> object" where
  "copyNumberProperty destination v name = obj_set name (JNumber (to_double v)) destination"

definition link_state_text :: "fi_link_state \<Rightarrow> string" where
  "link_state_text st = (case st of FI_LINK_UP \<Rightarrow> ''up'' | FI_LINK_DOWN \<Rightarrow> ''down'' | FI_LINK_UNKNOWN \<Rightarrow> ''unknown'')"

definition copyNicProperties :: "object \<Rightarrow> fid_nic \<Rightarrow> object" where
  "copyNicProperties destination nic =
     (let destination = (case nic_device nic of
          None \<Rightarrow> destination
        | Some device \<Rightarrow>
            let destination = copyCStringProperty destination (dv_name device) ''device_name'';
                destination = copyCStringProperty destination (dv_device_id device) ''device_id'';
                destination = copyCStringProperty destination (dv_vendor_id device) ''device_vendor_id'';
                destination = copyCStringProperty destination (dv_device_version device) ''device_version'';
                destination = copyCStringProperty destination (dv_driver device) ''device_driver''
            in copyCStringProperty destination (dv_firmware device) ''device_firmware'');
          destination = (case nic_link nic of
          None \<Rightarrow> destination
        | Some link \<Rightarrow>
            let destination = obj_set ''link_state'' (JString (link_state_text (lk_state link))) destination;
                destination = (if lk_speed link \<noteq> 0 then obj_set ''link_speed'' (JNumber (to_double (unat (lk_speed link)))) destination
                               else destination);
                destination = copyCStringProperty destination (lk_address link) ''link_address''
            in copyCStringProperty destination (lk_network_type link) ''link_type'')
      in case nic_bus nic of
           Some (FI_BUS_PCI domain_id bus_id device_id function_id) \<Rightarrow>
             let destination = copyNumberProperty destination (unat domain_id) ''pci_domain_id'';
                 destination = copyNumberProperty destination (unat bus_id) ''pci_bus_id'';
                 destination = copyNumberProperty destination (unat device_id) ''pci_device_id''
             in copyNumberProperty destination (unat function_id) ''pci_function_id''
         | _ \<Rightarrow> destination)"

definition copyDomainProperties :: "object \<Rightarrow> fi_domain_attr \<Rightarrow> object" where
  "copyDomainProperties destination domain =
     (let destination = copyCStringProperty destination (da_name domain) ''fi_domain_name'';
          destination = copyNumberProperty destination (unat (da_cq_cnt domain)) ''fi_domain_cq_cnt'';
          destination = copyNumberProperty destination (unat (da_ep_cnt domain)) ''fi_domain_ep_cnt''
      in copyNumberProperty destination (unat (da_mr_cnt domain)) ''fi_domain_mr_cnt'')"

record FabricInterfaceDescription =
  fd_provider :: Provider
  fd_node :: string
  fd_service :: string
  fd_rawCaps :: u64
  fd_maxMessageSize :: u64
  fd_attr :: object

definition value_or :: "'a option \<Rightarrow> 'a \<Rightarrow> 'a" where
  "value_or v d = (case v of Some x \<Rightarrow> x | None \<Rightarrow> d)"

definition interface_caps :: "libfabric \<Rightarrow> Provider \<Rightarrow> u64 \<Rightarrow> u64" where
  "interface_caps lf provider info_caps =
     (let caps = (if info_caps AND (FI_SEND lf OR FI_RECV lf) \<noteq> 0 then MXL_FABRICS_IFACE_CAP_SEND_RECEIVE else 0);
          caps = (if info_caps AND (FI_REMOTE_WRITE lf OR FI_WRITE lf OR FI_RMA lf) \<noteq> 0 then caps OR MXL_FABRICS_IFACE_CAP_REMOTE_WRITE else caps)
      in if provider \<noteq> Provider_EFA \<or> isWaitObjectSupportedForEFA (lf_version lf)
         then caps OR MXL_FABRICS_IFACE_CAP_BLOCKING_OPERATIONS else caps)"

definition description_attr :: "libfabric \<Rightarrow> Provider \<Rightarrow> fi_info \<Rightarrow> object" where
  "description_attr lf provider info =
     (let attr = copyStringProperty [] (lf_tostr lf (PrintAddrFormat (fi_addr_format info))) ''ep_addr_format'';
          attr = copyStringProperty attr (lf_tostr lf (PrintProtocol (fi_protocol info))) ''ep_protocol'';
          attr = copyStringProperty attr (lf_tostr lf (PrintEpType (fi_ep_type info))) ''ep_type'';
          attr = copyDomainProperties attr (fi_domain info);
          attr = (case fi_nic info of Some nic \<Rightarrow> copyNicProperties attr nic | None \<Rightarrow> attr)
      in if provider = Provider_TCP then copyCStringProperty attr (da_name (fi_domain info)) ''device_name'' else attr)"

definition FabricInterfaceDescription_create :: "libfabric \<Rightarrow> fi_info \<Rightarrow> FabricInterfaceDescription option res" where
  "FabricInterfaceDescription_create lf info =
     (case providerFromString (fi_prov_name info) of
        None \<Rightarrow> Ret None
      | Some provider \<Rightarrow>
          bind_res (fromSource (lf_code lf) (fi_addr_format info) (fi_src_addr info)) (\<lambda>faddr.
          Ret (Some \<lparr>fd_provider = provider,
            fd_node = (if provider = Provider_SHM then lf_hostname lf else value_or (node (lf_ntop lf) faddr) []),
            fd_service = (if provider = Provider_SHM then value_or (service faddr) [] else []),
            fd_rawCaps = interface_caps lf provider (fi_caps info),
            fd_maxMessageSize = fi_max_msg_size info,
            fd_attr = description_attr lf provider info\<rparr>)))"

section \<open>Probing\<close>

text \<open>The exceptions that \<^verbatim>\<open>Exception\<close> is a base of, and their status.\<close>

fun ofi_status :: "exn \<Rightarrow> mxlStatus option" where
  "ofi_status (OfiException s) = Some s"
| "ofi_status (FabricException s err) = Some s"
| "ofi_status _ = None"

definition matchesRequestedAddress :: "libfabric \<Rightarrow> FabricAddress \<Rightarrow> fi_info \<Rightarrow> bool res" where
  "matchesRequestedAddress lf requested info =
     (case providerFromString (fi_prov_name info) of
        None \<Rightarrow> Ret False
      | Some provider \<Rightarrow>
          if address_empty requested then Ret True
          else if provider = Provider_SHM then Ret (node (lf_ntop lf) requested = Some (lf_hostname lf))
          else case bind_res (mustConvertAddressFormat (lf_code lf) (fi_addr_format info)) (\<lambda>addressFormat.
                    bind_res (decode addressFormat (fi_src_addr info)) (\<lambda>addr.
                    Ret (node (lf_ntop lf) addr = node (lf_ntop lf) requested))) of
                 Throw e \<Rightarrow> if ofi_status e = Some MXL_ERR_INVALID_ARG then Ret False else Throw e
               | r \<Rightarrow> r)"

text \<open>The configurations and addresses are computed when a provider first needs them.\<close>

record probe_cache =
  pb_configs :: "(Provider \<times> ProviderConfig) list"
  pb_addresses :: "(Provider \<times> FabricAddress option) list"

definition parse_query :: "libfabric \<Rightarrow> mxlFabricsInterfaceConfig option \<Rightarrow> Provider \<Rightarrow> FabricAddress option res" where
  "parse_query lf query provider =
     (case address_parse (lf_pton4 lf) (lf_pton6 lf) provider (Option.bind query if_node) (Option.bind query if_service) of
        Ret a \<Rightarrow> Ret (Some a)
      | Throw e \<Rightarrow> if ofi_status e \<noteq> None then Ret None else Throw e
      | Undef \<Rightarrow> Undef)"

definition getProviderConfig :: "libfabric \<Rightarrow> Provider \<Rightarrow> (probe_cache, ProviderConfig) act" where
  "getProviderConfig lf provider c =
     (case map_of (pb_configs c) provider of
        Some config \<Rightarrow> (Ret config, c)
      | None \<Rightarrow>
          (case ProviderConfig_create lf provider False None of
             Ret config \<Rightarrow> (Ret config, c\<lparr>pb_configs := (provider, config) # pb_configs c\<rparr>)
           | Throw e \<Rightarrow> (Throw e, c)
           | Undef \<Rightarrow> (Undef, c)))"

definition getFabricAddress :: "libfabric \<Rightarrow> mxlFabricsInterfaceConfig option \<Rightarrow> Provider \<Rightarrow> (probe_cache, FabricAddress option) act" where
  "getFabricAddress lf query provider c =
     (case map_of (pb_addresses c) provider of
        Some a \<Rightarrow> (Ret a, c)
      | None \<Rightarrow>
          (case parse_query lf query provider of
             Ret a \<Rightarrow> (Ret a, c\<lparr>pb_addresses := (provider, a) # pb_addresses c\<rparr>)
           | Throw e \<Rightarrow> (Throw e, c)
           | Undef \<Rightarrow> (Undef, c)))"

definition probe_info ::
  "libfabric \<Rightarrow> mxlFabricsInterfaceConfig option \<Rightarrow> Provider \<Rightarrow> fi_info \<Rightarrow> (probe_cache, FabricInterfaceDescription option) act" where
  "probe_info lf query requestedProvider info =
     (case providerFromString (fi_prov_name info) of
        None \<Rightarrow> return_act None
      | Some provider \<Rightarrow>
          if requestedProvider \<noteq> Provider_ANY \<and> provider \<noteq> requestedProvider then return_act None
          else bind_act (getFabricAddress lf query provider) (\<lambda>address.
            case address of
              None \<Rightarrow> return_act None
            | Some a \<Rightarrow>
                bind_act (lift_act (matchesRequestedAddress lf a info)) (\<lambda>matches.
                  if \<not> matches then return_act None
                  else bind_act (getProviderConfig lf provider) (\<lambda>config.
                    if isSupportedFabricInfo config info then lift_act (FabricInterfaceDescription_create lf info)
                    else return_act None))))"

fun probe_loop ::
  "libfabric \<Rightarrow> mxlFabricsInterfaceConfig option \<Rightarrow> Provider \<Rightarrow> fi_info list \<Rightarrow> (probe_cache, FabricInterfaceDescription list) act" where
  "probe_loop lf query requestedProvider [] = return_act []"
| "probe_loop lf query requestedProvider (info # infos) =
     bind_act (probe_info lf query requestedProvider info) (\<lambda>description.
     bind_act (probe_loop lf query requestedProvider infos) (\<lambda>list.
     return_act (case description of Some d \<Rightarrow> d # list | None \<Rightarrow> list)))"

definition probeInterfaces :: "libfabric \<Rightarrow> mxlFabricsInterfaceConfig option \<Rightarrow> FabricInterfaceDescription list res" where
  "probeInterfaces lf query =
     (case (case query of Some q \<Rightarrow> providerFromAPI (if_provider q) | None \<Rightarrow> Some Provider_ANY) of
        None \<Rightarrow> Throw (OfiException MXL_ERR_INVALID_ARG)
      | Some requestedProvider \<Rightarrow>
          bind_res (FabricInfoList_get lf) (\<lambda>infos.
            fst (probe_loop lf query requestedProvider infos \<lparr>pb_configs = [], pb_addresses = []\<rparr>)))"

section \<open>The list for the caller\<close>

text \<open>The part of the C heap that the lists use: nodes and texts at their addresses, 0 being the null pointer.\<close>

record raw_interface =
  rn_next :: u64
  rn_provider :: int
  rn_flags :: u64
  rn_maxMessageSize :: u64
  rn_node :: u64
  rn_service :: u64
  rn_attr :: u64

datatype cell = TextCell string | NodeCell raw_interface

type_synonym c_heap = "(u64 \<times> cell) list"

definition heap_drop :: "u64 \<Rightarrow> c_heap \<Rightarrow> c_heap" where
  "heap_drop p h = filter (\<lambda>(q, _). q \<noteq> p) h"

text \<open>\<open>fresh\<close> is the address that the allocator gives.\<close>

definition strdup :: "(c_heap \<Rightarrow> u64) \<Rightarrow> string \<Rightarrow> (c_heap, u64) act" where
  "strdup fresh s h = (Ret (fresh h), (fresh h, TextCell (takeWhile (\<lambda>c. c \<noteq> CHR 0x00) s)) # h)"

definition new_node :: "(c_heap \<Rightarrow> u64) \<Rightarrow> raw_interface \<Rightarrow> (c_heap, u64) act" where
  "new_node fresh n h = (Ret (fresh h), (fresh h, NodeCell n) # h)"

definition toRawLinkedListNode ::
  "(c_heap \<Rightarrow> u64) \<Rightarrow> (json \<Rightarrow> string) \<Rightarrow> FabricInterfaceDescription \<Rightarrow> u64 \<Rightarrow> (c_heap, u64) act" where
  "toRawLinkedListNode fresh serialize d next_node =
     bind_act (if fd_attr d \<noteq> [] then strdup fresh (serialize (JObject (fd_attr d))) else return_act 0) (\<lambda>attr.
     bind_act (strdup fresh (fd_node d)) (\<lambda>nodeText.
     bind_act (strdup fresh (fd_service d)) (\<lambda>serviceText.
     new_node fresh \<lparr>rn_next = next_node, rn_provider = providerToAPI (fd_provider d), rn_flags = fd_rawCaps d,
       rn_maxMessageSize = fd_maxMessageSize d, rn_node = nodeText, rn_service = serviceText, rn_attr = attr\<rparr>)))"

text \<open>The list is built from its end.\<close>

fun toRawLinkedList_from ::
  "(c_heap \<Rightarrow> u64) \<Rightarrow> (json \<Rightarrow> string) \<Rightarrow> FabricInterfaceDescription list \<Rightarrow> u64 \<Rightarrow> (c_heap, u64) act" where
  "toRawLinkedList_from fresh serialize [] previousNode = return_act previousNode"
| "toRawLinkedList_from fresh serialize (d # ds) previousNode =
     bind_act (toRawLinkedListNode fresh serialize d previousNode) (toRawLinkedList_from fresh serialize ds)"

definition toRawLinkedList ::
  "(c_heap \<Rightarrow> u64) \<Rightarrow> (json \<Rightarrow> string) \<Rightarrow> FabricInterfaceDescription list \<Rightarrow> (c_heap, u64) act" where
  "toRawLinkedList fresh serialize interfaces = toRawLinkedList_from fresh serialize (rev interfaces) 0"

text \<open>Freeing what is not there, or is not what was allocated, is undefined; freeing null does nothing.\<close>

definition free_text :: "u64 \<Rightarrow> (c_heap, unit) act" where
  "free_text p h =
     (if p = 0 then (Ret (), h)
      else case map_of h p of Some (TextCell s) \<Rightarrow> (Ret (), heap_drop p h) | _ \<Rightarrow> (Undef, h))"

definition freeRawLinkedListNode :: "u64 \<Rightarrow> (c_heap, u64) act" where
  "freeRawLinkedListNode p h =
     (case map_of h p of
        Some (NodeCell n) \<Rightarrow>
          bind_act (free_text (rn_node n)) (\<lambda>_.
          bind_act (free_text (rn_service n)) (\<lambda>_.
          bind_act (free_text (rn_attr n)) (\<lambda>_ h. (Ret (rn_next n), heap_drop p h)))) h
      | _ \<Rightarrow> (Undef, h))"

lemma heap_drop_shorter: "map_of h p = Some c \<Longrightarrow> length (heap_drop p h) < length h"
  unfolding heap_drop_def by (rule length_filter_less [of "(p, c)"]) (auto dest: map_of_SomeD)

lemma heap_drop_le: "length (heap_drop p h) \<le> length h"
  by (simp add: heap_drop_def)

lemma free_text_parts: "free_text p h = (Ret (), h') \<Longrightarrow> length h' \<le> length h \<and> (map_of h q = Some (NodeCell n) \<longrightarrow> map_of h' q = Some (NodeCell n))"
proof -
  have "map_of (heap_drop p h) q = (if q = p then None else map_of h q)"
    by (induction h) (auto simp: heap_drop_def)
  then show "free_text p h = (Ret (), h') \<Longrightarrow> ?thesis"
    using heap_drop_le [of p h] by (auto simp: free_text_def split: if_splits option.splits cell.splits)
qed

lemma freeRawLinkedListNode_shorter:
  assumes "freeRawLinkedListNode p h = (Ret q, h')"
  shows "length h' < length h"
proof -
  obtain n h1 h2 h3 where n: "map_of h p = Some (NodeCell n)" and
    f: "free_text (rn_node n) h = (Ret (), h1)" "free_text (rn_service n) h1 = (Ret (), h2)" "free_text (rn_attr n) h2 = (Ret (), h3)"
    and h': "h' = heap_drop p h3"
    using assms by (auto simp: freeRawLinkedListNode_def bind_act_def split: option.splits cell.splits prod.splits res.splits)
  have "map_of h3 p = Some (NodeCell n)" "length h3 \<le> length h"
    using free_text_parts [OF f(1), of p n] free_text_parts [OF f(2), of p n] free_text_parts [OF f(3), of p n] n by auto
  then show ?thesis
    using heap_drop_shorter h' by fastforce
qed

function freeRawLinkedList :: "u64 \<Rightarrow> c_heap \<Rightarrow> unit res \<times> c_heap" where
  "freeRawLinkedList p h =
     (if p = 0 then (Ret (), h)
      else case freeRawLinkedListNode p h of
        (Ret q, h') \<Rightarrow> freeRawLinkedList q h'
      | (Throw e, h') \<Rightarrow> (Throw e, h')
      | (Undef, h') \<Rightarrow> (Undef, h'))"
  by pat_completeness auto

termination
  by (relation "measure (\<lambda>(p, h). length h)") (auto dest: freeRawLinkedListNode_shorter [OF sym])

declare freeRawLinkedList.simps [simp del]

section \<open>Capabilities as text\<close>

fun joined :: "string list \<Rightarrow> string" where
  "joined [] = []"
| "joined (s # rest) = CHR ''|'' # s @ joined rest"

definition interfaceCapsString :: "u64 \<Rightarrow> string" where
  "interfaceCapsString caps =
     (let capStrings = (if caps AND MXL_FABRICS_IFACE_CAP_BLOCKING_OPERATIONS \<noteq> 0 then [''BLOCKING_OPERATIONS''] else []);
          capStrings = (if caps AND MXL_FABRICS_IFACE_CAP_REMOTE_WRITE \<noteq> 0 then capStrings @ [''REMOTE_WRITE''] else capStrings);
          capStrings = (if caps AND MXL_FABRICS_IFACE_CAP_SEND_RECEIVE \<noteq> 0 then capStrings @ [''SEND_RECEIVE''] else capStrings);
          capStrings = (if capStrings = [] then [''<none>''] else capStrings)
      in hd capStrings @ joined (tl capStrings))"

end
