(* ===== verification/FabricInterfaceProofs.thy ===== *)
theory FabricInterfaceProofs
  imports FabricInterfaces
begin

text \<open>
  What the interfaces promise: probing gives what every interface for itself says, the interface found for an address has
  that address, and the list that the caller gets holds the descriptions and is freed completely.
\<close>

section \<open>Probing without caches\<close>

text \<open>What an interface contributes, whatever was probed before.\<close>

definition describe_info ::
  "libfabric \<Rightarrow> mxlFabricsInterfaceConfig option \<Rightarrow> Provider \<Rightarrow> fi_info \<Rightarrow> FabricInterfaceDescription option res" where
  "describe_info lf query requested info =
     (case providerFromString (fi_prov_name info) of
        None \<Rightarrow> Ret None
      | Some provider \<Rightarrow>
          if requested \<noteq> Provider_ANY \<and> provider \<noteq> requested then Ret None
          else bind_res (parse_query lf query provider) (\<lambda>address.
            case address of
              None \<Rightarrow> Ret None
            | Some a \<Rightarrow>
                bind_res (matchesRequestedAddress lf a info) (\<lambda>matches.
                  if \<not> matches then Ret None
                  else bind_res (ProviderConfig_create lf provider False None) (\<lambda>config.
                    if isSupportedFabricInfo config info then FabricInterfaceDescription_create lf info else Ret None))))"

fun collect :: "('a \<Rightarrow> 'b option res) \<Rightarrow> 'a list \<Rightarrow> 'b list res" where
  "collect f [] = Ret []"
| "collect f (x # xs) = bind_res (f x) (\<lambda>y. map_ret (\<lambda>ys. case y of Some b \<Rightarrow> b # ys | None \<Rightarrow> ys) (collect f xs))"

definition cache_ok :: "libfabric \<Rightarrow> mxlFabricsInterfaceConfig option \<Rightarrow> probe_cache \<Rightarrow> bool" where
  "cache_ok lf query c \<longleftrightarrow>
     (\<forall>p config. map_of (pb_configs c) p = Some config \<longrightarrow> ProviderConfig_create lf p False None = Ret config)
   \<and> (\<forall>p a. map_of (pb_addresses c) p = Some a \<longrightarrow> parse_query lf query p = Ret a)"

lemma getFabricAddress_eq:
  "cache_ok lf query c \<Longrightarrow> \<exists>c'. getFabricAddress lf query p c = (parse_query lf query p, c') \<and> cache_ok lf query c'"
  by (auto simp: getFabricAddress_def cache_ok_def split: option.splits res.splits)

lemma getProviderConfig_eq:
  "cache_ok lf query c \<Longrightarrow> \<exists>c'. getProviderConfig lf p c = (ProviderConfig_create lf p False None, c') \<and> cache_ok lf query c'"
  by (auto simp: getProviderConfig_def cache_ok_def split: option.splits res.splits)

lemma act_follows:
  assumes "\<exists>s'. m s = (r, s') \<and> P s'" and "\<And>x s'. r = Ret x \<Longrightarrow> P s' \<Longrightarrow> \<exists>s''. f x s' = (g x, s'') \<and> P s''"
  shows "\<exists>s'. bind_act m f s = (bind_res r g, s') \<and> P s'"
  using assms by (cases r) (auto simp: bind_act_def)

lemma lift_follows: "P s \<Longrightarrow> \<exists>s'. lift_act r s = (r, s') \<and> P s'"
  by (simp add: lift_act_def)

lemma return_follows: "P s \<Longrightarrow> \<exists>s'. return_act x s = (Ret x, s') \<and> P s'"
  by (simp add: return_act_def)

lemma probe_info_eq:
  assumes "cache_ok lf query c"
  shows "\<exists>c'. probe_info lf query requested info c = (describe_info lf query requested info, c') \<and> cache_ok lf query c'"
proof (cases "providerFromString (fi_prov_name info)")
  case None
  then show ?thesis
    using assms by (simp add: probe_info_def describe_info_def return_follows)
next
  case (Some p)
  show ?thesis
  proof (cases "requested \<noteq> Provider_ANY \<and> p \<noteq> requested")
    case True
    then show ?thesis
      using assms Some by (simp add: probe_info_def describe_info_def return_follows)
  next
    case False
    have "\<exists>c'. (case address of
        None \<Rightarrow> return_act None
      | Some a \<Rightarrow> bind_act (lift_act (matchesRequestedAddress lf a info)) (\<lambda>matches.
          if \<not> matches then return_act None
          else bind_act (getProviderConfig lf p) (\<lambda>config.
            if isSupportedFabricInfo config info then lift_act (FabricInterfaceDescription_create lf info) else return_act None))) c1 =
      ((case address of
        None \<Rightarrow> Ret None
      | Some a \<Rightarrow> bind_res (matchesRequestedAddress lf a info) (\<lambda>matches.
          if \<not> matches then Ret None
          else bind_res (ProviderConfig_create lf p False None) (\<lambda>config.
            if isSupportedFabricInfo config info then FabricInterfaceDescription_create lf info else Ret None))), c') \<and> cache_ok lf query c'"
      if "cache_ok lf query c1" for address c1
      using that
      by (cases address)
         (auto simp: return_follows intro!: act_follows lift_follows return_follows getProviderConfig_eq split: if_splits)
    then show ?thesis
      using False Some unfolding probe_info_def describe_info_def
      by (simp only: option.case if_False) (rule act_follows [where P = "cache_ok lf query" and m = "getFabricAddress lf query p" and s = c, OF getFabricAddress_eq [OF assms]])
  qed
qed

lemma probe_loop_eq:
  "cache_ok lf query c \<Longrightarrow> \<exists>c'. probe_loop lf query requested infos c = (collect (describe_info lf query requested) infos, c') \<and> cache_ok lf query c'"
proof (induction infos arbitrary: c)
  case Nil
  then show ?case
    by (simp add: return_act_def)
next
  case (Cons info infos)
  obtain c1 where c1: "probe_info lf query requested info c = (describe_info lf query requested info, c1)" "cache_ok lf query c1"
    using probe_info_eq [OF Cons.prems] by blast
  obtain c2 where "probe_loop lf query requested infos c1 = (collect (describe_info lf query requested) infos, c2)" "cache_ok lf query c2"
    using Cons.IH [OF c1(2)] by blast
  then show ?case
    using c1
    by (cases "describe_info lf query requested info"; cases "collect (describe_info lf query requested) infos")
       (auto simp: bind_act_def return_act_def)
qed

lemma probeInterfaces_eq:
  "probeInterfaces lf query =
     (case (case query of Some q \<Rightarrow> providerFromAPI (if_provider q) | None \<Rightarrow> Some Provider_ANY) of
        None \<Rightarrow> Throw (OfiException MXL_ERR_INVALID_ARG)
      | Some requested \<Rightarrow> bind_res (FabricInfoList_get lf) (collect (describe_info lf query requested)))"
proof -
  have "(\<lambda>infos. fst (probe_loop lf query requested infos \<lparr>pb_configs = [], pb_addresses = []\<rparr>)) = collect (describe_info lf query requested)"
    for requested
  proof
    show "fst (probe_loop lf query requested infos \<lparr>pb_configs = [], pb_addresses = []\<rparr>) = collect (describe_info lf query requested) infos" for infos
      using probe_loop_eq [of lf query "\<lparr>pb_configs = [], pb_addresses = []\<rparr>" requested infos] by (auto simp: cache_ok_def)
  qed
  then show ?thesis
    by (simp add: probeInterfaces_def split: option.split)
qed

text \<open>
  C39: Probing is the same as asking every interface for itself, with the address and the configuration of its provider computed
  anew: the maps that keep them change neither the list, nor the order, nor what is thrown.
\<close>

theorem probe_equals_reference:
  "probeInterfaces lf query =
     (case (case query of Some q \<Rightarrow> providerFromAPI (if_provider q) | None \<Rightarrow> Some Provider_ANY) of
        None \<Rightarrow> Throw (OfiException MXL_ERR_INVALID_ARG)
      | Some requested \<Rightarrow> bind_res (FabricInfoList_get lf) (collect (describe_info lf query requested)))"
  by (rule probeInterfaces_eq)

section \<open>The interface for an address\<close>

lemma collect_Ret: "collect f xs = Ret ys \<Longrightarrow> y \<in> set ys \<Longrightarrow> \<exists>x \<in> set xs. f x = Ret (Some y)"
  by (induction xs arbitrary: ys) (auto simp: bind_res_Ret_iff map_ret_Ret_iff split: option.splits)

lemma created_node:
  assumes "FabricInterfaceDescription_create lf info = Ret (Some d)" "matchesRequestedAddress lf a info = Ret True" "\<not> address_empty a"
  shows "fd_node d = value_or (node (lf_ntop lf) a) []"
proof -
  obtain provider faddr where p: "providerFromString (fi_prov_name info) = Some provider"
    and source: "fromSource (lf_code lf) (fi_addr_format info) (fi_src_addr info) = Ret faddr"
    and d: "fd_node d = (if provider = Provider_SHM then lf_hostname lf else value_or (node (lf_ntop lf) faddr) [])"
    using assms(1) by (auto simp: FabricInterfaceDescription_create_def bind_res_Ret_iff split: option.splits)
  show ?thesis
  proof (cases "provider = Provider_SHM")
    case True
    then show ?thesis
      using assms(2,3) p d by (auto simp: matchesRequestedAddress_def value_or_def)
  next
    case False
    then obtain f addr where "mustConvertAddressFormat (lf_code lf) (fi_addr_format info) = Ret f" "decode f (fi_src_addr info) = Ret addr"
      "node (lf_ntop lf) addr = node (lf_ntop lf) a"
      using assms(2,3) p by (auto simp: matchesRequestedAddress_def bind_res_Ret_iff split: res.splits if_splits)
    moreover from this have "faddr = addr"
      using source by (simp add: fromSource_def)
    ultimately show ?thesis
      using False d by simp
  qed
qed

text \<open>
  C40: An interface that is offered for a query is of the provider that was asked for, and has the node of the address
  that was asked for, when there is one.
\<close>

theorem offered_interface_matches:
  assumes "probeInterfaces lf (Some q) = Ret list" "d \<in> set list"
  shows "providerFromAPI (if_provider q) \<in> {Some Provider_ANY, Some (fd_provider d)}
    \<and> (\<exists>a. parse_query lf (Some q) (fd_provider d) = Ret (Some a)
          \<and> (address_empty a \<or> fd_node d = value_or (node (lf_ntop lf) a) []))"
proof -
  obtain requested infos where requested: "providerFromAPI (if_provider q) = Some requested"
    and "collect (describe_info lf (Some q) requested) infos = Ret list"
    using assms(1) by (auto simp: probeInterfaces_eq bind_res_Ret_iff split: option.splits)
  then obtain info where info: "describe_info lf (Some q) requested info = Ret (Some d)"
    using collect_Ret assms(2) by metis
  then obtain p a where p: "providerFromString (fi_prov_name info) = Some p" "requested = Provider_ANY \<or> p = requested"
    and a: "parse_query lf (Some q) p = Ret (Some a)" "matchesRequestedAddress lf a info = Ret True"
    and d: "FabricInterfaceDescription_create lf info = Ret (Some d)"
    by (auto simp: describe_info_def bind_res_Ret_iff split: option.splits if_splits)
  have "fd_provider d = p"
    using d p(1) by (auto simp: FabricInterfaceDescription_create_def bind_res_Ret_iff)
  then show ?thesis
    using requested p(2) a created_node [OF d a(2)] by auto
qed

section \<open>The list for the caller is complete and is freed completely\<close>

text \<open>An allocator gives a new address, as long as the heap is not nearly full.\<close>

definition CAPACITY :: nat where
  "CAPACITY = 2 ^ 63"

definition allocates :: "(c_heap \<Rightarrow> u64) \<Rightarrow> bool" where
  "allocates fresh \<longleftrightarrow> (\<forall>h. length h < CAPACITY \<longrightarrow> fresh h \<noteq> 0 \<and> fresh h \<notin> fst ` set h)"

definition text_at :: "c_heap \<Rightarrow> u64 \<Rightarrow> string option" where
  "text_at h p = (case map_of h p of Some (TextCell s) \<Rightarrow> Some s | _ \<Rightarrow> None)"

definition c_text :: "string \<Rightarrow> string" where
  "c_text s = takeWhile (\<lambda>c. c \<noteq> CHR 0x00) s"

text \<open>What a caller finds that follows the pointers of a list.\<close>

definition node_shows :: "(json \<Rightarrow> string) \<Rightarrow> c_heap \<Rightarrow> raw_interface \<Rightarrow> FabricInterfaceDescription \<Rightarrow> bool" where
  "node_shows serialize h n d \<longleftrightarrow>
     rn_provider n = providerToAPI (fd_provider d) \<and> rn_flags n = fd_rawCaps d \<and> rn_maxMessageSize n = fd_maxMessageSize d
   \<and> text_at h (rn_node n) = Some (c_text (fd_node d)) \<and> text_at h (rn_service n) = Some (c_text (fd_service d))
   \<and> (if fd_attr d = [] then rn_attr n = 0 else text_at h (rn_attr n) = Some (c_text (serialize (JObject (fd_attr d)))))"

fun is_raw_list :: "(json \<Rightarrow> string) \<Rightarrow> c_heap \<Rightarrow> u64 \<Rightarrow> FabricInterfaceDescription list \<Rightarrow> bool" where
  "is_raw_list serialize h p [] \<longleftrightarrow> p = 0"
| "is_raw_list serialize h p (d # ds) \<longleftrightarrow>
     p \<noteq> 0 \<and> (\<exists>n. map_of h p = Some (NodeCell n) \<and> node_shows serialize h n d \<and> is_raw_list serialize h (rn_next n) ds)"

lemma text_at_present: "text_at h p = Some s \<Longrightarrow> p \<in> fst ` set h"
  by (auto simp: text_at_def rev_image_eqI split: option.splits dest!: map_of_SomeD)

lemma text_at_extended:
  "fst ` set new \<inter> fst ` set h = {} \<Longrightarrow> text_at h p = Some s \<Longrightarrow> text_at (new @ h) p = Some s"
  using text_at_present [of h p s] map_of_eq_None_iff [of new p] by (auto simp: text_at_def map_add_def)

lemma is_raw_list_extended:
  assumes "fst ` set new \<inter> fst ` set h = {}"
  shows "is_raw_list serialize h p ds \<Longrightarrow> is_raw_list serialize (new @ h) p ds"
proof (induction ds arbitrary: p)
  case (Cons d ds)
  then obtain n where n: "p \<noteq> 0" "map_of h p = Some (NodeCell n)" "node_shows serialize h n d" "is_raw_list serialize h (rn_next n) ds"
    by auto
  then have "map_of (new @ h) p = Some (NodeCell n)"
    using assms map_of_eq_None_iff [of new p] map_of_SomeD [OF n(2)] by (force simp: map_add_def)
  moreover have "node_shows serialize (new @ h) n d"
    using n(3) text_at_extended [OF assms] by (auto simp: node_shows_def split: if_splits)
  ultimately show ?case
    using n Cons.IH by auto
qed simp

lemma heap_drop_other: "p \<notin> fst ` set h \<Longrightarrow> heap_drop p h = h"
  unfolding heap_drop_def by (induction h) force+

lemma heap_drop_simps [simp]:
  "heap_drop p ((q, c) # h) = (if q = p then heap_drop p h else (q, c) # heap_drop p h)"
  by (auto simp: heap_drop_def)

text \<open>A node is built from cells of its own, and freeing it leaves the cells that were there before.\<close>

lemma node_built:
  assumes "allocates fresh" "length h + 4 < CAPACITY" "toRawLinkedListNode fresh serialize d q h = (r, h')"
  shows "\<exists>new p n. length new \<le> 4 \<and> r = Ret p \<and> p \<noteq> 0 \<and> h' = new @ h \<and> fst ` set new \<inter> fst ` set h = {} \<and> map_of h' p = Some (NodeCell n)
    \<and> node_shows serialize h' n d \<and> rn_next n = q \<and> freeRawLinkedListNode p h' = (Ret q, h)"
proof -
  define h1 where "h1 = (if fd_attr d \<noteq> [] then (fresh h, TextCell (c_text (serialize (JObject (fd_attr d))))) # h else h)"
  define attr where "attr = (if fd_attr d \<noteq> [] then fresh h else 0)"
  define h2 where "h2 = (fresh h1, TextCell (c_text (fd_node d))) # h1"
  define h3 where "h3 = (fresh h2, TextCell (c_text (fd_service d))) # h2"
  define n where "n = \<lparr>rn_next = q, rn_provider = providerToAPI (fd_provider d), rn_flags = fd_rawCaps d,
     rn_maxMessageSize = fd_maxMessageSize d, rn_node = fresh h1, rn_service = fresh h2, rn_attr = attr\<rparr>"
  note defs = h1_def attr_def h2_def h3_def n_def
  have r: "r = Ret (fresh h3)" "h' = (fresh h3, NodeCell n) # h3"
    using assms(3)
    by (auto simp: toRawLinkedListNode_def bind_act_def strdup_def new_node_def return_act_def defs c_text_def)
  have f: "fresh k \<noteq> 0" "fresh k \<notin> fst ` set k" if "length k < CAPACITY" for k
    using assms(1) that by (auto simp: allocates_def)
  have len: "length h < CAPACITY" "length h1 < CAPACITY" "length h2 < CAPACITY" "length h3 < CAPACITY"
    using assms(2) by (auto simp: h3_def h2_def h1_def)
  have new: "fresh h1 \<notin> fst ` set h1" "fresh h2 \<notin> fst ` set h2" "fresh h3 \<notin> fst ` set h3" "fresh h \<notin> fst ` set h"
    by (rule f, rule len)+
  obtain new' where h1': "h1 = new' @ h" "fst ` set new' \<inter> fst ` set h = {}"
    "new' = (if fd_attr d \<noteq> [] then [(fresh h, TextCell (c_text (serialize (JObject (fd_attr d)))))] else [])"
    using new(4) by (cases "fd_attr d = []") (auto simp: h1_def)
  have parts: "h' = ((fresh h3, NodeCell n) # (fresh h2, TextCell (c_text (fd_service d))) # (fresh h1, TextCell (c_text (fd_node d))) # new') @ h"
    using r(2) h1'(1) by (simp add: h3_def h2_def)
  have apart: "fresh h1 \<noteq> fresh h2" "fresh h1 \<noteq> fresh h3" "fresh h2 \<noteq> fresh h3" "fresh h1 \<notin> fst ` set h" "fresh h2 \<notin> fst ` set h" "fresh h3 \<notin> fst ` set h"
    "fd_attr d \<noteq> [] \<Longrightarrow> fresh h \<noteq> fresh h1 \<and> fresh h \<noteq> fresh h2 \<and> fresh h \<noteq> fresh h3"
    using new by (auto simp: h3_def h2_def h1_def split: if_splits)
  have "freeRawLinkedListNode (fresh h3) h' = (Ret q, h)"
    using apart new(4) f(1) [OF len(1)] f(1) [OF len(2)] f(1) [OF len(3)] h1'
    by (auto simp: freeRawLinkedListNode_def parts bind_act_def free_text_def n_def attr_def heap_drop_other)
  moreover have "node_shows serialize h' n d"
    using apart h1' by (auto simp: node_shows_def parts text_at_def n_def attr_def)
  moreover have "fst ` set ((fresh h3, NodeCell n) # (fresh h2, TextCell (c_text (fd_service d))) # (fresh h1, TextCell (c_text (fd_node d))) # new')
      \<inter> fst ` set h = {}"
    using apart h1'(2) by auto
  moreover have "map_of h' (fresh h3) = Some (NodeCell n)" "rn_next n = q"
    by (simp_all add: r n_def)
  moreover have "length ((fresh h3, NodeCell n) # (fresh h2, TextCell (c_text (fd_service d))) # (fresh h1, TextCell (c_text (fd_node d))) # new') \<le> 4"
    by (simp add: h1'(3))
  ultimately show ?thesis
    using r(1) f(1) [OF len(4)] parts by blast
qed

lemma list_built:
  assumes "allocates fresh" "is_raw_list serialize h previous ds" "freeRawLinkedList previous h = (Ret (), h0)"
    and "\<forall>q c. map_of h0 q = Some c \<longrightarrow> map_of h q = Some c" "length h + 4 * length todo < CAPACITY"
  shows "\<exists>p h'. toRawLinkedList_from fresh serialize todo previous h = (Ret p, h') \<and> is_raw_list serialize h' p (rev todo @ ds)
    \<and> freeRawLinkedList p h' = (Ret (), h0) \<and> (\<forall>q c. map_of h0 q = Some c \<longrightarrow> map_of h' q = Some c)"
  using assms
proof (induction todo arbitrary: previous h ds)
  case Nil
  then show ?case
    by (simp add: return_act_def)
next
  case (Cons d todo)
  obtain r h1 where built: "toRawLinkedListNode fresh serialize d previous h = (r, h1)"
    by fastforce
  have room: "length h + 4 < CAPACITY"
    using Cons.prems(5) by simp
  obtain new p n where new: "length new \<le> 4" and p: "r = Ret p" "p \<noteq> 0" "h1 = new @ h" "fst ` set new \<inter> fst ` set h = {}" "map_of h1 p = Some (NodeCell n)"
    "node_shows serialize h1 n d" "rn_next n = previous" "freeRawLinkedListNode p h1 = (Ret previous, h)"
    using node_built [OF assms(1) room built] by blast
  have "is_raw_list serialize h1 p (d # ds)"
    using p is_raw_list_extended [OF p(4) Cons.prems(2)] by auto
  moreover have "freeRawLinkedList p h1 = (Ret (), h0)"
    using p(2,8) Cons.prems(3) by (subst freeRawLinkedList.simps) simp
  moreover have "\<forall>q c. map_of h0 q = Some c \<longrightarrow> map_of h1 q = Some c"
  proof (intro allI impI)
    fix q c
    assume "map_of h0 q = Some c"
    then have c: "map_of h q = Some c"
      using Cons.prems(4) by blast
    then show "map_of h1 q = Some c"
      using p(3,4) map_of_eq_None_iff [of new q] map_of_SomeD [OF c] by (force simp: map_add_def)
  qed
  moreover have "length h1 + 4 * length todo < CAPACITY"
    using Cons.prems(5) new p(3) by simp
  ultimately obtain p' h' where "toRawLinkedList_from fresh serialize todo p h1 = (Ret p', h')" "is_raw_list serialize h' p' (rev todo @ d # ds)"
    "freeRawLinkedList p' h' = (Ret (), h0)" "\<forall>q c. map_of h0 q = Some c \<longrightarrow> map_of h' q = Some c"
    using Cons.IH [OF assms(1)] by blast
  then show ?case
    using built p(1) by (auto simp: bind_act_def)
qed

text \<open>
  C38: The list that the caller gets shows the interfaces in their order and disturbs nothing else in memory; freeing it
  frees every node and every text exactly once and gives back the memory as it was.
\<close>

theorem list_freed_completely:
  assumes "allocates fresh" "length h + 4 * length interfaces < CAPACITY"
  shows "\<exists>p h'. toRawLinkedList fresh serialize interfaces h = (Ret p, h') \<and> is_raw_list serialize h' p interfaces
    \<and> (\<forall>q c. map_of h q = Some c \<longrightarrow> map_of h' q = Some c) \<and> freeRawLinkedList p h' = (Ret (), h)"
proof -
  have "is_raw_list serialize h 0 []" "freeRawLinkedList 0 h = (Ret (), h)"
    by (simp_all add: freeRawLinkedList.simps)
  from list_built [OF assms(1) this, of "rev interfaces"] assms(2) show ?thesis
    by (auto simp: toRawLinkedList_def)
qed

section \<open>An example\<close>

text \<open>The allocator takes the least address that is free.\<close>

definition first_free :: "c_heap \<Rightarrow> u64" where
  "first_free h = (case find (\<lambda>k. k \<notin> fst ` set h) (map of_nat [1..<length h + 2]) of Some k \<Rightarrow> k | None \<Rightarrow> 0)"

lemma find_found: "find P xs = Some x \<Longrightarrow> x \<in> set xs \<and> P x"
  by (auto simp: find_Some_iff)

lemma first_free_allocates: "allocates first_free"
  unfolding allocates_def
proof (intro allI impI)
  fix h :: c_heap
  assume "length h < CAPACITY"
  then have small: "length h + 2 \<le> 2 ^ 64"
    by (simp add: CAPACITY_def)
  let ?ks = "map of_nat [1..<length h + 2] :: u64 list"
  have "inj_on (of_nat :: nat \<Rightarrow> u64) {1..<length h + 2}"
  proof (rule inj_onI)
    fix m n
    assume mn: "m \<in> {1..<length h + 2}" "n \<in> {1..<length h + 2}" and "(of_nat m :: u64) = of_nat n"
    then have "unat (of_nat m :: u64) = unat (of_nat n :: u64)"
      by simp
    then show "m = n"
      using mn small by (simp add: unat_of_nat)
  qed
  moreover have keys: "set ?ks = of_nat ` {1..<length h + 2}"
    by (simp only: set_map set_upt)
  ultimately have "card (set ?ks) = length h + 1"
    by (simp only: card_image) simp
  moreover have "card (fst ` set h) \<le> length h"
    using card_image_le [of "set h" fst] card_length [of h] by simp
  ultimately have "\<not> set ?ks \<subseteq> fst ` set h"
    using card_mono [of "fst ` set h" "set ?ks"] by fastforce
  then obtain k where k: "find (\<lambda>k. k \<notin> fst ` set h) ?ks = Some k"
    by (cases "find (\<lambda>k. k \<notin> fst ` set h) ?ks") (auto simp: find_None_iff)
  then have "k \<in> set ?ks" "k \<notin> fst ` set h"
    using find_found [OF k] by blast+
  moreover have "(of_nat n :: u64) \<noteq> 0" if "n \<in> {1..<length h + 2}" for n
    using that small by (auto simp: word_of_nat_eq_0_iff dest: dvd_imp_le)
  moreover have "first_free h = k"
    by (simp only: first_free_def k option.case)
  moreover obtain n where "n \<in> {1..<length h + 2}" "k = of_nat n"
    using \<open>k \<in> set ?ks\<close> keys by blast
  ultimately show "first_free h \<noteq> 0 \<and> first_free h \<notin> fst ` set h"
    by metis
qed

definition example_interface :: FabricInterfaceDescription where
  "example_interface = \<lparr>fd_provider = Provider_TCP, fd_node = ''10.0.0.1'', fd_service = [], fd_rawCaps = 3, fd_maxMessageSize = 4096,
     fd_attr = [(''device_name'', JString ''eth0'')]\<rparr>"

theorem list_freed_completely_witness:
  "\<exists>p h'. toRawLinkedList first_free (\<lambda>_. ''{}'') [example_interface, example_interface] [(7, TextCell ''other'')] = (Ret p, h')
    \<and> freeRawLinkedList p h' = (Ret (), [(7, TextCell ''other'')])"
proof -
  have "length [(7, TextCell ''other'')] + 4 * length [example_interface, example_interface] < CAPACITY"
    by (simp add: CAPACITY_def)
  from list_freed_completely [OF first_free_allocates this, of "\<lambda>_. ''{}''"] show ?thesis
    by auto
qed

text \<open>One interface of the TCP provider, with its address in the bytes of a socket address.\<close>

definition example_info :: fi_info where
  "example_info = \<lparr>fi_caps = 2 + 4 + 512 + 1024 + 2048 + 8192, fi_prov_name = ''tcp'', fi_addr_format = 2,
     fi_src_addr = Some [2, 0, 0, 0, 10, 0, 0, 1, 0, 0, 0, 0, 0, 0, 0, 0], fi_ep_type = FI_EP_MSG, fi_protocol = FI_PROTO_SOCK_TCP,
     fi_max_msg_size = 4096, fi_domain = \<lparr>da_name = Some ''eth0'', da_cq_cnt = 1, da_ep_cnt = 1, da_mr_cnt = 1, da_mr_mode = 0\<rparr>,
     fi_nic = None, fi_rx_cq_data = False\<rparr>"

definition example_code :: "FabricAddressFormat \<Rightarrow> u32" where
  "example_code f = (case f of Format_Unspec \<Rightarrow> 0 | Format_Sockaddr \<Rightarrow> 1 | Format_SockaddrIn \<Rightarrow> 2 | Format_SockaddrIn6 \<Rightarrow> 3
     | Format_SockaddrIb \<Rightarrow> 4 | Format_SockaddrIp \<Rightarrow> 5 | Format_Efa \<Rightarrow> 6 | Format_String \<Rightarrow> 7)"

definition example_libfabric :: libfabric where
  "example_libfabric = \<lparr>FI_MSG = 2, FI_RMA = 4, FI_TAGGED = 8, FI_WRITE = 512, FI_RECV = 1024, FI_SEND = 2048, FI_REMOTE_WRITE = 8192,
     FI_HMEM = 2 ^ 47, FI_MR_VIRT_ADDR = 16, FI_MR_LOCAL = 4, FI_MR_ALLOCATED = 32, FI_MR_PROV_KEY = 64, lf_code = example_code,
     lf_version = (2, 4), lf_tostr = (\<lambda>_. ''text''), lf_getinfo = (\<lambda>_ _ _. (0, [example_info])), lf_hostname = ''host'',
     lf_ntop = (\<lambda>_ bytes. if bytes = [10, 0, 0, 1] then Some ''10.0.0.1'' else None),
     lf_pton4 = (\<lambda>s. if s = ''10.0.0.1'' then Some [10, 0, 0, 1] else None), lf_pton6 = (\<lambda>_. None)\<rparr>"

definition example_query :: mxlFabricsInterfaceConfig where
  "example_query = \<lparr>if_provider = 1, if_flags = 0, if_maxMessageSize = 0, if_node = Some ''10.0.0.1'', if_service = None\<rparr>"

lemma example_source:
  "decode Format_SockaddrIn (fi_src_addr example_info) = Ret (Native_in \<lparr>sin_family = 2, sin_port = 0, sin_addr = [10, 0, 0, 1]\<rparr>)"
  by (simp add: example_info_def decode_in_def field_at_def bytes_of_def)

lemma example_format: "mustConvertAddressFormat example_code (fi_addr_format example_info) = Ret Format_SockaddrIn"
  by (simp add: example_info_def mustConvertAddressFormat_def convertAddressFormat_def example_code_def valid_formats_def)

lemma example_parse: "parse_query example_libfabric (Some example_query) Provider_TCP = Ret (Some (Native_in \<lparr>sin_family = 2, sin_port = 0, sin_addr = [10, 0, 0, 1]\<rparr>))"
  by (simp add: parse_query_def address_parse_def example_libfabric_def example_query_def parseInternetAddress_def AF_INET_def)

lemma example_provider:
  "providerFromAPI (if_provider example_query) = Some Provider_TCP" "providerFromString (fi_prov_name example_info) = Some Provider_TCP"
  by (simp_all add: example_query_def providerFromAPI_def api_providers example_info_def providerFromString_def providerStringMap_def)

lemma example_supported: "isSupportedFabricInfo (ProviderConfig_tcp example_libfabric False None) example_info"
  by (simp add: isSupportedFabricInfo_def ProviderConfig_tcp_def example_libfabric_def example_info_def example_code_def libfabricRequiredCaps_def)

lemma example_probe: "\<exists>d. probeInterfaces example_libfabric (Some example_query) = Ret [d]"
proof -
  have code: "lf_code example_libfabric = example_code" "FabricInfoList_get example_libfabric = Ret [example_info]"
    by (simp_all add: example_libfabric_def FabricInfoList_get_def fiCall_def)
  obtain d where d: "FabricInterfaceDescription_create example_libfabric example_info = Ret (Some d)"
    by (auto simp: FabricInterfaceDescription_create_def example_provider fromSource_def code example_format example_source)
  have "describe_info example_libfabric (Some example_query) Provider_TCP example_info = Ret (Some d)"
    by (simp add: describe_info_def example_provider example_parse matchesRequestedAddress_def address_empty_def code example_format
        example_source example_supported d)
  then show ?thesis
    by (simp add: probeInterfaces_eq example_provider code)
qed

theorem offered_interface_matches_witness:
  "\<exists>d. probeInterfaces example_libfabric (Some example_query) = Ret [d] \<and> fd_node d = ''10.0.0.1''"
proof -
  obtain d where d: "probeInterfaces example_libfabric (Some example_query) = Ret [d]"
    using example_probe by blast
  have "fd_provider d = Provider_TCP"
    using offered_interface_matches [OF d, of d] by (simp add: example_provider)
  then have "fd_node d = value_or (node (lf_ntop example_libfabric) (Native_in \<lparr>sin_family = 2, sin_port = 0, sin_addr = [10, 0, 0, 1]\<rparr>)) []"
    using offered_interface_matches [OF d, of d] by (simp add: example_parse address_empty_def)
  then show ?thesis
    using d by (simp add: node_def example_libfabric_def value_or_def)
qed

end
