(* ===== verification/FabricSetup.thy ===== *)
theory FabricSetup
  imports FabricInterfaces FabricRdmInitiator FabricTarget
begin

text \<open>
  Setting up the two sides of a fabric: the functions \<^verbatim>\<open>setup\<close> of \<^verbatim>\<open>RCTarget.cpp\<close>, \<^verbatim>\<open>RDMTarget.cpp\<close>,
  \<^verbatim>\<open>RCInitiator.cpp\<close> and \<^verbatim>\<open>RDMInitiator.cpp\<close>, and the wrappers in \<^verbatim>\<open>Target.cpp\<close> and \<^verbatim>\<open>Initiator.cpp\<close> that choose
  between them.
\<close>

section \<open>What a setup meets\<close>

datatype open_call = Open_fabric | Open_domain | Open_eq | Open_av | Open_cq cq_attributes

text \<open>
  Libfabric, what opening its objects returns, the calls on endpoints, the identifier for a new endpoint, the address
  that it is given, the registration of memory, and the addresses of the entries of a bounce buffer.
\<close>

record setup_env =
  sv_libfabric :: libfabric
  sv_open :: "open_call \<Rightarrow> int"
  sv_fabric :: fabric
  sv_newId :: u64
  sv_length :: "int \<times> nat"
  sv_name :: "nat \<Rightarrow> int \<times> u8 list"
  sv_register :: registrar
  sv_entry_at :: "nat \<Rightarrow> u64"

definition open_object :: "setup_env \<Rightarrow> open_call \<Rightarrow> unit res" where
  "open_object env c = map_ret (\<lambda>_. ()) (fiCall (sv_open env c))"

definition usingVirtualAddresses :: "libfabric \<Rightarrow> fi_info \<Rightarrow> bool" where
  "usingVirtualAddresses lf info \<longleftrightarrow> ucast (da_mr_mode (fi_domain info)) AND FI_MR_VIRT_ADDR lf \<noteq> 0"

definition localAddress :: "setup_env \<Rightarrow> fi_info \<Rightarrow> RawFabricAddress res" where
  "localAddress env info = retrieveFabricAddress (lf_code (sv_libfabric env)) (fi_addr_format info) (sv_length env) (sv_name env)"

definition cq_attr_for :: "u64 option \<Rightarrow> cq_attributes" where
  "cq_attr_for cqDepth =
     (case cqDepth of
        Some n \<Rightarrow> CompletionQueue_Attributes_defaults\<lparr>ca_size := n\<rparr>
      | None \<Rightarrow> CompletionQueue_Attributes_defaults)"

text \<open>Without connections, EFA may have no object to wait on; then blocking operations cannot be had.\<close>

definition rdm_cq_attr :: "libfabric \<Rightarrow> bool \<Rightarrow> mxlFabricsInterfaceConfig \<Rightarrow> u64 option \<Rightarrow> cq_attributes res" where
  "rdm_cq_attr lf efa config cqDepth =
     (if efa \<and> \<not> isWaitObjectSupportedForEFA (lf_version lf) then
        if if_flags config AND MXL_FABRICS_IFACE_CAP_BLOCKING_OPERATIONS \<noteq> 0 then Throw (OfiException MXL_ERR_NO_FABRIC)
        else Ret ((cq_attr_for cqDepth)\<lparr>ca_waitObject := FI_WAIT_NONE\<rparr>)
      else Ret (cq_attr_for cqDepth))"

section \<open>Targets\<close>

fun ig_registerMemory ::
  "registrar \<Rightarrow> bool \<Rightarrow> IngressProtocol \<Rightarrow> (RegisteredRegion list, RemoteRegion list \<times> IngressProtocol) act" where
  "ig_registerMemory register virtual_addresses (GrainIngress p) =
     bind_act (gi_registerMemory register virtual_addresses p) (\<lambda>(remote, p). return_act (remote, GrainIngress p))"
| "ig_registerMemory register virtual_addresses (SampleIngress p) =
     bind_act (si_registerMemory register virtual_addresses p) (\<lambda>(remote, p). return_act (remote, SampleIngress p))"

fun ig_bounceBufferInfo :: "IngressProtocol \<Rightarrow> TargetInfoBounceBufferInfo option" where
  "ig_bounceBufferInfo (GrainIngress p) = None"
| "ig_bounceBufferInfo (SampleIngress p) = si_bounceBufferInfo p"

text \<open>The regions of the flow with their protocol, registered, and what the initiators are told of them.\<close>

definition describe_target ::
  "setup_env \<Rightarrow> fi_info \<Rightarrow> Provider \<Rightarrow> u64 \<Rightarrow> MappedFlow \<Rightarrow> (IngressProtocol \<times> TargetInfo) res" where
  "describe_target env info provider epid flow =
     bind_res (mxlFabricsRegionsFromMutableFlow flow) (\<lambda>mxlRegions.
     bind_res (selectIngressProtocol (sv_entry_at env) (mx_layout mxlRegions) (mx_regions mxlRegions) (mx_maxSyncBatchSize mxlRegions)) (\<lambda>proto.
     bind_res (localAddress env info) (\<lambda>address.
     bind_res (fst (ig_registerMemory (sv_register env) (usingVirtualAddresses (sv_libfabric env) info) proto [])) (\<lambda>(remote, proto).
     Ret (proto, \<lparr>ti_id = epid, ti_fabricAddress = address, ti_provider = provider, ti_remoteRegions = remote,
                  ti_bounceBufferInfo = ig_bounceBufferInfo proto\<rparr>)))))"

definition RCTarget_setup :: "setup_env \<Rightarrow> MappedFlow \<Rightarrow> fi_info \<Rightarrow> u64 option \<Rightarrow> (RCTarget \<times> TargetInfo) res" where
  "RCTarget_setup env flow info cqDepth =
     (let lf = sv_libfabric env
      in bind_res (requireCapability info (FI_REMOTE_WRITE lf)) (\<lambda>_.
         case providerFromString (fi_prov_name info) of
           None \<Rightarrow> Throw (OfiException MXL_ERR_INVALID_ARG)
         | Some provider \<Rightarrow>
             bind_res (fromSource (lf_code lf) (fi_addr_format info) (fi_src_addr info)) (\<lambda>_.
             bind_res (open_object env Open_fabric) (\<lambda>_.
             bind_res (open_object env Open_domain) (\<lambda>_.
             bind_res (makeListener (sv_fabric env) (sv_newId env)) (\<lambda>pep.
             bind_res (describe_target env info provider (pe_id pep) flow) (\<lambda>(proto, targetInfo).
             Ret (RCTarget_ctor pep proto cqDepth, targetInfo))))))))"

definition RDMTarget_setup ::
  "setup_env \<Rightarrow> mxlFabricsInterfaceConfig \<Rightarrow> MappedFlow \<Rightarrow> fi_info \<Rightarrow> u64 option \<Rightarrow> (RDMTarget \<times> TargetInfo) res" where
  "RDMTarget_setup env config flow info cqDepth =
     (let lf = sv_libfabric env; fab = sv_fabric env
      in bind_res (requireCapability info (FI_REMOTE_WRITE lf)) (\<lambda>_.
         case providerFromString (fi_prov_name info) of
           None \<Rightarrow> Throw (OfiException MXL_ERR_INVALID_ARG)
         | Some provider \<Rightarrow>
             bind_res (fromSource (lf_code lf) (fi_addr_format info) (fi_src_addr info)) (\<lambda>_.
             bind_res (open_object env Open_fabric) (\<lambda>_.
             bind_res (open_object env Open_domain) (\<lambda>_.
             bind_res (Endpoint_create fab (sv_newId env)) (\<lambda>endpoint.
             bind_res (rdm_cq_attr lf (provider = Provider_EFA) config cqDepth) (\<lambda>cqAttr.
             bind_res (open_object env (Open_cq cqAttr)) (\<lambda>_.
             bind_res (Endpoint_bind_cq fab endpoint) (\<lambda>endpoint.
             bind_res (open_object env Open_av) (\<lambda>_.
             bind_res (Endpoint_bind_av fab endpoint) (\<lambda>endpoint.
             bind_res (Endpoint_enable fab endpoint) (\<lambda>_.
             bind_res (describe_target env info provider (ep_id endpoint) flow) (\<lambda>(protocol, targetInfo).
             Ret (\<lparr>dt_ep = endpoint, dt_protocol = protocol\<rparr>, targetInfo))))))))))))))"

section \<open>Initiators\<close>

definition prepare_sender :: "setup_env \<Rightarrow> MappedFlow \<Rightarrow> (EgressProtocolTemplate \<times> RegisteredRegion list) res" where
  "prepare_sender env flow =
     bind_res (mxlFabricsRegionsFromFlow flow) (\<lambda>regions.
     bind_res (selectEgressProtocol (mx_layout regions) (mx_regions regions)) (\<lambda>proto.
     case et_registerMemory (sv_register env) proto [] of (r, regs) \<Rightarrow> map_ret (\<lambda>proto. (proto, regs)) r))"

text \<open>The memory of the process comes with the requests that were posted to it, at first none.\<close>

definition RCInitiator_setup :: "setup_env \<Rightarrow> MappedFlow \<Rightarrow> fi_info \<Rightarrow> u64 option \<Rightarrow> memory \<Rightarrow> RCInitiator res" where
  "RCInitiator_setup env flow info cqDepth mem =
     bind_res (requireCapability info (FI_WRITE (sv_libfabric env))) (\<lambda>_.
     bind_res (open_object env Open_fabric) (\<lambda>_.
     bind_res (open_object env Open_domain) (\<lambda>_.
     bind_res (open_object env Open_eq) (\<lambda>_.
     bind_res (open_object env (Open_cq (cq_attr_for cqDepth))) (\<lambda>_.
     bind_res (prepare_sender env flow) (\<lambda>(proto, regs).
     Ret \<lparr>ri_domain = regs, ri_proto = proto, ri_targets = [], ri_sender = \<lparr>sn_memory = mem, sn_posted = []\<rparr>\<rparr>))))))"

definition RDMInitiator_setup ::
  "setup_env \<Rightarrow> mxlFabricsInterfaceConfig \<Rightarrow> MappedFlow \<Rightarrow> fi_info \<Rightarrow> u64 option \<Rightarrow> memory \<Rightarrow> RDMInitiator res" where
  "RDMInitiator_setup env config flow info cqDepth mem =
     (let lf = sv_libfabric env; fab = sv_fabric env
      in bind_res (requireCapability info (FI_WRITE lf)) (\<lambda>_.
         bind_res (rdm_cq_attr lf (if_provider config = MXL_FABRICS_PROVIDER_EFA) config cqDepth) (\<lambda>cqAttr.
         bind_res (open_object env Open_fabric) (\<lambda>_.
         bind_res (open_object env Open_domain) (\<lambda>_.
         bind_res (Endpoint_create fab (sv_newId env)) (\<lambda>endpoint.
         bind_res (open_object env (Open_cq cqAttr)) (\<lambda>_.
         bind_res (Endpoint_bind_cq fab endpoint) (\<lambda>endpoint.
         bind_res (open_object env Open_av) (\<lambda>_.
         bind_res (Endpoint_bind_av fab endpoint) (\<lambda>endpoint.
         bind_res (Endpoint_enable fab endpoint) (\<lambda>_.
         bind_res (prepare_sender env flow) (\<lambda>(proto, regs).
         Ret \<lparr>rd_endpoint = endpoint, rd_domain = regs, rd_proto = proto, rd_targets = [], rd_remoteEndpoints = [],
              rd_sender = \<lparr>sn_memory = mem, sn_posted = []\<rparr>\<rparr>))))))))))))"

section \<open>The wrappers\<close>

datatype Target = RC_Target RCTarget | RDM_Target RDMTarget

datatype Initiator = RC_Initiator RCInitiator | RDM_Initiator RDMInitiator

text \<open>A setup first lets an earlier one go; when it throws, the wrapper is empty.\<close>

definition TargetWrapper_setup ::
  "setup_env \<Rightarrow> mxlFabricsInterfaceConfig \<Rightarrow> MappedFlow \<Rightarrow> u64 option \<Rightarrow> (Target option, TargetInfo) act" where
  "TargetWrapper_setup env config flow cqDepth inner =
     (case bind_res (selectSourceInterface (sv_libfabric env) config True) (\<lambda>(info, providerConfig).
             case fi_ep_type info of
               FI_EP_MSG \<Rightarrow> map_ret (map_prod RC_Target id) (RCTarget_setup env flow info cqDepth)
             | FI_EP_RDM \<Rightarrow> map_ret (map_prod RDM_Target id) (RDMTarget_setup env config flow info cqDepth)
             | FI_EP_OTHER _ \<Rightarrow> Throw (OfiException MXL_ERR_INVALID_STATE)) of
        Ret (t, targetInfo) \<Rightarrow> (Ret targetInfo, Some t)
      | Throw e \<Rightarrow> (Throw e, None)
      | Undef \<Rightarrow> (Undef, None))"

definition target_read_with ::
  "(target_read \<Rightarrow> RCTarget \<times> memory \<Rightarrow> (ReadResult option res \<times> RCTarget \<times> memory) option)
    \<Rightarrow> (target_read \<Rightarrow> RDMTarget \<Rightarrow> memory \<Rightarrow> (ReadResult option res \<times> memory) option)
    \<Rightarrow> target_read \<Rightarrow> Target option \<times> memory \<Rightarrow> (ReadResult option res \<times> Target option \<times> memory) option" where
  "target_read_with rc rdm tg = (\<lambda>(inner, mem).
     case inner of
       None \<Rightarrow> Some (Throw (OfiException MXL_ERR_INVALID_STATE), None, mem)
     | Some (RC_Target t) \<Rightarrow> map_option (\<lambda>(r, t, mem). (r, Some (RC_Target t), mem)) (rc tg (t, mem))
     | Some (RDM_Target t) \<Rightarrow> map_option (\<lambda>(r, mem). (r, Some (RDM_Target t), mem)) (rdm tg t mem))"

definition TargetWrapper_read ::
  "target_read \<Rightarrow> Target option \<times> memory \<Rightarrow> (ReadResult option res \<times> Target option \<times> memory) option" where
  "TargetWrapper_read = target_read_with RCTarget_read RDMTarget_read"

definition TargetWrapper_readBlocking ::
  "int \<Rightarrow> target_read \<Rightarrow> Target option \<times> memory \<Rightarrow> (ReadResult option res \<times> Target option \<times> memory) option" where
  "TargetWrapper_readBlocking timeout = target_read_with (RCTarget_readBlocking timeout) (RDMTarget_readBlocking timeout)"

definition InitiatorWrapper_setup ::
  "setup_env \<Rightarrow> mxlFabricsInterfaceConfig \<Rightarrow> MappedFlow \<Rightarrow> u64 option \<Rightarrow> memory \<Rightarrow> (Initiator option, unit) act" where
  "InitiatorWrapper_setup env config flow cqDepth mem inner =
     (case bind_res (selectSourceInterface (sv_libfabric env) config False) (\<lambda>(info, providerConfig).
             case fi_ep_type info of
               FI_EP_MSG \<Rightarrow> map_ret RC_Initiator (RCInitiator_setup env flow info cqDepth mem)
             | FI_EP_RDM \<Rightarrow> map_ret RDM_Initiator (RDMInitiator_setup env config flow info cqDepth mem)
             | FI_EP_OTHER _ \<Rightarrow> Throw (OfiException MXL_ERR_INVALID_STATE)) of
        Ret i \<Rightarrow> (Ret (), Some i)
      | Throw e \<Rightarrow> (Throw e, None)
      | Undef \<Rightarrow> (Undef, None))"

definition on_initiator :: "(RCInitiator, 'a) act \<Rightarrow> (RDMInitiator, 'a) act \<Rightarrow> (Initiator option, 'a) act" where
  "on_initiator rc rdm inner =
     (case inner of
        None \<Rightarrow> (Throw (OfiException MXL_ERR_INVALID_STATE), None)
      | Some (RC_Initiator i) \<Rightarrow> (case rc i of (r, i) \<Rightarrow> (r, Some (RC_Initiator i)))
      | Some (RDM_Initiator i) \<Rightarrow> (case rdm i of (r, i) \<Rightarrow> (r, Some (RDM_Initiator i))))"

text \<open>What an operation of an initiator meets: libfabric, the registration of memory, a new identifier and the queues.\<close>

record initiator_call =
  cl_fabric :: fabric
  cl_register :: registrar
  cl_header_at :: "nat \<Rightarrow> u64"
  cl_newId :: u64
  cl_av :: address_vector
  cl_transmit :: transmit
  cl_round :: progress_round
  cl_rounds :: "blocking_round list"
  cl_cq :: "read_call \<Rightarrow> cq_result"
  cl_now :: int
  cl_elapsed :: int

definition InitiatorWrapper_addTarget :: "initiator_call \<Rightarrow> TargetInfo \<Rightarrow> (Initiator option, unit) act" where
  "InitiatorWrapper_addTarget cl targetInfo =
     on_initiator (RCInitiator_addTarget (cl_fabric cl) (cl_register cl) (cl_header_at cl) (cl_newId cl) targetInfo)
       (RDMInitiator_addTarget (cl_register cl) (cl_header_at cl) (cl_newId cl) targetInfo)"

definition InitiatorWrapper_removeTarget :: "initiator_call \<Rightarrow> TargetInfo \<Rightarrow> (Initiator option, unit) act" where
  "InitiatorWrapper_removeTarget cl targetInfo =
     on_initiator (RCInitiator_removeTarget (cl_fabric cl) targetInfo) (RDMInitiator_removeTarget (cl_av cl) targetInfo)"

definition InitiatorWrapper_transferGrain :: "initiator_call \<Rightarrow> u64 \<Rightarrow> u16 \<Rightarrow> u16 \<Rightarrow> (Initiator option, unit) act" where
  "InitiatorWrapper_transferGrain cl grainIndex startSlice endSlice =
     on_initiator (RCInitiator_transferGrain (cl_transmit cl) grainIndex startSlice endSlice)
       (RDMInitiator_transferGrain (cl_transmit cl) grainIndex startSlice endSlice)"

definition InitiatorWrapper_transferGrainToTarget ::
  "initiator_call \<Rightarrow> u64 \<Rightarrow> u64 \<Rightarrow> u64 \<Rightarrow> u64 \<Rightarrow> u16 \<Rightarrow> u16 \<Rightarrow> (Initiator option, unit) act" where
  "InitiatorWrapper_transferGrainToTarget cl targetId localIndex remoteIndex payloadOffset startSlice endSlice =
     on_initiator (RCInitiator_transferGrainToTarget (cl_transmit cl) targetId localIndex remoteIndex payloadOffset startSlice endSlice)
       (RDMInitiator_transferGrainToTarget (cl_transmit cl) targetId localIndex remoteIndex payloadOffset startSlice endSlice)"

definition InitiatorWrapper_transferSamples :: "initiator_call \<Rightarrow> u64 \<Rightarrow> u64 \<Rightarrow> (Initiator option, unit) act" where
  "InitiatorWrapper_transferSamples cl head_index n =
     on_initiator (RCInitiator_transferSamples (cl_transmit cl) head_index n) (RDMInitiator_transferSamples (cl_transmit cl) head_index n)"

text \<open>With connections, the queues may be seen too short for an answer.\<close>

definition progress_with ::
  "(RCInitiator \<Rightarrow> (MakeProgressResult res \<times> RCInitiator) option) \<Rightarrow> (RDMInitiator, MakeProgressResult) act
    \<Rightarrow> Initiator option \<Rightarrow> (MakeProgressResult res \<times> Initiator option) option" where
  "progress_with rc rdm inner =
     (case inner of
        None \<Rightarrow> Some (Throw (OfiException MXL_ERR_INVALID_STATE), None)
      | Some (RC_Initiator i) \<Rightarrow> map_option (\<lambda>(r, i). (r, Some (RC_Initiator i))) (rc i)
      | Some (RDM_Initiator i) \<Rightarrow> (case rdm i of (r, i) \<Rightarrow> Some (r, Some (RDM_Initiator i))))"

definition InitiatorWrapper_makeProgress ::
  "initiator_call \<Rightarrow> Initiator option \<Rightarrow> (MakeProgressResult res \<times> Initiator option) option" where
  "InitiatorWrapper_makeProgress cl = progress_with (makeProgress (cl_round cl)) (RDMInitiator_makeProgress (cl_av cl) (cl_cq cl))"

definition InitiatorWrapper_makeProgressBlocking ::
  "initiator_call \<Rightarrow> int \<Rightarrow> Initiator option \<Rightarrow> (MakeProgressResult res \<times> Initiator option) option" where
  "InitiatorWrapper_makeProgressBlocking cl timeout =
     progress_with (makeProgressBlocking (cl_now cl) timeout (cl_rounds cl))
       (RDMInitiator_makeProgressBlocking (cl_av cl) (cl_cq cl) (cl_elapsed cl) timeout)"

end
