(* ===== verification/FabricSetupProofs.thy ===== *)
theory FabricSetupProofs
  imports FabricSetup FabricProgress FabricTargetProofs FabricRdmProofs FabricInterfaceProofs
begin

text \<open>
  What a setup promises: the description that a target gives to its initiators is of the regions that its protocol
  works on, and both sides start in the states that the invariants of the other theories are about.
\<close>

section \<open>Registered regions\<close>

lemma registerRegions_Ret:
  "registerRegions register rs regs = (Ret (), regs') \<Longrightarrow> \<exists>new. regs' = regs @ new \<and> map rx_region new = rs"
proof (induction rs arbitrary: regs)
  case (Cons r rs)
  then obtain x where "registerRegions register rs (regs @ [x]) = (Ret (), regs')" "rx_region x = r"
    by (auto simp: bind_act_def registerRegion_def split: prod.splits res.splits)
  then show ?case
    using Cons.IH [of "regs @ [x]"] by auto
qed (simp add: return_act_def)

fun ingress_regions :: "IngressProtocol \<Rightarrow> Region list" where
  "ingress_regions (GrainIngress q) = gi_regions q"
| "ingress_regions (SampleIngress q) = getRegions (si_bounceBuffer q)"

text \<open>What the description says of a region: its length, and where it is for one who writes to it.\<close>

definition describes :: "bool \<Rightarrow> Region \<Rightarrow> RemoteRegion \<Rightarrow> bool" where
  "describes virtual r remote \<longleftrightarrow> rr_len remote = rg_size r \<and> rr_addr remote = (if virtual then rg_base r else 0)"

lemma described_regions:
  "map rx_region new = rs \<Longrightarrow> list_all2 (describes virtual) rs (remoteRegions virtual new)"
  by (induction new arbitrary: rs) (auto simp: remoteRegions_def describes_def toRemote_def)

lemma ig_registerMemory_Ret:
  assumes "fst (ig_registerMemory register virtual p []) = Ret (remote, p')"
  shows "list_all2 (describes virtual) (ingress_regions p') remote" "ingress_regions p' = ingress_regions p"
    "ig_bounceBufferInfo p' = ig_bounceBufferInfo p"
    "(case p' of GrainIngress q \<Rightarrow> \<exists>q0. p = GrainIngress q0 | SampleIngress q \<Rightarrow> \<exists>q0. p = SampleIngress q0 \<and> si_region q0 = si_region q)"
proof -
  have "list_all2 (describes virtual) (ingress_regions p') remote \<and> ingress_regions p' = ingress_regions p
    \<and> ig_bounceBufferInfo p' = ig_bounceBufferInfo p
    \<and> (case p' of GrainIngress q \<Rightarrow> \<exists>q0. p = GrainIngress q0 | SampleIngress q \<Rightarrow> \<exists>q0. p = SampleIngress q0 \<and> si_region q0 = si_region q)"
    using assms
    by (cases p) (auto simp: gi_registerMemory_def si_registerMemory_def bind_act_def return_act_def throw_act_def si_bounceBufferInfo_def
        split: if_splits prod.splits res.splits dest!: registerRegions_Ret intro: described_regions)
  then show "list_all2 (describes virtual) (ingress_regions p') remote" "ingress_regions p' = ingress_regions p"
    "ig_bounceBufferInfo p' = ig_bounceBufferInfo p"
    "(case p' of GrainIngress q \<Rightarrow> \<exists>q0. p = GrainIngress q0 | SampleIngress q \<Rightarrow> \<exists>q0. p = SampleIngress q0 \<and> si_region q0 = si_region q)"
    by blast+
qed

text \<open>The protocol of a target works on the regions of the flow.\<close>

definition works_on :: "IngressProtocol \<Rightarrow> MappedFlow \<Rightarrow> bool" where
  "works_on p flow \<longleftrightarrow> (\<exists>mx. mxlFabricsRegionsFromMutableFlow flow = Ret mx
     \<and> (case p of GrainIngress q \<Rightarrow> gi_regions q = mx_regions mx | SampleIngress q \<Rightarrow> mx_regions mx = [si_region q]))"

lemma describe_target_Ret:
  assumes "describe_target env info provider epid flow = Ret (p, ti)"
  shows "ti_id ti = epid" "ti_provider ti = provider" "ti_bounceBufferInfo ti = ig_bounceBufferInfo p" "works_on p flow"
    "list_all2 (describes (usingVirtualAddresses (sv_libfabric env) info)) (ingress_regions p) (ti_remoteRegions ti)"
proof -
  obtain mx p0 remote where mx: "mxlFabricsRegionsFromMutableFlow flow = Ret mx"
    and p0: "selectIngressProtocol (sv_entry_at env) (mx_layout mx) (mx_regions mx) (mx_maxSyncBatchSize mx) = Ret p0"
    and reg: "fst (ig_registerMemory (sv_register env) (usingVirtualAddresses (sv_libfabric env) info) p0 []) = Ret (remote, p)"
    and ti: "ti_id ti = epid" "ti_provider ti = provider" "ti_bounceBufferInfo ti = ig_bounceBufferInfo p" "ti_remoteRegions ti = remote"
    using assms by (auto simp: describe_target_def bind_res_Ret_iff)
  note r = ig_registerMemory_Ret [OF reg]
  show "ti_id ti = epid" "ti_provider ti = provider" "ti_bounceBufferInfo ti = ig_bounceBufferInfo p"
    "list_all2 (describes (usingVirtualAddresses (sv_libfabric env) info)) (ingress_regions p) (ti_remoteRegions ti)"
    using ti r(1) by simp_all
  show "works_on p flow"
    using mx p0 r(2,4)
    by (auto simp: works_on_def selectIngressProtocol_def RMASampleIngressProtocol_ctor_def RMAGrainIngressProtocol_ctor_def map_ret_Ret_iff
        split: DataLayout.splits list.splits IngressProtocol.splits)
qed

section \<open>Targets and initiators start right\<close>

lemma RCInitiator_setup_reach: "RCInitiator_setup env flow info cqDepth mem = Ret s \<Longrightarrow> initiator_reach s"
  by (auto simp: RCInitiator_setup_def bind_res_Ret_iff intro: initiator_reach.reach_setup)

lemma RDMInitiator_setup_reach: "RDMInitiator_setup env config flow info cqDepth mem = Ret s \<Longrightarrow> rdm_reach s"
  by (auto simp: RDMInitiator_setup_def bind_res_Ret_iff Let_def intro: rdm_setup)

text \<open>The first states of the objects behind the interface.\<close>

fun target_starts :: "Target \<Rightarrow> bool" where
  "target_starts (RC_Target t) \<longleftrightarrow> (\<forall>mem. target_reach (t, mem))"
| "target_starts (RDM_Target t) \<longleftrightarrow> ep_open (dt_ep t) \<and> ep_cq (dt_ep t) \<and> ep_av (dt_ep t)"

fun target_protocol :: "Target \<Rightarrow> IngressProtocol" where
  "target_protocol (RC_Target t) = rt_proto t"
| "target_protocol (RDM_Target t) = dt_protocol t"

lemma RCTarget_setup_Ret:
  assumes "RCTarget_setup env flow info cqDepth = Ret (t, ti)"
  shows "target_starts (RC_Target t)" "\<exists>provider. describe_target env info provider (sv_newId env) flow = Ret (rt_proto t, ti)"
    "requireCapability info (FI_REMOTE_WRITE (sv_libfabric env)) = Ret ()"
proof -
  obtain provider pep proto where pep: "makeListener (sv_fabric env) (sv_newId env) = Ret pep"
    and d: "describe_target env info provider (pe_id pep) flow = Ret (proto, ti)" and t: "t = RCTarget_ctor pep proto cqDepth"
    and cap: "requireCapability info (FI_REMOTE_WRITE (sv_libfabric env)) = Ret ()"
    using assms by (auto simp: RCTarget_setup_def bind_res_Ret_iff Let_def split: option.splits)
  have "pe_id pep = sv_newId env"
    using pep by (auto simp: makeListener_def bind_res_Ret_iff PassiveEndpoint_create_def PassiveEndpoint_bind_def map_ret_Ret_iff)
  then show "\<exists>provider. describe_target env info provider (sv_newId env) flow = Ret (rt_proto t, ti)"
    "requireCapability info (FI_REMOTE_WRITE (sv_libfabric env)) = Ret ()"
    using d cap by (auto simp: t RCTarget_ctor_def)
  show "target_starts (RC_Target t)"
    using target_setup [OF pep] by (simp add: t)
qed

lemma RDMTarget_setup_Ret:
  assumes "RDMTarget_setup env config flow info cqDepth = Ret (t, ti)"
  shows "target_starts (RDM_Target t)" "\<exists>provider. describe_target env info provider (sv_newId env) flow = Ret (dt_protocol t, ti)"
    "requireCapability info (FI_REMOTE_WRITE (sv_libfabric env)) = Ret ()"
  using assms
  by (auto simp: RDMTarget_setup_def bind_res_Ret_iff Let_def Endpoint_create_def Endpoint_bind_cq_def Endpoint_bind_av_def map_ret_Ret_iff
      split: option.splits)


text \<open>A flow of data with one grain of 16 bytes, over the interface of the example.\<close>

definition example_grain :: Grain where
  "example_grain = \<lparr>gr_info = \<lparr>gi_version = 1, gi_size = 4096, gi_index = 0, gi_flags = 0, gi_grainSize = 16, gi_totalSlices = 16, gi_validSlices = 16\<rparr>,
     gr_payload = []\<rparr>"

definition example_flow :: MappedFlow where
  "example_flow = \<lparr>mf_common = \<lparr>cc_id = [], cc_format = format_code MXL_DATA_FORMAT_DATA, cc_flags = 0, cc_grainRate = \<lparr>numerator = 25, denominator = 1\<rparr>,
       cc_maxCommitBatchSizeHint = 1, cc_maxSyncBatchSizeHint = 1, cc_payloadLocation = MXL_PAYLOAD_LOCATION_HOST_MEMORY, cc_deviceIndex = 0\<rparr>,
     mf_discrete = sample_disc 0 [example_grain], mf_grainAddrs = [65536], mf_continuous = sample_cont 0 [], mf_channelAddr = 0\<rparr>"

definition example_config :: mxlFabricsInterfaceConfig where
  "example_config = \<lparr>if_provider = 1, if_flags = 2, if_maxMessageSize = 4096, if_node = Some ''10.0.0.1'', if_service = None\<rparr>"

definition example_setup_env :: setup_env where
  "example_setup_env = \<lparr>sv_libfabric = example_libfabric, sv_open = (\<lambda>_. 0), sv_fabric = (\<lambda>_ _. 0), sv_newId = 9,
     sv_length = (- FI_ETOOSMALL, 16), sv_name = (\<lambda>_. (0, [2, 0, 0, 0, 10, 0, 0, 1, 0, 0, 0, 0, 0, 0, 0, 0])),
     sv_register = (\<lambda>regs _. (0, 0, of_nat (length regs))), sv_entry_at = (\<lambda>_. 0)\<rparr>"

lemma example_address:
  "address_parse (lf_pton4 example_libfabric) (lf_pton6 example_libfabric) Provider_TCP (Some ''10.0.0.1'') None =
     Ret (Native_in \<lparr>sin_family = 2, sin_port = 0, sin_addr = [10, 0, 0, 1]\<rparr>)"
  by (simp add: address_parse_def example_libfabric_def parseInternetAddress_def AF_INET_def)

lemma example_selected: "\<exists>c. selectSourceInterface example_libfabric example_config True = Ret (example_info, c)"
proof -
  have "getSourceInterfaces example_libfabric c a = Ret [example_info]" for c a
    by (simp add: getSourceInterfaces_def example_libfabric_def fiCall_def)
  then show ?thesis
    by (simp add: selectSourceInterface_def example_config_def providerFromAPI_def api_providers ProviderCapabilities_fromAPI_def
        MXL_FABRICS_IFACE_CAP_REMOTE_WRITE_def MXL_FABRICS_IFACE_CAP_SEND_RECEIVE_def example_address)
qed

lemma example_lf [simp]: "sv_libfabric example_setup_env = example_libfabric" "lf_code example_libfabric = example_code"
    "FI_REMOTE_WRITE example_libfabric = 8192"
    "sv_newId example_setup_env = 9" "sv_open example_setup_env c = 0"
  by (simp_all add: example_setup_env_def example_libfabric_def)

lemma example_regions:
  "mxlFabricsRegionsFromMutableFlow example_flow = Ret \<lparr>mx_regions = [writable_region 65536 (host_region 65536 8208)],
     mx_layout = Discrete \<lparr>dl_sliceSizes = [2, 0, 0, 0], dl_totalSlices = 16\<rparr>, mx_maxSyncBatchSize = 1\<rparr>"
  by (simp add: mxlFabricsRegionsFromMutableFlow_def mxlFabricsRegionsFromFlow_def example_flow_def sample_disc_def example_grain_def
      format_tests fromDiscrete_def grain_region_def MXL_GRAIN_PAYLOAD_OFFSET_def)

lemma example_described: "\<exists>x. describe_target example_setup_env example_info Provider_TCP 9 example_flow = Ret x"
proof -
  let ?r = "writable_region 65536 (host_region 65536 8208)"
  obtain a where "localAddress example_setup_env example_info = Ret a"
    by (simp add: localAddress_def retrieveFabricAddress_def example_format example_setup_env_def fiCall_def)
  moreover obtain remote p where "fst (ig_registerMemory (sv_register example_setup_env) (usingVirtualAddresses example_libfabric example_info)
      (GrainIngress (RMAGrainIngressProtocol_ctor [?r])) []) = Ret (remote, p)"
    by (simp add: gi_registerMemory_def RMAGrainIngressProtocol_ctor_def bind_act_def registerRegion_def example_setup_env_def fiCall_def return_act_def)
  ultimately show ?thesis
    by (simp add: describe_target_def example_regions selectIngressProtocol_def)
qed

lemma example_setup: "\<exists>ti t. TargetWrapper_setup example_setup_env example_config example_flow None None = (Ret ti, Some t)"
proof -
  obtain c where c: "selectSourceInterface example_libfabric example_config True = Ret (example_info, c)"
    using example_selected by blast
  obtain p ti where d: "describe_target example_setup_env example_info Provider_TCP 9 example_flow = Ret (p, ti)"
    using example_described by force
  have "makeListener (sv_fabric example_setup_env) 9 = Ret \<lparr>pe_id = 9, pe_open = True, pe_eq = True\<rparr>"
    by (simp add: makeListener_def PassiveEndpoint_create_def PassiveEndpoint_bind_def PassiveEndpoint_listen_def pep_call_def fiCall_def example_setup_env_def)
  then have "\<exists>t. RCTarget_setup example_setup_env example_flow example_info None = Ret (t, ti)"
    by (simp add: RCTarget_setup_def requireCapability_def example_provider fromSource_def example_format example_source open_object_def fiCall_def d
        example_info_def [THEN arg_cong [of _ _ fi_caps]])
  moreover have "fi_ep_type example_info = FI_EP_MSG"
    by (simp add: example_info_def)
  ultimately show ?thesis
    by (auto simp: TargetWrapper_setup_def c)
qed


end
