(* ===== verification/FabricApi.thy ===== *)
theory FabricApi
  imports FabricSetup FlowApi
begin

text \<open>
  The C interface of the fabrics, \<^verbatim>\<open>fabrics.cpp\<close>, over the instances of \<^verbatim>\<open>FabricInstance.cpp\<close>. As in the interface of flows
  a handle is the address of an object, 0 is the null pointer, and following an address where no object is, is
  undefined. An output pointer is modelled by whether it is given, what is stored through it by an optional result.
\<close>

section \<open>Instances and the objects of the interface\<close>

text \<open>The targets and initiators of an instance stay where they are until they are destroyed.\<close>

record FabricsInstance =
  fx_targets :: "(u64 \<times> Target option) list"
  fx_initiators :: "(u64 \<times> Initiator option) list"

record fabrics_world =
  fw_instances :: "(u64 \<times> FabricsInstance) list"
  fw_infos :: "(u64 \<times> TargetInfo) list"
  fw_lists :: c_heap
  fw_memory :: memory

definition world_targets :: "fabrics_world \<Rightarrow> (u64 \<times> Target option) list" where
  "world_targets w = concat (map (fx_targets \<circ> snd) (fw_instances w))"

definition world_initiators :: "fabrics_world \<Rightarrow> (u64 \<times> Initiator option) list" where
  "world_initiators w = concat (map (fx_initiators \<circ> snd) (fw_instances w))"

definition set_target :: "u64 \<Rightarrow> Target option \<Rightarrow> fabrics_world \<Rightarrow> fabrics_world" where
  "set_target p t w =
     w\<lparr>fw_instances := map (\<lambda>(i, x). (i, x\<lparr>fx_targets := change_target p t (fx_targets x)\<rparr>)) (fw_instances w)\<rparr>"

definition set_initiator :: "u64 \<Rightarrow> Initiator option \<Rightarrow> fabrics_world \<Rightarrow> fabrics_world" where
  "set_initiator p i w =
     w\<lparr>fw_instances := map (\<lambda>(k, x). (k, x\<lparr>fx_initiators := change_target p i (fx_initiators x)\<rparr>)) (fw_instances w)\<rparr>"

definition set_instance :: "u64 \<Rightarrow> FabricsInstance \<Rightarrow> fabrics_world \<Rightarrow> fabrics_world" where
  "set_instance p x w = w\<lparr>fw_instances := change_target p x (fw_instances w)\<rparr>"

text \<open>\<open>p\<close> is the address that a new object gets.\<close>

definition createTarget :: "u64 \<Rightarrow> FabricsInstance \<Rightarrow> FabricsInstance" where
  "createTarget p x = x\<lparr>fx_targets := fx_targets x @ [(p, None)]\<rparr>"

definition createInitiator :: "u64 \<Rightarrow> FabricsInstance \<Rightarrow> FabricsInstance" where
  "createInitiator p x = x\<lparr>fx_initiators := fx_initiators x @ [(p, None)]\<rparr>"

definition destroyTarget :: "u64 \<Rightarrow> FabricsInstance \<Rightarrow> FabricsInstance res" where
  "destroyTarget wrapper x =
     (if wrapper \<in> fst ` set (fx_targets x) then Ret (x\<lparr>fx_targets := erase_key wrapper (fx_targets x)\<rparr>)
      else Throw (OfiException MXL_ERR_INVALID_ARG))"

definition destroyInitiator :: "u64 \<Rightarrow> FabricsInstance \<Rightarrow> FabricsInstance res" where
  "destroyInitiator wrapper x =
     (if wrapper \<in> fst ` set (fx_initiators x) then Ret (x\<lparr>fx_initiators := erase_key wrapper (fx_initiators x)\<rparr>)
      else Throw (OfiException MXL_ERR_INVALID_ARG))"

section \<open>Exceptions and options\<close>

definition fabrics_status :: "exn \<Rightarrow> mxlStatus" where
  "fabrics_status e = (case ofi_status e of Some s \<Rightarrow> s | None \<Rightarrow> MXL_ERR_UNKNOWN)"

definition try_run :: "('s, mxlStatus \<times> 'a option) act \<Rightarrow> ('s, mxlStatus \<times> 'a option) act" where
  "try_run = caught_act fabrics_status"

definition invalid_arg :: "('s, mxlStatus \<times> 'a option) act" where
  "invalid_arg = lift_act (answer MXL_ERR_INVALID_ARG)"

definition ok_act :: "'a \<Rightarrow> ('s, mxlStatus \<times> 'a option) act" where
  "ok_act x = lift_act (ok_with x)"

text \<open>A depth that no \<^verbatim>\<open>size_t\<close> can hold makes the conversion undefined.\<close>

definition parseCqDepthOption :: "(string \<Rightarrow> json option) \<Rightarrow> string option \<Rightarrow> u64 option res" where
  "parseCqDepthOption parse options =
     (case options of
        None \<Rightarrow> Ret None
      | Some [] \<Rightarrow> Ret None
      | Some text \<Rightarrow>
          (case parse text of
             Some (JObject members) \<Rightarrow>
               (case map_of members ''cqDepth'' of
                  None \<Rightarrow> Ret None
                | Some (JNumber depth) \<Rightarrow>
                    if depth < 1 then Throw (OfiException MXL_ERR_INVALID_ARG)
                    else if depth \<ge> 2 ^ 64 then Undef
                    else Ret (Some (of_int \<lfloor>depth\<rfloor>))
                | Some _ \<Rightarrow> Throw (OfiException MXL_ERR_INVALID_ARG))
           | _ \<Rightarrow> Throw (OfiException MXL_ERR_INVALID_ARG)))"

section \<open>Instances\<close>

definition mxlFabricsCreateInstance :: "u64 \<Rightarrow> bool \<Rightarrow> bool \<Rightarrow> (fabrics_world, mxlStatus \<times> u64 option) act" where
  "mxlFabricsCreateInstance p in_instance out =
     (if \<not> in_instance \<or> \<not> out then invalid_arg
      else try_run (\<lambda>w. ok_act p (w\<lparr>fw_instances := fw_instances w @ [(p, \<lparr>fx_targets = [], fx_initiators = []\<rparr>)]\<rparr>)))"

definition mxlFabricsDestroyInstance :: "u64 \<Rightarrow> (fabrics_world, mxlStatus \<times> unit option) act" where
  "mxlFabricsDestroyInstance inst =
     (if inst = 0 then invalid_arg
      else try_run (\<lambda>w. if inst \<notin> fst ` set (fw_instances w) then (Undef, w)
                        else ok_act () (w\<lparr>fw_instances := erase_key inst (fw_instances w)\<rparr>)))"

section \<open>Interfaces\<close>

definition mxlFabricsGetInterfaces ::
  "libfabric \<Rightarrow> (c_heap \<Rightarrow> u64) \<Rightarrow> (json \<Rightarrow> string) \<Rightarrow> u64 \<Rightarrow> mxlFabricsInterfaceConfig option \<Rightarrow> bool
    \<Rightarrow> (fabrics_world, mxlStatus \<times> u64 option) act" where
  "mxlFabricsGetInterfaces lf fresh serialize inst query list =
     (if inst = 0 \<or> \<not> list then invalid_arg
      else try_run (bind_act (lift_act (probeInterfaces lf query)) (\<lambda>interfaces w.
             case toRawLinkedList fresh serialize interfaces (fw_lists w) of
               (r, h) \<Rightarrow> bind_act (lift_act r) ok_act (w\<lparr>fw_lists := h\<rparr>))))"

definition mxlFabricsFreeInterfaceList :: "u64 \<Rightarrow> (fabrics_world, mxlStatus \<times> unit option) act" where
  "mxlFabricsFreeInterfaceList interfaceList =
     (if interfaceList = 0 then ok_act ()
      else (\<lambda>w. case freeRawLinkedList interfaceList (fw_lists w) of
              (r, h) \<Rightarrow> bind_act (lift_act r) ok_act (w\<lparr>fw_lists := h\<rparr>)))"

section \<open>Targets\<close>

definition on_instance ::
  "u64 \<Rightarrow> (FabricsInstance \<Rightarrow> (FabricsInstance \<times> 'a) res) \<Rightarrow> (fabrics_world, mxlStatus \<times> 'a option) act" where
  "on_instance inst f w =
     (case map_of (fw_instances w) inst of
        None \<Rightarrow> (Undef, w)
      | Some x \<Rightarrow> (case f x of
          Ret (x, y) \<Rightarrow> ok_act y (set_instance inst x w)
        | Throw e \<Rightarrow> (Throw e, w)
        | Undef \<Rightarrow> (Undef, w)))"

definition mxlFabricsCreateTarget :: "u64 \<Rightarrow> u64 \<Rightarrow> bool \<Rightarrow> (fabrics_world, mxlStatus \<times> u64 option) act" where
  "mxlFabricsCreateTarget p inst out =
     (if inst = 0 \<or> \<not> out then invalid_arg else try_run (on_instance inst (\<lambda>x. Ret (createTarget p x, p))))"

definition mxlFabricsDestroyTarget :: "u64 \<Rightarrow> u64 \<Rightarrow> (fabrics_world, mxlStatus \<times> unit option) act" where
  "mxlFabricsDestroyTarget inst target =
     (if inst = 0 \<or> target = 0 then invalid_arg
      else try_run (on_instance inst (\<lambda>x. map_ret (\<lambda>x. (x, ())) (destroyTarget target x))))"

text \<open>\<open>flow\<close> is the flow of the writer in the configuration, \<open>p\<close> the address of the new description.\<close>

definition mxlFabricsTargetSetup ::
  "setup_env \<Rightarrow> (string \<Rightarrow> json option) \<Rightarrow> u64 \<Rightarrow> u64 \<Rightarrow> (mxlFabricsInterfaceConfig \<times> MappedFlow) option \<Rightarrow> string option \<Rightarrow> bool
    \<Rightarrow> (fabrics_world, mxlStatus \<times> u64 option) act" where
  "mxlFabricsTargetSetup env parse p target config options out =
     (case config of
        None \<Rightarrow> invalid_arg
      | Some (interface, flow) \<Rightarrow>
          if target = 0 \<or> \<not> out then invalid_arg
          else try_run (bind_act (lift_act (parseCqDepthOption parse options)) (\<lambda>cqDepth w.
            case map_of (world_targets w) target of
              None \<Rightarrow> (Undef, w)
            | Some inner \<Rightarrow>
                (case TargetWrapper_setup env interface flow cqDepth inner of
                   (r, inner) \<Rightarrow>
                     let w = set_target target inner w
                     in bind_act (lift_act r) (\<lambda>targetInfo w. ok_act p (w\<lparr>fw_infos := (p, targetInfo) # fw_infos w\<rparr>)) w))))"

text \<open>What a read of a target is to the caller: \<open>pick\<close> takes the media that the function is for.\<close>

definition read_status :: "(ReadResult \<Rightarrow> 'a option) \<Rightarrow> ReadResult option \<Rightarrow> (mxlStatus \<times> 'a option) res" where
  "read_status pick result =
     (case result of
        None \<Rightarrow> answer MXL_ERR_NOT_READY
      | Some Interrupted \<Rightarrow> answer MXL_ERR_INTERRUPTED
      | Some r \<Rightarrow> (case pick r of None \<Rightarrow> answer MXL_ERR_INVALID_STATE | Some x \<Rightarrow> ok_with x))"

fun picked_grain :: "ReadResult \<Rightarrow> u64 option" where
  "picked_grain (GrainReadResult grainIndex) = Some grainIndex"
| "picked_grain _ = None"

fun picked_samples :: "ReadResult \<Rightarrow> (u64 \<times> u64) option" where
  "picked_samples (SampleReadResult head_index n) = Some (head_index, n)"
| "picked_samples _ = None"

definition on_target ::
  "(Target option \<times> memory \<Rightarrow> (ReadResult option res \<times> Target option \<times> memory) option) \<Rightarrow> (ReadResult \<Rightarrow> 'a option) \<Rightarrow> u64
    \<Rightarrow> fabrics_world \<Rightarrow> ((mxlStatus \<times> 'a option) res \<times> fabrics_world) option" where
  "on_target rd pick target w =
     (case map_of (world_targets w) target of
        None \<Rightarrow> Some (Undef, w)
      | Some inner \<Rightarrow>
          map_option (\<lambda>(r, inner, mem). try_run (lift_act (bind_res r (read_status pick))) ((set_target target inner w)\<lparr>fw_memory := mem\<rparr>))
            (rd (inner, fw_memory w)))"

text \<open>A timeout is given in milliseconds.\<close>

definition timeout_of :: "u16 \<Rightarrow> int" where
  "timeout_of ms = uint ms * NANOS_PER_MILLI"

definition mxlFabricsTargetReadGrainNonBlocking ::
  "target_read \<Rightarrow> u64 \<Rightarrow> bool \<Rightarrow> fabrics_world \<Rightarrow> ((mxlStatus \<times> u64 option) res \<times> fabrics_world) option" where
  "mxlFabricsTargetReadGrainNonBlocking tg target out w =
     (if target = 0 \<or> \<not> out then Some (invalid_arg w) else on_target (TargetWrapper_read tg) picked_grain target w)"

definition mxlFabricsTargetReadGrain ::
  "target_read \<Rightarrow> u64 \<Rightarrow> u16 \<Rightarrow> bool \<Rightarrow> fabrics_world \<Rightarrow> ((mxlStatus \<times> u64 option) res \<times> fabrics_world) option" where
  "mxlFabricsTargetReadGrain tg target timeoutMs out w =
     (if target = 0 \<or> \<not> out then Some (invalid_arg w)
      else on_target (TargetWrapper_readBlocking (timeout_of timeoutMs) tg) picked_grain target w)"

definition mxlFabricsTargetReadSamplesNonBlocking ::
  "target_read \<Rightarrow> u64 \<Rightarrow> bool \<Rightarrow> bool \<Rightarrow> fabrics_world \<Rightarrow> ((mxlStatus \<times> (u64 \<times> u64) option) res \<times> fabrics_world) option" where
  "mxlFabricsTargetReadSamplesNonBlocking tg target outHeadIndex outCount w =
     (if target = 0 \<or> \<not> outHeadIndex \<or> \<not> outCount then Some (invalid_arg w)
      else on_target (TargetWrapper_read tg) picked_samples target w)"

definition mxlFabricsTargetReadSamples ::
  "target_read \<Rightarrow> u64 \<Rightarrow> u16 \<Rightarrow> bool \<Rightarrow> bool \<Rightarrow> fabrics_world \<Rightarrow> ((mxlStatus \<times> (u64 \<times> u64) option) res \<times> fabrics_world) option" where
  "mxlFabricsTargetReadSamples tg target timeoutMs outHeadIndex outCount w =
     (if target = 0 \<or> \<not> outHeadIndex \<or> \<not> outCount then Some (invalid_arg w)
      else on_target (TargetWrapper_readBlocking (timeout_of timeoutMs) tg) picked_samples target w)"

section \<open>Initiators\<close>

definition mxlFabricsCreateInitiator :: "u64 \<Rightarrow> u64 \<Rightarrow> bool \<Rightarrow> (fabrics_world, mxlStatus \<times> u64 option) act" where
  "mxlFabricsCreateInitiator p inst out =
     (if inst = 0 \<or> \<not> out then invalid_arg else try_run (on_instance inst (\<lambda>x. Ret (createInitiator p x, p))))"

definition mxlFabricsDestroyInitiator :: "u64 \<Rightarrow> u64 \<Rightarrow> (fabrics_world, mxlStatus \<times> unit option) act" where
  "mxlFabricsDestroyInitiator inst initiator =
     (if inst = 0 \<or> initiator = 0 then invalid_arg
      else try_run (on_instance inst (\<lambda>x. map_ret (\<lambda>x. (x, ())) (destroyInitiator initiator x))))"

text \<open>An initiator works on the memory of the process.\<close>

fun with_memory :: "memory \<Rightarrow> Initiator option \<Rightarrow> Initiator option" where
  "with_memory mem (Some (RC_Initiator i)) = Some (RC_Initiator (i\<lparr>ri_sender := (ri_sender i)\<lparr>sn_memory := mem\<rparr>\<rparr>))"
| "with_memory mem (Some (RDM_Initiator i)) = Some (RDM_Initiator (i\<lparr>rd_sender := (rd_sender i)\<lparr>sn_memory := mem\<rparr>\<rparr>))"
| "with_memory mem None = None"

fun memory_of :: "memory \<Rightarrow> Initiator option \<Rightarrow> memory" where
  "memory_of mem (Some (RC_Initiator i)) = sn_memory (ri_sender i)"
| "memory_of mem (Some (RDM_Initiator i)) = sn_memory (rd_sender i)"
| "memory_of mem None = mem"

definition put_initiator :: "u64 \<Rightarrow> Initiator option \<Rightarrow> fabrics_world \<Rightarrow> fabrics_world" where
  "put_initiator p inner w = (set_initiator p inner w)\<lparr>fw_memory := memory_of (fw_memory w) inner\<rparr>"

definition run_initiator :: "(Initiator option, unit) act \<Rightarrow> u64 \<Rightarrow> (fabrics_world, mxlStatus \<times> unit option) act" where
  "run_initiator op initiator =
     try_run (\<lambda>w. case map_of (world_initiators w) initiator of
        None \<Rightarrow> (Undef, w)
      | Some inner \<Rightarrow>
          (case op (with_memory (fw_memory w) inner) of
             (r, inner) \<Rightarrow> bind_act (lift_act r) ok_act (put_initiator initiator inner w)))"

definition mxlFabricsInitiatorSetup ::
  "setup_env \<Rightarrow> (string \<Rightarrow> json option) \<Rightarrow> u64 \<Rightarrow> (mxlFabricsInterfaceConfig \<times> MappedFlow) option \<Rightarrow> string option
    \<Rightarrow> (fabrics_world, mxlStatus \<times> unit option) act" where
  "mxlFabricsInitiatorSetup env parse initiator config options =
     (case config of
        None \<Rightarrow> invalid_arg
      | Some (interface, flow) \<Rightarrow>
          if initiator = 0 then invalid_arg
          else (case parseCqDepthOption parse options of
              Ret cqDepth \<Rightarrow> (\<lambda>w. run_initiator (InitiatorWrapper_setup env interface flow cqDepth (fw_memory w)) initiator w)
            | Throw e \<Rightarrow> try_run (throw_act e)
            | Undef \<Rightarrow> lift_act Undef))"

definition with_info ::
  "u64 \<Rightarrow> (TargetInfo \<Rightarrow> (fabrics_world, mxlStatus \<times> 'a option) act) \<Rightarrow> (fabrics_world, mxlStatus \<times> 'a option) act" where
  "with_info info f w = (case map_of (fw_infos w) info of None \<Rightarrow> (Undef, w) | Some targetInfo \<Rightarrow> f targetInfo w)"

definition mxlFabricsInitiatorAddTarget :: "initiator_call \<Rightarrow> u64 \<Rightarrow> u64 \<Rightarrow> (fabrics_world, mxlStatus \<times> unit option) act" where
  "mxlFabricsInitiatorAddTarget cl initiator info =
     (if initiator = 0 \<or> info = 0 then invalid_arg
      else with_info info (\<lambda>targetInfo. run_initiator (InitiatorWrapper_addTarget cl targetInfo) initiator))"

definition mxlFabricsInitiatorRemoveTarget :: "initiator_call \<Rightarrow> u64 \<Rightarrow> u64 \<Rightarrow> (fabrics_world, mxlStatus \<times> unit option) act" where
  "mxlFabricsInitiatorRemoveTarget cl initiator info =
     (if initiator = 0 \<or> info = 0 then invalid_arg
      else with_info info (\<lambda>targetInfo. run_initiator (InitiatorWrapper_removeTarget cl targetInfo) initiator))"

definition mxlFabricsInitiatorTransferGrain ::
  "initiator_call \<Rightarrow> u64 \<Rightarrow> u64 \<Rightarrow> u16 \<Rightarrow> u16 \<Rightarrow> (fabrics_world, mxlStatus \<times> unit option) act" where
  "mxlFabricsInitiatorTransferGrain cl initiator grainIndex startSlice endSlice =
     (if initiator = 0 then invalid_arg
      else run_initiator (InitiatorWrapper_transferGrain cl grainIndex startSlice endSlice) initiator)"

definition mxlFabricsInitiatorTransferSamples ::
  "initiator_call \<Rightarrow> u64 \<Rightarrow> u64 \<Rightarrow> u64 \<Rightarrow> (fabrics_world, mxlStatus \<times> unit option) act" where
  "mxlFabricsInitiatorTransferSamples cl initiator head_index n =
     (if initiator = 0 then invalid_arg
      else run_initiator (InitiatorWrapper_transferSamples cl head_index n) initiator)"

fun progress_status :: "MakeProgressResult \<Rightarrow> (mxlStatus \<times> unit option) res" where
  "progress_status Ready = ok_with ()"
| "progress_status NotReady = answer MXL_ERR_NOT_READY"
| "progress_status ProgressInterrupted = answer MXL_ERR_INTERRUPTED"

definition run_progress ::
  "(Initiator option \<Rightarrow> (MakeProgressResult res \<times> Initiator option) option) \<Rightarrow> u64
    \<Rightarrow> fabrics_world \<Rightarrow> ((mxlStatus \<times> unit option) res \<times> fabrics_world) option" where
  "run_progress op initiator w =
     (case map_of (world_initiators w) initiator of
        None \<Rightarrow> Some (Undef, w)
      | Some inner \<Rightarrow>
          map_option (\<lambda>(r, inner). try_run (lift_act (bind_res r progress_status)) (put_initiator initiator inner w))
            (op (with_memory (fw_memory w) inner)))"

definition mxlFabricsInitiatorMakeProgressNonBlocking ::
  "initiator_call \<Rightarrow> u64 \<Rightarrow> fabrics_world \<Rightarrow> ((mxlStatus \<times> unit option) res \<times> fabrics_world) option" where
  "mxlFabricsInitiatorMakeProgressNonBlocking cl initiator w =
     (if initiator = 0 then Some (invalid_arg w) else run_progress (InitiatorWrapper_makeProgress cl) initiator w)"

definition mxlFabricsInitiatorMakeProgressBlocking ::
  "initiator_call \<Rightarrow> u64 \<Rightarrow> u16 \<Rightarrow> fabrics_world \<Rightarrow> ((mxlStatus \<times> unit option) res \<times> fabrics_world) option" where
  "mxlFabricsInitiatorMakeProgressBlocking cl initiator timeoutMs w =
     (if initiator = 0 then Some (invalid_arg w)
      else run_progress (InitiatorWrapper_makeProgressBlocking cl (timeout_of timeoutMs)) initiator w)"

section \<open>Texts\<close>

definition mxlFabricsProviderFromString :: "string option \<Rightarrow> bool \<Rightarrow> ('s, mxlStatus \<times> int option) act" where
  "mxlFabricsProviderFromString text out =
     (case text of
        None \<Rightarrow> invalid_arg
      | Some s \<Rightarrow>
          if \<not> out then invalid_arg
          else try_run (case providerFromString s of
                 Some provider \<Rightarrow> ok_act (providerToAPI provider)
               | None \<Rightarrow> invalid_arg))"

text \<open>The result is the size that is stored and the new content of the buffer, which is filled to the given size.\<close>

definition text_into :: "string option \<Rightarrow> nat \<Rightarrow> string \<Rightarrow> (mxlStatus \<times> (nat \<times> string option) option) res" where
  "text_into out stringSize text =
     (case out of
        None \<Rightarrow> ok_with (length text + 1, None)
      | Some buffer \<Rightarrow>
          if stringSize \<le> length text then answer MXL_ERR_STRLEN
          else if length buffer < stringSize then Undef
          else ok_with (stringSize, Some (strncpy_chars text stringSize @ drop stringSize buffer)))"

definition mxlFabricsProviderToString ::
  "int \<Rightarrow> string option \<Rightarrow> nat option \<Rightarrow> ('s, mxlStatus \<times> (nat \<times> string option) option) act" where
  "mxlFabricsProviderToString provider out stringSize =
     (case stringSize of
        None \<Rightarrow> invalid_arg
      | Some n \<Rightarrow>
          try_run (if provider = MXL_FABRICS_PROVIDER_ANY then lift_act (text_into out n ''any'')
            else if provider = MXL_FABRICS_PROVIDER_TCP then lift_act (text_into out n ''tcp'')
            else if provider = MXL_FABRICS_PROVIDER_EFA then lift_act (text_into out n ''efa'')
            else if provider = MXL_FABRICS_PROVIDER_VERBS then lift_act (text_into out n ''verbs'')
            else if provider = MXL_FABRICS_PROVIDER_SHM then lift_act (text_into out n ''shm'')
            else invalid_arg))"

definition mxlFabricsTargetInfoFromString ::
  "(string \<Rightarrow> json option) \<Rightarrow> (FabricAddressFormat \<Rightarrow> u32) \<Rightarrow> u64 \<Rightarrow> string option \<Rightarrow> bool \<Rightarrow> (fabrics_world, mxlStatus \<times> u64 option) act" where
  "mxlFabricsTargetInfoFromString parse fi_code p text out =
     (case text of
        None \<Rightarrow> invalid_arg
      | Some s \<Rightarrow>
          if \<not> out then invalid_arg
          else try_run (bind_act (lift_act (fromJSON parse fi_code s)) (\<lambda>targetInfo w.
                 ok_act p (w\<lparr>fw_infos := (p, targetInfo) # fw_infos w\<rparr>))))"

definition mxlFabricsTargetInfoToString ::
  "(json \<Rightarrow> string) \<Rightarrow> (FabricAddressFormat \<Rightarrow> u32) \<Rightarrow> u64 \<Rightarrow> string option \<Rightarrow> nat option
    \<Rightarrow> (fabrics_world, mxlStatus \<times> (nat \<times> string option) option) act" where
  "mxlFabricsTargetInfoToString serialize fi_code info out stringSize =
     (case stringSize of
        None \<Rightarrow> invalid_arg
      | Some n \<Rightarrow>
          if info = 0 then invalid_arg
          else try_run (with_info info (\<lambda>targetInfo. lift_act (text_into out n (toJSON serialize fi_code targetInfo)))))"

definition mxlFabricsFreeTargetInfo :: "u64 \<Rightarrow> (fabrics_world, mxlStatus \<times> unit option) act" where
  "mxlFabricsFreeTargetInfo info =
     (if info = 0 then invalid_arg
      else try_run (with_info info (\<lambda>_ w. ok_act () (w\<lparr>fw_infos := erase_key info (fw_infos w)\<rparr>))))"

end
