(* ===== verification/FabricDelivery.thy ===== *)
theory FabricDelivery
  imports FabricTransfer
begin

text \<open>
  What remote writes do to the memory of the receiver, for single regions and for groups of regions that are split
  into several requests.
\<close>

section \<open>Addresses of fragments\<close>

definition fragment_addrs :: "u64 \<times> u64 \<Rightarrow> u64 list" where
  "fragment_addrs f = map (\<lambda>k. fst f + of_nat k) [0..<unat (snd f)]"

definition addrs :: "(u64 \<times> u64) list \<Rightarrow> u64 list" where
  "addrs frs = concat (map fragment_addrs frs)"

definition gather :: "memory \<Rightarrow> (u64 \<times> u64) list \<Rightarrow> u8 list" where
  "gather mem frs = map mem (addrs frs)"

lemma addrs_simps [simp]:
  "addrs [] = []"
  "addrs (f # frs) = fragment_addrs f @ addrs frs"
  "addrs (frs @ frs') = addrs frs @ addrs frs'"
  by (simp_all add: addrs_def)

lemma gather_simps [simp]:
  "gather mem [] = []"
  "gather mem (frs @ frs') = gather mem frs @ gather mem frs'"
  by (simp_all add: gather_def)

lemma length_fragment_addrs [simp]: "length (fragment_addrs f) = unat (snd f)"
  by (simp add: fragment_addrs_def)

lemma map_fragment_addrs: "map mem (fragment_addrs (a, n)) = load_bytes mem a (unat n)"
  by (simp add: fragment_addrs_def load_bytes_def)

lemma gather_Cons: "gather mem ((a, n) # frs) = load_bytes mem a (unat n) @ gather mem frs"
  by (simp add: gather_def map_fragment_addrs)

lemma gather_cong: "(\<And>x. x \<in> set (addrs frs) \<Longrightarrow> mem x = mem' x) \<Longrightarrow> gather mem frs = gather mem' frs"
  by (simp add: gather_def)

lemma length_gather: "length (gather mem frs) = (\<Sum>f\<leftarrow>frs. unat (snd f))"
  by (induction frs) (simp_all add: gather_def)

lemma in_fragment_addrs: "x \<in> set (fragment_addrs (a, n)) \<longleftrightarrow> unat (x - a) < unat n"
proof
  assume "x \<in> set (fragment_addrs (a, n))"
  then obtain k where k: "k < unat n" "x = a + of_nat k"
    by (auto simp: fragment_addrs_def)
  then have "k < 2 ^ 64"
    using unat_u64_less [of n] by simp
  then show "unat (x - a) < unat n"
    using k by (simp add: unat_of_nat take_bit_nat_eq_self)
next
  assume *: "unat (x - a) < unat n"
  have "x = a + of_nat (unat (x - a))"
    by simp
  with * show "x \<in> set (fragment_addrs (a, n))"
    unfolding fragment_addrs_def set_map by (intro image_eqI [where x = "unat (x - a)"]) simp_all
qed

lemma store_bytes_outside: "length bs = unat n \<Longrightarrow> x \<notin> set (fragment_addrs (a, n)) \<Longrightarrow> store_bytes a bs mem x = mem x"
  by (simp add: in_fragment_addrs store_bytes_other)

section \<open>Ranges of addresses\<close>

definition bytes_at :: "u64 \<Rightarrow> nat \<Rightarrow> u64 set" where
  "bytes_at a n = {x. unat (x - a) < n}"

lemma bytes_atI:
  assumes "k < n" "n \<le> 2 ^ 64"
  shows "a + of_nat k \<in> bytes_at a n"
  using assms by (simp add: bytes_at_def unat_of_nat take_bit_nat_eq_self)

lemma bytes_at_range:
  assumes "unat a + n \<le> 2 ^ 64"
  shows "x \<in> bytes_at a n \<longleftrightarrow> unat a \<le> unat x \<and> unat x < unat a + n"
proof -
  have "unat (x - a) = (if unat a \<le> unat x then unat x - unat a else 2 ^ 64 + unat x - unat a)"
    using unat_minus_of_nat [of "unat a" x] unat_u64_less [of a] by simp
  then show ?thesis
    using assms unat_u64_less [of x] by (auto simp: bytes_at_def)
qed

lemma bytes_at_disjoint:
  assumes "unat a + m \<le> unat b" "unat b + n \<le> 2 ^ 64"
  shows "bytes_at a m \<inter> bytes_at b n = {}" "bytes_at b n \<inter> bytes_at a m = {}"
  using assms by (auto simp: bytes_at_range)

section \<open>Remote writes\<close>

text \<open>
  What libfabric documents of a remote write: the bytes of the fragments arrive, in order, at the address that
  the key and the remote address name. \<open>deliver m src dst\<close> is the memory of the receiver after request \<open>m\<close>.
\<close>

type_synonym delivery = "rma_msg \<Rightarrow> memory \<Rightarrow> memory \<Rightarrow> memory"

definition writes_arrive :: "delivery \<Rightarrow> (u64 \<Rightarrow> u64 \<Rightarrow> u64) \<Rightarrow> bool" where
  "writes_arrive deliver resolve \<longleftrightarrow>
     (\<forall>m src dst. case rm_rma m of (addr, _, rkey) \<Rightarrow>
        deliver m src dst = store_bytes (resolve rkey addr) (gather src (rm_iov m)) dst)"

lemma writes_arriveD:
  assumes "writes_arrive deliver resolve" "rm_rma m = (a, n, k)"
  shows "deliver m src dst = store_bytes (resolve k a) (gather src (rm_iov m)) dst"
  using assms(1) [unfolded writes_arrive_def, rule_format, of m src dst] assms(2) by simp

definition deliver_all :: "delivery \<Rightarrow> memory \<Rightarrow> rma_msg list \<Rightarrow> memory \<Rightarrow> memory" where
  "deliver_all deliver src msgs dst = fold (\<lambda>m. deliver m src) msgs dst"

lemma deliver_all_simps [simp]:
  "deliver_all deliver src [] dst = dst"
  "deliver_all deliver src (m # msgs) dst = deliver_all deliver src msgs (deliver m src dst)"
  by (simp_all add: deliver_all_def)

text \<open>A remote region that is the memory from \<open>t\<close> on.\<close>

definition region_at :: "(u64 \<Rightarrow> u64 \<Rightarrow> u64) \<Rightarrow> RemoteRegion \<Rightarrow> u64 \<Rightarrow> bool" where
  "region_at resolve r t \<longleftrightarrow> (\<forall>off < rr_len r. resolve (rr_rkey r) (rr_addr r + off) = t + off)"

definition sizes :: "LocalRegion list \<Rightarrow> nat" where
  "sizes rs = (\<Sum>r\<leftarrow>rs. unat (lr_len r))"

lemma sizes_simps [simp]: "sizes [] = 0" "sizes (r # rs) = unat (lr_len r) + sizes rs" "sizes (rs @ rs') = sizes rs + sizes rs'"
  by (simp_all add: sizes_def)

lemma length_gather_regions: "length (gather src (map toIovec rs)) = sizes rs"
  by (simp add: length_gather sizes_def toIovec_def comp_def)

lemma byteSize_sizes: "byteSize \<lparr>lg_inner = rs, lg_iovs = a, lg_descs = b\<rparr> = of_nat (sizes rs)"
proof -
  have "foldl (\<lambda>sum r. sum + lr_len r) x rs = x + of_nat (sizes rs)" for x
    by (induction rs arbitrary: x) (simp_all add: add.assoc)
  then show ?thesis
    by (simp add: byteSize_def)
qed

lemma span_of_group:
  assumes "first \<le> length rs"
  shows "LocalRegionGroup_span (LocalRegionGroup_ctor rs) first (first + min k (length rs - first)) =
    Ret \<lparr>lg_inner = take k (drop first rs), lg_iovs = map toIovec (take k (drop first rs)), lg_descs = map lr_desc (take k (drop first rs))\<rparr>"
proof -
  have "take (min k (length rs - first)) (drop first rs) = take k (drop first rs)"
    by (cases "k \<le> length rs - first") simp_all
  moreover have "\<not> min k (length rs - first) > length rs" "\<not> first + min k (length rs - first) > length rs"
    using assms by linarith+
  ultimately show ?thesis
    by (simp add: LocalRegionGroup_span_def LocalRegionGroup_ctor_def Let_def take_map drop_map del: min_less_iff_conj not_less min.bounded_iff min_less_iff_disj)
qed

definition accepts_all :: "acceptor \<Rightarrow> bool" where
  "accepts_all accept \<longleftrightarrow> (\<forall>posted m. 0 \<le> accept posted m)"

lemma writeImpl_accepted:
  assumes "accepts_all accept"
  shows "writeImpl accept token iov desc rma destAddr imm posted =
    (Ret (), posted @ [\<lparr>rm_token = token, rm_iov = iov, rm_desc = desc, rm_dest = destAddr, rm_rma = rma,
       rm_data = (case imm of None \<Rightarrow> 0 | Some d \<Rightarrow> ucast d), rm_hasData = (imm \<noteq> None)\<rparr>])"
  using assms by (simp add: writeImpl_def fiCall_def Let_def not_less accepts_all_def)

lemma span_of_group':
  assumes "first \<le> length rs"
  shows "LocalRegionGroup_span (LocalRegionGroup_ctor rs) first (first + min k (length (lg_inner (LocalRegionGroup_ctor rs)) - first)) =
    Ret \<lparr>lg_inner = take k (drop first rs), lg_iovs = map toIovec (take k (drop first rs)), lg_descs = map lr_desc (take k (drop first rs))\<rparr>"
  using span_of_group [OF assms] by (simp add: LocalRegionGroup_ctor_def)

lemma write_parts_step:
  assumes "LocalRegionGroup_span grp (i * il) (i * il + min il (length (lg_inner grp) - i * il)) = Ret part"
    and "byteSize part = n" and "\<not> remoteOffset + n > rr_len remote"
    and "writeImpl accept token (lg_iovs part) (lg_descs part) (rr_addr remote + remoteOffset, n, rr_rkey remote) destAddr
      (if i = nb - 1 then imm else None) posted = (Ret (), posted')"
  shows "write_parts accept token grp remote destAddr imm il nb (i # parts) remoteOffset posted =
    write_parts accept token grp remote destAddr imm il nb parts (remoteOffset + n) posted'"
  using assms by (simp add: Let_def bind_act_def lift_act_def)

text \<open>
  The parts of a group are written one behind the other; only the last request carries the immediate data.
\<close>

lemma write_parts_delivers:
  assumes accept: "accepts_all accept"
    and arrive: "writes_arrive deliver resolve" and at: "region_at resolve remote t"
    and fits: "sizes rs \<le> unat (rr_len remote)" and pos: "\<And>r. r \<in> set rs \<Longrightarrow> 0 < unat (lr_len r)"
    and il: "0 < il" and nb: "(nb - 1) * il < length rs" "length rs \<le> nb * il"
    and i: "i \<le> nb"
  shows "\<exists>msgs. write_parts accept token (LocalRegionGroup_ctor rs) remote destAddr imm il nb [i..<nb] (of_nat (sizes (take (i * il) rs))) posted
      = (Ret (), posted @ msgs) \<and> length msgs = nb - i
    \<and> deliver_all deliver src msgs dst = store_bytes (t + of_nat (sizes (take (i * il) rs))) (gather src (map toIovec (drop (i * il) rs))) dst
    \<and> (\<forall>m \<in> set (butlast msgs). \<not> rm_hasData m)
    \<and> (i < nb \<longrightarrow> (rm_hasData (last msgs) \<longleftrightarrow> imm \<noteq> None) \<and> rm_data (last msgs) = (case imm of None \<Rightarrow> 0 | Some d \<Rightarrow> ucast d))"
  using i
proof (induction "nb - i" arbitrary: i posted dst)
  case 0
  then have "i = nb"
    by simp
  then show ?case
    using nb by (simp add: return_act_def)
next
  case (Suc d)
  then have less: "i < nb" and upt: "[i..<nb] = i # [Suc i..<nb]"
    by (simp_all add: upt_conv_Cons)
  let ?first = "i * il" and ?here = "take il (drop (i * il) rs)" and ?off = "sizes (take (i * il) rs)"
  have "i * il \<le> (nb - 1) * il"
    using less by (intro mult_right_mono) simp_all
  then have first: "?first < length rs"
    using nb(1) by (rule le_less_trans)
  have take_Suc: "take (Suc i * il) rs = take ?first rs @ ?here"
    by (simp add: add.commute [of il] take_add)
  have drop_Suc: "drop (i * il) rs = ?here @ drop (Suc i * il) rs"
    by (metis add.commute append_take_drop_id drop_drop mult_Suc)
  have total: "sizes rs = sizes (take ?first rs) + sizes ?here + sizes (drop (Suc i * il) rs)"
    by (metis append_take_drop_id sizes_simps(3) take_Suc)
  have off_less: "?off < unat (rr_len remote)"
  proof -
    obtain r where r: "r \<in> set ?here"
      using first il by (cases ?here) auto
    then have "r \<in> set rs"
      by (meson in_set_dropD in_set_takeD)
    then have "0 < unat (lr_len r)"
      by (rule pos)
    also have "\<dots> \<le> sizes ?here"
      unfolding sizes_def using r by (intro member_le_sum_list) auto
    finally have "0 < sizes ?here" .
    then show ?thesis
      using total fits by simp
  qed
  have room: "(of_nat ?off + of_nat (sizes ?here) :: u64) \<le> rr_len remote"
  proof -
    have "unat (of_nat (?off + sizes ?here) :: u64) \<le> ?off + sizes ?here"
      by (simp only: unat_of_nat mod_less_eq_dividend)
    also have "\<dots> \<le> unat (rr_len remote)"
      using total fits by simp
    finally show ?thesis
      by (simp add: word_le_nat_alt)
  qed
  have next_off: "of_nat ?off + of_nat (sizes ?here) = (of_nat (sizes (take (Suc i * il) rs)) :: u64)"
    unfolding take_Suc by simp
  define imm' where "imm' = (if i = nb - 1 then imm else None)"
  define m where "m = \<lparr>rm_token = token, rm_iov = map toIovec ?here, rm_desc = map lr_desc ?here, rm_dest = destAddr,
    rm_rma = (rr_addr remote + of_nat ?off, of_nat (sizes ?here), rr_rkey remote),
    rm_data = (case imm' of None \<Rightarrow> 0 | Some d \<Rightarrow> ucast d), rm_hasData = (imm' \<noteq> None)\<rparr>"
  have unat_off: "unat (of_nat ?off :: u64) = ?off"
    using off_less unat_u64_less [of "rr_len remote"] by (simp add: unat_of_nat take_bit_nat_eq_self)
  have resolved: "resolve (rr_rkey remote) (rr_addr remote + of_nat ?off) = t + of_nat ?off"
    using at off_less by (simp add: region_at_def word_less_nat_alt unat_off)
  have arrived: "deliver m src dst = store_bytes (t + of_nat ?off) (gather src (map toIovec ?here)) dst"
    using writes_arriveD [OF arrive, of m "rr_addr remote + of_nat ?off" "of_nat (sizes ?here)" "rr_rkey remote" src dst] resolved
    by (simp add: m_def)
  have step: "write_parts accept token (LocalRegionGroup_ctor rs) remote destAddr imm il nb (i # [Suc i..<nb]) (of_nat ?off) posted =
    write_parts accept token (LocalRegionGroup_ctor rs) remote destAddr imm il nb [Suc i..<nb]
      (of_nat (sizes (take (Suc i * il) rs))) (posted @ [m])"
  proof -
    have "\<not> of_nat ?off + of_nat (sizes ?here) > rr_len remote"
      using room by (simp only: not_less)
    note * = write_parts_step [OF span_of_group' [OF less_imp_le [OF first]] byteSize_sizes this, where accept = accept and token = token
      and destAddr = destAddr and nb = nb and imm = imm and posted = posted and posted' = "posted @ [m]" and parts = "[Suc i..<nb]"]
    show ?thesis
      by (rule * [unfolded next_off]) (simp only: writeImpl_accepted [OF accept] m_def imm'_def LocalRegionGroup.simps simp_thms)
  qed
  let ?rest = "drop (Suc i * il) rs"
  have join: "store_bytes (t + of_nat (sizes (take (Suc i * il) rs))) (gather src (map toIovec ?rest)) (deliver m src dst) =
    store_bytes (t + of_nat ?off) (gather src (map toIovec (drop (i * il) rs))) dst"
  proof -
    have "length (gather src (map toIovec ?here)) + length (gather src (map toIovec ?rest)) \<le> 2 ^ 64"
      using total fits unat_u64_less [of "rr_len remote"] by (simp only: length_gather_regions)
    note append = store_bytes_append [OF this, of "t + of_nat ?off" dst]
    have "gather src (map toIovec (drop (i * il) rs)) = gather src (map toIovec ?here) @ gather src (map toIovec ?rest)"
      by (subst drop_Suc) simp
    then show ?thesis
      unfolding arrived append by (simp only: append length_gather_regions add.assoc next_off [symmetric])
  qed
  have "d = nb - Suc i" "Suc i \<le> nb"
    using Suc.hyps(2) less by simp_all
  from Suc.hyps(1) [OF this, of "posted @ [m]" "deliver m src dst"] obtain msgs where
    msgs: "write_parts accept token (LocalRegionGroup_ctor rs) remote destAddr imm il nb [Suc i..<nb]
        (of_nat (sizes (take (Suc i * il) rs))) (posted @ [m]) = (Ret (), (posted @ [m]) @ msgs)"
      "length msgs = nb - Suc i"
      "deliver_all deliver src msgs (deliver m src dst) =
        store_bytes (t + of_nat (sizes (take (Suc i * il) rs))) (gather src (map toIovec ?rest)) (deliver m src dst)"
      "\<forall>m \<in> set (butlast msgs). \<not> rm_hasData m"
      "Suc i < nb \<longrightarrow> (rm_hasData (last msgs) \<longleftrightarrow> imm \<noteq> None) \<and> rm_data (last msgs) = (case imm of None \<Rightarrow> 0 | Some d \<Rightarrow> ucast d)"
    by blast
  have none: "\<not> rm_hasData m" if "msgs \<noteq> []"
    using that msgs(2) by (auto simp: m_def imm'_def)
  have final: "(rm_hasData (last (m # msgs)) \<longleftrightarrow> imm \<noteq> None) \<and> rm_data (last (m # msgs)) = (case imm of None \<Rightarrow> 0 | Some d \<Rightarrow> ucast d)"
  proof (cases "msgs = []")
    case True
    then have "i = nb - 1"
      using msgs(2) less by simp
    with True show ?thesis
      by (simp add: m_def imm'_def)
  next
    case False
    then have "Suc i < nb"
      using msgs(2) by (cases msgs) simp_all
    with False msgs(5) show ?thesis
      by simp
  qed
  show ?case
    unfolding upt step
  proof (intro exI [where x = "m # msgs"] conjI)
    show "write_parts accept token (LocalRegionGroup_ctor rs) remote destAddr imm il nb [Suc i..<nb]
        (of_nat (sizes (take (Suc i * il) rs))) (posted @ [m]) = (Ret (), posted @ m # msgs)"
      by (simp only: msgs(1) append_assoc append_Cons append_Nil)
    show "length (m # msgs) = nb - i"
      using msgs(2) less by simp
    show "deliver_all deliver src (m # msgs) dst = store_bytes (t + of_nat ?off) (gather src (map toIovec (drop (i * il) rs))) dst"
      by (simp only: deliver_all_simps msgs(3) join)
    show "\<forall>m \<in> set (butlast (m # msgs)). \<not> rm_hasData m"
      using none msgs(4) by simp
  qed (rule impI, rule final)
qed

lemma ceiling_div:
  fixes len il :: nat
  assumes "0 < il" "0 < len"
  shows "((len + il - 1) div il - 1) * il < len" "len \<le> (len + il - 1) div il * il" "0 < (len + il - 1) div il"
proof -
  define q where "q = (len + il - 1) div il"
  have eq: "len + il - 1 = q * il + (len + il - 1) mod il" and m: "(len + il - 1) mod il < il"
    using assms by (simp_all add: q_def)
  then show "len \<le> (len + il - 1) div il * il"
    unfolding q_def [symmetric] by linarith
  show pos: "0 < (len + il - 1) div il"
    using assms by (simp add: div_greater_zero_iff)
  then have "q * il = (q - 1) * il + il"
    by (metis Suc_diff_1 add.commute mult_Suc q_def)
  then show "((len + il - 1) div il - 1) * il < len"
    unfolding q_def [symmetric] using eq assms by linarith
qed

lemma write_group_delivers:
  assumes accept: "accepts_all accept"
    and arrive: "writes_arrive deliver resolve" and at: "region_at resolve remote t"
    and fits: "sizes rs \<le> unat (rr_len remote)" and pos: "\<And>r. r \<in> set rs \<Longrightarrow> 0 < unat (lr_len r)"
    and il: "0 < unat iovLimit" "length rs + unat iovLimit < 2 ^ 64" and rs: "rs \<noteq> []"
  obtains msgs where
    "write_group accept iovLimit token (LocalRegionGroup_ctor rs) remote destAddr imm posted = (Ret (of_nat (length msgs)), posted @ msgs)"
    "msgs \<noteq> []"
    "deliver_all deliver src msgs dst = store_bytes t (gather src (map toIovec rs)) dst"
    "\<forall>m \<in> set (butlast msgs). \<not> rm_hasData m"
    "rm_hasData (last msgs) \<longleftrightarrow> imm \<noteq> None"
    "rm_data (last msgs) = (case imm of None \<Rightarrow> 0 | Some d \<Rightarrow> ucast d)"
proof -
  let ?nb = "(length rs + unat iovLimit - 1) div unat iovLimit"
  have len: "0 < length rs"
    using rs by simp
  note nb = ceiling_div [OF il(1) len]
  have sum: "unat (of_nat (length rs) + iovLimit :: u64) = length rs + unat iovLimit"
    using il(2) by (simp add: unat_word_ariths unat_of_nat take_bit_nat_eq_self)
  then have "unat (of_nat (length rs) + iovLimit - 1) = length rs + unat iovLimit - 1"
    using il(1) by (subst unat_minus_le) (simp_all add: word_le_nat_alt)
  then have nbw: "unat ((of_nat (length rs) + iovLimit - 1) div iovLimit) = ?nb"
    by (simp add: unat_div)
  obtain msgs where msgs:
    "write_parts accept token (LocalRegionGroup_ctor rs) remote destAddr imm (unat iovLimit) ?nb [0..<?nb] 0 posted = (Ret (), posted @ msgs)"
    "length msgs = ?nb" "deliver_all deliver src msgs dst = store_bytes t (gather src (map toIovec rs)) dst"
    "\<forall>m \<in> set (butlast msgs). \<not> rm_hasData m"
    "(rm_hasData (last msgs) \<longleftrightarrow> imm \<noteq> None) \<and> rm_data (last msgs) = (case imm of None \<Rightarrow> 0 | Some d \<Rightarrow> ucast d)"
    using write_parts_delivers [OF accept arrive at fits pos il(1) nb(1,2), where i = 0 and token = token and destAddr = destAddr and imm = imm
      and posted = posted and src = src and dst = dst] nb(3)
    by auto
  have "iovLimit \<noteq> 0"
    using il(1) by auto
  moreover have n: "(of_nat (length rs) + iovLimit - 1) div iovLimit = (of_nat (length msgs) :: u64)"
    by (simp only: msgs(2) nbw [symmetric]) simp
  moreover have "unat (of_nat (length msgs) :: u64) = ?nb"
    using nbw by (simp only: n)
  ultimately have "write_group accept iovLimit token (LocalRegionGroup_ctor rs) remote destAddr imm posted = (Ret (of_nat (length msgs)), posted @ msgs)"
    using msgs(1) by (simp add: write_group_def LocalRegionGroup_ctor_def bind_act_def return_act_def nbw Let_def)
  then show thesis
    using that msgs nb(3) by fastforce
qed

end
