(* ===== verification/FabricGrains.thy ===== *)
theory FabricGrains
  imports FabricDelivery
begin

text \<open>
  Grains travel from the region of a sender to the region of a receiver: which bytes \<open>ge_transferGrain\<close> writes for
  a range of slices, and what \<open>gi_read\<close> makes of the completion.
\<close>

section \<open>The bytes of a range of slices\<close>

text \<open>Plane \<open>pl\<close> of a grain starts behind the header and the planes before it.\<close>

definition plane_base :: "DataLayout_Discrete \<Rightarrow> nat \<Rightarrow> nat \<Rightarrow> nat" where
  "plane_base l po pl = po + (\<Sum>s\<leftarrow>take pl (dl_sliceSizes l). unat s * unat (dl_totalSlices l))"

definition grain_bytes :: "DataLayout_Discrete \<Rightarrow> nat \<Rightarrow> nat" where
  "grain_bytes l po = plane_base l po (length (dl_sliceSizes l))"

text \<open>
  The bytes that a range of slices stands for: those slices of every plane, and the header with the first slice.
\<close>

definition in_slices :: "DataLayout_Discrete \<Rightarrow> SliceRange \<Rightarrow> nat \<Rightarrow> nat \<Rightarrow> bool" where
  "in_slices l r po k \<longleftrightarrow>
     sr_start r = 0 \<and> k < po
     \<or> (\<exists>pl < length (dl_sliceSizes l).
          plane_base l po pl + unat (sr_start r) * unat (dl_sliceSizes l ! pl) \<le> k
          \<and> k < plane_base l po pl + unat (sr_end r) * unat (dl_sliceSizes l ! pl))"

lemma plane_base_Suc:
  "pl < length (dl_sliceSizes l) \<Longrightarrow>
   plane_base l po (Suc pl) = plane_base l po pl + unat (dl_sliceSizes l ! pl) * unat (dl_totalSlices l)"
  by (simp add: plane_base_def take_Suc_conv_app_nth)

lemma plane_base_mono: "i \<le> j \<Longrightarrow> plane_base l po i \<le> plane_base l po j"
proof (induction j rule: dec_induct)
  case (step j)
  have "plane_base l po j \<le> plane_base l po (Suc j)"
  proof (cases "j < length (dl_sliceSizes l)")
    case True
    then show ?thesis by (simp add: plane_base_Suc)
  next
    case False
    then show ?thesis by (simp add: plane_base_def)
  qed
  with step show ?case by simp
qed simp

lemma plane_base_le_grain: "plane_base l po pl \<le> grain_bytes l po"
proof (cases "pl \<le> length (dl_sliceSizes l)")
  case True
  then show ?thesis
    unfolding grain_bytes_def by (rule plane_base_mono)
next
  case False
  then show ?thesis
    by (simp add: grain_bytes_def plane_base_def)
qed

lemma plane_end_le_grain:
  assumes "pl < length (dl_sliceSizes l)" "n \<le> unat (dl_totalSlices l)"
  shows "plane_base l po pl + n * unat (dl_sliceSizes l ! pl) \<le> grain_bytes l po"
proof -
  have "plane_base l po pl + n * unat (dl_sliceSizes l ! pl) \<le> plane_base l po (Suc pl)"
    using assms by (simp add: plane_base_Suc mult.commute)
  also have "\<dots> \<le> grain_bytes l po"
    by (rule plane_base_le_grain)
  finally show ?thesis .
qed

text \<open>All slices are all bytes.\<close>

lemma in_all_slices:
  assumes "sr_start r = 0" "sr_end r = dl_totalSlices l" "k < grain_bytes l po"
  shows "in_slices l r po k"
proof (cases "k < po")
  case True
  then show ?thesis
    using assms(1) by (simp add: in_slices_def)
next
  case False
  have "\<exists>pl < n. plane_base l po pl \<le> k \<and> k < plane_base l po (Suc pl)" if "k < plane_base l po n" for n
    using that
  proof (induction n)
    case 0
    then show ?case
      using False by (simp add: plane_base_def)
  next
    case (Suc n)
    show ?case
    proof (cases "k < plane_base l po n")
      case True
      with Suc.IH show ?thesis
        by (meson less_SucI)
    next
      case False
      with Suc.prems show ?thesis
        by (intro exI [of _ n]) simp
    qed
  qed
  then obtain pl where "pl < length (dl_sliceSizes l)" "plane_base l po pl \<le> k" "k < plane_base l po (Suc pl)"
    using assms(3) unfolding grain_bytes_def by blast
  then show ?thesis
    using assms by (auto simp: in_slices_def plane_base_Suc mult.commute)
qed

section \<open>The window of a plane\<close>

lemma unat_mult_32:
  assumes "unat a * unat b < 2 ^ 32"
  shows "unat (a * b :: u32) = unat a * unat b"
  using assms unat_mult_lem [of a b] by simp

lemma unat_plus_32:
  assumes "unat a + unat b < 2 ^ 32"
  shows "unat (a + b :: u32) = unat a + unat b"
  using assms by (simp add: unat_plus_fits)

lemma unat_ucast_16_32 [simp]: "unat (ucast (w :: u16) :: u32) = unat w"
  by (simp add: unsigned_ucast_eq take_bit_nat_eq_self order_less_trans [OF unsigned_less])

lemma plane_fold:
  assumes "unat a + (\<Sum>s\<leftarrow>ss. unat s * unat t) < 2 ^ 32"
  shows "unat (foldl (\<lambda>lhs rhs. lhs + rhs * ucast (t :: u16)) (a :: u32) ss) = unat a + (\<Sum>s\<leftarrow>ss. unat s * unat t)"
  using assms
proof (induction ss arbitrary: a)
  case (Cons s ss)
  have "unat s * unat t < 2 ^ 32" "unat a + unat s * unat t < 2 ^ 32"
    using Cons.prems by simp_all
  then have "unat (a + s * ucast t) = unat a + unat s * unat t"
    using unat_mult_32 [of s "ucast t"] unat_plus_32 [of a "s * ucast t"] by simp
  with Cons.IH [of "a + s * ucast t"] Cons.prems show ?case
    by simp
qed simp

lemma planePayloadOffset_base:
  assumes "pl < length (dl_sliceSizes l)" "grain_bytes l (unat po) < 2 ^ 32"
  obtains base where "planePayloadOffset l pl po = Ret base" "unat base = plane_base l (unat po) pl"
proof
  show "planePayloadOffset l pl po = Ret (foldl (\<lambda>lhs rhs. lhs + rhs * ucast (dl_totalSlices l)) po (take pl (dl_sliceSizes l)))"
    using assms(1) by (simp add: planePayloadOffset_def)
  have "plane_base l (unat po) pl < 2 ^ 32"
    using plane_base_le_grain [of l "unat po" pl] assms(2) by linarith
  then show "unat (foldl (\<lambda>lhs rhs. lhs + rhs * ucast (dl_totalSlices l)) po (take pl (dl_sliceSizes l))) = plane_base l (unat po) pl"
    unfolding plane_base_def by (rule plane_fold)
qed

definition window_start :: "DataLayout_Discrete \<Rightarrow> SliceRange \<Rightarrow> nat \<Rightarrow> nat \<Rightarrow> nat" where
  "window_start l r po pl =
     (if pl = 0 \<and> sr_start r = 0 then 0 else plane_base l po pl + unat (sr_start r) * unat (dl_sliceSizes l ! pl))"

definition window_end :: "DataLayout_Discrete \<Rightarrow> SliceRange \<Rightarrow> nat \<Rightarrow> nat \<Rightarrow> nat" where
  "window_end l r po pl = plane_base l po pl + unat (sr_end r) * unat (dl_sliceSizes l ! pl)"

definition slices_ok :: "DataLayout_Discrete \<Rightarrow> SliceRange \<Rightarrow> bool" where
  "slices_ok l r \<longleftrightarrow> sr_start r \<le> sr_end r \<and> sr_end r \<le> dl_totalSlices l"

lemma slices_ok_nat: "slices_ok l r \<Longrightarrow> unat (sr_start r) \<le> unat (sr_end r) \<and> unat (sr_end r) \<le> unat (dl_totalSlices l)"
  by (simp add: slices_ok_def word_le_nat_alt)

lemma window_bounds:
  assumes "pl < length (dl_sliceSizes l)" "slices_ok l r"
  shows "window_start l r po pl \<le> window_end l r po pl" "window_end l r po pl \<le> grain_bytes l po"
proof -
  have "unat (sr_start r) * unat (dl_sliceSizes l ! pl) \<le> unat (sr_end r) * unat (dl_sliceSizes l ! pl)"
    using slices_ok_nat [OF assms(2)] by (intro mult_right_mono) simp_all
  then show "window_start l r po pl \<le> window_end l r po pl"
    by (simp add: window_start_def window_end_def)
  show "window_end l r po pl \<le> grain_bytes l po"
    unfolding window_end_def using assms(1) slices_ok_nat [OF assms(2)] by (intro plane_end_le_grain) simp_all
qed

lemma transferSize_nat:
  assumes "sr_start r \<le> sr_end r" "unat (sr_end r) * unat s < 2 ^ 32"
  shows "unat (transferSize r s) = unat (sr_end r) * unat s - unat (sr_start r) * unat s"
proof -
  have "unat (ucast (sr_end r) - ucast (sr_start r) :: u32) = unat (sr_end r) - unat (sr_start r)"
    using assms(1) by (subst unat_minus_le) (simp_all add: word_le_nat_alt)
  moreover have "(unat (sr_end r) - unat (sr_start r)) * unat s < 2 ^ 32"
    using assms(2) by (meson diff_le_self le_less_trans mult_le_mono1)
  ultimately show ?thesis
    unfolding transferSize_def by (subst unat_mult_32) (simp_all add: diff_mult_distrib)
qed

lemma transferOffset_nat:
  assumes "unat p + unat (sr_start r) * unat s < 2 ^ 32"
  shows "unat (transferOffset r p s) = unat p + unat (sr_start r) * unat s"
  unfolding transferOffset_def using assms by (subst unat_plus_32; subst unat_mult_32) simp_all

lemma plane_window_nat:
  assumes pl: "pl < length (dl_sliceSizes l)" and ok: "slices_ok l r" and fits: "grain_bytes l (unat po) < 2 ^ 32"
  obtains off len where "plane_window l r po pl = Ret (off, len)" "unat off = window_start l r (unat po) pl"
    "unat len = window_end l r (unat po) pl - window_start l r (unat po) pl"
proof -
  let ?s = "dl_sliceSizes l ! pl" and ?base = "plane_base l (unat po) pl"
  have le: "sr_start r \<le> sr_end r"
    using ok by (simp add: slices_ok_def)
  have "window_end l r (unat po) pl < 2 ^ 32"
    using window_bounds(2) [OF pl ok, of "unat po"] fits by simp
  then have e: "?base + unat (sr_end r) * unat ?s < 2 ^ 32"
    by (simp add: window_end_def)
  have "unat (sr_start r) * unat ?s \<le> unat (sr_end r) * unat ?s"
    using le by (intro mult_right_mono) (simp_all add: word_le_nat_alt)
  then have s: "?base + unat (sr_start r) * unat ?s < 2 ^ 32"
    using e by linarith
  have size: "unat (transferSize r ?s) = unat (sr_end r) * unat ?s - unat (sr_start r) * unat ?s"
    using le e by (intro transferSize_nat) linarith+
  have zero: "plane_base l (unat po) 0 = unat po"
    by (simp add: plane_base_def)
  show thesis
  proof (cases "pl = 0")
    case True
    show thesis
    proof (cases "sr_start r = 0")
      case start: True
      have "unat (transferSize r ?s + po) = unat (sr_end r) * unat ?s + unat po"
        using e True start size by (subst unat_plus_32) (simp_all add: zero)
      then show thesis
        using that [of "transferOffset r 0 ?s" "transferSize r ?s + po"] True start
        by (simp add: plane_window_def Let_def window_start_def window_end_def zero transferOffset_def)
    next
      case False
      have "unat (transferOffset r po ?s) = unat po + unat (sr_start r) * unat ?s"
        using s True by (intro transferOffset_nat) (simp add: zero)
      then show thesis
        using that [of "transferOffset r po ?s" "transferSize r ?s"] True False size
        by (simp add: plane_window_def Let_def window_start_def window_end_def zero)
    qed
  next
    case False
    obtain base where base: "planePayloadOffset l pl po = Ret base" "unat base = ?base"
      by (rule planePayloadOffset_base [OF pl fits])
    have "unat (transferOffset r base ?s) = ?base + unat (sr_start r) * unat ?s"
      using s by (subst transferOffset_nat) (simp_all add: base)
    then show thesis
      using that [of "transferOffset r base ?s" "transferSize r ?s"] False base size
      by (simp add: plane_window_def Let_def window_start_def window_end_def)
  qed
qed

section \<open>One request\<close>

definition copied :: "u64 \<Rightarrow> u64 \<Rightarrow> nat \<Rightarrow> nat \<Rightarrow> memory \<Rightarrow> memory \<Rightarrow> memory" where
  "copied a t first last_byte src dst = store_bytes (t + of_nat first) (load_bytes src (a + of_nat first) (last_byte - first)) dst"

lemma copied_at:
  assumes "k < n" "n < 2 ^ 64" "f \<le> e" "e \<le> n"
  shows "copied a t f e src dst (t + of_nat k) = (if f \<le> k \<and> k < e then src (a + of_nat k) else dst (t + of_nat k))"
proof -
  have k: "unat (of_nat k :: u64) = k"
    using assms by (simp add: unat_of_nat take_bit_nat_eq_self)
  have off: "unat (of_nat k - of_nat f :: u64) = (if f \<le> k then k - f else 2 ^ 64 + k - f)"
    using unat_minus_of_nat [of f "of_nat k"] assms k by simp
  show ?thesis
  proof (cases "f \<le> k \<and> k < e")
    case True
    have "a + (of_nat f + of_nat (k - f)) = a + of_nat k"
      using True by (simp flip: of_nat_add)
    then show ?thesis
      using True by (simp add: copied_def store_bytes_def off add.assoc diff_less_mono)
  next
    case False
    then show ?thesis
      using assms by (auto simp: copied_def store_bytes_def off)
  qed
qed

lemma copied_outside:
  assumes "x \<notin> bytes_at t n" "n \<le> 2 ^ 64" "f \<le> e" "e \<le> n"
  shows "copied a t f e src dst x = dst x"
proof -
  have n: "n \<le> unat (x - t)"
    using assms(1) by (simp add: bytes_at_def)
  then have "unat (x - t - of_nat f) = unat (x - t) - f"
    using unat_minus_of_nat [of f "x - t"] assms by simp
  moreover have "x - (t + of_nat f) = x - t - of_nat f"
    by (rule diff_diff_eq [symmetric])
  ultimately have "unat (x - (t + of_nat f)) = unat (x - t) - f"
    by (simp only:)
  then have "e - f \<le> unat (x - (t + of_nat f))"
    using n assms by linarith
  then show ?thesis
    by (simp add: copied_def store_bytes_def)
qed

lemma write_one_accepted:
  assumes "accepts_all accept"
  shows "post_counted (write_one accept token local remote destAddr imm) (p, posted) =
    (Ret (), p\<lparr>ge_pending := ge_pending p + 1\<rparr>, posted @ [\<lparr>rm_token = token, rm_iov = [toIovec local], rm_desc = [lr_desc local],
       rm_dest = destAddr, rm_rma = toRmaIov remote, rm_data = (case imm of None \<Rightarrow> 0 | Some d \<Rightarrow> ucast d), rm_hasData = (imm \<noteq> None)\<rparr>])"
  by (simp add: post_counted_def write_one_def bind_act_def return_act_def writeImpl_accepted [OF assms])

lemma deliver_one:
  assumes "writes_arrive deliver resolve" "region_at resolve remote t"
    and "rm_rma m = (rr_addr remote + of_nat f, n, rr_rkey remote)" "rm_iov m = [(a + of_nat f, of_nat (e - f))]"
    and "f \<le> e" "e \<le> unat (rr_len remote)"
  shows "deliver m src dst = copied a t f e src dst"
proof (cases "f = e")
  case True
  then show ?thesis
    using writes_arriveD [OF assms(1,3)] assms(4) by (simp add: copied_def gather_Cons)
next
  case False
  then have "f < unat (rr_len remote)"
    using assms by simp
  moreover from this have "unat (of_nat f :: u64) = f" "unat (of_nat (e - f) :: u64) = e - f"
    using unat_u64_less [of "rr_len remote"] assms(6) by (simp_all add: unat_of_nat take_bit_nat_eq_self)
  ultimately show ?thesis
    using writes_arriveD [OF assms(1,3)] assms(2,4) by (simp add: copied_def gather_Cons region_at_def word_less_nat_alt)
qed

section \<open>The planes of a grain\<close>

definition plane_msg :: "u64 \<Rightarrow> LocalRegion \<Rightarrow> RemoteRegion \<Rightarrow> u64 \<Rightarrow> u64 \<Rightarrow> DataLayout_Discrete \<Rightarrow> SliceRange \<Rightarrow> nat \<Rightarrow> nat \<Rightarrow> nat \<Rightarrow> rma_msg" where
  "plane_msg token local remote slot destAddr l r po planeCount pl =
     (let f = window_start l r po pl; n = window_end l r po pl - f; final = (pl = planeCount - 1)
      in \<lparr>rm_token = token, rm_iov = [(lr_addr local + of_nat f, of_nat n)], rm_desc = [lr_desc local], rm_dest = destAddr,
          rm_rma = (rr_addr remote + of_nat f, of_nat n, rr_rkey remote),
          rm_data = (if final then ucast (ImmDataGrain_ctor slot (sr_end r)) else 0), rm_hasData = final\<rparr>)"

lemma ucast_32_64_nat: "unat w = n \<Longrightarrow> (ucast (w :: u32) :: u64) = of_nat n"
  using unat_u32_less [of w] by (simp add: word_eq_unat unat_of_nat take_bit_nat_eq_self)

lemma transfer_planes_posts:
  assumes accept: "accepts_all accept"
    and planes: "\<And>pl. pl \<in> set planes \<Longrightarrow> pl < length (dl_sliceSizes (ge_layout p))"
    and ok: "slices_ok (ge_layout p) r" and fits: "grain_bytes (ge_layout p) (unat po) < 2 ^ 32"
    and len: "grain_bytes (ge_layout p) (unat po) \<le> unat (lr_len local)" "grain_bytes (ge_layout p) (unat po) \<le> unat (rr_len remote)"
  shows "transfer_planes accept local remote slot po r destAddr n planes (p, posted) =
    (Ret (), p\<lparr>ge_pending := ge_pending p + of_nat (length planes)\<rparr>,
     posted @ map (plane_msg (ge_token p) local remote slot destAddr (ge_layout p) r (unat po) n) planes)"
  using assms
proof (induction planes arbitrary: p posted)
  case Nil
  then show ?case
    by (simp add: return_act_def)
next
  case (Cons pl planes)
  let ?l = "ge_layout p"
  have pl: "pl < length (dl_sliceSizes ?l)"
    using Cons.prems(2) by simp
  obtain off len where w: "plane_window ?l r po pl = Ret (off, len)" "unat off = window_start ?l r (unat po) pl"
    "unat len = window_end ?l r (unat po) pl - window_start ?l r (unat po) pl"
    by (rule plane_window_nat [OF pl Cons.prems(3,4)])
  note offw = ucast_32_64_nat [OF w(2)] and lenw = ucast_32_64_nat [OF w(3)]
  have "unat (ucast off + ucast len :: u64) = unat off + unat len"
    using unat_u32_less [of off] unat_u32_less [of len] by (simp add: unat_plus_fits)
  also have "\<dots> \<le> grain_bytes ?l (unat po)"
    using window_bounds [OF pl Cons.prems(3), of "unat po"] w(2,3) by simp
  finally have room: "\<not> ucast off + ucast len > lr_len local" "\<not> ucast off + ucast len > rr_len remote"
    using Cons.prems(5,6) by (simp_all add: word_less_nat_alt)
  let ?p = "p\<lparr>ge_pending := ge_pending p + 1\<rparr>"
  have IH: "transfer_planes accept local remote slot po r destAddr n planes (?p, posted @ [m]) =
    (Ret (), ?p\<lparr>ge_pending := ge_pending ?p + of_nat (length planes)\<rparr>,
     (posted @ [m]) @ map (plane_msg (ge_token ?p) local remote slot destAddr (ge_layout ?p) r (unat po) n) planes)" for m
    by (rule Cons.IH) (use Cons.prems in simp_all)
  show ?case
    using room IH
    by (simp add: bind_act_def lift_act_def w(1) LocalRegion_sub_def RemoteRegion_sub_def write_one_accepted [OF accept] toIovec_def toRmaIov_def
        plane_msg_def offw lenw Let_def add.assoc)
qed

lemma planes_delivered:
  fixes l r po
  assumes arrive: "writes_arrive deliver resolve" and at: "region_at resolve remote t"
    and planes: "\<And>pl. pl \<in> set planes \<Longrightarrow> pl < length (dl_sliceSizes l)"
    and ok: "slices_ok l r" and fits: "grain_bytes l po < 2 ^ 32" "grain_bytes l po \<le> unat (rr_len remote)"
  shows "(k < grain_bytes l po \<longrightarrow>
      deliver_all deliver src (map (plane_msg token local remote slot destAddr l r po n) planes) dst (t + of_nat k) =
      (if \<exists>pl \<in> set planes. window_start l r po pl \<le> k \<and> k < window_end l r po pl
       then src (lr_addr local + of_nat k) else dst (t + of_nat k)))
    \<and> (x \<notin> bytes_at t (grain_bytes l po) \<longrightarrow>
      deliver_all deliver src (map (plane_msg token local remote slot destAddr l r po n) planes) dst x = dst x)"
  using planes
proof (induction planes arbitrary: dst)
  case (Cons pl planes)
  have pl: "pl < length (dl_sliceSizes l)"
    using Cons.prems by simp
  note w = window_bounds [OF pl ok, of po]
  have one: "deliver (plane_msg token local remote slot destAddr l r po n pl) src dst =
    copied (lr_addr local) t (window_start l r po pl) (window_end l r po pl) src dst" for dst
    by (rule deliver_one [OF arrive at]) (use w fits in \<open>simp_all add: plane_msg_def Let_def\<close>)
  have small: "grain_bytes l po < 2 ^ 64" "grain_bytes l po \<le> 2 ^ 64"
    using fits by simp_all
  note IH = Cons.IH [OF Cons.prems [OF list.set_intros(2)]]
  show ?case
    using IH copied_at [OF _ small(1) w] copied_outside [OF _ small(2) w] by (auto simp: one)
qed simp

lemma planes_are_slices:
  assumes "0 < n" "n \<le> length (dl_sliceSizes l)"
    and "\<forall>i. n \<le> i \<longrightarrow> i < length (dl_sliceSizes l) \<longrightarrow> dl_sliceSizes l ! i = 0"
  shows "(\<exists>pl \<in> set [0..<n]. window_start l r po pl \<le> k \<and> k < window_end l r po pl) \<longleftrightarrow> in_slices l r po k"
    (is "?window \<longleftrightarrow> _")
proof
  assume ?window
  then obtain pl where pl: "pl < n" "window_start l r po pl \<le> k" "k < window_end l r po pl"
    by auto
  show "in_slices l r po k"
  proof (cases "pl = 0 \<and> sr_start r = 0")
    case True
    then show ?thesis
      using pl assms(1,2) by (cases "k < po") (auto simp: in_slices_def window_end_def plane_base_def intro!: exI [of _ 0])
  next
    case False
    then show ?thesis
      using pl assms(2) by (auto simp: in_slices_def window_start_def window_end_def intro!: exI [of _ pl])
  qed
next
  assume "in_slices l r po k"
  then consider "sr_start r = 0" "k < po"
    | pl where "pl < length (dl_sliceSizes l)" "plane_base l po pl + unat (sr_start r) * unat (dl_sliceSizes l ! pl) \<le> k"
        "k < plane_base l po pl + unat (sr_end r) * unat (dl_sliceSizes l ! pl)"
    unfolding in_slices_def by blast
  then show ?window
  proof cases
    case 1
    then show ?thesis
      using assms(1) by (intro bexI [of _ 0]) (simp_all add: window_start_def window_end_def plane_base_def)
  next
    case 2
    then have "pl < n"
      using assms(3) by (cases "pl < n") auto
    then show ?thesis
      using 2 by (intro bexI [of _ pl]) (auto simp: window_start_def window_end_def)
  qed
qed

section \<open>The slot of a grain\<close>

lemma slot_of_index:
  fixes i :: u64
  assumes "n < 2 ^ 64"
  shows "unat (i mod of_nat n) = unat i mod n"
  using assms by (simp add: unat_mod unat_of_nat take_bit_nat_eq_self)

lemma imm_data_slot:
  assumes "unat i < 2 ^ 16"
  shows "unat (im_ringBufferSlot (ImmDataGrain_unpack (ucast (ucast (ImmDataGrain_ctor i e) :: u64)))) = unat i"
    and "im_sliceIndex (ImmDataGrain_unpack (ucast (ucast (ImmDataGrain_ctor i e) :: u64))) = e"
proof -
  have "ucast (ucast w :: u64) = w" for w :: u32
    by (rule bit_word_eqI) (simp add: bit_ucast_iff)
  then show "unat (im_ringBufferSlot (ImmDataGrain_unpack (ucast (ucast (ImmDataGrain_ctor i e) :: u64)))) = unat i"
    "im_sliceIndex (ImmDataGrain_unpack (ucast (ucast (ImmDataGrain_ctor i e) :: u64))) = e"
    using assms by (simp_all add: imm_data_roundtrip unsigned_ucast_eq take_bit_nat_eq_self)
qed

lemma grain_read:
  assumes "0 \<le> recv" "unat (im_ringBufferSlot (ImmDataGrain_unpack (ucast d))) = slot" "im_sliceIndex (ImmDataGrain_unpack (ucast d)) = e"
    and "slot < length (gi_regions q)" "gi_regions q ! slot = writable_region t region"
  shows "gi_read q recv (DataEntry \<lparr>co_token = token, co_remoteCqData = True, co_data = d\<rparr>) mem =
    (let mem' = store_word (t + OFFSET_OF_VALID_SLICES) 2 e mem
     in (Ret (Some (GrainReadResult (load_word mem' (t + OFFSET_OF_INDEX) 8))), mem'))"
  using assms
  by (simp add: gi_read_def bind_act_def lift_act_def endpoint_recv_def fiCall_def completion_immediate_def return_act_def Let_def
      setValidSlicesForGrain_def getGrainIndexInRingSlot_def writable_region_def not_le)

section \<open>A transfer\<close>

lemma deliver_all_snoc: "deliver_all deliver src (msgs @ [m]) dst = deliver m src (deliver_all deliver src msgs dst)"
  by (simp add: deliver_all_def)

text \<open>What one call posts and what has arrived when the last request is done, whichever path it took.\<close>

lemma grain_posted:
  fixes p li ri
  defines "l \<equiv> ge_layout p" and "locals \<equiv> ge_localRegions p" and "remotes \<equiv> ge_remoteRegions p"
  defines "local \<equiv> locals ! (unat li mod length locals)" and "slot \<equiv> unat ri mod length remotes"
  assumes accept: "accepts_all accept" and arrive: "writes_arrive deliver resolve" and at: "region_at resolve (remotes ! slot) t"
    and lists: "locals \<noteq> []" "length locals < 2 ^ 64" "remotes \<noteq> []" "length remotes \<le> 2 ^ 16"
    and ok: "slices_ok l r" and fits: "grain_bytes l (unat po) < 2 ^ 32"
    and len: "unat (lr_len local) = grain_bytes l (unat po)" "unat (rr_len (remotes ! slot)) = grain_bytes l (unat po)"
    and planes: "0 < activePlaneCount l" "\<forall>i. activePlaneCount l \<le> i \<longrightarrow> i < length (dl_sliceSizes l) \<longrightarrow> dl_sliceSizes l ! i = 0"
  obtains msgs where
    "ge_transferGrain accept li ri po r destAddr (p, posted) = (Ret (), p\<lparr>ge_pending := ge_pending p + of_nat (length msgs)\<rparr>, posted @ msgs)"
    "rm_hasData (last msgs)" "rm_data (last msgs) = ucast (ImmDataGrain_ctor (of_nat slot) (sr_end r))"
    "\<forall>k < grain_bytes l (unat po). deliver_all deliver src msgs dst (t + of_nat k) =
       (if in_slices l r (unat po) k then src (lr_addr local + of_nat k) else dst (t + of_nat k))"
    "\<forall>x. x \<notin> bytes_at t (grain_bytes l (unat po)) \<longrightarrow> deliver_all deliver src msgs dst x = dst x"
proof -
  let ?n = "activePlaneCount l"
  have "slot < length remotes"
    using lists(3) by (simp add: slot_def)
  then have slot: "slot < 2 ^ 16"
    using lists(4) by linarith
  have "unat (ri mod of_nat (length remotes)) = slot"
    unfolding slot_def using lists(4) by (intro slot_of_index) simp
  then have rslot: "ri mod of_nat (length remotes) = of_nat slot" and slot64: "unat (of_nat slot :: u64) = slot"
    using slot by (simp_all add: word_eq_unat unat_of_nat take_bit_nat_eq_self)
  have lslot: "unat (li mod of_nat (length locals)) = unat li mod length locals"
    using lists(2) by (rule slot_of_index)
  have none: "\<not> (locals = [] \<or> remotes = [])"
    using lists by simp
  have run: "ge_transferGrain accept li ri po r destAddr (p, posted) =
    (if sr_start r = 0 \<and> sr_end r = dl_totalSlices l then
       post_counted (write_one accept (ge_token p) local (remotes ! slot) destAddr (Some (ImmDataGrain_ctor (of_nat slot) (dl_totalSlices l)))) (p, posted)
     else transfer_planes accept local (remotes ! slot) (of_nat slot) po r destAddr ?n [0..<?n] (p, posted))"
    using none by (simp add: ge_transferGrain_def Let_def l_def [symmetric] locals_def [symmetric] remotes_def [symmetric] rslot lslot
        local_def [symmetric] slot64)
  have "?n \<le> length (dl_sliceSizes l)"
    by (simp add: activePlaneCount_def)
  then have inside: "\<And>pl. pl \<in> set [0..<?n] \<Longrightarrow> pl < length (dl_sliceSizes l)"
    by simp
  show thesis
  proof (cases "sr_start r = 0 \<and> sr_end r = dl_totalSlices l")
    case True
    let ?m = "\<lparr>rm_token = ge_token p, rm_iov = [toIovec local], rm_desc = [lr_desc local], rm_dest = destAddr,
      rm_rma = toRmaIov (remotes ! slot), rm_data = ucast (ImmDataGrain_ctor (of_nat slot) (dl_totalSlices l)), rm_hasData = True\<rparr>"
    have lenw: "lr_len local = of_nat (grain_bytes l (unat po))"
      using len(1) by (metis of_nat_unat ucast_id)
    have m: "deliver ?m src dst = copied (lr_addr local) t 0 (grain_bytes l (unat po)) src dst"
      by (rule deliver_one [OF arrive at]) (use len(2) in \<open>simp_all add: toIovec_def toRmaIov_def lenw\<close>)
    show thesis
    proof (rule that [of "[?m]"])
      show "ge_transferGrain accept li ri po r destAddr (p, posted) =
          (Ret (), p\<lparr>ge_pending := ge_pending p + of_nat (length [?m])\<rparr>, posted @ [?m])"
        unfolding run using True by (simp add: write_one_accepted [OF accept])
      show "\<forall>k < grain_bytes l (unat po). deliver_all deliver src [?m] dst (t + of_nat k) =
          (if in_slices l r (unat po) k then src (lr_addr local + of_nat k) else dst (t + of_nat k))"
        using True fits in_all_slices [of r l _ "unat po"] by (simp add: m copied_at [of _ "grain_bytes l (unat po)"])
      show "\<forall>x. x \<notin> bytes_at t (grain_bytes l (unat po)) \<longrightarrow> deliver_all deliver src [?m] dst x = dst x"
        using fits by (simp add: m copied_outside [of _ _ "grain_bytes l (unat po)"])
    qed (use True in simp_all)
  next
    case False
    let ?msgs = "map (plane_msg (ge_token p) local (remotes ! slot) (of_nat slot) destAddr l r (unat po) ?n) [0..<?n]"
    have posts: "transfer_planes accept local (remotes ! slot) (of_nat slot) po r destAddr ?n [0..<?n] (p, posted) =
      (Ret (), p\<lparr>ge_pending := ge_pending p + of_nat (length [0..<?n])\<rparr>, posted @ ?msgs)"
      unfolding l_def by (rule transfer_planes_posts [OF accept])
        (use inside ok fits len in \<open>simp_all add: l_def\<close>)
    have final: "last ?msgs = plane_msg (ge_token p) local (remotes ! slot) (of_nat slot) destAddr l r (unat po) ?n (?n - 1)"
      using planes(1) by (simp add: last_map)
    have room: "grain_bytes l (unat po) \<le> unat (rr_len (remotes ! slot))"
      using len(2) by simp
    note arrived = planes_delivered [OF arrive at _ ok fits room, where planes = "[0..<?n]" and src = src and token = "ge_token p"
        and local = local and slot = "of_nat slot" and destAddr = destAddr and n = ?n and dst = dst, OF inside]
    show thesis
    proof (rule that [of ?msgs])
      show "ge_transferGrain accept li ri po r destAddr (p, posted) =
          (Ret (), p\<lparr>ge_pending := ge_pending p + of_nat (length ?msgs)\<rparr>, posted @ ?msgs)"
        by (simp only: run False if_False posts length_map)
      show "rm_hasData (last ?msgs)" "rm_data (last ?msgs) = ucast (ImmDataGrain_ctor (of_nat slot) (sr_end r))"
        unfolding final by (simp_all add: plane_msg_def Let_def)
      show "\<forall>k < grain_bytes l (unat po). deliver_all deliver src ?msgs dst (t + of_nat k) =
          (if in_slices l r (unat po) k then src (lr_addr local + of_nat k) else dst (t + of_nat k))"
        using arrived len(2) planes_are_slices [OF planes(1) \<open>?n \<le> length (dl_sliceSizes l)\<close> planes(2), of r "unat po"] by simp
      show "\<forall>x. x \<notin> bytes_at t (grain_bytes l (unat po)) \<longrightarrow> deliver_all deliver src ?msgs dst x = dst x"
        using arrived len(2) by simp
    qed
  qed
qed

lemma stored_word_at:
  assumes "k < n" "n < 2 ^ 64" "f + m \<le> n"
  shows "store_word (t + of_nat f) m w mem (t + of_nat k) = (if f \<le> k \<and> k < f + m then word_bytes m w ! (k - f) else mem (t + of_nat k))"
proof -
  have k: "unat (of_nat k :: u64) = k"
    using assms by (simp add: unat_of_nat take_bit_nat_eq_self)
  have "unat (of_nat k - of_nat f :: u64) = (if f \<le> k then k - f else 2 ^ 64 + k - f)"
    using unat_minus_of_nat [of f "of_nat k"] assms k by simp
  then show ?thesis
    using assms by (auto simp: store_word_def store_bytes_def)
qed

lemma stored_word_outside:
  assumes "x \<notin> bytes_at t n" "n \<le> 2 ^ 64" "f + m \<le> n"
  shows "store_word (t + of_nat f) m w mem x = mem x"
proof -
  have "x \<notin> bytes_at (t + of_nat f) m"
  proof
    assume x: "x \<in> bytes_at (t + of_nat f) m"
    then have k: "unat (x - (t + of_nat f)) < m"
      by (simp add: bytes_at_def)
    then have "t + of_nat (f + unat (x - (t + of_nat f))) \<in> bytes_at t n"
      using assms by (intro bytes_atI) simp_all
    then show False
      using assms(1) by simp
  qed
  then show ?thesis
    by (simp add: store_word_def store_bytes_def bytes_at_def)
qed

text \<open>
  A range of slices sent by \<open>transferGrain\<close> arrives. When the requests are accepted and libfabric writes what they
  say, the receiver that gets the completion of the last one finds in the region of the slot exactly those slices of
  every plane, and the header with the first slice, as the sender has them; the number of valid slices is set to
  the end of the range, the index that is reported is the one in the header, and no other byte is changed.
\<close>

theorem grain_arrives:
  fixes p li ri l q
  defines "locals \<equiv> ge_localRegions p" and "remotes \<equiv> ge_remoteRegions p"
  defines "local \<equiv> locals ! (unat li mod length locals)" and "slot \<equiv> unat ri mod length remotes"
  assumes l: "l = ge_layout p" and accept: "accepts_all accept" and arrive: "writes_arrive deliver resolve"
    and lists: "locals \<noteq> []" "length locals < 2 ^ 64" "remotes \<noteq> []" "length remotes \<le> 2 ^ 16"
    and target: "length (gi_regions q) = length remotes" "gi_regions q ! slot = writable_region t region"
      "region_at resolve (remotes ! slot) t"
    and ok: "slices_ok l r" and fits: "28 \<le> unat po" "grain_bytes l (unat po) < 2 ^ 32"
    and len: "unat (lr_len local) = grain_bytes l (unat po)" "unat (rr_len (remotes ! slot)) = grain_bytes l (unat po)"
    and planes: "0 < activePlaneCount l" "\<forall>i. activePlaneCount l \<le> i \<longrightarrow> i < length (dl_sliceSizes l) \<longrightarrow> dl_sliceSizes l ! i = 0"
    and recv: "0 \<le> recv"
  shows "\<exists>msgs mem'.
    ge_transferGrain accept li ri po r destAddr (p, posted) = (Ret (), p\<lparr>ge_pending := ge_pending p + of_nat (length msgs)\<rparr>, posted @ msgs)
    \<and> gi_read q recv (DataEntry \<lparr>co_token = token, co_remoteCqData = rm_hasData (last msgs), co_data = rm_data (last msgs)\<rparr>)
        (deliver_all deliver src msgs dst) =
      (Ret (Some (GrainReadResult (if sr_start r = 0 then load_word src (lr_addr local + OFFSET_OF_INDEX) 8 else load_word dst (t + OFFSET_OF_INDEX) 8))), mem')
    \<and> (\<forall>k < grain_bytes l (unat po). mem' (t + of_nat k) =
         (if 26 \<le> k \<and> k < 28 then word_bytes 2 (sr_end r) ! (k - 26)
          else if in_slices l r (unat po) k then src (lr_addr local + of_nat k) else dst (t + of_nat k)))
    \<and> (\<forall>x. x \<notin> bytes_at t (grain_bytes l (unat po)) \<longrightarrow> mem' x = dst x)"
proof -
  let ?g = "grain_bytes l (unat po)"
  obtain msgs where msgs:
    "ge_transferGrain accept li ri po r destAddr (p, posted) = (Ret (), p\<lparr>ge_pending := ge_pending p + of_nat (length msgs)\<rparr>, posted @ msgs)"
    "rm_hasData (last msgs)" "rm_data (last msgs) = ucast (ImmDataGrain_ctor (of_nat slot) (sr_end r))"
    "\<forall>k < ?g. deliver_all deliver src msgs dst (t + of_nat k) =
       (if in_slices l r (unat po) k then src (lr_addr local + of_nat k) else dst (t + of_nat k))"
    "\<forall>x. x \<notin> bytes_at t ?g \<longrightarrow> deliver_all deliver src msgs dst x = dst x"
    unfolding l slot_def local_def remotes_def locals_def
    by (rule grain_posted [where p = p and li = li and ri = ri and accept = accept and deliver = deliver and resolve = resolve and t = t
        and r = r and po = po and destAddr = destAddr and posted = posted and src = src and dst = dst])
      (use assms in \<open>simp_all only: l slot_def local_def remotes_def locals_def not_False_eq_True simp_thms\<close>)
  have small: "unat po \<le> ?g" "?g < 2 ^ 64"
    using plane_base_mono [of 0 "length (dl_sliceSizes l)" l "unat po"] fits by (simp_all add: grain_bytes_def plane_base_def)
  have slot: "slot < length (gi_regions q)"
    using lists target(1) by (simp add: slot_def)
  then have "slot < 2 ^ 16"
    using target(1) lists(4) by linarith
  then have slot16: "unat (of_nat slot :: u64) < 2 ^ 16" "unat (of_nat slot :: u64) = slot"
    by (simp_all add: unat_of_nat take_bit_nat_eq_self)
  let ?arrived = "deliver_all deliver src msgs dst"
  define mem' where "mem' = store_word (t + OFFSET_OF_VALID_SLICES) 2 (sr_end r) ?arrived"
  have read: "gi_read q recv (DataEntry \<lparr>co_token = token, co_remoteCqData = rm_hasData (last msgs), co_data = rm_data (last msgs)\<rparr>) ?arrived
    = (Ret (Some (GrainReadResult (load_word mem' (t + OFFSET_OF_INDEX) 8))), mem')"
    using grain_read [OF recv, of "ucast (ImmDataGrain_ctor (of_nat slot) (sr_end r))" slot "sr_end r" q t region] slot target(2)
      imm_data_slot [OF slot16(1), of "sr_end r"] slot16(2) msgs(2,3)
    by (simp add: mem'_def Let_def)
  have at: "mem' (t + of_nat k) = (if 26 \<le> k \<and> k < 28 then word_bytes 2 (sr_end r) ! (k - 26)
      else if in_slices l r (unat po) k then src (lr_addr local + of_nat k) else dst (t + of_nat k))" if "k < ?g" for k
    using stored_word_at [of k ?g 26 2 t "sr_end r" ?arrived] that small fits(1) msgs(4) by (simp add: mem'_def OFFSET_OF_VALID_SLICES_def)
  have index: "load_word mem' (t + OFFSET_OF_INDEX) 8 =
    (if sr_start r = 0 then load_word src (lr_addr local + OFFSET_OF_INDEX) 8 else load_word dst (t + OFFSET_OF_INDEX) 8 :: u64)"
  proof -
    have byte: "mem' (t + of_nat (8 + k)) = (if sr_start r = 0 then src (lr_addr local + of_nat (8 + k)) else dst (t + of_nat (8 + k)))" if "k < 8" for k
    proof -
      have "in_slices l r (unat po) (8 + k) \<longleftrightarrow> sr_start r = 0"
      proof (cases "sr_start r = 0")
        case False
        have "\<not> plane_base l (unat po) pl + m \<le> 8 + k" for pl m
          using plane_base_mono [of 0 pl l "unat po"] that fits(1) by (simp add: plane_base_def)
        with False show ?thesis
          by (auto simp: in_slices_def)
      qed (use that fits(1) in \<open>simp add: in_slices_def\<close>)
      with at [of "8 + k"] that fits(1) small(1) show ?thesis
        by simp
    qed
    have "load_bytes mem' (t + OFFSET_OF_INDEX) 8 =
      (if sr_start r = 0 then load_bytes src (lr_addr local + OFFSET_OF_INDEX) 8 else load_bytes dst (t + OFFSET_OF_INDEX) 8)"
      by (rule nth_equalityI) (use byte in \<open>auto simp: OFFSET_OF_INDEX_def add.assoc\<close>)
    then show ?thesis
      by (simp add: load_word_def)
  qed
  have outside: "mem' x = dst x" if "x \<notin> bytes_at t ?g" for x
    using stored_word_outside [OF that, of 26 2 "sr_end r" ?arrived] that small fits(1) msgs(5)
    by (simp add: mem'_def OFFSET_OF_VALID_SLICES_def)
  show ?thesis
    by (intro exI conjI) (use msgs(1) read index at outside in auto)
qed

text \<open>Slices 1 and 2 of 4, in two planes with slices of 2 and of 1 bytes, for the second slot.\<close>

definition example_grain_sender :: RMAGrainEgressProtocol where
  "example_grain_sender = \<lparr>ge_token = 1,
     ge_remoteRegions = [\<lparr>rr_addr = 0, rr_len = 44, rr_rkey = 1000\<rparr>, \<lparr>rr_addr = 0, rr_len = 44, rr_rkey = 2000\<rparr>],
     ge_layout = \<lparr>dl_sliceSizes = [2, 1], dl_totalSlices = 4\<rparr>,
     ge_localRegions = [\<lparr>lr_addr = 100, lr_len = 44, lr_desc = 0\<rparr>], ge_pending = 0\<rparr>"

definition example_grain_receiver :: RMAGrainIngressProtocol where
  "example_grain_receiver = \<lparr>gi_regions = [writable_region 1000 (host_region 1000 44), writable_region 2000 (host_region 2000 44)],
     gi_isMemoryRegistered = True, gi_immDataBuffer = False\<rparr>"

definition keyed_write :: delivery where
  "keyed_write m src dst = (case rm_rma m of (a, _, k) \<Rightarrow> store_bytes (k + a) (gather src (rm_iov m)) dst)"

theorem grain_arrives_witness:
  "\<exists>msgs mem'.
    ge_transferGrain (\<lambda>_ _. 0) 7 3 32 \<lparr>sr_start = 1, sr_end = 3\<rparr> 0 (example_grain_sender, []) =
      (Ret (), example_grain_sender\<lparr>ge_pending := of_nat (length msgs)\<rparr>, msgs)
    \<and> gi_read example_grain_receiver 0 (DataEntry \<lparr>co_token = 0, co_remoteCqData = rm_hasData (last msgs), co_data = rm_data (last msgs)\<rparr>)
        (deliver_all keyed_write ucast msgs (\<lambda>_. 0)) = (Ret (Some (GrainReadResult (load_word (\<lambda>_. 0) (2000 + OFFSET_OF_INDEX) 8))), mem')
    \<and> (\<forall>k < 44. mem' (2000 + of_nat k) =
         (if 26 \<le> k \<and> k < 28 then word_bytes 2 (3 :: u16) ! (k - 26)
          else if in_slices \<lparr>dl_sliceSizes = [2, 1], dl_totalSlices = 4\<rparr> \<lparr>sr_start = 1, sr_end = 3\<rparr> 32 k then ucast (100 + of_nat k :: u64) else 0))"
proof -
  have params: "accepts_all (\<lambda>_ _. 0)" "writes_arrive keyed_write (\<lambda>k a. k + a)"
    by (auto simp: accepts_all_def writes_arrive_def keyed_write_def)
  have bytes: "grain_bytes \<lparr>dl_sliceSizes = [2, 1], dl_totalSlices = 4\<rparr> 32 = 44"
    by (simp add: grain_bytes_def plane_base_def)
  have active: "activePlaneCount \<lparr>dl_sliceSizes = [2, 1], dl_totalSlices = 4\<rparr> = 2"
    by (simp add: activePlaneCount_def)
  have ok: "slices_ok \<lparr>dl_sliceSizes = [2, 1], dl_totalSlices = 4\<rparr> \<lparr>sr_start = 1, sr_end = 3\<rparr>"
    by (simp add: slices_ok_def)
  have at: "region_at (\<lambda>k a. k + a) \<lparr>rr_addr = 0, rr_len = 44, rr_rkey = 2000\<rparr> 2000"
    by (simp add: region_at_def)
  show ?thesis
    using grain_arrives [where p = example_grain_sender and l = "\<lparr>dl_sliceSizes = [2, 1], dl_totalSlices = 4\<rparr>" and q = example_grain_receiver
        and accept = "\<lambda>_ _. 0" and deliver = keyed_write and resolve = "\<lambda>k a. k + a" and li = 7 and ri = 3 and t = 2000
        and region = "host_region 2000 44" and r = "\<lparr>sr_start = 1, sr_end = 3\<rparr>" and po = 32 and recv = 0 and destAddr = 0
        and posted = "[]" and token = 0 and src = ucast and dst = "\<lambda>_. 0"] params bytes active ok at
    by (simp add: example_grain_sender_def example_grain_receiver_def cong: if_cong split del: if_split flip: numeral_2_eq_2) (elim exE conjE, intro exI conjI, assumption+)
qed

end
