(* ===== verification/FabricSamples.thy ===== *)
theory FabricSamples
  imports FabricDelivery
begin

text \<open>
  Samples travel from the ring of a sender to the ring of a receiver: what the requests of
  \<open>se_transferSamples\<close> write into a bounce buffer, and what \<open>si_read\<close> copies out of it.
\<close>

section \<open>Copying into fragments\<close>

lemma memcpy_outside: "x \<notin> set (fragment_addrs (a, n)) \<Longrightarrow> memcpy a src n mem x = mem x"
  unfolding memcpy_def by (rule store_bytes_outside) simp_all

lemma load_memcpy: "load_bytes (memcpy a src n mem) a (unat n) = load_bytes mem src (unat n)"
proof -
  have "length (load_bytes mem src (unat n)) \<le> 2 ^ 64"
    using unat_u64_less [of n] by simp
  from load_store_bytes [OF this, of a mem] show ?thesis
    by (simp add: memcpy_def)
qed

lemma copy_fragments_outside: "x \<notin> set (addrs frs) \<Longrightarrow> copy_fragments frs src mem x = mem x"
  by (induction frs arbitrary: src mem) (auto simp: memcpy_outside split: prod.splits)

lemma load_bytes_cong: "(\<And>k. k < n \<Longrightarrow> mem (a + of_nat k) = mem' (a + of_nat k)) \<Longrightarrow> load_bytes mem a n = load_bytes mem' a n"
  by (simp add: load_bytes_def)

text \<open>Fragments that neither overlap each other nor the source receive the source, in order.\<close>

lemma copy_fragments_gather:
  assumes "distinct (addrs frs)"
    and "\<And>k. k < (\<Sum>f\<leftarrow>frs. unat (snd f)) \<Longrightarrow> src + of_nat k \<notin> set (addrs frs)"
  shows "gather (copy_fragments frs src mem) frs = load_bytes mem src (\<Sum>f\<leftarrow>frs. unat (snd f))"
  using assms
proof (induction frs arbitrary: src mem)
  case Nil
  then show ?case by simp
next
  case (Cons f frs)
  obtain a n where f: "f = (a, n)"
    by (rule prod.exhaust)
  let ?mem = "memcpy a src n mem" and ?rest = "\<Sum>f\<leftarrow>frs. unat (snd f)"
  have away: "src + of_nat k \<notin> set (fragment_addrs (a, n))" "src + of_nat k \<notin> set (addrs frs)" if "k < unat n + ?rest" for k
    using Cons.prems(2) [of k] that f by auto
  have "load_bytes (copy_fragments frs (src + n) ?mem) a (unat n) = load_bytes ?mem a (unat n)"
  proof (rule load_bytes_cong)
    fix k
    assume "k < unat n"
    then have "a + of_nat k \<in> set (fragment_addrs (a, n))"
      by (auto simp: fragment_addrs_def)
    then have "a + of_nat k \<notin> set (addrs frs)"
      using Cons.prems(1) f by auto
    then show "copy_fragments frs (src + n) ?mem (a + of_nat k) = ?mem (a + of_nat k)"
      by (rule copy_fragments_outside)
  qed
  also have "\<dots> = load_bytes mem src (unat n)"
    by (rule load_memcpy)
  finally have first: "load_bytes (copy_fragments frs (src + n) ?mem) a (unat n) = load_bytes mem src (unat n)" .
  have shift: "src + n + of_nat k = src + of_nat (unat n + k)" for k
    by simp
  have "gather (copy_fragments frs (src + n) ?mem) frs = load_bytes ?mem (src + n) ?rest"
  proof (rule Cons.IH)
    show "distinct (addrs frs)"
      using Cons.prems(1) by simp
    show "src + n + of_nat k \<notin> set (addrs frs)" if "k < ?rest" for k
      unfolding shift by (rule away(2)) (use that in simp)
  qed
  also have "\<dots> = load_bytes mem (src + n) ?rest"
    by (rule load_bytes_cong) (unfold shift, rule memcpy_outside, rule away(1), simp)
  finally show ?case
    using first by (simp add: f gather_Cons load_bytes_append)
qed

section \<open>The addresses of samples in a ring\<close>

text \<open>
  The ring at \<open>base\<close> holds \<open>C\<close> channels of \<open>L\<close> samples of \<open>sz\<close> bytes; sample \<open>j\<close> of a channel is at \<open>j mod L\<close>.
\<close>

definition sample_pos :: "nat \<Rightarrow> nat \<Rightarrow> nat \<Rightarrow> nat \<Rightarrow> nat \<Rightarrow> nat" where
  "sample_pos sz L c j b = sz * (c * L + j mod L) + b"

definition ring_addrs :: "u64 \<Rightarrow> nat \<Rightarrow> nat \<Rightarrow> nat \<Rightarrow> nat \<Rightarrow> nat \<Rightarrow> u64 list" where
  "ring_addrs base sz L C lo n =
     map (\<lambda>(c, k, b). base + of_nat (sample_pos sz L c (lo + k) b)) (List.product [0..<C] (List.product [0..<n] [0..<sz]))"

lemma map_product: "map f (List.product xs ys) = concat (map (\<lambda>x. map (\<lambda>y. f (x, y)) ys) xs)"
  by (induction xs) simp_all

lemma ring_addrs_concat:
  "ring_addrs base sz L C lo n =
     concat (map (\<lambda>c. concat (map (\<lambda>k. map (\<lambda>b. base + of_nat (sample_pos sz L c (lo + k) b)) [0..<sz]) [0..<n])) [0..<C])"
  by (simp add: ring_addrs_def map_product)

lemma sample_pos_less:
  assumes "c < C" "b < sz" "0 < L"
  shows "sample_pos sz L c j b < sz * (C * L)"
proof -
  have "j mod L < L"
    using assms by simp
  then have "c * L + j mod L < Suc c * L"
    by simp
  also have "\<dots> \<le> C * L"
    using assms by (intro mult_right_mono) simp_all
  finally have "Suc (c * L + j mod L) \<le> C * L"
    by simp
  then have "sz * Suc (c * L + j mod L) \<le> sz * (C * L)"
    by (rule mult_le_mono2)
  then show ?thesis
    using assms by (simp add: sample_pos_def)
qed

lemma sample_pos_parts:
  assumes "b < sz"
  shows "sample_pos sz L c j b div sz = c * L + j mod L" "sample_pos sz L c j b mod sz = b"
  using assms by (simp_all add: sample_pos_def)

lemma sample_pos_inj:
  assumes "sample_pos sz L c j b = sample_pos sz L c' j' b'" "b < sz" "b' < sz" "0 < L"
  shows "c = c' \<and> j mod L = j' mod L \<and> b = b'"
proof -
  have eq: "c * L + j mod L = c' * L + j' mod L"
    using sample_pos_parts(1) [OF assms(2), of L c j] sample_pos_parts(1) [OF assms(3), of L c' j'] assms(1) by simp
  have b: "b = b'"
    using sample_pos_parts(2) [OF assms(2), of L c j] sample_pos_parts(2) [OF assms(3), of L c' j'] assms(1) by simp
  have "(c * L + j mod L) div L = c" "(c' * L + j' mod L) div L = c'"
    using assms(4) by simp_all
  then show ?thesis
    using eq b by auto
qed

lemma of_nat_u64_inj:
  assumes "of_nat m = (of_nat n :: u64)" "m < 2 ^ 64" "n < 2 ^ 64"
  shows "m = n"
proof -
  have "unat (of_nat m :: u64) = m" "unat (of_nat n :: u64) = n"
    using assms(2,3) by (simp_all add: unat_of_nat take_bit_nat_eq_self)
  then show ?thesis
    by (metis assms(1))
qed

lemma distinct_ring_addrs:
  assumes "n \<le> L" "0 < L" "sz * (C * L) \<le> 2 ^ 64"
  shows "distinct (ring_addrs base sz L C lo n)"
  unfolding ring_addrs_def distinct_map
proof
  show "distinct (List.product [0..<C] (List.product [0..<n] [0..<sz]))"
    by (intro distinct_product distinct_upt)
  show "inj_on (\<lambda>(c, k, b). base + of_nat (sample_pos sz L c (lo + k) b)) (set (List.product [0..<C] (List.product [0..<n] [0..<sz])))"
  proof (rule inj_onI, clarsimp)
    fix c k b c' k' b'
    assume r: "c < C" "k < n" "b < sz" "c' < C" "k' < n" "b' < sz"
      and eq: "(of_nat (sample_pos sz L c (lo + k) b) :: u64) = of_nat (sample_pos sz L c' (lo + k') b')"
    have "sample_pos sz L c (lo + k) b < 2 ^ 64" "sample_pos sz L c' (lo + k') b' < 2 ^ 64"
      using sample_pos_less [of c C b sz L "lo + k"] sample_pos_less [of c' C b' sz L "lo + k'"] r assms by linarith+
    with eq have "sample_pos sz L c (lo + k) b = sample_pos sz L c' (lo + k') b'"
      by (rule of_nat_u64_inj)
    from sample_pos_inj [OF this] r assms
    have *: "c = c'" "(lo + k) mod L = (lo + k') mod L" "b = b'"
      by simp_all
    have "lo + k = lo + k'"
      by (rule mod_inj_window [where lo = lo and n = L]) (use * r assms in simp_all)
    with * show "c = c' \<and> k = k' \<and> b = b'"
      by simp
  qed
qed

section \<open>The fragments of a channel\<close>

text \<open>The window of \<open>n\<close> positions that starts at \<open>m\<close> is one run, or two when it goes round the end.\<close>

lemma ring_window:
  assumes "0 < n" "n \<le> L" "s = m mod L" "f = (if s < (m + n) mod L then n else L - s)"
  shows "[s..<s + f] @ [0..<n - f] = map (\<lambda>k. (m + k) mod L) [0..<n]" "f \<le> n" "s + f \<le> L"
proof -
  have s: "s < L"
    using assms by simp
  have wrap: "(m + k) mod L = (if s + k < L then s + k else s + k - L)" if "k < L" for k
  proof -
    have "(m + k) mod L = (s + k) mod L"
      by (simp add: assms(3) mod_add_left_eq)
    also have "\<dots> = (if s + k < L then s + k else s + k - L)"
      using s that by (simp add: mod_if [of "s + k"])
    finally show ?thesis .
  qed
  have f: "f = (if s + n < L then n else L - s)"
  proof (cases "n = L")
    case True
    then show ?thesis
      using assms s by simp
  next
    case False
    then have "n < L"
      using assms by simp
    then show ?thesis
      unfolding assms(4) wrap [OF \<open>n < L\<close>] using \<open>0 < n\<close> s by auto
  qed
  show len: "f \<le> n" "s + f \<le> L"
    using f s assms(2) by auto
  show "[s..<s + f] @ [0..<n - f] = map (\<lambda>k. (m + k) mod L) [0..<n]"
  proof (rule nth_equalityI)
    show "length ([s..<s + f] @ [0..<n - f]) = length (map (\<lambda>k. (m + k) mod L) [0..<n])"
      using len by simp
    fix k
    assume "k < length ([s..<s + f] @ [0..<n - f])"
    then have k: "k < n"
      using len by simp
    then have "(m + k) mod L = (if s + k < L then s + k else s + k - L)"
      using wrap [of k] assms by simp
    also have "\<dots> = ([s..<s + f] @ [0..<n - f]) ! k"
      using k f s by (auto simp: nth_append)
    finally show "([s..<s + f] @ [0..<n - f]) ! k = map (\<lambda>k. (m + k) mod L) [0..<n] ! k"
      using k by simp
  qed
qed

lemma upt_blocks: "concat (map (\<lambda>p. map (\<lambda>b. sz * p + b) [0..<sz]) [s..<s + f]) = [sz * s..<sz * (s + f)]"
proof (induction f)
  case (Suc f)
  have "map (\<lambda>b. sz * (s + f) + b) [0..<sz] = [sz * (s + f)..<sz * (s + f) + sz]"
    by (rule nth_equalityI) simp_all
  moreover have "[sz * s..<sz * (s + f) + sz] = [sz * s..<sz * (s + f)] @ [sz * (s + f)..<sz * (s + f) + sz]"
    by (rule upt_add_eq_append) simp
  moreover have "sz * (s + Suc f) = sz * (s + f) + sz"
    by simp
  ultimately show ?case
    using Suc by (simp only: add_Suc_right upt_Suc_append le_add1 map_append concat_append list.map concat.simps append_Nil2)
qed simp

text \<open>A run of samples is a run of bytes.\<close>

lemma run_addrs:
  fixes a base :: u64
  assumes "a = base + of_nat (sz * (c * L + s))"
  shows "map (\<lambda>k. a + of_nat k) [0..<sz * f] =
    concat (map (\<lambda>p. map (\<lambda>b. base + of_nat (sz * (c * L + p) + b)) [0..<sz]) [s..<s + f])"
proof -
  let ?g = "\<lambda>x. base + of_nat (sz * (c * L) + x) :: u64"
  have "concat (map (\<lambda>p. map (\<lambda>b. base + of_nat (sz * (c * L + p) + b)) [0..<sz]) [s..<s + f]) =
    map ?g (concat (map (\<lambda>p. map (\<lambda>b. sz * p + b) [0..<sz]) [s..<s + f]))"
    by (simp add: map_concat comp_def distrib_left add.assoc)
  also have "\<dots> = map ?g [sz * s..<sz * (s + f)]"
    by (simp only: upt_blocks)
  also have "\<dots> = map (\<lambda>k. a + of_nat k) [0..<sz * f]"
    by (rule nth_equalityI) (simp_all add: assms distrib_left add.assoc)
  finally show ?thesis
    by (rule sym)
qed

lemma concat_window:
  assumes "ps @ qs = map (\<lambda>k. (m + k) mod L) [0..<n]"
  shows "concat (map g ps) @ concat (map g qs) = concat (map (\<lambda>k. g ((m + k) mod L)) [0..<n])"
proof -
  have "concat (map g ps) @ concat (map g qs) = concat (map g (ps @ qs))"
    by simp
  then show ?thesis
    by (simp only: assms map_map comp_def)
qed

lemma addrs_present: "addrs (map (\<lambda>f. (bs_pointer f + d, bs_size f)) (filter (\<lambda>f. bs_size f > 0) frs)) =
  addrs (map (\<lambda>f. (bs_pointer f + d, bs_size f)) frs)"
  by (induction frs) (auto simp: word_gt_0 fragment_addrs_def)

text \<open>The fragments of a channel are the samples of the window, in the order of their indices.\<close>

lemma slices_addrs:
  fixes h n L sz C base :: u64
  assumes "0 < unat n" "unat n \<le> unat L" "unat n \<le> unat h" "unat h + unat L < 2 ^ 64"
    and "unat sz * (unat C * unat L) < 2 ^ 64"
  obtains sl where "getMutableMultiBufferSlices h n L sz C base = Ret sl" "ws_count sl = C"
    "\<forall>c<unat C. addrs (channel_fragments sl c) =
       concat (map (\<lambda>k. map (\<lambda>b. base + of_nat (sample_pos (unat sz) (unat L) c (unat h - unat n + k) b)) [0..<unat sz]) [0..<unat n])"
proof -
  let ?m = "unat h - unat n" and ?L = "unat L" and ?n = "unat n" and ?sz = "unat sz"
  define s where "s = ?m mod ?L"
  define f where "f = (if s < (?m + ?n) mod ?L then ?n else ?L - s)"
  define sw where "sw = (h + L - n) mod L"
  define fw where "fw = (if sw < h mod L then n else L - sw)"
  have L: "0 < ?L" "L \<noteq> 0"
    using assms by auto
  have "unat (h + L - n) = ?m + ?L"
    using assms by (simp add: unat_minus_le unat_plus_fits word_le_nat_alt)
  then have sw: "unat sw = s"
    by (simp add: sw_def s_def unat_mod)
  have "(sw < h mod L) = (s < (?m + ?n) mod ?L)"
    using assms(3) by (simp add: word_less_nat_alt sw unat_mod)
  moreover have "unat (L - sw) = ?L - s"
    using L sw by (subst unat_minus_le) (auto simp: word_le_nat_alt s_def less_imp_le)
  ultimately have fw: "unat fw = f"
    by (simp add: fw_def f_def)
  note window = ring_window [OF assms(1,2) s_def f_def]
  have rest: "unat (n - fw) = ?n - f"
    using fw window(2) by (subst unat_minus_le) (simp_all add: word_le_nat_alt)
  define sl where "sl = \<lparr>ws_first = \<lparr>bs_pointer = base + sz * sw, bs_size = sz * fw\<rparr>,
    ws_second = \<lparr>bs_pointer = base, bs_size = sz * (n - fw)\<rparr>, ws_stride = sz * L, ws_count = C\<rparr>"
  show thesis
  proof (rule that)
    show "getMutableMultiBufferSlices h n L sz C base = Ret sl"
      using L by (simp add: getMutableMultiBufferSlices_def sl_def fw_def sw_def Let_def)
    show "ws_count sl = C"
      by (simp add: sl_def)
    show "\<forall>c<unat C. addrs (channel_fragments sl c) =
        concat (map (\<lambda>k. map (\<lambda>b. base + of_nat (sample_pos ?sz ?L c (?m + k) b)) [0..<?sz]) [0..<?n])"
    proof (intro allI impI)
    fix c
    assume c: "c < unat C"
    let ?g = "\<lambda>p. map (\<lambda>b. base + of_nat (?sz * (c * ?L + p) + b)) [0..<?sz]"
    have "1 * ?L \<le> unat C * ?L"
      using c by (intro mult_right_mono) simp_all
    then have "?sz * ?L \<le> ?sz * (unat C * ?L)"
      by (intro mult_le_mono2) simp
    then have szL: "?sz * ?L < 2 ^ 64"
      using assms(5) by (rule le_less_trans)
    have fits: "unat (sz * x) = ?sz * unat x" if "unat x \<le> ?L" for x
    proof -
      have "?sz * unat x \<le> ?sz * ?L"
        using that by simp
      then have "?sz * unat x < 2 ^ 64"
        using szL by (rule le_less_trans)
      then show ?thesis
        using unat_mult_lem [of sz x] by simp
    qed
    have first: "fragment_addrs (base + sz * sw + sz * L * of_nat c, sz * fw) = concat (map ?g [s..<s + f])"
    proof -
      have "base + sz * sw + sz * L * of_nat c = base + of_nat (?sz * (c * ?L + s))"
        by (simp add: algebra_simps flip: sw)
      from run_addrs [OF this] show ?thesis
        using window(3) fw by (simp add: fragment_addrs_def fits)
    qed
    have second: "fragment_addrs (base + sz * L * of_nat c, sz * (n - fw)) = concat (map ?g [0..<?n - f])"
    proof -
      have "base + sz * L * of_nat c = base + of_nat (?sz * (c * ?L + 0))"
        by (simp add: algebra_simps)
      from run_addrs [OF this, of "?n - f"] show ?thesis
        using assms(2) rest by (simp add: fragment_addrs_def fits)
    qed
    have "addrs (channel_fragments sl c) = concat (map ?g [s..<s + f]) @ concat (map ?g [0..<?n - f])"
      unfolding channel_fragments_def addrs_present by (simp add: sl_def first second)
    also have "\<dots> = concat (map (\<lambda>k. ?g ((?m + k) mod ?L)) [0..<?n])"
      by (rule concat_window [OF window(1)])
    finally show "addrs (channel_fragments sl c) =
        concat (map (\<lambda>k. map (\<lambda>b. base + of_nat (sample_pos ?sz ?L c (?m + k) b)) [0..<?sz]) [0..<?n])"
      by (simp add: sample_pos_def)
    qed
  qed
qed

lemma addrs_concat: "addrs (concat xss) = concat (map addrs xss)"
  by (induction xss) simp_all

text \<open>The fragments of all channels are the addresses of the samples in the ring.\<close>

lemma ring_slices:
  fixes h n L sz C base :: u64
  assumes "0 < unat n" "unat n \<le> unat L" "unat n \<le> unat h" "unat h + unat L < 2 ^ 64"
    and "unat sz * (unat C * unat L) < 2 ^ 64"
  obtains sl where "getMutableMultiBufferSlices h n L sz C base = Ret sl" "ws_count sl = C"
    "addrs (concat (map (channel_fragments sl) [0..<unat C])) =
       ring_addrs base (unat sz) (unat L) (unat C) (unat h - unat n) (unat n)"
proof -
  obtain sl where sl: "getMutableMultiBufferSlices h n L sz C base = Ret sl" "ws_count sl = C"
    "\<forall>c<unat C. addrs (channel_fragments sl c) =
       concat (map (\<lambda>k. map (\<lambda>b. base + of_nat (sample_pos (unat sz) (unat L) c (unat h - unat n + k) b)) [0..<unat sz]) [0..<unat n])"
    by (rule slices_addrs [OF assms, of base])
  have "addrs (concat (map (channel_fragments sl) [0..<unat C])) = concat (map (\<lambda>c. addrs (channel_fragments sl c)) [0..<unat C])"
    by (simp add: addrs_concat comp_def)
  also have "\<dots> = ring_addrs base (unat sz) (unat L) (unat C) (unat h - unat n) (unat n)"
    unfolding ring_addrs_concat by (intro arg_cong [where f = concat] map_cong refl sl(3) [rule_format]) simp
  finally show thesis
    by (rule that [OF sl(1,2)])
qed

section \<open>From ring to ring\<close>

abbreviation layout_addrs :: "u64 \<Rightarrow> DataLayout_Continuous \<Rightarrow> u64 \<Rightarrow> u64 \<Rightarrow> u64 list" where
  "layout_addrs base l h n \<equiv>
     ring_addrs base (unat (dl_sampleSize l)) (unat (dl_bufferLength l)) (unat (dl_channelCount l)) (unat h - unat n) (unat n)"

definition layout_bytes :: "DataLayout_Continuous \<Rightarrow> nat" where
  "layout_bytes l = unat (dl_sampleSize l) * (unat (dl_channelCount l) * unat (dl_bufferLength l))"

text \<open>A window of \<open>n\<close> samples that ends before index \<open>h\<close> and lies in a ring that fits into memory.\<close>

definition window_ok :: "DataLayout_Continuous \<Rightarrow> u64 \<Rightarrow> u64 \<Rightarrow> bool" where
  "window_ok l h n \<longleftrightarrow> 0 < unat n \<and> unat n \<le> unat (dl_bufferLength l) \<and> unat n \<le> unat h
     \<and> unat h + unat (dl_bufferLength l) < 2 ^ 64 \<and> layout_bytes l + 16 < 2 ^ 64"

lemma layout_slices:
  assumes "window_ok l h n"
  obtains sl where "getMutableMultiBufferSlices h n (dl_bufferLength l) (dl_sampleSize l) (dl_channelCount l) base = Ret sl"
    "ws_count sl = dl_channelCount l"
    "addrs (concat (map (channel_fragments sl) [0..<unat (dl_channelCount l)])) = layout_addrs base l h n"
proof -
  have "unat (dl_sampleSize l) * (unat (dl_channelCount l) * unat (dl_bufferLength l)) < 2 ^ 64"
    using assms unfolding window_ok_def layout_bytes_def by linarith
  then show thesis
    using ring_slices [of n "dl_bufferLength l" h "dl_sampleSize l" "dl_channelCount l" base] that assms
    unfolding window_ok_def by blast
qed

lemma length_ring_addrs: "length (ring_addrs base sz L C lo n) = C * (n * sz)"
  by (simp add: ring_addrs_def length_product)

lemma ring_addrs_within:
  assumes "0 < L" "sz * (C * L) < 2 ^ 64"
  shows "set (ring_addrs base sz L C lo n) \<subseteq> bytes_at base (sz * (C * L))"
proof
  fix x
  assume "x \<in> set (ring_addrs base sz L C lo n)"
  then obtain c k b where x: "c < C" "b < sz" "x = base + of_nat (sample_pos sz L c (lo + k) b)"
    by (auto simp: ring_addrs_def)
  show "x \<in> bytes_at base (sz * (C * L))"
    unfolding x(3) by (rule bytes_atI [OF sample_pos_less]) (use x assms in simp_all)
qed

lemma layout_addrs_within: "window_ok l h n \<Longrightarrow> set (layout_addrs base l h n) \<subseteq> bytes_at base (layout_bytes l)"
  unfolding layout_bytes_def by (rule ring_addrs_within) (simp_all add: window_ok_def layout_bytes_def)

lemma sum_unat_addrs: "(\<Sum>f\<leftarrow>frs. unat (snd f)) = length (addrs frs)"
  by (induction frs) simp_all

text \<open>The scatter-gather list names the samples of the window.\<close>

lemma scatter_gather_list:
  assumes "window_ok l h n"
  obtains sgl where "makeScatterGatherList l h n r = Ret sgl" "addrs (map toIovec sgl) = layout_addrs (lr_addr r) l h n"
    "\<forall>x \<in> set sgl. 0 < unat (lr_len x)"
proof -
  obtain sl where sl: "getMutableMultiBufferSlices h n (dl_bufferLength l) (dl_sampleSize l) (dl_channelCount l) (lr_addr r) = Ret sl"
    "ws_count sl = dl_channelCount l"
    "addrs (concat (map (channel_fragments sl) [0..<unat (dl_channelCount l)])) = layout_addrs (lr_addr r) l h n"
    by (rule layout_slices [OF assms])
  let ?region = "\<lambda>(srcAddr, bytes). \<lparr>lr_addr = srcAddr, lr_len = bytes, lr_desc = lr_desc r\<rparr>"
  define sgl where "sgl = concat (map (\<lambda>chan. map ?region (channel_fragments sl chan)) [0..<unat (dl_channelCount l)])"
  have "map toIovec (map ?region frs) = frs" for frs
    by (rule map_idI [where f = "toIovec \<circ> ?region", unfolded map_map [symmetric]]) (auto simp: toIovec_def)
  then have iovs: "map toIovec sgl = concat (map (channel_fragments sl) [0..<unat (dl_channelCount l)])"
    by (simp add: sgl_def map_concat comp_def)
  have positive: "0 < unat (snd f)" if "f \<in> set (channel_fragments sl c)" for f c
    using that by (auto simp: channel_fragments_def word_gt_0 unat_gt_0 split: if_splits)
  show thesis
  proof (rule that)
    show "makeScatterGatherList l h n r = Ret sgl"
      using sl(1,2) by (simp add: makeScatterGatherList_def sgl_def)
    show "addrs (map toIovec sgl) = layout_addrs (lr_addr r) l h n"
      unfolding iovs by (rule sl(3))
    show "\<forall>x \<in> set sgl. 0 < unat (lr_len x)"
      using positive by (fastforce simp: sgl_def)
  qed
qed

section \<open>What arrives in an entry is unpacked into the ring\<close>

lemma load_word_stored:
  assumes "load_bytes mem a (8 + k) = word_bytes 8 (w :: u64) @ rest"
  shows "load_word mem a 8 = w" and "load_bytes mem (a + 8) k = rest"
proof -
  have *: "load_bytes mem a 8 @ load_bytes mem (a + 8) k = word_bytes 8 w @ rest"
    using assms by (simp add: load_bytes_append [of mem a 8 k])
  then have "load_bytes mem a 8 = word_bytes 8 w"
    by (metis append_eq_append_conv length_load_bytes length_word_bytes)
  then show "load_word mem a 8 = w"
    by (simp add: load_word_def)
  show "load_bytes mem (a + 8) k = rest"
    using * by (metis append_eq_append_conv length_load_bytes length_word_bytes)
qed

lemma unpack_entry:
  assumes entry: "unat entryIndex < length (ab_entries b)"
    and window: "window_ok (ab_layout b) h n"
    and size_ok: "16 + unat (dl_channelCount (ab_layout b)) * (unat n * unat (dl_sampleSize (ab_layout b))) \<le> unat (ab_size b)"
    and some: "0 < unat (dl_channelCount (ab_layout b))" "0 < unat (dl_sampleSize (ab_layout b))"
    and payload: "length payload = unat (dl_channelCount (ab_layout b)) * (unat n * unat (dl_sampleSize (ab_layout b)))"
    and stored: "load_bytes mem (ab_entries b ! unat entryIndex) (16 + length payload) =
      entry_header_bytes \<lparr>ae_headIndex = h, ae_count = n\<rparr> @ payload"
    and away: "bytes_at (ab_entries b ! unat entryIndex) (unat (ab_size b)) \<inter> bytes_at (rg_base out) (layout_bytes (ab_layout b)) = {}"
  obtains mem' where "unpack b entryIndex out mem = (Ret \<lparr>ae_headIndex = h, ae_count = n\<rparr>, mem')"
    "map mem' (layout_addrs (rg_base out) (ab_layout b) h n) = payload"
    "\<And>x. x \<notin> set (layout_addrs (rg_base out) (ab_layout b) h n) \<Longrightarrow> mem' x = mem x"
proof -
  let ?l = "ab_layout b" and ?e = "ab_entries b ! unat entryIndex"
  let ?C = "unat (dl_channelCount ?l)" and ?sz = "unat (dl_sampleSize ?l)"
  let ?ring = "layout_addrs (rg_base out) ?l h n"
  have eight: "load_bytes mem ?e (8 + (8 + length payload)) = word_bytes 8 h @ word_bytes 8 n @ payload"
    using stored by (simp add: entry_header_bytes_def)
  note head = load_word_stored [OF eight]
  note count = load_word_stored [OF head(2)]
  have bounds: "layout_bytes ?l < 2 ^ 64" "0 < unat (dl_bufferLength ?l)" "unat n \<le> unat (dl_bufferLength ?l)"
    using window by (auto simp: window_ok_def)
  have one: "?C * ?sz \<le> layout_bytes ?l"
    using mult_le_mono2 [of 1 "unat (dl_bufferLength ?l)" "?C * ?sz"] bounds(2) by (simp add: layout_bytes_def mult.commute mult.left_commute)
  then have sample: "unat (dl_channelCount ?l * dl_sampleSize ?l) = ?C * ?sz"
    using bounds(1) unat_mult_lem [of "dl_channelCount ?l" "dl_sampleSize ?l"] by simp
  have nonzero: "dl_channelCount ?l * dl_sampleSize ?l \<noteq> 0"
    using sample some by (metis nat_0_less_mult_iff unat_0 less_irrefl)
  have ents: "entrySize b = ab_size b"
    using entry by (auto simp: entrySize_def)
  have "unat (ab_size b - SIZEOF_AUDIO_ENTRY_HEADER) = unat (ab_size b) - 16"
    using size_ok by (subst unat_minus_le) (simp_all add: SIZEOF_AUDIO_ENTRY_HEADER_def word_le_nat_alt)
  then have "unat ((entrySize b - SIZEOF_AUDIO_ENTRY_HEADER) div (dl_channelCount ?l * dl_sampleSize ?l)) = (unat (ab_size b) - 16) div (?C * ?sz)"
    by (simp add: unat_div sample ents)
  moreover have "unat n \<le> (unat (ab_size b) - 16) div (?C * ?sz)"
    using size_ok some by (simp add: less_eq_div_iff_mult_less_eq mult.commute mult.left_commute)
  ultimately have small: "\<not> n > (entrySize b - SIZEOF_AUDIO_ENTRY_HEADER) div (dl_channelCount ?l * dl_sampleSize ?l)"
    by (simp add: not_less word_le_nat_alt)
  obtain sl where sl: "getMutableMultiBufferSlices h n (dl_bufferLength ?l) (dl_sampleSize ?l) (dl_channelCount ?l) (rg_base out) = Ret sl"
    "ws_count sl = dl_channelCount ?l" "addrs (concat (map (channel_fragments sl) [0..<?C])) = ?ring"
    by (rule layout_slices [OF window])
  let ?frs = "concat (map (channel_fragments sl) [0..<?C])"
  define mem' where "mem' = copy_fragments ?frs (?e + SIZEOF_AUDIO_ENTRY_HEADER) mem"
  have run: "unpack b entryIndex out mem = (Ret \<lparr>ae_headIndex = h, ae_count = n\<rparr>, mem')"
    using entry nonzero small sl(1,2) by (simp add: unpack_def head(1) count(1) mem'_def Let_def)
  have total: "(\<Sum>f\<leftarrow>?frs. unat (snd f)) = length payload"
    unfolding sum_unat_addrs sl(3) length_ring_addrs payload ..
  have "gather mem' ?frs = load_bytes mem (?e + SIZEOF_AUDIO_ENTRY_HEADER) (\<Sum>f\<leftarrow>?frs. unat (snd f))"
    unfolding mem'_def
  proof (rule copy_fragments_gather)
    show "distinct (addrs ?frs)"
      unfolding sl(3) by (rule distinct_ring_addrs) (use bounds in \<open>simp_all add: layout_bytes_def\<close>)
    fix k
    assume "k < (\<Sum>f\<leftarrow>?frs. unat (snd f))"
    then have "k < length payload"
      by (simp only: total)
    then have "?e + of_nat (16 + k) \<in> bytes_at ?e (unat (ab_size b))"
      using size_ok payload less_imp_le [OF unat_u64_less [of "ab_size b"]] by (intro bytes_atI) simp_all
    moreover have "?e + of_nat (16 + k) = ?e + SIZEOF_AUDIO_ENTRY_HEADER + of_nat k"
      by (simp add: SIZEOF_AUDIO_ENTRY_HEADER_def)
    ultimately have "?e + SIZEOF_AUDIO_ENTRY_HEADER + of_nat k \<in> bytes_at ?e (unat (ab_size b))"
      by (simp only:)
    then show "?e + SIZEOF_AUDIO_ENTRY_HEADER + of_nat k \<notin> set (addrs ?frs)"
      unfolding sl(3) using away layout_addrs_within [OF window, of "rg_base out"] by blast
  qed
  also have "\<dots> = payload"
    using count(2) by (simp add: total SIZEOF_AUDIO_ENTRY_HEADER_def add.assoc)
  finally have "map mem' ?ring = payload"
    by (simp only: gather_def sl(3))
  moreover have "mem' x = mem x" if "x \<notin> set ?ring" for x
    unfolding mem'_def by (rule copy_fragments_outside) (use that sl(3) in simp)
  ultimately show thesis
    by (rule that [OF run])
qed

section \<open>The sending side\<close>

text \<open>The headers of the sender, one for each entry of the bounce buffer, and their registration.\<close>

definition sender_wf :: "RMASampleEgressProtocol \<Rightarrow> bool" where
  "sender_wf p \<longleftrightarrow> length (se_entryHeaders p) = unat (se_bounceBufferEntryCount p)
     \<and> length (se_entryHeaderRegions p) = unat (se_bounceBufferEntryCount p)
     \<and> unat (se_bounceBufferEntryCount p) < 2 ^ 32
     \<and> unat (se_bounceBufferEntryIndex p) < unat (se_bounceBufferEntryCount p)
     \<and> (\<forall>r \<in> set (se_entryHeaderRegions p). lr_len r = SIZEOF_AUDIO_ENTRY_HEADER)"

definition header_addr :: "RMASampleEgressProtocol \<Rightarrow> u64" where
  "header_addr p = lr_addr (se_entryHeaderRegions p ! unat (se_bounceBufferEntryIndex p))"

text \<open>What a target with entries at the given addresses tells a sender.\<close>

definition advertised :: "(u64 \<Rightarrow> u64 \<Rightarrow> u64) \<Rightarrow> AudioBounceBuffer \<Rightarrow> TargetInfo \<Rightarrow> bool" where
  "advertised resolve b info \<longleftrightarrow>
     ti_bounceBufferInfo info = Some \<lparr>bb_entryCount = entryCount b, bb_entrySize = entrySize b\<rparr>
     \<and> length (ti_remoteRegions info) = length (ab_entries b)
     \<and> (\<forall>i < length (ab_entries b). rr_len (ti_remoteRegions info ! i) = ab_size b
          \<and> region_at resolve (ti_remoteRegions info ! i) (ab_entries b ! i))"

lemma next_entry:
  fixes i :: u32 and n :: u64
  assumes "unat n < 2 ^ 32" "unat i < unat n"
  shows "unat (ucast ((ucast i + 1) mod n) :: u32) = Suc (unat i) mod unat n"
proof -
  have "unat (ucast i + 1 :: u64) = Suc (unat i)"
    using unat_u32_less [of i] by (simp add: unat_plus_fits)
  then have "unat ((ucast i + 1) mod n) = Suc (unat i) mod unat n"
    by (simp add: unat_mod)
  moreover have "Suc (unat i) mod unat n < 2 ^ 32"
    using mod_less_divisor [of "unat n" "Suc (unat i)"] assms by linarith
  ultimately show ?thesis
    by (simp add: unsigned_ucast_eq take_bit_nat_eq_self)
qed

lemma samples_posted:
  assumes accept: "accepts_all accept" and arrive: "writes_arrive deliver resolve"
    and wf: "sender_wf p" and adv: "advertised resolve b (se_remoteInfo p)"
    and entries: "unat (se_bounceBufferEntryCount p) = length (ab_entries b)"
    and window: "window_ok (se_layout p) h n"
    and fits: "16 + unat (dl_channelCount (se_layout p)) * (unat n * unat (dl_sampleSize (se_layout p))) \<le> unat (ab_size b)"
    and il: "0 < unat iovLimit" "unat (ab_size b) + unat iovLimit < 2 ^ 64"
    and apart: "bytes_at (header_addr p) 16 \<inter> bytes_at (lr_addr (se_localRegion p)) (layout_bytes (se_layout p)) = {}"
  obtains msgs src' p' where
    "se_transferSamples accept iovLimit h n destAddr (p, \<lparr>sn_memory = src, sn_posted = posted\<rparr>)
       = (Ret (), p', \<lparr>sn_memory = src', sn_posted = posted @ msgs\<rparr>)"
    "se_pending p' = se_pending p + of_nat (length msgs)" "sender_wf p'"
    "unat (se_bounceBufferEntryIndex p') = Suc (unat (se_bounceBufferEntryIndex p)) mod length (ab_entries b)"
    "msgs \<noteq> []" "\<forall>m \<in> set (butlast msgs). \<not> rm_hasData m"
    "rm_hasData (last msgs)" "rm_data (last msgs) = ucast (se_bounceBufferEntryIndex p)"
    "deliver_all deliver src' msgs dst = store_bytes (ab_entries b ! unat (se_bounceBufferEntryIndex p))
       (entry_header_bytes \<lparr>ae_headIndex = h, ae_count = n\<rparr> @ map src (layout_addrs (lr_addr (se_localRegion p)) (se_layout p) h n)) dst"
proof -
  let ?l = "se_layout p" and ?i = "unat (se_bounceBufferEntryIndex p)" and ?info = "se_remoteInfo p"
  let ?hr = "se_entryHeaderRegions p ! ?i" and ?base = "lr_addr (se_localRegion p)"
  let ?header = "\<lparr>ae_headIndex = h, ae_count = n\<rparr>" and ?remote = "ti_remoteRegions ?info ! ?i"
  let ?bytes = "unat (dl_channelCount ?l) * (unat n * unat (dl_sampleSize ?l))"
  have i: "?i < length (se_entryHeaders p)" "?i < length (se_entryHeaderRegions p)" "?i < length (ab_entries b)"
    using wf entries by (simp_all add: sender_wf_def)
  have hr: "lr_len ?hr = 16"
    using wf i(2) by (simp add: sender_wf_def SIZEOF_AUDIO_ENTRY_HEADER_def)
  have remote: "rr_len ?remote = ab_size b" "region_at resolve ?remote (ab_entries b ! ?i)"
    "length (ti_remoteRegions ?info) = length (ab_entries b)"
    "ti_bounceBufferInfo ?info = Some \<lparr>bb_entryCount = entryCount b, bb_entrySize = ab_size b\<rparr>"
    using adv i(3) by (auto simp: advertised_def entrySize_def)
  have bounds: "layout_bytes ?l < 2 ^ 64" "0 < unat n"
    using window by (auto simp: window_ok_def)
  obtain sgl where sgl: "makeScatterGatherList ?l h n (se_localRegion p) = Ret sgl"
    "addrs (map toIovec sgl) = layout_addrs ?base ?l h n" "\<forall>x \<in> set sgl. 0 < unat (lr_len x)"
    by (rule scatter_gather_list [OF window])
  have "?bytes \<le> layout_bytes ?l"
  proof -
    have "?bytes \<le> unat (dl_channelCount ?l) * (unat (dl_bufferLength ?l) * unat (dl_sampleSize ?l))"
      using window by (intro mult_le_mono2 mult_right_mono) (simp_all add: window_ok_def)
    then show ?thesis
      by (simp add: layout_bytes_def mult.commute mult.left_commute)
  qed
  then have small: "?bytes + 16 < 2 ^ 64"
    using window unfolding window_ok_def by linarith
  have required: "unat (dl_sampleSize ?l * dl_channelCount ?l * n + SIZEOF_AUDIO_ENTRY_HEADER) = ?bytes + 16"
  proof -
    have eq: "dl_sampleSize ?l * dl_channelCount ?l * n + SIZEOF_AUDIO_ENTRY_HEADER = of_nat (?bytes + 16)"
      by (simp add: SIZEOF_AUDIO_ENTRY_HEADER_def mult.commute mult.left_commute)
    show ?thesis
      unfolding eq unat_of_nat using small by simp
  qed
  have enough: "\<not> dl_sampleSize ?l * dl_channelCount ?l * n + SIZEOF_AUDIO_ENTRY_HEADER > ab_size b"
    unfolding word_less_nat_alt required using fits by linarith
  define src' where "src' = store_bytes (lr_addr ?hr) (entry_header_bytes ?header) src"
  define p1 where "p1 = p\<lparr>se_entryHeaders := (se_entryHeaders p)[?i := ?header]\<rparr>"
  have "length (gather src (map toIovec sgl)) = ?bytes"
    by (simp add: gather_def sgl(2) length_ring_addrs)
  then have sizes: "sizes (?hr # sgl) = 16 + ?bytes"
    using hr by (simp add: length_gather_regions)
  have "length sgl \<le> sizes sgl"
    using sgl(3) by (induction sgl) (auto simp: Suc_le_eq)
  then have "length (?hr # sgl) \<le> sizes (?hr # sgl)"
    using hr by simp
  then have short: "length (?hr # sgl) + unat iovLimit < 2 ^ 64"
    using sizes fits il(2) by linarith
  have bytes: "gather src' (map toIovec (?hr # sgl)) =
    entry_header_bytes ?header @ map src (layout_addrs ?base ?l h n)"
  proof -
    have "length (entry_header_bytes ?header) = 16"
      by (simp add: entry_header_bytes_def)
    then have "load_bytes src' (lr_addr ?hr) 16 = entry_header_bytes ?header"
      using load_store_bytes [of "entry_header_bytes ?header" "lr_addr ?hr" src] by (simp add: src'_def)
    moreover have "src' x = src x" if "x \<in> set (layout_addrs ?base ?l h n)" for x
    proof -
      have "x \<notin> bytes_at (lr_addr ?hr) 16"
        using that layout_addrs_within [OF window, of ?base] apart by (auto simp: header_addr_def)
      then show ?thesis
        unfolding src'_def by (intro store_bytes_other) (simp add: bytes_at_def entry_header_bytes_def)
    qed
    then have "gather src' (map toIovec sgl) = map src (layout_addrs ?base ?l h n)"
      by (simp add: gather_def sgl(2))
    ultimately show ?thesis
      using hr by (simp add: gather_Cons toIovec_def [of ?hr])
  qed
  have room: "sizes (?hr # sgl) \<le> unat (rr_len ?remote)"
    using fits by (simp only: sizes remote(1))
  have present: "0 < unat (lr_len r)" if "r \<in> set (?hr # sgl)" for r
    using that hr sgl(3) by auto
  obtain msgs where msgs:
    "write_group accept iovLimit (se_token p) (LocalRegionGroup_ctor (?hr # sgl)) ?remote destAddr (Some (se_bounceBufferEntryIndex p)) posted
       = (Ret (of_nat (length msgs)), posted @ msgs)"
    "msgs \<noteq> []"
    "deliver_all deliver src' msgs dst = store_bytes (ab_entries b ! ?i) (gather src' (map toIovec (?hr # sgl))) dst"
    "\<forall>m \<in> set (butlast msgs). \<not> rm_hasData m"
    "rm_hasData (last msgs) \<longleftrightarrow> Some (se_bounceBufferEntryIndex p) \<noteq> None"
    "rm_data (last msgs) = (case Some (se_bounceBufferEntryIndex p) of None \<Rightarrow> 0 | Some d \<Rightarrow> ucast d)"
    by (rule write_group_delivers [OF accept arrive remote(2) room present il(1) short, where token = "se_token p" and destAddr = destAddr
        and imm = "Some (se_bounceBufferEntryIndex p)" and posted = posted and src = src' and dst = dst]) simp_all
  define p' where "p' = p1\<lparr>se_pending := se_pending p + of_nat (length msgs),
    se_bounceBufferEntryIndex := ucast ((ucast (se_bounceBufferEntryIndex p) + 1) mod se_bounceBufferEntryCount p)\<rparr>"
  have index: "unat (se_bounceBufferEntryIndex p') = Suc ?i mod length (ab_entries b)"
    using next_entry [of "se_bounceBufferEntryCount p" "se_bounceBufferEntryIndex p"] wf entries
    by (simp add: p'_def p1_def sender_wf_def)
  have run: "se_transferSamples accept iovLimit h n destAddr (p, \<lparr>sn_memory = src, sn_posted = posted\<rparr>)
      = (Ret (), p', \<lparr>sn_memory = src', sn_posted = posted @ msgs\<rparr>)"
  proof -
    have "i_ok": "\<not> (length (se_entryHeaders p) \<le> ?i \<or> length (se_entryHeaderRegions p) \<le> ?i \<or> ti_remoteRegions ?info = [])"
      using i remote(3) by auto
    have count: "se_bounceBufferEntryCount p \<noteq> 0" "n \<noteq> 0"
      using wf bounds by (auto simp: sender_wf_def)
    show ?thesis
      using i_ok count enough msgs(1) i remote(3)
      by (simp add: se_transferSamples_def Let_def remote(4) bind_act_def lift_act_def sgl(1) on_posted_def src'_def p1_def p'_def)
  qed
  show thesis
  proof (rule that [OF run])
    have "Suc ?i mod length (ab_entries b) < length (ab_entries b)"
      by (rule mod_less_divisor) (use i(3) in linarith)
    then show "sender_wf p'"
      using wf index entries i by (simp add: sender_wf_def p'_def p1_def)
  qed (use msgs bytes index in \<open>simp_all add: p'_def p1_def\<close>)
qed

section \<open>A transfer\<close>

lemma entry_bytes_loaded:
  assumes "length (hs @ bs) \<le> 2 ^ 64" "length hs = 16"
  shows "load_bytes (store_bytes e (hs @ bs) dst) e (16 + length bs) = hs @ bs"
  using load_store_bytes [OF assms(1), of e dst] assms(2) by simp

text \<open>The byte \<open>b\<close> of sample \<open>j\<close> of channel \<open>c\<close>.\<close>

definition sample_byte :: "memory \<Rightarrow> u64 \<Rightarrow> DataLayout_Continuous \<Rightarrow> nat \<Rightarrow> nat \<Rightarrow> nat \<Rightarrow> u8" where
  "sample_byte mem base l c j b = mem (base + of_nat (sample_pos (unat (dl_sampleSize l)) (unat (dl_bufferLength l)) c j b))"

text \<open>
  Samples sent by \<open>transferSamples\<close> arrive. When the requests are accepted and libfabric writes what they say,
  the receiver that gets the completion of the last one reports the head and the number of samples, and its ring
  then holds, for every channel and every index of the window, the sample of the ring of the sender, although
  the two rings may have different lengths and wrap around at different places. Nothing outside the window and
  the entry of the bounce buffer is changed. The sender counts the requests and goes on to the next entry.
\<close>

theorem samples_arrive:
  assumes "accepts_all accept" and arrive: "writes_arrive deliver resolve"
    and "sender_wf p" and "advertised resolve (si_bounceBuffer q) (se_remoteInfo p)"
    and "unat (se_bounceBufferEntryCount p) = length (ab_entries (si_bounceBuffer q))"
    and same: "dl_sampleSize (ab_layout (si_bounceBuffer q)) = dl_sampleSize (se_layout p)"
      "dl_channelCount (ab_layout (si_bounceBuffer q)) = dl_channelCount (se_layout p)"
    and some: "0 < unat (dl_channelCount (se_layout p))" "0 < unat (dl_sampleSize (se_layout p))"
    and "window_ok (se_layout p) h n" and window: "window_ok (ab_layout (si_bounceBuffer q)) h n"
    and fits: "16 + unat (dl_channelCount (se_layout p)) * (unat n * unat (dl_sampleSize (se_layout p))) \<le> unat (ab_size (si_bounceBuffer q))"
    and "0 < unat iovLimit" "unat (ab_size (si_bounceBuffer q)) + unat iovLimit < 2 ^ 64"
    and "bytes_at (header_addr p) 16 \<inter> bytes_at (lr_addr (se_localRegion p)) (layout_bytes (se_layout p)) = {}"
    and away: "bytes_at (ab_entries (si_bounceBuffer q) ! unat (se_bounceBufferEntryIndex p)) (unat (ab_size (si_bounceBuffer q)))
      \<inter> bytes_at (rg_base (si_region q)) (layout_bytes (ab_layout (si_bounceBuffer q))) = {}"
    and recv: "0 \<le> recv"
  shows "\<exists>msgs src' p' mem'.
    se_transferSamples accept iovLimit h n destAddr (p, \<lparr>sn_memory = src, sn_posted = posted\<rparr>)
      = (Ret (), p', \<lparr>sn_memory = src', sn_posted = posted @ msgs\<rparr>)
    \<and> se_pending p' = se_pending p + of_nat (length msgs) \<and> sender_wf p'
    \<and> unat (se_bounceBufferEntryIndex p') = Suc (unat (se_bounceBufferEntryIndex p)) mod length (ab_entries (si_bounceBuffer q))
    \<and> si_read q recv (DataEntry \<lparr>co_token = token, co_remoteCqData = rm_hasData (last msgs), co_data = rm_data (last msgs)\<rparr>)
        (deliver_all deliver src' msgs dst) = (Ret (Some (SampleReadResult h n)), mem')
    \<and> (\<forall>c < unat (dl_channelCount (se_layout p)). \<forall>j \<in> {unat h - unat n..<unat h}. \<forall>b < unat (dl_sampleSize (se_layout p)).
         sample_byte mem' (rg_base (si_region q)) (ab_layout (si_bounceBuffer q)) c j b
         = sample_byte src (lr_addr (se_localRegion p)) (se_layout p) c j b)
    \<and> (\<forall>x. x \<notin> set (layout_addrs (rg_base (si_region q)) (ab_layout (si_bounceBuffer q)) h n) \<longrightarrow>
         x \<notin> bytes_at (ab_entries (si_bounceBuffer q) ! unat (se_bounceBufferEntryIndex p)) (unat (ab_size (si_bounceBuffer q))) \<longrightarrow>
         mem' x = dst x)"
proof -
  let ?b = "si_bounceBuffer q" and ?ls = "se_layout p" and ?i = "unat (se_bounceBufferEntryIndex p)"
  let ?lt = "ab_layout ?b" and ?e = "ab_entries ?b ! ?i" and ?in = "lr_addr (se_localRegion p)" and ?out = "rg_base (si_region q)"
  let ?hs = "entry_header_bytes \<lparr>ae_headIndex = h, ae_count = n\<rparr>" and ?bs = "map src (layout_addrs ?in ?ls h n)"
  obtain msgs src' p' where sent:
    "se_transferSamples accept iovLimit h n destAddr (p, \<lparr>sn_memory = src, sn_posted = posted\<rparr>)
       = (Ret (), p', \<lparr>sn_memory = src', sn_posted = posted @ msgs\<rparr>)"
    "se_pending p' = se_pending p + of_nat (length msgs)" "sender_wf p'"
    "unat (se_bounceBufferEntryIndex p') = Suc ?i mod length (ab_entries ?b)"
    "rm_hasData (last msgs)" "rm_data (last msgs) = ucast (se_bounceBufferEntryIndex p)"
    "deliver_all deliver src' msgs dst = store_bytes ?e (?hs @ ?bs) dst"
    by (rule samples_posted [OF assms(1-5) assms(10) fits assms(13,14,15), where src = src and dst = dst and posted = posted
        and destAddr = destAddr])
  let ?mem = "deliver_all deliver src' msgs dst"
  have i: "?i < length (ab_entries ?b)"
    using assms(3,5) by (simp add: sender_wf_def)
  have hs: "length ?hs = 16"
    by (simp add: entry_header_bytes_def)
  have bs: "length ?bs = unat (dl_channelCount ?lt) * (unat n * unat (dl_sampleSize ?lt))"
    by (simp add: length_ring_addrs same)
  have len: "length (?hs @ ?bs) \<le> unat (ab_size ?b)"
    using fits hs bs by (simp add: same)
  then have "length (?hs @ ?bs) \<le> 2 ^ 64"
    using unat_u64_less [of "ab_size ?b"] by linarith
  then have stored: "load_bytes ?mem ?e (16 + length ?bs) = ?hs @ ?bs"
    unfolding sent(7) using hs by (rule entry_bytes_loaded)
  obtain mem' where got: "unpack ?b (ucast (se_bounceBufferEntryIndex p)) (si_region q) ?mem = (Ret \<lparr>ae_headIndex = h, ae_count = n\<rparr>, mem')"
    "map mem' (layout_addrs ?out ?lt h n) = ?bs" "\<And>x. x \<notin> set (layout_addrs ?out ?lt h n) \<Longrightarrow> mem' x = ?mem x"
    using unpack_entry [of "ucast (se_bounceBufferEntryIndex p)" ?b h n ?bs ?mem "si_region q"] i window fits some bs stored away
    by (simp add: same) blast
  have read: "si_read q recv (DataEntry \<lparr>co_token = token, co_remoteCqData = rm_hasData (last msgs), co_data = rm_data (last msgs)\<rparr>) ?mem
    = (Ret (Some (SampleReadResult h n)), mem')"
    using got(1) recv sent(5,6)
    by (simp add: si_read_def bind_act_def lift_act_def endpoint_recv_def fiCall_def return_act_def completion_immediate_def)
  have copied: "sample_byte mem' ?out ?lt c j b = sample_byte src ?in ?ls c j b"
    if "c < unat (dl_channelCount ?ls)" "j \<in> {unat h - unat n..<unat h}" "b < unat (dl_sampleSize ?ls)" for c j b
  proof -
    let ?k = "j - (unat h - unat n)"
    have k: "(c, ?k, b) \<in> set (List.product [0..<unat (dl_channelCount ?ls)] (List.product [0..<unat n] [0..<unat (dl_sampleSize ?ls)]))"
      using that by auto
    have "map (\<lambda>(c, k, b). sample_byte mem' ?out ?lt c (unat h - unat n + k) b)
        (List.product [0..<unat (dl_channelCount ?ls)] (List.product [0..<unat n] [0..<unat (dl_sampleSize ?ls)])) =
      map (\<lambda>(c, k, b). sample_byte src ?in ?ls c (unat h - unat n + k) b)
        (List.product [0..<unat (dl_channelCount ?ls)] (List.product [0..<unat n] [0..<unat (dl_sampleSize ?ls)]))"
      using got(2) by (simp add: ring_addrs_def same sample_byte_def comp_def case_prod_beta)
    with k have "sample_byte mem' ?out ?lt c (unat h - unat n + ?k) b = sample_byte src ?in ?ls c (unat h - unat n + ?k) b"
      by (auto dest: map_eq_conv [THEN iffD1])
    then show ?thesis
      using that(2) by simp
  qed
  have other: "mem' x = dst x" if "x \<notin> set (layout_addrs ?out ?lt h n)" "x \<notin> bytes_at ?e (unat (ab_size ?b))" for x
    using got(3) [OF that(1)] that(2) len unfolding sent(7) by (simp add: bytes_at_def store_bytes_other)
  show ?thesis
    by (intro exI conjI) (use sent read copied other in blast)+
qed

text \<open>Two samples of two channels; the window ends at 5, the rings have 4 and 3 samples.\<close>

definition example_layout :: "u64 \<Rightarrow> DataLayout_Continuous" where
  "example_layout len = \<lparr>dl_sampleSize = 2, dl_channelCount = 2, dl_bufferLength = len\<rparr>"

definition example_receiver :: RMASampleIngressProtocol where
  "example_receiver = \<lparr>si_bounceBuffer = \<lparr>ab_entries = [1000, 2000], ab_size = 32, ab_layout = example_layout 3\<rparr>,
     si_region = host_region 3000 12, si_isMemoryRegistered = True, si_immDataBuffer = False\<rparr>"

definition example_sender :: RMASampleEgressProtocol where
  "example_sender = \<lparr>se_token = 1,
     se_remoteInfo = \<lparr>ti_id = 9, ti_fabricAddress = \<lparr>fa_inner = [], fa_addressFormat = Format_Efa\<rparr>, ti_provider = Provider_TCP,
       ti_remoteRegions = [\<lparr>rr_addr = 1000, rr_len = 32, rr_rkey = 5\<rparr>, \<lparr>rr_addr = 2000, rr_len = 32, rr_rkey = 6\<rparr>],
       ti_bounceBufferInfo = Some \<lparr>bb_entryCount = 2, bb_entrySize = 32\<rparr>\<rparr>,
     se_layout = example_layout 4, se_localRegion = \<lparr>lr_addr = 100, lr_len = 16, lr_desc = 0\<rparr>,
     se_entryHeaders = replicate 2 \<lparr>ae_headIndex = 0, ae_count = 0\<rparr>,
     se_entryHeaderRegions = [\<lparr>lr_addr = 200, lr_len = 16, lr_desc = 1\<rparr>, \<lparr>lr_addr = 216, lr_len = 16, lr_desc = 2\<rparr>],
     se_pending = 0, se_bounceBufferEntryIndex = 1, se_bounceBufferEntryCount = 2\<rparr>"

definition plain_write :: delivery where
  "plain_write m src dst = (case rm_rma m of (a, _, _) \<Rightarrow> store_bytes a (gather src (rm_iov m)) dst)"

theorem samples_arrive_witness:
  "\<exists>msgs src' p' mem'.
    se_transferSamples (\<lambda>_ _. 0) 3 5 2 0 (example_sender, \<lparr>sn_memory = ucast, sn_posted = []\<rparr>)
      = (Ret (), p', \<lparr>sn_memory = src', sn_posted = msgs\<rparr>)
    \<and> si_read example_receiver 0 (DataEntry \<lparr>co_token = 0, co_remoteCqData = rm_hasData (last msgs), co_data = rm_data (last msgs)\<rparr>)
        (deliver_all plain_write src' msgs (\<lambda>_. 0)) = (Ret (Some (SampleReadResult 5 2)), mem')
    \<and> (\<forall>c < 2. \<forall>j \<in> {3..<5}. \<forall>b < 2. sample_byte mem' 3000 (example_layout 3) c j b = sample_byte ucast 100 (example_layout 4) c j b)"
proof -
  have "accepts_all (\<lambda>_ _. 0)" "writes_arrive plain_write (\<lambda>_ a. a)"
    by (auto simp: accepts_all_def writes_arrive_def plain_write_def)
  moreover have "sender_wf example_sender"
    by (simp add: sender_wf_def example_sender_def SIZEOF_AUDIO_ENTRY_HEADER_def)
  moreover have "advertised (\<lambda>_ a. a) (si_bounceBuffer example_receiver) (se_remoteInfo example_sender)"
    by (auto simp: advertised_def example_sender_def example_receiver_def entryCount_def entrySize_def region_at_def less_Suc_eq)
  moreover have "window_ok (example_layout 4) 5 2" "window_ok (example_layout 3) 5 2"
    by (simp_all add: window_ok_def layout_bytes_def example_layout_def)
  moreover have "bytes_at 216 16 \<inter> bytes_at 100 16 = {}" "bytes_at 2000 32 \<inter> bytes_at 3000 12 = {}"
    by (rule bytes_at_disjoint; simp)+
  ultimately show ?thesis
    using samples_arrive [of "\<lambda>_ _. 0" plain_write "\<lambda>_ a. a" example_sender example_receiver 5 2 3 0 0 ucast "[]" 0 "\<lambda>_. 0"]
    by (simp add: example_sender_def example_receiver_def example_layout_def host_region_def header_addr_def layout_bytes_def) blast
qed

end
