(* ===== verification/FabricApiProofs.thy ===== *)
theory FabricApiProofs
  imports FabricApi FabricSetupProofs FabricGrains FabricSamples
begin

text \<open>
  What the interface of the fabrics promises: media that one process transfers through it is read by another, descriptions
  and lists survive their way through it, and the objects behind its handles are those that were created.
\<close>

section \<open>Objects behind handles\<close>

lemma map_of_change_target:
  "map_of (change_target k v xs) q = (if q = k \<and> map_of xs k \<noteq> None then Some v else map_of xs q)"
  by (induction k v xs rule: change_target.induct) auto

lemma map_of_changed_in_instances:
  assumes "\<And>x. f (g x) = change_target p v (f x)"
  shows "map_of (concat (map (f \<circ> snd) (map (\<lambda>(k, x). (k, g x)) is))) q =
    (if q = p \<and> map_of (concat (map (f \<circ> snd) is)) p \<noteq> None then Some v else map_of (concat (map (f \<circ> snd) is)) q)"
proof (induction "is")
  case (Cons y ys)
  obtain k x where y: "y = (k, x)"
    by fastforce
  show ?case
    using Cons by (cases "q = p"; cases "map_of (f x) q") (simp_all add: y assms map_of_change_target map_add_def)
qed simp

lemma world_initiators_set:
  "map_of (world_initiators (set_initiator p v w)) q =
     (if q = p \<and> map_of (world_initiators w) p \<noteq> None then Some v else map_of (world_initiators w) q)"
  using map_of_changed_in_instances [of fx_initiators "\<lambda>x. x\<lparr>fx_initiators := change_target p v (fx_initiators x)\<rparr>" p v "fw_instances w" q]
  by (simp add: world_initiators_def set_initiator_def)

lemma world_targets_set:
  "map_of (world_targets (set_target p v w)) q =
     (if q = p \<and> map_of (world_targets w) p \<noteq> None then Some v else map_of (world_targets w) q)"
  using map_of_changed_in_instances [of fx_targets "\<lambda>x. x\<lparr>fx_targets := change_target p v (fx_targets x)\<rparr>" p v "fw_instances w" q]
  by (simp add: world_targets_def set_target_def)

lemma memory_update_simps [simp]:
  "world_initiators (w\<lparr>fw_memory := m\<rparr>) = world_initiators w" "world_targets (w\<lparr>fw_memory := m\<rparr>) = world_targets w"
  "world_initiators (w\<lparr>fw_infos := f\<rparr>) = world_initiators w" "world_targets (w\<lparr>fw_infos := f\<rparr>) = world_targets w"
  "fw_memory (set_initiator p v w) = fw_memory w" "fw_memory (set_target p u w) = fw_memory w"
  by (simp_all add: world_initiators_def world_targets_def set_initiator_def set_target_def)

section \<open>Media through the interface\<close>

text \<open>An initiator with a connected target, and a target that serves a connection.\<close>

definition sends :: "fabrics_world \<Rightarrow> u64 \<Rightarrow> RCInitiator \<Rightarrow> EgressProtocol \<Rightarrow> bool" where
  "sends w i s p \<longleftrightarrow> i \<noteq> 0 \<and> map_of (world_initiators w) i = Some (Some (RC_Initiator s))
     \<and> (\<exists>k t ep. ri_targets s = [(k, t)] \<and> ie_state t = Connected ep \<and> ep_open ep \<and> ie_proto t = p)"

definition receives :: "fabrics_world \<Rightarrow> u64 \<Rightarrow> IngressProtocol \<Rightarrow> bool" where
  "receives w j q \<longleftrightarrow> j \<noteq> 0
     \<and> (\<exists>x ep. map_of (world_targets w) j = Some (Some (RC_Target x)) \<and> rt_state x = TargetConnected ep
          \<and> ep_open ep \<and> ep_cq ep \<and> ep_eq ep \<and> rt_proto x = q)"

text \<open>The receiver finds the completion of a request in its queue, and no event.\<close>

definition shows_completion :: "target_read \<Rightarrow> u64 \<Rightarrow> rma_msg \<Rightarrow> bool" where
  "shows_completion tg token m \<longleftrightarrow> 0 \<le> tg_recv tg
     \<and> (\<exists>r. tg_rounds tg = [r] \<and> EventQueue_read (qr_eq r) = Ret None
          \<and> CompletionQueue_read (qr_cq r) = Ret (Some (DataEntry \<lparr>co_token = token, co_remoteCqData = rm_hasData m, co_data = rm_data m\<rparr>)))"

lemma transfer_through:
  assumes "sends w i s p" "ie_op = when_connected op"
    and "op (p, \<lparr>sn_memory = fw_memory w, sn_posted = sn_posted (ri_sender s)\<rparr>) = (Ret (), p', \<lparr>sn_memory = mem, sn_posted = posted\<rparr>)"
  shows "\<exists>w' s'. run_initiator (on_initiator (on_targets ie_op) rdm) i w = (ok_with (), w') \<and> sends w' i s' p'
    \<and> ri_sender s' = \<lparr>sn_memory = mem, sn_posted = posted\<rparr> \<and> fw_memory w' = mem"
proof -
  obtain k t ep where i: "i \<noteq> 0" "map_of (world_initiators w) i = Some (Some (RC_Initiator s))"
    and t: "ri_targets s = [(k, t)]" "ie_state t = Connected ep" "ep_open ep" "ie_proto t = p"
    using assms(1) by (auto simp: sends_def)
  define s0 where "s0 = s\<lparr>ri_sender := (ri_sender s)\<lparr>sn_memory := fw_memory w\<rparr>\<rparr>"
  define s' where "s' = s\<lparr>ri_targets := [(k, t\<lparr>ie_proto := p'\<rparr>)], ri_sender := \<lparr>sn_memory = mem, sn_posted = posted\<rparr>\<rparr>"
  have "(ri_sender s)\<lparr>sn_memory := fw_memory w\<rparr> = \<lparr>sn_memory = fw_memory w, sn_posted = sn_posted (ri_sender s)\<rparr>"
    by simp
  then have "op (p, (ri_sender s)\<lparr>sn_memory := fw_memory w\<rparr>) = (Ret (), p', \<lparr>sn_memory = mem, sn_posted = posted\<rparr>)"
    using assms(3) by metis
  then have "ie_op (t, (ri_sender s)\<lparr>sn_memory := fw_memory w\<rparr>) = (Ret (), t\<lparr>ie_proto := p'\<rparr>, \<lparr>sn_memory = mem, sn_posted = posted\<rparr>)"
    using assms(2) t by (simp add: when_connected_def in_proto_def)
  then have "on_targets ie_op s0 = (Ret (), s')"
    using t by (simp add: on_targets_def s0_def s'_def)
  then have "run_initiator (on_initiator (on_targets ie_op) rdm) i w = (ok_with (), put_initiator i (Some (RC_Initiator s')) w)"
    using i by (simp add: run_initiator_def on_initiator_def try_run_def caught_act_def caught_def bind_act_def lift_act_def ok_act_def ok_with_def
        s0_def [symmetric])
  moreover have "sends (put_initiator i (Some (RC_Initiator s')) w) i s' p'" "fw_memory (put_initiator i (Some (RC_Initiator s')) w) = mem"
    using i t by (auto simp: sends_def put_initiator_def world_initiators_set s'_def)
  ultimately show ?thesis
    by (auto simp: s'_def)
qed

lemma read_through:
  assumes "receives w j q" "shows_completion tg token m"
    and "ig_read q (tg_recv tg) (DataEntry \<lparr>co_token = token, co_remoteCqData = rm_hasData m, co_data = rm_data m\<rparr>) (fw_memory w)
      = (Ret (Some x), mem')"
  shows "\<exists>w'. on_target (TargetWrapper_read tg) pick j w = Some (caught fabrics_status (read_status pick (Some x)), w') \<and> receives w' j q
    \<and> fw_memory w' = mem'"
proof -
  obtain t ep where t: "map_of (world_targets w) j = Some (Some (RC_Target t))" "rt_state t = TargetConnected ep"
    "ep_open ep" "ep_cq ep" "ep_eq ep" "rt_proto t = q" and j: "j \<noteq> 0"
    using assms(1) by (auto simp: receives_def)
  obtain r where r: "tg_rounds tg = [r]" "EventQueue_read (qr_eq r) = Ret None"
    "CompletionQueue_read (qr_cq r) = Ret (Some (DataEntry \<lparr>co_token = token, co_remoteCqData = rm_hasData m, co_data = rm_data m\<rparr>))"
    using assms(2) by (auto simp: shows_completion_def)
  have "RCTarget_read tg (t, fw_memory w) = Some (Ret (Some x), t, mem')"
    by (rule connected_read_completion [OF t(2-5) r(1,3,2)]) (simp add: t(6) assms(3))
  then have "on_target (TargetWrapper_read tg) pick j w =
    Some (caught fabrics_status (read_status pick (Some x)), (set_target j (Some (RC_Target t)) w)\<lparr>fw_memory := mem'\<rparr>)"
    using t(1) by (simp add: on_target_def TargetWrapper_read_def target_read_with_def try_run_def caught_act_def lift_act_def)
  moreover have "receives ((set_target j (Some (RC_Target t)) w)\<lparr>fw_memory := mem'\<rparr>) j q"
    using t j by (auto simp: receives_def world_targets_set)
  ultimately show ?thesis
    by auto
qed

lemma transfer_grain_through:
  assumes ends: "sends w i s (GrainEgress p)" and slices: "SliceRange_make startSlice endSlice = Ret r"
    and sent: "ge_transferGrain (tx_accept (cl_transmit cl)) index index 8192 r FI_ADDR_UNSPEC (p, sn_posted (ri_sender s)) = (Ret (), p', posted)"
  shows "\<exists>w' s'. mxlFabricsInitiatorTransferGrain cl i index startSlice endSlice w = (ok_with (), w') \<and> sends w' i s' (GrainEgress p')
    \<and> ri_sender s' = \<lparr>sn_memory = fw_memory w, sn_posted = posted\<rparr> \<and> fw_memory w' = fw_memory w"
proof -
  define op where "op = eg_transferGrain (cl_transmit cl) index index 8192 r FI_ADDR_UNSPEC"
  have "op (GrainEgress p, \<lparr>sn_memory = fw_memory w, sn_posted = sn_posted (ri_sender s)\<rparr>)
    = (Ret (), GrainEgress p', \<lparr>sn_memory = fw_memory w, sn_posted = posted\<rparr>)"
    using sent by (simp add: op_def eg_transferGrain_def)
  from transfer_through [where op = op and rdm = "RDMInitiator_transferGrain (cl_transmit cl) index startSlice endSlice", OF ends refl this]
  show ?thesis
    using slices ends by (simp add: mxlFabricsInitiatorTransferGrain_def InitiatorWrapper_transferGrain_def RCInitiator_transferGrain_def sends_def
        ie_transferGrain_def op_def bind_act_def lift_act_def MXL_GRAIN_PAYLOAD_OFFSET_def)
qed

lemma transfer_samples_through:
  assumes ends: "sends w i s (SampleEgress p)"
    and sent: "se_transferSamples (tx_accept (cl_transmit cl)) (tx_iovLimit (cl_transmit cl)) h n FI_ADDR_UNSPEC
        (p, \<lparr>sn_memory = fw_memory w, sn_posted = sn_posted (ri_sender s)\<rparr>) = (Ret (), p', \<lparr>sn_memory = mem, sn_posted = posted\<rparr>)"
  shows "\<exists>w' s'. mxlFabricsInitiatorTransferSamples cl i h n w = (ok_with (), w') \<and> sends w' i s' (SampleEgress p')
    \<and> ri_sender s' = \<lparr>sn_memory = mem, sn_posted = posted\<rparr> \<and> fw_memory w' = mem"
proof -
  define op where "op = eg_transferSamples (cl_transmit cl) h n FI_ADDR_UNSPEC"
  have "op (SampleEgress p, \<lparr>sn_memory = fw_memory w, sn_posted = sn_posted (ri_sender s)\<rparr>)
    = (Ret (), SampleEgress p', \<lparr>sn_memory = mem, sn_posted = posted\<rparr>)"
    using sent by (simp add: op_def eg_transferSamples_def)
  from transfer_through [where op = op and rdm = "RDMInitiator_transferSamples (cl_transmit cl) h n", OF ends refl this]
  show ?thesis
    using ends by (simp add: mxlFabricsInitiatorTransferSamples_def InitiatorWrapper_transferSamples_def RCInitiator_transferSamples_def sends_def
        ie_transferSamples_def op_def)
qed

lemma read_grain_through:
  assumes "receives w j (GrainIngress q)" "shows_completion tg token m"
    and "gi_read q (tg_recv tg) (DataEntry \<lparr>co_token = token, co_remoteCqData = rm_hasData m, co_data = rm_data m\<rparr>) (fw_memory w)
      = (Ret (Some (GrainReadResult x)), mem')"
  shows "\<exists>w'. mxlFabricsTargetReadGrainNonBlocking tg j True w = Some (ok_with x, w') \<and> fw_memory w' = mem'"
  using read_through [OF assms(1,2), of "GrainReadResult x" mem' picked_grain] assms(1,3)
  by (auto simp: mxlFabricsTargetReadGrainNonBlocking_def receives_def read_status_def caught_def ok_with_def)

lemma read_samples_through:
  assumes "receives w j (SampleIngress q)" "shows_completion tg token m"
    and "si_read q (tg_recv tg) (DataEntry \<lparr>co_token = token, co_remoteCqData = rm_hasData m, co_data = rm_data m\<rparr>) (fw_memory w)
      = (Ret (Some (SampleReadResult h n)), mem')"
  shows "\<exists>w'. mxlFabricsTargetReadSamplesNonBlocking tg j True True w = Some (ok_with (h, n), w') \<and> fw_memory w' = mem'"
  using read_through [OF assms(1,2), of "SampleReadResult h n" mem' picked_samples] assms(1,3)
  by (auto simp: mxlFabricsTargetReadSamplesNonBlocking_def receives_def read_status_def caught_def ok_with_def)

lemma receives_memory [simp]: "receives (w\<lparr>fw_memory := m\<rparr>) j q \<longleftrightarrow> receives w j q"
  by (simp add: receives_def)

text \<open>
  C29: A range of slices that an initiator transfers arrives: the target, once it sees the completion of the last request, reports
  the index of the grain, and has in the slot exactly those slices of every plane, and the header with the first slice, as
  the sender has them; no other byte of its memory is changed.
\<close>

theorem grain_through_fabrics:
  fixes p l q and index :: u64
  defines "locals \<equiv> ge_localRegions p" and "remotes \<equiv> ge_remoteRegions p"
  defines "local \<equiv> locals ! (unat index mod length locals)" and "slot \<equiv> unat index mod length remotes"
  assumes ends: "sends ws i s (GrainEgress p)" "receives wr j (GrainIngress q)"
    and l: "l = ge_layout p" and accept: "accepts_all (tx_accept (cl_transmit cl))" and arrive: "writes_arrive deliver resolve"
    and lists: "locals \<noteq> []" "length locals < 2 ^ 64" "remotes \<noteq> []" "length remotes \<le> 2 ^ 16"
    and target: "length (gi_regions q) = length remotes" "gi_regions q ! slot = writable_region t region"
      "region_at resolve (remotes ! slot) t"
    and ok: "slices_ok l \<lparr>sr_start = startSlice, sr_end = endSlice\<rparr>" and fits: "grain_bytes l 8192 < 2 ^ 32"
    and len: "unat (lr_len local) = grain_bytes l 8192" "unat (rr_len (remotes ! slot)) = grain_bytes l 8192"
    and planes: "0 < activePlaneCount l" "\<forall>i. activePlaneCount l \<le> i \<longrightarrow> i < length (dl_sliceSizes l) \<longrightarrow> dl_sliceSizes l ! i = 0"
  shows "\<exists>msgs ws' s' p'. mxlFabricsInitiatorTransferGrain cl i index startSlice endSlice ws = (ok_with (), ws')
    \<and> sends ws' i s' (GrainEgress p') \<and> sn_posted (ri_sender s') = sn_posted (ri_sender s) @ msgs
    \<and> ge_pending p' = ge_pending p + of_nat (length msgs) \<and> fw_memory ws' = fw_memory ws
    \<and> (\<forall>tg token. shows_completion tg token (last msgs) \<longrightarrow>
         (\<exists>wr'. mxlFabricsTargetReadGrainNonBlocking tg j True (wr\<lparr>fw_memory := deliver_all deliver (fw_memory ws) msgs (fw_memory wr)\<rparr>)
            = Some (ok_with (if startSlice = 0 then load_word (fw_memory ws) (lr_addr local + OFFSET_OF_INDEX) 8
                             else load_word (fw_memory wr) (t + OFFSET_OF_INDEX) 8), wr')
          \<and> (\<forall>k < grain_bytes l 8192. fw_memory wr' (t + of_nat k) =
               (if 26 \<le> k \<and> k < 28 then word_bytes 2 endSlice ! (k - 26)
                else if in_slices l \<lparr>sr_start = startSlice, sr_end = endSlice\<rparr> 8192 k then fw_memory ws (lr_addr local + of_nat k)
                else fw_memory wr (t + of_nat k)))
          \<and> (\<forall>x. x \<notin> bytes_at t (grain_bytes l 8192) \<longrightarrow> fw_memory wr' x = fw_memory wr x)))"
proof -
  let ?r = "\<lparr>sr_start = startSlice, sr_end = endSlice\<rparr>" and ?src = "fw_memory ws" and ?dst = "fw_memory wr" and ?posted = "sn_posted (ri_sender s)"
  let ?x = "if startSlice = 0 then load_word ?src (lr_addr local + OFFSET_OF_INDEX) 8 else load_word ?dst (t + OFFSET_OF_INDEX) 8"
  have arrives: "\<exists>msgs mem'.
      ge_transferGrain (tx_accept (cl_transmit cl)) index index 8192 ?r FI_ADDR_UNSPEC (p, ?posted)
        = (Ret (), p\<lparr>ge_pending := ge_pending p + of_nat (length msgs)\<rparr>, ?posted @ msgs)
    \<and> gi_read q recv (DataEntry \<lparr>co_token = token, co_remoteCqData = rm_hasData (last msgs), co_data = rm_data (last msgs)\<rparr>)
        (deliver_all deliver ?src msgs ?dst) =
      (Ret (Some (GrainReadResult ?x)), mem')
    \<and> (\<forall>k < grain_bytes l 8192. mem' (t + of_nat k) =
         (if 26 \<le> k \<and> k < 28 then word_bytes 2 endSlice ! (k - 26)
          else if in_slices l ?r 8192 k then ?src (lr_addr local + of_nat k) else ?dst (t + of_nat k)))
    \<and> (\<forall>x. x \<notin> bytes_at t (grain_bytes l 8192) \<longrightarrow> mem' x = ?dst x)" if "0 \<le> recv" for recv token
    using grain_arrives [where p = p and l = l and q = q and accept = "tx_accept (cl_transmit cl)" and deliver = deliver and resolve = resolve
        and li = index and ri = index and po = 8192 and r = ?r and t = t and region = region and src = ?src and dst = ?dst
        and posted = ?posted and token = token and recv = recv and destAddr = FI_ADDR_UNSPEC]
      that l accept arrive lists target ok fits len planes
    by (simp add: locals_def remotes_def local_def slot_def cong: if_cong)
  then obtain msgs where msgs: "ge_transferGrain (tx_accept (cl_transmit cl)) index index 8192 ?r FI_ADDR_UNSPEC (p, ?posted)
      = (Ret (), p\<lparr>ge_pending := ge_pending p + of_nat (length msgs)\<rparr>, ?posted @ msgs)"
    by blast
  have slices: "SliceRange_make startSlice endSlice = Ret ?r"
    using ok by (simp add: SliceRange_make_def slices_ok_def not_less)
  obtain ws' s' where sent: "mxlFabricsInitiatorTransferGrain cl i index startSlice endSlice ws = (ok_with (), ws')"
    "sends ws' i s' (GrainEgress (p\<lparr>ge_pending := ge_pending p + of_nat (length msgs)\<rparr>))"
    "ri_sender s' = \<lparr>sn_memory = ?src, sn_posted = ?posted @ msgs\<rparr>" "fw_memory ws' = ?src"
    using transfer_grain_through [OF ends(1) slices msgs] by blast
  have "\<exists>wr'. mxlFabricsTargetReadGrainNonBlocking tg j True (wr\<lparr>fw_memory := deliver_all deliver ?src msgs ?dst\<rparr>) = Some (ok_with ?x, wr')
      \<and> (\<forall>k < grain_bytes l 8192. fw_memory wr' (t + of_nat k) =
           (if 26 \<le> k \<and> k < 28 then word_bytes 2 endSlice ! (k - 26)
            else if in_slices l ?r 8192 k then ?src (lr_addr local + of_nat k) else ?dst (t + of_nat k)))
      \<and> (\<forall>x. x \<notin> bytes_at t (grain_bytes l 8192) \<longrightarrow> fw_memory wr' x = ?dst x)"
    if tg: "shows_completion tg token (last msgs)" for tg token
  proof -
    have recv: "0 \<le> tg_recv tg"
      using tg by (simp add: shows_completion_def)
    show ?thesis
      using arrives [OF recv, of token] msgs read_grain_through [OF _ tg, of "wr\<lparr>fw_memory := deliver_all deliver ?src msgs ?dst\<rparr>" j q ?x] ends(2)
      by fastforce
  qed
  then show ?thesis
    using sent by (intro exI [where x = msgs] exI [where x = ws'] exI [where x = s']
        exI [where x = "p\<lparr>ge_pending := ge_pending p + of_nat (length msgs)\<rparr>"] conjI) simp_all
qed

text \<open>Slices 1 and 2 of 4, in two planes with slices of 2 and of 1 bytes, over a connection whose first request id is 1.\<close>

definition interface_layout :: DataLayout_Discrete where
  "interface_layout = \<lparr>dl_sliceSizes = [2, 1], dl_totalSlices = 4\<rparr>"

definition interface_egress :: RMAGrainEgressProtocol where
  "interface_egress = \<lparr>ge_token = 1, ge_remoteRegions = [\<lparr>rr_addr = 0, rr_len = 8204, rr_rkey = 65536\<rparr>, \<lparr>rr_addr = 0, rr_len = 8204, rr_rkey = 131072\<rparr>],
     ge_layout = interface_layout, ge_localRegions = [\<lparr>lr_addr = 4096, lr_len = 8204, lr_desc = 0\<rparr>], ge_pending = 0\<rparr>"

definition interface_ingress :: RMAGrainIngressProtocol where
  "interface_ingress = \<lparr>gi_regions = [writable_region 65536 (host_region 65536 8204), writable_region 131072 (host_region 131072 8204)],
     gi_isMemoryRegistered = True, gi_immDataBuffer = False\<rparr>"

definition interface_endpoint :: Endpoint where
  "interface_endpoint = \<lparr>ep_id = 5, ep_open = True, ep_cq = True, ep_eq = True, ep_av = False\<rparr>"

definition interface_described :: TargetInfo where
  "interface_described = \<lparr>ti_id = 5, ti_fabricAddress = \<lparr>fa_inner = [], fa_addressFormat = Format_SockaddrIn\<rparr>, ti_provider = Provider_TCP,
     ti_remoteRegions = ge_remoteRegions interface_egress, ti_bounceBufferInfo = None\<rparr>"

definition interface_initiator :: "EgressProtocol \<Rightarrow> RCInitiator" where
  "interface_initiator p = \<lparr>ri_domain = [], ri_proto = GrainTemplate \<lparr>gt_layout = interface_layout, gt_regions = [host_region 4096 8204],
       gt_localRegions = Some (ge_localRegions interface_egress)\<rparr>,
     ri_targets = [(5, \<lparr>ie_state = Connected interface_endpoint, ie_info = interface_described, ie_proto = p\<rparr>)],
     ri_sender = \<lparr>sn_memory = \<lambda>_. 0, sn_posted = []\<rparr>\<rparr>"

definition interface_sending_world :: "EgressProtocol \<Rightarrow> fabrics_world" where
  "interface_sending_world p = \<lparr>fw_instances = [(16, \<lparr>fx_targets = [], fx_initiators = [(32, Some (RC_Initiator (interface_initiator p)))]\<rparr>)],
     fw_infos = [], fw_lists = [], fw_memory = ucast\<rparr>"

definition interface_receiving_world :: "IngressProtocol \<Rightarrow> fabrics_world" where
  "interface_receiving_world q = \<lparr>fw_instances = [(16, \<lparr>fx_targets = [(48, Some (RC_Target
        \<lparr>rt_proto = q, rt_state = TargetConnected interface_endpoint, rt_cqDepth = None\<rparr>))], fx_initiators = []\<rparr>)],
     fw_infos = [], fw_lists = [], fw_memory = \<lambda>_. 0\<rparr>"

definition interface_call :: initiator_call where
  "interface_call = \<lparr>cl_fabric = \<lambda>_ _. 0, cl_register = \<lambda>_ _. (0, 0, 0), cl_header_at = \<lambda>_. 0, cl_newId = 0,
     cl_av = \<lparr>av_insert = \<lambda>_. (1, 0), av_straddr = \<lambda>_. None, av_remove = \<lambda>_. 0\<rparr>,
     cl_transmit = \<lparr>tx_accept = \<lambda>_ _. 0, tx_iovLimit = 8\<rparr>,
     cl_round = \<lparr>pr_now = 0, pr_fabric = \<lambda>_ _. 0, pr_cq = [], pr_eq = []\<rparr>, cl_rounds = [],
     cl_cq = \<lambda>_. \<lparr>cr_ret = - FI_EAGAIN, cr_entry = \<lparr>co_token = 0, co_remoteCqData = False, co_data = 0\<rparr>, cr_error = 0\<rparr>,
     cl_now = 0, cl_elapsed = 0\<rparr>"

text \<open>A completion queue that shows the completion of \<open>m\<close>.\<close>

definition interface_completion :: "rma_msg \<Rightarrow> target_read" where
  "interface_completion m = \<lparr>tg_timeout = None, tg_now = 0,
     tg_rounds = [\<lparr>qr_now = 0,
       qr_cq = \<lambda>_. \<lparr>cr_ret = 1, cr_entry = \<lparr>co_token = 0, co_remoteCqData = rm_hasData m, co_data = rm_data m\<rparr>, cr_error = 0\<rparr>,
       qr_eq = \<lambda>_. \<lparr>er_ret = - FI_EAGAIN, er_type = FI_NOTIFY, er_fid = 0, er_error = (0, 0, 0)\<rparr>\<rparr>],
     tg_fabric = \<lambda>_ _. 0, tg_fi_code = \<lambda>_. 0, tg_peer = (0, None), tg_usingRecvBufForCqData = False, tg_recv = 0, tg_newId = 0\<rparr>"

lemma interface_completion_shown: "shows_completion (interface_completion m) 0 m"
  by (simp add: shows_completion_def interface_completion_def EventQueue_read_def eq_handleReadResult_def CompletionQueue_read_def
      cq_handleReadResult_def FI_EAGAIN_def FI_EAVAIL_def)

lemma interface_ends:
  "sends (interface_sending_world p) 32 (interface_initiator p) p"
  "receives (interface_receiving_world q) 48 q"
  by (simp_all add: sends_def receives_def world_initiators_def world_targets_def interface_sending_world_def interface_receiving_world_def
      interface_initiator_def interface_endpoint_def)

theorem grain_through_fabrics_witness:
  "\<exists>msgs ws' wr'. mxlFabricsInitiatorTransferGrain interface_call 32 3 1 3 (interface_sending_world (GrainEgress interface_egress)) = (ok_with (), ws')
    \<and> mxlFabricsTargetReadGrainNonBlocking (interface_completion (last msgs)) 48 True
        ((interface_receiving_world (GrainIngress interface_ingress))\<lparr>fw_memory := deliver_all keyed_write ucast msgs (\<lambda>_. 0)\<rparr>)
      = Some (ok_with (load_word (\<lambda>_. 0) (131072 + OFFSET_OF_INDEX) 8), wr')
    \<and> (\<forall>k < 8204. fw_memory wr' (131072 + of_nat k) =
         (if 26 \<le> k \<and> k < 28 then word_bytes 2 (3 :: u16) ! (k - 26)
          else if in_slices interface_layout \<lparr>sr_start = 1, sr_end = 3\<rparr> 8192 k then ucast (4096 + of_nat k :: u64) else 0))"
proof -
  have params: "accepts_all (\<lambda>_ _. 0)" "writes_arrive keyed_write (\<lambda>k a. k + a)"
    by (auto simp: accepts_all_def writes_arrive_def keyed_write_def)
  have bytes: "grain_bytes interface_layout 8192 = 8204"
    by (simp add: grain_bytes_def plane_base_def interface_layout_def)
  have active: "activePlaneCount interface_layout = 2"
    by (simp add: activePlaneCount_def interface_layout_def)
  have ok: "slices_ok interface_layout \<lparr>sr_start = 1, sr_end = 3\<rparr>"
    by (simp add: slices_ok_def interface_layout_def)
  have at: "region_at (\<lambda>k a. k + a) \<lparr>rr_addr = 0, rr_len = 8204, rr_rkey = 131072\<rparr> 131072"
    by (simp add: region_at_def)
  have planes: "\<forall>i. 2 \<le> i \<longrightarrow> i < length (dl_sliceSizes interface_layout) \<longrightarrow> dl_sliceSizes interface_layout ! i = 0"
    by (simp add: interface_layout_def)
  have memories: "fw_memory (interface_sending_world p) = ucast" "fw_memory (interface_receiving_world q) = (\<lambda>_. 0)"
    "tx_accept (cl_transmit interface_call) = (\<lambda>_ _. 0)" for p q
    by (simp_all add: interface_sending_world_def interface_receiving_world_def interface_call_def)
  note sides = interface_egress_def [THEN arg_cong [of _ _ ge_localRegions]] interface_egress_def [THEN arg_cong [of _ _ ge_remoteRegions]]
    interface_egress_def [THEN arg_cong [of _ _ ge_layout]] interface_ingress_def [THEN arg_cong [of _ _ gi_regions]]
  have "\<exists>msgs ws' s' p'. mxlFabricsInitiatorTransferGrain interface_call 32 3 1 3 (interface_sending_world (GrainEgress interface_egress)) = (ok_with (), ws')
    \<and> sends ws' 32 s' (GrainEgress p') \<and> sn_posted (ri_sender s') = sn_posted (ri_sender (interface_initiator (GrainEgress interface_egress))) @ msgs
    \<and> ge_pending p' = ge_pending interface_egress + of_nat (length msgs) \<and> fw_memory ws' = ucast
    \<and> (\<forall>tg token. shows_completion tg token (last msgs) \<longrightarrow>
         (\<exists>wr'. mxlFabricsTargetReadGrainNonBlocking tg 48 True ((interface_receiving_world (GrainIngress interface_ingress))\<lparr>fw_memory := deliver_all keyed_write ucast msgs (\<lambda>_. 0)\<rparr>)
            = Some (ok_with (load_word (\<lambda>_. 0) (131072 + OFFSET_OF_INDEX) 8), wr')
          \<and> (\<forall>k < 8204. fw_memory wr' (131072 + of_nat k) =
               (if 26 \<le> k \<and> k < 28 then word_bytes 2 (3 :: u16) ! (k - 26)
                else if in_slices interface_layout \<lparr>sr_start = 1, sr_end = 3\<rparr> 8192 k then ucast (4096 + of_nat k :: u64) else 0))
          \<and> (\<forall>x. x \<notin> bytes_at 131072 8204 \<longrightarrow> fw_memory wr' x = 0)))"
    using grain_through_fabrics [where index = 3 and l = interface_layout and t = 131072 and region = "host_region 131072 8204",
        OF interface_ends, where cl = interface_call and deliver = keyed_write and resolve = "\<lambda>k a. k + a" and startSlice = 1 and endSlice = 3
        and p = interface_egress and q = interface_ingress] params bytes active ok at planes
    by (simp add: sides memories cong: if_cong split del: if_split flip: numeral_2_eq_2)
  then show ?thesis
    using interface_completion_shown by blast
qed

text \<open>
  C30: Samples that an initiator transfers arrive: the target, once it sees the completion of the last request, reports the head
  and the number of samples, and then has, for every channel and every index of the window, the sample of the ring of the sender,
  also when the two rings have different lengths. Nothing but the window and the entry of the bounce buffer is changed.
\<close>

theorem samples_through_fabrics:
  fixes p q cl
  defines "ls \<equiv> se_layout p" and "lt \<equiv> ab_layout (si_bounceBuffer q)" and "iovLimit \<equiv> tx_iovLimit (cl_transmit cl)"
  assumes ends: "sends ws i s (SampleEgress p)" "receives wr j (SampleIngress q)"
    and accept: "accepts_all (tx_accept (cl_transmit cl))" and arrive: "writes_arrive deliver resolve"
    and sender: "sender_wf p" "advertised resolve (si_bounceBuffer q) (se_remoteInfo p)"
      "unat (se_bounceBufferEntryCount p) = length (ab_entries (si_bounceBuffer q))"
    and same: "dl_sampleSize lt = dl_sampleSize ls" "dl_channelCount lt = dl_channelCount ls"
    and some: "0 < unat (dl_channelCount ls)" "0 < unat (dl_sampleSize ls)"
    and windows: "window_ok ls h n" "window_ok lt h n"
    and fits: "16 + unat (dl_channelCount ls) * (unat n * unat (dl_sampleSize ls)) \<le> unat (ab_size (si_bounceBuffer q))"
    and limit: "0 < unat iovLimit" "unat (ab_size (si_bounceBuffer q)) + unat iovLimit < 2 ^ 64"
    and away: "bytes_at (header_addr p) 16 \<inter> bytes_at (lr_addr (se_localRegion p)) (layout_bytes ls) = {}"
      "bytes_at (ab_entries (si_bounceBuffer q) ! unat (se_bounceBufferEntryIndex p)) (unat (ab_size (si_bounceBuffer q)))
        \<inter> bytes_at (rg_base (si_region q)) (layout_bytes lt) = {}"
  shows "\<exists>msgs ws' s' p'. mxlFabricsInitiatorTransferSamples cl i h n ws = (ok_with (), ws')
    \<and> sends ws' i s' (SampleEgress p') \<and> sender_wf p' \<and> sn_posted (ri_sender s') = sn_posted (ri_sender s) @ msgs
    \<and> se_pending p' = se_pending p + of_nat (length msgs)
    \<and> (\<forall>tg token. shows_completion tg token (last msgs) \<longrightarrow>
         (\<exists>wr'. mxlFabricsTargetReadSamplesNonBlocking tg j True True
              (wr\<lparr>fw_memory := deliver_all deliver (fw_memory ws') msgs (fw_memory wr)\<rparr>) = Some (ok_with (h, n), wr')
          \<and> (\<forall>c < unat (dl_channelCount ls). \<forall>k \<in> {unat h - unat n..<unat h}. \<forall>b < unat (dl_sampleSize ls).
               sample_byte (fw_memory wr') (rg_base (si_region q)) lt c k b = sample_byte (fw_memory ws) (lr_addr (se_localRegion p)) ls c k b)
          \<and> (\<forall>x. x \<notin> set (layout_addrs (rg_base (si_region q)) lt h n) \<longrightarrow>
               x \<notin> bytes_at (ab_entries (si_bounceBuffer q) ! unat (se_bounceBufferEntryIndex p)) (unat (ab_size (si_bounceBuffer q))) \<longrightarrow>
               fw_memory wr' x = fw_memory wr x)))"
proof -
  let ?src = "fw_memory ws" and ?dst = "fw_memory wr" and ?posted = "sn_posted (ri_sender s)"
  have arrives: "\<exists>msgs src' p' mem'.
    se_transferSamples (tx_accept (cl_transmit cl)) iovLimit h n FI_ADDR_UNSPEC (p, \<lparr>sn_memory = ?src, sn_posted = ?posted\<rparr>)
      = (Ret (), p', \<lparr>sn_memory = src', sn_posted = ?posted @ msgs\<rparr>)
    \<and> se_pending p' = se_pending p + of_nat (length msgs) \<and> sender_wf p'
    \<and> si_read q recv (DataEntry \<lparr>co_token = token, co_remoteCqData = rm_hasData (last msgs), co_data = rm_data (last msgs)\<rparr>)
        (deliver_all deliver src' msgs ?dst) = (Ret (Some (SampleReadResult h n)), mem')
    \<and> (\<forall>c < unat (dl_channelCount ls). \<forall>k \<in> {unat h - unat n..<unat h}. \<forall>b < unat (dl_sampleSize ls).
         sample_byte mem' (rg_base (si_region q)) lt c k b = sample_byte ?src (lr_addr (se_localRegion p)) ls c k b)
    \<and> (\<forall>x. x \<notin> set (layout_addrs (rg_base (si_region q)) lt h n) \<longrightarrow>
         x \<notin> bytes_at (ab_entries (si_bounceBuffer q) ! unat (se_bounceBufferEntryIndex p)) (unat (ab_size (si_bounceBuffer q))) \<longrightarrow>
         mem' x = ?dst x)" if "0 \<le> recv" for recv token
    using samples_arrive [OF accept arrive sender same [unfolded ls_def lt_def] some [unfolded ls_def] windows [unfolded ls_def lt_def]
        fits [unfolded ls_def] limit [unfolded iovLimit_def] away [unfolded ls_def lt_def] that,
        where src = ?src and posted = ?posted and dst = ?dst and token = token and destAddr = FI_ADDR_UNSPEC]
    unfolding ls_def lt_def iovLimit_def by blast
  obtain msgs src' p' where msgs:
    "se_transferSamples (tx_accept (cl_transmit cl)) iovLimit h n FI_ADDR_UNSPEC (p, \<lparr>sn_memory = ?src, sn_posted = ?posted\<rparr>)
      = (Ret (), p', \<lparr>sn_memory = src', sn_posted = ?posted @ msgs\<rparr>)"
    "se_pending p' = se_pending p + of_nat (length msgs)" "sender_wf p'"
    using arrives [OF order_refl] by blast
  obtain ws' s' where sent: "mxlFabricsInitiatorTransferSamples cl i h n ws = (ok_with (), ws')" "sends ws' i s' (SampleEgress p')"
    "ri_sender s' = \<lparr>sn_memory = src', sn_posted = ?posted @ msgs\<rparr>" "fw_memory ws' = src'"
    using transfer_samples_through [OF ends(1) msgs(1) [unfolded iovLimit_def]] by blast
  have "\<exists>wr'. mxlFabricsTargetReadSamplesNonBlocking tg j True True (wr\<lparr>fw_memory := deliver_all deliver src' msgs ?dst\<rparr>)
        = Some (ok_with (h, n), wr')
      \<and> (\<forall>c < unat (dl_channelCount ls). \<forall>k \<in> {unat h - unat n..<unat h}. \<forall>b < unat (dl_sampleSize ls).
           sample_byte (fw_memory wr') (rg_base (si_region q)) lt c k b = sample_byte ?src (lr_addr (se_localRegion p)) ls c k b)
      \<and> (\<forall>x. x \<notin> set (layout_addrs (rg_base (si_region q)) lt h n) \<longrightarrow>
           x \<notin> bytes_at (ab_entries (si_bounceBuffer q) ! unat (se_bounceBufferEntryIndex p)) (unat (ab_size (si_bounceBuffer q))) \<longrightarrow>
           fw_memory wr' x = ?dst x)"
    if tg: "shows_completion tg token (last msgs)" for tg token
  proof -
    have recv: "0 \<le> tg_recv tg"
      using tg by (simp add: shows_completion_def)
    show ?thesis
      using arrives [OF recv, of token] msgs(1) read_samples_through [OF _ tg, of "wr\<lparr>fw_memory := deliver_all deliver src' msgs ?dst\<rparr>" j q h n] ends(2)
      by fastforce
  qed
  then show ?thesis
    using sent msgs(2,3) by (intro exI [where x = msgs] exI [where x = ws'] exI [where x = s'] exI [where x = p'] conjI) simp_all
qed

text \<open>The rings of \<^verbatim>\<open>FabricSamples\<close>, with 4 and 3 samples.\<close>

lemma interface_call_parts:
  "fw_memory (interface_sending_world p) = ucast" "fw_memory (interface_receiving_world q) = (\<lambda>_. 0)"
  "tx_accept (cl_transmit interface_call) = (\<lambda>_ _. 0)" "tx_iovLimit (cl_transmit interface_call) = 8"
  by (simp_all add: interface_sending_world_def interface_receiving_world_def interface_call_def)

lemma example_ring_parts:
  "se_layout example_sender = example_layout 4" "lr_addr (se_localRegion example_sender) = 100" "header_addr example_sender = 216"
  "se_bounceBufferEntryIndex example_sender = 1" "se_bounceBufferEntryCount example_sender = 2"
  "ab_layout (si_bounceBuffer example_receiver) = example_layout 3" "ab_size (si_bounceBuffer example_receiver) = 32"
  "ab_entries (si_bounceBuffer example_receiver) = [1000, 2000]" "rg_base (si_region example_receiver) = 3000"
  "dl_sampleSize (example_layout n) = 2" "dl_channelCount (example_layout n) = 2"
  "layout_bytes (example_layout 4) = 16" "layout_bytes (example_layout 3) = 12"
  by (simp_all add: example_sender_def example_receiver_def example_layout_def host_region_def header_addr_def layout_bytes_def)

theorem samples_through_fabrics_witness:
  "\<exists>msgs ws' wr'. mxlFabricsInitiatorTransferSamples interface_call 32 5 2 (interface_sending_world (SampleEgress example_sender)) = (ok_with (), ws')
    \<and> mxlFabricsTargetReadSamplesNonBlocking (interface_completion (last msgs)) 48 True True
        ((interface_receiving_world (SampleIngress example_receiver))\<lparr>fw_memory := deliver_all plain_write (fw_memory ws') msgs (\<lambda>_. 0)\<rparr>)
      = Some (ok_with (5, 2), wr')
    \<and> (\<forall>c < 2. \<forall>k \<in> {3..<5}. \<forall>b < 2.
         sample_byte (fw_memory wr') 3000 (example_layout 3) c k b = sample_byte ucast 100 (example_layout 4) c k b)"
proof -
  have params: "accepts_all (\<lambda>_ _. 0)" "writes_arrive plain_write (\<lambda>_ a. a)"
    by (auto simp: accepts_all_def writes_arrive_def plain_write_def)
  have wf: "sender_wf example_sender"
    by (simp add: sender_wf_def example_sender_def SIZEOF_AUDIO_ENTRY_HEADER_def)
  have adv: "advertised (\<lambda>_ a. a) (si_bounceBuffer example_receiver) (se_remoteInfo example_sender)"
    by (auto simp: advertised_def example_sender_def example_receiver_def entryCount_def entrySize_def region_at_def less_Suc_eq)
  have windows: "window_ok (example_layout 4) 5 2" "window_ok (example_layout 3) 5 2"
    by (simp_all add: window_ok_def layout_bytes_def example_layout_def)
  have apart: "bytes_at 216 16 \<inter> bytes_at 100 16 = {}" "bytes_at 2000 32 \<inter> bytes_at 3000 12 = {}"
    by (rule bytes_at_disjoint; simp)+
  have "\<exists>msgs ws'. mxlFabricsInitiatorTransferSamples interface_call 32 5 2 (interface_sending_world (SampleEgress example_sender)) = (ok_with (), ws')
    \<and> (\<forall>tg token. shows_completion tg token (last msgs) \<longrightarrow>
         (\<exists>wr'. mxlFabricsTargetReadSamplesNonBlocking tg 48 True True
              ((interface_receiving_world (SampleIngress example_receiver))\<lparr>fw_memory := deliver_all plain_write (fw_memory ws') msgs (\<lambda>_. 0)\<rparr>)
            = Some (ok_with (5, 2), wr')
          \<and> (\<forall>c < 2. \<forall>k \<in> {3..<5}. \<forall>b < 2.
               sample_byte (fw_memory wr') 3000 (example_layout 3) c k b = sample_byte ucast 100 (example_layout 4) c k b)))"
    using samples_through_fabrics [OF interface_ends, where cl = interface_call and deliver = plain_write and resolve = "\<lambda>_ a. a"
        and p = example_sender and q = example_receiver and h = 5 and n = 2] params wf adv windows apart
    by (simp add: interface_call_parts example_ring_parts) (elim exE conjE, intro exI conjI, assumption, blast)
  then show ?thesis
    using interface_completion_shown by blast
qed

section \<open>Descriptions as text\<close>

lemma text_into_fits:
  "CHR 0x00 \<notin> set text \<Longrightarrow> length buffer = length text + 1 \<Longrightarrow>
    text_into (Some buffer) (length text + 1) text = ok_with (length text + 1, Some (text @ [CHR 0x00]))"
  using strncpy_terminated [of "text"] by (simp add: text_into_def)

text \<open>
  C36: The description of a target goes through text from one process to another: a first call without a buffer tells the size,
  a second one with a buffer of that size fills it, and the description that another process makes of the text in the buffer
  is the one the target has; the other descriptions of that process stay.
\<close>

theorem description_through_text:
  fixes t fi_code serialize
  defines "text \<equiv> toJSON serialize fi_code t"
  assumes "info \<noteq> 0" "map_of (fw_infos w) info = Some t" "CHR 0x00 \<notin> set text"
    and "parse (serialize (target_json fi_code t)) = Some (target_json fi_code t)" "inj fi_code"
    and "fa_inner (ti_fabricAddress t) \<noteq> []" "fa_addressFormat (ti_fabricAddress t) \<noteq> Format_Unspec"
    and "length buffer = length text + 1"
  shows "mxlFabricsTargetInfoToString serialize fi_code info None (Some n) w = (ok_with (length text + 1, None), w)
    \<and> (\<exists>filled w'. mxlFabricsTargetInfoToString serialize fi_code info (Some buffer) (Some (length text + 1)) w
           = (ok_with (length text + 1, Some filled), w)
         \<and> mxlFabricsTargetInfoFromString parse fi_code p (Some (takeWhile (\<lambda>c. c \<noteq> CHR 0x00) filled)) True v = (ok_with p, w')
         \<and> map_of (fw_infos w') p = Some t \<and> (\<forall>q. q \<noteq> p \<longrightarrow> map_of (fw_infos w') q = map_of (fw_infos v) q))"
proof -
  note try_defs = try_run_def caught_act_def caught_def bind_act_def lift_act_def ok_act_def ok_with_def with_info_def
  have "mxlFabricsTargetInfoToString serialize fi_code info out (Some m) w = (text_into out m text, w)"
    if "text_into out m text = ok_with y" for out m y
    using assms(2,3) that by (simp add: mxlFabricsTargetInfoToString_def text_def try_defs)
  then have "mxlFabricsTargetInfoToString serialize fi_code info None (Some n) w = (ok_with (length text + 1, None), w)"
    "mxlFabricsTargetInfoToString serialize fi_code info (Some buffer) (Some (length text + 1)) w
      = (ok_with (length text + 1, Some (text @ [CHR 0x00])), w)"
    using text_into_fits [OF assms(4,9)] by (simp_all add: text_into_def)
  moreover have "takeWhile (\<lambda>c. c \<noteq> CHR 0x00) (text @ [CHR 0x00]) = text"
    using assms(4) by (subst takeWhile_append2) auto
  moreover have "mxlFabricsTargetInfoFromString parse fi_code p (Some text) True v = (ok_with p, v\<lparr>fw_infos := (p, t) # fw_infos v\<rparr>)"
    using target_info_roundtrip [where parse = parse and serialize = serialize and fi_code = fi_code, OF assms(5-8)] by (simp add: mxlFabricsTargetInfoFromString_def text_def try_defs)
  ultimately show ?thesis
    by (intro conjI exI) (assumption | simp)+
qed

theorem description_through_text_witness:
  "\<exists>filled w'. mxlFabricsTargetInfoToString (\<lambda>_. ''{..}'') sample_code 64 (Some ''buffe'') (Some 5)
       ((interface_sending_world (GrainEgress interface_egress))\<lparr>fw_infos := [(64, sample_target)]\<rparr>)
      = (ok_with (5, Some filled), (interface_sending_world (GrainEgress interface_egress))\<lparr>fw_infos := [(64, sample_target)]\<rparr>)
    \<and> mxlFabricsTargetInfoFromString (\<lambda>_. Some (target_json sample_code sample_target)) sample_code 80
        (Some (takeWhile (\<lambda>c. c \<noteq> CHR 0x00) filled)) True (interface_sending_world (GrainEgress interface_egress)) = (ok_with 80, w')
    \<and> map_of (fw_infos w') 80 = Some sample_target"
proof -
  have "toJSON (\<lambda>_. ''{..}'') sample_code sample_target = ''{..}''"
    by (simp add: toJSON_def)
  moreover have sizes: "Suc (Suc (Suc (Suc (Suc 0)))) = 5"
    by simp
  moreover have "fa_inner (ti_fabricAddress sample_target) \<noteq> []" "fa_addressFormat (ti_fabricAddress sample_target) \<noteq> Format_Unspec"
    by (simp_all add: sample_target_def)
  ultimately show ?thesis
    using description_through_text [where serialize = "\<lambda>_. ''{..}''" and fi_code = sample_code and t = sample_target and info = 64
        and w = "(interface_sending_world (GrainEgress interface_egress))\<lparr>fw_infos := [(64, sample_target)]\<rparr>"
        and parse = "\<lambda>_. Some (target_json sample_code sample_target)" and buffer = "''buffe''" and n = 0 and p = 80
        and v = "interface_sending_world (GrainEgress interface_egress)", OF _ _ _ refl inj_sample_code]
    by (simp add: sizes) blast
qed

end
