(* ===== verification/Spec2Isabelle.thy ===== *)
theory Spec2Isabelle
  imports InstanceHandles FlowGeometry FlowApiProofs FabricProgress FabricTargetProofs FabricRdmProofs
    FabricInterfaceProofs FabricSetupProofs FabricApiProofs
begin

text \<open>
  A verification library for MXL, the Media eXchange Layer: media flows that live in memory shared between
  the processes of one machine. It models the C++ implementation under \<^verbatim>\<open>src/lib\<close>.

  The program. A \<^emph>\<open>domain\<close> is a directory. A \<^emph>\<open>flow\<close> is a sub-directory of it with a data file
  (configuration, runtime information, a synchronisation counter) and the rings with the media: one file
  per grain for a discrete flow (video, data), one file with all channels for a continuous flow (audio),
  one file with a ring of slots for an event flow. A writer moves the head index and bumps the counter;
  readers in other processes map the same files, read the window behind the head and wait on the counter.

  The theories, from the bottom:

  \<^item> \<^verbatim>\<open>MxlPrelude\<close>: machine integers, status codes, the outcome of a call (it returns, throws, or is
    undefined behaviour), checked signed arithmetic, lemmas on words and ring positions.
  \<^item> \<^verbatim>\<open>Timing\<close>: \<^verbatim>\<open>Timing.hpp\<close>, \<^verbatim>\<open>Time.cpp\<close>, \<^verbatim>\<open>IndexConversion.hpp\<close>, \<^verbatim>\<open>Rational.hpp\<close>, \<^verbatim>\<open>time.cpp\<close>. Time points, durations
    and rationals with checked 64-bit and 128-bit arithmetic; the conversion between indices and times.
  \<^item> \<^verbatim>\<open>Bytes\<close>, \<^verbatim>\<open>FlowTypes\<close>: little-endian bytes of words; the structures of \<^verbatim>\<open>flowinfo.h\<close> and \<^verbatim>\<open>flow.h\<close> as
    records, the data formats and line lengths.
  \<^item> \<^verbatim>\<open>EventRing\<close>: \<^verbatim>\<open>EventRingBuffer\<close>, run by one process at a time; its refinement to a log; the interface
    \<^verbatim>\<open>log_writer\<close> that its clients rely on. \<^verbatim>\<open>EventRingRace\<close>: the same algorithm as a step relation in which the
    loads and stores of a writer, its crashes and any number of readers interleave.
  \<^item> \<^verbatim>\<open>Sync\<close>: the futex wait of \<^verbatim>\<open>Sync.cpp\<close>, over the list of rounds it observes.
  \<^item> \<^verbatim>\<open>EventFlow\<close>, \<^verbatim>\<open>DiscreteFlow\<close>, \<^verbatim>\<open>ContinuousFlow\<close>: the three kinds of flow with their \<^verbatim>\<open>Posix*FlowWriter\<close> and
    \<^verbatim>\<open>Posix*FlowReader\<close>. Each has a predicate that relates the shared memory to the log of what was
    committed; writing refines extending the log, reading gives what the log says.
  \<^item> \<^verbatim>\<open>SyncGroup\<close>: \<^verbatim>\<open>FlowSynchronizationGroup.cpp\<close>.
  \<^item> \<^verbatim>\<open>FlowParsing\<close>: \<^verbatim>\<open>FlowParser.cpp\<close> and \<^verbatim>\<open>FlowOptionsParser.cpp\<close> over JSON values.
  \<^item> \<^verbatim>\<open>SharedMemory\<close>: files with advisory locks, the system calls the library uses with any of them failing,
    and \<^verbatim>\<open>SharedMemory.cpp\<close>; exclusive locks are exclusive in every reachable state.
  \<^item> \<^verbatim>\<open>FlowManager\<close>: \<^verbatim>\<open>FlowManager.cpp\<close>, \<^verbatim>\<open>PathUtils.cpp\<close> and the mappings of a flow: creation in a temporary
    directory that is renamed into place, opening, deleting, listing. \<^verbatim>\<open>FlowCreation\<close>: a calculus of the
    mappings an action takes over and gives back, and what creating a flow leaves behind on every path.
  \<^item> \<^verbatim>\<open>DomainWatcher\<close>: \<^verbatim>\<open>DomainWatcher.cpp\<close> on Linux: the registrations of writers with the kernel watches behind
    them, and the event loop over what each turn of \<^verbatim>\<open>epoll_wait\<close> and \<^verbatim>\<open>read\<close> gives.
  \<^item> \<^verbatim>\<open>FlowIo\<close>: readers and writers as objects that own mappings (\<^verbatim>\<open>FlowIoFactory.cpp\<close>,
    \<^verbatim>\<open>PosixFlowIoFactory.cpp\<close>, the constructors and destructors of the six Posix classes). Loading the data
    of a flow from the mapped files and storing it back connects the three flow theories, which speak of
    the data of one flow, with the shared files.
  \<^item> \<^verbatim>\<open>Instance\<close>: \<^verbatim>\<open>Instance.cpp\<close>: the reference-counted readers and writers of a process, the creation of
    writers and flows, options, synchronization groups, garbage collection. \<^verbatim>\<open>InstanceHandles\<close>: an instance
    with a client that gets and releases handles in any order, as a step relation; every held handle is
    live. \<^verbatim>\<open>FlowGeometry\<close>: the sizes of the rings of a new flow.
  \<^item> \<^verbatim>\<open>FlowApi\<close>: the functions of the public C interface, \<^verbatim>\<open>flow.cpp\<close> and \<^verbatim>\<open>mxl.cpp\<close>: null checks, the dispatch on
    the kind of a reader or writer, the exceptions that become status codes. \<^verbatim>\<open>FlowApiProofs\<close>: what the
    interface promises.
  \<^item> \<^verbatim>\<open>FabricRegions\<close>, \<^verbatim>\<open>Base64\<close>, \<^verbatim>\<open>TargetInfo\<close>: the data of the transport between machines under
    \<^verbatim>\<open>src/lib/fabrics/ofi\<close>: memory regions and their parts, immediate data, layouts of grains and samples, and
    the description that a target gives to its initiators with its form as text.
  \<^item> \<^verbatim>\<open>FabricTransfer\<close>: the remote writes of \<^verbatim>\<open>Endpoint.cpp\<close> and the two sides of the grain and sample protocols.
    Libfabric is a parameter: \<open>acceptor\<close> says which requests it takes, \<open>delivery\<close> what a request does to the memory
    of the receiver. \<^verbatim>\<open>FabricDelivery\<close>: what single and grouped writes do; \<^verbatim>\<open>FabricSamples\<close>, \<^verbatim>\<open>FabricGrains\<close>: media
    that was sent arrives, byte for byte, and nothing else is changed.
  \<^item> \<^verbatim>\<open>FabricAddress\<close>: \<^verbatim>\<open>FabricAddress.cpp\<close>: the decoding of raw addresses, their text, and the parsing of a
    node and a service. \<^verbatim>\<open>FabricEndpoint\<close>: endpoints, completion and event queues, address vectors; a \<open>fabric\<close> says
    what libfabric returns from a call, and a queue is what its reads return.
  \<^item> \<^verbatim>\<open>FabricInitiator\<close>: \<^verbatim>\<open>RCInitiator.cpp\<close>, an endpoint for every target with the states of its connection, and the
    progress over the queues. \<^verbatim>\<open>FabricProgress\<close>: the accounting of requests, and a shutdown that comes to its end.
  \<^item> \<^verbatim>\<open>FabricRdmInitiator\<close>: \<^verbatim>\<open>RDMInitiator.cpp\<close>, one endpoint for all targets. \<^verbatim>\<open>FabricRdmProofs\<close>: its two maps refine
    a single one, and progress ends with the last completion.
  \<^item> \<^verbatim>\<open>FabricTarget\<close>: \<^verbatim>\<open>RCTarget.cpp\<close> and \<^verbatim>\<open>RDMTarget.cpp\<close>, the receiving side with the states of its connection.
    \<^verbatim>\<open>FabricTargetProofs\<close>: it follows the protocol of the connection; what errors and signals do to it.
  \<^item> \<^verbatim>\<open>FabricInterfaces\<close>: the interfaces of a machine, \<^verbatim>\<open>FabricInterfaceProbe.cpp\<close>, \<^verbatim>\<open>ProviderConfig.cpp\<close>,
    \<^verbatim>\<open>FabricInterfaceDescription.cpp\<close> and the C list that is made of them. A \<open>libfabric\<close> holds its constants and what
    \<^verbatim>\<open>fi_getinfo\<close> returns. \<^verbatim>\<open>FabricInterfaceProofs\<close>: the probe equals a plain filter, and lists are freed completely.
  \<^item> \<^verbatim>\<open>FabricSetup\<close>: how targets and initiators are set up on an interface and a flow, and the wrappers of
    \<^verbatim>\<open>Target.cpp\<close> and \<^verbatim>\<open>Initiator.cpp\<close> that choose between the two kinds. \<^verbatim>\<open>FabricSetupProofs\<close>: a new target starts in a
    reachable state and describes itself truthfully.
  \<^item> \<^verbatim>\<open>FabricApi\<close>: the C interface of the transport, \<^verbatim>\<open>fabrics.cpp\<close> over \<^verbatim>\<open>FabricInstance.cpp\<close>. \<^verbatim>\<open>FabricApiProofs\<close>: media
    that one process transfers through it is what another reads, and descriptions survive their way as text.

  Loops that wait for another process are functions of the list of rounds they see: a result of \<^verbatim>\<open>None\<close>
  says that the list was too short. Loops over data are structural or have a termination proof.

  Not modelled: printing and logging, the sleeping functions, the wake-up side of the futex, floating-point
  conversions of durations, the kqueue variant of the watcher, the closing of libfabric handles and the memory
  of its \<^verbatim>\<open>fi_info\<close> objects, and the command line tools.
\<close>

end
